(* ===== verification/Smq_Prelude.thy ===== *)
theory Smq_Prelude
  imports Main "HOL-Library.FSet" "HOL-Library.Finite_Map"
begin

text \<open>
  Shared vocabulary of the development.

  A Go function that may fail and that talks to the outside world (the Redis server, the event
  buses) is a function \<open>'s \<Rightarrow> ('e + 'a) \<times> 's\<close>: it takes the state of the world, and returns
  either an error or a value together with the new state. \<open>ret\<close>, \<open>throw\<close> and \<open>and_then\<close> are
  the plumbing that the Go code writes out as \<open>if err != nil { return err }\<close>.
  The same type carries the Lua scripts, whose world is the database itself.
\<close>

named_theorems io_simps \<open>unfolding of the state-and-error plumbing\<close>
named_theorems io_ok \<open>what a successful run of a composite tells about its parts\<close>
named_theorems keeps_intros \<open>composition rules for computations that leave an observation unchanged\<close>

subsection \<open>Computations with state and errors\<close>

type_synonym ('s, 'e, 'a) io = "'s \<Rightarrow> ('e + 'a) \<times> 's"

definition ret :: "'a \<Rightarrow> ('s, 'e, 'a) io" where
  "ret x = (\<lambda>s. (Inr x, s))"

definition throw :: "'e \<Rightarrow> ('s, 'e, 'a) io" where
  "throw e = (\<lambda>s. (Inl e, s))"

definition and_then :: "('s, 'e, 'a) io \<Rightarrow> ('a \<Rightarrow> ('s, 'e, 'b) io) \<Rightarrow> ('s, 'e, 'b) io" where
  "and_then m f = (\<lambda>s. case m s of (Inl e, s') \<Rightarrow> (Inl e, s') | (Inr x, s') \<Rightarrow> f x s')"

text \<open>\<open>try_io\<close> hands the error to the continuation as a value: the Go code that inspects
  \<open>err\<close> instead of returning it.\<close>

definition try_io :: "('s, 'e, 'a) io \<Rightarrow> ('s, 'f, 'e + 'a) io" where
  "try_io m = (\<lambda>s. case m s of (r, s') \<Rightarrow> (Inr r, s'))"

definition map_err :: "('e \<Rightarrow> 'f) \<Rightarrow> ('s, 'e, 'a) io \<Rightarrow> ('s, 'f, 'a) io" where
  "map_err h m = (\<lambda>s. case m s of (Inl e, s') \<Rightarrow> (Inl (h e), s') | (Inr x, s') \<Rightarrow> (Inr x, s'))"

text \<open>A loop that runs a computation on each element in turn and stops at the first error.\<close>

primrec for_io :: "('x \<Rightarrow> ('s, 'e, 'a) io) \<Rightarrow> 'x list \<Rightarrow> ('s, 'e, 'a list) io" where
  "for_io f [] = ret []"
| "for_io f (x # xs) = and_then (f x) (\<lambda>y. and_then (for_io f xs) (\<lambda>ys. ret (y # ys)))"

text \<open>A result that was computed without touching the world.\<close>

definition lift_sum :: "'e + 'a \<Rightarrow> ('s, 'e, 'a) io" where
  "lift_sum r = (\<lambda>s. (r, s))"

lemma ret_apply [simp, io_simps]: "ret x s = (Inr x, s)"
  by (simp add: ret_def)

lemma throw_apply [simp, io_simps]: "throw e s = (Inl e, s)"
  by (simp add: throw_def)

lemma lift_sum_apply [simp, io_simps]: "lift_sum r s = (r, s)"
  by (simp add: lift_sum_def)

lemma and_then_ret [simp]: "and_then (ret x) f = f x"
  by (simp add: and_then_def fun_eq_iff)

lemma and_then_throw [simp]: "and_then (throw e) f = throw e"
  by (simp add: and_then_def fun_eq_iff)

lemma and_then_ret_right [simp]: "and_then m ret = m"
  by (auto simp: and_then_def fun_eq_iff split: prod.splits sum.splits)

lemma and_then_assoc: "and_then (and_then m f) g = and_then m (\<lambda>x. and_then (f x) g)"
  by (auto simp: and_then_def fun_eq_iff split: prod.splits sum.splits)

lemma and_then_Inr: "m s = (Inr x, s') \<Longrightarrow> and_then m f s = f x s'"
  by (simp add: and_then_def)

lemma and_then_Inl: "m s = (Inl e, s') \<Longrightarrow> and_then m f s = (Inl e, s')"
  by (simp add: and_then_def)

lemma and_then_ok [io_ok]:
  "and_then m f s = (Inr y, s'') \<longleftrightarrow> (\<exists>x s'. m s = (Inr x, s') \<and> f x s' = (Inr y, s''))"
  by (auto simp: and_then_def split: prod.splits sum.splits)

lemma and_then_err:
  "and_then m f s = (Inl e, s'') \<longleftrightarrow>
     m s = (Inl e, s'') \<or> (\<exists>x s'. m s = (Inr x, s') \<and> f x s' = (Inl e, s''))"
  by (auto simp: and_then_def split: prod.splits sum.splits)

lemma map_err_ok [io_ok]: "map_err h m s = (Inr x, s') \<longleftrightarrow> m s = (Inr x, s')"
  by (auto simp: map_err_def split: prod.splits sum.splits)

lemma map_err_err: "map_err h m s = (Inl e, s') \<longleftrightarrow> (\<exists>e'. e = h e' \<and> m s = (Inl e', s'))"
  by (auto simp: map_err_def split: prod.splits sum.splits)

lemma map_err_Inr: "m s = (Inr x, s') \<Longrightarrow> map_err h m s = (Inr x, s')"
  by (simp add: map_err_def)

lemma map_err_Inl: "m s = (Inl e, s') \<Longrightarrow> map_err h m s = (Inl (h e), s')"
  by (simp add: map_err_def)

lemma map_err_ret [simp]: "map_err h (ret x) = ret x"
  by (simp add: map_err_def fun_eq_iff)

lemma map_err_throw [simp]: "map_err h (throw e) = throw (h e)"
  by (simp add: map_err_def fun_eq_iff)

lemma try_io_ok [io_ok]: "try_io m s = (Inr r, s') \<longleftrightarrow> m s = (r, s')"
  by (auto simp: try_io_def split: prod.splits)

lemma try_io_eq: "m s = (r, s') \<Longrightarrow> try_io m s = (Inr r, s')"
  by (simp add: try_io_def)

lemma and_then_lift_sum [simp]:
  "and_then (lift_sum (Inr x)) f = f x" "and_then (lift_sum (Inl e)) f = throw e"
  by (simp_all add: and_then_def lift_sum_def fun_eq_iff)

lemma and_then_map_err:
  "m s = (Inr x, s') \<Longrightarrow> and_then (map_err h m) f s = f x s'"
  "m s = (Inl e, s') \<Longrightarrow> and_then (map_err h m) f s = (Inl (h e), s')"
  by (simp_all add: and_then_def map_err_def)

lemma try_then: "and_then (try_io m) f s = (case m s of (r, s') \<Rightarrow> f r s')"
  by (simp add: and_then_def try_io_def split: prod.splits)

lemma for_io_length: "for_io f xs s = (Inr ys, s') \<Longrightarrow> length ys = length xs"
  by (induction xs arbitrary: s ys) (auto simp: and_then_ok)

subsection \<open>Computations that leave an observation of the world unchanged\<close>

definition keeps :: "('s \<Rightarrow> 'd) \<Rightarrow> ('s, 'e, 'a) io \<Rightarrow> bool" where
  "keeps obs m \<longleftrightarrow> (\<forall>s r s'. m s = (r, s') \<longrightarrow> obs s' = obs s)"

lemma keepsD: "keeps obs m \<Longrightarrow> m s = (r, s') \<Longrightarrow> obs s' = obs s"
  by (simp add: keeps_def)

lemma keeps_Pair [simp, keeps_intros]: "keeps obs (Pair r)"
  by (simp add: keeps_def)

lemma keeps_ret [simp, keeps_intros]: "keeps obs (ret x)"
  by (simp add: keeps_def)

lemma keeps_throw [simp, keeps_intros]: "keeps obs (throw e)"
  by (simp add: keeps_def)

lemma keeps_lift_sum [simp, keeps_intros]: "keeps obs (lift_sum r)"
  by (simp add: keeps_def)

lemma keeps_and_then [keeps_intros]:
  assumes "keeps obs m" and "\<And>x. keeps obs (f x)"
  shows "keeps obs (and_then m f)"
proof -
  have "obs s' = obs s" if run: "and_then m f s = (r, s')" for s r s'
  proof (cases "m s")
    case (Pair r1 s1)
    with assms(1) have eq: "obs s1 = obs s"
      by (simp add: keeps_def)
    show ?thesis
    proof (cases r1)
      case (Inl e)
      with Pair run eq show ?thesis by (simp add: and_then_def)
    next
      case (Inr x)
      with Pair run have "f x s1 = (r, s')" by (simp add: and_then_def)
      with assms(2) [of x] eq show ?thesis by (simp add: keeps_def)
    qed
  qed
  then show ?thesis by (auto simp: keeps_def)
qed

lemma keeps_map_err [keeps_intros]: "keeps obs m \<Longrightarrow> keeps obs (map_err h m)"
  unfolding keeps_def map_err_def by (auto split: prod.splits sum.splits)

lemma keeps_try_io [keeps_intros]: "keeps obs m \<Longrightarrow> keeps obs (try_io m)"
  unfolding keeps_def try_io_def by (auto split: prod.splits)

lemma keeps_if [keeps_intros]: "(b \<Longrightarrow> keeps obs m) \<Longrightarrow> (\<not> b \<Longrightarrow> keeps obs m') \<Longrightarrow>
    keeps obs (if b then m else m')"
  by simp

lemma keeps_option [keeps_intros]:
  "keeps obs m \<Longrightarrow> (\<And>x. keeps obs (f x)) \<Longrightarrow> keeps obs (case v of None \<Rightarrow> m | Some x \<Rightarrow> f x)"
  by (cases v) auto

lemma keeps_sum [keeps_intros]:
  "(\<And>x. keeps obs (f x)) \<Longrightarrow> (\<And>x. keeps obs (g x)) \<Longrightarrow>
    keeps obs (case v of Inl x \<Rightarrow> f x | Inr x \<Rightarrow> g x)"
  by (cases v) auto

lemma keeps_for_io [keeps_intros]:
  assumes "\<And>x. keeps obs (f x)"
  shows "keeps obs (for_io f xs)"
  by (induction xs) (simp_all add: keeps_and_then assms)

subsection \<open>Finite sets and maps\<close>

text \<open>Redis and Go leave the order in which a set or a map is enumerated open. \<open>enum_ok\<close> is the
  documented contract: every element once, in some order.\<close>

definition enum_ok :: "(string fset \<Rightarrow> string list) \<Rightarrow> bool" where
  "enum_ok enum \<longleftrightarrow> (\<forall>S. fset_of_list (enum S) = S \<and> distinct (enum S))"

lemma enum_ok_fset: "enum_ok enum \<Longrightarrow> fset_of_list (enum S) = S"
  by (simp add: enum_ok_def)

lemma enum_ok_set: "enum_ok enum \<Longrightarrow> set (enum S) = fset S"
  using enum_ok_fset [of enum S] fset_of_list.rep_eq [of "enum S"] by simp

lemma enum_ok_distinct: "enum_ok enum \<Longrightarrow> distinct (enum S)"
  by (simp add: enum_ok_def)

lemma enum_ok_length: "enum_ok enum \<Longrightarrow> length (enum S) = fcard S"
  using distinct_card [OF enum_ok_distinct, of enum S] by (simp add: enum_ok_set fcard.rep_eq)

lemma enum_ok_Nil: "enum_ok enum \<Longrightarrow> enum S = [] \<longleftrightarrow> S = {||}"
proof -
  assume e: "enum_ok enum"
  have "enum S = [] \<longleftrightarrow> fset S = {}"
    using enum_ok_set [OF e, of S] by (cases "enum S") auto
  then show ?thesis by (simp add: bot_fset.rep_eq fset_inject [symmetric])
qed

text \<open>The flat list \<open>[k1, v1, k2, v2, ...]\<close> in which Redis returns a hash, and its reading as
  a Go map.\<close>

fun flatten_pairs :: "(string \<times> string) list \<Rightarrow> string list" where
  "flatten_pairs [] = []"
| "flatten_pairs ((k, v) # xs) = k # v # flatten_pairs xs"

fun pair_up :: "string list \<Rightarrow> (string \<times> string) list" where
  "pair_up (k # v # xs) = (k, v) # pair_up xs"
| "pair_up _ = []"

lemma pair_up_flatten [simp]: "pair_up (flatten_pairs xs) = xs"
  by (induction xs rule: flatten_pairs.induct) auto

lemma flatten_pairs_Nil [simp]: "flatten_pairs xs = [] \<longleftrightarrow> xs = []"
  by (induction xs rule: flatten_pairs.induct) auto

definition enum_fmap :: "(string fset \<Rightarrow> string list) \<Rightarrow> (string, string) fmap \<Rightarrow> (string \<times> string) list" where
  "enum_fmap enum h = map (\<lambda>k. (k, the (fmlookup h k))) (enum (fmdom h))"

lemma map_of_map_self: "map_of (map (\<lambda>k. (k, f k)) ks) k = (if k \<in> set ks then Some (f k) else None)"
  by (induction ks) auto

lemma fmap_of_enum_fmap:
  assumes "enum_ok enum"
  shows "fmap_of_list (enum_fmap enum h) = h"
proof (rule fmap_ext)
  fix k
  show "fmlookup (fmap_of_list (enum_fmap enum h)) k = fmlookup h k"
  proof (cases "fmlookup h k")
    case None
    then have "k |\<notin>| fmdom h" by (simp add: fmlookup_dom_iff)
    with None show ?thesis
      by (simp add: fmlookup_of_list enum_fmap_def map_of_map_self enum_ok_set [OF assms])
  next
    case (Some v)
    then have "k |\<in>| fmdom h" by (rule fmdomI)
    with Some show ?thesis
      by (simp add: fmlookup_of_list enum_fmap_def map_of_map_self enum_ok_set [OF assms])
  qed
qed

lemma fmdom_eq_fempty: "fmdom h = {||} \<longleftrightarrow> h = fmempty"
proof
  assume "fmdom h = {||}"
  then have "fmlookup h k = fmlookup fmempty k" for k
    by (simp add: fmdom_notD)
  then show "h = fmempty" by (rule fmap_ext)
qed simp

lemma enum_fmap_Nil: "enum_ok enum \<Longrightarrow> enum_fmap enum h = [] \<longleftrightarrow> h = fmempty"
  by (simp add: enum_fmap_def enum_ok_Nil fmdom_eq_fempty)

lemma fmupd_nonempty [simp]: "fmupd k v h \<noteq> fmempty"
proof
  assume "fmupd k v h = fmempty"
  then have "fmlookup (fmupd k v h) k = None" by simp
  then show False by simp
qed

end
