(* ===== verification/Go_Strings.thy ===== *)
theory Go_Strings
  imports Smq_Prelude "HOL-Library.Char_ord" "HOL-Library.List_Lexorder"
begin

text \<open>
  What the code uses of Go's \<open>strings\<close> and \<open>strconv\<close> packages. A Go string is a byte string,
  so it is a \<open>char list\<close> here: one \<open>char\<close> per byte.

  \<open>itoa\<close> is \<open>strconv.Itoa\<close> and \<open>strconv.FormatInt(_, 10)\<close>; \<open>parse_int\<close> is
  \<open>strconv.ParseInt(_, 10, 64)\<close> and \<open>strconv.Atoi\<close> on a 64-bit platform, with the value Go
  returns next to an error (0 on a syntax error, the nearest bound on a range error);
  \<open>split_on\<close> is \<open>strings.Split\<close> with a one-byte separator; \<open>to_lower\<close> is \<open>strings.ToLower\<close>,
  whose treatment of non-ASCII input is the parameter \<open>ulower\<close> (Go's Unicode tables).
\<close>

subsection \<open>Decimal numbers\<close>

abbreviation int64_min :: int where "int64_min \<equiv> - (2 ^ 63)"
abbreviation int64_max :: int where "int64_max \<equiv> 2 ^ 63 - 1"

definition in_int64 :: "int \<Rightarrow> bool" where
  "in_int64 n \<longleftrightarrow> int64_min \<le> n \<and> n \<le> int64_max"

text \<open>Two's complement wrap-around of Go's \<open>int\<close> and \<open>int64\<close> arithmetic.\<close>

definition wrap64 :: "int \<Rightarrow> int" where
  "wrap64 n = (n + 2 ^ 63) mod 2 ^ 64 - 2 ^ 63"

definition digit_char :: "nat \<Rightarrow> char" where
  "digit_char d = char_of (48 + d)"

definition digit_val :: "char \<Rightarrow> nat" where
  "digit_val c = of_char c - 48"

definition is_digit :: "char \<Rightarrow> bool" where
  "is_digit c \<longleftrightarrow> 48 \<le> (of_char c :: nat) \<and> (of_char c :: nat) \<le> 57"

fun nat_digits :: "nat \<Rightarrow> string" where
  "nat_digits n = (if n < 10 then [digit_char n] else nat_digits (n div 10) @ [digit_char (n mod 10)])"

definition itoa :: "int \<Rightarrow> string" where
  "itoa n = (if n < 0 then CHR ''-'' # nat_digits (nat (- n)) else nat_digits (nat n))"

datatype num_error = ErrSyntax | ErrRange

fun parse_uint :: "nat \<Rightarrow> string \<Rightarrow> num_error + nat" where
  "parse_uint n [] = Inr n"
| "parse_uint n (c # cs) =
     (if \<not> is_digit c then Inl ErrSyntax
      else let n' = n * 10 + digit_val c
           in if 2 ^ 64 \<le> n' then Inl ErrRange else parse_uint n' cs)"

text \<open>The sign is taken off first; an empty rest is a syntax error.\<close>

definition int_sign :: "string \<Rightarrow> bool \<times> string" where
  "int_sign s = (case s of c # cs \<Rightarrow>
       if c = CHR ''-'' then (True, cs) else if c = CHR ''+'' then (False, cs) else (False, s)
     | [] \<Rightarrow> (False, []))"

definition parse_int :: "string \<Rightarrow> int \<times> num_error option" where
  "parse_int s =
     (case int_sign s of (neg, ds) \<Rightarrow>
        if ds = [] then (0, Some ErrSyntax)
        else case parse_uint 0 ds of
               Inl ErrSyntax \<Rightarrow> (0, Some ErrSyntax)
             | Inl ErrRange \<Rightarrow> (if neg then int64_min else int64_max, Some ErrRange)
             | Inr n \<Rightarrow>
                 if \<not> neg \<and> 2 ^ 63 \<le> n then (int64_max, Some ErrRange)
                 else if neg \<and> 2 ^ 63 < n then (int64_min, Some ErrRange)
                 else (if neg then - int n else int n, None))"

text \<open>\<open>n, _ := strconv.Atoi(s)\<close>: the value alone.\<close>

abbreviation atoi_value :: "string \<Rightarrow> int" where
  "atoi_value s \<equiv> fst (parse_int s)"

subsection \<open>Strings\<close>

fun split_on :: "char \<Rightarrow> string \<Rightarrow> string list" where
  "split_on c [] = [[]]"
| "split_on c (x # xs) =
     (if x = c then [] # split_on c xs
      else case split_on c xs of [] \<Rightarrow> [[x]] | t # ts \<Rightarrow> (x # t) # ts)"

fun join_on :: "char \<Rightarrow> string list \<Rightarrow> string" where
  "join_on c [] = []"
| "join_on c [t] = t"
| "join_on c (t # ts) = t @ c # join_on c ts"

definition is_ascii :: "string \<Rightarrow> bool" where
  "is_ascii s \<longleftrightarrow> (\<forall>c \<in> set s. (of_char c :: nat) < 128)"

definition lower_char :: "char \<Rightarrow> char" where
  "lower_char c = (if 65 \<le> (of_char c :: nat) \<and> (of_char c :: nat) \<le> 90
     then char_of ((of_char c :: nat) + 32) else c)"

definition to_lower :: "(string \<Rightarrow> string) \<Rightarrow> string \<Rightarrow> string" where
  "to_lower ulower s = (if is_ascii s then map lower_char s else ulower s)"

text \<open>\<open>strings.TrimSpace\<close>: the UTF-8 encodings of the code points that \<open>unicode.IsSpace\<close> accepts.\<close>

definition space_codes :: "string list" where
  "space_codes = map (map char_of)
     ([[9], [10], [11], [12], [13], [32], [194, 133], [194, 160], [225, 154, 128],
       [226, 128, 128], [226, 128, 129], [226, 128, 130], [226, 128, 131], [226, 128, 132],
       [226, 128, 133], [226, 128, 134], [226, 128, 135], [226, 128, 136], [226, 128, 137],
       [226, 128, 138], [226, 128, 168], [226, 128, 169], [226, 128, 175], [226, 129, 159],
       [227, 128, 128]] :: nat list list)"

text \<open>Drops one of the given byte sequences from the front, as long as there is one.\<close>

definition strip_one :: "string list \<Rightarrow> string \<Rightarrow> string option" where
  "strip_one ps s = map_option (\<lambda>p. drop (length p) s)
     (find (\<lambda>p. p \<noteq> [] \<and> take (length p) s = p) ps)"

fun strip_fuel :: "nat \<Rightarrow> string list \<Rightarrow> string \<Rightarrow> string" where
  "strip_fuel 0 ps s = s"
| "strip_fuel (Suc n) ps s = (case strip_one ps s of None \<Rightarrow> s | Some s' \<Rightarrow> strip_fuel n ps s')"

definition trim_space :: "string \<Rightarrow> string" where
  "trim_space s =
     (let t = strip_fuel (length s) space_codes s
      in rev (strip_fuel (length t) (map rev space_codes) (rev t)))"

text \<open>\<open>strings.Fields\<close>: the maximal runs of other characters; \<open>cur\<close> is the run being read.\<close>

fun fields_fuel :: "nat \<Rightarrow> string \<Rightarrow> string \<Rightarrow> string list" where
  "fields_fuel 0 cur s = (if cur = [] then [] else [cur])"
| "fields_fuel (Suc n) cur s =
     (case strip_one space_codes s of
        Some s' \<Rightarrow> (if cur = [] then [] else [cur]) @ fields_fuel n [] s'
      | None \<Rightarrow>
          (case s of
             [] \<Rightarrow> (if cur = [] then [] else [cur])
           | c # cs \<Rightarrow> fields_fuel n (cur @ [c]) cs))"

definition str_fields :: "string \<Rightarrow> string list" where
  "str_fields s = fields_fuel (length s) [] s"

subsection \<open>Lemmas on decimal numbers\<close>

declare nat_digits.simps [simp del]

lemma is_digit_digit_char [simp]: "d < 10 \<Longrightarrow> is_digit (digit_char d)"
  by (simp add: is_digit_def digit_char_def)

lemma digit_val_digit_char [simp]: "d < 10 \<Longrightarrow> digit_val (digit_char d) = d"
  by (simp add: digit_val_def digit_char_def)

definition digits_value :: "nat \<Rightarrow> string \<Rightarrow> nat" where
  "digits_value a cs = foldl (\<lambda>n c. n * 10 + digit_val c) a cs"

lemma digits_value_simps [simp]:
  "digits_value a [] = a"
  "digits_value a (c # cs) = digits_value (a * 10 + digit_val c) cs"
  "digits_value a (xs @ ys) = digits_value (digits_value a xs) ys"
  by (simp_all add: digits_value_def)

lemma nat_digits_all_digits: "c \<in> set (nat_digits n) \<Longrightarrow> is_digit c"
proof (induction n rule: nat_digits.induct)
  case (1 n)
  then show ?case
    by (cases "n < 10") (auto simp: nat_digits.simps [of n])
qed

lemma nat_digits_nonempty [simp]: "nat_digits n \<noteq> []"
  by (subst nat_digits.simps) simp

lemma digits_value_nat_digits [simp]: "digits_value 0 (nat_digits n) = n"
proof (induction n rule: nat_digits.induct)
  case (1 n)
  then show ?case
    by (cases "n < 10") (simp_all add: nat_digits.simps [of n])
qed

lemma digits_value_mono: "a \<le> digits_value a cs"
proof (induction cs arbitrary: a)
  case (Cons c cs)
  have "a \<le> a * 10 + digit_val c" by simp
  also have "\<dots> \<le> digits_value (a * 10 + digit_val c) cs" by (rule Cons.IH)
  finally show ?case by simp
qed simp

lemma parse_uint_digits:
  "\<forall>c \<in> set cs. is_digit c \<Longrightarrow> digits_value a cs < 2 ^ 64 \<Longrightarrow>
     parse_uint a cs = Inr (digits_value a cs)"
proof (induction cs arbitrary: a)
  case (Cons c cs)
  have "a * 10 + digit_val c \<le> digits_value (a * 10 + digit_val c) cs"
    by (rule digits_value_mono)
  with Cons.prems have "a * 10 + digit_val c < 2 ^ 64" by simp
  with Cons show ?case by (simp add: Let_def)
qed simp

lemma parse_uint_nat_digits: "n < 2 ^ 64 \<Longrightarrow> parse_uint 0 (nat_digits n) = Inr n"
  using parse_uint_digits [of "nat_digits n" 0] nat_digits_all_digits by simp

lemma nat_digits_hd: "\<exists>c cs. nat_digits n = c # cs \<and> is_digit c"
  using nat_digits_all_digits [of _ n] nat_digits_nonempty [of n] by (cases "nat_digits n") auto

lemma is_digit_not_sign: "is_digit c \<Longrightarrow> c \<noteq> CHR ''-'' \<and> c \<noteq> CHR ''+''"
  by (auto simp: is_digit_def)

lemma int_sign_itoa: "int_sign (itoa n) = (n < 0, nat_digits (nat \<bar>n\<bar>))"
proof (cases "n < 0")
  case True
  then show ?thesis by (simp add: itoa_def int_sign_def)
next
  case False
  obtain c cs where "nat_digits (nat n) = c # cs" and "is_digit c"
    using nat_digits_hd by blast
  with False show ?thesis
    using is_digit_not_sign [of c] by (simp add: itoa_def int_sign_def)
qed

theorem parse_int_itoa [simp]:
  assumes "in_int64 n"
  shows "parse_int (itoa n) = (n, None)"
proof -
  have lt: "nat \<bar>n\<bar> < 2 ^ 64"
    using assms by (auto simp: in_int64_def nat_less_iff abs_if)
  have lo: "\<not> n < 0 \<longrightarrow> nat \<bar>n\<bar> < 2 ^ 63" and hi: "n < 0 \<longrightarrow> nat \<bar>n\<bar> \<le> 2 ^ 63"
    using assms by (auto simp: in_int64_def nat_less_iff nat_le_iff)
  note p = parse_uint_nat_digits [OF lt]
  show ?thesis
  proof (cases "n < 0")
    case True
    with p hi show ?thesis by (simp add: parse_int_def int_sign_itoa)
  next
    case False
    with p lo show ?thesis by (simp add: parse_int_def int_sign_itoa)
  qed
qed

lemma itoa_inject [simp]: "itoa m = itoa n \<longleftrightarrow> m = n"
proof
  assume "itoa m = itoa n"
  then have "int_sign (itoa m) = int_sign (itoa n)" by simp
  then have sgn: "(m < 0) = (n < 0)" and "nat_digits (nat \<bar>m\<bar>) = nat_digits (nat \<bar>n\<bar>)"
    by (simp_all add: int_sign_itoa)
  then have "nat \<bar>m\<bar> = nat \<bar>n\<bar>"
    using digits_value_nat_digits [of "nat \<bar>m\<bar>"] by simp
  with sgn show "m = n" by linarith
qed simp

lemma itoa_nonempty [simp]: "itoa n \<noteq> []"
  by (simp add: itoa_def)

lemma itoa_chars: "c \<in> set (itoa n) \<Longrightarrow> is_digit c \<or> c = CHR ''-''"
  using nat_digits_all_digits by (auto simp: itoa_def split: if_splits)

lemma wrap64_id: "in_int64 n \<Longrightarrow> wrap64 n = n"
  by (simp add: wrap64_def in_int64_def mod_pos_pos_trivial)

lemma wrap64_range [simp]: "in_int64 (wrap64 n)"
proof -
  have "0 \<le> (n + 2 ^ 63) mod (2 ^ 64 :: int)" and "(n + 2 ^ 63) mod (2 ^ 64 :: int) < 2 ^ 64"
    by simp_all
  then show ?thesis by (simp add: wrap64_def in_int64_def)
qed

lemma parse_int_range: "in_int64 (fst (parse_int s))"
  by (auto simp: parse_int_def in_int64_def nat_less_iff split: prod.splits sum.splits num_error.splits)

subsection \<open>Lemmas on splitting and lower case\<close>

lemma split_on_nonempty [simp]: "split_on c s \<noteq> []"
  by (induction s) (auto split: list.splits)

lemma join_split [simp]: "join_on c (split_on c s) = s"
proof (induction s)
  case (Cons x xs)
  then show ?case
    by (cases "split_on c xs"; cases "tl (split_on c xs)") auto
qed simp

lemma split_on_free: "t \<in> set (split_on c s) \<Longrightarrow> c \<notin> set t"
  by (induction s arbitrary: t) (auto split: if_splits list.splits)

lemma split_on_no_sep: "c \<notin> set s \<Longrightarrow> split_on c s = [s]"
  by (induction s) auto

lemma split_on_append_sep: "c \<notin> set t \<Longrightarrow> split_on c (t @ c # s) = t # split_on c s"
  by (induction t) auto

lemma split_join:
  "ts \<noteq> [] \<Longrightarrow> \<forall>t \<in> set ts. c \<notin> set t \<Longrightarrow> split_on c (join_on c ts) = ts"
  by (induction c ts rule: join_on.induct) (simp_all add: split_on_no_sep split_on_append_sep)

lemma lower_char_idem [simp]: "lower_char (lower_char c) = lower_char c"
  by (simp add: lower_char_def)

lemma is_ascii_lower: "is_ascii s \<Longrightarrow> is_ascii (map lower_char s)"
  by (auto simp: is_ascii_def lower_char_def)

lemma is_ascii_Cons [simp]: "is_ascii (c # s) \<longleftrightarrow> (of_char c :: nat) < 128 \<and> is_ascii s"
  by (simp add: is_ascii_def)

lemma is_ascii_Nil [simp]: "is_ascii []"
  by (simp add: is_ascii_def)

end
