(* ===== verification/Smq_Errors.thy ===== *)
theory Smq_Errors
  imports Go_Strings
begin

text \<open>
  The errors of the program. Each package's sentinel errors are a datatype whose constructors
  carry the source's names (\<open>pkg/queue/errors.go\<close>, \<open>pkg/exchange/errors.go\<close>,
  \<open>pkg/message/errors.go\<close>, \<open>pkg/producer/errors.go\<close>, \<open>pkg/consumer/errors.go\<close>,
  \<open>pkg/config/errors.go\<close>, \<open>pkg/namespace/errors.go\<close>, \<open>pkg/redis/validate_key.go\<close>, \<open>internal/redis/errors.go\<close>), prefixed by the package. \<open>Wrapf\<close> is \<open>fmt.Errorf\<close> with one
  \<open>%w\<close> verb, \<open>Wrapf2\<close> with two, \<open>Errorf\<close> with none; \<open>errors_is\<close> is \<open>errors.Is\<close>, which
  looks through the wrapping.
\<close>

text \<open>What a Redis client can report: the nil reply (\<open>redis.Nil\<close>), an aborted transaction
  (\<open>redis.TxFailedErr\<close>), an unknown script digest (NOSCRIPT), an operation on a key of the wrong
  type or on a value that is no integer, a score that is no number, an expiry that is not positive, a
  script called with the wrong arguments, or anything else that went wrong on the way.\<close>

datatype redis_error =
    RedisNil | TxFailedErr | NoScript | WrongType | NotInteger | NotFloat | InvalidExpire | LuaError string | ConnError string

datatype queue_error =
    Q_ErrNotFound | Q_ErrAlreadyExists | Q_ErrLocked | Q_ErrNotOperational
  | Q_ErrHasProcessingMessages | Q_ErrHasPendingMessages | Q_ErrRateLimitExceeded
  | Q_ErrDeliveryModelMismatch | Q_ErrQueueNotEmpty | Q_ErrQueueHasActiveConsumers
  | Q_ErrQueueHasBoundExchanges | Q_ErrConsumerSetMismatch
  | Q_ErrNameRequired | Q_ErrInvalidName | Q_ErrInvalidNamespace
  | Q_ErrInvalidRateLimit | Q_ErrInvalidRateLimitInterval
  | Q_ErrInvalidTransition | Q_ErrInvalidLock | Q_ErrLockOwnerMismatch | Q_ErrLockIDMismatch
  | Q_ErrNotLocked
  | Q_ErrConsumerGroupsNotSupported | Q_ErrConsumerGroupNotEmpty
  | Q_ErrConsumerGroupHasActiveConsumers
  | Q_ErrAuditDisabled

datatype exchange_error =
    X_ErrNotFound | X_ErrAlreadyExists | X_ErrNamespaceMismatch | X_ErrQueueAlreadyBound
  | X_ErrQueueNotBound | X_ErrHasBoundQueues | X_ErrInvalidPattern | X_ErrInvalidRoutingKey
  | X_ErrTypeMismatch | X_ErrPolicyViolation
  | X_ErrNameRequired | X_ErrInvalidName | X_ErrInvalidNamespace

datatype message_error = M_ErrNotFound | M_ErrNotRequeuable

datatype producer_error =
    P_ErrNotRunning | P_ErrExchangeRequired | P_ErrRoutingKeyRequired | P_ErrNoMatchingQueues
  | P_ErrConsumerGroupNotFound | P_ErrPriorityRequired | P_ErrPriorityNotEnabled
  | P_ErrUnknownQueueType | P_ErrInvalidQueueState | P_ErrMessageAlreadyExists

datatype consumer_error = C_ErrNoQueues | C_ErrQueueStopped | C_ErrQueueLocked | C_ErrQueueInvalidState

datatype config_error = Cfg_ErrNotInitialized | Cfg_ErrVersionMismatch | Cfg_ErrInvalidConfig | Cfg_ErrUnexpectedScriptReply

datatype namespace_error = N_ErrNotFound | N_ErrInvalidName | N_ErrNameRequired | N_ErrNotEmpty

datatype go_error =
    QueueErr queue_error
  | ExchangeErr exchange_error
  | MessageErr message_error
  | ProducerErr producer_error
  | ConsumerErr consumer_error
  | ConfigErr config_error
  | NamespaceErr namespace_error
  | ErrInvalidKey
  | ErrUnexpectedScriptReply
  | RedisErr redis_error
  | JsonErr
  | NumErr num_error
  | Errorf string
  | Wrapf string go_error
  | Wrapf2 go_error go_error

fun errors_is :: "go_error \<Rightarrow> go_error \<Rightarrow> bool" where
  "errors_is (Wrapf m e) t \<longleftrightarrow> Wrapf m e = t \<or> errors_is e t"
| "errors_is (Wrapf2 e e') t \<longleftrightarrow> Wrapf2 e e' = t \<or> errors_is e t \<or> errors_is e' t"
| "errors_is e t \<longleftrightarrow> e = t"

lemma errors_is_refl [simp]: "errors_is e e"
  by (cases e) auto

lemma errors_is_Wrapf [simp]: "errors_is e t \<Longrightarrow> errors_is (Wrapf m e) t"
  by simp

end
