(* ===== verification/Redis_Data.thy ===== *)
theory Redis_Data
  imports Smq_Errors "HOL-Library.Product_Lexorder"
begin

text \<open>
  The Redis commands that the Go code and the Lua scripts issue, with the effect that the Redis
  documentation gives them on a database. No code of this repository is modelled here: the theory
  is the vocabulary in which \<open>Redis_Server\<close> states what the program relies on.

  A database maps keys to typed values; a collection that becomes empty disappears. The order in
  which a set or a hash is enumerated is open in Redis, so \<open>redis_apply\<close> takes it as the
  parameter \<open>en\<close>, of which \<open>enum_ok\<close> is all that is known. Scores are integers, the only ones that
  the program stores. That a key with an expiry disappears when its time is up is not an effect of a
  command: it is a step of its own, which the theories that depend on it add.
\<close>

datatype rval =
    RStr string
  | RHash "(string, string) fmap"
  | RSet "string fset"
  | RList "string list"
  | RZSet "(string, int) fmap"

type_synonym db = "string \<Rightarrow> rval option"

datatype (plugins only: code) cmd =
    GET string | SET string string | MGET "string list" | DEL "string list" | EXISTS "string list"
  | HGET string string | HGETALL string | HEXISTS string string | HKEYS string
  | HMGET string "string list" | HSET string "(string \<times> string) list" | HDEL string "string list"
  | HINCRBY string string int | DECR string
  | SETPX string string int | SETNX string string int | PEXPIRE string int
  | SADD string "string list" | SREM string "string list" | SISMEMBER string string
  | SMEMBERS string | SCARD string
  | LPUSH string string | RPUSH string "string list" | LTRIM string int int | LREM string int string
  | LLEN string | LRANGE string int int | LINDEX string int | RPOPLPUSH string string
  | ZADD string string string | ZREM string "string list" | ZCARD string
  | ZRANGE string int int | ZRANGEBYSCORE string int int nat nat | TYPE_OF string

datatype reply = RInt int | RBulk string | RNil | RArr "reply list"

subsection \<open>Typed views of a key\<close>

definition get_str :: "db \<Rightarrow> string \<Rightarrow> redis_error + string option" where
  "get_str d k = (case d k of None \<Rightarrow> Inr None | Some (RStr v) \<Rightarrow> Inr (Some v) | Some _ \<Rightarrow> Inl WrongType)"

definition get_hash :: "db \<Rightarrow> string \<Rightarrow> redis_error + (string, string) fmap" where
  "get_hash d k = (case d k of None \<Rightarrow> Inr fmempty | Some (RHash h) \<Rightarrow> Inr h | Some _ \<Rightarrow> Inl WrongType)"

definition get_set :: "db \<Rightarrow> string \<Rightarrow> redis_error + string fset" where
  "get_set d k = (case d k of None \<Rightarrow> Inr {||} | Some (RSet S) \<Rightarrow> Inr S | Some _ \<Rightarrow> Inl WrongType)"

definition get_list :: "db \<Rightarrow> string \<Rightarrow> redis_error + string list" where
  "get_list d k = (case d k of None \<Rightarrow> Inr [] | Some (RList xs) \<Rightarrow> Inr xs | Some _ \<Rightarrow> Inl WrongType)"

definition get_zset :: "db \<Rightarrow> string \<Rightarrow> redis_error + (string, int) fmap" where
  "get_zset d k = (case d k of None \<Rightarrow> Inr fmempty | Some (RZSet z) \<Rightarrow> Inr z | Some _ \<Rightarrow> Inl WrongType)"

definition put_hash :: "string \<Rightarrow> (string, string) fmap \<Rightarrow> db \<Rightarrow> db" where
  "put_hash k h d = d(k := if fmdom h = {||} then None else Some (RHash h))"

definition put_set :: "string \<Rightarrow> string fset \<Rightarrow> db \<Rightarrow> db" where
  "put_set k S d = d(k := if S = {||} then None else Some (RSet S))"

definition put_list :: "string \<Rightarrow> string list \<Rightarrow> db \<Rightarrow> db" where
  "put_list k xs d = d(k := if xs = [] then None else Some (RList xs))"

definition put_zset :: "string \<Rightarrow> (string, int) fmap \<Rightarrow> db \<Rightarrow> db" where
  "put_zset k z d = d(k := if fmdom z = {||} then None else Some (RZSet z))"

text \<open>A command looks at the value of its key, fails on the wrong type, and otherwise answers from
  the value (\<open>look\<close>) or answers and replaces it (\<open>modify\<close>).\<close>

definition look :: "redis_error + 'v \<Rightarrow> ('v \<Rightarrow> reply) \<Rightarrow> (db, redis_error, reply) io" where
  "look v f = lift_sum (case v of Inl e \<Rightarrow> Inl e | Inr x \<Rightarrow> Inr (f x))"

definition modify :: "(db \<Rightarrow> redis_error + 'v) \<Rightarrow> ('v \<Rightarrow> db \<Rightarrow> db) \<Rightarrow> ('v \<Rightarrow> redis_error + reply \<times> 'v)
    \<Rightarrow> (db, redis_error, reply) io" where
  "modify get put f = (\<lambda>d. case get d of
       Inl e \<Rightarrow> (Inl e, d)
     | Inr v \<Rightarrow> (case f v of Inl e \<Rightarrow> (Inl e, d) | Inr (r, v') \<Rightarrow> (Inr r, put v' d)))"

definition opt_reply :: "string option \<Rightarrow> reply" where
  "opt_reply v = (case v of None \<Rightarrow> RNil | Some x \<Rightarrow> RBulk x)"

definition bool_reply :: "bool \<Rightarrow> reply" where
  "bool_reply b = RInt (if b then 1 else 0)"

subsection \<open>Lists\<close>

text \<open>Inclusive ranges; a negative index counts from the end.\<close>

definition list_range :: "int \<Rightarrow> int \<Rightarrow> 'a list \<Rightarrow> 'a list" where
  "list_range a b xs =
     (let n = int (length xs);
          lo = (if a < 0 then max 0 (a + n) else a);
          hi = (if b < 0 then b + n else b)
      in if hi < lo then [] else take (nat (hi - lo + 1)) (drop (nat lo) xs))"

definition list_index :: "int \<Rightarrow> 'a list \<Rightarrow> 'a option" where
  "list_index i xs =
     (let j = (if i < 0 then i + int (length xs) else i)
      in if 0 \<le> j \<and> j < int (length xs) then Some (xs ! nat j) else None)"

text \<open>Removes the first \<open>n\<close> occurrences.\<close>

fun remove_first :: "nat \<Rightarrow> 'a \<Rightarrow> 'a list \<Rightarrow> 'a list" where
  "remove_first 0 x ys = ys"
| "remove_first (Suc n) x [] = []"
| "remove_first (Suc n) x (y # ys) =
     (if y = x then remove_first n x ys else y # remove_first (Suc n) x ys)"

definition list_rem :: "int \<Rightarrow> 'a \<Rightarrow> 'a list \<Rightarrow> 'a list" where
  "list_rem n x ys =
     (if n = 0 then filter (\<lambda>y. y \<noteq> x) ys
      else if 0 < n then remove_first (nat n) x ys
      else rev (remove_first (nat (- n)) x (rev ys)))"

subsection \<open>Sorted sets\<close>

text \<open>Members in the order of their scores, those of equal score in the order of their bytes.\<close>

definition zset_list :: "(string, int) fmap \<Rightarrow> (int \<times> string) list" where
  "zset_list z = sorted_list_of_fset ((\<lambda>m. (the (fmlookup z m), m)) |`| fmdom z)"

definition zset_between :: "int \<Rightarrow> int \<Rightarrow> (string, int) fmap \<Rightarrow> string list" where
  "zset_between lo hi z = map snd (filter (\<lambda>(s, m). lo \<le> s \<and> s \<le> hi) (zset_list z))"

subsection \<open>Commands\<close>

definition hset_all :: "(string \<times> string) list \<Rightarrow> (string, string) fmap \<Rightarrow> (string, string) fmap" where
  "hset_all fvs h = foldl (\<lambda>m (f, v). fmupd f v m) h fvs"

definition hincrby :: "string \<Rightarrow> int \<Rightarrow> (string, string) fmap \<Rightarrow> redis_error + reply \<times> (string, string) fmap" where
  "hincrby f n h =
     (case parse_int (case fmlookup h f of None \<Rightarrow> ''0'' | Some v \<Rightarrow> v) of
        (m, None) \<Rightarrow>
          if in_int64 (m + n) then Inr (RInt (m + n), fmupd f (itoa (m + n)) h) else Inl NotInteger
      | (_, Some _) \<Rightarrow> Inl NotInteger)"

definition decr :: "string option \<Rightarrow> redis_error + reply \<times> string option" where
  "decr v =
     (case parse_int (case v of None \<Rightarrow> ''0'' | Some x \<Rightarrow> x) of
        (m, None) \<Rightarrow> if in_int64 (m - 1) then Inr (RInt (m - 1), Some (itoa (m - 1))) else Inl NotInteger
      | (_, Some _) \<Rightarrow> Inl NotInteger)"

definition put_str :: "string \<Rightarrow> string option \<Rightarrow> db \<Rightarrow> db" where
  "put_str k v d = d(k := map_option RStr v)"

definition zadd :: "string \<Rightarrow> string \<Rightarrow> (string, int) fmap \<Rightarrow> redis_error + reply \<times> (string, int) fmap" where
  "zadd s m z =
     (case parse_int s of
        (n, None) \<Rightarrow> Inr (bool_reply (m |\<notin>| fmdom z), fmupd m n z)
      | (_, Some _) \<Rightarrow> Inl NotFloat)"

definition rpoplpush :: "string \<Rightarrow> string \<Rightarrow> (db, redis_error, reply) io" where
  "rpoplpush src dst = (\<lambda>d. case get_list d src of
       Inl e \<Rightarrow> (Inl e, d)
     | Inr [] \<Rightarrow> (Inr RNil, d)
     | Inr xs \<Rightarrow> (let d1 = put_list src (butlast xs) d in
         case get_list d1 dst of
           Inl e \<Rightarrow> (Inl e, d)
         | Inr ys \<Rightarrow> (Inr (RBulk (last xs)), put_list dst (last xs # ys) d1)))"

definition del_keys :: "string list \<Rightarrow> db \<Rightarrow> db" where
  "del_keys ks d = (\<lambda>k. if k \<in> set ks then None else d k)"

definition str_value :: "db \<Rightarrow> string \<Rightarrow> string option" where
  "str_value d k = (case d k of Some (RStr v) \<Rightarrow> Some v | _ \<Rightarrow> None)"

definition type_name :: "rval option \<Rightarrow> string" where
  "type_name v = (case v of None \<Rightarrow> ''none'' | Some (RStr _) \<Rightarrow> ''string'' | Some (RHash _) \<Rightarrow> ''hash''
     | Some (RSet _) \<Rightarrow> ''set'' | Some (RList _) \<Rightarrow> ''list'' | Some (RZSet _) \<Rightarrow> ''zset'')"

primrec redis_apply :: "(string fset \<Rightarrow> string list) \<Rightarrow> cmd \<Rightarrow> (db, redis_error, reply) io" where
  "redis_apply en (GET k) = (\<lambda>d. look (get_str d k) opt_reply d)"
| "redis_apply en (SET k v) = (\<lambda>d. (Inr (RBulk ''OK''), d(k \<mapsto> RStr v)))"
| "redis_apply en (MGET ks) = (\<lambda>d. (Inr (RArr (map (\<lambda>k. opt_reply (str_value d k)) ks)), d))"
| "redis_apply en (DEL ks) =
     (\<lambda>d. (Inr (RInt (int (length (filter (\<lambda>k. d k \<noteq> None) (remdups ks))))), del_keys ks d))"
| "redis_apply en (EXISTS ks) = (\<lambda>d. (Inr (RInt (int (length (filter (\<lambda>k. d k \<noteq> None) ks)))), d))"
| "redis_apply en (HGET k f) = (\<lambda>d. look (get_hash d k) (\<lambda>h. opt_reply (fmlookup h f)) d)"
| "redis_apply en (HGETALL k) =
     (\<lambda>d. look (get_hash d k) (\<lambda>h. RArr (map RBulk (flatten_pairs (enum_fmap en h)))) d)"
| "redis_apply en (HEXISTS k f) = (\<lambda>d. look (get_hash d k) (\<lambda>h. bool_reply (f |\<in>| fmdom h)) d)"
| "redis_apply en (HKEYS k) = (\<lambda>d. look (get_hash d k) (\<lambda>h. RArr (map RBulk (en (fmdom h)))) d)"
| "redis_apply en (HMGET k fs) =
     (\<lambda>d. look (get_hash d k) (\<lambda>h. RArr (map (\<lambda>f. opt_reply (fmlookup h f)) fs)) d)"
| "redis_apply en (HSET k fvs) = modify (\<lambda>d. get_hash d k) (put_hash k)
     (\<lambda>h. Inr (RInt (int (fcard (fset_of_list (map fst fvs) |-| fmdom h))), hset_all fvs h))"
| "redis_apply en (HDEL k fs) = modify (\<lambda>d. get_hash d k) (put_hash k)
     (\<lambda>h. Inr (RInt (int (fcard (fset_of_list fs |\<inter>| fmdom h))), fmdrop_set (set fs) h))"
| "redis_apply en (HINCRBY k f n) = modify (\<lambda>d. get_hash d k) (put_hash k) (hincrby f n)"
| "redis_apply en (DECR k) = modify (\<lambda>d. get_str d k) (put_str k) decr"
| "redis_apply en (SETPX k v ms) =
     (\<lambda>d. if ms \<le> 0 then (Inl InvalidExpire, d) else (Inr (RBulk ''OK''), d(k \<mapsto> RStr v)))"
| "redis_apply en (SETNX k v ms) =
     (\<lambda>d. if ms \<le> 0 then (Inl InvalidExpire, d)
          else if d k = None then (Inr (RBulk ''OK''), d(k \<mapsto> RStr v)) else (Inr RNil, d))"
| "redis_apply en (PEXPIRE k ms) =
     (\<lambda>d. if d k = None then (Inr (RInt 0), d)
          else if ms \<le> 0 then (Inr (RInt 1), d(k := None)) else (Inr (RInt 1), d))"
| "redis_apply en (SADD k ms) = modify (\<lambda>d. get_set d k) (put_set k)
     (\<lambda>S. Inr (RInt (int (fcard (fset_of_list ms |-| S))), S |\<union>| fset_of_list ms))"
| "redis_apply en (SREM k ms) = modify (\<lambda>d. get_set d k) (put_set k)
     (\<lambda>S. Inr (RInt (int (fcard (fset_of_list ms |\<inter>| S))), S |-| fset_of_list ms))"
| "redis_apply en (SISMEMBER k m) = (\<lambda>d. look (get_set d k) (\<lambda>S. bool_reply (m |\<in>| S)) d)"
| "redis_apply en (SMEMBERS k) = (\<lambda>d. look (get_set d k) (\<lambda>S. RArr (map RBulk (en S))) d)"
| "redis_apply en (SCARD k) = (\<lambda>d. look (get_set d k) (\<lambda>S. RInt (int (fcard S))) d)"
| "redis_apply en (LPUSH k v) = modify (\<lambda>d. get_list d k) (put_list k)
     (\<lambda>xs. Inr (RInt (int (length xs) + 1), v # xs))"
| "redis_apply en (RPUSH k vs) = modify (\<lambda>d. get_list d k) (put_list k)
     (\<lambda>xs. Inr (RInt (int (length xs) + int (length vs)), xs @ vs))"
| "redis_apply en (RPOPLPUSH k k') = rpoplpush k k'"
| "redis_apply en (LTRIM k a b) = modify (\<lambda>d. get_list d k) (put_list k)
     (\<lambda>xs. Inr (RBulk ''OK'', list_range a b xs))"
| "redis_apply en (LREM k n v) = modify (\<lambda>d. get_list d k) (put_list k)
     (\<lambda>xs. Inr (RInt (int (length xs) - int (length (list_rem n v xs))), list_rem n v xs))"
| "redis_apply en (LLEN k) = (\<lambda>d. look (get_list d k) (\<lambda>xs. RInt (int (length xs))) d)"
| "redis_apply en (LRANGE k a b) =
     (\<lambda>d. look (get_list d k) (\<lambda>xs. RArr (map RBulk (list_range a b xs))) d)"
| "redis_apply en (LINDEX k i) = (\<lambda>d. look (get_list d k) (\<lambda>xs. opt_reply (list_index i xs)) d)"
| "redis_apply en (ZADD k s m) = modify (\<lambda>d. get_zset d k) (put_zset k) (zadd s m)"
| "redis_apply en (ZRANGE k a b) =
     (\<lambda>d. look (get_zset d k) (\<lambda>z. RArr (map RBulk (list_range a b (map snd (zset_list z))))) d)"
| "redis_apply en (ZRANGEBYSCORE k lo hi off n) =
     (\<lambda>d. look (get_zset d k) (\<lambda>z. RArr (map RBulk (take n (drop off (zset_between lo hi z))))) d)"
| "redis_apply en (ZREM k ms) = modify (\<lambda>d. get_zset d k) (put_zset k)
     (\<lambda>z. Inr (RInt (int (fcard (fset_of_list ms |\<inter>| fmdom z))), fmdrop_set (set ms) z))"
| "redis_apply en (ZCARD k) = (\<lambda>d. look (get_zset d k) (\<lambda>z. RInt (int (fcard (fmdom z)))) d)"
| "redis_apply en (TYPE_OF k) = (\<lambda>d. (Inr (RBulk (type_name (d k))), d))"

text \<open>MULTI/EXEC: every queued command runs, also after one that failed; the client reports the
  first failure.\<close>

fun run_all :: "(cmd \<Rightarrow> (db, redis_error, reply) io) \<Rightarrow> cmd list \<Rightarrow> db \<Rightarrow> (redis_error + reply) list \<times> db" where
  "run_all call [] d = ([], d)"
| "run_all call (c # cs) d = (case call c d of (r, d1) \<Rightarrow> (case run_all call cs d1 of (rs, d2) \<Rightarrow> (r # rs, d2)))"

fun first_error :: "(redis_error + reply) list \<Rightarrow> redis_error + reply list" where
  "first_error [] = Inr []"
| "first_error (Inl e # rs) = Inl e"
| "first_error (Inr r # rs) = (case first_error rs of Inl e \<Rightarrow> Inl e | Inr xs \<Rightarrow> Inr (r # xs))"

definition multi_apply :: "(string fset \<Rightarrow> string list) \<Rightarrow> cmd list \<Rightarrow> (db, redis_error, reply list) io" where
  "multi_apply en cs = (\<lambda>d. case run_all (redis_apply en) cs d of (rs, d') \<Rightarrow> (first_error rs, d'))"

subsection \<open>Lemmas on views and commands\<close>

named_theorems db_simps \<open>typed views of an updated database\<close>

lemma put_same_key [simp]:
  "put_hash k h d k' = (if k' = k then (if fmdom h = {||} then None else Some (RHash h)) else d k')"
  "put_set k S d k' = (if k' = k then (if S = {||} then None else Some (RSet S)) else d k')"
  "put_list k xs d k' = (if k' = k then (if xs = [] then None else Some (RList xs)) else d k')"
  "put_zset k z d k' = (if k' = k then (if fmdom z = {||} then None else Some (RZSet z)) else d k')"
  by (simp_all add: put_hash_def put_set_def put_list_def put_zset_def)

lemma get_put_same [simp, db_simps]:
  "get_hash (put_hash k h d) k = Inr h"
  "get_set (put_set k S d) k = Inr S"
  "get_list (put_list k xs d) k = Inr xs"
  "get_zset (put_zset k z d) k = Inr z"
  by (simp_all add: get_hash_def get_set_def get_list_def get_zset_def fmdom_eq_fempty)

lemma get_other:
  assumes "d' k = d k"
  shows "get_str d' k = get_str d k" "get_hash d' k = get_hash d k" "get_set d' k = get_set d k"
    "get_list d' k = get_list d k" "get_zset d' k = get_zset d k"
  by (simp_all add: get_str_def get_hash_def get_set_def get_list_def get_zset_def assms)

lemma get_put_other [simp, db_simps]:
  assumes "k' \<noteq> k"
  shows "get_hash (put_hash k h d) k' = get_hash d k'" "get_hash (put_set k S d) k' = get_hash d k'"
    "get_hash (put_list k xs d) k' = get_hash d k'" "get_hash (put_zset k z d) k' = get_hash d k'"
    "get_set (put_hash k h d) k' = get_set d k'" "get_set (put_set k S d) k' = get_set d k'"
    "get_set (put_list k xs d) k' = get_set d k'" "get_set (put_zset k z d) k' = get_set d k'"
    "get_list (put_hash k h d) k' = get_list d k'" "get_list (put_set k S d) k' = get_list d k'"
    "get_list (put_list k xs d) k' = get_list d k'" "get_list (put_zset k z d) k' = get_list d k'"
    "get_zset (put_hash k h d) k' = get_zset d k'" "get_zset (put_set k S d) k' = get_zset d k'"
    "get_zset (put_list k xs d) k' = get_zset d k'" "get_zset (put_zset k z d) k' = get_zset d k'"
  by (rule get_other; simp add: assms)+

lemma get_del [simp, db_simps]:
  "get_hash (del_keys ks d) k = (if k \<in> set ks then Inr fmempty else get_hash d k)"
  "get_set (del_keys ks d) k = (if k \<in> set ks then Inr {||} else get_set d k)"
  "get_list (del_keys ks d) k = (if k \<in> set ks then Inr [] else get_list d k)"
  by (simp_all add: get_hash_def get_set_def get_list_def del_keys_def)

lemma get_empty [simp]:
  "d k = None \<Longrightarrow> get_hash d k = Inr fmempty" "d k = None \<Longrightarrow> get_set d k = Inr {||}"
  "d k = None \<Longrightarrow> get_list d k = Inr []" "d k = None \<Longrightarrow> get_zset d k = Inr fmempty"
  "d k = None \<Longrightarrow> get_str d k = Inr None"
  by (simp_all add: get_hash_def get_set_def get_list_def get_zset_def get_str_def)

lemma get_SomeD:
  "get_hash d k = Inr h \<Longrightarrow> h \<noteq> fmempty \<Longrightarrow> d k = Some (RHash h)"
  "get_set d k = Inr S \<Longrightarrow> S \<noteq> {||} \<Longrightarrow> d k = Some (RSet S)"
  "get_list d k = Inr xs \<Longrightarrow> xs \<noteq> [] \<Longrightarrow> d k = Some (RList xs)"
  by (auto simp: get_hash_def get_set_def get_list_def split: option.splits rval.splits)

lemma look_simps [simp]: "look (Inr v) f d = (Inr (f v), d)" "look (Inl e) f d = (Inl e, d)"
  by (simp_all add: look_def)

lemma look_Inr: "look v f d = (Inr r, d') \<longleftrightarrow> (\<exists>x. v = Inr x \<and> r = f x \<and> d' = d)"
  by (cases v) auto

lemma look_state: "snd (look v f d) = d"
  by (cases v) auto

lemma modify_Inr:
  "modify get put f d = (Inr r, d') \<longleftrightarrow> (\<exists>v v'. get d = Inr v \<and> f v = Inr (r, v') \<and> d' = put v' d)"
  by (auto simp: modify_def split: sum.splits)

lemma modify_ok: "get d = Inr v \<Longrightarrow> f v = Inr (r, v') \<Longrightarrow> modify get put f d = (Inr r, put v' d)"
  by (simp add: modify_def)

lemma modify_err: "get d = Inl e \<Longrightarrow> modify get put f d = (Inl e, d)"
  by (simp add: modify_def)

lemma modify_Inl: "modify get put f d = (Inl e, d') \<Longrightarrow> d' = d"
  by (auto simp: modify_def split: sum.splits)

primrec reads :: "cmd \<Rightarrow> bool" where
  "reads (GET _) = True" | "reads (SET _ _) = False" | "reads (MGET _) = True" | "reads (DEL _) = False"
| "reads (EXISTS _) = True" | "reads (HGET _ _) = True" | "reads (HGETALL _) = True" | "reads (HEXISTS _ _) = True"
| "reads (HKEYS _) = True" | "reads (HMGET _ _) = True" | "reads (HSET _ _) = False" | "reads (HDEL _ _) = False"
| "reads (HINCRBY _ _ _) = False" | "reads (DECR _) = False" | "reads (SETPX _ _ _) = False"
| "reads (SETNX _ _ _) = False" | "reads (PEXPIRE _ _) = False" | "reads (SADD _ _) = False"
| "reads (SREM _ _) = False" | "reads (SISMEMBER _ _) = True" | "reads (SMEMBERS _) = True"
| "reads (SCARD _) = True" | "reads (LPUSH _ _) = False" | "reads (RPUSH _ _) = False" | "reads (LTRIM _ _ _) = False"
| "reads (LREM _ _ _) = False" | "reads (LLEN _) = True" | "reads (LRANGE _ _ _) = True" | "reads (LINDEX _ _) = True"
| "reads (RPOPLPUSH _ _) = False" | "reads (ZADD _ _ _) = False" | "reads (ZREM _ _) = False" | "reads (ZCARD _) = True"
| "reads (ZRANGE _ _ _) = True" | "reads (ZRANGEBYSCORE _ _ _ _ _) = True" | "reads (TYPE_OF _) = True"

lemma reads_keep: "reads c \<Longrightarrow> snd (redis_apply en c d) = d"
  by (cases c) (simp_all add: look_state)

lemma rpoplpush_Inl: "rpoplpush k k' d = (Inl e, d') \<Longrightarrow> d' = d"
  by (auto simp: rpoplpush_def Let_def split: sum.splits list.splits)

lemma redis_apply_err: "redis_apply en c d = (Inl e, d') \<Longrightarrow> d' = d"
  by (cases c) (auto simp: look_def dest: modify_Inl rpoplpush_Inl split: sum.splits if_splits)

lemma get_errors:
  "get_str d k = Inl e \<Longrightarrow> e = WrongType" "get_hash d k = Inl e \<Longrightarrow> e = WrongType"
  "get_set d k = Inl e \<Longrightarrow> e = WrongType" "get_list d k = Inl e \<Longrightarrow> e = WrongType"
  "get_zset d k = Inl e \<Longrightarrow> e = WrongType"
  by (auto simp: get_str_def get_hash_def get_set_def get_list_def get_zset_def split: option.splits rval.splits)

lemma modify_errors:
  "modify get put f d = (Inl e, d') \<Longrightarrow> get d = Inl e \<or> (\<exists>v. get d = Inr v \<and> f v = Inl e)"
  by (auto simp: modify_def split: sum.splits)

lemma value_errors:
  "hincrby f n h = Inl e \<Longrightarrow> e = NotInteger" "decr v = Inl e \<Longrightarrow> e = NotInteger" "zadd s m z = Inl e \<Longrightarrow> e = NotFloat"
  by (auto simp: hincrby_def decr_def zadd_def split: prod.splits option.splits if_splits)

lemma rpoplpush_errors: "rpoplpush k k' d = (Inl e, d') \<Longrightarrow> e = WrongType"
  by (auto simp: rpoplpush_def Let_def dest: get_errors split: sum.splits list.splits)

definition data_errors :: "redis_error set" where
  "data_errors = {WrongType, NotInteger, NotFloat, InvalidExpire}"

lemma redis_apply_errors: "redis_apply en c d = (Inl e, d') \<Longrightarrow> e \<in> data_errors"
  by (cases c) (auto simp: look_def data_errors_def dest!: modify_errors dest: get_errors value_errors rpoplpush_errors
      split: sum.splits if_splits)

text \<open>A command touches at most the keys it names.\<close>

primrec cmd_keys :: "cmd \<Rightarrow> string set" where
  "cmd_keys (GET k) = {k}" | "cmd_keys (SET k _) = {k}" | "cmd_keys (MGET ks) = set ks"
| "cmd_keys (DEL ks) = set ks" | "cmd_keys (EXISTS ks) = set ks" | "cmd_keys (HGET k _) = {k}"
| "cmd_keys (HGETALL k) = {k}" | "cmd_keys (HEXISTS k _) = {k}" | "cmd_keys (HKEYS k) = {k}"
| "cmd_keys (HMGET k _) = {k}" | "cmd_keys (HSET k _) = {k}" | "cmd_keys (HDEL k _) = {k}"
| "cmd_keys (HINCRBY k _ _) = {k}" | "cmd_keys (SADD k _) = {k}" | "cmd_keys (SREM k _) = {k}"
| "cmd_keys (SISMEMBER k _) = {k}" | "cmd_keys (SMEMBERS k) = {k}" | "cmd_keys (SCARD k) = {k}"
| "cmd_keys (LPUSH k _) = {k}" | "cmd_keys (RPUSH k _) = {k}" | "cmd_keys (LTRIM k _ _) = {k}"
| "cmd_keys (LREM k _ _) = {k}" | "cmd_keys (LLEN k) = {k}" | "cmd_keys (LRANGE k _ _) = {k}"
| "cmd_keys (LINDEX k _) = {k}" | "cmd_keys (ZADD k _ _) = {k}" | "cmd_keys (ZREM k _) = {k}"
| "cmd_keys (ZCARD k) = {k}" | "cmd_keys (ZRANGE k _ _) = {k}" | "cmd_keys (ZRANGEBYSCORE k _ _ _ _) = {k}"
| "cmd_keys (DECR k) = {k}" | "cmd_keys (SETPX k _ _) = {k}" | "cmd_keys (SETNX k _ _) = {k}"
| "cmd_keys (TYPE_OF k) = {k}" | "cmd_keys (PEXPIRE k _) = {k}" | "cmd_keys (RPOPLPUSH k k') = {k, k'}"

lemma modify_frame:
  assumes "\<And>v. put v d k = d k"
  shows "snd (modify get put f d) k = d k"
  using assms by (auto simp: modify_def split: sum.splits)

lemma rpoplpush_frame: "k \<noteq> src \<Longrightarrow> k \<noteq> dst \<Longrightarrow> snd (rpoplpush src dst d) k = d k"
  by (auto simp: rpoplpush_def Let_def split: sum.splits list.splits)

lemma redis_apply_frame: "k \<notin> cmd_keys c \<Longrightarrow> snd (redis_apply en c d) k = d k"
  by (cases c) (simp_all add: look_state modify_frame del_keys_def put_str_def rpoplpush_frame)

declare redis_apply.simps [simp del]

end
