(* ===== verification/Redis_Server.thy ===== *)
theory Redis_Server
  imports Redis_Data
begin

text \<open>
  The Redis client the program talks to, and \<open>internal/redis\<close> on top of it.

  go-redis and the Redis server are not code of this repository, so they are a parameter: a record
  \<open>'s redis_server\<close> of operations on a state of the world \<open>'s\<close>. What the program relies on is
  the locale \<open>redis\<close>: a call that succeeds had its documented effect (\<open>redis_apply\<close>) on the
  database \<open>db s\<close>; a call that fails on the way (\<open>ConnError\<close>) may or may not have had it; a
  transaction that reports \<open>TxFailedErr\<close> had none; a pipeline that breaks may have run a prefix of
  its commands; a script runs atomically as the Lua code
  \<open>lua\<close> says. Commands of one operation are not interleaved with those of another client; the
  concurrency that the scripts and WATCH guard against is treated on the level of whole scripts.
  The locale is interpreted on an in-memory server \<open>mem_redis\<close>.
\<close>

datatype ID =
    PublishScheduled | PublishMessage | RequeueMessage | RequeueImmediate | RequeueDelayed
  | CreateQueue | SubscribeConsumer | UnsubscribeConsumer | UnacknowledgeMessage
  | AcknowledgeMessage | DeleteMessage | CheckoutMessage | DeleteConsumerGroup | CheckRateLimit
  | SetRateLimit | DeleteQueue | ClearRateLimit | SetQueueState | GetQueueState | SaveConfig
  | ZPOPLPUSH | ExtendLock | ReleaseLock
  | CreateJob | StartJob | CompleteJob | FailJob | CancelJob | RecoverStuckJob

type_synonym call = "cmd \<Rightarrow> (db, redis_error, reply) io"

text \<open>A Lua script: from \<open>redis.call\<close>, \<open>KEYS\<close> and \<open>ARGV\<close> to a reply.\<close>

type_synonym script = "call \<Rightarrow> string list \<Rightarrow> string list \<Rightarrow> (db, redis_error, reply) io"

record 's redis_server =
  exec :: "cmd \<Rightarrow> ('s, redis_error, reply) io"
  tx_exec :: "cmd list \<Rightarrow> ('s, redis_error, reply list) io"
  pipe_exec :: "cmd list \<Rightarrow> ('s, redis_error, reply list) io"
  watch :: "string list \<Rightarrow> ('s, redis_error, unit) io"
  unwatch :: "('s, redis_error, unit) io"
  evalsha :: "ID \<Rightarrow> string list \<Rightarrow> string list \<Rightarrow> ('s, redis_error, reply) io"
  eval_text :: "ID \<Rightarrow> string list \<Rightarrow> string list \<Rightarrow> ('s, redis_error, reply) io"
  publish :: "string \<Rightarrow> string \<Rightarrow> ('s, redis_error, unit) io"

subsection \<open>What the program relies on\<close>

definition is_conn_error :: "redis_error + 'a \<Rightarrow> bool" where
  "is_conn_error r = (case r of Inl (ConnError _) \<Rightarrow> True | _ \<Rightarrow> False)"

text \<open>\<open>served db f s r s'\<close>: the outcome \<open>r\<close>, \<open>s'\<close> of a request whose documented effect is \<open>f\<close>.\<close>

definition served :: "('s \<Rightarrow> db) \<Rightarrow> ((string fset \<Rightarrow> string list) \<Rightarrow> (db, redis_error, 'a) io)
    \<Rightarrow> 's \<Rightarrow> redis_error + 'a \<Rightarrow> 's \<Rightarrow> bool" where
  "served db f s r s' \<longleftrightarrow>
     (\<exists>en. enum_ok en \<and>
       (f en (db s) = (r, db s') \<or>
        is_conn_error r \<and> (db s' = db s \<or> db s' = snd (f en (db s)))))"

locale redis =
  fixes rd :: "'s redis_server"
    and db :: "'s \<Rightarrow> db"
    and lua :: "ID \<Rightarrow> script"
  assumes exec_served: "exec rd c s = (r, s') \<Longrightarrow> served db (\<lambda>en. redis_apply en c) s r s'"
    and tx_served: "tx_exec rd cs s = (rs, s') \<Longrightarrow>
      served db (\<lambda>en. multi_apply en cs) s rs s' \<or> rs = Inl TxFailedErr \<and> db s' = db s"
    and pipe_served: "pipe_exec rd cs s = (rs, s') \<Longrightarrow>
      served db (\<lambda>en. multi_apply en cs) s rs s' \<or>
      is_conn_error rs \<and>
        (\<exists>en n. enum_ok en \<and> db s' = snd (run_all (redis_apply en) (take n cs) (db s)))"
    and watch_keeps: "watch rd ks s = (u, s') \<Longrightarrow>
      db s' = db s \<and> (u = Inr () \<or> is_conn_error u)"
    and unwatch_keeps: "unwatch rd s = (u, s') \<Longrightarrow> db s' = db s"
    and evalsha_served: "evalsha rd i ks as s = (r, s') \<Longrightarrow>
      (if r = Inl NoScript then db s' = db s
       else served db (\<lambda>en. lua i (redis_apply en) ks as) s r s')"
    and eval_served: "eval_text rd i ks as s = (r, s') \<Longrightarrow>
      served db (\<lambda>en. lua i (redis_apply en) ks as) s r s'"
    and publish_keeps: "publish rd ch p s = (u, s') \<Longrightarrow> db s' = db s"
begin

lemma exec_ok:
  "exec rd c s = (Inr x, s') \<Longrightarrow> \<exists>en. enum_ok en \<and> redis_apply en c (db s) = (Inr x, db s')"
  using exec_served [of c s "Inr x" s'] by (auto simp: served_def is_conn_error_def)

lemma exec_reads: "reads c \<Longrightarrow> keeps db (exec rd c)"
proof -
  assume c: "reads c"
  have "db s' = db s" if "exec rd c s = (r, s')" for s r s'
  proof -
    from exec_served [OF that] obtain en where
      "redis_apply en c (db s) = (r, db s') \<or> db s' = db s \<or> db s' = snd (redis_apply en c (db s))"
      by (auto simp: served_def)
    then show ?thesis using reads_keep [OF c, of en "db s"] by auto
  qed
  then show ?thesis by (auto simp: keeps_def)
qed

lemma tx_ok:
  assumes "tx_exec rd cs s = (Inr xs, s')"
  shows "\<exists>en. enum_ok en \<and> multi_apply en cs (db s) = (Inr xs, db s')"
proof -
  have "served db (\<lambda>en. multi_apply en cs) s (Inr xs) s'"
    using tx_served [OF assms] by simp
  then show ?thesis by (auto simp: served_def is_conn_error_def)
qed

lemma pipe_ok:
  assumes "pipe_exec rd cs s = (Inr xs, s')"
  shows "\<exists>en. enum_ok en \<and> multi_apply en cs (db s) = (Inr xs, db s')"
  using pipe_served [OF assms] by (auto simp: served_def is_conn_error_def)

lemma eval_text_ok:
  "eval_text rd i ks as s = (Inr x, s') \<Longrightarrow>
     \<exists>en. enum_ok en \<and> lua i (redis_apply en) ks as (db s) = (Inr x, db s')"
  using eval_served [of i ks as s "Inr x" s'] by (auto simp: served_def is_conn_error_def)

lemma evalsha_ok:
  "evalsha rd i ks as s = (Inr x, s') \<Longrightarrow>
     \<exists>en. enum_ok en \<and> lua i (redis_apply en) ks as (db s) = (Inr x, db s')"
  using evalsha_served [of i ks as s "Inr x" s'] by (auto simp: served_def is_conn_error_def)

lemma watch_keeps_db: "keeps db (watch rd ks)"
  using watch_keeps by (auto simp: keeps_def)

lemma unwatch_keeps_db: "keeps db (unwatch rd)"
  using unwatch_keeps by (auto simp: keeps_def)

lemma publish_keeps_db: "keeps db (publish rd ch p)"
  using publish_keeps by (auto simp: keeps_def)

lemmas redis_keeps = exec_reads watch_keeps_db unwatch_keeps_db publish_keeps_db

end

subsection \<open>An in-memory server\<close>

definition mem_enum :: "string fset \<Rightarrow> string list" where
  "mem_enum S = sorted_list_of_fset S"

lemma mem_enum_ok [simp]: "enum_ok mem_enum"
  by (simp add: enum_ok_def mem_enum_def sorted_list_of_fset.rep_eq fset_of_list.rep_eq
      fset_inject [symmetric])

definition mem_redis :: "(ID \<Rightarrow> script) \<Rightarrow> db redis_server" where
  "mem_redis lua =
     \<lparr>exec = redis_apply mem_enum,
      tx_exec = multi_apply mem_enum,
      pipe_exec = multi_apply mem_enum,
      watch = (\<lambda>ks. ret ()),
      unwatch = ret (),
      evalsha = (\<lambda>i ks as d. case lua i (redis_apply mem_enum) ks as d of
          (r, d') \<Rightarrow> if r = Inl NoScript then (r, d) else (r, d')),
      eval_text = (\<lambda>i. lua i (redis_apply mem_enum)),
      publish = (\<lambda>ch p. ret ())\<rparr>"

lemma servedI: "enum_ok en \<Longrightarrow> f en (db s) = (r, db s') \<Longrightarrow> served db f s r s'"
  by (auto simp: served_def)

interpretation mem: redis "mem_redis lua" "\<lambda>d. d" lua for lua
  by unfold_locales
    (auto simp: mem_redis_def intro: servedI [OF mem_enum_ok] split: prod.splits if_splits)

end
