(* ===== verification/Redis_Keys.thy ===== *)
theory Redis_Keys
  imports Smq_Errors
begin

text \<open>
  Redis key names: \<open>pkg/redis/validate_key.go\<close> and the builders of
  \<open>internal/redis/keys/*.go\<close>. A key is the prefix \<open>redis-smq:10\<close> followed by its parts, each
  after a colon.

  The results: a validated name is non-empty, starts with a letter and holds lower case letters,
  digits, hyphens, underscores and dots only (so no colon), whatever Unicode lower-casing does;
  validation is idempotent; the key builder is injective on colon-free parts, so that the keys of
  different queues, exchanges and namespaces never collide.
\<close>

named_theorems key_defs \<open>definitions of the key builders\<close>

subsection \<open>Key validation\<close>

definition isLetter :: "char \<Rightarrow> bool" where
  "isLetter c \<longleftrightarrow> 97 \<le> (of_char c :: nat) \<and> (of_char c :: nat) \<le> 122"

definition isDigit :: "char \<Rightarrow> bool" where
  "isDigit c \<longleftrightarrow> 48 \<le> (of_char c :: nat) \<and> (of_char c :: nat) \<le> 57"

definition isValidKeyChar :: "char \<Rightarrow> bool" where
  "isValidKeyChar c \<longleftrightarrow> isLetter c \<or> isDigit c \<or> c = CHR ''-'' \<or> c = CHR ''_'' \<or> c = CHR ''.''"

text \<open>\<open>strings.ToLower\<close> of a non-empty string is non-empty for ASCII input; for other input the
  model keeps the index expression \<open>key[0]\<close> honest by treating an empty result as invalid.\<close>

definition ValidateKey :: "(string \<Rightarrow> string) \<Rightarrow> string \<Rightarrow> go_error + string" where
  "ValidateKey ulower key =
     (if key = [] then Inl ErrInvalidKey
      else case to_lower ulower key of
             [] \<Rightarrow> Inl ErrInvalidKey
           | c # cs \<Rightarrow>
               if \<not> isLetter c then Inl ErrInvalidKey
               else if \<exists>d \<in> set cs. \<not> isValidKeyChar d then Inl ErrInvalidKey
               else Inr (c # cs))"

text \<open>What a validated key looks like.\<close>

definition valid_key :: "string \<Rightarrow> bool" where
  "valid_key k \<longleftrightarrow> k \<noteq> [] \<and> isLetter (hd k) \<and> (\<forall>c \<in> set k. isValidKeyChar c)"

subsection \<open>Key construction\<close>

definition key_prefix :: string where
  "key_prefix = ''redis-smq:10''"

fun key_parts :: "string list \<Rightarrow> string" where
  "key_parts [] = []"
| "key_parts (p # ps) = CHR '':'' # p @ key_parts ps"

definition Key :: "string list \<Rightarrow> string" where
  "Key parts = key_prefix @ key_parts parts"

text \<open>Keys of the system domain (\<open>keys.System\<close>).\<close>

definition System_Config :: string where [key_defs]: "System_Config = Key [''main'', ''cfg'']"
definition System_AllQueues :: string where [key_defs]: "System_AllQueues = Key [''main'', ''q'']"
definition System_AllExchanges :: string where [key_defs]: "System_AllExchanges = Key [''main'', ''exs'']"
definition System_AllNamespaces :: string where [key_defs]: "System_AllNamespaces = Key [''main'', ''ns'']"
definition System_PurgeJobs :: string where [key_defs]: "System_PurgeJobs = Key [''main'', ''pg-jobs'']"
definition System_PendingPurgeJobs :: string where
  [key_defs]: "System_PendingPurgeJobs = Key [''main'', ''pg-jobs'', ''pend'']"
definition System_ActivePurgeJobs :: string where
  [key_defs]: "System_ActivePurgeJobs = Key [''main'', ''pg-jobs'', ''proc'']"
definition System_JobWorker :: "string \<Rightarrow> string" where
  [key_defs]: "System_JobWorker jobID = Key [''main'', ''jobs'', jobID, ''wrk'']"
definition System_WorkerHeartbeat :: "string \<Rightarrow> string" where
  [key_defs]: "System_WorkerHeartbeat workerID = Key [''main'', ''wrk'', workerID, ''hb'']"
definition System_ConsumerQueues :: "string \<Rightarrow> string" where
  [key_defs]: "System_ConsumerQueues consumerID = Key [''main'', ''cons'', consumerID, ''q'']"
definition System_ConsumerHeartbeat :: "string \<Rightarrow> string" where
  [key_defs]: "System_ConsumerHeartbeat consumerID = Key [''main'', ''cons'', consumerID, ''hb'']"
definition System_Message :: "string \<Rightarrow> string" where
  [key_defs]: "System_Message messageID = Key [''main'', ''msg'', messageID]"
definition System_MessageAcknowledgementHistory :: "string \<Rightarrow> string" where
  [key_defs]: "System_MessageAcknowledgementHistory messageID = Key [''main'', ''msg'', messageID, ''uh'']"

text \<open>Keys of a namespace (\<open>keys.Namespace\<close>).\<close>

definition Namespace_Queues :: "string \<Rightarrow> string" where
  [key_defs]: "Namespace_Queues n = Key [''ns'', n, ''q'']"
definition Namespace_Exchanges :: "string \<Rightarrow> string" where
  [key_defs]: "Namespace_Exchanges n = Key [''ns'', n, ''exs'']"

text \<open>Keys of a queue (\<open>keys.Queue\<close>).\<close>

record queue_key =
  qk_Namespace :: string
  qk_Name :: string

definition Queue_sub :: "queue_key \<Rightarrow> string list \<Rightarrow> string" where
  [key_defs]: "Queue_sub q rest = Key ([''ns'', qk_Namespace q, ''q'', qk_Name q] @ rest)"

definition Queue_Properties :: "queue_key \<Rightarrow> string" where
  [key_defs]: "Queue_Properties q = Queue_sub q [''prop'']"
definition Queue_Published :: "queue_key \<Rightarrow> string" where
  [key_defs]: "Queue_Published q = Queue_sub q [''pub'']"
definition Queue_Pending :: "queue_key \<Rightarrow> string" where
  [key_defs]: "Queue_Pending q = Queue_sub q [''pend'']"
definition Queue_Priority :: "queue_key \<Rightarrow> string" where
  [key_defs]: "Queue_Priority q = Queue_sub q [''prio'']"
definition Queue_DeadLetter :: "queue_key \<Rightarrow> string" where
  [key_defs]: "Queue_DeadLetter q = Queue_sub q [''dl'']"
definition Queue_Acknowledged :: "queue_key \<Rightarrow> string" where
  [key_defs]: "Queue_Acknowledged q = Queue_sub q [''ack'']"
definition Queue_Scheduled :: "queue_key \<Rightarrow> string" where
  [key_defs]: "Queue_Scheduled q = Queue_sub q [''sched'']"
definition Queue_Delayed :: "queue_key \<Rightarrow> string" where
  [key_defs]: "Queue_Delayed q = Queue_sub q [''dly'']"
definition Queue_Requeued :: "queue_key \<Rightarrow> string" where
  [key_defs]: "Queue_Requeued q = Queue_sub q [''req'']"
definition Queue_Consumers :: "queue_key \<Rightarrow> string" where
  [key_defs]: "Queue_Consumers q = Queue_sub q [''cons'']"
definition Queue_ConsumerGroups :: "queue_key \<Rightarrow> string" where
  [key_defs]: "Queue_ConsumerGroups q = Queue_sub q [''cgp'']"
definition Queue_StateHistory :: "queue_key \<Rightarrow> string" where
  [key_defs]: "Queue_StateHistory q = Queue_sub q [''sh'']"
definition Queue_ExchangeBindings :: "queue_key \<Rightarrow> string" where
  [key_defs]: "Queue_ExchangeBindings q = Queue_sub q [''bind'']"
definition Queue_ProcessingQueues :: "queue_key \<Rightarrow> string" where
  [key_defs]: "Queue_ProcessingQueues q = Queue_sub q [''proc-q'']"
definition Queue_WorkersLock :: "queue_key \<Rightarrow> string" where
  [key_defs]: "Queue_WorkersLock q = Queue_sub q [''wlock'']"
definition Queue_RateLimit :: "queue_key \<Rightarrow> string" where
  [key_defs]: "Queue_RateLimit q = Queue_sub q [''rate'']"
definition Queue_PendingWithGroup :: "queue_key \<Rightarrow> string \<Rightarrow> string" where
  [key_defs]: "Queue_PendingWithGroup q g = Queue_sub q [''cgp'', g, ''pend'']"
definition Queue_PriorityWithGroup :: "queue_key \<Rightarrow> string \<Rightarrow> string" where
  [key_defs]: "Queue_PriorityWithGroup q g = Queue_sub q [''cgp'', g, ''prio'']"
definition Queue_ConsumerProcessing :: "queue_key \<Rightarrow> string \<Rightarrow> string" where
  [key_defs]: "Queue_ConsumerProcessing q c = Queue_sub q [''cons'', c, ''proc'']"
definition Queue_ConsumerGroupMembers :: "queue_key \<Rightarrow> string \<Rightarrow> string" where
  [key_defs]: "Queue_ConsumerGroupMembers q g = Queue_sub q [''cgp'', g, ''cons'']"

text \<open>Keys of an exchange (\<open>keys.Exchange\<close>).\<close>

record exchange_key =
  xk_Namespace :: string
  xk_Name :: string

definition Exchange_sub :: "exchange_key \<Rightarrow> string list \<Rightarrow> string" where
  [key_defs]: "Exchange_sub e rest = Key ([''ns'', xk_Namespace e, ''exs'', xk_Name e] @ rest)"

definition Exchange_Exchange :: "exchange_key \<Rightarrow> string" where
  [key_defs]: "Exchange_Exchange e = Exchange_sub e []"
definition Exchange_Properties :: "exchange_key \<Rightarrow> string" where
  [key_defs]: "Exchange_Properties e = Exchange_sub e [''prop'']"
definition Exchange_RoutingKeys :: "exchange_key \<Rightarrow> string" where
  [key_defs]: "Exchange_RoutingKeys e = Exchange_sub e [''rk'']"
definition Exchange_RoutingKeyQueues :: "exchange_key \<Rightarrow> string \<Rightarrow> string" where
  [key_defs]: "Exchange_RoutingKeyQueues e rk = Exchange_sub e [''rk'', rk, ''q'']"
definition Exchange_BindingPatterns :: "exchange_key \<Rightarrow> string" where
  [key_defs]: "Exchange_BindingPatterns e = Exchange_sub e [''pat'']"
definition Exchange_PatternQueues :: "exchange_key \<Rightarrow> string \<Rightarrow> string" where
  [key_defs]: "Exchange_PatternQueues e p = Exchange_sub e [''pat'', p, ''q'']"
definition Exchange_FanoutQueues :: "exchange_key \<Rightarrow> string" where
  [key_defs]: "Exchange_FanoutQueues e = Exchange_sub e [''q'']"

subsection \<open>Validation lemmas\<close>

lemma isLetter_valid: "isLetter c \<Longrightarrow> isValidKeyChar c"
  by (simp add: isValidKeyChar_def)

lemma isValidKeyChar_lower: "isValidKeyChar c \<Longrightarrow> lower_char c = c"
  by (auto simp: isValidKeyChar_def isLetter_def isDigit_def lower_char_def)

lemma isValidKeyChar_ascii: "isValidKeyChar c \<Longrightarrow> (of_char c :: nat) < 128"
  by (auto simp: isValidKeyChar_def isLetter_def isDigit_def)

lemma isValidKeyChar_no_colon: "isValidKeyChar c \<Longrightarrow> c \<noteq> CHR '':''"
  by (auto simp: isValidKeyChar_def isLetter_def isDigit_def)

lemma valid_key_no_colon: "valid_key k \<Longrightarrow> CHR '':'' \<notin> set k"
  using isValidKeyChar_no_colon by (auto simp: valid_key_def)

lemma ValidateKey_alt:
  "ValidateKey ul k =
     (if k \<noteq> [] \<and> valid_key (to_lower ul k) then Inr (to_lower ul k) else Inl ErrInvalidKey)"
  by (cases "to_lower ul k") (auto simp: ValidateKey_def valid_key_def isLetter_valid)

lemma ValidateKey_iff: "ValidateKey ul k = Inr k' \<longleftrightarrow> k \<noteq> [] \<and> k' = to_lower ul k \<and> valid_key k'"
  by (auto simp: ValidateKey_alt)

lemma valid_key_lower: "valid_key k \<Longrightarrow> to_lower ul k = k"
  using isValidKeyChar_ascii isValidKeyChar_lower
  by (auto simp: valid_key_def to_lower_def is_ascii_def intro!: map_idI)

lemma ValidateKey_of_valid: "valid_key k \<Longrightarrow> ValidateKey ul k = Inr k"
  by (simp add: ValidateKey_alt valid_key_lower) (simp add: valid_key_def)

subsection \<open>Key injectivity\<close>

lemma colon_split:
  "CHR '':'' \<notin> set p \<Longrightarrow> CHR '':'' \<notin> set q \<Longrightarrow>
   p @ key_parts ps = q @ key_parts qs \<Longrightarrow> p = q \<and> key_parts ps = key_parts qs"
proof (induction p arbitrary: q)
  case Nil
  then show ?case by (cases q; cases ps) auto
next
  case (Cons c p)
  show ?case
  proof (cases q)
    case Nil
    with Cons.prems show ?thesis by (cases qs) auto
  next
    case (Cons d q')
    with Cons.prems have "c = d" and "p = q' \<and> key_parts ps = key_parts qs"
      using Cons.IH [of q'] by auto
    with Cons show ?thesis by simp
  qed
qed

lemma key_parts_inject:
  "\<forall>p \<in> set ps. CHR '':'' \<notin> set p \<Longrightarrow> \<forall>q \<in> set qs. CHR '':'' \<notin> set q \<Longrightarrow>
   key_parts ps = key_parts qs \<Longrightarrow> ps = qs"
proof (induction ps arbitrary: qs)
  case Nil
  then show ?case by (cases qs) auto
next
  case (Cons p ps)
  then obtain q qs' where "qs = q # qs'" by (cases qs) auto
  with Cons.prems have "p = q" and "key_parts ps = key_parts qs'"
    using colon_split [of p q ps qs'] by simp_all
  moreover from this Cons.prems \<open>qs = q # qs'\<close> have "ps = qs'"
    by (intro Cons.IH) simp_all
  ultimately show ?case using \<open>qs = q # qs'\<close> by simp
qed

lemma key_parts_append: "key_parts (ps @ qs) = key_parts ps @ key_parts qs"
  by (induction ps) auto

lemma Key_eq_iff: "Key ps = Key qs \<longleftrightarrow> key_parts ps = key_parts qs"
  by (simp add: Key_def)

end
