(* ===== verification/Redis_Client.thy ===== *)
theory Redis_Client
  imports Redis_Server Redis_Keys
begin

text \<open>
  \<open>internal/redis\<close>: the typed go-redis calls the program makes, \<open>LoadHash\<close>, \<open>LoadHashField\<close>,
  \<open>LoadSetMembers\<close>, \<open>SetContains\<close> (\<open>hash.go\<close>, \<open>set.go\<close>), the reply conversions (\<open>reply.go\<close>),
  \<open>Eval\<close> with its fall-back on NOSCRIPT (\<open>scripts/manager.go\<close>) and the retry loop
  \<open>WithTransaction\<close> (\<open>tx.go\<close>). The lemmas of the second part, proved once in the locale
  \<open>redis\<close>, say what a successful call tells about the database and that the reading calls leave it
  alone; the stores of queues, exchanges and messages use nothing else.
\<close>

subsection \<open>Typed calls\<close>

definition bad_reply :: redis_error where
  "bad_reply = ConnError ''redis: unexpected reply''"

fun bulk :: "reply \<Rightarrow> string option" where
  "bulk (RBulk s) = Some s"
| "bulk _ = None"

definition strings_of :: "reply \<Rightarrow> string list option" where
  "strings_of r = (case r of RArr rs \<Rightarrow> those (map bulk rs) | _ \<Rightarrow> None)"

definition expect_reply :: "(reply \<Rightarrow> 'a option) \<Rightarrow> reply \<Rightarrow> ('s, redis_error, 'a) io" where
  "expect_reply f r = (case f r of Some x \<Rightarrow> ret x | None \<Rightarrow> throw bad_reply)"

definition hget :: "'s redis_server \<Rightarrow> string \<Rightarrow> string \<Rightarrow> ('s, redis_error, string) io" where
  "hget rd k f = and_then (exec rd (HGET k f)) (\<lambda>r. if r = RNil then throw RedisNil else expect_reply bulk r)"

definition hgetall :: "'s redis_server \<Rightarrow> string \<Rightarrow> ('s, redis_error, (string, string) fmap) io" where
  "hgetall rd k = and_then (exec rd (HGETALL k)) (\<lambda>r. and_then (expect_reply strings_of r)
     (\<lambda>xs. ret (fmap_of_list (pair_up xs))))"

definition hkeys :: "'s redis_server \<Rightarrow> string \<Rightarrow> ('s, redis_error, string list) io" where
  "hkeys rd k = and_then (exec rd (HKEYS k)) (expect_reply strings_of)"

definition smembers :: "'s redis_server \<Rightarrow> string \<Rightarrow> ('s, redis_error, string list) io" where
  "smembers rd k = and_then (exec rd (SMEMBERS k)) (expect_reply strings_of)"

definition lrange :: "'s redis_server \<Rightarrow> string \<Rightarrow> int \<Rightarrow> int \<Rightarrow> ('s, redis_error, string list) io" where
  "lrange rd k a b = and_then (exec rd (LRANGE k a b)) (expect_reply strings_of)"

definition lindex :: "'s redis_server \<Rightarrow> string \<Rightarrow> int \<Rightarrow> ('s, redis_error, string) io" where
  "lindex rd k i = and_then (exec rd (LINDEX k i)) (\<lambda>r. if r = RNil then throw RedisNil else expect_reply bulk r)"

definition int_of :: "reply \<Rightarrow> int option" where
  "int_of r = (case r of RInt n \<Rightarrow> Some n | _ \<Rightarrow> None)"

definition bool_of :: "reply \<Rightarrow> bool option" where
  "bool_of r = map_option (\<lambda>n. n = 1) (int_of r)"

definition sismember :: "'s redis_server \<Rightarrow> string \<Rightarrow> string \<Rightarrow> ('s, redis_error, bool) io" where
  "sismember rd k m = and_then (exec rd (SISMEMBER k m)) (expect_reply bool_of)"

definition hexists :: "'s redis_server \<Rightarrow> string \<Rightarrow> string \<Rightarrow> ('s, redis_error, bool) io" where
  "hexists rd k f = and_then (exec rd (HEXISTS k f)) (expect_reply bool_of)"

definition scard :: "'s redis_server \<Rightarrow> string \<Rightarrow> ('s, redis_error, int) io" where
  "scard rd k = and_then (exec rd (SCARD k)) (expect_reply int_of)"

definition exists_keys :: "'s redis_server \<Rightarrow> string list \<Rightarrow> ('s, redis_error, int) io" where
  "exists_keys rd ks = and_then (exec rd (EXISTS ks)) (expect_reply int_of)"

definition sadd :: "'s redis_server \<Rightarrow> string \<Rightarrow> string list \<Rightarrow> ('s, redis_error, int) io" where
  "sadd rd k ms = and_then (exec rd (SADD k ms)) (expect_reply int_of)"

text \<open>\<open>Client().Watch(ctx, fn, keys...)\<close>: the keys are unwatched again when \<open>fn\<close> is done, whatever
  it returned.\<close>

definition Watch :: "'s redis_server \<Rightarrow> string list \<Rightarrow> ('s, go_error, 'a) io \<Rightarrow> ('s, go_error, 'a) io" where
  "Watch rd ks fn = and_then (map_err RedisErr (watch rd ks)) (\<lambda>_. and_then (try_io fn) (\<lambda>r.
     and_then (try_io (unwatch rd)) (\<lambda>_. lift_sum r)))"

subsection \<open>internal/redis\<close>

definition LoadHash :: "'s redis_server \<Rightarrow> string \<Rightarrow> string \<Rightarrow> ('s, go_error, (string, string) fmap) io" where
  "LoadHash rd key entity =
     and_then (map_err (\<lambda>e. Wrapf (''load '' @ entity) (RedisErr e)) (hgetall rd key)) (\<lambda>hash.
       if hash = fmempty then throw (Errorf (entity @ '' not found'')) else ret hash)"

definition LoadHashField :: "'s redis_server \<Rightarrow> string \<Rightarrow> string \<Rightarrow> string \<Rightarrow> ('s, go_error, string) io" where
  "LoadHashField rd key field entity =
     map_err (\<lambda>e. Wrapf (''load '' @ entity @ '' field '' @ field) (RedisErr e)) (hget rd key field)"

definition LoadSetMembers :: "'s redis_server \<Rightarrow> string \<Rightarrow> string \<Rightarrow> ('s, go_error, string list) io" where
  "LoadSetMembers rd key entity =
     map_err (\<lambda>e. Wrapf (''load '' @ entity @ '' members'') (RedisErr e)) (smembers rd key)"

definition SetContains :: "'s redis_server \<Rightarrow> string \<Rightarrow> string \<Rightarrow> string \<Rightarrow> ('s, go_error, bool) io" where
  "SetContains rd key val entity =
     map_err (\<lambda>e. Wrapf (''check '' @ entity @ '' membership'') (RedisErr e)) (sismember rd key val)"

definition String_of :: "reply \<Rightarrow> go_error + string" where
  "String_of r = (case r of RBulk s \<Rightarrow> Inr s | _ \<Rightarrow> Inl (Wrapf ''expected string'' ErrUnexpectedScriptReply))"

definition Int64_of :: "reply \<Rightarrow> go_error + int" where
  "Int64_of r = (case r of RInt n \<Rightarrow> Inr n | _ \<Rightarrow> Inl (Wrapf ''expected int64'' ErrUnexpectedScriptReply))"

definition Slice_of :: "reply \<Rightarrow> go_error + reply list" where
  "Slice_of r = (case r of RArr rs \<Rightarrow> Inr rs | _ \<Rightarrow> Inl (Wrapf ''expected []interface{}'' ErrUnexpectedScriptReply))"

text \<open>After \<open>RegisterAll\<close> every script has a digest and a text. A nil script reply is the error
  \<open>redis.Nil\<close> in go-redis.\<close>

definition nil_reply :: "reply \<Rightarrow> ('s, redis_error, reply) io" where
  "nil_reply r = (if r = RNil then throw RedisNil else ret r)"

definition Eval :: "'s redis_server \<Rightarrow> ID \<Rightarrow> string list \<Rightarrow> string list \<Rightarrow> ('s, go_error, reply) io" where
  "Eval rd i ks as =
     and_then (try_io (and_then (evalsha rd i ks as) nil_reply)) (\<lambda>res.
       case res of
         Inr reply \<Rightarrow> ret reply
       | Inl e \<Rightarrow>
           if e \<noteq> NoScript then throw (Wrapf ''execute script'' (RedisErr e))
           else map_err RedisErr (and_then (eval_text rd i ks as) nil_reply))"

fun tx_attempts :: "'s redis_server \<Rightarrow> string list \<Rightarrow> ('s, go_error, 'a) io \<Rightarrow> int \<Rightarrow> nat \<Rightarrow> ('s, go_error, 'a) io" where
  "tx_attempts rd ks fn maxAttempts 0 =
     throw (Errorf (''transaction failed after '' @ itoa maxAttempts @ '' attempts''))"
| "tx_attempts rd ks fn maxAttempts (Suc n) =
     and_then (try_io (Watch rd ks fn)) (\<lambda>r. case r of
         Inr x \<Rightarrow> ret x
       | Inl err \<Rightarrow>
           if \<not> errors_is err (RedisErr TxFailedErr) then throw (Wrapf ''transaction failed'' err)
           else tx_attempts rd ks fn maxAttempts n)"

abbreviation defaultMaxAttempts :: int where "defaultMaxAttempts \<equiv> 3"

definition WithTransaction :: "'s redis_server \<Rightarrow> string list \<Rightarrow> int \<Rightarrow> ('s, go_error, 'a) io \<Rightarrow> ('s, go_error, 'a) io" where
  "WithTransaction rd watchKeys maxAttempts fn =
     (let n = (if maxAttempts \<le> 0 then defaultMaxAttempts else maxAttempts)
      in tx_attempts rd watchKeys fn n (nat n))"

subsection \<open>What the calls tell about the database\<close>

lemma those_map_bulk [simp]: "those (map bulk (map RBulk xs)) = Some xs"
  by (induction xs) simp_all

lemma strings_of_bulks [simp]: "strings_of (RArr (map RBulk xs)) = Some xs"
  by (simp add: strings_of_def del: map_map)

lemma expect_reply_Some [simp]: "f r = Some x \<Longrightarrow> expect_reply f r = ret x"
  by (simp add: expect_reply_def)

lemma keeps_expect_reply [simp, keeps_intros]: "keeps obs (expect_reply f r)"
  by (simp add: expect_reply_def keeps_option)

lemma expect_reply_ok: "expect_reply f r s = (Inr x, s') \<longleftrightarrow> f r = Some x \<and> s' = s"
  by (auto simp: expect_reply_def split: option.splits)

lemma expect_reply_err: "expect_reply f r s = (Inl e, s') \<Longrightarrow> e = bad_reply"
  by (auto simp: expect_reply_def split: option.splits)

lemma bool_of_reply [simp]: "bool_of (bool_reply b) = Some b"
  by (simp add: bool_of_def bool_reply_def int_of_def)

lemma int_of_RInt [simp]: "int_of (RInt n) = Some n"
  by (simp add: int_of_def)

lemma opt_reply_cases:
  "opt_reply v = RNil \<longleftrightarrow> v = None" "RNil = opt_reply v \<longleftrightarrow> v = None" "bulk (opt_reply v) = v"
  by (cases v; simp add: opt_reply_def)+

text \<open>An error that only wraps one of the client's, other than an aborted transaction.\<close>

fun redis_fault :: "go_error \<Rightarrow> bool" where
  "redis_fault (RedisErr e) \<longleftrightarrow> e \<noteq> TxFailedErr"
| "redis_fault (Wrapf m e) \<longleftrightarrow> redis_fault e"
| "redis_fault _ \<longleftrightarrow> False"

lemma redis_fault_not_tx: "redis_fault e \<Longrightarrow> \<not> errors_is e (RedisErr TxFailedErr)"
  by (induction e rule: redis_fault.induct) auto

text \<open>An error that only wraps a failure on the way to or from Redis.\<close>

fun conn_fault :: "go_error \<Rightarrow> bool" where
  "conn_fault (RedisErr (ConnError m)) \<longleftrightarrow> True"
| "conn_fault (Wrapf m e) \<longleftrightarrow> conn_fault e"
| "conn_fault _ \<longleftrightarrow> False"

lemma conn_fault_redis: "conn_fault e \<Longrightarrow> redis_fault e"
  by (induction e rule: conn_fault.induct) auto

text \<open>\<open>rejects db m\<close>: an error of \<open>m\<close> that is not a fault of Redis leaves the database alone.\<close>

definition rejects :: "('s \<Rightarrow> 'd) \<Rightarrow> ('s, go_error, 'a) io \<Rightarrow> bool" where
  "rejects obs m \<longleftrightarrow> (\<forall>s e s'. m s = (Inl e, s') \<longrightarrow> \<not> redis_fault e \<longrightarrow> obs s' = obs s)"

named_theorems rejects_intros \<open>composition rules for \<open>rejects\<close>\<close>

lemma rejectsD: "rejects obs m \<Longrightarrow> m s = (Inl e, s') \<Longrightarrow> \<not> redis_fault e \<Longrightarrow> obs s' = obs s"
  by (simp add: rejects_def)

lemma rejects_keeps: "keeps obs m \<Longrightarrow> rejects obs m"
  by (auto simp: rejects_def keeps_def)

lemma rejects_and_then [rejects_intros]:
  assumes "keeps obs m" and "\<And>x. rejects obs (f x)"
  shows "rejects obs (and_then m f)"
proof -
  have "obs s' = obs s" if run: "and_then m f s = (Inl e, s')" and e: "\<not> redis_fault e" for s e s'
  proof -
    from run consider "m s = (Inl e, s')" | x s1 where "m s = (Inr x, s1)" "f x s1 = (Inl e, s')"
      by (auto simp: and_then_err)
    then show ?thesis
    proof cases
      case 1
      with assms(1) show ?thesis by (rule keepsD)
    next
      case 2
      from rejectsD [OF assms(2) 2(2) e] keepsD [OF assms(1) 2(1)] show ?thesis by simp
    qed
  qed
  then show ?thesis by (auto simp: rejects_def)
qed

lemma rejects_then_ret [rejects_intros]: "rejects obs m \<Longrightarrow> rejects obs (and_then m (\<lambda>x. ret (g x)))"
  by (auto simp: rejects_def and_then_err)

lemma rejects_map_err_Wrapf [rejects_intros]: "rejects obs m \<Longrightarrow> rejects obs (map_err (Wrapf t) m)"
  by (auto simp: rejects_def map_err_err)

lemma rejects_if [rejects_intros]:
  "(b \<Longrightarrow> rejects obs m) \<Longrightarrow> (\<not> b \<Longrightarrow> rejects obs m') \<Longrightarrow> rejects obs (if b then m else m')"
  by simp

lemma redis_apply_not_tx: "redis_apply en c d \<noteq> (Inl TxFailedErr, d')"
  using redis_apply_errors [of en c d TxFailedErr d'] by (auto simp: data_errors_def)

lemma first_error_not_tx: "run_all (redis_apply en) cs d = (rs, d') \<Longrightarrow> first_error rs \<noteq> Inl TxFailedErr"
proof (induction cs arbitrary: d rs)
  case (Cons c cs)
  obtain r d1 rs' where "redis_apply en c d = (r, d1)" "run_all (redis_apply en) cs d1 = (rs', d')"
    "rs = r # rs'"
    using Cons.prems by (auto split: prod.splits)
  with Cons.IH [of d1 rs'] redis_apply_not_tx [of en c d d1] show ?case
    by (cases r) (auto split: sum.splits)
qed auto

lemma multi_apply_not_tx: "multi_apply en cs d \<noteq> (Inl TxFailedErr, d')"
proof (cases "run_all (redis_apply en) cs d")
  case (Pair rs d1)
  then show ?thesis using first_error_not_tx [OF Pair] by (simp add: multi_apply_def)
qed

context redis
begin

lemma call_keeps [keeps_intros]:
  "keeps db (hget rd k f)" "keeps db (hgetall rd k)" "keeps db (hkeys rd k)" "keeps db (smembers rd k)"
  "keeps db (lrange rd k a b)" "keeps db (sismember rd k m)" "keeps db (hexists rd k f)"
  "keeps db (scard rd k)" "keeps db (exists_keys rd ks)" "keeps db (lindex rd k i)"
  unfolding hget_def hgetall_def hkeys_def smembers_def lrange_def sismember_def hexists_def scard_def
    exists_keys_def lindex_def
  by (intro keeps_intros exec_reads; simp)+

lemma hget_ok:
  "hget rd k f s = (Inr v, s') \<Longrightarrow> \<exists>h. get_hash (db s) k = Inr h \<and> fmlookup h f = Some v"
  unfolding hget_def and_then_ok
  by (auto dest!: exec_ok simp: redis_apply.simps look_Inr expect_reply_ok opt_reply_cases split: if_splits)

lemma exec_not_nil: "exec rd c s \<noteq> (Inl RedisNil, s')"
proof
  assume "exec rd c s = (Inl RedisNil, s')"
  then obtain en where "redis_apply en c (db s) = (Inl RedisNil, db s')"
    using exec_served by (fastforce simp: served_def is_conn_error_def)
  then show False
    using redis_apply_errors [of en c "db s" RedisNil "db s'"] by (auto simp: data_errors_def)
qed

lemma exec_not_tx: "exec rd c s \<noteq> (Inl TxFailedErr, s')"
proof
  assume "exec rd c s = (Inl TxFailedErr, s')"
  then obtain en where "redis_apply en c (db s) = (Inl TxFailedErr, db s')"
    using exec_served by (fastforce simp: served_def is_conn_error_def)
  then show False using redis_apply_not_tx by blast
qed

lemma call_not_tx:
  "hkeys rd k s = (Inl e, s') \<Longrightarrow> e \<noteq> TxFailedErr"
  "smembers rd k s = (Inl e, s') \<Longrightarrow> e \<noteq> TxFailedErr"
  "hgetall rd k s = (Inl e, s') \<Longrightarrow> e \<noteq> TxFailedErr"
  "sismember rd k m s = (Inl e, s') \<Longrightarrow> e \<noteq> TxFailedErr"
  "scard rd k s = (Inl e, s') \<Longrightarrow> e \<noteq> TxFailedErr"
  "hexists rd k f s = (Inl e, s') \<Longrightarrow> e \<noteq> TxFailedErr"
  "exists_keys rd ks s = (Inl e, s') \<Longrightarrow> e \<noteq> TxFailedErr"
  by (auto simp: hkeys_def smembers_def hgetall_def sismember_def scard_def hexists_def exists_keys_def
      and_then_err exec_not_tx bad_reply_def dest!: expect_reply_err)

lemma hget_nil:
  "hget rd k f s = (Inl RedisNil, s') \<Longrightarrow> \<exists>h. get_hash (db s) k = Inr h \<and> fmlookup h f = None"
  unfolding hget_def and_then_err
  by (auto dest!: exec_ok expect_reply_err
      simp: redis_apply.simps look_Inr opt_reply_cases exec_not_nil bad_reply_def split: if_splits)

lemma hgetall_ok: "hgetall rd k s = (Inr x, s') \<Longrightarrow> get_hash (db s) k = Inr x"
  unfolding hgetall_def and_then_ok
  by (auto dest!: exec_ok simp: redis_apply.simps look_Inr expect_reply_ok fmap_of_enum_fmap)

lemma hkeys_ok:
  "hkeys rd k s = (Inr xs, s') \<Longrightarrow>
     \<exists>h. get_hash (db s) k = Inr h \<and> set xs = fset (fmdom h) \<and> distinct xs"
  unfolding hkeys_def and_then_ok
  by (auto dest!: exec_ok simp: redis_apply.simps look_Inr expect_reply_ok enum_ok_set enum_ok_distinct)

lemma smembers_ok:
  "smembers rd k s = (Inr xs, s') \<Longrightarrow>
     \<exists>S. get_set (db s) k = Inr S \<and> set xs = fset S \<and> distinct xs"
  unfolding smembers_def and_then_ok
  by (auto dest!: exec_ok simp: redis_apply.simps look_Inr expect_reply_ok enum_ok_set enum_ok_distinct)

lemma lrange_ok:
  "lrange rd k a b s = (Inr xs, s') \<Longrightarrow> \<exists>ys. get_list (db s) k = Inr ys \<and> xs = list_range a b ys"
  unfolding lrange_def and_then_ok
  by (auto dest!: exec_ok simp: redis_apply.simps look_Inr expect_reply_ok)

lemma lindex_ok:
  "lindex rd k i s = (Inr v, s') \<Longrightarrow> \<exists>xs. get_list (db s) k = Inr xs \<and> list_index i xs = Some v"
  unfolding lindex_def and_then_ok
  by (auto dest!: exec_ok simp: redis_apply.simps look_Inr expect_reply_ok opt_reply_cases split: if_splits)

lemma sismember_ok:
  "sismember rd k m s = (Inr b, s') \<Longrightarrow> \<exists>S. get_set (db s) k = Inr S \<and> b = (m |\<in>| S)"
  unfolding sismember_def and_then_ok
  by (auto dest!: exec_ok simp: redis_apply.simps look_Inr expect_reply_ok)

lemma hexists_ok:
  "hexists rd k f s = (Inr b, s') \<Longrightarrow> \<exists>h. get_hash (db s) k = Inr h \<and> b = (f |\<in>| fmdom h)"
  unfolding hexists_def and_then_ok
  by (auto dest!: exec_ok simp: redis_apply.simps look_Inr expect_reply_ok)

lemma scard_ok:
  "scard rd k s = (Inr n, s') \<Longrightarrow> \<exists>S. get_set (db s) k = Inr S \<and> n = int (fcard S)"
  unfolding scard_def and_then_ok
  by (auto dest!: exec_ok simp: redis_apply.simps look_Inr expect_reply_ok)

lemma exists_keys_ok:
  "exists_keys rd [k] s = (Inr n, s') \<Longrightarrow> 0 < n \<longleftrightarrow> db s k \<noteq> None"
  unfolding exists_keys_def and_then_ok
  by (auto dest!: exec_ok simp: redis_apply.simps expect_reply_ok split: if_splits)

lemma Load_keeps [keeps_intros]:
  "keeps db (LoadHash rd k e)" "keeps db (LoadHashField rd k f e)" "keeps db (LoadSetMembers rd k e)"
  "keeps db (SetContains rd k v e)"
  unfolding LoadHash_def LoadHashField_def LoadSetMembers_def SetContains_def
  by (intro keeps_intros)+

lemma LoadHash_ok: "LoadHash rd k e s = (Inr h, s') \<Longrightarrow> get_hash (db s) k = Inr h \<and> h \<noteq> fmempty"
  by (auto simp: LoadHash_def io_ok dest: hgetall_ok split: if_splits)

lemma LoadHash_not_found:
  "LoadHash rd k e s = (Inl (Errorf m), s') \<Longrightarrow> get_hash (db s) k = Inr fmempty"
  by (auto simp: LoadHash_def and_then_err map_err_err map_err_ok dest: hgetall_ok split: if_splits)

lemma LoadSetMembers_ok:
  "LoadSetMembers rd k e s = (Inr xs, s') \<Longrightarrow>
     \<exists>S. get_set (db s) k = Inr S \<and> set xs = fset S \<and> distinct xs"
  by (auto simp: LoadSetMembers_def io_ok dest: smembers_ok)

lemma SetContains_ok:
  "SetContains rd k m e s = (Inr b, s') \<Longrightarrow> \<exists>S. get_set (db s) k = Inr S \<and> b = (m |\<in>| S)"
  by (auto simp: SetContains_def io_ok dest: sismember_ok)

lemma nil_reply_ok: "nil_reply r s = (Inr x, s') \<Longrightarrow> x = r \<and> s' = s"
  by (auto simp: nil_reply_def split: if_splits)

text \<open>A script that \<open>Eval\<close> reports as done ran exactly once, also over the NOSCRIPT fall-back.\<close>

lemma Eval_ok:
  assumes "Eval rd i ks as s = (Inr x, s')"
  shows "\<exists>en. enum_ok en \<and> lua i (redis_apply en) ks as (db s) = (Inr x, db s')"
proof -
  obtain res s1 where 1: "and_then (evalsha rd i ks as) nil_reply s = (res, s1)"
    by fastforce
  show ?thesis
  proof (cases res)
    case (Inr y)
    with 1 assms have "x = y" "s' = s1" by (simp_all add: Eval_def try_then)
    with 1 Inr show ?thesis by (auto simp: and_then_ok dest!: evalsha_ok nil_reply_ok)
  next
    case (Inl e)
    with 1 assms have e: "e = NoScript"
      and 2: "and_then (eval_text rd i ks as) nil_reply s1 = (Inr x, s')"
      by (auto simp: Eval_def try_then map_err_ok split: if_splits)
    from 1 Inl e have 3: "evalsha rd i ks as s = (Inl NoScript, s1)"
      by (auto simp: and_then_err nil_reply_def split: if_splits)
    then have "db s1 = db s" using evalsha_served [OF 3] by simp
    with 2 show ?thesis by (auto simp: and_then_ok dest!: eval_text_ok nil_reply_ok)
  qed
qed

text \<open>A script that runs through on every enumeration order can only fail on the way.\<close>

lemma Eval_err:
  assumes run: "Eval rd i ks as s = (Inl e, s')"
    and total: "\<And>en. enum_ok en \<Longrightarrow> \<exists>x. fst (lua i (redis_apply en) ks as (db s)) = Inr x \<and> x \<noteq> RNil"
  shows "conn_fault e"
proof -
  have good: "\<exists>x. r = Inr x \<and> x \<noteq> RNil \<or> is_conn_error r"
    if "served db (\<lambda>en. lua i (redis_apply en) ks as) s0 r s1" "db s0 = db s" for s0 r s1
    using that total unfolding served_def by (metis fst_conv)
  obtain r1 s1 where r1: "evalsha rd i ks as s = (r1, s1)" by fastforce
  show ?thesis
  proof (cases "r1 = Inl NoScript")
    case True
    with evalsha_served [OF r1] have s1: "db s1 = db s" by simp
    obtain r2 s2 where r2: "eval_text rd i ks as s1 = (r2, s2)" by fastforce
    from good [OF eval_served [OF r2] s1] show ?thesis
      using run r1 True r2
      by (auto simp: Eval_def try_io_def and_then_def map_err_def nil_reply_def is_conn_error_def
          split: sum.splits redis_error.splits if_splits)
  next
    case False
    with evalsha_served [OF r1] have "served db (\<lambda>en. lua i (redis_apply en) ks as) s r1 s1" by simp
    from good [OF this refl] show ?thesis
      using run r1 False
      by (auto simp: Eval_def try_io_def and_then_def nil_reply_def is_conn_error_def
          split: sum.splits redis_error.splits if_splits)
  qed
qed

text \<open>Whatever \<open>Eval\<close> reports, the script has run once or not at all.\<close>

lemma Eval_db:
  assumes run: "Eval rd i ks as s = (r, s')"
  shows "db s' = db s \<or> (\<exists>en. enum_ok en \<and> db s' = snd (lua i (redis_apply en) ks as (db s)))"
proof -
  have srv: "db s1 = db s0 \<or> (\<exists>en. enum_ok en \<and> db s1 = snd (lua i (redis_apply en) ks as (db s0)))"
    if "served db (\<lambda>en. lua i (redis_apply en) ks as) s0 r0 s1" for s0 r0 s1
    using that unfolding served_def by (metis snd_conv)
  obtain r1 s1 where r1: "evalsha rd i ks as s = (r1, s1)" by fastforce
  obtain r2 s2 where r2: "eval_text rd i ks as s1 = (r2, s2)" by fastforce
  have "s' = (if r1 = Inl NoScript then s2 else s1)"
    using run r1 r2 by (auto simp: Eval_def try_io_def and_then_def map_err_def nil_reply_def split: sum.splits if_splits)
  then show ?thesis
    using evalsha_served [OF r1] srv [of s r1 s1] srv [OF eval_served [OF r2]] by (auto split: if_splits)
qed

lemma Eval_cases:
  assumes run: "Eval rd i ks as s = (r, s')"
    and script: "\<And>en. enum_ok en \<Longrightarrow> lua i (redis_apply en) ks as (db s) = (Inr (RBulk v), d')"
  shows "r = Inr (RBulk v) \<and> db s' = d' \<or> (\<exists>e. r = Inl e \<and> conn_fault e)"
proof (cases r)
  case (Inl e)
  with run have "conn_fault e" by (intro Eval_err [where e = e]) (auto simp: script)
  with Inl show ?thesis by simp
next
  case (Inr x)
  with run obtain en where "enum_ok en" "lua i (redis_apply en) ks as (db s) = (Inr x, db s')"
    using Eval_ok by blast
  with script [of en] Inr show ?thesis by simp
qed

lemma Watch_run:
  assumes "Watch rd ks fn s = (r, s')"
  shows "is_conn_error (fst (watch rd ks s)) \<and> r = Inl (RedisErr (projl (fst (watch rd ks s)))) \<and> db s' = db s \<or>
    (\<exists>s0 s1. db s0 = db s \<and> fn s0 = (r, s1) \<and> db s' = db s1)"
proof (cases "watch rd ks s")
  case (Pair u s0)
  have eq: "db s0 = db s" using watch_keeps [OF Pair] by simp
  show ?thesis
  proof (cases u)
    case (Inl e)
    with Pair assms have "r = Inl (RedisErr e)" "s' = s0"
      by (auto simp: Watch_def and_then_def map_err_def)
    with Pair Inl eq watch_keeps [OF Pair] show ?thesis by simp
  next
    case (Inr v)
    obtain r1 s1 where fn: "fn s0 = (r1, s1)" by fastforce
    obtain u2 s2 where un: "unwatch rd s1 = (u2, s2)" by fastforce
    from Pair Inr assms fn un have "r = r1" "s' = s2"
      by (simp_all add: Watch_def and_then_def map_err_def try_io_def)
    with fn eq unwatch_keeps [OF un] show ?thesis by blast
  qed
qed

lemma tx_attempts_ok:
  assumes "rejects db fn"
  shows "tx_attempts rd ks fn m n s = (Inr x, s') \<Longrightarrow>
    \<exists>s0 s1. db s0 = db s \<and> fn s0 = (Inr x, s1) \<and> db s' = db s1"
proof (induction n arbitrary: s)
  case (Suc n)
  obtain r s1 where w: "Watch rd ks fn s = (r, s1)" by fastforce
  show ?case
  proof (cases r)
    case (Inr y)
    with Suc.prems w have "y = x" "s1 = s'" by (simp_all add: try_then)
    with w Inr Watch_run [OF w] show ?thesis by blast
  next
    case (Inl e)
    with Suc.prems w have e: "errors_is e (RedisErr TxFailedErr)"
      and rest: "tx_attempts rd ks fn m n s1 = (Inr x, s')"
      by (auto simp: try_then split: if_splits)
    then have "\<not> redis_fault e" using redis_fault_not_tx by blast
    with Watch_run [OF w] Inl rejectsD [OF assms] have "db s1 = db s" by fastforce
    with Suc.IH [OF rest] show ?thesis by simp
  qed
qed simp

lemma tx_attempts_rejects: "rejects db fn \<Longrightarrow> rejects db (tx_attempts rd ks fn m n)"
proof (induction n)
  case 0
  then show ?case by (simp add: rejects_def)
next
  case (Suc n)
  have "db s' = db s" if run: "tx_attempts rd ks fn m (Suc n) s = (Inl e, s')" and e: "\<not> redis_fault e" for s e s'
  proof -
    obtain r s1 where w: "Watch rd ks fn s = (r, s1)" by fastforce
    from run w obtain e1 where r: "r = Inl e1" by (cases r) (auto simp: try_then)
    show ?thesis
    proof (cases "errors_is e1 (RedisErr TxFailedErr)")
      case True
      with run w r have rest: "tx_attempts rd ks fn m n s1 = (Inl e, s')" by (simp add: try_then)
      have "\<not> redis_fault e1" using True redis_fault_not_tx by blast
      with Watch_run [OF w] r rejectsD [OF Suc.prems] have "db s1 = db s" by fastforce
      with rejectsD [OF Suc.IH [OF Suc.prems] rest e] show ?thesis by simp
    next
      case False
      with run w r have "s' = s1" "\<not> redis_fault e1" using e by (auto simp: try_then)
      with Watch_run [OF w] r rejectsD [OF Suc.prems] show ?thesis by fastforce
    qed
  qed
  then show ?case by (auto simp: rejects_def simp del: tx_attempts.simps)
qed

lemma WithTransaction_ok:
  "rejects db fn \<Longrightarrow> WithTransaction rd ks m fn s = (Inr x, s') \<Longrightarrow>
    \<exists>s0 s1. db s0 = db s \<and> fn s0 = (Inr x, s1) \<and> db s' = db s1"
  unfolding WithTransaction_def Let_def by (rule tx_attempts_ok)

lemma WithTransaction_rejects [rejects_intros]: "rejects db fn \<Longrightarrow> rejects db (WithTransaction rd ks m fn)"
  by (simp add: WithTransaction_def tx_attempts_rejects Let_def)

lemma tx_exec_rejects [rejects_intros]: "rejects db (map_err RedisErr (tx_exec rd cs))"
proof -
  have "db s' = db s" if "tx_exec rd cs s = (Inl e, s')" "\<not> redis_fault (RedisErr e)" for s e s'
    using tx_served [OF that(1)] that(2)
    by (auto simp: served_def is_conn_error_def multi_apply_not_tx)
  then show ?thesis by (auto simp: rejects_def map_err_err)
qed

lemma TxPipelined_ok:
  "map_err RedisErr (tx_exec rd cs) s = (Inr xs, s') \<Longrightarrow>
     \<exists>en. enum_ok en \<and> multi_apply en cs (db s) = (Inr xs, db s')"
  by (simp add: io_ok tx_ok)

end

lemma mem_Eval:
  "lua i (redis_apply mem_enum) ks as d = (Inr (RBulk v), d') \<Longrightarrow>
     Eval (mem_redis lua) i ks as d = (Inr (RBulk v), d')"
  by (simp add: Eval_def mem_redis_def try_io_def and_then_def nil_reply_def)

lemma mem_Eval_reply:
  "lua i (redis_apply mem_enum) ks as d = (Inr x, d') \<Longrightarrow> x \<noteq> RNil \<Longrightarrow> Eval (mem_redis lua) i ks as d = (Inr x, d')"
  by (simp add: Eval_def mem_redis_def try_io_def and_then_def nil_reply_def)

lemma mem_Eval_db:
  "lua i (redis_apply mem_enum) ks as d = (Inr x, d') \<Longrightarrow> snd (Eval (mem_redis lua) i ks as d) = d'"
  by (simp add: Eval_def mem_redis_def try_io_def and_then_def nil_reply_def)

lemma mem_reads:
  "get_list d k = Inr xs \<Longrightarrow> lrange (mem_redis lua) k a b d = (Inr (list_range a b xs), d)"
  "get_set d k = Inr S \<Longrightarrow> sismember (mem_redis lua) k m d = (Inr (m |\<in>| S), d)"
  "get_hash d k = Inr h \<Longrightarrow> hgetall (mem_redis lua) k d = (Inr h, d)"
  "get_hash d k = Inr h \<Longrightarrow> h \<noteq> fmempty \<Longrightarrow> LoadHash (mem_redis lua) k entity d = (Inr h, d)"
proof -
  show *: "get_hash d k = Inr h \<Longrightarrow> hgetall (mem_redis lua) k d = (Inr h, d)"
    by (simp add: hgetall_def mem_redis_def and_then_def redis_apply.simps look_def fmap_of_enum_fmap mem_enum_ok)
  show "get_hash d k = Inr h \<Longrightarrow> h \<noteq> fmempty \<Longrightarrow> LoadHash (mem_redis lua) k entity d = (Inr h, d)"
    using * by (simp add: LoadHash_def and_then_def map_err_def)
qed (simp_all add: lrange_def sismember_def mem_redis_def and_then_def redis_apply.simps look_def)

end
