(* ===== verification/Lua_Queue.thy ===== *)
theory Lua_Queue
  imports Redis_Client
begin

text \<open>
  The Lua scripts that change queues, \<open>internal/redis/scripts/scripts/core/\<close>: \<open>create-queue.lua\<close>,
  \<open>delete-queue.lua\<close>, \<open>set-queue-state.lua\<close>, \<open>get-queue-state.lua\<close>, \<open>set-queue-rate-limit.lua\<close>,
  \<open>clear-queue-rate-limit.lua\<close> and \<open>delete-consumer-group.lua\<close>. A script is a computation on the
  database over \<open>call\<close>, which is \<open>redis.call\<close>; \<open>KEYS\<close> and \<open>ARGV\<close> are read by position.
  A Lua \<open>false\<close> (a nil reply) is \<open>None\<close>. A position beyond the end, nil in Lua, is read as the
  empty string; the Go callers pass every position.
\<close>

subsection \<open>Reading arguments and replies\<close>

definition nth1 :: "string list \<Rightarrow> nat \<Rightarrow> string" where
  "nth1 xs i = (if 1 \<le> i \<and> i \<le> length xs then xs ! (i - 1) else [])"

definition lua_hget :: "call \<Rightarrow> string \<Rightarrow> string \<Rightarrow> (db, redis_error, string option) io" where
  "lua_hget call k f = and_then (call (HGET k f)) (\<lambda>r. ret (bulk r))"

definition lua_int :: "call \<Rightarrow> cmd \<Rightarrow> (db, redis_error, int) io" where
  "lua_int call c = and_then (call c) (\<lambda>r. ret (case r of RInt n \<Rightarrow> n | _ \<Rightarrow> 0))"

definition lua_strings :: "call \<Rightarrow> cmd \<Rightarrow> (db, redis_error, string option list) io" where
  "lua_strings call c = and_then (call c) (\<lambda>r. ret (case r of RArr rs \<Rightarrow> map bulk rs | _ \<Rightarrow> []))"

definition lua_return :: "string \<Rightarrow> (db, redis_error, reply) io" where
  "lua_return s = ret (RBulk s)"

definition or_empty :: "string option \<Rightarrow> string" where
  "or_empty v = (case v of None \<Rightarrow> [] | Some x \<Rightarrow> x)"

text \<open>The commands of a script whose replies it ignores.\<close>

fun lua_do :: "call \<Rightarrow> cmd list \<Rightarrow> (db, redis_error, unit) io" where
  "lua_do call [] = ret ()"
| "lua_do call (c # cs) = and_then (call c) (\<lambda>_. lua_do call cs)"

declare lua_do.simps [simp del]

subsection \<open>set-queue-state.lua, get-queue-state.lua\<close>

definition lua_set_queue_state :: script where
  "lua_set_queue_state call KEYS ARGV =
     (let keyQueueProperties = nth1 KEYS 1; keyQueueStateHistory = nth1 KEYS 2;
          EQueuePropertyOperationalState = nth1 ARGV 1; newState = nth1 ARGV 2;
          transitionData = nth1 ARGV 3; expectedPreviousState = nth1 ARGV 4;
          EQueueOperationalStateActive = nth1 ARGV 5;
          maxQueueStateHistorySize = atoi_value (nth1 ARGV 6);
          EQueueOperationalStateLocked = nth1 ARGV 7; lockId = nth1 ARGV 8;
          EQueuePropertyLastStateChangeAt = nth1 ARGV 9; lastStateChangeAt = nth1 ARGV 10;
          EQueuePropertyLockId = nth1 ARGV 11 in
      and_then (lua_int call (EXISTS [keyQueueProperties])) (\<lambda>n.
      if n = 0 then lua_return ''QUEUE_NOT_FOUND''
      else
      and_then (lua_hget call keyQueueProperties EQueuePropertyOperationalState) (\<lambda>currentStateValue.
      let currentState = (case currentStateValue of None \<Rightarrow> EQueueOperationalStateActive | Some v \<Rightarrow> v) in
      if expectedPreviousState \<noteq> [] \<and> currentState \<noteq> expectedPreviousState
      then lua_return ''INVALID_STATE_TRANSITION''
      else
      and_then (lua_hget call keyQueueProperties EQueuePropertyLockId) (\<lambda>currentLockId0.
      let currentLockId = or_empty currentLockId0 in
      and_then
        (if newState = EQueueOperationalStateLocked then
           (if lockId = [] then ret False
            else and_then (lua_do call [HSET keyQueueProperties [(EQueuePropertyLockId, lockId)]]) (\<lambda>_. ret True))
         else if currentState = EQueueOperationalStateLocked then
           (if lockId = [] then ret False
            else if currentLockId = [] \<or> currentLockId \<noteq> lockId then ret False
            else and_then (lua_do call [HDEL keyQueueProperties [EQueuePropertyLockId]]) (\<lambda>_. ret True))
         else ret True)
      (\<lambda>lockOk.
        if \<not> lockOk then lua_return ''INVALID_LOCK''
        else
        and_then (lua_do call
          [HSET keyQueueProperties [(EQueuePropertyOperationalState, newState)],
           HSET keyQueueProperties [(EQueuePropertyLastStateChangeAt, lastStateChangeAt)],
           LPUSH keyQueueStateHistory transitionData,
           LTRIM keyQueueStateHistory 0 (maxQueueStateHistorySize - 1)]) (\<lambda>_.
        lua_return ''OK''))))))"

definition lua_get_queue_state :: script where
  "lua_get_queue_state call KEYS ARGV =
     (let keyQueueProperties = nth1 KEYS 1; EQueuePropertyOperationalState = nth1 ARGV 1 in
      and_then (lua_int call (EXISTS [keyQueueProperties])) (\<lambda>n.
      if n = 0 then lua_return ''QUEUE_NOT_FOUND''
      else call (HGET keyQueueProperties EQueuePropertyOperationalState)))"

subsection \<open>create-queue.lua\<close>

definition lua_create_queue :: script where
  "lua_create_queue call KEYS ARGV =
     (let keyNamespaces = nth1 KEYS 1; keyNsQueues = nth1 KEYS 2; keyQueues = nth1 KEYS 3;
          keyQueueProperties = nth1 KEYS 4; keyQueueStateHistory = nth1 KEYS 5;
          namespace = nth1 ARGV 1; queue = nth1 ARGV 2;
          maxQueueStateHistorySize = atoi_value (nth1 ARGV 19);
          initialTransitionData = nth1 ARGV 23 in
      and_then (lua_int call (SISMEMBER keyQueues queue)) (\<lambda>n.
      if n = 1 then lua_return ''QUEUE_EXISTS''
      else
      and_then (lua_do call
        [SADD keyQueues [queue],
         SADD keyNsQueues [queue],
         SADD keyNamespaces [namespace],
         HSET keyQueueProperties
           [(nth1 ARGV 3, nth1 ARGV 4), (nth1 ARGV 5, nth1 ARGV 6), (nth1 ARGV 7, nth1 ARGV 8),
            (nth1 ARGV 9, ''0''), (nth1 ARGV 10, ''0''), (nth1 ARGV 11, ''0''), (nth1 ARGV 12, ''0''),
            (nth1 ARGV 13, ''0''), (nth1 ARGV 14, ''0''), (nth1 ARGV 15, ''0''), (nth1 ARGV 16, ''0''),
            (nth1 ARGV 17, nth1 ARGV 18), (nth1 ARGV 20, nth1 ARGV 21), (nth1 ARGV 22, [])],
         LPUSH keyQueueStateHistory initialTransitionData,
         LTRIM keyQueueStateHistory 0 (maxQueueStateHistorySize - 1)]) (\<lambda>_.
      lua_return ''OK'')))"

subsection \<open>delete-queue.lua\<close>

definition lua_delete_queue :: script where
  "lua_delete_queue call KEYS ARGV =
     (let queueParamsStr = nth1 ARGV 1; EQueuePropertyMessagesCount = nth1 ARGV 2;
          heartbeatKeysCount = atoi_value (nth1 ARGV 3);
          EQueuePropertyOperationalState = nth1 ARGV 4; EQueueOperationalStateLocked = nth1 ARGV 5;
          EQueuePropertyLockId = nth1 ARGV 6; operationLockId = nth1 ARGV 7 in
      and_then (lua_strings call (HGETALL (nth1 KEYS 3))) (\<lambda>props.
      if props = [] then lua_return ''QUEUE_NOT_FOUND''
      else
      let queueProperties = fmap_of_list (pair_up (map or_empty props));
          currentState = fmlookup queueProperties EQueuePropertyOperationalState;
          currentLockId = or_empty (fmlookup queueProperties EQueuePropertyLockId) in
      if currentState = Some EQueueOperationalStateLocked \<and> operationLockId = []
      then lua_return ''QUEUE_LOCKED''
      else if currentState = Some EQueueOperationalStateLocked \<and>
          (currentLockId = [] \<or> currentLockId \<noteq> operationLockId)
      then lua_return ''INVALID_LOCK''
      else if fmlookup queueProperties EQueuePropertyMessagesCount \<noteq> Some ''0''
      then lua_return ''QUEUE_NOT_EMPTY''
      else
      and_then (lua_int call (SCARD (nth1 KEYS 4))) (\<lambda>boundExchangesCount.
      if 0 < boundExchangesCount then lua_return ''QUEUE_HAS_BOUND_EXCHANGE''
      else
      let expectedConsumerIds = drop 7 ARGV in
      and_then (lua_strings call (HKEYS (nth1 KEYS 5))) (\<lambda>actual.
      let actualConsumerIds = map or_empty actual in
      if length expectedConsumerIds \<noteq> length actualConsumerIds
      then lua_return ''CONSUMER_SET_MISMATCH''
      else if \<not> list_all (\<lambda>consumerId. consumerId \<in> set actualConsumerIds) expectedConsumerIds
      then lua_return ''CONSUMER_SET_MISMATCH''
      else
      and_then
        (if 0 < heartbeatKeysCount
         then lua_strings call (MGET (take (nat heartbeatKeysCount) (drop 5 KEYS)))
         else ret [])
      (\<lambda>heartbeats.
      if list_ex (\<lambda>h. h \<noteq> None) heartbeats then lua_return ''QUEUE_HAS_ACTIVE_CONSUMERS''
      else
      and_then (lua_do call
        [SREM (nth1 KEYS 1) [queueParamsStr],
         SREM (nth1 KEYS 2) [queueParamsStr],
         DEL (drop 2 KEYS)]) (\<lambda>_.
      lua_return ''OK''))))))"

subsection \<open>set-queue-rate-limit.lua, clear-queue-rate-limit.lua\<close>

definition lua_lock_guard :: "call \<Rightarrow> string \<Rightarrow> string \<Rightarrow> string \<Rightarrow> string \<Rightarrow> string
    \<Rightarrow> (db, redis_error, string option) io" where
  "lua_lock_guard call keyQueueProperties EQueuePropertyOperationalState EQueueOperationalStateLocked
     EQueuePropertyLockId operationLockId =
     and_then (lua_int call (EXISTS [keyQueueProperties])) (\<lambda>n.
     if n = 0 then ret (Some ''QUEUE_NOT_FOUND'')
     else
     and_then (lua_hget call keyQueueProperties EQueuePropertyOperationalState) (\<lambda>currentState.
     and_then (lua_hget call keyQueueProperties EQueuePropertyLockId) (\<lambda>currentLockId0.
     let currentLockId = or_empty currentLockId0 in
     if currentState = Some EQueueOperationalStateLocked then
       (if operationLockId = [] then ret (Some ''QUEUE_LOCKED'')
        else if currentLockId = [] \<or> currentLockId \<noteq> operationLockId then ret (Some ''INVALID_LOCK'')
        else ret None)
     else ret None)))"

definition lua_set_rate_limit :: script where
  "lua_set_rate_limit call KEYS ARGV =
     and_then (lua_lock_guard call (nth1 KEYS 1) (nth1 ARGV 3) (nth1 ARGV 4) (nth1 ARGV 5) (nth1 ARGV 6)) (\<lambda>early.
     case early of
       Some r \<Rightarrow> lua_return r
     | None \<Rightarrow>
         and_then (lua_do call [HSET (nth1 KEYS 1) [(nth1 ARGV 1, nth1 ARGV 2)]]) (\<lambda>_. lua_return ''OK''))"

definition lua_clear_rate_limit :: script where
  "lua_clear_rate_limit call KEYS ARGV =
     and_then (lua_lock_guard call (nth1 KEYS 1) (nth1 ARGV 2) (nth1 ARGV 3) (nth1 ARGV 4) (nth1 ARGV 5)) (\<lambda>early.
     case early of
       Some r \<Rightarrow> lua_return r
     | None \<Rightarrow>
         and_then (lua_do call [HDEL (nth1 KEYS 1) [nth1 ARGV 1], DEL [nth1 KEYS 2]]) (\<lambda>_.
         lua_return ''OK''))"

subsection \<open>delete-consumer-group.lua\<close>

definition lua_delete_consumer_group :: script where
  "lua_delete_consumer_group call KEYS ARGV =
     (let keyQueueConsumerGroups = nth1 KEYS 1; keyQueuePending = nth1 KEYS 2;
          keyQueuePendingPriority = nth1 KEYS 3; keyQueueProperties = nth1 KEYS 4;
          keyQueueConsumerGroupConsumers = nth1 KEYS 5;
          EQueueTypePriority = nth1 ARGV 2; EQueueDeliveryModelPubSub = nth1 ARGV 4;
          groupId = nth1 ARGV 5; EQueueOperationalStateLocked = nth1 ARGV 7;
          operationLockId = nth1 ARGV 9 in
      and_then (lua_strings call (HMGET keyQueueProperties
        [nth1 ARGV 1, nth1 ARGV 3, nth1 ARGV 6, nth1 ARGV 8])) (\<lambda>props.
      let queueType = props ! 0; queueDeliveryModel = props ! 1; currentState = props ! 2;
          currentLockId = or_empty (props ! 3) in
      if queueType = None then lua_return ''QUEUE_NOT_FOUND''
      else if currentState = Some EQueueOperationalStateLocked \<and> operationLockId = []
      then lua_return ''QUEUE_LOCKED''
      else if currentState = Some EQueueOperationalStateLocked \<and>
          (currentLockId = [] \<or> currentLockId \<noteq> operationLockId)
      then lua_return ''INVALID_LOCK''
      else if queueDeliveryModel \<noteq> Some EQueueDeliveryModelPubSub
      then lua_return ''CONSUMER_GROUPS_NOT_SUPPORTED''
      else
      and_then (lua_int call (SCARD keyQueueConsumerGroupConsumers)) (\<lambda>consumersCount.
      if 0 < consumersCount then lua_return ''CONSUMER_GROUP_HAS_ACTIVE_CONSUMERS''
      else
      and_then (if queueType = Some EQueueTypePriority then lua_int call (ZCARD keyQueuePendingPriority)
                else lua_int call (LLEN keyQueuePending)) (\<lambda>count.
      if 0 < count then lua_return ''CONSUMER_GROUP_NOT_EMPTY''
      else
      and_then (lua_do call
        [SREM keyQueueConsumerGroups [groupId],
         DEL [keyQueuePending, keyQueuePendingPriority],
         DEL [keyQueueConsumerGroupConsumers]]) (\<lambda>_.
      lua_return ''OK'')))))"

end
