(* ===== verification/Lua_Message.thy ===== *)
theory Lua_Message
  imports Lua_Queue
begin

text \<open>
  The Lua scripts that move messages, \<open>internal/redis/scripts/scripts/core/\<close>: the shared procedure
  \<open>publish-message.lua\<close> and the scripts built on it (publication, publication of scheduled messages,
  requeueing by a user), check-out, acknowledgement, unacknowledgement, the two requeuers, deletion,
  the rate limiter, subscription; and \<open>commands/zpoplpush.lua\<close>. Conventions are those of \<open>Lua_Queue\<close>.
  A loop over \<open>ARGV\<close> and \<open>KEYS\<close> with fixed strides is \<open>lua_each\<close>, whose body sees the slices
  of one round and may end the script with a reply (\<open>Inl\<close>).
\<close>

subsection \<open>Loops and guards\<close>

function lua_each :: "nat \<Rightarrow> nat \<Rightarrow> (string list \<Rightarrow> string list \<Rightarrow> 'a \<Rightarrow> (db, redis_error, string + 'a) io)
    \<Rightarrow> string list \<Rightarrow> string list \<Rightarrow> 'a \<Rightarrow> (db, redis_error, string + 'a) io" where
  "lua_each kp ap body keys args acc =
     (if args = [] \<or> ap = 0 then ret (Inr acc)
      else and_then (body (take kp keys) (take ap args) acc) (\<lambda>r.
        case r of
          Inl s \<Rightarrow> ret (Inl s)
        | Inr acc' \<Rightarrow> lua_each kp ap body (drop kp keys) (drop ap args) acc'))"
  by pat_completeness auto

termination
  by (relation "measure (\<lambda>(kp, ap, body, keys, args, acc). length args)") auto

declare lua_each.simps [simp del]

definition state_or :: "string \<Rightarrow> string option \<Rightarrow> string" where
  "state_or active v = (case v of None \<Rightarrow> active | Some s \<Rightarrow> s)"

definition state_error :: "string \<Rightarrow> string \<Rightarrow> string \<Rightarrow> string \<Rightarrow> string \<Rightarrow> string option" where
  "state_error active paused stopped locked st =
     (if st = stopped then Some ''QUEUE_STOPPED''
      else if st = locked then Some ''QUEUE_LOCKED''
      else if st = paused \<or> st = active then None
      else Some ''QUEUE_INVALID_STATE'')"

definition lua_group_exists :: "call \<Rightarrow> string \<Rightarrow> string \<Rightarrow> (db, redis_error, bool) io" where
  "lua_group_exists call keyQueueConsumerGroups consumerGroupId =
     (if consumerGroupId = [] then ret True
      else and_then (lua_int call (SISMEMBER keyQueueConsumerGroups consumerGroupId)) (\<lambda>n. ret (n \<noteq> 0)))"

subsection \<open>shared-procedures/publish-message.lua, publish-message.lua\<close>

definition publish_state_error :: "string \<Rightarrow> string \<Rightarrow> string \<Rightarrow> string \<Rightarrow> string \<Rightarrow> string \<Rightarrow> string \<Rightarrow> string option" where
  "publish_state_error active paused stopped locked st operationLockId currentLockId =
     (if st = stopped then Some ''QUEUE_STOPPED''
      else if st = locked then
        (if operationLockId = [] \<or> currentLockId = [] \<or> operationLockId \<noteq> currentLockId
         then Some ''QUEUE_LOCKED'' else None)
      else if st = paused \<or> st = active then None
      else Some ''QUEUE_INVALID_STATE'')"

definition publish_message :: "call \<Rightarrow> string list \<Rightarrow> string list \<Rightarrow> (db, redis_error, string) io" where
  "publish_message call keys args =
     (let keyQueueProperties = nth1 keys 1; keyPriorityQueue = nth1 keys 2; keyQueuePending = nth1 keys 3;
          keyQueueScheduled = nth1 keys 4; keyQueuePublished = nth1 keys 5;
          keyQueueConsumerGroups = nth1 keys 6; keyMessage = nth1 keys 7;
          EQueuePropertyQueueType = nth1 args 1; EQueuePropertyMessagesCount = nth1 args 2;
          EQueuePropertyPendingMessagesCount = nth1 args 3;
          EQueuePropertyScheduledMessagesCount = nth1 args 4;
          EQueuePropertyQueueTypePriorityQueue = nth1 args 5;
          EQueuePropertyQueueTypeLIFOQueue = nth1 args 6;
          EQueuePropertyQueueTypeFIFOQueue = nth1 args 7;
          EQueuePropertyOperationalState = nth1 args 8; EQueuePropertyLockId = nth1 args 9;
          EQueueOperationalStateActive = nth1 args 10; EQueueOperationalStatePaused = nth1 args 11;
          EQueueOperationalStateStopped = nth1 args 12; EQueueOperationalStateLocked = nth1 args 13;
          messagePriority = nth1 args 14; scheduledTimestamp = nth1 args 15;
          EMessagePropertyStatusPending = nth1 args 17;
          messageId = nth1 args 42; messageStatus = nth1 args 43;
          messageProperties = map (\<lambda>i. (nth1 args (17 + i), nth1 args (41 + i))) [1..<25];
          consumerGroupId = nth1 args 66; operationLockId = nth1 args 67 in
      and_then (lua_strings call (HMGET keyQueueProperties
        [EQueuePropertyQueueType, EQueuePropertyOperationalState, EQueuePropertyLockId])) (\<lambda>queueProps.
      case queueProps ! 0 of
        None \<Rightarrow> ret ''QUEUE_NOT_FOUND''
      | Some queueType \<Rightarrow>
      case publish_state_error EQueueOperationalStateActive EQueueOperationalStatePaused
          EQueueOperationalStateStopped EQueueOperationalStateLocked
          (state_or EQueueOperationalStateActive (queueProps ! 1)) operationLockId (or_empty (queueProps ! 2)) of
        Some err \<Rightarrow> ret err
      | None \<Rightarrow>
      and_then (lua_group_exists call keyQueueConsumerGroups consumerGroupId) (\<lambda>group_exists.
      if \<not> group_exists then ret ''CONSUMER_GROUP_NOT_FOUND''
      else if queueType = EQueuePropertyQueueTypePriorityQueue \<and> messagePriority = []
      then ret ''MESSAGE_PRIORITY_REQUIRED''
      else if queueType \<noteq> EQueuePropertyQueueTypePriorityQueue \<and> messagePriority \<noteq> []
      then ret ''PRIORITY_QUEUING_NOT_ENABLED''
      else if messageStatus = EMessagePropertyStatusPending \<and>
          queueType \<noteq> EQueuePropertyQueueTypePriorityQueue \<and>
          queueType \<noteq> EQueuePropertyQueueTypeLIFOQueue \<and> queueType \<noteq> EQueuePropertyQueueTypeFIFOQueue
      then ret ''UNKNOWN_QUEUE_TYPE''
      else
      and_then (lua_do call
        (if messageStatus = EMessagePropertyStatusPending
         then [if queueType = EQueuePropertyQueueTypePriorityQueue
               then ZADD keyPriorityQueue messagePriority messageId
               else if queueType = EQueuePropertyQueueTypeLIFOQueue then RPUSH keyQueuePending [messageId]
               else LPUSH keyQueuePending messageId,
               HINCRBY keyQueueProperties EQueuePropertyPendingMessagesCount 1]
         else [ZADD keyQueueScheduled scheduledTimestamp messageId,
               HINCRBY keyQueueProperties EQueuePropertyScheduledMessagesCount 1])) (\<lambda>_.
      and_then (lua_do call
        [RPUSH keyQueuePublished [messageId],
         HSET keyMessage messageProperties,
         HINCRBY keyQueueProperties EQueuePropertyMessagesCount 1]) (\<lambda>_.
      ret ''OK'')))))"

definition lua_publish_message :: script where
  "lua_publish_message call KEYS ARGV = and_then (publish_message call KEYS ARGV) lua_return"

subsection \<open>checkout-message.lua\<close>

definition lua_checkout_message :: script where
  "lua_checkout_message call KEYS ARGV =
     (let keyMessage = nth1 KEYS 1; keyQueueProperties = nth1 KEYS 2;
          EMessagePropertyProcessingStartedAt = nth1 ARGV 1; EMessagePropertyLastProcessedAt = nth1 ARGV 2;
          messageProcessingStartedAt = nth1 ARGV 3; EMessagePropertyStatus = nth1 ARGV 4;
          EMessagePropertyStatusProcessing = nth1 ARGV 5; EMessagePropertyStatusPending = nth1 ARGV 6;
          EMessagePropertyAttempts = nth1 ARGV 7; EQueuePropertyProcessingMessagesCount = nth1 ARGV 8;
          EQueuePropertyPendingMessagesCount = nth1 ARGV 9; EQueuePropertyOperationalState = nth1 ARGV 10;
          EQueueOperationalStateActive = nth1 ARGV 11; EQueueOperationalStatePaused = nth1 ARGV 12;
          EQueueOperationalStateStopped = nth1 ARGV 13; EQueueOperationalStateLocked = nth1 ARGV 14 in
      and_then (lua_hget call keyQueueProperties EQueuePropertyOperationalState) (\<lambda>currentState.
      case state_error EQueueOperationalStateActive EQueueOperationalStatePaused
          EQueueOperationalStateStopped EQueueOperationalStateLocked
          (state_or EQueueOperationalStateActive currentState) of
        Some err \<Rightarrow> lua_return err
      | None \<Rightarrow>
      and_then (lua_strings call (HMGET keyMessage
        [EMessagePropertyStatus, EMessagePropertyProcessingStartedAt])) (\<lambda>messageProps.
      if messageProps ! 0 = None then lua_return ''MESSAGE_NOT_FOUND''
      else if messageProps ! 0 \<noteq> Some EMessagePropertyStatusPending then lua_return ''MESSAGE_NOT_PENDING''
      else
      and_then (lua_do call
        [if messageProps ! 1 = Some []
         then HSET keyMessage
           [(EMessagePropertyStatus, EMessagePropertyStatusProcessing),
            (EMessagePropertyProcessingStartedAt, messageProcessingStartedAt),
            (EMessagePropertyLastProcessedAt, messageProcessingStartedAt)]
         else HSET keyMessage
           [(EMessagePropertyStatus, EMessagePropertyStatusProcessing),
            (EMessagePropertyLastProcessedAt, messageProcessingStartedAt)],
         HINCRBY keyMessage EMessagePropertyAttempts 1,
         HINCRBY keyQueueProperties EQueuePropertyProcessingMessagesCount 1,
         HINCRBY keyQueueProperties EQueuePropertyPendingMessagesCount (-1)]) (\<lambda>_.
      call (HGETALL keyMessage)))))"

subsection \<open>acknowledge-message.lua\<close>

definition lua_acknowledge_message :: script where
  "lua_acknowledge_message call KEYS ARGV =
     (let keyQueueProcessing = nth1 KEYS 1; keyQueueAcknowledged = nth1 KEYS 2; keyQueueProperties = nth1 KEYS 3;
          storeMessages = nth1 ARGV 1; expireStoredMessages = nth1 ARGV 2; storedMessagesSize = nth1 ARGV 3;
          messageAcknowledgedAt = nth1 ARGV 4; EQueuePropertyOperationalState = nth1 ARGV 5;
          EQueueOperationalStateActive = nth1 ARGV 6; EQueueOperationalStatePaused = nth1 ARGV 7;
          EQueueOperationalStateStopped = nth1 ARGV 8; EQueueOperationalStateLocked = nth1 ARGV 9;
          EMessagePropertyStatus = nth1 ARGV 10; EMessagePropertyStatusAcknowledged = nth1 ARGV 11;
          EMessagePropertyAcknowledgedAt = nth1 ARGV 12; EQueuePropertyAcknowledgedCount = nth1 ARGV 13;
          EQueuePropertyProcessingCount = nth1 ARGV 14 in
      and_then (lua_int call (EXISTS [keyQueueProperties])) (\<lambda>n.
      if n = 0 then lua_return ''QUEUE_NOT_FOUND''
      else
      and_then (lua_hget call keyQueueProperties EQueuePropertyOperationalState) (\<lambda>currentState.
      case state_error EQueueOperationalStateActive EQueueOperationalStatePaused
          EQueueOperationalStateStopped EQueueOperationalStateLocked
          (state_or EQueueOperationalStateActive currentState) of
        Some err \<Rightarrow> lua_return err
      | None \<Rightarrow>
      and_then (lua_each 1 1
        (\<lambda>ks as (results, acknowledgedIds).
          let messageId = nth1 as 1; keyMessage = nth1 ks 1 in
          and_then (lua_int call (LREM keyQueueProcessing 1 messageId)) (\<lambda>removed.
          if 0 < removed then
            and_then (lua_do call
              [HSET keyMessage
                [(EMessagePropertyStatus, EMessagePropertyStatusAcknowledged),
                 (EMessagePropertyAcknowledgedAt, messageAcknowledgedAt)]]) (\<lambda>_.
            ret (Inr (results @ [1], acknowledgedIds @ [messageId])))
          else ret (Inr (results @ [0], acknowledgedIds))))
        (drop 3 KEYS) (drop 14 ARGV) ([], [])) (\<lambda>r.
      case r of
        Inl s \<Rightarrow> lua_return s
      | Inr (results, acknowledgedIds) \<Rightarrow>
      let ackCount = int (length acknowledgedIds) in
      and_then
        (if 0 < ackCount then
           lua_do call
             ([HINCRBY keyQueueProperties EQueuePropertyAcknowledgedCount ackCount,
               HINCRBY keyQueueProperties EQueuePropertyProcessingCount (- ackCount)] @
              (if storeMessages = ''1'' then
                 [RPUSH keyQueueAcknowledged acknowledgedIds] @
                 (if expireStoredMessages \<noteq> ''0''
                  then [PEXPIRE keyQueueAcknowledged (atoi_value expireStoredMessages)] else []) @
                 (if storedMessagesSize \<noteq> ''0''
                  then [LTRIM keyQueueAcknowledged (atoi_value storedMessagesSize) (-1)] else [])
               else []))
         else ret ()) (\<lambda>_.
      ret (RArr (map RInt results)))))))"

subsection \<open>unacknowledge-message.lua\<close>

text \<open>The body of the loop, in terms of all keys and arguments and the slices of the round.\<close>

definition unacknowledge_round :: "call \<Rightarrow> string list \<Rightarrow> string list \<Rightarrow> string list \<Rightarrow> string list \<Rightarrow> int \<times> int
    \<Rightarrow> (db, redis_error, string + int \<times> int) io" where
  "unacknowledge_round call KEYS ARGV ks as = (\<lambda>(deadLetteredCount, requeuedCount).
     let keyQueueRequeued = nth1 KEYS 1; keyQueueDL = nth1 KEYS 2;
         ERetryActionDelay = nth1 ARGV 1; ERetryActionRequeue = nth1 ARGV 2; storeMessages = nth1 ARGV 3;
         expireStoredMessages = nth1 ARGV 4; storedMessagesSize = nth1 ARGV 5;
         EMessagePropertyStatus = nth1 ARGV 6; EMessagePropertyStatusUnackRequeuing = nth1 ARGV 10;
         EMessagePropertyStatusDeadLettered = nth1 ARGV 11; EMessagePropertyDeadLetteredAt = nth1 ARGV 12;
         EMessagePropertyUnacknowledgedAt = nth1 ARGV 13;
         EMessagePropertyLastUnacknowledgedAt = nth1 ARGV 14; EMessagePropertyExpired = nth1 ARGV 15;
         maxHistorySize = atoi_value (nth1 ARGV 21);
         messageId = nth1 as 1; retryAction = nth1 as 2; deadLetteredAt = nth1 as 3;
         messageExpired = nth1 as 4; unacknowledgedAt = nth1 as 5; lastUnacknowledgedAt = nth1 as 6;
         historyRecord = nth1 as 7;
         keyQueueProcessing = nth1 ks 1; keyMessage = nth1 ks 2; keyMessageHistory = nth1 ks 3;
         requeue = (retryAction = ERetryActionRequeue \<or> retryAction = ERetryActionDelay) in
     if messageId = [] then ret (Inr (deadLetteredCount, requeuedCount))
     else
     and_then (lua_int call (LREM keyQueueProcessing 1 messageId)) (\<lambda>removed.
     if removed \<noteq> 1 then ret (Inr (deadLetteredCount, requeuedCount))
     else
     and_then (lua_do call
       (if requeue then [RPUSH keyQueueRequeued [messageId]]
        else if storeMessages = ''1'' then
          [RPUSH keyQueueDL [messageId]] @
          (if expireStoredMessages \<noteq> ''0''
           then [PEXPIRE keyQueueDL (atoi_value expireStoredMessages)] else []) @
          (if storedMessagesSize \<noteq> ''0''
           then [LTRIM keyQueueDL (atoi_value storedMessagesSize) (-1)] else [])
        else [])) (\<lambda>_.
     and_then (lua_do call
       (if historyRecord \<noteq> [] then
          [LPUSH keyMessageHistory historyRecord] @
          (if 0 < maxHistorySize then [LTRIM keyMessageHistory 0 (maxHistorySize - 1)] else []) @
          (if expireStoredMessages \<noteq> ''0''
           then [PEXPIRE keyMessageHistory (atoi_value expireStoredMessages)] else []) @
          [HINCRBY keyMessage ''unacknowledgedCount'' 1]
        else [])) (\<lambda>_.
     and_then (lua_do call
       [HSET keyMessage
         [(EMessagePropertyStatus,
            if requeue then EMessagePropertyStatusUnackRequeuing else EMessagePropertyStatusDeadLettered),
          (EMessagePropertyUnacknowledgedAt, unacknowledgedAt),
          (EMessagePropertyLastUnacknowledgedAt, lastUnacknowledgedAt),
          (EMessagePropertyDeadLetteredAt, deadLetteredAt),
          (EMessagePropertyExpired, messageExpired)]]) (\<lambda>_.
     ret (Inr (if requeue then (deadLetteredCount, requeuedCount + 1)
               else (deadLetteredCount + 1, requeuedCount))))))))"

definition lua_unacknowledge_message :: script where
  "lua_unacknowledge_message call KEYS ARGV =
     (let keyQueueProperties = nth1 KEYS 3;
          EQueuePropertyProcessingMessagesCount = nth1 ARGV 7;
          EQueuePropertyDeadLetteredMessagesCount = nth1 ARGV 8;
          EQueuePropertyRequeuedMessagesCount = nth1 ARGV 9;
          EQueuePropertyOperationalState = nth1 ARGV 16; EQueueOperationalStateActive = nth1 ARGV 17;
          EQueueOperationalStatePaused = nth1 ARGV 18; EQueueOperationalStateStopped = nth1 ARGV 19;
          EQueueOperationalStateLocked = nth1 ARGV 20;
          dynamicKeysCount = length KEYS - 3; dynamicArgsCount = length ARGV - 21 in
      and_then (lua_int call (EXISTS [keyQueueProperties])) (\<lambda>n.
      if n = 0 then lua_return ''QUEUE_NOT_FOUND''
      else
      and_then (lua_hget call keyQueueProperties EQueuePropertyOperationalState) (\<lambda>currentState.
      case state_error EQueueOperationalStateActive EQueueOperationalStatePaused
          EQueueOperationalStateStopped EQueueOperationalStateLocked
          (state_or EQueueOperationalStateActive currentState) of
        Some err \<Rightarrow> lua_return err
      | None \<Rightarrow>
      if dynamicKeysCount = 0 \<and> dynamicArgsCount = 0 then ret (RInt 0)
      else if dynamicKeysCount mod 3 \<noteq> 0 \<or> dynamicArgsCount mod 7 \<noteq> 0 \<or>
          dynamicKeysCount div 3 \<noteq> dynamicArgsCount div 7
      then lua_return ''INVALID_ARGS_ERROR''
      else
      and_then (lua_each 3 7 (unacknowledge_round call KEYS ARGV) (drop 3 KEYS) (drop 21 ARGV) (0, 0)) (\<lambda>r.
      case r of
        Inl s \<Rightarrow> lua_return s
      | Inr (deadLetteredCount, requeuedCount) \<Rightarrow>
      let processedCount = deadLetteredCount + requeuedCount \<comment> \<open>each round adds one to both or to neither\<close> in
      and_then (lua_do call
        ((if 0 < processedCount
          then [HINCRBY keyQueueProperties EQueuePropertyProcessingMessagesCount (- processedCount)] else []) @
         (if 0 < deadLetteredCount
          then [HINCRBY keyQueueProperties EQueuePropertyDeadLetteredMessagesCount deadLetteredCount] else []) @
         (if 0 < requeuedCount
          then [HINCRBY keyQueueProperties EQueuePropertyRequeuedMessagesCount requeuedCount] else []))) (\<lambda>_.
      ret (RInt processedCount))))))"

subsection \<open>requeue-immediate.lua, requeue-delayed.lua\<close>

definition requeue_immediate_round :: "call \<Rightarrow> string list \<Rightarrow> string list \<Rightarrow> string \<Rightarrow> string list \<Rightarrow> string list
    \<Rightarrow> int \<times> int \<times> int \<Rightarrow> (db, redis_error, string + int \<times> int \<times> int) io" where
  "requeue_immediate_round call KEYS ARGV queueType ks as = (\<lambda>(pending, delayed, dead).
     let keyQueueRequeued = nth1 KEYS 2; keyQueueDelayed = nth1 KEYS 3;
         keyQueueDeadLettered = nth1 KEYS 4; keyQueueConsumerGroups = nth1 KEYS 5;
         EMessagePropertyStatus = nth1 ARGV 6;
         EMessagePropertyStatusPending = nth1 ARGV 7; EMessagePropertyStatusDeadLettered = nth1 ARGV 8;
         EMessagePropertyDeadLetteredAt = nth1 ARGV 9; EMessagePropertyStatusUnackDelaying = nth1 ARGV 10;
         EMessagePropertyLastRetriedAttemptAt = nth1 ARGV 11; EQueuePropertyQueueTypeLIFOQueue = nth1 ARGV 12;
         EQueuePropertyQueueTypeFIFOQueue = nth1 ARGV 13; timestamp = nth1 ARGV 19;
         messageId = nth1 as 1; messagePriority = nth1 as 2; retryDelay = nth1 as 3;
         delayedTimestamp = nth1 as 4; consumerGroupId = nth1 as 5;
         keyMessage = nth1 ks 1; keyQueuePending = nth1 ks 2; keyQueuePriorityPending = nth1 ks 3 in
     and_then (lua_int call (LREM keyQueueRequeued 1 messageId)) (\<lambda>removed.
     if removed \<noteq> 1 then ret (Inr (pending, delayed, dead))
     else if retryDelay = ''0'' then
       and_then (lua_group_exists call keyQueueConsumerGroups consumerGroupId) (\<lambda>group_exists.
       if group_exists then
         and_then (lua_do call
           [if queueType = EQueuePropertyQueueTypeFIFOQueue \<or> queueType = EQueuePropertyQueueTypeLIFOQueue
            then RPUSH keyQueuePending [messageId]
            else ZADD keyQueuePriorityPending messagePriority messageId,
            HSET keyMessage
              [(EMessagePropertyStatus, EMessagePropertyStatusPending),
               (EMessagePropertyLastRetriedAttemptAt, timestamp)]]) (\<lambda>_.
         ret (Inr (pending + 1, delayed, dead)))
       else
         and_then (lua_do call
           [RPUSH keyQueueDeadLettered [messageId],
            HSET keyMessage
              [(EMessagePropertyStatus, EMessagePropertyStatusDeadLettered),
               (EMessagePropertyDeadLetteredAt, timestamp)]]) (\<lambda>_.
         ret (Inr (pending, delayed, dead + 1))))
     else
       and_then (lua_do call
         [HSET keyMessage [(EMessagePropertyStatus, EMessagePropertyStatusUnackDelaying)],
          ZADD keyQueueDelayed delayedTimestamp messageId]) (\<lambda>_.
       ret (Inr (pending, delayed + 1, dead)))))"

definition lua_requeue_immediate :: script where
  "lua_requeue_immediate call KEYS ARGV =
     (let keyQueueProperties = nth1 KEYS 1;
          EQueuePropertyQueueType = nth1 ARGV 1; EQueuePropertyRequeuedMessagesCount = nth1 ARGV 2;
          EQueuePropertyDelayedMessagesCount = nth1 ARGV 3; EQueuePropertyPendingMessagesCount = nth1 ARGV 4;
          EQueuePropertyDeadLetteredMessagesCount = nth1 ARGV 5; EQueuePropertyOperationalState = nth1 ARGV 14;
          EQueueOperationalStateActive = nth1 ARGV 15; EQueueOperationalStatePaused = nth1 ARGV 16;
          EQueueOperationalStateStopped = nth1 ARGV 17; EQueueOperationalStateLocked = nth1 ARGV 18 in
      and_then (lua_strings call (HMGET keyQueueProperties
        [EQueuePropertyQueueType, EQueuePropertyOperationalState])) (\<lambda>queueProps.
      case queueProps ! 0 of
        None \<Rightarrow> ret (RInt 0)
      | Some queueType \<Rightarrow>
      case state_error EQueueOperationalStateActive EQueueOperationalStatePaused
          EQueueOperationalStateStopped EQueueOperationalStateLocked
          (state_or EQueueOperationalStateActive (queueProps ! 1)) of
        Some err \<Rightarrow> lua_return err
      | None \<Rightarrow>
      and_then (lua_each 3 5 (requeue_immediate_round call KEYS ARGV queueType)
        (drop 5 KEYS) (drop 19 ARGV) (0, 0, 0)) (\<lambda>r.
      case r of
        Inl s \<Rightarrow> lua_return s
      | Inr (pending, delayed, dead) \<Rightarrow>
      let total_processed = pending + delayed + dead in
      and_then (lua_do call
        (if 0 < total_processed then
           [HINCRBY keyQueueProperties EQueuePropertyRequeuedMessagesCount (- total_processed)] @
           (if 0 < delayed then [HINCRBY keyQueueProperties EQueuePropertyDelayedMessagesCount delayed] else []) @
           (if 0 < pending then [HINCRBY keyQueueProperties EQueuePropertyPendingMessagesCount pending] else []) @
           (if 0 < dead then [HINCRBY keyQueueProperties EQueuePropertyDeadLetteredMessagesCount dead] else [])
         else [])) (\<lambda>_.
      ret (RInt total_processed)))))"

definition requeue_delayed_round :: "call \<Rightarrow> string list \<Rightarrow> string list \<Rightarrow> string \<Rightarrow> string list \<Rightarrow> string list
    \<Rightarrow> int \<times> int \<Rightarrow> (db, redis_error, string + int \<times> int) io" where
  "requeue_delayed_round call KEYS ARGV queueType ks as = (\<lambda>(requeued, dead).
     let keyQueueDelayed = nth1 KEYS 2; keyQueueDeadLettered = nth1 KEYS 3; keyQueueConsumerGroups = nth1 KEYS 4;
         EMessagePropertyStatus = nth1 ARGV 5;
         EMessagePropertyStatusPending = nth1 ARGV 6; EMessagePropertyStatusDeadLettered = nth1 ARGV 7;
         EMessagePropertyDeadLetteredAt = nth1 ARGV 8; EMessagePropertyLastRetriedAttemptAt = nth1 ARGV 9;
         EQueuePropertyQueueTypeLIFOQueue = nth1 ARGV 10; EQueuePropertyQueueTypeFIFOQueue = nth1 ARGV 11;
         timestamp = nth1 ARGV 17;
         messageId = nth1 as 1; messagePriority = nth1 as 2; consumerGroupId = nth1 as 3;
         keyMessage = nth1 ks 1; keyQueuePending = nth1 ks 2; keyQueuePriorityPending = nth1 ks 3 in
     and_then (lua_int call (ZREM keyQueueDelayed [messageId])) (\<lambda>removed.
     if removed \<noteq> 1 then ret (Inr (requeued, dead))
     else
     and_then (lua_group_exists call keyQueueConsumerGroups consumerGroupId) (\<lambda>group_exists.
     if group_exists then
       and_then (lua_do call
         [if queueType = EQueuePropertyQueueTypeFIFOQueue \<or> queueType = EQueuePropertyQueueTypeLIFOQueue
          then RPUSH keyQueuePending [messageId]
          else ZADD keyQueuePriorityPending messagePriority messageId,
          HSET keyMessage
            [(EMessagePropertyStatus, EMessagePropertyStatusPending),
             (EMessagePropertyLastRetriedAttemptAt, timestamp)]]) (\<lambda>_.
       ret (Inr (requeued + 1, dead)))
     else
       and_then (lua_do call
         [RPUSH keyQueueDeadLettered [messageId],
          HSET keyMessage
            [(EMessagePropertyStatus, EMessagePropertyStatusDeadLettered),
             (EMessagePropertyDeadLetteredAt, timestamp)]]) (\<lambda>_.
       ret (Inr (requeued, dead + 1))))))"

definition lua_requeue_delayed :: script where
  "lua_requeue_delayed call KEYS ARGV =
     (let keyQueueProperties = nth1 KEYS 1; EQueuePropertyQueueType = nth1 ARGV 1;
          EQueuePropertyDelayedMessagesCount = nth1 ARGV 2; EQueuePropertyPendingMessagesCount = nth1 ARGV 3;
          EQueuePropertyDeadLetteredMessagesCount = nth1 ARGV 4;
          EQueuePropertyOperationalState = nth1 ARGV 12; EQueueOperationalStateActive = nth1 ARGV 13;
          EQueueOperationalStatePaused = nth1 ARGV 14; EQueueOperationalStateStopped = nth1 ARGV 15;
          EQueueOperationalStateLocked = nth1 ARGV 16 in
      and_then (lua_strings call (HMGET keyQueueProperties
        [EQueuePropertyQueueType, EQueuePropertyOperationalState])) (\<lambda>queueProps.
      case queueProps ! 0 of
        None \<Rightarrow> ret (RInt 0)
      | Some queueType \<Rightarrow>
      case state_error EQueueOperationalStateActive EQueueOperationalStatePaused
          EQueueOperationalStateStopped EQueueOperationalStateLocked
          (state_or EQueueOperationalStateActive (queueProps ! 1)) of
        Some err \<Rightarrow> lua_return err
      | None \<Rightarrow>
      and_then (lua_each 3 3 (requeue_delayed_round call KEYS ARGV queueType)
        (drop 4 KEYS) (drop 17 ARGV) (0, 0)) (\<lambda>r.
      case r of
        Inl s \<Rightarrow> lua_return s
      | Inr (requeued, dead) \<Rightarrow>
      let total_processed = requeued + dead in
      and_then (lua_do call
        ((if 0 < requeued then [HINCRBY keyQueueProperties EQueuePropertyPendingMessagesCount requeued] else []) @
         (if 0 < dead then [HINCRBY keyQueueProperties EQueuePropertyDeadLetteredMessagesCount dead] else []) @
         (if 0 < total_processed
          then [HINCRBY keyQueueProperties EQueuePropertyDelayedMessagesCount (- total_processed)] else []))) (\<lambda>_.
      ret (RInt total_processed)))))"

subsection \<open>publish-scheduled.lua, requeue-message.lua\<close>

text \<open>The property values of a message that a script publishes on its own, in the order of the 24
  property keys.\<close>

definition child_values :: "string \<Rightarrow> string \<Rightarrow> string \<Rightarrow> string \<Rightarrow> string \<Rightarrow> string \<Rightarrow> string list" where
  "child_values messageId pending message publishedAt scheduledParentId requeuedParentId =
     [messageId, pending, message, [], publishedAt, [], [], [], [], [], [], [], ''0'', [], [],
      ''0'', ''0'', ''0'', ''0'', ''0'', ''0'', scheduledParentId, requeuedParentId, []]"

definition publish_scheduled_round :: "call \<Rightarrow> string list \<Rightarrow> string list \<Rightarrow> string \<Rightarrow> string list \<Rightarrow> string list
    \<Rightarrow> int \<Rightarrow> (db, redis_error, string + int) io" where
  "publish_scheduled_round call KEYS ARGV queueType ks as processed_count =
     (let keyQueueProperties = nth1 KEYS 1; keyQueuePending = nth1 KEYS 2; keyQueuePublished = nth1 KEYS 3;
         keyQueuePriorityPending = nth1 KEYS 4; keyQueueScheduled = nth1 KEYS 5;
         keyQueueDeadLettered = nth1 KEYS 6; keyQueueConsumerGroups = nth1 KEYS 7;
         EQueuePropertyQueueType = nth1 ARGV 1; EQueuePropertyMessagesCount = nth1 ARGV 2;
         EQueuePropertyPendingMessagesCount = nth1 ARGV 3;
         EQueuePropertyScheduledMessagesCount = nth1 ARGV 4;
         EQueuePropertyDeadLetteredMessagesCount = nth1 ARGV 5;
         EQueuePropertyQueueTypePriorityQueue = nth1 ARGV 6;
         EQueuePropertyQueueTypeLIFOQueue = nth1 ARGV 7; EQueuePropertyQueueTypeFIFOQueue = nth1 ARGV 8;
         EQueuePropertyOperationalState = nth1 ARGV 9; EQueuePropertyLockId = nth1 ARGV 10;
         EQueueOperationalStateActive = nth1 ARGV 11; EQueueOperationalStatePaused = nth1 ARGV 12;
         EQueueOperationalStateStopped = nth1 ARGV 13; EQueueOperationalStateLocked = nth1 ARGV 14;
         EMessagePropertyStatusPending = nth1 ARGV 15; EMessagePropertyStatusScheduled = nth1 ARGV 16;
         EMessagePropertyStatusDeadLettered = nth1 ARGV 17; messagePropertyKeys = take 24 (drop 17 ARGV);
         EMessagePropertyStatus = nth1 ARGV 19; EMessagePropertyPublishedAt = nth1 ARGV 22;
         EMessagePropertyDeadLetteredAt = nth1 ARGV 24; EMessagePropertyLastScheduledAt = nth1 ARGV 28;
         EMessagePropertyScheduledCronFired = nth1 ARGV 33;
         EMessagePropertyScheduledRepeatCount = nth1 ARGV 35;
         EMessagePropertyEffectiveScheduledDelay = nth1 ARGV 37;
         EMessagePropertyScheduledTimes = nth1 ARGV 38;
         newMessageId = nth1 as 1; newMessage = nth1 as 2; newMessagePriority = nth1 as 3;
         newMessagePublishedAt = nth1 as 4; scheduledMessageId = nth1 as 5;
         scheduledMessageNextScheduleTimestamp = nth1 as 6; scheduledMessageLastScheduledAt = nth1 as 7;
         scheduledMessageScheduledTimes = nth1 as 8; scheduledMessagePublishedAt = nth1 as 9;
         scheduledMessageCronFired = nth1 as 10; scheduledMessageRepeatCount = nth1 as 11;
         scheduledMessageEffectiveScheduledDelay = nth1 as 12; consumerGroupId = nth1 as 13;
         messageDeadLetteredAt = nth1 as 14; keyMessage = nth1 ks 1; keyScheduledMessage = nth1 ks 2;
         schedule_fields =
           [(EMessagePropertyLastScheduledAt, scheduledMessageLastScheduledAt),
            (EMessagePropertyScheduledTimes, scheduledMessageScheduledTimes),
            (EMessagePropertyScheduledCronFired, scheduledMessageCronFired),
            (EMessagePropertyScheduledRepeatCount, scheduledMessageRepeatCount),
            (EMessagePropertyEffectiveScheduledDelay, scheduledMessageEffectiveScheduledDelay)];
         dead_fields =
           [(EMessagePropertyStatus, EMessagePropertyStatusDeadLettered),
            (EMessagePropertyDeadLetteredAt, messageDeadLetteredAt)] in
     and_then (lua_group_exists call keyQueueConsumerGroups consumerGroupId) (\<lambda>group_exists.
     if newMessageId = [] then
       and_then (lua_int call (ZREM keyQueueScheduled [scheduledMessageId])) (\<lambda>removed.
       if removed \<noteq> 1 then ret (Inr processed_count)
       else
       and_then (lua_do call
         (HINCRBY keyQueueProperties EQueuePropertyScheduledMessagesCount (-1) #
          (if group_exists then
             [if queueType = EQueuePropertyQueueTypeFIFOQueue then LPUSH keyQueuePending scheduledMessageId
              else if queueType = EQueuePropertyQueueTypeLIFOQueue
              then RPUSH keyQueuePending [scheduledMessageId]
              else ZADD keyQueuePriorityPending newMessagePriority scheduledMessageId,
              HINCRBY keyQueueProperties EQueuePropertyPendingMessagesCount 1,
              HSET keyScheduledMessage
                ([(EMessagePropertyPublishedAt, scheduledMessagePublishedAt),
                  (EMessagePropertyStatus, EMessagePropertyStatusPending)] @ schedule_fields)]
           else
             [RPUSH keyQueueDeadLettered [scheduledMessageId],
              HINCRBY keyQueueProperties EQueuePropertyDeadLetteredMessagesCount 1,
              HSET keyScheduledMessage dead_fields]))) (\<lambda>_.
       ret (Inr (processed_count + 1))))
     else if group_exists then
       and_then (lua_do call
         [ZADD keyQueueScheduled scheduledMessageNextScheduleTimestamp scheduledMessageId,
          HSET keyScheduledMessage schedule_fields]) (\<lambda>_.
       and_then (publish_message call
         [keyQueueProperties, keyQueuePriorityPending, keyQueuePending, keyQueueScheduled,
          keyQueuePublished, keyQueueConsumerGroups, keyMessage]
         ([EQueuePropertyQueueType, EQueuePropertyMessagesCount, EQueuePropertyPendingMessagesCount,
           EQueuePropertyScheduledMessagesCount, EQueuePropertyQueueTypePriorityQueue,
           EQueuePropertyQueueTypeLIFOQueue, EQueuePropertyQueueTypeFIFOQueue,
           EQueuePropertyOperationalState, EQueuePropertyLockId, EQueueOperationalStateActive,
           EQueueOperationalStatePaused, EQueueOperationalStateStopped, EQueueOperationalStateLocked,
           newMessagePriority, [], EMessagePropertyStatusScheduled, EMessagePropertyStatusPending] @
          messagePropertyKeys @
          child_values newMessageId EMessagePropertyStatusPending newMessage newMessagePublishedAt
            scheduledMessageId [] @
          [consumerGroupId, []])) (\<lambda>result.
       if result \<noteq> ''OK'' then ret (Inl (''PUBLISH_ERROR:'' @ newMessageId @ '':'' @ result))
       else ret (Inr (processed_count + 1))))
     else
       and_then (lua_int call (ZREM keyQueueScheduled [scheduledMessageId])) (\<lambda>removed.
       and_then (lua_do call
         (if removed = 1 then
            [RPUSH keyQueueDeadLettered [scheduledMessageId],
             HSET keyScheduledMessage dead_fields,
             HINCRBY keyQueueProperties EQueuePropertyScheduledMessagesCount (-1),
             HINCRBY keyQueueProperties EQueuePropertyDeadLetteredMessagesCount 1]
          else [])) (\<lambda>_.
       ret (Inr (processed_count + 1))))))"

definition lua_publish_scheduled :: script where
  "lua_publish_scheduled call KEYS ARGV =
     (let keyQueueProperties = nth1 KEYS 1; EQueuePropertyQueueType = nth1 ARGV 1;
          EQueuePropertyOperationalState = nth1 ARGV 9;
          EQueueOperationalStateActive = nth1 ARGV 11; EQueueOperationalStatePaused = nth1 ARGV 12;
          EQueueOperationalStateStopped = nth1 ARGV 13; EQueueOperationalStateLocked = nth1 ARGV 14 in
      and_then (lua_strings call (HMGET keyQueueProperties
        [EQueuePropertyQueueType, EQueuePropertyOperationalState])) (\<lambda>queueProps.
      case queueProps ! 0 of
        None \<Rightarrow> ret (RInt 0)
      | Some queueType \<Rightarrow>
      if state_error EQueueOperationalStateActive EQueueOperationalStatePaused
          EQueueOperationalStateStopped EQueueOperationalStateLocked
          (state_or EQueueOperationalStateActive (queueProps ! 1)) \<noteq> None
      then ret (RInt 0)
      else
      and_then (lua_each 2 14 (publish_scheduled_round call KEYS ARGV queueType)
        (drop 7 KEYS) (drop 41 ARGV) 0) (\<lambda>r.
      case r of
        Inl s \<Rightarrow> lua_return s
      | Inr processed_count \<Rightarrow> ret (RInt processed_count))))"

definition requeue_message_round :: "call \<Rightarrow> string list \<Rightarrow> string list \<Rightarrow> string list \<Rightarrow> string list \<Rightarrow> int
    \<Rightarrow> (db, redis_error, string + int) io" where
  "requeue_message_round call KEYS ARGV ks as requeuedCount =
     (let keyQueueProperties = nth1 KEYS 1; keyQueuePriorityPending = nth1 KEYS 2; keyQueuePending = nth1 KEYS 3;
         keyQueuePublished = nth1 KEYS 4; keyQueueScheduled = nth1 KEYS 5; keyQueueConsumerGroups = nth1 KEYS 6;
         queuePropertyArgs = take 13 ARGV; EMessagePropertyStatusScheduled = nth1 ARGV 14;
         EMessagePropertyStatusPending = nth1 ARGV 15; messagePropertyKeys = take 24 (drop 15 ARGV);
         EMessagePropertyId = nth1 ARGV 16; EMessagePropertyRequeuedAt = nth1 ARGV 27;
         EMessagePropertyRequeueCount = nth1 ARGV 28; EMessagePropertyLastRequeuedAt = nth1 ARGV 29;
         operationLockId = nth1 ARGV 40;
         newChildMessageId = nth1 as 1; newChildMessage = nth1 as 2; newChildMessagePriority = nth1 as 3;
         newChildMessagePublishedAt = nth1 as 4; requeuedAt = nth1 as 5; lastRequeuedAt = nth1 as 6;
         consumerGroupId = nth1 as 7; keyOriginalMessage = nth1 ks 1; keyNewMessage = nth1 ks 2 in
     and_then (lua_hget call keyOriginalMessage EMessagePropertyId) (\<lambda>original.
     case original of
       None \<Rightarrow> ret (Inr requeuedCount)
     | Some originalMessageId \<Rightarrow>
     and_then (lua_group_exists call keyQueueConsumerGroups consumerGroupId) (\<lambda>group_exists.
     if \<not> group_exists then ret (Inr requeuedCount)
     else
     and_then (publish_message call
       [keyQueueProperties, keyQueuePriorityPending, keyQueuePending, keyQueueScheduled,
        keyQueuePublished, keyQueueConsumerGroups, keyNewMessage]
       (queuePropertyArgs @
        [newChildMessagePriority, [], EMessagePropertyStatusScheduled, EMessagePropertyStatusPending] @
        messagePropertyKeys @
        child_values newChildMessageId EMessagePropertyStatusPending newChildMessage
          newChildMessagePublishedAt [] originalMessageId @
        [consumerGroupId, operationLockId])) (\<lambda>result.
     if result \<noteq> ''OK'' then ret (Inl (''REQUEUE_ERROR:'' @ originalMessageId @ '':'' @ result))
     else
     and_then (lua_do call
       [HSET keyOriginalMessage
         [(EMessagePropertyRequeuedAt, requeuedAt), (EMessagePropertyLastRequeuedAt, lastRequeuedAt)],
        HINCRBY keyOriginalMessage EMessagePropertyRequeueCount 1]) (\<lambda>_.
     ret (Inr (requeuedCount + 1)))))))"

definition lua_requeue_message :: script where
  "lua_requeue_message call KEYS ARGV =
     and_then (lua_int call (EXISTS [nth1 KEYS 1])) (\<lambda>n.
     if n = 0 then ret (RInt 0)
     else
     and_then (lua_each 2 7 (requeue_message_round call KEYS ARGV) (drop 6 KEYS) (drop 40 ARGV) 0) (\<lambda>r.
     case r of
       Inl s \<Rightarrow> lua_return s
     | Inr requeuedCount \<Rightarrow> ret (RInt requeuedCount)))"

subsection \<open>delete-message.lua\<close>

definition delete_message_round :: "call \<Rightarrow> string list \<Rightarrow> string list \<Rightarrow> string option \<Rightarrow> string list \<Rightarrow> string list
    \<Rightarrow> int \<times> int \<times> int \<times> int \<Rightarrow> (db, redis_error, string + int \<times> int \<times> int \<times> int) io" where
  "delete_message_round call KEYS ARGV queueType ks as = (\<lambda>(processedCount, successCount, notFoundCount, inProcessCount).
     let keyQueueProperties = nth1 KEYS 1; keyQueuePublished = nth1 KEYS 2; keyQueuePending = nth1 KEYS 3;
         keyQueuePriorityPending = nth1 KEYS 4; keyQueueScheduled = nth1 KEYS 5;
         keyQueueAcknowledged = nth1 KEYS 6; keyQueueDL = nth1 KEYS 7; keyQueueDelayed = nth1 KEYS 8;
         keyQueueRequeued = nth1 KEYS 9;
         EQueuePropertyMessagesCount = nth1 ARGV 2; EQueuePropertyAcknowledgedMessagesCount = nth1 ARGV 3;
         EQueuePropertyDeadLetteredMessagesCount = nth1 ARGV 4;
         EQueuePropertyPendingMessagesCount = nth1 ARGV 5;
         EQueuePropertyScheduledMessagesCount = nth1 ARGV 6;
         EQueuePropertyDelayedMessagesCount = nth1 ARGV 7; EQueuePropertyRequeuedMessagesCount = nth1 ARGV 8;
         EQueueTypePriority = nth1 ARGV 9; EQueueTypeLIFO = nth1 ARGV 10; EQueueTypeFIFO = nth1 ARGV 11;
         EMessagePropertyStatus = nth1 ARGV 12; EMessageStatusProcessing = nth1 ARGV 13;
         EMessageStatusAcknowledged = nth1 ARGV 14; EMessageStatusPending = nth1 ARGV 15;
         EMessageStatusScheduled = nth1 ARGV 16; EMessageStatusDeadLettered = nth1 ARGV 17;
         EMessageStatusDelayed = nth1 ARGV 18; EMessageStatusRequeued = nth1 ARGV 19;
         messageKey = nth1 ks 1; messageHistoryKey = nth1 ks 2; messageId = nth1 as 1 in
     and_then (lua_hget call messageKey EMessagePropertyStatus) (\<lambda>status.
     case status of
       None \<Rightarrow> ret (Inr (processedCount + 1, successCount, notFoundCount + 1, inProcessCount))
     | Some messageStatus \<Rightarrow>
     if messageStatus = EMessageStatusProcessing
     then ret (Inr (processedCount + 1, successCount, notFoundCount, inProcessCount + 1))
     else
     let removal =
           (if messageStatus = EMessageStatusAcknowledged then [LREM keyQueueAcknowledged 1 messageId]
            else if messageStatus = EMessageStatusDeadLettered then [LREM keyQueueDL 1 messageId]
            else if messageStatus = EMessageStatusScheduled then [ZREM keyQueueScheduled [messageId]]
            else if messageStatus = EMessageStatusDelayed then [LREM keyQueueDelayed 1 messageId]
            else if messageStatus = EMessageStatusRequeued then [LREM keyQueueRequeued 1 messageId]
            else if messageStatus = EMessageStatusPending then
              (if queueType = Some EQueueTypePriority then [ZREM keyQueuePriorityPending [messageId]]
               else if queueType = Some EQueueTypeFIFO \<or> queueType = Some EQueueTypeLIFO
               then [LREM keyQueuePending 1 messageId] else [])
            else []);
         counterToDecrement =
           (if messageStatus = EMessageStatusAcknowledged then Some EQueuePropertyAcknowledgedMessagesCount
            else if messageStatus = EMessageStatusDeadLettered then Some EQueuePropertyDeadLetteredMessagesCount
            else if messageStatus = EMessageStatusScheduled then Some EQueuePropertyScheduledMessagesCount
            else if messageStatus = EMessageStatusDelayed then Some EQueuePropertyDelayedMessagesCount
            else if messageStatus = EMessageStatusRequeued then Some EQueuePropertyRequeuedMessagesCount
            else if messageStatus = EMessageStatusPending then Some EQueuePropertyPendingMessagesCount
            else None) in
     and_then (lua_do call removal) (\<lambda>_.
     and_then (lua_do call
       [DEL [messageKey, messageHistoryKey],
        LREM keyQueuePublished 1 messageId,
        HINCRBY keyQueueProperties EQueuePropertyMessagesCount (-1)]) (\<lambda>_.
     and_then (lua_do call
       (case counterToDecrement of None \<Rightarrow> [] | Some c \<Rightarrow> [HINCRBY keyQueueProperties c (-1)])) (\<lambda>_.
     ret (Inr (processedCount + 1, successCount + 1, notFoundCount, inProcessCount)))))))"

definition lua_delete_message :: script where
  "lua_delete_message call KEYS ARGV =
     (let keyQueueProperties = nth1 KEYS 1; EQueuePropertyQueueType = nth1 ARGV 1;
          EQueuePropertyOperationalState = nth1 ARGV 20; EQueueOperationalStateLocked = nth1 ARGV 21;
          EQueuePropertyLockId = nth1 ARGV 22; operationLockId = nth1 ARGV 23;
          dynamicKeysCount = length KEYS - 9; dynamicArgsCount = length ARGV - 23 in
      and_then (lua_lock_guard call keyQueueProperties EQueuePropertyOperationalState
        EQueueOperationalStateLocked EQueuePropertyLockId operationLockId) (\<lambda>early.
      case early of
        Some r \<Rightarrow> lua_return r
      | None \<Rightarrow>
      if dynamicKeysCount = 0 \<and> dynamicArgsCount = 0 then ret (RArr (map RInt [0, 0, 0, 0]))
      else if dynamicKeysCount mod 2 \<noteq> 0 \<or> dynamicKeysCount div 2 \<noteq> dynamicArgsCount
      then lua_return ''INVALID_ARGS_ERROR''
      else
      and_then (lua_hget call keyQueueProperties EQueuePropertyQueueType) (\<lambda>queueType.
      and_then (lua_each 2 1 (delete_message_round call KEYS ARGV queueType)
        (drop 9 KEYS) (drop 23 ARGV) (0, 0, 0, 0)) (\<lambda>r.
      case r of
        Inl s \<Rightarrow> lua_return s
      | Inr (processedCount, successCount, notFoundCount, inProcessCount) \<Rightarrow>
          ret (RArr (map RInt [processedCount, successCount, notFoundCount, inProcessCount]))))))"

subsection \<open>check-queue-rate-limit.lua, zpoplpush.lua\<close>

definition lua_check_rate_limit :: script where
  "lua_check_rate_limit call KEYS ARGV =
     (let key = nth1 KEYS 1; limit = nth1 ARGV 1; expireMs = atoi_value (nth1 ARGV 2) in
      and_then (call (SETNX key limit expireMs)) (\<lambda>isNew.
      if isNew \<noteq> RNil then and_then (lua_do call [DECR key]) (\<lambda>_. ret (RInt 0))
      else and_then (lua_int call (DECR key)) (\<lambda>currentValue.
        ret (RInt (if currentValue < 0 then 1 else 0)))))"

text \<open>The test \<open>#(result)\<close> of the script is always true in Lua; a key that exists has a member.\<close>

definition lua_zpoplpush :: script where
  "lua_zpoplpush call KEYS ARGV =
     (let keySortedSet = nth1 KEYS 1; keyList = nth1 KEYS 2 in
      and_then (lua_int call (EXISTS [keySortedSet])) (\<lambda>n.
      if n = 1 then
        and_then (lua_strings call (ZRANGE keySortedSet 0 0)) (\<lambda>result.
        case result of
          [] \<Rightarrow> throw (LuaError ''nil argument'')
        | m # _ \<Rightarrow>
            let messageId = or_empty m in
            and_then (lua_do call [ZREM keySortedSet [messageId], LPUSH keyList messageId]) (\<lambda>_.
            lua_return messageId))
      else ret RNil))"

subsection \<open>subscribe-consumer.lua, unsubscribe-consumer.lua\<close>

definition lua_subscribe_consumer :: script where
  "lua_subscribe_consumer call KEYS ARGV =
     (let keyQueueProperties = nth1 KEYS 1; keyQueueConsumers = nth1 KEYS 2; keyConsumerQueues = nth1 KEYS 3;
          keyQueueProcessingQueues = nth1 KEYS 4; keyQueueProcessing = nth1 KEYS 5;
          keyQueueConsumerGroupConsumers = nth1 KEYS 6; consumerId = nth1 ARGV 1; consumerInfo = nth1 ARGV 2;
          queue = nth1 ARGV 3; EQueuePropertyOperationalState = nth1 ARGV 4;
          EQueueOperationalStateActive = nth1 ARGV 5 in
      and_then (lua_int call (EXISTS [keyQueueProperties])) (\<lambda>n.
      if n = 0 then lua_return ''QUEUE_NOT_FOUND''
      else
      and_then (lua_hget call keyQueueProperties EQueuePropertyOperationalState) (\<lambda>currentState.
      if state_or EQueueOperationalStateActive currentState \<noteq> EQueueOperationalStateActive
      then lua_return ''QUEUE_NOT_ACTIVE''
      else
      and_then (lua_hget call keyQueueConsumers consumerId) (\<lambda>registered.
      if registered \<noteq> None then lua_return ''OK''
      else
      and_then (lua_do call
        ([SADD keyConsumerQueues [queue],
          HSET keyQueueConsumers [(consumerId, consumerInfo)],
          HSET keyQueueProcessingQueues [(keyQueueProcessing, consumerId)]] @
         (if keyQueueConsumerGroupConsumers \<noteq> []
          then [SADD keyQueueConsumerGroupConsumers [consumerId]] else []))) (\<lambda>_.
      lua_return ''OK'')))))"

definition lua_unsubscribe_consumer :: script where
  "lua_unsubscribe_consumer call KEYS ARGV =
     (let keyQueueProperties = nth1 KEYS 1; keyQueueConsumers = nth1 KEYS 2; keyConsumerQueues = nth1 KEYS 3;
          keyQueueProcessingQueues = nth1 KEYS 4; keyQueueProcessing = nth1 KEYS 5;
          keyQueueConsumerGroupConsumers = nth1 KEYS 6; consumerId = nth1 ARGV 1; queue = nth1 ARGV 2 in
      and_then (lua_int call (EXISTS [keyQueueProperties])) (\<lambda>n.
      if n = 0 then lua_return ''QUEUE_NOT_FOUND''
      else
      and_then (lua_int call (LLEN keyQueueProcessing)) (\<lambda>queueLength.
      if 0 < queueLength then lua_return ''PROCESSING_QUEUE_NOT_EMPTY''
      else
      and_then (lua_do call
        [HDEL keyQueueProcessingQueues [keyQueueProcessing],
         DEL [keyQueueProcessing],
         HDEL keyQueueConsumers [consumerId],
         SREM keyConsumerQueues [queue]]) (\<lambda>_.
      and_then (lua_int call (SCARD keyConsumerQueues)) (\<lambda>size.
      and_then (lua_do call
        ((if size = 0 then [DEL [keyConsumerQueues]] else []) @
         (if keyQueueConsumerGroupConsumers \<noteq> []
          then [SREM keyQueueConsumerGroupConsumers [consumerId]] else []))) (\<lambda>_.
      lua_return ''OK''))))))"

end
