(* ===== verification/Go_Json.thy ===== *)
theory Go_Json
  imports Go_Strings
begin

text \<open>
  What the code uses of Go's \<open>encoding/json\<close>: the compact text that \<open>json.Marshal\<close> writes
  (\<open>json_text\<close>, with Go's escaping of quotes, control characters and the HTML characters), the
  reader behind \<open>json.Unmarshal\<close> (\<open>parse_json\<close>) and the way a struct picks its fields out of an
  object (\<open>obj_field\<close>: the last field whose name matches up to case). Numbers are integers: the
  program writes no others; a fraction in a user's body is outside the model. Bytes from 128 on
  are copied, which is what Go does with well-formed UTF-8 other than U+2028 and U+2029.

  Every reader recursion spends one unit of fuel; \<open>parse_json\<close> starts with the length of the
  text, which \<open>need_le_text\<close> shows to be enough for every text that \<open>json_text\<close> writes. The
  main result is the round trip \<open>parse_json_text\<close>: reading what was written gives the value back.
\<close>

datatype json = JNull | JBool bool | JNum int | JStr string | JArr "json list" | JObj "(string \<times> json) list"

subsection \<open>Writing\<close>

abbreviation dquote :: char where "dquote \<equiv> CHR 0x22"
abbreviation backslash :: char where "backslash \<equiv> CHR 0x5C"

definition hex_char :: "nat \<Rightarrow> char" where
  "hex_char d = (if d < 10 then char_of (48 + d) else char_of (87 + d))"

definition quote_char :: "char \<Rightarrow> string" where
  "quote_char c =
     (let n = (of_char c :: nat) in
      if n = 34 then [backslash, dquote]
      else if n = 92 then [backslash, backslash]
      else if n = 8 then [backslash, CHR ''b'']
      else if n = 12 then [backslash, CHR ''f'']
      else if n = 10 then [backslash, CHR ''n'']
      else if n = 13 then [backslash, CHR ''r'']
      else if n = 9 then [backslash, CHR ''t'']
      else if n < 32 \<or> n = 60 \<or> n = 62 \<or> n = 38
        then [backslash, CHR ''u'', CHR ''0'', CHR ''0'', hex_char (n div 16), hex_char (n mod 16)]
      else [c])"

definition json_quote :: "string \<Rightarrow> string" where
  "json_quote s = dquote # concat (map quote_char s) @ [dquote]"

fun json_text :: "json \<Rightarrow> string"
  and json_elems :: "json list \<Rightarrow> string"
  and json_fields :: "(string \<times> json) list \<Rightarrow> string" where
  "json_text JNull = ''null''"
| "json_text (JBool b) = (if b then ''true'' else ''false'')"
| "json_text (JNum n) = itoa n"
| "json_text (JStr s) = json_quote s"
| "json_text (JArr vs) = CHR ''['' # json_elems vs @ '']''"
| "json_text (JObj kvs) = CHR ''{'' # json_fields kvs @ ''}''"
| "json_elems [] = []"
| "json_elems (v # vs) = json_text v @ (if vs = [] then [] else CHR '','' # json_elems vs)"
| "json_fields [] = []"
| "json_fields ((k, v) # kvs) =
     json_quote k @ CHR '':'' # json_text v @ (if kvs = [] then [] else CHR '','' # json_fields kvs)"

subsection \<open>Reading\<close>

definition is_ws :: "char \<Rightarrow> bool" where
  "is_ws c \<longleftrightarrow> of_char c \<in> {9, 10, 13, 32 :: nat}"

fun skip_ws :: "string \<Rightarrow> string" where
  "skip_ws [] = []"
| "skip_ws (c # cs) = (if is_ws c then skip_ws cs else c # cs)"

definition hex_val :: "char \<Rightarrow> nat option" where
  "hex_val c =
     (let n = (of_char c :: nat) in
      if 48 \<le> n \<and> n \<le> 57 then Some (n - 48)
      else if 97 \<le> n \<and> n \<le> 102 then Some (n - 87)
      else if 65 \<le> n \<and> n \<le> 70 then Some (n - 55)
      else None)"

definition hex4 :: "char \<Rightarrow> char \<Rightarrow> char \<Rightarrow> char \<Rightarrow> nat option" where
  "hex4 a b c d =
     (case (hex_val a, hex_val b, hex_val c, hex_val d) of
        (Some w, Some x, Some y, Some z) \<Rightarrow> Some (((w * 16 + x) * 16 + y) * 16 + z)
      | _ \<Rightarrow> None)"

text \<open>The UTF-8 encoding of a code point below 65536 (surrogates are not paired).\<close>

definition utf8 :: "nat \<Rightarrow> string" where
  "utf8 n =
     (if n < 128 then [char_of n]
      else if n < 2048 then [char_of (192 + n div 64), char_of (128 + n mod 64)]
      else [char_of (224 + n div 4096), char_of (128 + n div 64 mod 64), char_of (128 + n mod 64)])"

definition unescape :: "char \<Rightarrow> char option" where
  "unescape e =
     (if e = dquote \<or> e = backslash \<or> e = CHR ''/'' then Some e
      else if e = CHR ''b'' then Some (char_of (8 :: nat))
      else if e = CHR ''f'' then Some (char_of (12 :: nat))
      else if e = CHR ''n'' then Some (char_of (10 :: nat))
      else if e = CHR ''r'' then Some (char_of (13 :: nat))
      else if e = CHR ''t'' then Some (char_of (9 :: nat))
      else None)"

definition prepend :: "string \<Rightarrow> (string \<times> string) option \<Rightarrow> (string \<times> string) option" where
  "prepend p = map_option (\<lambda>(t, r). (p @ t, r))"

fun parse_str :: "string \<Rightarrow> (string \<times> string) option" where
  "parse_str [] = None"
| "parse_str (c # cs) =
     (if c = dquote then Some ([], cs)
      else if c = backslash then
        (case cs of
           [] \<Rightarrow> None
         | e # es \<Rightarrow>
             if e = CHR ''u'' then
               (case es of
                  h1 # h2 # h3 # h4 # rest \<Rightarrow>
                    (case hex4 h1 h2 h3 h4 of
                       None \<Rightarrow> None
                     | Some n \<Rightarrow> prepend (utf8 n) (parse_str rest))
                | _ \<Rightarrow> None)
             else (case unescape e of None \<Rightarrow> None | Some x \<Rightarrow> prepend [x] (parse_str es)))
      else if (of_char c :: nat) < 32 then None
      else prepend [c] (parse_str cs))"

definition parse_num :: "string \<Rightarrow> (json \<times> string) option" where
  "parse_num s =
     (case (case s of c # cs \<Rightarrow> if c = CHR ''-'' then (True, cs) else (False, s) | [] \<Rightarrow> (False, []))
      of (neg, ds) \<Rightarrow>
        let body = takeWhile is_digit ds; rest = dropWhile is_digit ds in
        if body = [] \<or> (hd body = CHR ''0'' \<and> tl body \<noteq> []) then None
        else Some (JNum (if neg then - int (digits_value 0 body) else int (digits_value 0 body)), rest))"

definition expect :: "string \<Rightarrow> json \<Rightarrow> string \<Rightarrow> (json \<times> string) option" where
  "expect w v s = (if take (length w) s = w then Some (v, drop (length w) s) else None)"

fun parse_value :: "nat \<Rightarrow> string \<Rightarrow> (json \<times> string) option"
  and parse_elems :: "nat \<Rightarrow> string \<Rightarrow> (json list \<times> string) option"
  and parse_fields :: "nat \<Rightarrow> string \<Rightarrow> ((string \<times> json) list \<times> string) option" where
  "parse_value 0 s = None"
| "parse_value (Suc n) s =
     (case skip_ws s of
        [] \<Rightarrow> None
      | c # cs \<Rightarrow>
          if c = dquote then map_option (\<lambda>(t, r). (JStr t, r)) (parse_str cs)
          else if c = CHR ''['' then
            (case skip_ws cs of
               [] \<Rightarrow> None
             | d # ds \<Rightarrow>
                 if d = CHR '']'' then Some (JArr [], ds)
                 else map_option (\<lambda>(vs, r). (JArr vs, r)) (parse_elems n (d # ds)))
          else if c = CHR ''{'' then
            (case skip_ws cs of
               [] \<Rightarrow> None
             | d # ds \<Rightarrow>
                 if d = CHR ''}'' then Some (JObj [], ds)
                 else map_option (\<lambda>(kvs, r). (JObj kvs, r)) (parse_fields n (d # ds)))
          else if c = CHR ''n'' then expect ''null'' JNull (c # cs)
          else if c = CHR ''t'' then expect ''true'' (JBool True) (c # cs)
          else if c = CHR ''f'' then expect ''false'' (JBool False) (c # cs)
          else parse_num (c # cs))"
| "parse_elems 0 s = None"
| "parse_elems (Suc n) s =
     (case parse_value n s of
        None \<Rightarrow> None
      | Some (v, r) \<Rightarrow>
          (case skip_ws r of
             [] \<Rightarrow> None
           | c # cs \<Rightarrow>
               if c = CHR '']'' then Some ([v], cs)
               else if c = CHR '','' then map_option (\<lambda>(vs, r'). (v # vs, r')) (parse_elems n cs)
               else None))"
| "parse_fields 0 s = None"
| "parse_fields (Suc n) s =
     (case skip_ws s of
        [] \<Rightarrow> None
      | q # qs \<Rightarrow>
          if q \<noteq> dquote then None
          else
            (case parse_str qs of
               None \<Rightarrow> None
             | Some (k, r0) \<Rightarrow>
                 (case skip_ws r0 of
                    [] \<Rightarrow> None
                  | col # r1 \<Rightarrow>
                      if col \<noteq> CHR '':'' then None
                      else
                        (case parse_value n r1 of
                           None \<Rightarrow> None
                         | Some (v, r) \<Rightarrow>
                             (case skip_ws r of
                                [] \<Rightarrow> None
                              | c # cs \<Rightarrow>
                                  if c = CHR ''}'' then Some ([(k, v)], cs)
                                  else if c = CHR '','' then
                                    map_option (\<lambda>(kvs, r'). ((k, v) # kvs, r')) (parse_fields n cs)
                                  else None)))))"

definition parse_json :: "string \<Rightarrow> json option" where
  "parse_json s =
     (case parse_value (length s) s of
        None \<Rightarrow> None
      | Some (v, r) \<Rightarrow> if skip_ws r = [] then Some v else None)"

text \<open>The field of a struct: the last entry whose name is the field's, up to case.\<close>

definition fold_eq :: "string \<Rightarrow> string \<Rightarrow> bool" where
  "fold_eq a b \<longleftrightarrow> map lower_char a = map lower_char b"

definition obj_field :: "(string \<times> json) list \<Rightarrow> string \<Rightarrow> json option" where
  "obj_field kvs name = map_option snd (find (\<lambda>(k, v). fold_eq k name) (rev kvs))"

text \<open>Storing a value into a Go variable: \<open>null\<close> leaves it, a value of another type is an error
  (\<open>None\<close>), and so is a number outside the type's range.\<close>

definition un_str :: "string \<Rightarrow> json option \<Rightarrow> string option" where
  "un_str z v = (case v of None \<Rightarrow> Some z | Some JNull \<Rightarrow> Some z | Some (JStr s) \<Rightarrow> Some s | Some _ \<Rightarrow> None)"

definition un_int :: "int \<Rightarrow> json option \<Rightarrow> int option" where
  "un_int z v = (case v of None \<Rightarrow> Some z | Some JNull \<Rightarrow> Some z
     | Some (JNum n) \<Rightarrow> (if in_int64 n then Some n else None) | Some _ \<Rightarrow> None)"

definition un_bool :: "bool \<Rightarrow> json option \<Rightarrow> bool option" where
  "un_bool z v = (case v of None \<Rightarrow> Some z | Some JNull \<Rightarrow> Some z | Some (JBool b) \<Rightarrow> Some b | Some _ \<Rightarrow> None)"

definition un_map :: "json option \<Rightarrow> (string \<times> json) list option" where
  "un_map v = (case v of None \<Rightarrow> Some [] | Some JNull \<Rightarrow> Some [] | Some (JObj kvs) \<Rightarrow> Some kvs | Some _ \<Rightarrow> None)"

text \<open>A pointer: \<open>null\<close> and a missing field are nil.\<close>

definition un_ptr :: "(json option \<Rightarrow> 'a option) \<Rightarrow> json option \<Rightarrow> 'a option option" where
  "un_ptr f v = (case v of None \<Rightarrow> Some None | Some JNull \<Rightarrow> Some None | Some j \<Rightarrow> map_option Some (f (Some j)))"

text \<open>A struct: \<open>null\<close> leaves it as it is, an object gives its fields.\<close>

definition un_struct :: "json \<Rightarrow> (string \<times> json) list option" where
  "un_struct v = un_map (Some v)"

text \<open>A variable of type \<open>interface{}\<close>: an object becomes a Go map, whose entries \<open>json.Marshal\<close>
  writes in key order, the last of equal names counting. (Numbers become \<open>float64\<close>; integers of at
  most 53 bits, the ones considered here, survive that.)\<close>

definition key_order :: "(string \<times> json) list \<Rightarrow> (string \<times> json) list" where
  "key_order kvs = map (\<lambda>k. (k, the (map_of (rev kvs) k))) (sort (remdups (map fst kvs)))"

fun go_any :: "json \<Rightarrow> json"
  and go_any_elems :: "json list \<Rightarrow> json list"
  and go_any_fields :: "(string \<times> json) list \<Rightarrow> (string \<times> json) list" where
  "go_any (JArr vs) = JArr (go_any_elems vs)"
| "go_any (JObj kvs) = JObj (key_order (go_any_fields kvs))"
| "go_any v = v"
| "go_any_elems [] = []"
| "go_any_elems (v # vs) = go_any v # go_any_elems vs"
| "go_any_fields [] = []"
| "go_any_fields ((k, v) # kvs) = (k, go_any v) # go_any_fields kvs"

definition un_any :: "json option \<Rightarrow> json" where
  "un_any v = (case v of None \<Rightarrow> JNull | Some j \<Rightarrow> go_any j)"

text \<open>A pointer to a type with its own \<open>UnmarshalJSON\<close>.\<close>

definition un_custom :: "(json \<Rightarrow> 'a option) \<Rightarrow> json option \<Rightarrow> 'a option option" where
  "un_custom f v = (case v of None \<Rightarrow> Some None | Some JNull \<Rightarrow> Some None | Some j \<Rightarrow> map_option Some (f j))"

lemma find_append_case:
  "find P (xs @ ys) = (case find P xs of Some x \<Rightarrow> Some x | None \<Rightarrow> find P ys)"
  by (induction xs) simp_all

lemma obj_field_Nil [simp]: "obj_field [] n = None"
  by (simp add: obj_field_def)

lemma obj_field_Cons:
  "obj_field ((k, v) # kvs) n = (case obj_field kvs n of Some w \<Rightarrow> Some w
     | None \<Rightarrow> if fold_eq k n then Some v else None)"
  by (simp add: obj_field_def find_append_case split: option.splits)

lemma obj_field_append:
  "obj_field (xs @ ys) n = (case obj_field ys n of Some w \<Rightarrow> Some w | None \<Rightarrow> obj_field xs n)"
  by (simp add: obj_field_def find_append_case split: option.splits)

subsection \<open>The round trip\<close>

lemma hex_val_hex_char [simp]: "d < 16 \<Longrightarrow> hex_val (hex_char d) = Some d"
  by (auto simp: hex_val_def hex_char_def Let_def)

lemma hex4_small: "n < 128 \<Longrightarrow>
    hex4 (CHR ''0'') (CHR ''0'') (hex_char (n div 16)) (hex_char (n mod 16)) = Some n"
proof -
  assume n: "n < 128"
  have z: "hex_val (CHR ''0'') = Some 0" by (simp add: hex_val_def)
  from n show ?thesis by (simp add: hex4_def z)
qed

lemma prepend_Some [simp]: "prepend p (Some (t, r)) = Some (p @ t, r)"
  by (simp add: prepend_def)

lemma char_of_eqI: "(of_char c :: nat) = n \<Longrightarrow> c = char_of n"
  by auto

lemma char_of_quotes: "char_of (34 :: nat) = dquote" "char_of (92 :: nat) = backslash"
  by code_simp+

lemma parse_str_quote_char:
  assumes "(of_char c :: nat) < 128"
  shows "parse_str (quote_char c @ r) = prepend [c] (parse_str r)"
proof -
  define n where "n = (of_char c :: nat)"
  have c: "c = char_of n" by (simp add: n_def)
  have n: "n < 128" using assms by (simp add: n_def)
  consider "n = 34" | "n = 92" | "n = 8" | "n = 12" | "n = 10" | "n = 13" | "n = 9"
    | (esc) "n \<notin> {34, 92, 8, 12, 10, 13, 9}" "n < 32 \<or> n = 60 \<or> n = 62 \<or> n = 38"
    | (plain) "n \<notin> {34, 92}" "\<not> n < 32" "n \<noteq> 60" "n \<noteq> 62" "n \<noteq> 38" by auto
  then show ?thesis
  proof cases
    case esc
    then have "quote_char c = [backslash, CHR ''u'', CHR ''0'', CHR ''0'', hex_char (n div 16), hex_char (n mod 16)]"
      by (simp add: quote_char_def Let_def n_def [symmetric])
    then show ?thesis by (simp add: hex4_small [OF n] utf8_def n c)
  next
    case plain
    then have q: "quote_char c = [c]" by (simp add: quote_char_def Let_def n_def [symmetric])
    have "c \<noteq> dquote" "c \<noteq> backslash" using plain by (auto simp: n_def)
    with plain(2) show ?thesis by (simp add: q n_def)
  qed (simp_all add: quote_char_def c unescape_def char_of_quotes)
qed

lemma parse_str_quote: "is_ascii s \<Longrightarrow> parse_str (concat (map quote_char s) @ dquote # r) = Some (s, r)"
  by (induction s) (simp_all add: parse_str_quote_char del: parse_str.simps(2) add: parse_str.simps(2) [of dquote])

lemma nat_digits_zero: "nat_digits n = CHR ''0'' # ds \<Longrightarrow> n = 0 \<and> ds = []"
proof (induction n arbitrary: ds rule: nat_digits.induct)
  case (1 n)
  show ?case
  proof (cases "n < 10")
    case True
    then have "CHR ''0'' = digit_char n" "ds = []"
      using "1.prems" by (simp_all add: nat_digits.simps [of n])
    then have "digit_val (CHR ''0'') = digit_val (digit_char n)" by simp
    with True have "n = 0" by (simp add: digit_val_def digit_char_def)
    with \<open>ds = []\<close> show ?thesis by simp
  next
    case False
    then have eq: "nat_digits (n div 10) @ [digit_char (n mod 10)] = CHR ''0'' # ds"
      using "1.prems" by (simp add: nat_digits.simps [of n])
    obtain c cs where cs: "nat_digits (n div 10) = c # cs"
      using nat_digits_nonempty [of "n div 10"] by (cases "nat_digits (n div 10)") auto
    with eq have "c = CHR ''0''" by simp
    with cs "1.IH" [OF False] have "n div 10 = 0" by simp
    with False show ?thesis by simp
  qed
qed

definition num_end :: "string \<Rightarrow> bool" where
  "num_end r \<longleftrightarrow> (case r of [] \<Rightarrow> True | c # _ \<Rightarrow> \<not> is_digit c)"

lemma takeWhile_digits:
  assumes "num_end r"
  shows "takeWhile is_digit (nat_digits n @ r) = nat_digits n"
    and "dropWhile is_digit (nat_digits n @ r) = r"
proof -
  have d: "\<forall>c \<in> set (nat_digits n). is_digit c" using nat_digits_all_digits by blast
  have "takeWhile is_digit r = []" "dropWhile is_digit r = r"
    using assms by (cases r; simp add: num_end_def)+
  with d show "takeWhile is_digit (nat_digits n @ r) = nat_digits n"
    "dropWhile is_digit (nat_digits n @ r) = r" by simp_all
qed

lemma parse_num_itoa: "num_end r \<Longrightarrow> parse_num (itoa n @ r) = Some (JNum n, r)"
proof -
  assume r: "num_end r"
  obtain c cs where ccs: "nat_digits (nat n) = c # cs" and "is_digit c"
    using nat_digits_hd by blast
  then have c: "c \<noteq> CHR ''-''" using is_digit_not_sign by blast
  have z: "hd (nat_digits m) = CHR ''0'' \<longrightarrow> tl (nat_digits m) = []" for m
    using nat_digits_zero [of m] by (cases "nat_digits m") auto
  show ?thesis
  proof (cases "n < 0")
    case True
    with r z [of "nat (- n)"] show ?thesis
      by (simp add: parse_num_def itoa_def takeWhile_digits Let_def)
  next
    case False
    have "(case nat_digits (nat n) @ r of c # cs \<Rightarrow> if c = CHR ''-'' then (True, cs)
        else (False, nat_digits (nat n) @ r) | [] \<Rightarrow> (False, [])) = (False, nat_digits (nat n) @ r)"
      using c by (simp add: ccs)
    with False r z [of "nat n"] show ?thesis
      by (simp add: parse_num_def itoa_def takeWhile_digits Let_def)
  qed
qed

text \<open>The values whose strings are ASCII, and the fuel that reading a value takes.\<close>

fun json_ascii :: "json \<Rightarrow> bool" and elems_ascii :: "json list \<Rightarrow> bool"
  and fields_ascii :: "(string \<times> json) list \<Rightarrow> bool" where
  "json_ascii (JStr s) \<longleftrightarrow> is_ascii s"
| "json_ascii (JArr vs) \<longleftrightarrow> elems_ascii vs"
| "json_ascii (JObj kvs) \<longleftrightarrow> fields_ascii kvs"
| "json_ascii _ \<longleftrightarrow> True"
| "elems_ascii [] \<longleftrightarrow> True"
| "elems_ascii (v # vs) \<longleftrightarrow> json_ascii v \<and> elems_ascii vs"
| "fields_ascii [] \<longleftrightarrow> True"
| "fields_ascii ((k, v) # kvs) \<longleftrightarrow> is_ascii k \<and> json_ascii v \<and> fields_ascii kvs"

fun need :: "json \<Rightarrow> nat" and need_elems :: "json list \<Rightarrow> nat"
  and need_fields :: "(string \<times> json) list \<Rightarrow> nat" where
  "need (JArr vs) = Suc (need_elems vs)"
| "need (JObj kvs) = Suc (need_fields kvs)"
| "need _ = 1"
| "need_elems [] = 0"
| "need_elems (v # vs) = Suc (need v + need_elems vs)"
| "need_fields [] = 0"
| "need_fields ((k, v) # kvs) = Suc (need v + need_fields kvs)"

lemma length_itoa: "1 \<le> length (itoa n)"
  by (cases "itoa n") simp_all

lemma need_le_text:
  "need v \<le> length (json_text v)"
  "need_elems vs \<le> Suc (length (json_elems vs))"
  "need_fields kvs \<le> Suc (length (json_fields kvs))"
  by (induction v and vs and kvs rule: json_text_json_elems_json_fields.induct)
    (auto simp: json_quote_def length_itoa Suc_le_eq)

lemma json_text_first:
  "\<exists>c cs. json_text v = c # cs \<and> \<not> is_ws c \<and> c \<noteq> CHR '']''"
proof (cases v)
  case (JNum n)
  obtain c cs where c: "itoa n = c # cs" by (cases "itoa n") simp_all
  then have "is_digit c \<or> c = CHR ''-''" using itoa_chars [of c n] by simp
  then have "\<not> is_ws c" "c \<noteq> CHR '']''" by (auto simp: is_digit_def is_ws_def)
  with JNum c show ?thesis by simp
qed (auto simp: json_quote_def is_ws_def)

lemma skip_ws_text [simp]: "skip_ws (json_text v @ r) = json_text v @ r"
  using json_text_first [of v] by auto

lemma parse_value_num:
  assumes "num_end r"
  shows "parse_value (Suc m) (itoa n @ r) = Some (JNum n, r)"
proof -
  obtain c cs where c: "itoa n = c # cs" by (cases "itoa n") simp_all
  then have d: "is_digit c \<or> c = CHR ''-''" using itoa_chars [of c n] by simp
  then have "skip_ws (c # cs @ r) = c # cs @ r" by (auto simp: is_digit_def is_ws_def)
  moreover have "c \<noteq> dquote" "c \<noteq> CHR ''[''" "c \<noteq> CHR ''{''" "c \<noteq> CHR ''n''" "c \<noteq> CHR ''t''" "c \<noteq> CHR ''f''"
    using d by (auto simp: is_digit_def)
  ultimately show ?thesis using parse_num_itoa [OF assms, of n] by (simp add: c)
qed

lemma is_ws_delim [simp]:
  "\<not> is_ws (CHR '','')" "\<not> is_ws (CHR '']'')" "\<not> is_ws (CHR ''}'')" "\<not> is_ws (CHR '':'')"
  "\<not> is_ws dquote"
  by (simp_all add: is_ws_def)

lemma num_end_delim [simp]:
  "num_end []" "num_end (CHR '','' # r)" "num_end (CHR '']'' # r)" "num_end (CHR ''}'' # r)"
  by (simp_all add: num_end_def is_digit_def)

lemma parse_str_json_quote: "is_ascii k \<Longrightarrow>
    (case json_quote k @ r of q # qs \<Rightarrow> parse_str qs | [] \<Rightarrow> None) = Some (k, r)"
  by (simp add: json_quote_def parse_str_quote)

lemma json_elems_first: "vs \<noteq> [] \<Longrightarrow>
    \<exists>c cs. json_elems vs = c # cs \<and> \<not> is_ws c \<and> c \<noteq> CHR '']''"
  by (cases vs) (use json_text_first in fastforce)+

lemma json_fields_first: "kvs \<noteq> [] \<Longrightarrow> \<exists>cs. json_fields kvs = dquote # cs"
  by (cases kvs rule: json_fields.cases) (auto simp: json_quote_def)

declare parse_str.simps [simp del]

lemma parse_text:
  "json_ascii v \<Longrightarrow> need v \<le> n \<Longrightarrow> num_end r \<Longrightarrow> parse_value n (json_text v @ r) = Some (v, r)"
  "vs \<noteq> [] \<Longrightarrow> elems_ascii vs \<Longrightarrow> need_elems vs \<le> n \<Longrightarrow>
     parse_elems n (json_elems vs @ CHR '']'' # r) = Some (vs, r)"
  "kvs \<noteq> [] \<Longrightarrow> fields_ascii kvs \<Longrightarrow> need_fields kvs \<le> n \<Longrightarrow>
     parse_fields n (json_fields kvs @ CHR ''}'' # r) = Some (kvs, r)"
proof (induction v and vs and kvs arbitrary: n r and n r and n r
    rule: json_text_json_elems_json_fields.induct)
  case 1
  then show ?case by (cases n) (simp_all add: is_ws_def expect_def)
next
  case (2 b)
  then show ?case by (cases n) (auto simp: is_ws_def expect_def)
next
  case (3 k)
  then show ?case by (cases n) (simp_all add: parse_value_num del: parse_value.simps(2))
next
  case (4 s)
  then show ?case by (cases n) (simp_all add: json_quote_def parse_str_quote)
next
  case (5 vs)
  then obtain m where m: "n = Suc m" by (cases n) simp_all
  show ?case
  proof (cases "vs = []")
    case False
    then obtain c cs where "json_elems vs = c # cs" "\<not> is_ws c" "c \<noteq> CHR '']''"
      using json_elems_first by blast
    with 5 False m show ?thesis by (simp add: is_ws_def)
  qed (simp add: m is_ws_def)
next
  case (6 kvs)
  then obtain m where m: "n = Suc m" by (cases n) simp_all
  show ?case
  proof (cases "kvs = []")
    case False
    then obtain cs where "json_fields kvs = dquote # cs" using json_fields_first by blast
    with 6 False m show ?thesis by (simp add: is_ws_def)
  qed (simp add: m is_ws_def)
next
  case (8 v vs)
  then obtain m where m: "n = Suc m" by (cases n) simp_all
  show ?case
    using 8 m by (cases "vs = []") simp_all
next
  case (10 k v kvs)
  then obtain m where m: "n = Suc m" by (cases n) simp_all
  have k: "is_ascii k" using "10.prems" by simp
  have v: "parse_value m (json_text v @ r') = Some (v, r')" if "num_end r'" for r'
    using "10.IH"(1) [of m r'] "10.prems" that by (simp add: m)
  have kvs: "parse_fields m (json_fields kvs @ CHR ''}'' # r) = Some (kvs, r)" if "kvs \<noteq> []"
    using "10.IH"(2) [of m r] "10.prems" that by (simp add: m)
  show ?case
    by (cases "kvs = []") (simp_all add: m json_quote_def parse_str_quote k v kvs)
qed simp_all

lemma parse_json_text: "json_ascii v \<Longrightarrow> parse_json (json_text v) = Some v"
  using parse_text(1) [of v "length (json_text v)" "[]"] need_le_text(1) [of v]
  by (simp add: parse_json_def)

lemma json_text_inject: "json_ascii v \<Longrightarrow> json_ascii w \<Longrightarrow> json_text v = json_text w \<Longrightarrow> v = w"
  by (metis option.inject parse_json_text)

end
