(* ===== verification/Queue_Types.thy ===== *)
theory Queue_Types
  imports Redis_Keys Go_Json
begin

text \<open>
  The public types of \<open>pkg/queue\<close>: the integer enumerations (\<open>State\<close>, \<open>Type\<close>, \<open>DeliveryModel\<close>,
  \<open>LockOwner\<close>), the state-transition graph, \<open>Params\<close> and \<open>RateLimitParams\<close> with their
  validation and JSON form, \<open>Props\<close> and the state transition records. An enumeration is a Go
  \<open>int\<close>: values that came out of Redis may lie outside the named constants, and stay outside here.
  Durations and times are integers in nanoseconds.
\<close>

named_theorems enum_defs \<open>values of the enumeration constants\<close>

subsection \<open>Enumerations\<close>

type_synonym State = int

definition StateActive :: State where [enum_defs]: "StateActive = 0"
definition StatePaused :: State where [enum_defs]: "StatePaused = 1"
definition StateStopped :: State where [enum_defs]: "StateStopped = 2"
definition StateLocked :: State where [enum_defs]: "StateLocked = 3"

definition queue_states :: "State list" where
  "queue_states = [StateActive, StatePaused, StateStopped, StateLocked]"

definition State_String :: "State \<Rightarrow> string" where
  "State_String s =
     (if s = StateActive then ''active'' else if s = StatePaused then ''paused''
      else if s = StateStopped then ''stopped'' else if s = StateLocked then ''locked''
      else ''unknown'')"

definition State_IsOperational :: "State \<Rightarrow> bool" where
  "State_IsOperational s \<longleftrightarrow> s = StateActive \<or> s = StatePaused"

definition State_IsValid :: "State \<Rightarrow> bool" where
  "State_IsValid s \<longleftrightarrow> StateActive \<le> s \<and> s \<le> StateLocked"

definition allowedTransitions :: "State \<Rightarrow> State list" where
  "allowedTransitions s =
     (if s = StateActive then [StatePaused, StateLocked, StateStopped]
      else if s = StatePaused then [StateActive, StateStopped, StateLocked]
      else if s = StateStopped then [StateActive]
      else if s = StateLocked then [StateActive, StateStopped]
      else [])"

definition CanTransitionTo :: "State \<Rightarrow> State \<Rightarrow> bool" where
  "CanTransitionTo s target = list_ex (\<lambda>allowed. allowed = target) (allowedTransitions s)"

type_synonym queue_type = int

definition TypeLIFO :: queue_type where [enum_defs]: "TypeLIFO = 0"
definition TypeFIFO :: queue_type where [enum_defs]: "TypeFIFO = 1"
definition TypePriority :: queue_type where [enum_defs]: "TypePriority = 2"

definition queue_types :: "queue_type list" where
  "queue_types = [TypeLIFO, TypeFIFO, TypePriority]"

definition Type_String :: "queue_type \<Rightarrow> string" where
  "Type_String t =
     (if t = TypeFIFO then ''fifo'' else if t = TypeLIFO then ''lifo''
      else if t = TypePriority then ''priority'' else ''unknown'')"

definition Type_IsValid :: "queue_type \<Rightarrow> bool" where
  "Type_IsValid t \<longleftrightarrow> TypeLIFO \<le> t \<and> t \<le> TypePriority"

type_synonym DeliveryModel = int

definition DeliveryPointToPoint :: DeliveryModel where [enum_defs]: "DeliveryPointToPoint = 0"
definition DeliveryPubSub :: DeliveryModel where [enum_defs]: "DeliveryPubSub = 1"

definition delivery_models :: "DeliveryModel list" where
  "delivery_models = [DeliveryPointToPoint, DeliveryPubSub]"

definition DeliveryModel_String :: "DeliveryModel \<Rightarrow> string" where
  "DeliveryModel_String dm =
     (if dm = DeliveryPointToPoint then ''point_to_point''
      else if dm = DeliveryPubSub then ''pub_sub'' else ''unknown'')"

definition DeliveryModel_IsValid :: "DeliveryModel \<Rightarrow> bool" where
  "DeliveryModel_IsValid dm \<longleftrightarrow> DeliveryPointToPoint \<le> dm \<and> dm \<le> DeliveryPubSub"

type_synonym LockOwner = int

definition LockOwnerPurgeJob :: LockOwner where [enum_defs]: "LockOwnerPurgeJob = 0"

definition LockOwner_String :: "LockOwner \<Rightarrow> string" where
  "LockOwner_String ow = (if ow = LockOwnerPurgeJob then ''PURGE_JOB'' else ''UNKNOWN'')"

subsection \<open>Queue parameters\<close>

record queue_params =
  qp_name :: string
  qp_ns :: string

definition Params_String :: "queue_params \<Rightarrow> string" where
  "Params_String p = qp_name p @ ''@'' @ qp_ns p"

definition Params_MarshalJSON :: "queue_params \<Rightarrow> json" where
  "Params_MarshalJSON p = JObj [(''name'', JStr (qp_name p)), (''ns'', JStr (qp_ns p))]"

definition Params_UnmarshalJSON :: "json \<Rightarrow> queue_params option" where
  "Params_UnmarshalJSON v =
     (case un_struct v of
        None \<Rightarrow> None
      | Some kvs \<Rightarrow>
          (case (un_str [] (obj_field kvs ''name''), un_str [] (obj_field kvs ''ns'')) of
             (Some n, Some ns) \<Rightarrow> Some \<lparr>qp_name = n, qp_ns = ns\<rparr>
           | _ \<Rightarrow> None))"

text \<open>\<open>config.Get().Namespace\<close> is the argument \<open>defaultNS\<close>; \<open>ul\<close> is Go's lower-casing of
  non-ASCII text.\<close>

definition NewQueueParamsWithNS :: "(string \<Rightarrow> string) \<Rightarrow> string \<Rightarrow> string \<Rightarrow> string \<Rightarrow> go_error + queue_params" where
  "NewQueueParamsWithNS ul defaultNS name namespace =
     (if name = [] then Inl (QueueErr Q_ErrNameRequired)
      else
        let ns = (if namespace = [] then defaultNS else namespace) in
        case ValidateKey ul name of
          Inl err \<Rightarrow> Inl (Wrapf2 (QueueErr Q_ErrInvalidName) err)
        | Inr validName \<Rightarrow>
            (case ValidateKey ul ns of
               Inl err \<Rightarrow> Inl (Wrapf2 (QueueErr Q_ErrInvalidNamespace) err)
             | Inr validNS \<Rightarrow> Inr \<lparr>qp_name = validName, qp_ns = validNS\<rparr>))"

definition NewQueueParams :: "(string \<Rightarrow> string) \<Rightarrow> string \<Rightarrow> string \<Rightarrow> go_error + queue_params" where
  "NewQueueParams ul defaultNS name = NewQueueParamsWithNS ul defaultNS name []"

text \<open>What \<open>NewQueueParamsWithNS\<close> establishes of its result.\<close>

definition valid_params :: "queue_params \<Rightarrow> bool" where
  "valid_params p \<longleftrightarrow> valid_key (qp_name p) \<and> valid_key (qp_ns p)"

subsection \<open>Rate limits\<close>

abbreviation time_Second :: int where "time_Second \<equiv> 1000000000"
abbreviation time_Millisecond :: int where "time_Millisecond \<equiv> 1000000"

record rate_limit =
  rl_limit :: int
  rl_interval :: int

definition RateLimit_Validate :: "rate_limit \<Rightarrow> go_error option" where
  "RateLimit_Validate p =
     (if rl_limit p \<le> 0 then Some (QueueErr Q_ErrInvalidRateLimit)
      else if rl_interval p < time_Second then Some (QueueErr Q_ErrInvalidRateLimitInterval)
      else None)"

definition NewRateLimitParams :: "int \<Rightarrow> int \<Rightarrow> go_error + rate_limit" where
  "NewRateLimitParams limit interval =
     (let p = \<lparr>rl_limit = limit, rl_interval = interval\<rparr> in
      case RateLimit_Validate p of Some err \<Rightarrow> Inl err | None \<Rightarrow> Inr p)"

text \<open>\<open>time.Duration.Milliseconds\<close> truncates towards zero.\<close>

definition Milliseconds :: "int \<Rightarrow> int" where
  "Milliseconds d = (if 0 \<le> d then d div time_Millisecond else - ((- d) div time_Millisecond))"

definition RateLimit_MarshalJSON :: "rate_limit \<Rightarrow> json" where
  "RateLimit_MarshalJSON p =
     JObj [(''limit'', JNum (rl_limit p)), (''interval'', JNum (Milliseconds (rl_interval p)))]"

definition RateLimit_UnmarshalJSON :: "json \<Rightarrow> go_error + rate_limit" where
  "RateLimit_UnmarshalJSON v =
     (case un_struct v of
        None \<Rightarrow> Inl JsonErr
      | Some kvs \<Rightarrow>
          (case (un_int 0 (obj_field kvs ''limit''), un_int 0 (obj_field kvs ''interval'')) of
             (Some limit, Some interval) \<Rightarrow>
               (let p = \<lparr>rl_limit = limit, rl_interval = wrap64 (interval * time_Millisecond)\<rparr> in
                case RateLimit_Validate p of Some err \<Rightarrow> Inl err | None \<Rightarrow> Inr p)
           | _ \<Rightarrow> Inl JsonErr))"

subsection \<open>Properties and state transitions\<close>

text \<open>A zero \<open>time.Time\<close> is \<open>None\<close>.\<close>

record queue_props =
  q_Type :: queue_type
  q_DeliveryModel :: DeliveryModel
  q_OperationalState :: State
  q_MessagesCount :: int
  q_ScheduledMessagesCount :: int
  q_PendingMessagesCount :: int
  q_ProcessingMessagesCount :: int
  q_AcknowledgedMessagesCount :: int
  q_DeadLetteredMessagesCount :: int
  q_DelayedMessagesCount :: int
  q_RequeuedMessagesCount :: int
  q_RateLimit :: "rate_limit option"
  q_CreatedAt :: "int option"
  q_LastStateChangeAt :: "int option"
  q_LockID :: string

abbreviation ReasonSystemInit :: string where "ReasonSystemInit \<equiv> ''SYSTEM_INIT''"
abbreviation ReasonManual :: string where "ReasonManual \<equiv> ''MANUAL''"

text \<open>A Go \<open>map[string]interface{}\<close> is kept as the list of its entries in key order, the order in
  which \<open>json.Marshal\<close> writes them.\<close>

record state_transition =
  t_From :: "State option"
  t_To :: State
  t_Reason :: string
  t_Timestamp :: int
  t_Description :: string
  t_LockID :: "string option"
  t_Owner :: "LockOwner option"
  t_Metadata :: "(string \<times> json) list"

record transition_options =
  o_Reason :: "string option"
  o_Description :: "string option"
  o_LockID :: "string option"
  o_Owner :: "LockOwner option"
  o_Metadata :: "(string \<times> json) list option"

definition omit_empty :: "bool \<Rightarrow> string \<Rightarrow> json \<Rightarrow> (string \<times> json) list" where
  "omit_empty zero k v = (if zero then [] else [(k, v)])"

definition opt_json :: "('a \<Rightarrow> json) \<Rightarrow> 'a option \<Rightarrow> json" where
  "opt_json f v = (case v of None \<Rightarrow> JNull | Some x \<Rightarrow> f x)"

definition transition_json :: "state_transition \<Rightarrow> json" where
  "transition_json t = JObj
     ([(''from'', opt_json JNum (t_From t)), (''to'', JNum (t_To t)), (''reason'', JStr (t_Reason t)),
       (''timestamp'', JNum (t_Timestamp t))]
      @ omit_empty (t_Description t = []) ''description'' (JStr (t_Description t))
      @ omit_empty (t_LockID t = None) ''lockId'' (opt_json JStr (t_LockID t))
      @ omit_empty (t_Owner t = None) ''lockOwner'' (opt_json JNum (t_Owner t))
      @ omit_empty (t_Metadata t = []) ''metadata'' (JObj (t_Metadata t)))"

definition transition_of_json :: "json \<Rightarrow> state_transition option" where
  "transition_of_json v =
     (case un_struct v of None \<Rightarrow> None | Some kvs \<Rightarrow>
      (case (un_ptr (un_int 0) (obj_field kvs ''from''), un_int 0 (obj_field kvs ''to''),
             un_str [] (obj_field kvs ''reason''), un_int 0 (obj_field kvs ''timestamp'')) of
         (Some from, Some to, Some reason, Some ts) \<Rightarrow>
           (case (un_str [] (obj_field kvs ''description''), un_ptr (un_str []) (obj_field kvs ''lockId''),
                  un_ptr (un_int 0) (obj_field kvs ''lockOwner''), un_map (obj_field kvs ''metadata'')) of
              (Some desc, Some lid, Some own, Some md) \<Rightarrow>
                Some \<lparr>t_From = from, t_To = to, t_Reason = reason, t_Timestamp = ts, t_Description = desc,
                      t_LockID = lid, t_Owner = own, t_Metadata = md\<rparr>
            | _ \<Rightarrow> None)
       | _ \<Rightarrow> None))"

subsection \<open>Lemmas\<close>

lemma CanTransitionTo_iff:
  "CanTransitionTo s t \<longleftrightarrow>
     s = StateActive \<and> t \<in> {StatePaused, StateLocked, StateStopped} \<or>
     s = StatePaused \<and> t \<in> {StateActive, StateStopped, StateLocked} \<or>
     s = StateStopped \<and> t = StateActive \<or>
     s = StateLocked \<and> t \<in> {StateActive, StateStopped}"
  by (auto simp: CanTransitionTo_def allowedTransitions_def enum_defs)

lemma CanTransitionTo_irrefl: "\<not> CanTransitionTo s s"
  by (auto simp: CanTransitionTo_iff enum_defs)

lemma CanTransitionTo_valid: "CanTransitionTo s t \<Longrightarrow> State_IsValid s \<and> State_IsValid t"
  by (auto simp: CanTransitionTo_iff State_IsValid_def enum_defs)

lemma enums_valid:
  "State_IsValid s \<longleftrightarrow> s \<in> set queue_states" "Type_IsValid t \<longleftrightarrow> t \<in> set queue_types"
  "DeliveryModel_IsValid m \<longleftrightarrow> m \<in> set delivery_models"
  by (auto simp: State_IsValid_def queue_states_def Type_IsValid_def queue_types_def DeliveryModel_IsValid_def delivery_models_def enum_defs)

lemma in_int64_small [simp]: "0 \<le> n \<Longrightarrow> n < 1000000000000 \<Longrightarrow> in_int64 n"
  by (simp add: in_int64_def)

lemma Params_roundtrip: "Params_UnmarshalJSON (Params_MarshalJSON p) = Some p"
  by (simp add: Params_UnmarshalJSON_def Params_MarshalJSON_def un_struct_def un_map_def un_str_def
      obj_field_Cons fold_eq_def lower_char_def)

lemma valid_key_ascii: "valid_key k \<Longrightarrow> is_ascii k"
  by (auto simp: valid_key_def is_ascii_def isValidKeyChar_def isLetter_def isDigit_def)

lemma NewQueueParamsWithNS_valid:
  "NewQueueParamsWithNS ul dns name ns = Inr p \<Longrightarrow> valid_params p"
  by (auto simp: NewQueueParamsWithNS_def valid_params_def Let_def ValidateKey_iff
      split: if_splits sum.splits)

lemma Params_json_ascii: "valid_params p \<Longrightarrow> json_ascii (Params_MarshalJSON p)"
  by (simp add: Params_MarshalJSON_def valid_params_def valid_key_ascii)

lemma valid_params_nonempty: "valid_params p \<Longrightarrow> qp_name p \<noteq> [] \<and> qp_ns p \<noteq> []"
  by (simp add: valid_params_def valid_key_def)

lemma obj_field_omit:
  "obj_field (omit_empty z k v) n = (if \<not> z \<and> fold_eq k n then Some v else None)"
  by (simp add: omit_empty_def obj_field_Cons)

text \<open>The integers of a transition fit Go's \<open>int\<close>.\<close>

definition transition_ok :: "state_transition \<Rightarrow> bool" where
  "transition_ok t \<longleftrightarrow> in_int64 (t_To t) \<and> in_int64 (t_Timestamp t) \<and>
     pred_option in_int64 (t_From t) \<and> pred_option in_int64 (t_Owner t)"

lemmas obj_field_simps = obj_field_Cons obj_field_append obj_field_omit fold_eq_def lower_char_def

lemma transition_fields:
  fixes t :: state_transition
  defines "kvs \<equiv> (case transition_json t of JObj kvs \<Rightarrow> kvs | _ \<Rightarrow> [])"
  shows "obj_field kvs ''from'' = Some (opt_json JNum (t_From t))"
    "obj_field kvs ''to'' = Some (JNum (t_To t))"
    "obj_field kvs ''reason'' = Some (JStr (t_Reason t))"
    "obj_field kvs ''timestamp'' = Some (JNum (t_Timestamp t))"
    "obj_field kvs ''description'' = (if t_Description t = [] then None else Some (JStr (t_Description t)))"
    "obj_field kvs ''lockId'' = (if t_LockID t = None then None else Some (opt_json JStr (t_LockID t)))"
    "obj_field kvs ''lockOwner'' = (if t_Owner t = None then None else Some (opt_json JNum (t_Owner t)))"
    "obj_field kvs ''metadata'' = (if t_Metadata t = [] then None else Some (JObj (t_Metadata t)))"
  by (simp_all add: kvs_def transition_json_def obj_field_simps)

lemma un_ptr_int: "pred_option in_int64 v \<Longrightarrow> un_ptr (un_int 0) (Some (opt_json JNum v)) = Some v"
  by (cases v) (simp_all add: un_ptr_def opt_json_def un_int_def)

lemma transition_roundtrip:
  assumes "transition_ok t"
  shows "transition_of_json (transition_json t) = Some t"
proof -
  obtain kvs where kvs: "transition_json t = JObj kvs" by (simp add: transition_json_def)
  note f = transition_fields [of t, unfolded kvs, simplified]
  have lid: "un_ptr (un_str []) (if t_LockID t = None then None else Some (opt_json JStr (t_LockID t))) = Some (t_LockID t)"
    by (cases "t_LockID t") (simp_all add: un_ptr_def opt_json_def un_str_def)
  have own: "un_ptr (un_int 0) (if t_Owner t = None then None else Some (opt_json JNum (t_Owner t))) = Some (t_Owner t)"
    using assms un_ptr_int [of "t_Owner t"] by (simp add: transition_ok_def un_ptr_def)
  show ?thesis
    using assms un_ptr_int [of "t_From t"] lid own
    by (simp add: transition_of_json_def kvs un_struct_def un_map_def f un_int_def un_str_def transition_ok_def)
qed

end
