(* ===== verification/Queue_Codec.thy ===== *)
theory Queue_Codec
  imports Queue_Types Smq_Errors
begin

text \<open>
  How queues are written to Redis and read back: the field numbers of
  \<open>internal/queue/schema/schema.go\<close> and \<open>internal/ratelimit/schema/schema.go\<close>, the codec of
  \<open>internal/queue/codec.go\<close>, and \<open>internal/ratelimit/codec.go\<close>, \<open>helpers.go\<close>.
\<close>

named_theorems schema_defs \<open>hash field names\<close>

subsection \<open>Field names\<close>

definition Field_Key :: "int \<Rightarrow> string" where "Field_Key f = itoa f"

definition F_Type :: string where [schema_defs]: "F_Type = Field_Key 0"
definition F_RateLimit :: string where [schema_defs]: "F_RateLimit = Field_Key 1"
definition F_MessagesCount :: string where [schema_defs]: "F_MessagesCount = Field_Key 2"
definition F_DeliveryModel :: string where [schema_defs]: "F_DeliveryModel = Field_Key 3"
definition F_ScheduledMessagesCount :: string where [schema_defs]: "F_ScheduledMessagesCount = Field_Key 4"
definition F_PendingMessagesCount :: string where [schema_defs]: "F_PendingMessagesCount = Field_Key 5"
definition F_ProcessingMessagesCount :: string where [schema_defs]: "F_ProcessingMessagesCount = Field_Key 6"
definition F_AcknowledgedMessagesCount :: string where [schema_defs]: "F_AcknowledgedMessagesCount = Field_Key 7"
definition F_DeadLetteredMessagesCount :: string where [schema_defs]: "F_DeadLetteredMessagesCount = Field_Key 8"
definition F_DelayedMessagesCount :: string where [schema_defs]: "F_DelayedMessagesCount = Field_Key 9"
definition F_RequeuedMessagesCount :: string where [schema_defs]: "F_RequeuedMessagesCount = Field_Key 10"
definition F_OperationalState :: string where [schema_defs]: "F_OperationalState = Field_Key 11"
definition F_LastStateChangeAt :: string where [schema_defs]: "F_LastStateChangeAt = Field_Key 12"
definition F_LockID :: string where [schema_defs]: "F_LockID = Field_Key 13"

text \<open>The constants in the order of their declaration, which numbers them.\<close>

definition queue_schema :: "string list" where
  "queue_schema =
     [F_Type, F_RateLimit, F_MessagesCount, F_DeliveryModel, F_ScheduledMessagesCount,
     F_PendingMessagesCount, F_ProcessingMessagesCount, F_AcknowledgedMessagesCount,
     F_DeadLetteredMessagesCount, F_DelayedMessagesCount, F_RequeuedMessagesCount,
     F_OperationalState, F_LastStateChangeAt, F_LockID]"

lemma queue_schema_iota: "queue_schema = map (\<lambda>i. Field_Key (int i)) [0..<14]"
  by (simp add: queue_schema_def schema_defs upt_rec numeral_eq_Suc)

lemma Field_Key_inject [simp]: "Field_Key a = Field_Key b \<longleftrightarrow> a = b"
  by (simp add: Field_Key_def)

subsection \<open>Rate limits\<close>

definition RL_Limit :: string where "RL_Limit = Field_Key 0"
definition RL_Interval :: string where "RL_Interval = Field_Key 1"

definition RateLimitCodec_Encode :: "rate_limit option \<Rightarrow> go_error + (string, string) fmap" where
  "RateLimitCodec_Encode rl =
     (case rl of
        None \<Rightarrow> Inl (Errorf ''encode rate limit: nil'')
      | Some r \<Rightarrow> Inr (fmap_of_list
          [(RL_Limit, itoa (rl_limit r)), (RL_Interval, itoa (Milliseconds (rl_interval r)))]))"

definition hash_get :: "(string, string) fmap \<Rightarrow> string \<Rightarrow> string" where
  "hash_get hash k = (case fmlookup hash k of None \<Rightarrow> [] | Some v \<Rightarrow> v)"

definition RateLimitCodec_Decode :: "(string, string) fmap \<Rightarrow> go_error + rate_limit option" where
  "RateLimitCodec_Decode hash =
     (if hash = fmempty then Inr None
      else
        let limit = atoi_value (hash_get hash RL_Limit);
            intervalMs = atoi_value (hash_get hash RL_Interval) in
        if limit \<le> 0 then Inr None
        else
          let interval0 = wrap64 (intervalMs * time_Millisecond);
              interval = (if interval0 < time_Second then time_Second else interval0) in
          case NewRateLimitParams limit interval of
            Inl err \<Rightarrow> Inl (Wrapf ''decode rate limit'' err)
          | Inr rl \<Rightarrow> Inr (Some rl))"

definition MarshalRateLimitParams :: "rate_limit option \<Rightarrow> string" where
  "MarshalRateLimitParams rl = (case rl of None \<Rightarrow> [] | Some r \<Rightarrow> json_text (RateLimit_MarshalJSON r))"

definition UnmarshalRateLimitParams :: "string \<Rightarrow> go_error + rate_limit option" where
  "UnmarshalRateLimitParams data =
     (if data = [] then Inr None
      else case parse_json data of
        None \<Rightarrow> Inl (Wrapf ''unmarshal'' JsonErr)
      | Some v \<Rightarrow>
          (case RateLimit_UnmarshalJSON v of
             Inl err \<Rightarrow> Inl (Wrapf ''unmarshal'' err)
           | Inr rl \<Rightarrow>
               (case RateLimit_Validate rl of
                  Some err \<Rightarrow> Inl (Wrapf ''unmarshal: validate'' err)
                | None \<Rightarrow> Inr (Some rl))))"

subsection \<open>Queue parameters\<close>

definition EncodeParams :: "queue_params \<Rightarrow> string" where
  "EncodeParams params = json_text (Params_MarshalJSON params)"

definition DecodeParams :: "string \<Rightarrow> go_error + queue_params" where
  "DecodeParams data =
     (case parse_json data of
        None \<Rightarrow> Inl (Wrapf ''decode queue params'' JsonErr)
      | Some v \<Rightarrow>
          (case Params_UnmarshalJSON v of
             None \<Rightarrow> Inl (Wrapf ''decode queue params'' JsonErr)
           | Some params \<Rightarrow>
               if qp_name params = [] \<or> qp_ns params = []
               then Inl (Errorf ''decode queue params: invalid format'')
               else Inr params))"

fun DecodeParamsSlice :: "string list \<Rightarrow> queue_params list" where
  "DecodeParamsSlice [] = []"
| "DecodeParamsSlice (member # members) =
     (case DecodeParams member of
        Inl err \<Rightarrow> DecodeParamsSlice members
      | Inr p \<Rightarrow> p # DecodeParamsSlice members)"

subsection \<open>Queue properties\<close>

definition parseInt64Field :: "(string, string) fmap \<Rightarrow> string \<Rightarrow> int" where
  "parseInt64Field hash field = (case fmlookup hash field of None \<Rightarrow> 0 | Some v \<Rightarrow> atoi_value v)"

definition decode_rate_limit :: "string option \<Rightarrow> rate_limit option" where
  "decode_rate_limit v =
     (case v of
        None \<Rightarrow> None
      | Some txt \<Rightarrow>
          if txt = [] then None
          else (case UnmarshalRateLimitParams txt of Inr (Some rl) \<Rightarrow> Some rl | _ \<Rightarrow> None))"

definition DecodeProps :: "(string, string) fmap \<Rightarrow> go_error + queue_props" where
  "DecodeProps hash =
     (if hash = fmempty then Inl (Errorf ''decode queue props: empty hash'')
      else Inr
        \<lparr>q_Type = parseInt64Field hash F_Type,
         q_DeliveryModel = parseInt64Field hash F_DeliveryModel,
         q_OperationalState = parseInt64Field hash F_OperationalState,
         q_MessagesCount = parseInt64Field hash F_MessagesCount,
         q_ScheduledMessagesCount = parseInt64Field hash F_ScheduledMessagesCount,
         q_PendingMessagesCount = parseInt64Field hash F_PendingMessagesCount,
         q_ProcessingMessagesCount = parseInt64Field hash F_ProcessingMessagesCount,
         q_AcknowledgedMessagesCount = parseInt64Field hash F_AcknowledgedMessagesCount,
         q_DeadLetteredMessagesCount = parseInt64Field hash F_DeadLetteredMessagesCount,
         q_DelayedMessagesCount = parseInt64Field hash F_DelayedMessagesCount,
         q_RequeuedMessagesCount = parseInt64Field hash F_RequeuedMessagesCount,
         q_RateLimit = decode_rate_limit (fmlookup hash F_RateLimit),
         q_CreatedAt = None,
         q_LastStateChangeAt = map_option (\<lambda>v. atoi_value v * time_Millisecond) (fmlookup hash F_LastStateChangeAt),
         q_LockID = hash_get hash F_LockID\<rparr>)"

subsection \<open>Round trips\<close>

lemma DecodeParams_Encode [simp]: "valid_params p \<Longrightarrow> DecodeParams (EncodeParams p) = Inr p"
  by (simp add: DecodeParams_def EncodeParams_def parse_json_text Params_json_ascii Params_roundtrip
      valid_params_nonempty)

lemma EncodeParams_inject:
  assumes "valid_params p" and "valid_params q"
  shows "EncodeParams p = EncodeParams q \<longleftrightarrow> p = q"
  by (metis DecodeParams_Encode assms sum.inject(2))

lemma DecodeParamsSlice_Encode:
  "\<forall>q \<in> set qs. valid_params q \<Longrightarrow> DecodeParamsSlice (map EncodeParams qs) = qs"
  by (induction qs) simp_all

lemma DecodeParamsSlice_set: "set (DecodeParamsSlice ms) = {p. \<exists>m \<in> set ms. DecodeParams m = Inr p}"
  by (induction ms) (auto split: sum.splits)

lemma Milliseconds_div: "0 \<le> d \<Longrightarrow> Milliseconds d = d div time_Millisecond"
  by (simp add: Milliseconds_def)

text \<open>The rate limits that survive storage: valid ones given in whole milliseconds.\<close>

definition rate_limit_stored :: "rate_limit \<Rightarrow> bool" where
  "rate_limit_stored r \<longleftrightarrow> RateLimit_Validate r = None \<and> in_int64 (rl_limit r) \<and> in_int64 (rl_interval r) \<and>
     rl_interval r mod time_Millisecond = 0"

lemma rate_limit_stored_facts:
  assumes "rate_limit_stored r"
  shows "0 < rl_limit r" "time_Second \<le> rl_interval r"
    and "Milliseconds (rl_interval r) * time_Millisecond = rl_interval r"
    and "in_int64 (Milliseconds (rl_interval r))"
proof -
  show *: "0 < rl_limit r" "time_Second \<le> rl_interval r"
    using assms by (auto simp: rate_limit_stored_def RateLimit_Validate_def split: if_splits)
  show "Milliseconds (rl_interval r) * time_Millisecond = rl_interval r"
    using * assms by (simp add: Milliseconds_div rate_limit_stored_def mult.commute minus_mod_eq_mult_div [symmetric])
  show "in_int64 (Milliseconds (rl_interval r))"
    using * assms by (auto simp: Milliseconds_div rate_limit_stored_def in_int64_def)
qed

lemma rate_limit_surj: "\<lparr>rl_limit = rl_limit r, rl_interval = rl_interval r\<rparr> = (r :: rate_limit)"
  by simp

lemma RateLimit_json_roundtrip:
  assumes "rate_limit_stored r"
  shows "RateLimit_UnmarshalJSON (RateLimit_MarshalJSON r) = Inr r"
  using assms rate_limit_stored_facts [OF assms]
  by (simp add: RateLimit_UnmarshalJSON_def RateLimit_MarshalJSON_def un_struct_def un_map_def un_int_def
      obj_field_Cons fold_eq_def lower_char_def wrap64_id rate_limit_stored_def Let_def rate_limit_surj)

lemma RateLimit_text_roundtrip:
  assumes "rate_limit_stored r"
  shows "UnmarshalRateLimitParams (MarshalRateLimitParams (Some r)) = Inr (Some r)"
proof -
  have "json_ascii (RateLimit_MarshalJSON r)" by (simp add: RateLimit_MarshalJSON_def)
  then have "parse_json (json_text (RateLimit_MarshalJSON r)) = Some (RateLimit_MarshalJSON r)"
    by (rule parse_json_text)
  moreover have "json_text (RateLimit_MarshalJSON r) \<noteq> []" by (simp add: RateLimit_MarshalJSON_def)
  ultimately show ?thesis
    using assms RateLimit_json_roundtrip [OF assms]
    by (simp add: UnmarshalRateLimitParams_def MarshalRateLimitParams_def rate_limit_stored_def)
qed

end
