(* ===== verification/Queue_Scripts.thy ===== *)
theory Queue_Scripts
  imports Lua_Message Queue_Codec
begin

text \<open>
  What the queue scripts do, as equations: for a database in which the keys of a script have the
  right types, the reply and the new database are given outright, on every branch. The equations
  are what the stores of \<open>Queue_Store\<close> and \<open>Queue_State\<close> build on; \<open>smq_scripts\<close> is the table
  from script ids to scripts, in which the scripts not modelled yet are a parameter.
\<close>

definition smq_scripts :: "(ID \<Rightarrow> script) \<Rightarrow> ID \<Rightarrow> script" where
  "smq_scripts other i =
     (case i of
        CreateQueue \<Rightarrow> lua_create_queue
      | DeleteQueue \<Rightarrow> lua_delete_queue
      | SetQueueState \<Rightarrow> lua_set_queue_state
      | GetQueueState \<Rightarrow> lua_get_queue_state
      | SetRateLimit \<Rightarrow> lua_set_rate_limit
      | ClearRateLimit \<Rightarrow> lua_clear_rate_limit
      | DeleteConsumerGroup \<Rightarrow> lua_delete_consumer_group
      | PublishMessage \<Rightarrow> lua_publish_message
      | CheckoutMessage \<Rightarrow> lua_checkout_message
      | AcknowledgeMessage \<Rightarrow> lua_acknowledge_message
      | UnacknowledgeMessage \<Rightarrow> lua_unacknowledge_message
      | RequeueImmediate \<Rightarrow> lua_requeue_immediate
      | RequeueDelayed \<Rightarrow> lua_requeue_delayed
      | PublishScheduled \<Rightarrow> lua_publish_scheduled
      | RequeueMessage \<Rightarrow> lua_requeue_message
      | DeleteMessage \<Rightarrow> lua_delete_message
      | CheckRateLimit \<Rightarrow> lua_check_rate_limit
      | ZPOPLPUSH \<Rightarrow> lua_zpoplpush
      | SubscribeConsumer \<Rightarrow> lua_subscribe_consumer
      | UnsubscribeConsumer \<Rightarrow> lua_unsubscribe_consumer
      | _ \<Rightarrow> other i)"

subsection \<open>Steps of a script\<close>

named_theorems lua_simps \<open>execution of script steps\<close>

lemma put_put [simp]:
  "put_hash k h (put_hash k h' d) = put_hash k h d"
  "put_list k xs (put_list k xs' d) = put_list k xs d"
  "put_set k S (put_set k S' d) = put_set k S d"
  by (simp_all add: put_hash_def put_list_def put_set_def)

lemma lua_do_run [lua_simps]:
  "lua_do call [] d = (Inr (), d)"
  "get_hash d k = Inr h \<Longrightarrow>
     lua_do (redis_apply en) (HSET k fvs # cs) d = lua_do (redis_apply en) cs (put_hash k (hset_all fvs h) d)"
  "get_hash d k = Inr h \<Longrightarrow>
     lua_do (redis_apply en) (HDEL k fs # cs) d = lua_do (redis_apply en) cs (put_hash k (fmdrop_set (set fs) h) d)"
  "get_set d k = Inr S \<Longrightarrow>
     lua_do (redis_apply en) (SADD k ms # cs) d = lua_do (redis_apply en) cs (put_set k (S |\<union>| fset_of_list ms) d)"
  "get_set d k = Inr S \<Longrightarrow>
     lua_do (redis_apply en) (SREM k ms # cs) d = lua_do (redis_apply en) cs (put_set k (S |-| fset_of_list ms) d)"
  "get_list d k = Inr xs \<Longrightarrow>
     lua_do (redis_apply en) (LPUSH k v # cs) d = lua_do (redis_apply en) cs (put_list k (v # xs) d)"
  "get_list d k = Inr xs \<Longrightarrow>
     lua_do (redis_apply en) (LTRIM k a b # cs) d = lua_do (redis_apply en) cs (put_list k (list_range a b xs) d)"
  "lua_do (redis_apply en) (DEL ks # cs) d = lua_do (redis_apply en) cs (del_keys ks d)"
  by (simp_all add: lua_do.simps redis_apply.simps and_then_def modify_ok)

lemma lua_read_run [lua_simps]:
  "lua_int (redis_apply en) (EXISTS [k]) d = (Inr (if d k = None then 0 else 1), d)"
  "get_hash d k = Inr h \<Longrightarrow> lua_hget (redis_apply en) k f d = (Inr (fmlookup h f), d)"
  "get_set d k = Inr S \<Longrightarrow> lua_int (redis_apply en) (SISMEMBER k m) d = (Inr (if m |\<in>| S then 1 else 0), d)"
  "get_set d k = Inr S \<Longrightarrow> lua_int (redis_apply en) (SCARD k) d = (Inr (int (fcard S)), d)"
  "get_list d k = Inr xs \<Longrightarrow> lua_int (redis_apply en) (LLEN k) d = (Inr (int (length xs)), d)"
  "get_zset d k = Inr z \<Longrightarrow> lua_int (redis_apply en) (ZCARD k) d = (Inr (int (fcard (fmdom z))), d)"
  "get_hash d k = Inr h \<Longrightarrow>
     lua_strings (redis_apply en) (HMGET k fs) d = (Inr (map (fmlookup h) fs), d)"
  "get_hash d k = Inr h \<Longrightarrow>
     lua_strings (redis_apply en) (HGETALL k) d = (Inr (map Some (flatten_pairs (enum_fmap en h))), d)"
  "get_hash d k = Inr h \<Longrightarrow> lua_strings (redis_apply en) (HKEYS k) d = (Inr (map Some (en (fmdom h))), d)"
  "lua_strings (redis_apply en) (MGET ks) d = (Inr (map (str_value d) ks), d)"
  by (simp_all add: redis_apply.simps lua_int_def lua_hget_def lua_strings_def and_then_def opt_reply_cases bool_reply_def comp_def)

lemma lua_return_run [lua_simps]: "lua_return s d = (Inr (RBulk s), d)"
  by (simp add: lua_return_def)

lemma nth1_simps [simp]:
  "nth1 (x # xs) (Suc 0) = x" "nth1 (x # xs) 1 = x"
  "nth1 (x # xs) (numeral n) = (if numeral n = (1 :: nat) then x else nth1 xs (pred_numeral n))"
  by (auto simp: nth1_def numeral_eq_Suc nth_Cons')

lemma or_empty_simps [simp]: "or_empty None = []" "or_empty (Some v) = v"
  by (simp_all add: or_empty_def)

subsection \<open>set-queue-state.lua\<close>

text \<open>The new properties hash and the verdict of the script, as functions of the old hash.\<close>

definition state_of_hash :: "string \<Rightarrow> string \<Rightarrow> (string, string) fmap \<Rightarrow> string" where
  "state_of_hash stF active h = (case fmlookup h stF of None \<Rightarrow> active | Some v \<Rightarrow> v)"

definition set_state_verdict :: "string \<Rightarrow> string \<Rightarrow> string \<Rightarrow> string \<Rightarrow> string \<Rightarrow> string \<Rightarrow> string
    \<Rightarrow> (string, string) fmap \<Rightarrow> string" where
  "set_state_verdict stF lockF active locked new prev lockId h =
     (let cur = state_of_hash stF active h; curLock = or_empty (fmlookup h lockF) in
      if prev \<noteq> [] \<and> cur \<noteq> prev then ''INVALID_STATE_TRANSITION''
      else if new = locked then (if lockId = [] then ''INVALID_LOCK'' else ''OK'')
      else if cur = locked then
        (if lockId = [] \<or> curLock = [] \<or> curLock \<noteq> lockId then ''INVALID_LOCK'' else ''OK'')
      else ''OK'')"

definition set_state_hash :: "string \<Rightarrow> string \<Rightarrow> string \<Rightarrow> string \<Rightarrow> string \<Rightarrow> string \<Rightarrow> string \<Rightarrow> string
    \<Rightarrow> (string, string) fmap \<Rightarrow> (string, string) fmap" where
  "set_state_hash stF lockF tsF active locked new lockId ts h =
     fmupd tsF ts (fmupd stF new
       (if new = locked then fmupd lockF lockId h
        else if state_of_hash stF active h = locked then fmdrop lockF h
        else h))"

lemma lua_set_queue_state_not_found:
  "d pk = None \<Longrightarrow> lua_set_queue_state (redis_apply en) (pk # ks) argv d = (Inr (RBulk ''QUEUE_NOT_FOUND''), d)"
  by (simp add: lua_set_queue_state_def and_then_def lua_simps Let_def)

lemma lua_set_queue_state_run:
  assumes "get_hash d pk = Inr h" and "h \<noteq> fmempty" and "get_list d hk = Inr xs" and "hk \<noteq> pk"
  shows "lua_set_queue_state (redis_apply en) [pk, hk]
      [stF, new, tr, prev, active, mx, locked, lockId, tsF, ts, lockF] d =
    (Inr (RBulk (set_state_verdict stF lockF active locked new prev lockId h)),
     if set_state_verdict stF lockF active locked new prev lockId h = ''OK''
     then put_list hk (list_range 0 (atoi_value mx - 1) (tr # xs))
            (put_hash pk (set_state_hash stF lockF tsF active locked new lockId ts h) d)
     else d)"
proof -
  have ex: "d pk = Some (RHash h)" using get_SomeD(1) [OF assms(1,2)] .
  note run = lua_set_queue_state_def and_then_def lua_simps Let_def set_state_verdict_def set_state_hash_def
    state_of_hash_def hset_all_def assms
  show ?thesis
  proof (cases "fmlookup h stF")
    case None
    then show ?thesis by (auto simp: run ex)
  next
    case (Some cur)
    then show ?thesis by (auto simp: run ex)
  qed
qed

lemma set_state_verdict_cases:
  "set_state_verdict stF lockF active locked new prev lockId h
     \<in> {''OK'', ''INVALID_STATE_TRANSITION'', ''INVALID_LOCK''}"
  by (simp add: set_state_verdict_def Let_def)

subsection \<open>create-queue.lua\<close>

lemma lua_create_queue_run:
  assumes "get_set d nsk = Inr Ns" and "get_set d nk = Inr N" and "get_set d ak = Inr A"
    and "get_hash d pk = Inr h" and "get_list d hk = Inr xs" and "distinct [nsk, nk, ak, pk, hk]"
  shows "lua_create_queue (redis_apply en) [nsk, nk, ak, pk, hk]
      [ns, q, f1, v1, f2, v2, f3, v3, c1, c2, c3, c4, c5, c6, c7, c8, stF, act, mx, tsF, ts, lockF, tr] d =
    (if q |\<in>| A then (Inr (RBulk ''QUEUE_EXISTS''), d)
     else (Inr (RBulk ''OK''),
       put_list hk (list_range 0 (atoi_value mx - 1) (tr # xs))
         (put_hash pk (hset_all [(f1, v1), (f2, v2), (f3, v3), (c1, ''0''), (c2, ''0''), (c3, ''0''), (c4, ''0''),
             (c5, ''0''), (c6, ''0''), (c7, ''0''), (c8, ''0''), (stF, act), (tsF, ts), (lockF, [])] h)
           (put_set nsk (finsert ns Ns) (put_set nk (finsert q N) (put_set ak (finsert q A) d))))))"
proof -
  have neq: "nk \<noteq> ak" "nsk \<noteq> ak" "nsk \<noteq> nk" "pk \<noteq> ak" "pk \<noteq> nk" "pk \<noteq> nsk" "hk \<noteq> ak" "hk \<noteq> nk" "hk \<noteq> nsk" "hk \<noteq> pk"
    using assms(6) by auto
  show ?thesis
    using assms(1-5) neq by (simp add: lua_create_queue_def and_then_def lua_simps Let_def)
qed

subsection \<open>delete-queue.lua\<close>

definition delete_queue_verdict :: "db \<Rightarrow> (string, string) fmap \<Rightarrow> string fset \<Rightarrow> (string, string) fmap
    \<Rightarrow> string \<Rightarrow> string \<Rightarrow> string \<Rightarrow> string \<Rightarrow> string \<Rightarrow> string list \<Rightarrow> string list \<Rightarrow> string" where
  "delete_queue_verdict d h B C mcF stF locked lockF opLock hb cids =
     (if h = fmempty then ''QUEUE_NOT_FOUND''
      else if fmlookup h stF = Some locked \<and> opLock = [] then ''QUEUE_LOCKED''
      else if fmlookup h stF = Some locked \<and>
        (or_empty (fmlookup h lockF) = [] \<or> or_empty (fmlookup h lockF) \<noteq> opLock) then ''INVALID_LOCK''
      else if fmlookup h mcF \<noteq> Some ''0'' then ''QUEUE_NOT_EMPTY''
      else if B \<noteq> {||} then ''QUEUE_HAS_BOUND_EXCHANGE''
      else if length cids \<noteq> fcard (fmdom C) \<or> \<not> set cids \<subseteq> fset (fmdom C) then ''CONSUMER_SET_MISMATCH''
      else if \<exists>k \<in> set hb. str_value d k \<noteq> None then ''QUEUE_HAS_ACTIVE_CONSUMERS''
      else ''OK'')"

lemma map_or_empty_Some [simp]: "map (or_empty \<circ> Some) xs = xs"
  by (induction xs) simp_all

lemma fcard_pos: "0 < fcard B \<longleftrightarrow> B \<noteq> {||}"
  by (simp add: fcard.rep_eq card_gt_0_iff bot_fset.rep_eq fset_inject [symmetric])

lemma lua_delete_queue_run:
  assumes "enum_ok en" and "get_hash d pk = Inr h" and "get_set d ak = Inr A" and "get_set d nk = Inr N"
    and "get_set d bk = Inr B" and "get_hash d ck = Inr C" and "ak \<noteq> nk"
    and hb: "in_int64 (int (length hb))"
  shows "lua_delete_queue (redis_apply en) ([ak, nk, pk, bk, ck] @ hb @ rest)
      ([q, mcF, itoa (int (length hb)), stF, locked, lockF, opLock] @ cids) d =
    (let v = delete_queue_verdict d h B C mcF stF locked lockF opLock hb cids in
     (Inr (RBulk v),
      if v = ''OK'' then del_keys ([pk, bk, ck] @ hb @ rest) (put_set nk (N |-| {|q|}) (put_set ak (A |-| {|q|}) d))
      else d))"
proof -
  have pairs: "fmap_of_list (enum_fmap en h) = h"
    using fmap_of_enum_fmap [OF assms(1)] .
  have empty: "enum_fmap en h = [] \<longleftrightarrow> h = fmempty"
    using enum_fmap_Nil [OF assms(1)] .
  have mget: "(if 0 < int (length hb) then lua_strings (redis_apply en) (MGET hb) else ret []) d =
      (Inr (map (str_value d) hb), d)"
    by (cases hb) (simp_all add: lua_simps)
  have ids: "length (en (fmdom C)) = fcard (fmdom C)" "set (en (fmdom C)) = fset (fmdom C)"
    using enum_ok_length [OF assms(1)] enum_ok_set [OF assms(1)] by simp_all
  note run = lua_delete_queue_def delete_queue_verdict_def and_then_def [of "lua_strings _ _"]
    and_then_def [of "lua_int _ _"] and_then_def [of "lua_do _ _"] and_then_def [of "if _ then _ else _"]
    lua_simps Let_def pairs empty mget ids fcard_pos list_all_iff list_ex_iff subset_iff comp_def
  let ?lock = "or_empty (fmlookup h lockF)" and ?locked = "fmlookup h stF = Some locked"
  let ?free = "\<not> (?locked \<and> opLock = []) \<and> \<not> (?locked \<and> (?lock = [] \<or> ?lock \<noteq> opLock))"
  let ?mis = "length cids \<noteq> fcard (fmdom C) \<or> \<not> (\<forall>x \<in> set cids. x |\<in>| fmdom C)"
  consider "h = fmempty"
    | "h \<noteq> fmempty" "?locked \<and> opLock = []"
    | "h \<noteq> fmempty" "\<not> (?locked \<and> opLock = [])" "?locked \<and> (?lock = [] \<or> ?lock \<noteq> opLock)"
    | "h \<noteq> fmempty" "?free" "fmlookup h mcF \<noteq> Some ''0''"
    | "h \<noteq> fmempty" "?free" "fmlookup h mcF = Some ''0''" "B \<noteq> {||}"
    | "h \<noteq> fmempty" "?free" "fmlookup h mcF = Some ''0''" "B = {||}" "length cids \<noteq> fcard (fmdom C)"
    | "h \<noteq> fmempty" "?free" "fmlookup h mcF = Some ''0''" "B = {||}" "length cids = fcard (fmdom C)"
      "\<not> (\<forall>x \<in> set cids. x |\<in>| fmdom C)"
    | "h \<noteq> fmempty" "?free" "fmlookup h mcF = Some ''0''" "B = {||}" "length cids = fcard (fmdom C)"
      "\<forall>x \<in> set cids. x |\<in>| fmdom C" by blast
  then show ?thesis
  proof cases
    case 1
    with empty have "enum_fmap en h = []" by simp
    with 1 show ?thesis using assms(2-7) hb by (simp add: run del: empty)
  next
    case 2
    then show ?thesis using assms(2-7) hb by (simp add: run)
  next
    case 3
    then show ?thesis using assms(2-7) hb by (simp add: run)
  next
    case 7
    then have "\<not> list_all (\<lambda>x. x |\<in>| fmdom C) cids" by (simp add: list_all_iff)
    with 7 show ?thesis using assms(2-7) hb by (simp add: run del: list_all_iff) blast
  next
    case 8
    show ?thesis
    proof (cases "\<exists>k \<in> set hb. str_value d k \<noteq> None")
      case True
      moreover from True have "hb \<noteq> []" by auto
      ultimately show ?thesis using 8 assms(2-7) hb by (simp add: run)
    next
      case False
      with 8 show ?thesis using assms(2-7) hb by (simp add: run)
    qed
  qed (use assms(2-7) hb in \<open>simp_all add: run\<close>)
qed

subsection \<open>set-queue-rate-limit.lua, clear-queue-rate-limit.lua\<close>

definition lock_guard_verdict :: "(string, string) fmap \<Rightarrow> string \<Rightarrow> string \<Rightarrow> string \<Rightarrow> string \<Rightarrow> string option" where
  "lock_guard_verdict h stF locked lockF opLock =
     (if h = fmempty then Some ''QUEUE_NOT_FOUND''
      else if fmlookup h stF = Some locked \<and> opLock = [] then Some ''QUEUE_LOCKED''
      else if fmlookup h stF = Some locked \<and>
        (or_empty (fmlookup h lockF) = [] \<or> or_empty (fmlookup h lockF) \<noteq> opLock) then Some ''INVALID_LOCK''
      else None)"

lemma hash_absent: "get_hash d k = Inr h \<Longrightarrow> d k \<noteq> Some (RHash fmempty) \<Longrightarrow> d k = None \<longleftrightarrow> h = fmempty"
  by (auto simp: get_hash_def split: option.splits rval.splits)

text \<open>Redis keeps no empty collections.\<close>

definition no_empty :: "db \<Rightarrow> bool" where
  "no_empty d \<longleftrightarrow> (\<forall>k. d k \<noteq> Some (RHash fmempty) \<and> d k \<noteq> Some (RSet {||}) \<and> d k \<noteq> Some (RList []))"

lemma lua_lock_guard_run [lua_simps]:
  assumes "get_hash d pk = Inr h" and "no_empty d"
  shows "lua_lock_guard (redis_apply en) pk stF locked lockF opLock d =
    (Inr (lock_guard_verdict h stF locked lockF opLock), d)"
proof -
  have "d pk = None \<longleftrightarrow> h = fmempty"
    using hash_absent [OF assms(1)] assms(2) by (simp add: no_empty_def)
  with assms(1) show ?thesis
    by (auto simp: lua_lock_guard_def lock_guard_verdict_def and_then_def lua_simps Let_def)
qed

lemma lua_set_rate_limit_run:
  assumes "get_hash d pk = Inr h" and "no_empty d"
  shows "lua_set_rate_limit (redis_apply en) [pk] [rlF, rl, stF, locked, lockF, opLock] d =
    (case lock_guard_verdict h stF locked lockF opLock of
       Some r \<Rightarrow> (Inr (RBulk r), d)
     | None \<Rightarrow> (Inr (RBulk ''OK''), put_hash pk (fmupd rlF rl h) d))"
  using assms
  by (simp add: lua_set_rate_limit_def and_then_def lua_simps hset_all_def split: option.splits)

lemma lua_clear_rate_limit_run:
  assumes "get_hash d pk = Inr h" and "no_empty d"
  shows "lua_clear_rate_limit (redis_apply en) [pk, ck] [rlF, stF, locked, lockF, opLock] d =
    (case lock_guard_verdict h stF locked lockF opLock of
       Some r \<Rightarrow> (Inr (RBulk r), d)
     | None \<Rightarrow> (Inr (RBulk ''OK''), del_keys [ck] (put_hash pk (fmdrop_set {rlF} h) d)))"
  using assms
  by (simp add: lua_clear_rate_limit_def and_then_def lua_simps split: option.splits)

subsection \<open>delete-consumer-group.lua\<close>

definition delete_group_verdict :: "(string, string) fmap \<Rightarrow> nat \<Rightarrow> nat \<Rightarrow> string \<Rightarrow> string \<Rightarrow> string \<Rightarrow> string
    \<Rightarrow> string \<Rightarrow> string \<Rightarrow> string \<Rightarrow> string" where
  "delete_group_verdict h members pending tyF dmF pubsub stF locked lockF opLock =
     (if fmlookup h tyF = None then ''QUEUE_NOT_FOUND''
      else if fmlookup h stF = Some locked \<and> opLock = [] then ''QUEUE_LOCKED''
      else if fmlookup h stF = Some locked \<and>
        (or_empty (fmlookup h lockF) = [] \<or> or_empty (fmlookup h lockF) \<noteq> opLock) then ''INVALID_LOCK''
      else if fmlookup h dmF \<noteq> Some pubsub then ''CONSUMER_GROUPS_NOT_SUPPORTED''
      else if 0 < members then ''CONSUMER_GROUP_HAS_ACTIVE_CONSUMERS''
      else if 0 < pending then ''CONSUMER_GROUP_NOT_EMPTY''
      else ''OK'')"

lemma lua_delete_consumer_group_run:
  assumes "get_hash d pk = Inr h" and "get_set d gk = Inr G" and "get_set d mk = Inr M"
    and "get_list d qk = Inr xs" and "get_zset d zk = Inr z"
  shows "lua_delete_consumer_group (redis_apply en) [gk, qk, zk, pk, mk]
      [tyF, prio, dmF, pubsub, g, stF, locked, lockF, opLock] d =
    (let v = delete_group_verdict h (fcard M) (if fmlookup h tyF = Some prio then fcard (fmdom z) else length xs)
          tyF dmF pubsub stF locked lockF opLock in
     if v = ''OK'' then (Inr (RBulk ''OK''), del_keys [mk] (del_keys [qk, zk] (put_set gk (G |-| {|g|}) d)))
     else (Inr (RBulk v), d))"
proof (cases "fmlookup h tyF = Some prio")
  case True
  then show ?thesis
    using assms(1-5)
    by (simp add: lua_delete_consumer_group_def delete_group_verdict_def and_then_def lua_simps Let_def fcard_pos)
next
  case False
  then show ?thesis
    using assms(1-5)
    by (simp add: lua_delete_consumer_group_def delete_group_verdict_def and_then_def lua_simps Let_def fcard_pos)
qed

end
