(* ===== verification/Purge_Jobs.thy ===== *)
theory Purge_Jobs
  imports Queue_Scripts
begin

text \<open>
  The background jobs that purge queues: \<open>pkg/queue/purge_job.go\<close>, the six scripts of
  \<open>internal/redis/scripts/scripts/jobs/\<close> and \<open>internal/queue/purge_job_store.go\<close>. A job is a JSON text in
  a hash; its id waits in a list of pending jobs or of active ones. The scripts find the status of
  a job by a pattern search in the text, which \<open>status_of_job\<close> shows to be right for every job that
  the Go code writes. The second half follows the jobs under all clients (\<open>jobs_reach\<close>).
\<close>

subsection \<open>Jobs\<close>

type_synonym job_status = int

definition PurgeJobPending :: job_status where [enum_defs]: "PurgeJobPending = 0"
definition PurgeJobProcessing :: job_status where [enum_defs]: "PurgeJobProcessing = 1"
definition PurgeJobCompleted :: job_status where [enum_defs]: "PurgeJobCompleted = 2"
definition PurgeJobFailed :: job_status where [enum_defs]: "PurgeJobFailed = 3"
definition PurgeJobCanceled :: job_status where [enum_defs]: "PurgeJobCanceled = 4"

definition purge_job_statuses :: "job_status list" where
  "purge_job_statuses = [PurgeJobPending, PurgeJobProcessing, PurgeJobCompleted, PurgeJobFailed, PurgeJobCanceled]"

text \<open>The payload is the queue and the category of messages; \<open>pj_Meta\<close> is the number of purged messages.\<close>

record purge_job =
  pj_ID :: string
  pj_Queue :: "queue_params option"
  pj_MessageType :: int
  pj_Status :: job_status
  pj_CreatedAt :: int
  pj_UpdatedAt :: int
  pj_StartedAt :: int
  pj_CompletedAt :: int
  pj_BatchSize :: int
  pj_DelayMs :: int
  pj_Error :: string
  pj_Meta :: "int option"

definition purge_job_json :: "purge_job \<Rightarrow> json" where
  "purge_job_json j = JObj
     ([(''id'', JStr (pj_ID j)),
       (''payload'', JObj [(''queue'', opt_json Params_MarshalJSON (pj_Queue j)), (''messageType'', JNum (pj_MessageType j))]),
       (''status'', JNum (pj_Status j)), (''createdAt'', JNum (pj_CreatedAt j))]
      @ omit_empty (pj_UpdatedAt j = 0) ''updatedAt'' (JNum (pj_UpdatedAt j))
      @ omit_empty (pj_StartedAt j = 0) ''startedAt'' (JNum (pj_StartedAt j))
      @ omit_empty (pj_CompletedAt j = 0) ''completedAt'' (JNum (pj_CompletedAt j))
      @ omit_empty (pj_BatchSize j = 0) ''batchSize'' (JNum (pj_BatchSize j))
      @ omit_empty (pj_DelayMs j = 0) ''delay'' (JNum (pj_DelayMs j))
      @ omit_empty (pj_Error j = []) ''error'' (JStr (pj_Error j))
      @ omit_empty (pj_Meta j = None) ''meta'' (opt_json (\<lambda>n. JObj [(''purged'', JNum n)]) (pj_Meta j)))"

definition mustMarshal :: "purge_job \<Rightarrow> string" where
  "mustMarshal j = json_text (purge_job_json j)"

definition un_meta :: "json option \<Rightarrow> int option" where
  "un_meta v = (case un_map v of None \<Rightarrow> None | Some kvs \<Rightarrow> un_int 0 (obj_field kvs ''purged''))"

definition purge_job_of_json :: "json \<Rightarrow> purge_job option" where
  "purge_job_of_json v =
     (case un_struct v of None \<Rightarrow> None | Some kvs \<Rightarrow>
      (case un_map (obj_field kvs ''payload'') of None \<Rightarrow> None | Some pl \<Rightarrow>
      (case (un_str [] (obj_field kvs ''id''), un_custom Params_UnmarshalJSON (obj_field pl ''queue''),
             un_int 0 (obj_field pl ''messageType''), un_int 0 (obj_field kvs ''status''),
             un_int 0 (obj_field kvs ''createdAt''), un_int 0 (obj_field kvs ''updatedAt'')) of
         (Some i, Some q, Some mt, Some st, Some created, Some updated) \<Rightarrow>
           (case (un_int 0 (obj_field kvs ''startedAt''), un_int 0 (obj_field kvs ''completedAt''),
                  un_int 0 (obj_field kvs ''batchSize''), un_int 0 (obj_field kvs ''delay''),
                  un_str [] (obj_field kvs ''error''), un_ptr un_meta (obj_field kvs ''meta'')) of
              (Some started, Some completed, Some bs, Some delay, Some err, Some meta) \<Rightarrow>
                Some \<lparr>pj_ID = i, pj_Queue = q, pj_MessageType = mt, pj_Status = st, pj_CreatedAt = created,
                  pj_UpdatedAt = updated, pj_StartedAt = started, pj_CompletedAt = completed, pj_BatchSize = bs,
                  pj_DelayMs = delay, pj_Error = err, pj_Meta = meta\<rparr>
            | _ \<Rightarrow> None)
       | _ \<Rightarrow> None)))"

subsection \<open>The scripts\<close>

text \<open>The pattern of \<open>string.find\<close>: the name of the field, a colon, and one digit, which is captured.\<close>

abbreviation status_mark :: string where
  "status_mark \<equiv> dquote # ''status'' @ [dquote, CHR '':'']"

fun find_status :: "string \<Rightarrow> string option" where
  "find_status [] = None"
| "find_status (c # cs) =
     (if take 9 (c # cs) = status_mark \<and> drop 9 (c # cs) \<noteq> [] \<and> is_digit (hd (drop 9 (c # cs)))
      then Some [hd (drop 9 (c # cs))] else find_status cs)"

text \<open>A job that is not there and one without a status get the same answer.\<close>

definition lua_job_status :: "call \<Rightarrow> string \<Rightarrow> string \<Rightarrow> (db, redis_error, string option) io" where
  "lua_job_status call backgroundJobsKey jobId =
     and_then (lua_hget call backgroundJobsKey jobId) (\<lambda>currentJobData.
     ret (case currentJobData of None \<Rightarrow> None | Some data \<Rightarrow> find_status data))"

definition lua_create_job :: script where
  "lua_create_job call KEYS ARGV =
     (let backgroundJobsKey = nth1 KEYS 1; backgroundJobsPendingKey = nth1 KEYS 2;
          jobId = nth1 ARGV 1; jobData = nth1 ARGV 2 in
      and_then (lua_int call (HEXISTS backgroundJobsKey jobId)) (\<lambda>jobExists.
      if jobExists = 1 then ret (RInt (-1))
      else
      and_then (lua_do call [HSET backgroundJobsKey [(jobId, jobData)], LPUSH backgroundJobsPendingKey jobId]) (\<lambda>_.
      ret (RInt 1))))"

definition lua_start_job :: script where
  "lua_start_job call KEYS ARGV =
     (let backgroundJobsKey = nth1 KEYS 1; backgroundJobsProcessingKey = nth1 KEYS 2; jobWorkerKey = nth1 KEYS 3;
          jobId = nth1 ARGV 1; workerId = nth1 ARGV 2; updatedJobData = nth1 ARGV 3; pendingStatus = nth1 ARGV 4;
          processingStatus = nth1 ARGV 5; completedStatus = nth1 ARGV 6; failedStatus = nth1 ARGV 7;
          canceledStatus = nth1 ARGV 8 in
      and_then (lua_job_status call backgroundJobsKey jobId) (\<lambda>statusStr.
      case statusStr of None \<Rightarrow> ret (RInt 0) | Some status \<Rightarrow>
      if status = processingStatus then ret (RInt 2)
      else if status = completedStatus then ret (RInt (-1))
      else if status = failedStatus then ret (RInt (-2))
      else if status = canceledStatus then ret (RInt (-3))
      else if status \<noteq> pendingStatus then ret (RInt 0)
      else
      and_then (lua_int call (LREM backgroundJobsProcessingKey 0 jobId)) (\<lambda>isInProcessingList.
      if isInProcessingList = 0 then ret (RInt 0)
      else
      and_then (lua_do call
        [RPUSH backgroundJobsProcessingKey [jobId],
         HSET backgroundJobsKey [(jobId, updatedJobData)],
         SET jobWorkerKey workerId]) (\<lambda>_.
      ret (RInt 1)))))"

definition lua_complete_job :: script where
  "lua_complete_job call KEYS ARGV =
     (let backgroundJobsKey = nth1 KEYS 1; backgroundJobsProcessingKey = nth1 KEYS 2; jobWorkerKey = nth1 KEYS 3;
          jobId = nth1 ARGV 1; updatedJobData = nth1 ARGV 2; processingStatus = nth1 ARGV 3;
          completedStatus = nth1 ARGV 4; failedStatus = nth1 ARGV 5; canceledStatus = nth1 ARGV 6;
          cleanup = [LREM backgroundJobsProcessingKey 0 jobId, DEL [jobWorkerKey]] in
      and_then (lua_job_status call backgroundJobsKey jobId) (\<lambda>statusStr.
      case statusStr of None \<Rightarrow> ret (RInt 0) | Some status \<Rightarrow>
      if status = completedStatus then and_then (lua_do call cleanup) (\<lambda>_. ret (RInt 2))
      else if status = failedStatus then and_then (lua_do call cleanup) (\<lambda>_. ret (RInt (-1)))
      else if status = canceledStatus then and_then (lua_do call cleanup) (\<lambda>_. ret (RInt (-2)))
      else if status \<noteq> processingStatus then ret (RInt 0)
      else and_then (lua_do call (HSET backgroundJobsKey [(jobId, updatedJobData)] # cleanup)) (\<lambda>_. ret (RInt 1))))"

definition lua_fail_job :: script where
  "lua_fail_job call KEYS ARGV =
     (let backgroundJobsKey = nth1 KEYS 1; backgroundJobsProcessingKey = nth1 KEYS 2; jobWorkerKey = nth1 KEYS 3;
          jobId = nth1 ARGV 1; updatedJobData = nth1 ARGV 2; processingStatus = nth1 ARGV 3;
          completedStatus = nth1 ARGV 4; failedStatus = nth1 ARGV 5; canceledStatus = nth1 ARGV 6;
          cleanup = [LREM backgroundJobsProcessingKey 0 jobId, DEL [jobWorkerKey]] in
      and_then (lua_job_status call backgroundJobsKey jobId) (\<lambda>statusStr.
      case statusStr of None \<Rightarrow> ret (RInt 0) | Some status \<Rightarrow>
      if status = failedStatus then and_then (lua_do call cleanup) (\<lambda>_. ret (RInt 2))
      else if status = completedStatus then and_then (lua_do call cleanup) (\<lambda>_. ret (RInt (-1)))
      else if status = canceledStatus then and_then (lua_do call cleanup) (\<lambda>_. ret (RInt (-2)))
      else if status \<noteq> processingStatus then ret (RInt 0)
      else and_then (lua_do call (HSET backgroundJobsKey [(jobId, updatedJobData)] # cleanup)) (\<lambda>_. ret (RInt 1))))"

definition lua_cancel_job :: script where
  "lua_cancel_job call KEYS ARGV =
     (let backgroundJobsKey = nth1 KEYS 1; backgroundJobsPendingKey = nth1 KEYS 2;
          backgroundJobsProcessingKey = nth1 KEYS 3; jobWorkerKey = nth1 KEYS 4;
          jobId = nth1 ARGV 1; updatedJobData = nth1 ARGV 2; pendingStatus = nth1 ARGV 3;
          processingStatus = nth1 ARGV 4; completedStatus = nth1 ARGV 5; failedStatus = nth1 ARGV 6;
          canceledStatus = nth1 ARGV 7;
          cleanup = [LREM backgroundJobsPendingKey 0 jobId, LREM backgroundJobsProcessingKey 0 jobId, DEL [jobWorkerKey]] in
      and_then (lua_job_status call backgroundJobsKey jobId) (\<lambda>statusStr.
      case statusStr of None \<Rightarrow> ret (RInt 0) | Some status \<Rightarrow>
      if status = canceledStatus then and_then (lua_do call cleanup) (\<lambda>_. ret (RInt 2))
      else if status = completedStatus then and_then (lua_do call cleanup) (\<lambda>_. ret (RInt (-1)))
      else if status = failedStatus then and_then (lua_do call cleanup) (\<lambda>_. ret (RInt (-2)))
      else if status \<noteq> pendingStatus \<and> status \<noteq> processingStatus then ret (RInt 0)
      else and_then (lua_do call (HSET backgroundJobsKey [(jobId, updatedJobData)] # cleanup)) (\<lambda>_. ret (RInt 1))))"

definition lua_recover_job :: script where
  "lua_recover_job call KEYS ARGV =
     (let backgroundJobsKey = nth1 KEYS 1; backgroundJobsPendingKey = nth1 KEYS 2;
          backgroundJobsProcessingKey = nth1 KEYS 3; jobWorkerKey = nth1 KEYS 4;
          jobId = nth1 ARGV 1; updatedJobData = nth1 ARGV 2; processingStatus = nth1 ARGV 3;
          completedStatus = nth1 ARGV 4; failedStatus = nth1 ARGV 5; canceledStatus = nth1 ARGV 6;
          cleanup = [LREM backgroundJobsProcessingKey 0 jobId, DEL [jobWorkerKey]] in
      and_then (lua_job_status call backgroundJobsKey jobId) (\<lambda>statusStr.
      case statusStr of None \<Rightarrow> ret (RInt 0) | Some status \<Rightarrow>
      if status = completedStatus then and_then (lua_do call cleanup) (\<lambda>_. ret (RInt (-1)))
      else if status = failedStatus then and_then (lua_do call cleanup) (\<lambda>_. ret (RInt (-2)))
      else if status = canceledStatus then and_then (lua_do call cleanup) (\<lambda>_. ret (RInt (-3)))
      else if status \<noteq> processingStatus then ret (RInt 0)
      else
      and_then (lua_do call
        [HSET backgroundJobsKey [(jobId, updatedJobData)],
         LREM backgroundJobsProcessingKey 0 jobId,
         LPUSH backgroundJobsPendingKey jobId,
         DEL [jobWorkerKey]]) (\<lambda>_.
      ret (RInt 1))))"

definition job_scripts :: "(ID \<Rightarrow> script) \<Rightarrow> ID \<Rightarrow> script" where
  "job_scripts other i =
     (case i of
        CreateJob \<Rightarrow> lua_create_job
      | StartJob \<Rightarrow> lua_start_job
      | CompleteJob \<Rightarrow> lua_complete_job
      | FailJob \<Rightarrow> lua_fail_job
      | CancelJob \<Rightarrow> lua_cancel_job
      | RecoverStuckJob \<Rightarrow> lua_recover_job
      | _ \<Rightarrow> other i)"

subsection \<open>The store of jobs\<close>

text \<open>The methods of \<open>PurgeJobStore\<close> that run a script, with the script, its keys, its arguments and
  the name of the operation.\<close>

datatype job_call =
    JobCreate purge_job
  | JobStart string string purge_job
  | JobComplete string purge_job
  | JobFail string purge_job
  | JobCancel string purge_job
  | JobRecover string purge_job

definition finish_args :: "string \<Rightarrow> purge_job \<Rightarrow> string list" where
  "finish_args jobID job =
     [jobID, mustMarshal job, itoa PurgeJobProcessing, itoa PurgeJobCompleted, itoa PurgeJobFailed, itoa PurgeJobCanceled]"

definition job_script_call :: "job_call \<Rightarrow> ID \<times> string list \<times> string list \<times> string" where
  "job_script_call c =
     (case c of
        JobCreate job \<Rightarrow>
          (CreateJob, [System_PurgeJobs, System_PendingPurgeJobs], [pj_ID job, mustMarshal job], ''create'')
      | JobStart jobID workerID job \<Rightarrow>
          (StartJob, [System_PurgeJobs, System_ActivePurgeJobs, System_JobWorker jobID],
           [jobID, workerID, mustMarshal job, itoa PurgeJobPending, itoa PurgeJobProcessing, itoa PurgeJobCompleted,
            itoa PurgeJobFailed, itoa PurgeJobCanceled], ''start'')
      | JobComplete jobID job \<Rightarrow>
          (CompleteJob, [System_PurgeJobs, System_ActivePurgeJobs, System_JobWorker jobID], finish_args jobID job, ''complete'')
      | JobFail jobID job \<Rightarrow>
          (FailJob, [System_PurgeJobs, System_ActivePurgeJobs, System_JobWorker jobID], finish_args jobID job, ''fail'')
      | JobCancel jobID job \<Rightarrow>
          (CancelJob, [System_PurgeJobs, System_PendingPurgeJobs, System_ActivePurgeJobs, System_JobWorker jobID],
           [jobID, mustMarshal job, itoa PurgeJobPending, itoa PurgeJobProcessing, itoa PurgeJobCompleted,
            itoa PurgeJobFailed, itoa PurgeJobCanceled], ''cancel'')
      | JobRecover jobID job \<Rightarrow>
          (RecoverStuckJob, [System_PurgeJobs, System_PendingPurgeJobs, System_ActivePurgeJobs, System_JobWorker jobID],
           finish_args jobID job @ [''Recovered from worker crash''], ''recover''))"

definition job_reply :: "string \<Rightarrow> int \<Rightarrow> go_error option" where
  "job_reply operation n =
     (if n = 1 \<or> n = 2 then None
      else Some (Errorf
        (if n = 0 then ''purge: job not found for '' @ operation
         else if n = -1 then ''purge: job already completed''
         else if n = -2 then ''purge: job already failed''
         else if n = -3 then ''purge: job already cancelled''
         else ''purge: unexpected '' @ operation @ '' reply: '' @ itoa n)))"

definition runJobScript :: "'s redis_server \<Rightarrow> job_call \<Rightarrow> ('s, go_error, unit) io" where
  "runJobScript rd c =
     (case job_script_call c of (i, ks, as, operation) \<Rightarrow>
      and_then (map_err (Wrapf (''purge: '' @ operation @ '' job'')) (Eval rd i ks as)) (\<lambda>reply.
      case Int64_of reply of
        Inl err \<Rightarrow> throw (Errorf (''purge: unexpected '' @ operation @ '' reply: '' @ or_empty (bulk reply)))
      | Inr n \<Rightarrow> (case job_reply operation n of None \<Rightarrow> ret () | Some err \<Rightarrow> throw err)))"

definition Job_Get :: "'s redis_server \<Rightarrow> string \<Rightarrow> ('s, go_error, purge_job) io" where
  "Job_Get rd jobID =
     and_then (map_err (\<lambda>_. Errorf (''purge: job not found: '' @ jobID)) (hget rd System_PurgeJobs jobID)) (\<lambda>data.
     case Option.bind (parse_json data) purge_job_of_json of
       None \<Rightarrow> throw (Wrapf ''purge: decode job'' JsonErr)
     | Some job \<Rightarrow> ret job)"

text \<open>\<open>Save\<close> also changes the job that it is given.\<close>

definition Job_Save :: "'s redis_server \<Rightarrow> int \<Rightarrow> purge_job \<Rightarrow> ('s, go_error, purge_job \<times> redis_error option) io" where
  "Job_Save rd now job =
     (let job' = job\<lparr>pj_UpdatedAt := now\<rparr> in
      and_then (try_io (exec rd (HSET System_PurgeJobs [(pj_ID job', mustMarshal job')]))) (\<lambda>r.
      ret (job', case r of Inl e \<Rightarrow> Some e | Inr _ \<Rightarrow> None)))"

definition Job_IsCanceled :: "'s redis_server \<Rightarrow> string \<Rightarrow> ('s, go_error, bool) io" where
  "Job_IsCanceled rd jobID = and_then (Job_Get rd jobID) (\<lambda>job. ret (pj_Status job = PurgeJobCanceled))"

subsection \<open>The pattern finds the status\<close>

lemma find_status_step:
  "c \<noteq> dquote \<Longrightarrow> find_status (c # cs) = find_status cs"
  "take 8 cs \<noteq> ''status'' @ [dquote, CHR '':''] \<Longrightarrow> find_status (dquote # cs) = find_status cs"
  "is_digit c \<Longrightarrow> find_status (status_mark @ c # cs) = Some [c]"
  by auto

declare find_status.simps(2) [simp del]

lemma find_status_skip: "dquote \<notin> set xs \<Longrightarrow> find_status (xs @ rest) = find_status rest"
  by (induction xs) (auto simp: find_status_step(1))

lemma hex_char_dquote: "d < 16 \<Longrightarrow> hex_char d \<noteq> dquote"
proof
  assume "d < 16" and "hex_char d = dquote"
  then have "(of_char (hex_char d) :: nat) = 34" by simp
  with \<open>d < 16\<close> show False by (simp add: hex_char_def split: if_splits)
qed

lemma of_char_dquote: "(of_char c :: nat) = 34 \<longleftrightarrow> c = dquote" "(of_char c :: nat) = 92 \<longleftrightarrow> c = backslash"
proof -
  have "(of_char c :: nat) = of_char c' \<longleftrightarrow> c = c'" for c' :: char by simp
  from this [of dquote] this [of backslash]
  show "(of_char c :: nat) = 34 \<longleftrightarrow> c = dquote" "(of_char c :: nat) = 92 \<longleftrightarrow> c = backslash" by simp_all
qed

lemma quote_char_chars:
  "c \<noteq> dquote \<Longrightarrow> dquote \<notin> set (quote_char c)" "quote_char dquote = [backslash, dquote]"
  "quote_char c = [c] \<and> c \<noteq> dquote \<and> c \<noteq> backslash \<or> (\<exists>cs. quote_char c = backslash # cs)"
proof -
  have "hex_char (of_char c mod 16) \<noteq> dquote" by (rule hex_char_dquote) simp
  moreover have "hex_char (of_char c div 16) \<noteq> dquote" if "(of_char c :: nat) < 256" by (rule hex_char_dquote) (use that in \<open>simp add: less_mult_imp_div_less\<close>)
  ultimately show "c \<noteq> dquote \<Longrightarrow> dquote \<notin> set (quote_char c)"
    by (auto simp: quote_char_def Let_def of_char_dquote)
  show "quote_char dquote = [backslash, dquote]" by (simp add: quote_char_def)
  show "quote_char c = [c] \<and> c \<noteq> dquote \<and> c \<noteq> backslash \<or> (\<exists>cs. quote_char c = backslash # cs)"
    by (simp add: quote_char_def Let_def of_char_dquote)
qed

text \<open>No mark starts inside a quoted string that is followed by something else than a colon.\<close>

lemma no_mark:
  assumes "dquote \<notin> set w" and "backslash \<notin> set w" and "c \<noteq> CHR '':''"
  shows "take (length w + 2) (concat (map quote_char s) @ dquote # c # r) \<noteq> w @ [dquote, CHR '':'']"
  using assms
proof (induction s arbitrary: w)
  case Nil
  then show ?case by (cases w) auto
next
  case (Cons x s)
  show ?case
  proof (cases w)
    case Nil
    then show ?thesis using quote_char_chars(3) [of x] by auto
  next
    case w: (Cons y w')
    then show ?thesis using quote_char_chars(3) [of x] Cons.IH [of w'] Cons.prems by auto
  qed
qed

lemma find_status_string:
  assumes "c \<noteq> CHR '':''" and "c \<noteq> CHR ''s''"
  shows "find_status (json_quote s @ c # r) = find_status (c # r)"
proof -
  have len: "length ''status'' + 2 = 8" by simp
  have mark: "find_status (dquote # concat (map quote_char t) @ dquote # c # r) = find_status (concat (map quote_char t) @ dquote # c # r)" for t
    by (rule find_status_step(2)) (use no_mark [of "''status''" c t r, unfolded len] assms in simp)
  have "find_status (concat (map quote_char s) @ dquote # c # r) = find_status (c # r)"
  proof (induction s)
    case Nil
    then show ?case using assms by (simp add: find_status_step(2))
  next
    case (Cons x s)
    show ?case
    proof (cases "x = dquote")
      case True
      then show ?thesis using Cons.IH mark [of s] by (simp add: quote_char_chars(2) find_status_step(1))
    next
      case False
      then show ?thesis using Cons.IH find_status_skip [OF quote_char_chars(1)] by simp
    qed
  qed
  then show ?thesis using mark [of s] by (simp add: json_quote_def)
qed

lemma find_status_number: "find_status (itoa n @ r) = find_status r"
  by (rule find_status_skip) (use itoa_chars [of dquote n] in \<open>auto simp: is_digit_def\<close>)

lemma itoa_digit: "0 \<le> n \<Longrightarrow> n < 10 \<Longrightarrow> \<exists>c. itoa n = [c] \<and> is_digit c"
  using nat_digits_all_digits [of _ "nat n"] by (simp add: itoa_def nat_digits.simps [of "nat n"])

lemma status_of_job:
  assumes "0 \<le> pj_Status j" and "pj_Status j < 10"
  shows "find_status (mustMarshal j) = Some (itoa (pj_Status j))"
proof -
  obtain c where c: "itoa (pj_Status j) = [c]" "is_digit c" using itoa_digit assms by blast
  have key: "find_status (json_quote k @ CHR '':'' # r) = find_status (CHR '':'' # r)"
    if "k \<in> {''id'', ''payload'', ''queue'', ''messageType'', ''name'', ''ns''}" for k r
    using that by (auto simp: json_quote_def quote_char_def find_status_step)
  have q: "find_status (json_text (opt_json Params_MarshalJSON (pj_Queue j)) @ CHR '','' # r) = find_status (CHR '','' # r)" for r
    by (cases "pj_Queue j") (simp_all add: opt_json_def Params_MarshalJSON_def key find_status_string find_status_step)
  obtain r where "mustMarshal j = CHR ''{'' # json_quote ''id'' @ CHR '':'' # json_quote (pj_ID j) @ CHR '','' # json_quote ''payload'' @
      CHR '':'' # CHR ''{'' # json_quote ''queue'' @ CHR '':'' # json_text (opt_json Params_MarshalJSON (pj_Queue j)) @ CHR '','' #
      json_quote ''messageType'' @ CHR '':'' # itoa (pj_MessageType j) @ CHR ''}'' # CHR '','' # status_mark @ itoa (pj_Status j) @ r"
    by (simp add: mustMarshal_def purge_job_json_def json_quote_def [of "''status''"] quote_char_def)
  moreover have "find_status (status_mark @ [c] @ r) = Some [c]" using find_status_step(3) [OF c(2), of r] by simp
  ultimately show ?thesis
    using c by (simp add: key find_status_string find_status_number q find_status_step(1) del: append_Cons append_Nil)
qed

subsection \<open>Reading back what was written\<close>

definition job_fits :: "purge_job \<Rightarrow> bool" where
  "job_fits j \<longleftrightarrow> in_int64 (pj_MessageType j) \<and> in_int64 (pj_Status j) \<and> in_int64 (pj_CreatedAt j) \<and> in_int64 (pj_UpdatedAt j) \<and>
     in_int64 (pj_StartedAt j) \<and> in_int64 (pj_CompletedAt j) \<and> in_int64 (pj_BatchSize j) \<and> in_int64 (pj_DelayMs j) \<and>
     pred_option in_int64 (pj_Meta j) \<and> pred_option valid_params (pj_Queue j) \<and> is_ascii (pj_ID j) \<and> is_ascii (pj_Error j)"

lemma purge_job_roundtrip:
  assumes "job_fits j"
  shows "purge_job_of_json (purge_job_json j) = Some j"
proof -
  obtain kvs where kvs: "purge_job_json j = JObj kvs" by (simp add: purge_job_json_def)
  have f: "obj_field kvs ''id'' = Some (JStr (pj_ID j))" "obj_field kvs ''status'' = Some (JNum (pj_Status j))"
    "obj_field kvs ''createdAt'' = Some (JNum (pj_CreatedAt j))"
    "obj_field kvs ''payload'' = Some (JObj [(''queue'', opt_json Params_MarshalJSON (pj_Queue j)), (''messageType'', JNum (pj_MessageType j))])"
    "obj_field kvs ''updatedAt'' = (if pj_UpdatedAt j = 0 then None else Some (JNum (pj_UpdatedAt j)))"
    "obj_field kvs ''startedAt'' = (if pj_StartedAt j = 0 then None else Some (JNum (pj_StartedAt j)))"
    "obj_field kvs ''completedAt'' = (if pj_CompletedAt j = 0 then None else Some (JNum (pj_CompletedAt j)))"
    "obj_field kvs ''batchSize'' = (if pj_BatchSize j = 0 then None else Some (JNum (pj_BatchSize j)))"
    "obj_field kvs ''delay'' = (if pj_DelayMs j = 0 then None else Some (JNum (pj_DelayMs j)))"
    "obj_field kvs ''error'' = (if pj_Error j = [] then None else Some (JStr (pj_Error j)))"
    "obj_field kvs ''meta'' = (if pj_Meta j = None then None else Some (opt_json (\<lambda>n. JObj [(''purged'', JNum n)]) (pj_Meta j)))"
    using kvs by (auto simp: purge_job_json_def obj_field_simps)
  have num: "un_int 0 (if n = 0 then None else Some (JNum n)) = Some n" if "in_int64 n" for n
    using that by (simp add: un_int_def)
  have str: "un_str [] (if s = [] then None else Some (JStr s)) = Some s" for s by (simp add: un_str_def)
  have q: "un_custom Params_UnmarshalJSON (Some (opt_json Params_MarshalJSON (pj_Queue j))) = Some (pj_Queue j)"
    using Params_roundtrip by (cases "pj_Queue j") (auto simp: un_custom_def opt_json_def Params_MarshalJSON_def)
  have meta: "un_ptr un_meta (if pj_Meta j = None then None else Some (opt_json (\<lambda>n. JObj [(''purged'', JNum n)]) (pj_Meta j))) = Some (pj_Meta j)"
    using assms by (cases "pj_Meta j")
      (simp_all add: job_fits_def un_ptr_def opt_json_def un_meta_def un_map_def obj_field_simps un_int_def)
  show ?thesis
    using assms q meta unfolding purge_job_of_json_def kvs un_struct_def
    by (simp add: un_map_def f num str job_fits_def obj_field_simps un_int_def un_str_def)
qed

lemma purge_job_parse:
  assumes "job_fits j"
  shows "Option.bind (parse_json (mustMarshal j)) purge_job_of_json = Some j"
proof -
  have "json_ascii (purge_job_json j)" using assms
    by (cases "pj_Queue j"; cases "pj_Meta j")
      (simp_all add: job_fits_def purge_job_json_def omit_empty_def opt_json_def Params_json_ascii is_ascii_def)
  then show ?thesis using purge_job_roundtrip [OF assms] by (simp add: mustMarshal_def parse_json_text)
qed

subsection \<open>Jobs under all clients\<close>

text \<open>What the keys of the jobs hold: the texts, the ids that wait, the ids that are active, and the
  workers of jobs.\<close>

record jobs =
  jb_data :: "(string, string) fmap"
  jb_pend :: "string list"
  jb_act :: "string list"
  jb_wrk :: "string \<Rightarrow> string option"

definition jobs_view :: "db \<Rightarrow> jobs \<Rightarrow> bool" where
  "jobs_view d J \<longleftrightarrow> get_hash d System_PurgeJobs = Inr (jb_data J) \<and> get_list d System_PendingPurgeJobs = Inr (jb_pend J) \<and>
     get_list d System_ActivePurgeJobs = Inr (jb_act J) \<and> (\<forall>i. get_str d (System_JobWorker i) = Inr (jb_wrk J i))"

definition job_status :: "jobs \<Rightarrow> string \<Rightarrow> string option" where
  "job_status J i = (case fmlookup (jb_data J) i of None \<Rightarrow> None | Some data \<Rightarrow> find_status data)"

text \<open>The calls of the store, the move of a waiting id to the active ones, and the recording of progress.\<close>

datatype job_op = Call job_call | Acquire | SaveProgress purge_job

definition invoke_job :: "(string fset \<Rightarrow> string list) \<Rightarrow> job_op \<Rightarrow> (db, redis_error, reply) io" where
  "invoke_job en op =
     (case op of
        Call c \<Rightarrow> (case job_script_call c of (i, ks, as, _) \<Rightarrow> job_scripts (\<lambda>_ _ _ _. ret RNil) i (redis_apply en) ks as)
      | Acquire \<Rightarrow> redis_apply en (RPOPLPUSH System_PendingPurgeJobs System_ActivePurgeJobs)
      | SaveProgress job \<Rightarrow> redis_apply en (HSET System_PurgeJobs [(pj_ID job, mustMarshal job)]))"

definition unlink_job :: "string \<Rightarrow> jobs \<Rightarrow> jobs" where
  "unlink_job i J = J\<lparr>jb_act := filter (\<lambda>j. j \<noteq> i) (jb_act J), jb_wrk := (jb_wrk J)(i := None)\<rparr>"

definition put_job :: "string \<Rightarrow> purge_job \<Rightarrow> jobs \<Rightarrow> jobs" where
  "put_job i job J = J\<lparr>jb_data := fmupd i (mustMarshal job) (jb_data J)\<rparr>"

definition finished :: "string \<Rightarrow> bool" where
  "finished st \<longleftrightarrow> st \<in> {itoa PurgeJobCompleted, itoa PurgeJobFailed, itoa PurgeJobCanceled}"

definition finish_job :: "string \<Rightarrow> purge_job \<Rightarrow> jobs \<Rightarrow> jobs" where
  "finish_job i job J =
     (case job_status J i of
        None \<Rightarrow> J
      | Some st \<Rightarrow>
          if finished st then unlink_job i J
          else if st = itoa PurgeJobProcessing then unlink_job i (put_job i job J) else J)"

definition run_job :: "job_op \<Rightarrow> jobs \<Rightarrow> jobs" where
  "run_job op J =
     (case op of
        Call (JobCreate job) \<Rightarrow>
          (if pj_ID job |\<in>| fmdom (jb_data J) then J
           else (put_job (pj_ID job) job J)\<lparr>jb_pend := pj_ID job # jb_pend J\<rparr>)
      | Call (JobStart i w job) \<Rightarrow>
          (if job_status J i = Some (itoa PurgeJobPending) \<and> i \<in> set (jb_act J)
           then (put_job i job J)\<lparr>jb_act := filter (\<lambda>j. j \<noteq> i) (jb_act J) @ [i], jb_wrk := (jb_wrk J)(i \<mapsto> w)\<rparr> else J)
      | Call (JobComplete i job) \<Rightarrow> finish_job i job J
      | Call (JobFail i job) \<Rightarrow> finish_job i job J
      | Call (JobCancel i job) \<Rightarrow>
          (case job_status J i of
             None \<Rightarrow> J
           | Some st \<Rightarrow>
               (let J' = unlink_job i (J\<lparr>jb_pend := filter (\<lambda>j. j \<noteq> i) (jb_pend J)\<rparr>) in
                if finished st then J'
                else if st = itoa PurgeJobPending \<or> st = itoa PurgeJobProcessing then put_job i job J' else J))
      | Call (JobRecover i job) \<Rightarrow>
          (if job_status J i = Some (itoa PurgeJobProcessing)
           then unlink_job i ((put_job i job J)\<lparr>jb_pend := i # jb_pend J\<rparr>)
           else if pred_option finished (job_status J i) \<and> job_status J i \<noteq> None then unlink_job i J else J)
      | Acquire \<Rightarrow>
          (if jb_pend J = [] then J
           else J\<lparr>jb_pend := butlast (jb_pend J), jb_act := last (jb_pend J) # jb_act J\<rparr>)
      | SaveProgress job \<Rightarrow> put_job (pj_ID job) job J)"

subsection \<open>The scripts do what the model of the jobs says\<close>

lemma job_keys_neq [simp]:
  "System_PurgeJobs \<noteq> System_PendingPurgeJobs" "System_PurgeJobs \<noteq> System_ActivePurgeJobs"
  "System_PendingPurgeJobs \<noteq> System_PurgeJobs" "System_PendingPurgeJobs \<noteq> System_ActivePurgeJobs"
  "System_ActivePurgeJobs \<noteq> System_PurgeJobs" "System_ActivePurgeJobs \<noteq> System_PendingPurgeJobs"
  "System_PurgeJobs \<noteq> System_JobWorker i" "System_PendingPurgeJobs \<noteq> System_JobWorker i" "System_ActivePurgeJobs \<noteq> System_JobWorker i"
  "System_JobWorker i \<noteq> System_PurgeJobs" "System_JobWorker i \<noteq> System_PendingPurgeJobs" "System_JobWorker i \<noteq> System_ActivePurgeJobs"
  "System_JobWorker i = System_JobWorker j \<longleftrightarrow> i = j"
  by (auto simp: key_defs Key_eq_iff)

lemma get_str_simps [simp]:
  "get_str (put_hash k h d) k' = (if k' = k then (if fmdom h = {||} then Inr None else Inl WrongType) else get_str d k')"
  "get_str (put_list k xs d) k' = (if k' = k then (if xs = [] then Inr None else Inl WrongType) else get_str d k')"
  "get_str (del_keys ks d) k' = (if k' \<in> set ks then Inr None else get_str d k')"
  "get_str (d(k \<mapsto> RStr v)) k' = (if k' = k then Inr (Some v) else get_str d k')"
  "k' \<noteq> k \<Longrightarrow> get_hash (d(k \<mapsto> x)) k' = get_hash d k'" "k' \<noteq> k \<Longrightarrow> get_list (d(k \<mapsto> x)) k' = get_list d k'"
  by (auto simp: get_str_def get_hash_def get_list_def del_keys_def)

lemma jobs_view_put:
  assumes "jobs_view d J"
  shows "jobs_view (put_hash System_PurgeJobs h d) (J\<lparr>jb_data := h\<rparr>)"
    "jobs_view (put_list System_PendingPurgeJobs xs d) (J\<lparr>jb_pend := xs\<rparr>)"
    "jobs_view (put_list System_ActivePurgeJobs xs d) (J\<lparr>jb_act := xs\<rparr>)"
    "jobs_view (d(System_JobWorker i \<mapsto> RStr w)) (J\<lparr>jb_wrk := (jb_wrk J)(i \<mapsto> w)\<rparr>)"
    "jobs_view (del_keys [System_JobWorker i] d) (J\<lparr>jb_wrk := (jb_wrk J)(i := None)\<rparr>)"
  using assms by (simp_all add: jobs_view_def)

lemma lua_job_run:
  "get_list d k = Inr xs \<Longrightarrow>
     lua_do (redis_apply en) (LREM k 0 v # cs) d = lua_do (redis_apply en) cs (put_list k (filter (\<lambda>y. y \<noteq> v) xs) d)"
  "get_list d k = Inr xs \<Longrightarrow>
     lua_do (redis_apply en) (RPUSH k [v] # cs) d = lua_do (redis_apply en) cs (put_list k (xs @ [v]) d)"
  "lua_do (redis_apply en) (SET k v # cs) d = lua_do (redis_apply en) cs (d(k \<mapsto> RStr v))"
  "get_list d k = Inr xs \<Longrightarrow>
     lua_int (redis_apply en) (LREM k 0 v) d =
       (Inr (int (length xs) - int (length (filter (\<lambda>y. y \<noteq> v) xs))), put_list k (filter (\<lambda>y. y \<noteq> v) xs) d)"
  "get_hash d k = Inr h \<Longrightarrow> lua_int (redis_apply en) (HEXISTS k f) d = (Inr (if f |\<in>| fmdom h then 1 else 0), d)"
  "get_hash d k = Inr h \<Longrightarrow>
     lua_job_status (redis_apply en) k f d = (Inr (case fmlookup h f of None \<Rightarrow> None | Some data \<Rightarrow> find_status data), d)"
  by (simp_all add: lua_do.simps redis_apply.simps and_then_def modify_ok lua_int_def list_rem_def bool_reply_def
      lua_job_status_def lua_hget_def opt_reply_cases)

lemmas job_run_defs = invoke_job_def job_script_call_def job_scripts_def finish_args_def and_then_def Let_def lua_simps
  lua_job_run unlink_job_def put_job_def finished_def finish_job_def run_job_def job_status_def hset_all_def

lemma invoke_create:
  "jobs_view d J \<Longrightarrow> \<exists>x d'. invoke_job en (Call (JobCreate job)) d = (Inr x, d') \<and> jobs_view d' (run_job (Call (JobCreate job)) J)"
  by (simp add: job_run_defs lua_create_job_def jobs_view_def)

lemma filter_neq_length: "length (filter (\<lambda>y. y \<noteq> v) xs) = length xs \<longleftrightarrow> v \<notin> set xs"
  by (induction xs) (auto, metis Suc_n_not_le_n length_filter_le)

lemma invoke_start:
  assumes "jobs_view d J"
  shows "\<exists>x d'. invoke_job en (Call (JobStart i w job)) d = (Inr x, d') \<and> jobs_view d' (run_job (Call (JobStart i w job)) J)"
proof (cases "job_status J i")
  case None
  then show ?thesis using assms by (simp add: job_run_defs lua_start_job_def jobs_view_def)
next
  case (Some st)
  have "filter (\<lambda>y. y \<noteq> i) (jb_act J) = jb_act J" if "i \<notin> set (jb_act J)"
    using that by (auto intro: filter_True)
  with Some show ?thesis using assms filter_neq_length [of i "jb_act J"]
    by (auto simp: job_run_defs lua_start_job_def jobs_view_def enum_defs)
qed

lemma invoke_finish:
  assumes "jobs_view d J"
  shows "\<exists>x d'. invoke_job en (Call (JobComplete i job)) d = (Inr x, d') \<and> jobs_view d' (finish_job i job J)"
    "\<exists>x d'. invoke_job en (Call (JobFail i job)) d = (Inr x, d') \<and> jobs_view d' (finish_job i job J)"
  using assms by (cases "job_status J i"; simp add: job_run_defs lua_complete_job_def lua_fail_job_def jobs_view_def enum_defs)+

lemma invoke_cancel:
  assumes "jobs_view d J"
  shows "\<exists>x d'. invoke_job en (Call (JobCancel i job)) d = (Inr x, d') \<and> jobs_view d' (run_job (Call (JobCancel i job)) J)"
  using assms by (cases "job_status J i"; simp add: job_run_defs lua_cancel_job_def jobs_view_def enum_defs)

lemma invoke_recover:
  assumes "jobs_view d J"
  shows "\<exists>x d'. invoke_job en (Call (JobRecover i job)) d = (Inr x, d') \<and> jobs_view d' (run_job (Call (JobRecover i job)) J)"
  using assms by (cases "job_status J i"; simp add: job_run_defs lua_recover_job_def jobs_view_def enum_defs)

lemma job_rpoplpush_run:
  assumes "get_list d src = Inr (ys @ [y])" and "get_list d dst = Inr zs" and "src \<noteq> dst"
  shows "rpoplpush src dst d = (Inr (RBulk y), put_list dst (y # zs) (put_list src ys d))"
  using assms by (cases ys) (simp_all add: rpoplpush_def Let_def butlast_append)

lemma rpoplpush_empty: "get_list d src = Inr [] \<Longrightarrow> rpoplpush src dst d = (Inr RNil, d)"
  by (simp add: rpoplpush_def)

lemma invoke_job_run:
  assumes "jobs_view d J"
  shows "\<exists>x d'. invoke_job en op d = (Inr x, d') \<and> jobs_view d' (run_job op J)"
proof (cases op)
  case (Call c)
  then show ?thesis
    using invoke_create invoke_start invoke_finish invoke_cancel invoke_recover assms
    by (cases c) (simp_all add: run_job_def)
next
  case Acquire
  then show ?thesis using assms
    by (cases "jb_pend J" rule: rev_cases)
      (simp_all add: invoke_job_def run_job_def redis_apply.simps job_rpoplpush_run rpoplpush_empty jobs_view_def)
next
  case (SaveProgress job)
  then show ?thesis using assms
    by (simp add: invoke_job_def run_job_def put_job_def redis_apply.simps modify_ok jobs_view_def hset_all_def)
qed

subsection \<open>The life of a job\<close>

definition job_placed :: "jobs \<Rightarrow> string \<Rightarrow> bool" where
  "job_placed J i \<longleftrightarrow>
     (let st = job_status J i; P = itoa PurgeJobPending; R = itoa PurgeJobProcessing in
      (i |\<in>| fmdom (jb_data J) \<longleftrightarrow> st \<noteq> None) \<and> (st \<noteq> None \<longrightarrow> the st \<in> itoa ` set purge_job_statuses) \<and>
      (i \<in> set (jb_pend J) \<longrightarrow> st = Some P) \<and> (i \<in> set (jb_act J) \<longrightarrow> st = Some P \<or> st = Some R) \<and>
      (st = Some P \<longrightarrow> i \<in> set (jb_pend J) \<union> set (jb_act J)) \<and> (st = Some R \<longrightarrow> i \<in> set (jb_act J)) \<and>
      (jb_wrk J i \<noteq> None \<longleftrightarrow> st = Some R))"

definition jobs_ok :: "jobs \<Rightarrow> bool" where
  "jobs_ok J \<longleftrightarrow> distinct (jb_pend J @ jb_act J) \<and> (\<forall>i. job_placed J i)"

text \<open>What the callers see to: the text that they pass has the status that the operation leads to. Progress is
  recorded for a job that is being processed.\<close>

definition job_allowed :: "jobs \<Rightarrow> job_op \<Rightarrow> bool" where
  "job_allowed J op \<longleftrightarrow>
     (case op of
        Call (JobCreate job) \<Rightarrow> pj_Status job = PurgeJobPending
      | Call (JobStart i w job) \<Rightarrow> pj_Status job = PurgeJobProcessing
      | Call (JobComplete i job) \<Rightarrow> pj_Status job = PurgeJobCompleted
      | Call (JobFail i job) \<Rightarrow> pj_Status job = PurgeJobFailed
      | Call (JobCancel i job) \<Rightarrow> pj_Status job = PurgeJobCanceled
      | Call (JobRecover i job) \<Rightarrow> pj_Status job = PurgeJobPending
      | Acquire \<Rightarrow> True
      | SaveProgress job \<Rightarrow> pj_Status job = PurgeJobProcessing \<and> job_status J (pj_ID job) = Some (itoa PurgeJobProcessing))"

definition job_moves :: "(string option \<times> string option) set" where
  "job_moves = Id \<union> (\<lambda>(s, t). (s, Some (itoa t))) `
     {(None, PurgeJobPending),
      (Some (itoa PurgeJobPending), PurgeJobProcessing), (Some (itoa PurgeJobPending), PurgeJobCanceled),
      (Some (itoa PurgeJobProcessing), PurgeJobCompleted), (Some (itoa PurgeJobProcessing), PurgeJobFailed),
      (Some (itoa PurgeJobProcessing), PurgeJobCanceled), (Some (itoa PurgeJobProcessing), PurgeJobPending)}"

inductive jobs_reach :: "db \<Rightarrow> jobs \<Rightarrow> bool" where
  none: "jobs_view d J \<Longrightarrow> jb_data J = fmempty \<Longrightarrow> jb_pend J = [] \<Longrightarrow> jb_act J = [] \<Longrightarrow> (\<forall>i. jb_wrk J i = None) \<Longrightarrow> jobs_reach d J"
| step: "jobs_reach d J \<Longrightarrow> job_allowed J op \<Longrightarrow> invoke_job en op d = (r, d') \<Longrightarrow> jobs_reach d' (run_job op J)"
| other: "jobs_reach d J \<Longrightarrow> jobs_view d' J \<Longrightarrow> jobs_reach d' J"

lemma job_status_put:
  "0 \<le> pj_Status job \<Longrightarrow> pj_Status job < 10 \<Longrightarrow>
     job_status (put_job i job J) j = (if j = i then Some (itoa (pj_Status job)) else job_status J j)"
  by (simp add: job_status_def put_job_def status_of_job)

lemma job_status_frame [simp]:
  "job_status (J\<lparr>jb_pend := xs\<rparr>) = job_status J" "job_status (J\<lparr>jb_act := xs\<rparr>) = job_status J"
  "job_status (J\<lparr>jb_wrk := f\<rparr>) = job_status J" "job_status (unlink_job i J) = job_status J"
  by (simp_all add: job_status_def unlink_job_def fun_eq_iff)

lemma jobs_ok_D:
  assumes "jobs_ok J"
  shows "i |\<in>| fmdom (jb_data J) \<longleftrightarrow> job_status J i \<noteq> None" "i \<in> set (jb_pend J) \<Longrightarrow> job_status J i = Some (itoa PurgeJobPending)"
    "i \<in> set (jb_act J) \<Longrightarrow> job_status J i = Some (itoa PurgeJobPending) \<or> job_status J i = Some (itoa PurgeJobProcessing)"
    "jb_wrk J i \<noteq> None \<longleftrightarrow> job_status J i = Some (itoa PurgeJobProcessing)"
    "job_status J i = Some (itoa PurgeJobPending) \<Longrightarrow> i \<in> set (jb_pend J) \<union> set (jb_act J)"
    "job_status J i = Some (itoa PurgeJobProcessing) \<Longrightarrow> i \<in> set (jb_act J)"
    "job_status J i = Some st \<Longrightarrow> st \<in> {itoa PurgeJobPending, itoa PurgeJobProcessing} \<or> finished st"
  using assms unfolding jobs_ok_def job_placed_def Let_def
  by (fastforce simp: purge_job_statuses_def finished_def)+

lemma jobs_ok_distinct:
  "jobs_ok J \<Longrightarrow> distinct (jb_pend J)" "jobs_ok J \<Longrightarrow> distinct (jb_act J)" "jobs_ok J \<Longrightarrow> set (jb_pend J) \<inter> set (jb_act J) = {}"
  by (simp_all add: jobs_ok_def)

lemma job_placedI:
  "job_status J i = Some (itoa PurgeJobPending) \<Longrightarrow> i |\<in>| fmdom (jb_data J) \<Longrightarrow> i \<in> set (jb_pend J) \<union> set (jb_act J) \<Longrightarrow>
     jb_wrk J i = None \<Longrightarrow> job_placed J i"
  "job_status J i = Some (itoa PurgeJobProcessing) \<Longrightarrow> i |\<in>| fmdom (jb_data J) \<Longrightarrow> i \<notin> set (jb_pend J) \<Longrightarrow> i \<in> set (jb_act J) \<Longrightarrow>
     jb_wrk J i \<noteq> None \<Longrightarrow> job_placed J i"
  "job_status J i = Some st \<Longrightarrow> finished st \<Longrightarrow> i |\<in>| fmdom (jb_data J) \<Longrightarrow> i \<notin> set (jb_pend J) \<Longrightarrow> i \<notin> set (jb_act J) \<Longrightarrow>
     jb_wrk J i = None \<Longrightarrow> job_placed J i"
  by (auto simp: job_placed_def Let_def purge_job_statuses_def finished_def enum_defs)

text \<open>An operation on the job \<open>j\<close> leaves the others alone.\<close>

lemma jobs_ok_update:
  assumes "jobs_ok J" and "distinct (jb_pend J' @ jb_act J')" and "job_placed J' j"
    and "\<And>i. i \<noteq> j \<Longrightarrow> fmlookup (jb_data J') i = fmlookup (jb_data J) i \<and> (i \<in> set (jb_pend J') \<longleftrightarrow> i \<in> set (jb_pend J)) \<and>
      (i \<in> set (jb_act J') \<longleftrightarrow> i \<in> set (jb_act J)) \<and> jb_wrk J' i = jb_wrk J i"
  shows "jobs_ok J'"
proof -
  have "job_placed J' i" for i
  proof (cases "i = j")
    case False
    note same = assms(4) [OF False]
    then have "job_status J' i = job_status J i" "i |\<in>| fmdom (jb_data J') \<longleftrightarrow> i |\<in>| fmdom (jb_data J)"
      by (simp_all add: job_status_def fmlookup_dom_iff)
    moreover have "job_placed J i" using assms(1) by (simp add: jobs_ok_def)
    ultimately show ?thesis using same by (simp add: job_placed_def)
  qed (use assms in simp)
  with assms(2) show ?thesis by (simp add: jobs_ok_def)
qed

lemma jobs_ok_create:
  assumes ok: "jobs_ok J" and st: "pj_Status job = PurgeJobPending"
  shows "jobs_ok (run_job (Call (JobCreate job)) J)"
proof (cases "pj_ID job |\<in>| fmdom (jb_data J)")
  case False
  note D = jobs_ok_D [OF ok, of "pj_ID job"]
  have "pj_ID job \<notin> set (jb_pend J)" "pj_ID job \<notin> set (jb_act J)" "jb_wrk J (pj_ID job) = None" using D(1-4) False by auto
  then show ?thesis using jobs_ok_distinct [OF ok] False st
    by (intro jobs_ok_update [OF ok, where j = "pj_ID job"] job_placedI(1))
      (auto simp: run_job_def job_status_put enum_defs, auto simp: put_job_def)
qed (use ok in \<open>simp add: run_job_def\<close>)

lemma jobs_ok_start:
  assumes ok: "jobs_ok J" and st: "pj_Status job = PurgeJobProcessing"
  shows "jobs_ok (run_job (Call (JobStart j w job)) J)"
proof (cases "job_status J j = Some (itoa PurgeJobPending) \<and> j \<in> set (jb_act J)")
  case True
  note D = jobs_ok_D [OF ok, of j]
  show ?thesis using jobs_ok_distinct [OF ok] True st
    by (intro jobs_ok_update [OF ok, where j = j] job_placedI(2))
      (auto simp: run_job_def job_status_put enum_defs, auto simp: put_job_def)
qed (use ok in \<open>auto simp: run_job_def\<close>)

text \<open>A finished job is in no list; taking it out of them changes nothing.\<close>

lemma unlink_finished:
  assumes ok: "jobs_ok J" and "job_status J j = Some st" and "finished st"
  shows "unlink_job j J = J" "filter (\<lambda>i. i \<noteq> j) (jb_pend J) = jb_pend J"
proof -
  have ne: "st \<noteq> itoa PurgeJobPending" "st \<noteq> itoa PurgeJobProcessing" using assms(3) by (auto simp: finished_def enum_defs)
  then have "j \<notin> set (jb_act J)" "j \<notin> set (jb_pend J)" "jb_wrk J j = None"
    using jobs_ok_D(2-4) [OF ok, of j] assms(2) by auto
  then have "filter (\<lambda>i. i \<noteq> j) (jb_act J) = jb_act J" "(jb_wrk J)(j := None) = jb_wrk J" by (auto intro: filter_True)
  then show "unlink_job j J = J" by (simp add: unlink_job_def)
  show "filter (\<lambda>i. i \<noteq> j) (jb_pend J) = jb_pend J" using \<open>j \<notin> set (jb_pend J)\<close> by (auto intro: filter_True)
qed

lemma jobs_ok_finish:
  assumes ok: "jobs_ok J" and fin: "finished (itoa (pj_Status job))" and st: "0 \<le> pj_Status job" "pj_Status job < 10"
  shows "jobs_ok (finish_job j job J)"
proof (cases "job_status J j = Some (itoa PurgeJobProcessing)")
  case True
  then have "\<not> finished (itoa PurgeJobProcessing)" "j \<notin> set (jb_pend J)"
    using jobs_ok_D(2) [OF ok, of j] by (auto simp: finished_def enum_defs)
  moreover have "jobs_ok (unlink_job j (put_job j job J))"
    using jobs_ok_distinct [OF ok] \<open>j \<notin> set (jb_pend J)\<close> fin st
    by (intro jobs_ok_update [OF ok, where j = j] job_placedI(3))
      (simp_all add: job_status_put, auto simp: put_job_def unlink_job_def)
  ultimately show ?thesis using True by (simp add: finish_job_def)
qed (use ok unlink_finished [OF ok, of j] in \<open>auto simp: finish_job_def split: option.split\<close>)

lemma jobs_ok_cancel:
  assumes ok: "jobs_ok J" and st: "pj_Status job = PurgeJobCanceled"
  shows "jobs_ok (run_job (Call (JobCancel j job)) J)"
proof (cases "\<exists>s. job_status J j = Some s \<and> \<not> finished s")
  case True
  then obtain s where s: "job_status J j = Some s" "\<not> finished s" by blast
  let ?J = "put_job j job (unlink_job j (J\<lparr>jb_pend := filter (\<lambda>i. i \<noteq> j) (jb_pend J)\<rparr>))"
  have "jobs_ok ?J"
    using jobs_ok_distinct [OF ok] st
    by (intro jobs_ok_update [OF ok, where j = j] job_placedI(3) [of _ _ "itoa PurgeJobCanceled"])
      (simp_all add: job_status_put enum_defs finished_def, auto simp: put_job_def unlink_job_def)
  then show ?thesis using s jobs_ok_D(7) [OF ok s(1)] by (auto simp: run_job_def Let_def)
next
  case False
  then show ?thesis using ok unlink_finished [OF ok, of j] by (auto simp: run_job_def Let_def split: option.split)
qed

lemma jobs_ok_recover:
  assumes ok: "jobs_ok J" and st: "pj_Status job = PurgeJobPending"
  shows "jobs_ok (run_job (Call (JobRecover j job)) J)"
proof (cases "job_status J j = Some (itoa PurgeJobProcessing)")
  case True
  then have "j \<notin> set (jb_pend J)" using jobs_ok_D(2) [OF ok, of j] by (auto simp: enum_defs)
  then have "jobs_ok (unlink_job j ((put_job j job J)\<lparr>jb_pend := j # jb_pend J\<rparr>))"
    using jobs_ok_distinct [OF ok] st
    by (intro jobs_ok_update [OF ok, where j = j] job_placedI(1))
      (simp_all add: job_status_put enum_defs, auto simp: put_job_def unlink_job_def)
  then show ?thesis using True by (simp add: run_job_def)
qed (use ok unlink_finished [OF ok, of j] in \<open>auto simp: run_job_def\<close>)

lemma jobs_ok_acquire:
  assumes ok: "jobs_ok J"
  shows "jobs_ok (run_job Acquire J)"
proof (cases "jb_pend J" rule: rev_cases)
  case (snoc ys y)
  then have "job_status J y = Some (itoa PurgeJobPending)" using jobs_ok_D(2) [OF ok, of y] by simp
  then have "jobs_ok (J\<lparr>jb_pend := ys, jb_act := y # jb_act J\<rparr>)"
    using jobs_ok_distinct [OF ok] snoc jobs_ok_D(1,4) [OF ok, of y]
    by (intro jobs_ok_update [OF ok, where j = y] job_placedI(1)) (auto simp: enum_defs)
  then show ?thesis using snoc by (simp add: run_job_def)
qed (use ok in \<open>simp add: run_job_def\<close>)

lemma jobs_ok_save:
  assumes ok: "jobs_ok J" and st: "pj_Status job = PurgeJobProcessing" "job_status J (pj_ID job) = Some (itoa PurgeJobProcessing)"
  shows "jobs_ok (run_job (SaveProgress job) J)"
proof -
  have "pj_ID job \<notin> set (jb_pend J)" "pj_ID job \<in> set (jb_act J)" "jb_wrk J (pj_ID job) \<noteq> None"
    using jobs_ok_D(2,4,6) [OF ok, of "pj_ID job"] st(2) by (auto simp: enum_defs)
  then have "jobs_ok (put_job (pj_ID job) job J)"
    using jobs_ok_distinct [OF ok] st
    by (intro jobs_ok_update [OF ok, where j = "pj_ID job"] job_placedI(2)) (simp_all add: job_status_put enum_defs, auto simp: put_job_def)
  then show ?thesis by (simp add: run_job_def)
qed

lemma jobs_ok_run: "jobs_ok J \<Longrightarrow> job_allowed J op \<Longrightarrow> jobs_ok (run_job op J)"
  by (cases op)
    (auto simp: job_allowed_def jobs_ok_create jobs_ok_start jobs_ok_cancel jobs_ok_recover jobs_ok_acquire jobs_ok_save
      run_job_def [of "Call (JobComplete _ _)"] run_job_def [of "Call (JobFail _ _)"] jobs_ok_finish finished_def enum_defs
      split: job_call.splits)

lemma job_moves_run:
  assumes ok: "jobs_ok J" and al: "job_allowed J op"
  shows "(job_status J i, job_status (run_job op J) i) \<in> job_moves"
proof (cases op)
  case (Call c)
  have new: "job_status J j = None" if "j |\<notin>| fmdom (jb_data J)" for j
    using jobs_ok_D(1) [OF ok] that by simp
  show ?thesis
    using al Call
    by (cases c) (auto simp: new job_allowed_def run_job_def finish_job_def job_moves_def job_status_put enum_defs Let_def split: option.split)
next
  case (SaveProgress job)
  then show ?thesis using al by (simp add: job_allowed_def run_job_def job_moves_def job_status_put enum_defs)
qed (simp add: run_job_def job_moves_def)

lemma jobs_reach_ok: "jobs_reach d J \<Longrightarrow> jobs_view d J \<and> jobs_ok J"
proof (induction rule: jobs_reach.induct)
  case (none d J)
  then show ?case by (simp add: jobs_ok_def job_placed_def job_status_def Let_def)
next
  case (step d J op en r d')
  then show ?case using invoke_job_run [of d J en op] jobs_ok_run by auto
qed simp

text \<open>C8: The life of a purge job, whatever clients run whatever scripts on whatever jobs in whatever order. No
  script fails. A job that is pending is in exactly one of the two lists, one that is being processed is
  in the list of active jobs and is linked to a worker, one that is completed, failed or cancelled
  is in no list and linked to no worker, and no id is in the lists twice. Every step moves a
  job along the graph of the statuses, so a job that is completed, failed or cancelled stays so.\<close>

theorem job_lifecycle:
  assumes "jobs_reach d J" and "job_allowed J op" and "invoke_job en op d = (r, d')"
  shows "(\<exists>x. r = Inr x) \<and> jobs_view d' (run_job op J) \<and> jobs_ok (run_job op J) \<and>
    (\<forall>i. (job_status J i, job_status (run_job op J) i) \<in> job_moves)"
proof -
  have "jobs_view d J" "jobs_ok J" using jobs_reach_ok [OF assms(1)] by simp_all
  then show ?thesis using invoke_job_run [of d J en op] jobs_ok_run [of J op] job_moves_run [of J op] assms(2,3) by auto
qed

definition sample_job :: purge_job where
  "sample_job = \<lparr>pj_ID = ''j1'', pj_Queue = Some \<lparr>qp_name = ''q'', qp_ns = ''ns''\<rparr>, pj_MessageType = 3, pj_Status = PurgeJobPending,
     pj_CreatedAt = 1, pj_UpdatedAt = 0, pj_StartedAt = 0, pj_CompletedAt = 0, pj_BatchSize = 1, pj_DelayMs = 5000, pj_Error = [],
     pj_Meta = Some 0\<rparr>"

theorem job_lifecycle_witness:
  "\<exists>J d'. jobs_reach (\<lambda>_. None) J \<and> job_allowed J (Call (JobCreate sample_job)) \<and>
     invoke_job mem_enum (Call (JobCreate sample_job)) (\<lambda>_. None) = (Inr (RInt 1), d') \<and> jobs_ok (run_job (Call (JobCreate sample_job)) J) \<and>
     job_status (run_job (Call (JobCreate sample_job)) J) ''j1'' = Some ''0''"
proof -
  let ?J = "\<lparr>jb_data = fmempty, jb_pend = [], jb_act = [], jb_wrk = (\<lambda>_. None)\<rparr>" and ?op = "Call (JobCreate sample_job)"
  have reach: "jobs_reach (\<lambda>_. None) ?J" by (rule jobs_reach.none) (simp_all add: jobs_view_def)
  have al: "job_allowed ?J ?op" by (simp add: job_allowed_def sample_job_def)
  obtain d' where run: "invoke_job mem_enum ?op (\<lambda>_. None) = (Inr (RInt 1), d')"
    by (simp add: job_run_defs lua_create_job_def)
  have "job_status (run_job ?op ?J) ''j1'' = Some (itoa 0)"
    using status_of_job [of sample_job] by (simp add: run_job_def job_status_def put_job_def sample_job_def enum_defs)
  moreover have "itoa 0 = ''0''" by code_simp
  ultimately show ?thesis using job_lifecycle [OF reach al run] reach al run by auto
qed

end
