(* ===== verification/Event_Bus.thy ===== *)
theory Event_Bus
  imports Redis_Client Queue_Types
begin

text \<open>
  Events: the Redis pub/sub bus of \<open>internal/eventbus/bus.go\<close> (life cycle, subscriptions, dispatch,
  publication), the routing of \<open>internal/eventmultiplexer\<close> and the queue events of
  \<open>internal/queue/events/publish.go\<close>. The two bus instances of a process (\<open>system_bus.go\<close>,
  \<open>user_bus.go\<close>) are fields of \<open>smq_env\<close>, the environment that every operation of the program
  takes. Handlers are represented by their ids; goroutines, locks and logging are not modelled.
\<close>

subsection \<open>The bus\<close>

record event_bus =
  eb_namespace :: string
  eb_handlers :: "(string, nat list) fmap"
  eb_started :: bool
  eb_closed :: bool

definition NewEventBus :: "string \<Rightarrow> event_bus" where
  "NewEventBus ns = \<lparr>eb_namespace = ns, eb_handlers = fmempty, eb_started = False, eb_closed = False\<rparr>"

definition EventBus_Start :: "event_bus \<Rightarrow> event_bus" where
  "EventBus_Start eb = (if eb_started eb \<or> eb_closed eb then eb else eb\<lparr>eb_started := True\<rparr>)"

definition EventBus_IsRunning :: "event_bus \<Rightarrow> bool" where
  "EventBus_IsRunning eb \<longleftrightarrow> eb_started eb \<and> \<not> eb_closed eb"

definition EventBus_Shutdown :: "event_bus \<Rightarrow> event_bus" where
  "EventBus_Shutdown eb = (if eb_closed eb then eb else eb\<lparr>eb_closed := True, eb_started := False\<rparr>)"

definition channelName :: "event_bus \<Rightarrow> string \<Rightarrow> string" where
  "channelName eb eventName = ''redis-smq:events:'' @ eb_namespace eb @ '':'' @ eventName"

definition eventNameFromChannel :: "event_bus \<Rightarrow> string \<Rightarrow> string" where
  "eventNameFromChannel eb channel =
     (let prefix = ''redis-smq:events:'' @ eb_namespace eb @ '':'' in
      if take (length prefix) channel = prefix then drop (length prefix) channel else channel)"

definition EventBus_Publish :: "'s redis_server \<Rightarrow> event_bus \<Rightarrow> string \<Rightarrow> json list \<Rightarrow> ('s, go_error, unit) io" where
  "EventBus_Publish rd eb eventName args =
     (if eb_closed eb then throw (Errorf ''eventbus: closed'')
      else map_err (\<lambda>e. Wrapf (''eventbus: publish '' @ eventName) (RedisErr e))
             (publish rd (channelName eb eventName) (json_text (JArr args))))"

definition handlers_at :: "event_bus \<Rightarrow> string \<Rightarrow> nat list" where
  "handlers_at eb ch = (case fmlookup (eb_handlers eb) ch of None \<Rightarrow> [] | Some hs \<Rightarrow> hs)"

definition removeHandlerLocked :: "nat \<Rightarrow> string \<Rightarrow> event_bus \<Rightarrow> event_bus" where
  "removeHandlerLocked i ch eb =
     (let hs = remove1 i (handlers_at eb ch) in
      eb\<lparr>eb_handlers := if hs = [] then fmdrop ch (eb_handlers eb) else fmupd ch hs (eb_handlers eb)\<rparr>)"

definition add_handler :: "nat \<Rightarrow> string \<Rightarrow> event_bus \<Rightarrow> event_bus" where
  "add_handler i ch eb = eb\<lparr>eb_handlers := fmupd ch (handlers_at eb ch @ [i]) (eb_handlers eb)\<rparr>"

text \<open>\<open>i\<close> is the fresh handler id; \<open>subscribed\<close> is what the Redis subscription reports.\<close>

definition EventBus_Subscribe :: "go_error + unit \<Rightarrow> nat \<Rightarrow> string list \<Rightarrow> event_bus \<Rightarrow> (go_error + nat) \<times> event_bus" where
  "EventBus_Subscribe subscribed i eventNames eb =
     (if eb_closed eb then (Inl (Errorf ''eventbus: closed''), eb)
      else if eventNames = [] then (Inl (Errorf ''eventbus: at least one event name required''), eb)
      else
        let channels = map (channelName eb) eventNames;
            eb' = fold (add_handler i) channels eb in
        case subscribed of
          Inl err \<Rightarrow> (Inl err, fold (removeHandlerLocked i) channels eb')
        | Inr _ \<Rightarrow> (Inr i, eb'))"

definition removeSubscription :: "nat \<Rightarrow> string list \<Rightarrow> event_bus \<Rightarrow> event_bus" where
  "removeSubscription i channels eb = fold (removeHandlerLocked i) channels eb"

text \<open>The calls that a received message leads to: handler, event name and arguments.\<close>

definition EventBus_dispatch :: "event_bus \<Rightarrow> string \<Rightarrow> string \<Rightarrow> (nat \<times> string \<times> json list) list" where
  "EventBus_dispatch eb channel payload =
     (case parse_json payload of
        Some (JArr args) \<Rightarrow> map (\<lambda>h. (h, eventNameFromChannel eb channel, args)) (handlers_at eb channel)
      | Some JNull \<Rightarrow> map (\<lambda>h. (h, eventNameFromChannel eb channel, [])) (handlers_at eb channel)
      | _ \<Rightarrow> [])"

subsection \<open>The environment of a process\<close>

record 's smq_env =
  env_redis :: "'s redis_server"
  env_system :: event_bus
  env_user :: "event_bus option"

subsection \<open>The multiplexer\<close>

datatype Target = TargetSystem | TargetUser | TargetBoth

definition routingPolicies :: "string \<Rightarrow> Target option" where
  "routingPolicies = map_of
     [(''queue.queueCreated'', TargetBoth),
      (''queue.queueDeleted'', TargetBoth),
      (''queue.consumerGroupCreated'', TargetBoth),
      (''queue.consumerGroupDeleted'', TargetBoth),
      (''queue.stateChanged'', TargetBoth),
      (''configuration.updated'', TargetSystem)]"

definition publish_user :: "'s smq_env \<Rightarrow> string \<Rightarrow> json list \<Rightarrow> ('s, go_error, unit) io" where
  "publish_user env eventName args =
     (case env_user env of
        None \<Rightarrow> ret ()
      | Some userBus \<Rightarrow>
          if EventBus_IsRunning userBus then EventBus_Publish (env_redis env) userBus eventName args else ret ())"

definition mux_Publish :: "'s smq_env \<Rightarrow> string \<Rightarrow> json list \<Rightarrow> ('s, go_error, unit) io" where
  "mux_Publish env eventName args =
     (let target = (case routingPolicies eventName of None \<Rightarrow> TargetUser | Some t \<Rightarrow> t) in
      case target of
        TargetSystem \<Rightarrow> EventBus_Publish (env_redis env) (env_system env) eventName args
      | TargetUser \<Rightarrow> publish_user env eventName args
      | TargetBoth \<Rightarrow>
          and_then (EventBus_Publish (env_redis env) (env_system env) eventName args)
            (\<lambda>_. publish_user env eventName args))"

subsection \<open>Queue events\<close>

text \<open>Errors of the publication are logged and dropped.\<close>

definition publish_event :: "'s smq_env \<Rightarrow> string \<Rightarrow> json list \<Rightarrow> ('s, go_error, unit) io" where
  "publish_event env eventName args = and_then (try_io (mux_Publish env eventName args)) (\<lambda>_. ret ())"

text \<open>The default JSON of the \<open>Props\<close> that a creation announces: both times are zero.\<close>

definition zero_time_json :: json where
  "zero_time_json = JStr ''0001-01-01T00:00:00Z''"

definition created_props_json :: "queue_type \<Rightarrow> DeliveryModel \<Rightarrow> rate_limit option \<Rightarrow> json" where
  "created_props_json qt dm rl = JObj
     [(''Type'', JNum qt), (''DeliveryModel'', JNum dm), (''OperationalState'', JNum 0),
      (''MessagesCount'', JNum 0), (''ScheduledMessagesCount'', JNum 0), (''PendingMessagesCount'', JNum 0),
      (''ProcessingMessagesCount'', JNum 0), (''AcknowledgedMessagesCount'', JNum 0),
      (''DeadLetteredMessagesCount'', JNum 0), (''DelayedMessagesCount'', JNum 0),
      (''RequeuedMessagesCount'', JNum 0), (''RateLimit'', opt_json RateLimit_MarshalJSON rl),
      (''CreatedAt'', zero_time_json), (''LastStateChangeAt'', zero_time_json), (''LockID'', JStr [])]"

definition PublishCreated :: "'s smq_env \<Rightarrow> queue_params \<Rightarrow> json \<Rightarrow> ('s, go_error, unit) io" where
  "PublishCreated env q props = publish_event env ''queue.queueCreated'' [Params_MarshalJSON q, props]"

definition PublishDeleted :: "'s smq_env \<Rightarrow> queue_params \<Rightarrow> ('s, go_error, unit) io" where
  "PublishDeleted env q = publish_event env ''queue.queueDeleted'' [Params_MarshalJSON q]"

definition PublishStateChanged :: "'s smq_env \<Rightarrow> queue_params \<Rightarrow> state_transition \<Rightarrow> ('s, go_error, unit) io" where
  "PublishStateChanged env q t = publish_event env ''queue.stateChanged'' [Params_MarshalJSON q, transition_json t]"

definition PublishConsumerGroupCreated :: "'s smq_env \<Rightarrow> queue_params \<Rightarrow> string \<Rightarrow> ('s, go_error, unit) io" where
  "PublishConsumerGroupCreated env q g = publish_event env ''queue.consumerGroupCreated'' [Params_MarshalJSON q, JStr g]"

definition PublishConsumerGroupDeleted :: "'s smq_env \<Rightarrow> queue_params \<Rightarrow> string \<Rightarrow> ('s, go_error, unit) io" where
  "PublishConsumerGroupDeleted env q g = publish_event env ''queue.consumerGroupDeleted'' [Params_MarshalJSON q, JStr g]"

subsection \<open>Lemmas\<close>

text \<open>The contract of an environment is that of its Redis server.\<close>

locale smq = redis "env_redis env" db lua
  for env :: "'s smq_env" and db :: "'s \<Rightarrow> db" and lua :: "ID \<Rightarrow> script"
begin

lemma EventBus_Publish_keeps [keeps_intros]: "keeps db (EventBus_Publish (env_redis env) eb n as)"
  unfolding EventBus_Publish_def by (intro keeps_intros publish_keeps_db)

lemma publish_user_keeps [keeps_intros]: "keeps db (publish_user env n as)"
  unfolding publish_user_def by (intro keeps_intros EventBus_Publish_keeps)

lemma mux_Publish_keeps [keeps_intros]: "keeps db (mux_Publish env n as)"
  unfolding mux_Publish_def Let_def
  by (auto intro!: keeps_intros EventBus_Publish_keeps publish_user_keeps split: Target.splits option.splits)

lemma publish_event_keeps: "keeps db (publish_event env n as)"
  unfolding publish_event_def by (intro keeps_intros mux_Publish_keeps)

lemma publish_event_run: "\<exists>s'. publish_event env n as s = (Inr (), s') \<and> db s' = db s"
proof -
  obtain s' where run: "publish_event env n as s = (Inr (), s')"
    by (cases "mux_Publish env n as s") (simp add: publish_event_def try_then)
  with keepsD [OF publish_event_keeps run] show ?thesis by blast
qed

lemma publish_event_result: "publish_event env n as s = (r, s') \<Longrightarrow> r = Inr () \<and> db s' = db s"
  using publish_event_run [of n as s] by auto

text \<open>Announcing an event after an operation changes neither its result nor the database.\<close>

lemma after_event:
  assumes "and_then (publish_event env n as) (\<lambda>_. m) s = (r, s')"
  shows "\<exists>s1. db s1 = db s \<and> m s1 = (r, s')"
proof -
  obtain s1 where "publish_event env n as s = (Inr (), s1)" "db s1 = db s" using publish_event_run by blast
  with assms show ?thesis by (auto simp: and_then_def)
qed

end

definition mem_env :: "(ID \<Rightarrow> script) \<Rightarrow> db smq_env" where
  "mem_env lua = \<lparr>env_redis = mem_redis lua, env_system = EventBus_Start (NewEventBus ''system''), env_user = None\<rparr>"

interpretation mem_smq: smq "mem_env lua" "\<lambda>d. d" lua for lua
  unfolding smq_def mem_env_def by (simp add: mem.redis_axioms)

lemma mem_env_redis [simp]: "env_redis (mem_env lua) = mem_redis lua"
  by (simp add: mem_env_def)

lemma mem_publish_event [simp]: "publish_event (mem_env lua) n as = ret ()"
proof
  fix d
  show "publish_event (mem_env lua) n as d = ret () d"
    using mem_smq.publish_event_run [of lua n as d] by simp
qed

lemma handlers_at_add: "handlers_at (add_handler i ch eb) c = (if c = ch then handlers_at eb ch @ [i] else handlers_at eb c)"
  by (simp add: handlers_at_def add_handler_def)

lemma handlers_at_remove:
  "handlers_at (removeHandlerLocked i ch eb) c = (if c = ch then remove1 i (handlers_at eb ch) else handlers_at eb c)"
  by (auto simp: handlers_at_def removeHandlerLocked_def Let_def split: option.splits)

end
