(* ===== verification/Queue_Store.thy ===== *)
theory Queue_Store
  imports Queue_Scripts Event_Bus
begin

text \<open>
  Queues: \<open>internal/queue/store.go\<close> (create, load, exists, delete), \<open>internal/ratelimit/store.go\<close>,
  \<open>internal/queue/validate.go\<close>, \<open>internal/queue/lookup.go\<close> and \<open>internal/queue/consumer_group.go\<close>,
  over the scripts of \<open>Lua_Queue\<close>. Every operation takes the environment \<open>env\<close>; the clock is read
  once per operation and passed as \<open>now\<close> (Unix milliseconds). Codecs and stores are stateless
  structs in Go and leave no trace here; a nil \<open>*Params\<close> panics or fails before any effect and is
  not represented.
\<close>

definition qkey :: "queue_params \<Rightarrow> queue_key" where
  "qkey p = \<lparr>qk_Namespace = qp_ns p, qk_Name = qp_name p\<rparr>"

subsection \<open>Create\<close>

abbreviation maxQueueStateHistorySize :: int where "maxQueueStateHistorySize \<equiv> 100"

definition initial_transition :: "int \<Rightarrow> queue_type \<Rightarrow> DeliveryModel \<Rightarrow> state_transition" where
  "initial_transition now qt dm =
     \<lparr>t_From = None, t_To = StateActive, t_Reason = ReasonSystemInit, t_Timestamp = now,
      t_Description = [], t_LockID = None, t_Owner = None,
      t_Metadata = [(''deliveryModel'', JNum dm), (''queueType'', JNum qt)]\<rparr>"

definition create_queue_keys :: "queue_params \<Rightarrow> string list" where
  "create_queue_keys p =
     [System_AllNamespaces, Namespace_Queues (qp_ns p), System_AllQueues,
      Queue_Properties (qkey p), Queue_StateHistory (qkey p)]"

definition create_queue_args :: "int \<Rightarrow> queue_params \<Rightarrow> queue_type \<Rightarrow> DeliveryModel \<Rightarrow> rate_limit option \<Rightarrow> string list" where
  "create_queue_args now p qt dm rl =
     [qp_ns p, EncodeParams p,
      F_Type, itoa qt, F_DeliveryModel, itoa dm, F_RateLimit, MarshalRateLimitParams rl,
      F_MessagesCount, F_AcknowledgedMessagesCount, F_DeadLetteredMessagesCount, F_PendingMessagesCount,
      F_ScheduledMessagesCount, F_ProcessingMessagesCount, F_DelayedMessagesCount, F_RequeuedMessagesCount,
      F_OperationalState, itoa StateActive, itoa maxQueueStateHistorySize,
      F_LastStateChangeAt, itoa now, F_LockID, json_text (transition_json (initial_transition now qt dm))]"

definition SaveWithRateLimit :: "'s smq_env \<Rightarrow> int \<Rightarrow> queue_params \<Rightarrow> queue_type \<Rightarrow> DeliveryModel
    \<Rightarrow> rate_limit option \<Rightarrow> ('s, go_error, unit) io" where
  "SaveWithRateLimit env now p qt dm rl =
     and_then (map_err (Wrapf ''create queue'')
       (Eval (env_redis env) CreateQueue (create_queue_keys p) (create_queue_args now p qt dm rl))) (\<lambda>reply.
     and_then (lift_sum (String_of reply)) (\<lambda>replyStr.
     if replyStr = ''OK'' then
       and_then (PublishCreated env p (created_props_json qt dm rl)) (\<lambda>_. ret ())
     else if replyStr = ''QUEUE_EXISTS'' then throw (QueueErr Q_ErrAlreadyExists)
     else throw (Errorf (''create queue: unexpected script reply: '' @ replyStr))))"

definition Queue_Save :: "'s smq_env \<Rightarrow> int \<Rightarrow> queue_params \<Rightarrow> queue_type \<Rightarrow> DeliveryModel \<Rightarrow> ('s, go_error, unit) io" where
  "Queue_Save env now p qt dm = SaveWithRateLimit env now p qt dm None"

subsection \<open>Load, exists\<close>

definition Queue_Load :: "'s redis_server \<Rightarrow> queue_params \<Rightarrow> ('s, go_error, queue_props) io" where
  "Queue_Load rd p =
     and_then (LoadHash rd (Queue_Properties (qkey p)) ''queue properties'') (\<lambda>hash.
     map_err (Wrapf ''load queue: decode'') (lift_sum (DecodeProps hash)))"

definition Queue_Exists :: "'s redis_server \<Rightarrow> queue_params \<Rightarrow> ('s, go_error, bool) io" where
  "Queue_Exists rd p =
     and_then (map_err (\<lambda>e. Wrapf ''check queue exists'' (RedisErr e)) (exists_keys rd [Queue_Properties (qkey p)]))
       (\<lambda>count. ret (0 < count))"

subsection \<open>Delete\<close>

definition queue_delete_keys :: "queue_params \<Rightarrow> string list \<Rightarrow> string list \<Rightarrow> string list" where
  "queue_delete_keys p consumerGroups processingQueues =
     (let key = qkey p in
      [Queue_Properties key, Queue_Pending key, Queue_DeadLetter key, Queue_ProcessingQueues key,
       Queue_Priority key, Queue_Acknowledged key, Queue_Consumers key, Queue_RateLimit key,
       Queue_Scheduled key, Queue_Delayed key, Queue_Requeued key, Queue_Published key,
       Queue_ConsumerGroups key, Queue_WorkersLock key, Queue_ExchangeBindings key, Queue_StateHistory key]
      @ concat (map (\<lambda>g. [Queue_PendingWithGroup key g, Queue_PriorityWithGroup key g]) consumerGroups)
      @ processingQueues)"

text \<open>The \<open>seen\<close> loop: the first occurrence of every key is kept.\<close>

fun dedup :: "string list \<Rightarrow> string list \<Rightarrow> string list" where
  "dedup seen [] = []"
| "dedup seen (k # ks) = (if k \<in> set seen then dedup seen ks else k # dedup (k # seen) ks)"

definition Queue_Delete_reply :: "'s smq_env \<Rightarrow> queue_params \<Rightarrow> reply \<Rightarrow> ('s, go_error, unit) io" where
  "Queue_Delete_reply env p reply =
     and_then (lift_sum (String_of reply)) (\<lambda>replyStr.
     if replyStr = ''OK'' then and_then (PublishDeleted env p) (\<lambda>_. ret ())
     else if replyStr = ''QUEUE_LOCKED'' then throw (QueueErr Q_ErrLocked)
     else if replyStr = ''QUEUE_NOT_FOUND'' then throw (QueueErr Q_ErrNotFound)
     else if replyStr = ''QUEUE_NOT_EMPTY'' then throw (QueueErr Q_ErrQueueNotEmpty)
     else if replyStr = ''QUEUE_HAS_ACTIVE_CONSUMERS'' then throw (QueueErr Q_ErrQueueHasActiveConsumers)
     else if replyStr = ''QUEUE_HAS_BOUND_EXCHANGE'' then throw (QueueErr Q_ErrQueueHasBoundExchanges)
     else if replyStr = ''CONSUMER_SET_MISMATCH'' then throw (QueueErr Q_ErrConsumerSetMismatch)
     else throw (Errorf (''delete queue: unexpected script reply: '' @ replyStr)))"

definition Queue_Delete :: "'s smq_env \<Rightarrow> queue_params \<Rightarrow> ('s, go_error, unit) io" where
  "Queue_Delete env p =
     (let rd = env_redis env; key = qkey p in
      and_then (map_err (\<lambda>e. Wrapf ''delete queue: get consumers'' (RedisErr e)) (hkeys rd (Queue_Consumers key))) (\<lambda>consumerIDs.
      and_then (map_err (\<lambda>e. Wrapf ''delete queue: get consumer groups'' (RedisErr e)) (smembers rd (Queue_ConsumerGroups key))) (\<lambda>consumerGroups.
      and_then (map_err (\<lambda>e. Wrapf ''delete queue: get processing queues'' (RedisErr e)) (hkeys rd (Queue_ProcessingQueues key))) (\<lambda>processingQueues.
      let heartbeatKeys = map System_ConsumerHeartbeat consumerIDs;
          uniqueKeys = dedup [] (queue_delete_keys p consumerGroups processingQueues);
          luaKeys = [System_AllQueues, Namespace_Queues (qp_ns p), Queue_Properties key,
                     Queue_ExchangeBindings key, Queue_Consumers key]
            @ heartbeatKeys
            @ filter (\<lambda>k. k \<noteq> Queue_Properties key \<and> k \<noteq> Queue_ExchangeBindings key \<and> k \<noteq> Queue_Consumers key) uniqueKeys;
          argv = [EncodeParams p, F_MessagesCount, itoa (int (length heartbeatKeys)), F_OperationalState,
                  itoa StateLocked, F_LockID, []] @ consumerIDs in
      and_then (map_err (Wrapf ''delete queue'') (Eval rd DeleteQueue luaKeys argv)) (Queue_Delete_reply env p)))))"

subsection \<open>Rate limits\<close>

definition script_reply :: "string \<Rightarrow> reply \<Rightarrow> ('s, go_error, unit) io" where
  "script_reply what reply =
     and_then (lift_sum (String_of reply)) (\<lambda>replyStr.
     if replyStr = ''OK'' then ret ()
     else if replyStr = ''QUEUE_LOCKED'' then throw (QueueErr Q_ErrLocked)
     else if replyStr = ''QUEUE_NOT_FOUND'' then throw (QueueErr Q_ErrNotFound)
     else throw (Errorf (what @ '': unexpected script reply: '' @ replyStr)))"

definition RateLimit_Set :: "'s redis_server \<Rightarrow> queue_params \<Rightarrow> rate_limit option \<Rightarrow> ('s, go_error, unit) io" where
  "RateLimit_Set rd p rl =
     (let luaKeys = [Queue_Properties (qkey p)];
          argv = [F_RateLimit, MarshalRateLimitParams rl, F_OperationalState, State_String StateLocked, F_LockID, []] in
      and_then (map_err (Wrapf ''set rate limit'') (Eval rd SetRateLimit luaKeys argv)) (script_reply ''set rate limit''))"

definition RateLimit_Clear :: "'s redis_server \<Rightarrow> queue_params \<Rightarrow> ('s, go_error, unit) io" where
  "RateLimit_Clear rd p =
     (let luaKeys = [Queue_Properties (qkey p), Queue_RateLimit (qkey p)];
          argv = [F_RateLimit, F_OperationalState, State_String StateLocked, F_LockID, []] in
      and_then (map_err (Wrapf ''clear rate limit'') (Eval rd ClearRateLimit luaKeys argv)) (script_reply ''clear rate limit''))"

definition RateLimit_Get :: "'s redis_server \<Rightarrow> queue_params \<Rightarrow> ('s, go_error, rate_limit option) io" where
  "RateLimit_Get rd p =
     and_then (try_io (LoadHashField rd (Queue_Properties (qkey p)) F_RateLimit ''rate limit'')) (\<lambda>r.
     case r of
       Inl err \<Rightarrow> ret None
     | Inr rateLimitJSON \<Rightarrow> if rateLimitJSON = [] then ret None else lift_sum (UnmarshalRateLimitParams rateLimitJSON))"

subsection \<open>Databases in which the keys of a queue have their types\<close>

text \<open>What Redis itself and the operations of the program maintain: no empty collections, at
  every key of the queue a value of the type that the program stores there, and no more consumers
  than an \<open>int\<close> counts.\<close>

definition queue_typed :: "db \<Rightarrow> queue_params \<Rightarrow> bool" where
  "queue_typed d p \<longleftrightarrow> no_empty d \<and>
     \<not> isl (get_set d System_AllQueues) \<and> \<not> isl (get_set d System_AllNamespaces) \<and>
     \<not> isl (get_set d (Namespace_Queues (qp_ns p))) \<and>
     \<not> isl (get_hash d (Queue_Properties (qkey p))) \<and> \<not> isl (get_list d (Queue_StateHistory (qkey p))) \<and>
     \<not> isl (get_set d (Queue_ExchangeBindings (qkey p))) \<and> \<not> isl (get_hash d (Queue_Consumers (qkey p))) \<and>
     in_int64 (int (fcard (fmdom (projr (get_hash d (Queue_Consumers (qkey p)))))))"

definition queue_hash :: "db \<Rightarrow> queue_params \<Rightarrow> (string, string) fmap" where
  "queue_hash d p = projr (get_hash d (Queue_Properties (qkey p)))"

definition queue_history :: "db \<Rightarrow> queue_params \<Rightarrow> string list" where
  "queue_history d p = projr (get_list d (Queue_StateHistory (qkey p)))"

definition queue_consumers :: "db \<Rightarrow> queue_params \<Rightarrow> (string, string) fmap" where
  "queue_consumers d p = projr (get_hash d (Queue_Consumers (qkey p)))"

definition set_at :: "db \<Rightarrow> string \<Rightarrow> string fset" where
  "set_at d k = projr (get_set d k)"

lemma queue_typedD:
  assumes "queue_typed d p"
  shows "no_empty d"
    and "get_set d System_AllQueues = Inr (set_at d System_AllQueues)"
    and "get_set d System_AllNamespaces = Inr (set_at d System_AllNamespaces)"
    and "get_set d (Namespace_Queues (qp_ns p)) = Inr (set_at d (Namespace_Queues (qp_ns p)))"
    and "get_hash d (Queue_Properties (qkey p)) = Inr (queue_hash d p)"
    and "get_list d (Queue_StateHistory (qkey p)) = Inr (queue_history d p)"
    and "get_set d (Queue_ExchangeBindings (qkey p)) = Inr (set_at d (Queue_ExchangeBindings (qkey p)))"
    and "get_hash d (Queue_Consumers (qkey p)) = Inr (queue_consumers d p)"
    and "in_int64 (int (fcard (fmdom (queue_consumers d p))))"
  using assms
  by (simp_all add: queue_typed_def queue_hash_def queue_history_def queue_consumers_def set_at_def isl_def)

lemma create_keys_distinct: "distinct (create_queue_keys p)"
  by (simp add: create_queue_keys_def key_defs Key_eq_iff qkey_def)

definition created_hash :: "int \<Rightarrow> queue_type \<Rightarrow> DeliveryModel \<Rightarrow> rate_limit option \<Rightarrow> (string, string) fmap \<Rightarrow> (string, string) fmap" where
  "created_hash now qt dm rl = hset_all
     [(F_Type, itoa qt), (F_DeliveryModel, itoa dm), (F_RateLimit, MarshalRateLimitParams rl),
      (F_MessagesCount, ''0''), (F_AcknowledgedMessagesCount, ''0''), (F_DeadLetteredMessagesCount, ''0''),
      (F_PendingMessagesCount, ''0''), (F_ScheduledMessagesCount, ''0''), (F_ProcessingMessagesCount, ''0''),
      (F_DelayedMessagesCount, ''0''), (F_RequeuedMessagesCount, ''0''), (F_OperationalState, itoa StateActive),
      (F_LastStateChangeAt, itoa now), (F_LockID, [])]"

definition created_db :: "int \<Rightarrow> queue_params \<Rightarrow> queue_type \<Rightarrow> DeliveryModel \<Rightarrow> rate_limit option \<Rightarrow> db \<Rightarrow> db" where
  "created_db now p qt dm rl d =
     put_list (Queue_StateHistory (qkey p))
       (list_range 0 99 (json_text (transition_json (initial_transition now qt dm)) # queue_history d p))
     (put_hash (Queue_Properties (qkey p)) (created_hash now qt dm rl (queue_hash d p))
     (put_set System_AllNamespaces (finsert (qp_ns p) (set_at d System_AllNamespaces))
     (put_set (Namespace_Queues (qp_ns p)) (finsert (EncodeParams p) (set_at d (Namespace_Queues (qp_ns p))))
     (put_set System_AllQueues (finsert (EncodeParams p) (set_at d System_AllQueues)) d))))"

lemma create_queue_script:
  assumes "queue_typed d p"
  shows "lua_create_queue (redis_apply en) (create_queue_keys p) (create_queue_args now p qt dm rl) d =
    (if EncodeParams p |\<in>| set_at d System_AllQueues then (Inr (RBulk ''QUEUE_EXISTS''), d)
     else (Inr (RBulk ''OK''), created_db now p qt dm rl d))"
proof -
  have "atoi_value (itoa maxQueueStateHistorySize) - 1 = (99 :: int)" by simp
  then show ?thesis
    unfolding create_queue_keys_def create_queue_args_def created_db_def created_hash_def
    by (subst lua_create_queue_run [OF queue_typedD(3,4,2,5,6) [OF assms]])
      (use create_keys_distinct [of p] in \<open>simp_all add: create_queue_keys_def\<close>)
qed

subsection \<open>Creation\<close>

definition created_props :: "int \<Rightarrow> queue_type \<Rightarrow> DeliveryModel \<Rightarrow> rate_limit option \<Rightarrow> queue_props" where
  "created_props now qt dm rl =
     \<lparr>q_Type = qt, q_DeliveryModel = dm, q_OperationalState = StateActive, q_MessagesCount = 0,
      q_ScheduledMessagesCount = 0, q_PendingMessagesCount = 0, q_ProcessingMessagesCount = 0,
      q_AcknowledgedMessagesCount = 0, q_DeadLetteredMessagesCount = 0, q_DelayedMessagesCount = 0,
      q_RequeuedMessagesCount = 0, q_RateLimit = rl, q_CreatedAt = None,
      q_LastStateChangeAt = Some (now * time_Millisecond), q_LockID = []\<rparr>"

lemma itoa_zero: "itoa 0 = ''0''"
proof -
  have "char_of (48 :: nat) = CHR ''0''" by code_simp
  then show ?thesis by (simp add: itoa_def nat_digits.simps digit_char_def)
qed

lemma parse_zero [simp]: "parse_int ''0'' = (0, None)"
  using parse_int_itoa [of 0] by (simp add: itoa_zero)

lemma decode_created_rate_limit:
  "pred_option rate_limit_stored rl \<Longrightarrow> decode_rate_limit (Some (MarshalRateLimitParams rl)) = rl"
proof (cases rl)
  case None
  then show ?thesis by (simp add: decode_rate_limit_def MarshalRateLimitParams_def)
next
  case (Some r)
  assume "pred_option rate_limit_stored rl"
  with Some have "rate_limit_stored r" by simp
  moreover have "MarshalRateLimitParams (Some r) \<noteq> []"
    by (simp add: MarshalRateLimitParams_def RateLimit_MarshalJSON_def)
  ultimately show ?thesis
    using RateLimit_text_roundtrip [of r] Some by (simp add: decode_rate_limit_def)
qed

lemma DecodeProps_created:
  assumes "in_int64 qt" and "in_int64 dm" and "in_int64 now" and "pred_option rate_limit_stored rl"
  shows "DecodeProps (created_hash now qt dm rl h) = Inr (created_props now qt dm rl)"
  using assms decode_created_rate_limit [OF assms(4)]
  by (simp add: DecodeProps_def created_hash_def created_props_def hset_all_def schema_defs parseInt64Field_def
      hash_get_def enum_defs)

subsection \<open>Deletion\<close>

definition delete_verdict :: "db \<Rightarrow> queue_params \<Rightarrow> string" where
  "delete_verdict d p =
     (let h = queue_hash d p in
      if h = fmempty then ''QUEUE_NOT_FOUND''
      else if fmlookup h F_OperationalState = Some (itoa StateLocked) then ''QUEUE_LOCKED''
      else if fmlookup h F_MessagesCount \<noteq> Some ''0'' then ''QUEUE_NOT_EMPTY''
      else if set_at d (Queue_ExchangeBindings (qkey p)) \<noteq> {||} then ''QUEUE_HAS_BOUND_EXCHANGE''
      else if \<exists>c \<in> fset (fmdom (queue_consumers d p)). str_value d (System_ConsumerHeartbeat c) \<noteq> None
      then ''QUEUE_HAS_ACTIVE_CONSUMERS''
      else ''OK'')"

text \<open>The effect of a deletion that removes the keys \<open>ks\<close>.\<close>

definition deleted_db :: "queue_params \<Rightarrow> string list \<Rightarrow> db \<Rightarrow> db" where
  "deleted_db p ks d = del_keys ks
     (put_set (Namespace_Queues (qp_ns p)) (set_at d (Namespace_Queues (qp_ns p)) |-| {|EncodeParams p|})
     (put_set System_AllQueues (set_at d System_AllQueues |-| {|EncodeParams p|}) d))"

definition delete_error :: "string \<Rightarrow> go_error" where
  "delete_error v =
     (if v = ''QUEUE_LOCKED'' then QueueErr Q_ErrLocked else if v = ''QUEUE_NOT_FOUND'' then QueueErr Q_ErrNotFound
      else if v = ''QUEUE_NOT_EMPTY'' then QueueErr Q_ErrQueueNotEmpty
      else if v = ''QUEUE_HAS_ACTIVE_CONSUMERS'' then QueueErr Q_ErrQueueHasActiveConsumers
      else if v = ''QUEUE_HAS_BOUND_EXCHANGE'' then QueueErr Q_ErrQueueHasBoundExchanges
      else if v = ''CONSUMER_SET_MISMATCH'' then QueueErr Q_ErrConsumerSetMismatch
      else Errorf (''delete queue: unexpected script reply: '' @ v))"

lemma set_dedup: "set (dedup seen ks) = set ks - set seen"
  by (induction seen ks rule: dedup.induct) auto

lemma delete_script:
  assumes typed: "queue_typed d p" and en: "enum_ok en"
    and cids: "set cids = fset (fmdom (queue_consumers d p))" "distinct cids"
  shows "lua_delete_queue (redis_apply en)
      ([System_AllQueues, Namespace_Queues (qp_ns p), Queue_Properties (qkey p), Queue_ExchangeBindings (qkey p),
        Queue_Consumers (qkey p)] @ map System_ConsumerHeartbeat cids @ rest)
      ([EncodeParams p, F_MessagesCount, itoa (int (length (map System_ConsumerHeartbeat cids))), F_OperationalState,
        itoa StateLocked, F_LockID, []] @ cids) d =
    (Inr (RBulk (delete_verdict d p)),
     if delete_verdict d p = ''OK''
     then deleted_db p ([Queue_Properties (qkey p), Queue_ExchangeBindings (qkey p), Queue_Consumers (qkey p)]
            @ map System_ConsumerHeartbeat cids @ rest) d
     else d)"
proof -
  have len: "length cids = fcard (fmdom (queue_consumers d p))"
    using cids distinct_card [of cids] by (simp add: fcard.rep_eq)
  have ne: "System_AllQueues \<noteq> Namespace_Queues (qp_ns p)"
    by (simp add: key_defs Key_eq_iff)
  have "in_int64 (int (length (map System_ConsumerHeartbeat cids)))"
    using queue_typedD(9) [OF typed] len by simp
  note run = lua_delete_queue_run [OF en queue_typedD(5,2,4,7,8) [OF typed] ne this]
  show ?thesis
    by (subst run) (simp add: Let_def delete_queue_verdict_def delete_verdict_def deleted_db_def len cids)
qed

subsection \<open>Rate limits\<close>

text \<open>The verdict of the scripts on the arguments of \<open>RateLimit_Set\<close> and \<open>RateLimit_Clear\<close>.\<close>

definition rate_limit_verdict :: "(string, string) fmap \<Rightarrow> string option" where
  "rate_limit_verdict h = lock_guard_verdict h F_OperationalState (State_String StateLocked) F_LockID []"

lemma rate_limit_verdict_stored:
  assumes "h \<noteq> fmempty" and "fmlookup h F_OperationalState = Some (itoa n)"
  shows "rate_limit_verdict h = None"
proof -
  have "CHR ''l'' \<in> set (State_String StateLocked)" by (simp add: State_String_def enum_defs)
  then have "itoa n \<noteq> State_String StateLocked"
    using itoa_chars [of "CHR ''l''" n] by (auto simp: is_digit_def)
  with assms show ?thesis by (simp add: rate_limit_verdict_def lock_guard_verdict_def)
qed

lemma script_reply_run:
  "script_reply what (RBulk v) s =
     (if v = ''OK'' then Inr () else if v = ''QUEUE_LOCKED'' then Inl (QueueErr Q_ErrLocked)
      else if v = ''QUEUE_NOT_FOUND'' then Inl (QueueErr Q_ErrNotFound)
      else Inl (Errorf (what @ '': unexpected script reply: '' @ v)), s)"
  by (simp add: script_reply_def String_of_def)

context redis
begin

lemma Queue_Load_hash:
  assumes "Queue_Load rd p s = (Inr props, s')"
  shows "\<exists>h. get_hash (db s) (Queue_Properties (qkey p)) = Inr h \<and> DecodeProps h = Inr props \<and> db s' = db s"
  using assms LoadHash_ok keepsD [OF Load_keeps(1)]
  by (fastforce simp: Queue_Load_def io_ok lift_sum_def)

end

text \<open>An environment whose Redis runs the program's scripts.\<close>

locale smq_queues = smq env db "smq_scripts other"
  for env :: "'s smq_env" and db :: "'s \<Rightarrow> db" and other :: "ID \<Rightarrow> script"
begin

text \<open>What an operation that runs one script and then announces an event can come to.\<close>

lemma SaveWithRateLimit_cases:
  assumes "SaveWithRateLimit env now p qt dm rl s = (r, s')" and "queue_typed (db s) p"
  shows "EncodeParams p |\<notin>| set_at (db s) System_AllQueues \<and> r = Inr () \<and> db s' = created_db now p qt dm rl (db s) \<or>
    EncodeParams p |\<in>| set_at (db s) System_AllQueues \<and> r = Inl (QueueErr Q_ErrAlreadyExists) \<and> db s' = db s \<or>
    (\<exists>e. r = Inl e \<and> conn_fault e)"
proof -
  let ?in = "EncodeParams p |\<in>| set_at (db s) System_AllQueues"
  obtain r1 s1 where
    ev: "Eval (env_redis env) CreateQueue (create_queue_keys p) (create_queue_args now p qt dm rl) s = (r1, s1)"
    by fastforce
  have "r1 = Inr (RBulk (if ?in then ''QUEUE_EXISTS'' else ''OK'')) \<and>
      db s1 = (if ?in then db s else created_db now p qt dm rl (db s)) \<or> (\<exists>e. r1 = Inl e \<and> conn_fault e)"
    by (rule Eval_cases [OF ev]) (simp add: smq_scripts_def create_queue_script [OF assms(2)])
  then show ?thesis
  proof (elim disjE conjE exE)
    assume r1: "r1 = Inr (RBulk (if ?in then ''QUEUE_EXISTS'' else ''OK''))"
      and s1: "db s1 = (if ?in then db s else created_db now p qt dm rl (db s))"
    show ?thesis
    proof (cases ?in)
      case True
      with assms(1) ev r1 s1 show ?thesis
        by (simp add: SaveWithRateLimit_def and_then_map_err String_of_def)
    next
      case False
      with assms(1) ev r1 have "PublishCreated env p (created_props_json qt dm rl) s1 = (r, s')"
        by (simp add: SaveWithRateLimit_def and_then_map_err String_of_def)
      from publish_event_result [OF this [unfolded PublishCreated_def]] False s1 show ?thesis by simp
    qed
  next
    fix e assume "r1 = Inl e" "conn_fault e"
    with assms(1) ev show ?thesis by (auto simp: SaveWithRateLimit_def and_then_map_err)
  qed
qed

lemma Queue_Delete_reply_result:
  assumes "Queue_Delete_reply env p (RBulk v) s = (r, s')"
  shows "db s' = db s \<and> r = (if v = ''OK'' then Inr () else Inl (delete_error v))"
proof (cases "v = ''OK''")
  case True
  with assms have "PublishDeleted env p s = (r, s')"
    by (simp add: Queue_Delete_reply_def String_of_def)
  from publish_event_result [OF this [unfolded PublishDeleted_def]] True show ?thesis by simp
next
  case False
  have "Queue_Delete_reply env p (RBulk v) = throw (delete_error v)"
    unfolding Queue_Delete_reply_def String_of_def delete_error_def reply.case and_then_lift_sum if_not_P [OF False]
    by (simp only: if_distrib [of throw])
  with assms False show ?thesis by simp
qed

lemma Queue_Delete_cases:
  assumes run: "Queue_Delete env p s = (r, s')" and typed: "queue_typed (db s) p"
  shows "delete_verdict (db s) p = ''OK'' \<and> r = Inr () \<and>
      (\<exists>ks. set (queue_delete_keys p [] []) \<subseteq> set ks \<and> db s' = deleted_db p ks (db s)) \<or>
    delete_verdict (db s) p \<noteq> ''OK'' \<and> r = Inl (delete_error (delete_verdict (db s) p)) \<and> db s' = db s \<or>
    (\<exists>e. r = Inl e \<and> redis_fault e)"
proof -
  let ?rd = "env_redis env" and ?k = "qkey p" and ?v = "delete_verdict (db s) p"
  obtain r1 s1 r2 s2 r3 s3 where c1: "hkeys ?rd (Queue_Consumers ?k) s = (r1, s1)"
    and c2: "smembers ?rd (Queue_ConsumerGroups ?k) s1 = (r2, s2)"
    and c3: "hkeys ?rd (Queue_ProcessingQueues ?k) s2 = (r3, s3)" by (metis surj_pair)
  have s3: "db s1 = db s" "db s2 = db s" "db s3 = db s"
    using keepsD [OF call_keeps(3) c1] keepsD [OF call_keeps(4) c2] keepsD [OF call_keeps(3) c3] by simp_all
  show ?thesis
  proof (cases "isl r1 \<or> isl r2 \<or> isl r3")
    case True
    then consider e where "r1 = Inl e" | e x where "r1 = Inr x" "r2 = Inl e" | e x y where "r1 = Inr x" "r2 = Inr y" "r3 = Inl e"
      by (cases r1; cases r2; cases r3) simp_all
    then show ?thesis
    proof cases
      case 1
      then show ?thesis
        using run c1 call_not_tx(1) [of "Queue_Consumers ?k" s _ s1]
        by (simp add: Queue_Delete_def Let_def and_then_map_err(2)) auto
    next
      case 2
      then show ?thesis
        using run c1 c2 call_not_tx(2) [of "Queue_ConsumerGroups ?k" s1 _ s2]
        by (simp add: Queue_Delete_def Let_def and_then_map_err) auto
    next
      case 3
      then show ?thesis
        using run c1 c2 c3 call_not_tx(1) [of "Queue_ProcessingQueues ?k" s2 _ s3]
        by (simp add: Queue_Delete_def Let_def and_then_map_err) auto
    qed
  next
    case False
    then obtain cids gs pqs where r: "r1 = Inr cids" "r2 = Inr gs" "r3 = Inr pqs"
      by (cases r1; cases r2; cases r3) auto
    define rest where "rest = filter (\<lambda>k. k \<noteq> Queue_Properties ?k \<and> k \<noteq> Queue_ExchangeBindings ?k \<and> k \<noteq> Queue_Consumers ?k)
      (dedup [] (queue_delete_keys p gs pqs))"
    define ks where "ks = [Queue_Properties ?k, Queue_ExchangeBindings ?k, Queue_Consumers ?k]
      @ map System_ConsumerHeartbeat cids @ rest"
    have cids: "set cids = fset (fmdom (queue_consumers (db s) p))" "distinct cids"
      using hkeys_ok [of "Queue_Consumers ?k" s cids s1] c1 r queue_typedD(8) [OF typed] by auto
    have ks: "set (queue_delete_keys p [] []) \<subseteq> set ks"
    proof -
      have "queue_delete_keys p gs pqs = queue_delete_keys p [] [] @
          concat (map (\<lambda>g. [Queue_PendingWithGroup ?k g, Queue_PriorityWithGroup ?k g]) gs) @ pqs"
        by (simp add: queue_delete_keys_def Let_def)
      then show ?thesis by (auto simp: ks_def rest_def set_dedup)
    qed
    obtain r4 s4 where c4: "Eval ?rd DeleteQueue
        ([System_AllQueues, Namespace_Queues (qp_ns p), Queue_Properties ?k, Queue_ExchangeBindings ?k, Queue_Consumers ?k]
          @ map System_ConsumerHeartbeat cids @ rest)
        ([EncodeParams p, F_MessagesCount, itoa (int (length (map System_ConsumerHeartbeat cids))), F_OperationalState,
          itoa StateLocked, F_LockID, []] @ cids) s3 = (r4, s4)" (is "Eval _ _ ?ks ?as _ = _")
      by fastforce
    have "r4 = Inr (RBulk ?v) \<and> db s4 = (if ?v = ''OK'' then deleted_db p ks (db s) else db s) \<or>
        (\<exists>e. r4 = Inl e \<and> conn_fault e)"
      by (rule Eval_cases [OF c4])
        (use delete_script [OF typed _ cids] s3 in \<open>simp add: smq_scripts_def ks_def\<close>)
    moreover have "Queue_Delete env p s = and_then (map_err (Wrapf ''delete queue'') (Eval ?rd DeleteQueue ?ks ?as)) (Queue_Delete_reply env p) s3"
      using c1 c2 c3 r by (simp add: Queue_Delete_def Let_def and_then_map_err rest_def)
    ultimately show ?thesis
    proof (elim disjE conjE exE)
      assume r4: "r4 = Inr (RBulk ?v)" and s4: "db s4 = (if ?v = ''OK'' then deleted_db p ks (db s) else db s)"
        and "Queue_Delete env p s = and_then (map_err (Wrapf ''delete queue'') (Eval ?rd DeleteQueue ?ks ?as)) (Queue_Delete_reply env p) s3"
      then have rep: "Queue_Delete_reply env p (RBulk ?v) s4 = (r, s')"
        using run c4 by (simp add: and_then_map_err)
      from Queue_Delete_reply_result [OF rep] s4 ks show ?thesis by auto
    next
      fix e assume "r4 = Inl e" "conn_fault e"
        and "Queue_Delete env p s = and_then (map_err (Wrapf ''delete queue'') (Eval ?rd DeleteQueue ?ks ?as)) (Queue_Delete_reply env p) s3"
      then show ?thesis using run c4 conn_fault_redis by (auto simp: and_then_map_err)
    qed
  qed
qed

lemma RateLimit_Set_cases:
  assumes run: "RateLimit_Set (env_redis env) p rl s = (r, s')" and typed: "queue_typed (db s) p"
    and free: "rate_limit_verdict (queue_hash (db s) p) = None"
  shows "r = Inr () \<and>
      db s' = put_hash (Queue_Properties (qkey p)) (fmupd F_RateLimit (MarshalRateLimitParams rl) (queue_hash (db s) p)) (db s) \<or>
    (\<exists>e. r = Inl e \<and> conn_fault e)"
proof -
  let ?as = "[F_RateLimit, MarshalRateLimitParams rl, F_OperationalState, State_String StateLocked, F_LockID, []]"
  obtain r1 s1 where ev: "Eval (env_redis env) SetRateLimit [Queue_Properties (qkey p)] ?as s = (r1, s1)" by fastforce
  have "r1 = Inr (RBulk ''OK'') \<and>
      db s1 = put_hash (Queue_Properties (qkey p)) (fmupd F_RateLimit (MarshalRateLimitParams rl) (queue_hash (db s) p)) (db s) \<or>
      (\<exists>e. r1 = Inl e \<and> conn_fault e)"
    by (rule Eval_cases [OF ev]) (use free in \<open>simp add: smq_scripts_def rate_limit_verdict_def
        lua_set_rate_limit_run [OF queue_typedD(5,1) [OF typed]]\<close>)
  with run ev show ?thesis
    by (auto simp: RateLimit_Set_def Let_def and_then_map_err script_reply_run)
qed

lemmas Queue_Load_ok = Queue_Load_hash

lemma Queue_Exists_ok:
  assumes "Queue_Exists (env_redis env) p s = (Inr b, s')"
  shows "b \<longleftrightarrow> db s (Queue_Properties (qkey p)) \<noteq> None" and "db s' = db s"
  using assms exists_keys_ok keepsD [OF call_keeps(9)]
  by (fastforce simp: Queue_Exists_def io_ok)+

end

interpretation mem_queues: smq_queues "mem_env (smq_scripts other)" "\<lambda>d. d" other for other
  by unfold_locales

subsection \<open>Properties\<close>

lemma set_at_put [simp]:
  "set_at (put_set k S d) k' = (if k' = k then S else set_at d k')"
  "k' \<noteq> k \<Longrightarrow> set_at (put_hash k h d) k' = set_at d k'"
  "k' \<noteq> k \<Longrightarrow> set_at (put_list k xs d) k' = set_at d k'"
  by (simp_all add: set_at_def)

lemma created_db_views:
  shows "set_at (created_db now p qt dm rl d) System_AllQueues = finsert (EncodeParams p) (set_at d System_AllQueues)"
    and "set_at (created_db now p qt dm rl d) (Namespace_Queues (qp_ns p)) = finsert (EncodeParams p) (set_at d (Namespace_Queues (qp_ns p)))"
    and "get_hash (created_db now p qt dm rl d) (Queue_Properties (qkey p)) = Inr (created_hash now qt dm rl (queue_hash d p))"
    and "k \<notin> set (create_queue_keys p) \<Longrightarrow> created_db now p qt dm rl d k = d k"
  using create_keys_distinct [of p] by (auto simp: created_db_def create_queue_keys_def)

text \<open>C18: creating a queue. \<open>SaveWithRateLimit\<close> has exactly three outcomes. Either the queue was not
  registered, is now listed globally and in its namespace, loads with the given type, delivery model
  and rate limit, in the active state, unlocked and with all counters zero, and no key outside the
  five of the queue's creation has changed; or the queue was registered and the call reports
  \<open>ErrAlreadyExists\<close> without changing anything; or Redis could not be reached.\<close>

theorem queue_create_outcome:
  assumes "smq_queues env db other" and "queue_typed (db s) p"
    and "in_int64 qt" and "in_int64 dm" and "in_int64 now" and "pred_option rate_limit_stored rl"
    and run: "SaveWithRateLimit env now p qt dm rl s = (r, s')"
  shows "case r of
      Inr _ \<Rightarrow> EncodeParams p |\<notin>| set_at (db s) System_AllQueues \<and>
        EncodeParams p |\<in>| set_at (db s') System_AllQueues \<and>
        EncodeParams p |\<in>| set_at (db s') (Namespace_Queues (qp_ns p)) \<and>
        (\<forall>s1 props s2. db s1 = db s' \<longrightarrow> Queue_Load (env_redis env) p s1 = (Inr props, s2) \<longrightarrow>
           props = created_props now qt dm rl) \<and>
        (\<forall>k. k \<notin> set (create_queue_keys p) \<longrightarrow> db s' k = db s k)
    | Inl e \<Rightarrow> conn_fault e \<or>
        e = QueueErr Q_ErrAlreadyExists \<and> EncodeParams p |\<in>| set_at (db s) System_AllQueues \<and> db s' = db s"
proof -
  note cases = smq_queues.SaveWithRateLimit_cases [OF assms(1) run assms(2)]
  note load = smq_queues.Queue_Load_ok [OF assms(1)]
  note dec = DecodeProps_created [OF assms(3-6)]
  show ?thesis
  proof (cases r)
    case (Inl e)
    with cases show ?thesis by auto
  next
    case (Inr u)
    with cases have s': "db s' = created_db now p qt dm rl (db s)"
      and new: "EncodeParams p |\<notin>| set_at (db s) System_AllQueues" by auto
    have "props = created_props now qt dm rl"
      if "db s1 = db s'" "Queue_Load (env_redis env) p s1 = (Inr props, s2)" for s1 props s2
      using load [OF that(2)] that(1) s' dec by (auto simp: created_db_views(3))
    with Inr s' new show ?thesis by (simp add: created_db_views)
  qed
qed

definition empty_db :: db where "empty_db = (\<lambda>k. None)"

definition no_scripts :: "ID \<Rightarrow> script" where "no_scripts i call ks as = throw (LuaError ''not loaded'')"

definition sample_queue :: queue_params where "sample_queue = \<lparr>qp_name = ''orders'', qp_ns = ''shop''\<rparr>"

lemma empty_db_typed: "queue_typed empty_db p"
  by (simp add: queue_typed_def empty_db_def no_empty_def in_int64_def fcard.rep_eq)

lemma mem_smq_queues: "smq_queues (mem_env (smq_scripts no_scripts)) (\<lambda>d. d) no_scripts"
  by (rule mem_queues.smq_queues_axioms)

lemma mem_create:
  assumes "queue_typed d p" and "EncodeParams p |\<notin>| set_at d System_AllQueues"
  shows "SaveWithRateLimit (mem_env (smq_scripts no_scripts)) now p qt dm rl d = (Inr (), created_db now p qt dm rl d)"
proof -
  have "Eval (mem_redis (smq_scripts no_scripts)) CreateQueue (create_queue_keys p) (create_queue_args now p qt dm rl) d =
      (Inr (RBulk ''OK''), created_db now p qt dm rl d)"
    by (rule mem_Eval) (use assms in \<open>simp add: smq_scripts_def create_queue_script\<close>)
  then show ?thesis
    by (simp add: SaveWithRateLimit_def and_then_map_err String_of_def PublishCreated_def)
qed

theorem queue_create_outcome_witness:
  "\<exists>d. SaveWithRateLimit (mem_env (smq_scripts no_scripts)) 7 sample_queue TypeFIFO DeliveryPubSub None empty_db = (Inr (), d) \<and>
     EncodeParams sample_queue |\<in>| set_at d System_AllQueues \<and>
     (\<forall>k. k \<notin> set (create_queue_keys sample_queue) \<longrightarrow> d k = None)"
proof -
  have "EncodeParams sample_queue |\<notin>| set_at empty_db System_AllQueues" by (simp add: set_at_def empty_db_def)
  note run = mem_create [OF empty_db_typed this, of 7 TypeFIFO DeliveryPubSub None]
  have "in_int64 TypeFIFO" "in_int64 DeliveryPubSub" "in_int64 7" "pred_option rate_limit_stored None"
    by (simp_all add: enum_defs)
  from queue_create_outcome [OF mem_smq_queues empty_db_typed this run] run show ?thesis
    by (auto simp: empty_db_def)
qed

lemma set_at_del [simp]: "set_at (del_keys ks d) k = (if k \<in> set ks then {||} else set_at d k)"
  by (simp add: set_at_def)

lemma deleted_db_unlisted:
  "EncodeParams p |\<notin>| set_at (deleted_db p ks d) System_AllQueues"
  "EncodeParams p |\<notin>| set_at (deleted_db p ks d) (Namespace_Queues (qp_ns p))"
proof -
  have "Namespace_Queues (qp_ns p) \<noteq> System_AllQueues" by (simp add: key_defs Key_eq_iff)
  then show "EncodeParams p |\<notin>| set_at (deleted_db p ks d) System_AllQueues"
    "EncodeParams p |\<notin>| set_at (deleted_db p ks d) (Namespace_Queues (qp_ns p))"
    by (simp_all add: deleted_db_def)
qed

lemma deleted_db_keys: "k \<in> set ks \<Longrightarrow> deleted_db p ks d k = None"
  by (simp add: deleted_db_def del_keys_def)


definition created_sample :: db where
  "created_sample = created_db 7 sample_queue TypeFIFO DeliveryPointToPoint None empty_db"

lemma no_empty_put:
  "no_empty d \<Longrightarrow> no_empty (put_set k S d)" "no_empty d \<Longrightarrow> no_empty (put_hash k h d)"
  "no_empty d \<Longrightarrow> no_empty (put_list k xs d)"
  by (auto simp: no_empty_def)

lemma created_typed:
  assumes "queue_typed d p"
  shows "queue_typed (created_db now p qt dm rl d) p"
proof -
  have neq: "Queue_ExchangeBindings (qkey p) \<notin> set (create_queue_keys p)"
      "Queue_Consumers (qkey p) \<notin> set (create_queue_keys p)"
    by (simp_all add: create_queue_keys_def key_defs Key_eq_iff qkey_def)
  have views: "get_set (created_db now p qt dm rl d) (Queue_ExchangeBindings (qkey p)) = get_set d (Queue_ExchangeBindings (qkey p))"
      "get_hash (created_db now p qt dm rl d) (Queue_Consumers (qkey p)) = get_hash d (Queue_Consumers (qkey p))"
    by (rule get_other; simp add: created_db_views(4) neq)+
  have ne: "no_empty (created_db now p qt dm rl d)"
    unfolding created_db_def by (intro no_empty_put queue_typedD(1) [OF assms])
  show ?thesis
    unfolding queue_typed_def views
    using assms create_keys_distinct [of p] ne
    by (auto simp: queue_typed_def created_db_def create_queue_keys_def)
qed


text \<open>C21: the lock of a queue does not protect its rate limit. \<open>RateLimit_Set\<close> hands the script the
  name \<open>locked\<close> where the stored state is the number of the state, so the script's lock guard never
  fires: on a queue that is in the locked state, whoever holds the lock, the rate limit is replaced
  (unless Redis cannot be reached).\<close>

theorem rate_limit_ignores_lock:
  assumes "smq_queues env db other" and "queue_typed (db s) p"
    and "fmlookup (queue_hash (db s) p) F_OperationalState = Some (itoa StateLocked)"
    and "RateLimit_Set (env_redis env) p rl s = (r, s')"
  shows "r = Inr () \<and> fmlookup (queue_hash (db s') p) F_RateLimit = Some (MarshalRateLimitParams rl) \<or>
    (\<exists>e. r = Inl e \<and> conn_fault e)"
proof -
  have "queue_hash (db s) p \<noteq> fmempty" using assms(3) by auto
  from rate_limit_verdict_stored [OF this assms(3)]
  show ?thesis
    using smq_queues.RateLimit_Set_cases [OF assms(1,4,2)] by (auto simp: queue_hash_def)
qed

definition locked_sample :: db where
  "locked_sample = put_hash (Queue_Properties (qkey sample_queue))
     (fmap_of_list [(F_OperationalState, itoa StateLocked), (F_LockID, ''job-1'')]) empty_db"

theorem rate_limit_ignores_lock_witness:
  "\<exists>r d. RateLimit_Set (mem_redis (smq_scripts no_scripts)) sample_queue None locked_sample = (r, d) \<and>
     fmlookup (queue_hash locked_sample sample_queue) F_OperationalState = Some (itoa StateLocked) \<and>
     (r = Inr () \<and> fmlookup (queue_hash d sample_queue) F_RateLimit = Some [] \<or> (\<exists>e. r = Inl e \<and> conn_fault e))"
proof -
  obtain r d where run: "RateLimit_Set (mem_redis (smq_scripts no_scripts)) sample_queue None locked_sample = (r, d)"
    by fastforce
  have typed: "queue_typed locked_sample sample_queue"
    using empty_db_typed [of sample_queue]
    by (simp add: queue_typed_def locked_sample_def no_empty_put key_defs Key_eq_iff qkey_def)
  have locked: "fmlookup (queue_hash locked_sample sample_queue) F_OperationalState = Some (itoa StateLocked)"
    by (simp add: queue_hash_def locked_sample_def)
  from rate_limit_ignores_lock [OF mem_smq_queues, OF typed, OF locked, of None r d] run locked show ?thesis
    by (simp add: MarshalRateLimitParams_def)
qed

end
