(* ===== verification/Queue_State.thy ===== *)
theory Queue_State
  imports Queue_Store
begin

text \<open>
  The operational state of a queue: \<open>internal/queue/state.go\<close> and \<open>state_manager.go\<close> over
  \<open>set-queue-state.lua\<close>. The Go code reads the current state, checks the transition graph and the
  lock, and then asks the script to move the queue, which checks atomically that the state is still
  the one that was read and that a lock is only left with its id. The clock is the argument \<open>now\<close>
  (Unix milliseconds).

  The properties: an abstract machine of states and lock holders (\<open>lock_step\<close>) that the script
  refines, an invariant of all interleavings of scripts (\<open>lock_inv\<close>), and the outcome of the public
  operations.
\<close>

abbreviation maxHistorySize :: int where "maxHistorySize \<equiv> 100"

subsection \<open>Transitions\<close>

definition newInitialTransition :: "int \<Rightarrow> State \<Rightarrow> state_transition" where
  "newInitialTransition now state =
     \<lparr>t_From = None, t_To = state, t_Reason = ReasonSystemInit, t_Timestamp = now, t_Description = [],
      t_LockID = None, t_Owner = None, t_Metadata = []\<rparr>"

definition newTransition :: "int \<Rightarrow> State option \<Rightarrow> State \<Rightarrow> string \<Rightarrow> transition_options option \<Rightarrow> state_transition" where
  "newTransition now from to reason opts =
     (let t = \<lparr>t_From = from, t_To = to, t_Reason = reason, t_Timestamp = now, t_Description = [],
               t_LockID = None, t_Owner = None, t_Metadata = []\<rparr> in
      case opts of
        None \<Rightarrow> t
      | Some o' \<Rightarrow>
          let t1 = (case o_Description o' of None \<Rightarrow> t | Some d \<Rightarrow> t\<lparr>t_Description := d\<rparr>);
              t2 = (case o_LockID o' of None \<Rightarrow> t1 | Some l \<Rightarrow> t1\<lparr>t_LockID := Some l\<rparr>);
              t3 = (case o_Owner o' of None \<Rightarrow> t2 | Some w \<Rightarrow> t2\<lparr>t_Owner := Some w\<rparr>)
          in (case o_Metadata o' of None \<Rightarrow> t3 | Some m \<Rightarrow> t3\<lparr>t_Metadata := m\<rparr>))"

definition reasonFromOpts :: "transition_options option \<Rightarrow> string" where
  "reasonFromOpts opts =
     (case opts of None \<Rightarrow> ReasonManual | Some o' \<Rightarrow> (case o_Reason o' of None \<Rightarrow> ReasonManual | Some r \<Rightarrow> r))"

definition extractLockID :: "transition_options option \<Rightarrow> string" where
  "extractLockID opts =
     (case opts of None \<Rightarrow> [] | Some o' \<Rightarrow> (case o_LockID o' of None \<Rightarrow> [] | Some l \<Rightarrow> l))"

definition interpretReply :: "reply \<Rightarrow> state_transition \<Rightarrow> go_error + state_transition" where
  "interpretReply reply t =
     (case String_of reply of
        Inl err \<Rightarrow> Inl err
      | Inr s \<Rightarrow>
          if s = ''OK'' then Inr t
          else if s = ''QUEUE_NOT_FOUND'' then Inl (QueueErr Q_ErrNotFound)
          else if s = ''INVALID_STATE_TRANSITION'' then Inl (QueueErr Q_ErrInvalidTransition)
          else if s = ''INVALID_LOCK'' then Inl (QueueErr Q_ErrInvalidLock)
          else Inl (Errorf (''set queue state: unexpected script reply: '' @ s)))"

subsection \<open>Reading\<close>

definition parse_state :: "string \<Rightarrow> State" where
  "parse_state raw =
     (if raw = [] then StateActive
      else case parse_int raw of (v, None) \<Rightarrow> v | (_, Some _) \<Rightarrow> StateActive)"

definition decode_transition :: "string \<Rightarrow> go_error + state_transition" where
  "decode_transition txt =
     (case parse_json txt of
        None \<Rightarrow> Inl JsonErr
      | Some v \<Rightarrow> (case transition_of_json v of None \<Rightarrow> Inl JsonErr | Some t \<Rightarrow> Inr t))"

definition FetchCurrent :: "'s redis_server \<Rightarrow> int \<Rightarrow> queue_params \<Rightarrow> ('s, go_error, state_transition) io" where
  "FetchCurrent rd now p =
     (let propsKey = Queue_Properties (qkey p); historyKey = Queue_StateHistory (qkey p) in
      and_then (try_io (hget rd propsKey F_OperationalState)) (\<lambda>r.
      case r of
        Inl err \<Rightarrow>
          and_then (map_err RedisErr (exists_keys rd [propsKey])) (\<lambda>exists.
          if exists = 0 then throw (QueueErr Q_ErrNotFound) else throw (RedisErr err))
      | Inr raw \<Rightarrow>
          and_then (try_io (lindex rd historyKey 0)) (\<lambda>l.
          case l of
            Inl err \<Rightarrow> ret (newInitialTransition now (parse_state raw))
          | Inr latestJSON \<Rightarrow> lift_sum (decode_transition latestJSON))))"

definition FetchHistory :: "'s redis_server \<Rightarrow> queue_params \<Rightarrow> ('s, go_error, state_transition list) io" where
  "FetchHistory rd p =
     and_then (map_err RedisErr (lrange rd (Queue_StateHistory (qkey p)) 0 (-1))) (\<lambda>rawEntries.
     for_io (\<lambda>raw. lift_sum (decode_transition raw)) rawEntries)"

subsection \<open>Changing\<close>

definition set_state_keys :: "queue_params \<Rightarrow> string list" where
  "set_state_keys p = [Queue_Properties (qkey p), Queue_StateHistory (qkey p)]"

definition set_state_args :: "State option \<Rightarrow> State \<Rightarrow> state_transition \<Rightarrow> string \<Rightarrow> string list" where
  "set_state_args from to t lockId =
     [F_OperationalState, itoa to, json_text (transition_json t),
      (case from of None \<Rightarrow> [] | Some f \<Rightarrow> itoa f), itoa StateActive, itoa maxHistorySize, itoa StateLocked,
      lockId, F_LastStateChangeAt, itoa (t_Timestamp t), F_LockID]"

definition saveState :: "'s smq_env \<Rightarrow> int \<Rightarrow> queue_params \<Rightarrow> State option \<Rightarrow> State \<Rightarrow> string
    \<Rightarrow> transition_options option \<Rightarrow> ('s, go_error, state_transition) io" where
  "saveState env now p from to reason opts =
     (let t = newTransition now from to reason opts in
      and_then (Eval (env_redis env) SetQueueState (set_state_keys p) (set_state_args from to t (extractLockID opts))) (\<lambda>reply.
      and_then (lift_sum (interpretReply reply t)) (\<lambda>result.
      and_then (PublishStateChanged env p t) (\<lambda>_. ret result))))"

definition transitionTo :: "'s smq_env \<Rightarrow> int \<Rightarrow> queue_params \<Rightarrow> State \<Rightarrow> string
    \<Rightarrow> transition_options option \<Rightarrow> ('s, go_error, state_transition) io" where
  "transitionTo env now p target reason opts =
     and_then (FetchCurrent (env_redis env) now p) (\<lambda>current.
     if \<not> CanTransitionTo (t_To current) target then throw (QueueErr Q_ErrInvalidTransition)
     else saveState env now p (Some (t_To current)) target reason opts)"

definition lock_options :: "string \<Rightarrow> string \<Rightarrow> LockOwner option \<Rightarrow> transition_options option \<Rightarrow> transition_options" where
  "lock_options dflt i owner opts =
     \<lparr>o_Reason = None,
      o_Description = Some (case opts of None \<Rightarrow> dflt | Some o' \<Rightarrow> (case o_Description o' of None \<Rightarrow> dflt | Some d \<Rightarrow> d)),
      o_LockID = Some i, o_Owner = owner,
      o_Metadata = (case opts of None \<Rightarrow> None | Some o' \<Rightarrow> o_Metadata o')\<rparr>"

definition acquireLock :: "'s smq_env \<Rightarrow> int \<Rightarrow> queue_params \<Rightarrow> LockOwner \<Rightarrow> string \<Rightarrow> string
    \<Rightarrow> transition_options option \<Rightarrow> ('s, go_error, state_transition) io" where
  "acquireLock env now p owner i reason opts =
     (if i = [] then throw (QueueErr Q_ErrInvalidLock)
      else
      and_then (FetchCurrent (env_redis env) now p) (\<lambda>current.
      if \<not> CanTransitionTo (t_To current) StateLocked then throw (QueueErr Q_ErrInvalidTransition)
      else saveState env now p (Some (t_To current)) StateLocked reason
             (Some (lock_options ''Exclusive lock'' i (Some owner) opts))))"

definition releaseLock :: "'s smq_env \<Rightarrow> int \<Rightarrow> queue_params \<Rightarrow> LockOwner \<Rightarrow> string \<Rightarrow> string
    \<Rightarrow> transition_options option \<Rightarrow> ('s, go_error, state_transition) io" where
  "releaseLock env now p owner i reason opts =
     (if i = [] then throw (QueueErr Q_ErrInvalidLock)
      else
      and_then (FetchCurrent (env_redis env) now p) (\<lambda>current.
      if t_To current \<noteq> StateLocked then throw (QueueErr Q_ErrNotLocked)
      else if t_Owner current \<noteq> Some owner then throw (QueueErr Q_ErrLockOwnerMismatch)
      else if t_LockID current \<noteq> Some i then throw (QueueErr Q_ErrLockIDMismatch)
      else saveState env now p (Some (t_To current)) StateActive reason
             (Some (lock_options ''Queue unlocked'' i None opts))))"

subsection \<open>The public operations\<close>

definition TransitionTo :: "'s smq_env \<Rightarrow> int \<Rightarrow> queue_params \<Rightarrow> State \<Rightarrow> transition_options option \<Rightarrow> ('s, go_error, state_transition) io" where
  "TransitionTo env now p target opts = transitionTo env now p target (reasonFromOpts opts) opts"

definition AcquireLock :: "'s smq_env \<Rightarrow> int \<Rightarrow> queue_params \<Rightarrow> LockOwner \<Rightarrow> string \<Rightarrow> transition_options option \<Rightarrow> ('s, go_error, state_transition) io" where
  "AcquireLock env now p owner i opts = acquireLock env now p owner i (reasonFromOpts opts) opts"

definition ReleaseLock :: "'s smq_env \<Rightarrow> int \<Rightarrow> queue_params \<Rightarrow> LockOwner \<Rightarrow> string \<Rightarrow> transition_options option \<Rightarrow> ('s, go_error, state_transition) io" where
  "ReleaseLock env now p owner i opts = releaseLock env now p owner i (reasonFromOpts opts) opts"

definition StateManager_Pause :: "'s smq_env \<Rightarrow> int \<Rightarrow> queue_params \<Rightarrow> transition_options option \<Rightarrow> ('s, go_error, state_transition) io" where
  "StateManager_Pause env now p opts = TransitionTo env now p StatePaused opts"

definition StateManager_Resume :: "'s smq_env \<Rightarrow> int \<Rightarrow> queue_params \<Rightarrow> transition_options option \<Rightarrow> ('s, go_error, state_transition) io" where
  "StateManager_Resume env now p opts = TransitionTo env now p StateActive opts"

definition StateManager_Stop :: "'s smq_env \<Rightarrow> int \<Rightarrow> queue_params \<Rightarrow> transition_options option \<Rightarrow> ('s, go_error, state_transition) io" where
  "StateManager_Stop env now p opts = TransitionTo env now p StateStopped opts"

definition StateManager_Lock :: "'s smq_env \<Rightarrow> int \<Rightarrow> queue_params \<Rightarrow> LockOwner \<Rightarrow> string \<Rightarrow> transition_options option \<Rightarrow> ('s, go_error, state_transition) io" where
  "StateManager_Lock env now p owner i opts = AcquireLock env now p owner i opts"

definition StateManager_Unlock :: "'s smq_env \<Rightarrow> int \<Rightarrow> queue_params \<Rightarrow> LockOwner \<Rightarrow> string \<Rightarrow> transition_options option \<Rightarrow> ('s, go_error, state_transition) io" where
  "StateManager_Unlock env now p owner i opts = ReleaseLock env now p owner i opts"

subsection \<open>The machine of states and locks\<close>

text \<open>The stored state and the id of the lock ([] when there is none).\<close>

definition queue_lock :: "db \<Rightarrow> queue_params \<Rightarrow> string \<times> string" where
  "queue_lock d p =
     (state_of_hash F_OperationalState (itoa StateActive) (queue_hash d p), or_empty (fmlookup (queue_hash d p) F_LockID))"

text \<open>\<open>lock_step i\<close>: what a client that presents the lock id \<open>i\<close> may do.\<close>

inductive lock_step :: "string \<Rightarrow> State \<times> string \<Rightarrow> State \<times> string \<Rightarrow> bool" for i :: string where
  lock_plain: "CanTransitionTo n m \<Longrightarrow> n \<noteq> StateLocked \<Longrightarrow> m \<noteq> StateLocked \<Longrightarrow> lock_step i (n, l) (m, l)"
| lock_enter: "CanTransitionTo n StateLocked \<Longrightarrow> i \<noteq> [] \<Longrightarrow> lock_step i (n, l) (StateLocked, i)"
| lock_leave: "CanTransitionTo StateLocked m \<Longrightarrow> i \<noteq> [] \<Longrightarrow> lock_step i (StateLocked, i) (m, [])"

inductive_cases lock_step_from_locked: "lock_step i (StateLocked, l) x"
inductive_simps lock_step_iff: "lock_step i (n, l) (m, l')"

definition state_verdict :: "db \<Rightarrow> queue_params \<Rightarrow> State option \<Rightarrow> State \<Rightarrow> string \<Rightarrow> string" where
  "state_verdict d p from to i =
     (if queue_hash d p = fmempty then ''QUEUE_NOT_FOUND''
      else set_state_verdict F_OperationalState F_LockID (itoa StateActive) (itoa StateLocked) (itoa to)
             (case from of None \<Rightarrow> [] | Some f \<Rightarrow> itoa f) i (queue_hash d p))"

definition state_changed_db :: "queue_params \<Rightarrow> State \<Rightarrow> state_transition \<Rightarrow> string \<Rightarrow> db \<Rightarrow> db" where
  "state_changed_db p to t i d =
     put_list (Queue_StateHistory (qkey p)) (list_range 0 99 (json_text (transition_json t) # queue_history d p))
       (put_hash (Queue_Properties (qkey p))
         (set_state_hash F_OperationalState F_LockID F_LastStateChangeAt (itoa StateActive) (itoa StateLocked) (itoa to) i
            (itoa (t_Timestamp t)) (queue_hash d p)) d)"

lemma state_keys_neq: "Queue_StateHistory (qkey p) \<noteq> Queue_Properties (qkey p)"
  by (simp add: key_defs Key_eq_iff)

lemma set_state_script:
  assumes "queue_typed d p"
  shows "lua_set_queue_state (redis_apply en) (set_state_keys p) (set_state_args from to t i) d =
    (Inr (RBulk (state_verdict d p from to i)),
     if state_verdict d p from to i = ''OK'' then state_changed_db p to t i d else d)"
proof (cases "queue_hash d p = fmempty")
  case True
  then have "d (Queue_Properties (qkey p)) = None"
    using hash_absent [OF queue_typedD(5) [OF assms]] queue_typedD(1) [OF assms] by (simp add: no_empty_def)
  with True show ?thesis
    by (simp add: set_state_keys_def state_verdict_def lua_set_queue_state_not_found)
next
  case False
  have "atoi_value (itoa maxHistorySize) - 1 = (99 :: int)" by simp
  then show ?thesis
    unfolding set_state_keys_def set_state_args_def state_verdict_def state_changed_db_def
    by (subst lua_set_queue_state_run [OF queue_typedD(5) [OF assms] False queue_typedD(6) [OF assms] state_keys_neq])
      (simp add: False)
qed

lemma state_changed_views:
  "queue_hash (state_changed_db p to t i d) p =
     set_state_hash F_OperationalState F_LockID F_LastStateChangeAt (itoa StateActive) (itoa StateLocked) (itoa to) i
       (itoa (t_Timestamp t)) (queue_hash d p)"
  "queue_history (state_changed_db p to t i d) p = list_range 0 99 (json_text (transition_json t) # queue_history d p)"
  using state_keys_neq [of p] by (simp_all add: state_changed_db_def queue_hash_def queue_history_def)

lemma state_changed_lock:
  "queue_lock (state_changed_db p to t i d) p =
     (itoa to, if to = StateLocked then i
       else if fst (queue_lock d p) = itoa StateLocked then [] else snd (queue_lock d p))"
  by (simp add: queue_lock_def state_changed_views set_state_hash_def state_of_hash_def schema_defs)

lemma state_verdict_OK:
  assumes "CanTransitionTo n m" and "queue_lock d p = (itoa n0, l)"
  shows "state_verdict d p (Some n) m i = ''OK'' \<longleftrightarrow>
    queue_hash d p \<noteq> fmempty \<and> n0 = n \<and>
    (if m = StateLocked then i \<noteq> [] else n = StateLocked \<longrightarrow> i \<noteq> [] \<and> l = i)"
proof -
  have "fst (queue_lock d p) = itoa n0" "snd (queue_lock d p) = l" using assms(2) by simp_all
  then show ?thesis
    by (auto simp: state_verdict_def set_state_verdict_def queue_lock_def Let_def)
qed

lemma lock_step_enabled:
  assumes "CanTransitionTo n m"
  shows "(\<exists>l'. lock_step i (n, l) (m, l')) \<longleftrightarrow> (if m = StateLocked then i \<noteq> [] else n = StateLocked \<longrightarrow> i \<noteq> [] \<and> l = i)"
  using assms CanTransitionTo_irrefl by (auto simp: lock_step_iff)

lemma lock_step_changed:
  assumes "CanTransitionTo n m" and "queue_lock d p = (itoa n, l)" and "\<exists>l'. lock_step i (n, l) (m, l')"
  shows "lock_step i (n, l) (m, snd (queue_lock (state_changed_db p m t i d) p))"
  using assms CanTransitionTo_irrefl by (auto simp: lock_step_iff state_changed_lock)

subsection \<open>An invariant of all interleavings\<close>

definition lock_inv :: "db \<Rightarrow> queue_params \<Rightarrow> bool" where
  "lock_inv d p \<longleftrightarrow> queue_hash d p = fmempty \<or>
     (\<exists>n l. queue_lock d p = (itoa n, l) \<and> State_IsValid n \<and> (n = StateLocked \<longleftrightarrow> l \<noteq> []))"

text \<open>The databases that any number of clients can produce around one queue, a script at a time:
  creations, state changes along an edge of the transition graph (from whatever state the client
  has read, possibly long ago), changes of the rate limit, and anything else that leaves the
  queue's state, lock and history alone. A deletion removes the queue's hash and its history, and
  so leads back to an initial database.\<close>

inductive reach :: "queue_params \<Rightarrow> db \<Rightarrow> bool" for p :: queue_params where
  reach_init: "queue_typed d p \<Longrightarrow> queue_hash d p = fmempty \<Longrightarrow> queue_history d p = [] \<Longrightarrow> reach p d"
| reach_create: "reach p d \<Longrightarrow>
    lua_create_queue (redis_apply en) (create_queue_keys p) (create_queue_args now p qt dm rl) d = (r, d') \<Longrightarrow> reach p d'"
| reach_change: "reach p d \<Longrightarrow> CanTransitionTo n m \<Longrightarrow>
    lua_set_queue_state (redis_apply en) (set_state_keys p) (set_state_args (Some n) m t i) d = (r, d') \<Longrightarrow> reach p d'"
| reach_rate: "reach p d \<Longrightarrow>
    lua_set_rate_limit (redis_apply en) [Queue_Properties (qkey p)]
      [F_RateLimit, MarshalRateLimitParams rl, F_OperationalState, State_String StateLocked, F_LockID, []] d = (r, d') \<Longrightarrow> reach p d'"
| reach_other: "reach p d \<Longrightarrow> queue_typed d' p \<Longrightarrow> queue_lock d' p = queue_lock d p \<Longrightarrow>
    queue_history d' p = queue_history d p \<Longrightarrow>
    (queue_hash d' p = fmempty \<longleftrightarrow> queue_hash d p = fmempty) \<Longrightarrow> reach p d'"

lemma length_list_range: "length (list_range 0 99 xs) \<le> 100"
  by (simp add: list_range_def Let_def)

lemma typed_own_keys:
  assumes "queue_typed d p"
  shows "queue_typed (put_list (Queue_StateHistory (qkey p)) xs d) p"
    and "queue_typed (put_hash (Queue_Properties (qkey p)) h d) p"
proof -
  have neq: "System_AllQueues \<noteq> Queue_StateHistory (qkey p)" "System_AllNamespaces \<noteq> Queue_StateHistory (qkey p)"
      "Namespace_Queues (qp_ns p) \<noteq> Queue_StateHistory (qkey p)" "Queue_Properties (qkey p) \<noteq> Queue_StateHistory (qkey p)"
      "Queue_ExchangeBindings (qkey p) \<noteq> Queue_StateHistory (qkey p)" "Queue_Consumers (qkey p) \<noteq> Queue_StateHistory (qkey p)"
      "System_AllQueues \<noteq> Queue_Properties (qkey p)" "System_AllNamespaces \<noteq> Queue_Properties (qkey p)"
      "Namespace_Queues (qp_ns p) \<noteq> Queue_Properties (qkey p)" "Queue_StateHistory (qkey p) \<noteq> Queue_Properties (qkey p)"
      "Queue_ExchangeBindings (qkey p) \<noteq> Queue_Properties (qkey p)" "Queue_Consumers (qkey p) \<noteq> Queue_Properties (qkey p)"
    by (simp_all add: key_defs Key_eq_iff qkey_def)
  show "queue_typed (put_list (Queue_StateHistory (qkey p)) xs d) p"
    using assms by (simp add: queue_typed_def no_empty_put neq)
  show "queue_typed (put_hash (Queue_Properties (qkey p)) h d) p"
    using assms by (simp add: queue_typed_def no_empty_put neq)
qed

lemma state_changed_typed: "queue_typed d p \<Longrightarrow> queue_typed (state_changed_db p m t i d) p"
  unfolding state_changed_db_def by (intro typed_own_keys)

lemma rate_limit_step:
  assumes "queue_typed d p"
    and "lua_set_rate_limit (redis_apply en) [Queue_Properties (qkey p)]
      [F_RateLimit, rl, F_OperationalState, locked, F_LockID, []] d = (r, d')"
  shows "queue_typed d' p" "queue_lock d' p = queue_lock d p" "queue_history d' p = queue_history d p"
    "queue_hash d' p = fmempty \<longleftrightarrow> queue_hash d p = fmempty"
proof -
  have neq: "Queue_StateHistory (qkey p) \<noteq> Queue_Properties (qkey p)" by (rule state_keys_neq)
  consider "d' = d" | "queue_hash d p \<noteq> fmempty" "d' = put_hash (Queue_Properties (qkey p)) (fmupd F_RateLimit rl (queue_hash d p)) d"
  proof (cases "lock_guard_verdict (queue_hash d p) F_OperationalState locked F_LockID []")
    case None
    then have "queue_hash d p \<noteq> fmempty" by (auto simp: lock_guard_verdict_def)
    with None show ?thesis
      using assms(2) that(2) by (simp add: lua_set_rate_limit_run [OF queue_typedD(5,1) [OF assms(1)]])
  next
    case (Some v)
    then show ?thesis
      using assms(2) that(1) by (simp add: lua_set_rate_limit_run [OF queue_typedD(5,1) [OF assms(1)]])
  qed
  then show "queue_typed d' p" "queue_lock d' p = queue_lock d p" "queue_history d' p = queue_history d p"
    "queue_hash d' p = fmempty \<longleftrightarrow> queue_hash d p = fmempty"
    using assms(1) neq
    by (cases; simp add: typed_own_keys queue_lock_def queue_hash_def queue_history_def state_of_hash_def schema_defs)+
qed

lemma created_lock:
  "queue_lock (created_db now p qt dm rl d) p = (itoa StateActive, [])"
  by (simp add: queue_lock_def queue_hash_def created_db_views(3) created_hash_def hset_all_def
      state_of_hash_def schema_defs)

lemma created_history:
  "queue_history (created_db now p qt dm rl d) p =
     list_range 0 99 (json_text (transition_json (initial_transition now qt dm)) # queue_history d p)"
  by (simp add: queue_history_def created_db_def)

lemma reach_inv: "reach p d \<Longrightarrow> queue_typed d p \<and> lock_inv d p \<and> length (queue_history d p) \<le> 100"
proof (induction rule: reach.induct)
  case (reach_init d)
  then show ?case by (simp add: lock_inv_def)
next
  case (reach_create d en now qt dm rl r d')
  from reach_create.IH have typed: "queue_typed d p" by simp
  show ?case
  proof (cases "EncodeParams p |\<in>| set_at d System_AllQueues")
    case True
    with reach_create show ?thesis by (simp add: create_queue_script [OF typed])
  next
    case False
    with reach_create.hyps(2) have d': "d' = created_db now p qt dm rl d"
      by (simp add: create_queue_script [OF typed])
    have "lock_inv d' p"
      unfolding lock_inv_def d' created_lock by (simp add: State_IsValid_def enum_defs)
    then show ?thesis
      by (simp add: d' created_typed [OF typed] created_history length_list_range)
  qed
next
  case (reach_change d n m en t i r d')
  from reach_change.IH have typed: "queue_typed d p" by simp
  consider "d' = d" | "state_verdict d p (Some n) m i = ''OK''" "d' = state_changed_db p m t i d"
  proof (cases "state_verdict d p (Some n) m i = ''OK''")
    case True
    with reach_change.hyps(3) have "d' = state_changed_db p m t i d" by (simp add: set_state_script [OF typed])
    with True that(2) show ?thesis by blast
  next
    case False
    with reach_change.hyps(3) have "d' = d" by (simp add: set_state_script [OF typed])
    with that(1) show ?thesis by blast
  qed
  then show ?case
  proof cases
    case 2
    then have ne: "queue_hash d p \<noteq> fmempty" by (auto simp: state_verdict_def)
    then obtain n0 l where q: "queue_lock d p = (itoa n0, l)" and inv: "n0 = StateLocked \<longleftrightarrow> l \<noteq> []"
      using reach_change.IH by (auto simp: lock_inv_def)
    have "(if m = StateLocked then i \<noteq> [] else n = StateLocked \<longrightarrow> i \<noteq> [] \<and> l = i)"
      using 2 state_verdict_OK [OF reach_change.hyps(2) q] by simp
    then have "queue_lock d' p = (itoa m, if m = StateLocked then i else [])"
      using 2 q inv by (auto simp: state_changed_lock)
    moreover have "m = StateLocked \<longrightarrow> i \<noteq> []"
      using 2 state_verdict_OK [OF reach_change.hyps(2) q] by simp
    ultimately have "lock_inv d' p"
      using CanTransitionTo_valid [OF reach_change.hyps(2)] by (auto simp: lock_inv_def)
    with 2 reach_change.IH show ?thesis
      by (simp add: state_changed_typed state_changed_views length_list_range)
  qed (use reach_change.IH in simp)
next
  case (reach_rate d en rl r d')
  from reach_rate.IH have typed: "queue_typed d p" by simp
  from reach_rate.IH rate_limit_step [OF typed reach_rate.hyps(2)] show ?case
    by (simp add: lock_inv_def)
next
  case (reach_other d d')
  then show ?case by (simp add: lock_inv_def)
qed

subsection \<open>The operations\<close>

lemma newTransition_simps [simp]:
  "t_From (newTransition now from to reason opts) = from" "t_To (newTransition now from to reason opts) = to"
  by (simp_all add: newTransition_def Let_def split: option.splits)

lemma extractLockID_lock_options [simp]: "extractLockID (Some (lock_options dflt i owner opts)) = i"
  by (simp add: extractLockID_def lock_options_def)

context smq_queues
begin

lemma FetchCurrent_keeps: "keeps db (FetchCurrent (env_redis env) now p)"
  unfolding FetchCurrent_def Let_def by (intro keeps_intros call_keeps)

lemma saveState_cases:
  assumes run: "saveState env now p from to reason opts s = (r, s')" and typed: "queue_typed (db s) p"
  shows "state_verdict (db s) p from to (extractLockID opts) = ''OK'' \<and>
      r = Inr (newTransition now from to reason opts) \<and>
      db s' = state_changed_db p to (newTransition now from to reason opts) (extractLockID opts) (db s) \<or>
    state_verdict (db s) p from to (extractLockID opts) \<noteq> ''OK'' \<and> isl r \<and> db s' = db s \<or>
    (\<exists>e. r = Inl e \<and> conn_fault e)"
proof -
  let ?t = "newTransition now from to reason opts" and ?i = "extractLockID opts"
  let ?v = "state_verdict (db s) p from to ?i"
  obtain r1 s1 where ev: "Eval (env_redis env) SetQueueState (set_state_keys p) (set_state_args from to ?t ?i) s = (r1, s1)"
    by fastforce
  have "r1 = Inr (RBulk ?v) \<and> db s1 = (if ?v = ''OK'' then state_changed_db p to ?t ?i (db s) else db s) \<or>
      (\<exists>e. r1 = Inl e \<and> conn_fault e)"
    by (rule Eval_cases [OF ev]) (simp add: smq_scripts_def set_state_script [OF typed])
  then show ?thesis
  proof (elim disjE conjE exE)
    assume r1: "r1 = Inr (RBulk ?v)" and s1: "db s1 = (if ?v = ''OK'' then state_changed_db p to ?t ?i (db s) else db s)"
    show ?thesis
    proof (cases "?v = ''OK''")
      case True
      with run ev r1 have "and_then (PublishStateChanged env p ?t) (\<lambda>_. ret ?t) s1 = (r, s')"
        by (simp add: saveState_def Let_def and_then_Inr interpretReply_def String_of_def)
      from after_event [OF this [unfolded PublishStateChanged_def]] have "r = Inr ?t" "db s' = db s1" by auto
      with True s1 show ?thesis by simp
    next
      case False
      then have "isl (interpretReply (RBulk ?v) ?t)"
        by (simp add: interpretReply_def String_of_def)
      then obtain e where "interpretReply (RBulk ?v) ?t = Inl e" by (auto simp: isl_def)
      with run ev r1 have "r = Inl e" "s' = s1"
        by (simp_all add: saveState_def Let_def and_then_Inr)
      with False s1 show ?thesis by simp
    qed
  next
    fix e assume "r1 = Inl e" "conn_fault e"
    with run ev show ?thesis by (auto simp: saveState_def Let_def and_then_Inl)
  qed
qed

text \<open>All transitions read the current state, refuse or save: \<open>good\<close> is what the guards establish.\<close>

lemma transition_cases:
  assumes run: "and_then (FetchCurrent (env_redis env) now p) f s = (r, s')" and typed: "queue_typed (db s) p"
    and shape: "\<And>current. (\<exists>e. f current = throw e) \<or>
      good current \<and> f current = saveState env now p (Some (t_To current)) target reason opts"
  shows "(\<exists>t current. r = Inr t \<and> good current \<and> t = newTransition now (Some (t_To current)) target reason opts \<and>
      state_verdict (db s) p (Some (t_To current)) target (extractLockID opts) = ''OK'' \<and>
      db s' = state_changed_db p target t (extractLockID opts) (db s)) \<or>
    (\<exists>e. r = Inl e \<and> (conn_fault e \<or> db s' = db s))"
proof -
  obtain r1 s1 where fetch: "FetchCurrent (env_redis env) now p s = (r1, s1)" by fastforce
  have s1: "db s1 = db s" using keepsD [OF FetchCurrent_keeps fetch] .
  show ?thesis
  proof (cases r1)
    case (Inl e)
    with run fetch s1 show ?thesis by (auto simp: and_then_Inl)
  next
    case (Inr current)
    with run fetch have f: "f current s1 = (r, s')" by (simp add: and_then_Inr)
    consider e where "f current = throw e"
      | "good current" "f current = saveState env now p (Some (t_To current)) target reason opts"
      using shape [of current] by blast
    then show ?thesis
    proof cases
      case 1
      with f s1 show ?thesis by (auto simp: throw_def)
    next
      case 2
      with saveState_cases [of now p _ target reason opts s1 r s'] f typed s1 show ?thesis
        by (cases r) auto
    qed
  qed
qed

lemma releaseLock_cases:
  assumes "releaseLock env now p owner i reason opts s = (r, s')" and "queue_typed (db s) p"
  shows "(\<exists>t. r = Inr t \<and> i \<noteq> [] \<and> state_verdict (db s) p (Some StateLocked) StateActive i = ''OK'' \<and>
      db s' = state_changed_db p StateActive t i (db s)) \<or>
    (\<exists>e. r = Inl e \<and> (conn_fault e \<or> db s' = db s))"
proof (cases "i = []")
  case False
  let ?opts = "Some (lock_options ''Queue unlocked'' i None opts)"
  let ?f = "\<lambda>current. if t_To current \<noteq> StateLocked then throw (QueueErr Q_ErrNotLocked)
      else if t_Owner current \<noteq> Some owner then throw (QueueErr Q_ErrLockOwnerMismatch)
      else if t_LockID current \<noteq> Some i then throw (QueueErr Q_ErrLockIDMismatch)
      else saveState env now p (Some (t_To current)) StateActive reason ?opts"
  have "and_then (FetchCurrent (env_redis env) now p) ?f s = (r, s')"
    using assms(1) False by (simp add: releaseLock_def)
  moreover have "(\<exists>e. ?f c = throw e) \<or> t_To c = StateLocked \<and>
      ?f c = saveState env now p (Some (t_To c)) StateActive reason ?opts" for c by auto
  ultimately show ?thesis using False
    by (auto dest!: transition_cases [OF _ assms(2), where good = "\<lambda>c. t_To c = StateLocked"])
qed (use assms in \<open>auto simp: releaseLock_def throw_def\<close>)

lemma acquireLock_cases:
  assumes "acquireLock env now p owner i reason opts s = (r, s')" and "queue_typed (db s) p"
  shows "(\<exists>t n. r = Inr t \<and> i \<noteq> [] \<and> CanTransitionTo n StateLocked \<and>
      state_verdict (db s) p (Some n) StateLocked i = ''OK'' \<and> db s' = state_changed_db p StateLocked t i (db s)) \<or>
    (\<exists>e. r = Inl e \<and> (conn_fault e \<or> db s' = db s))"
proof (cases "i = []")
  case False
  let ?opts = "Some (lock_options ''Exclusive lock'' i (Some owner) opts)"
  let ?f = "\<lambda>current. if \<not> CanTransitionTo (t_To current) StateLocked then throw (QueueErr Q_ErrInvalidTransition)
      else saveState env now p (Some (t_To current)) StateLocked reason ?opts"
  have "and_then (FetchCurrent (env_redis env) now p) ?f s = (r, s')"
    using assms(1) False by (simp add: acquireLock_def)
  moreover have "(\<exists>e. ?f c = throw e) \<or> CanTransitionTo (t_To c) StateLocked \<and>
      ?f c = saveState env now p (Some (t_To c)) StateLocked reason ?opts" for c by auto
  ultimately show ?thesis using False
    by (auto dest!: transition_cases [OF _ assms(2), where good = "\<lambda>c. CanTransitionTo (t_To c) StateLocked"])
qed (use assms in \<open>auto simp: acquireLock_def throw_def\<close>)

lemma TransitionTo_cases:
  assumes "TransitionTo env now p target opts s = (r, s')" and "queue_typed (db s) p"
  shows "(\<exists>t n. r = Inr t \<and> CanTransitionTo n target \<and> t_From t = Some n \<and> t_To t = target \<and>
      state_verdict (db s) p (Some n) target (extractLockID opts) = ''OK'' \<and>
      db s' = state_changed_db p target t (extractLockID opts) (db s)) \<or>
    (\<exists>e. r = Inl e \<and> (conn_fault e \<or> db s' = db s))"
proof -
  let ?f = "\<lambda>c. if \<not> CanTransitionTo (t_To c) target then throw (QueueErr Q_ErrInvalidTransition)
      else saveState env now p (Some (t_To c)) target (reasonFromOpts opts) opts"
  have "and_then (FetchCurrent (env_redis env) now p) ?f s = (r, s')"
    using assms(1) by (simp add: TransitionTo_def transitionTo_def)
  moreover have "(\<exists>e. ?f c = throw e) \<or> CanTransitionTo (t_To c) target \<and>
      ?f c = saveState env now p (Some (t_To c)) target (reasonFromOpts opts) opts" for c by auto
  ultimately show ?thesis
    by (auto dest!: transition_cases [OF _ assms(2), where good = "\<lambda>c. CanTransitionTo (t_To c) target"])
qed

end

lemma list_range_take: "list_range 0 99 xs = take 100 xs"
  by (simp add: list_range_def Let_def)

text \<open>C7: the script \<open>set-queue-state.lua\<close>, called with the arguments that \<open>saveState\<close> builds for a
  transition from \<open>n\<close> to \<open>m\<close> along the transition graph, refines the abstract machine of states
  and locks. It succeeds exactly when the stored state is still \<open>n\<close> and the abstract machine allows
  the move under the presented lock id; it then performs exactly that move; otherwise it changes
  nothing. In particular a locked queue is left only with the id that locked it.\<close>

theorem set_queue_state_refines:
  assumes "queue_typed d p" and "queue_hash d p \<noteq> fmempty" and "queue_lock d p = (itoa n0, l)"
    and "CanTransitionTo n m"
  shows "\<exists>v d'. lua_set_queue_state (redis_apply en) (set_state_keys p) (set_state_args (Some n) m t i) d = (Inr (RBulk v), d') \<and>
    (v = ''OK'' \<longleftrightarrow> n0 = n \<and> (\<exists>l'. lock_step i (n, l) (m, l'))) \<and>
    (v = ''OK'' \<longrightarrow> fst (queue_lock d' p) = itoa m \<and> lock_step i (n, l) (m, snd (queue_lock d' p))) \<and>
    (v \<noteq> ''OK'' \<longrightarrow> d' = d)"
proof -
  let ?v = "state_verdict d p (Some n) m i"
  have ok: "?v = ''OK'' \<longleftrightarrow> n0 = n \<and> (\<exists>l'. lock_step i (n, l) (m, l'))"
    using state_verdict_OK [OF assms(4,3), of i] assms(2) by (simp add: lock_step_enabled [OF assms(4)])
  have step: "lock_step i (n, l) (m, snd (queue_lock (state_changed_db p m t i d) p))" if "?v = ''OK''"
    using that ok assms(3) by (intro lock_step_changed [OF assms(4)]) simp_all
  have fst: "fst (queue_lock (state_changed_db p m t i d) p) = itoa m" by (simp add: state_changed_lock)
  show ?thesis
  proof (cases "?v = ''OK''")
    case True
    with ok step fst show ?thesis by (simp add: set_state_script [OF assms(1)])
  next
    case False
    with ok show ?thesis by (auto simp: set_state_script [OF assms(1)])
  qed
qed

theorem set_queue_state_refines_witness:
  "queue_lock created_sample sample_queue = (itoa StateActive, []) \<and>
   (\<exists>v d'. lua_set_queue_state (redis_apply mem_enum) (set_state_keys sample_queue)
      (set_state_args (Some StateActive) StateLocked (newTransition 9 (Some StateActive) StateLocked ''MANUAL'' None) ''job-1'')
      created_sample = (Inr (RBulk v), d') \<and> v = ''OK'' \<and> lock_step ''job-1'' (StateActive, []) (StateLocked, snd (queue_lock d' sample_queue)))"
proof -
  have typed: "queue_typed created_sample sample_queue"
    unfolding created_sample_def by (rule created_typed [OF empty_db_typed])
  have ne: "queue_hash created_sample sample_queue \<noteq> fmempty"
    by (simp add: created_sample_def queue_hash_def created_db_views(3) created_hash_def hset_all_def)
  have lock: "queue_lock created_sample sample_queue = (itoa StateActive, [])"
    by (simp add: created_sample_def created_lock)
  have can: "CanTransitionTo StateActive StateLocked" by (simp add: CanTransitionTo_iff)
  have "\<exists>l'. lock_step ''job-1'' (StateActive, []) (StateLocked, l')"
    using lock_enter [OF can, of "''job-1''" "[]"] by auto
  with lock set_queue_state_refines [OF typed ne lock can, of mem_enum
      "newTransition 9 (Some StateActive) StateLocked ''MANUAL'' None" "''job-1''"]
  show ?thesis by auto
qed

text \<open>C6: however many clients create, lock, unlock, pause, resume, stop or rate-limit a queue, and in
  whatever order their scripts are executed, an existing queue is always in one of the four states,
  it carries a lock id exactly while it is locked, and its history never exceeds the hundred entries
  of \<open>maxHistorySize\<close>.\<close>

theorem queue_state_invariant:
  assumes "reach p d"
  shows "length (queue_history d p) \<le> 100 \<and>
    (queue_hash d p \<noteq> fmempty \<longrightarrow>
      (\<exists>n l. queue_lock d p = (itoa n, l) \<and> State_IsValid n \<and> (n = StateLocked \<longleftrightarrow> l \<noteq> [])))"
  using reach_inv [OF assms] by (auto simp: lock_inv_def)

lemma reach_created: "reach p (created_db now p qt dm rl empty_db)"
proof (rule reach_create [OF reach_init])
  show "queue_typed empty_db p" by (rule empty_db_typed)
  show "queue_hash empty_db p = fmempty" "queue_history empty_db p = []"
    by (simp_all add: queue_hash_def queue_history_def empty_db_def)
  show "lua_create_queue (redis_apply mem_enum) (create_queue_keys p) (create_queue_args now p qt dm rl) empty_db =
      (Inr (RBulk ''OK''), created_db now p qt dm rl empty_db)"
    by (simp add: create_queue_script [OF empty_db_typed]) (simp add: set_at_def empty_db_def)
qed

theorem queue_state_invariant_witness:
  "reach sample_queue created_sample \<and> queue_hash created_sample sample_queue \<noteq> fmempty \<and>
   (\<exists>n l. queue_lock created_sample sample_queue = (itoa n, l) \<and> State_IsValid n \<and> (n = StateLocked \<longleftrightarrow> l \<noteq> []))"
proof -
  have "reach sample_queue created_sample" unfolding created_sample_def by (rule reach_created)
  moreover have "queue_hash created_sample sample_queue \<noteq> fmempty"
    by (simp add: created_sample_def queue_hash_def created_db_views(3) created_hash_def hset_all_def)
  ultimately show ?thesis using queue_state_invariant [of sample_queue created_sample] by blast
qed

text \<open>C19: a successful \<open>TransitionTo\<close> (pause, resume, stop) has moved the queue from the state it was
  in to the target along an edge of the transition graph, under the lock rules of the abstract
  machine for the lock id in the options, and has put the transition it returns at the head of the
  history, of which it keeps the hundred most recent entries. Any other outcome either is a failure
  to reach Redis or has changed nothing.\<close>

theorem transition_outcome:
  assumes "smq_queues env db other" and "queue_typed (db s) p" and "queue_lock (db s) p = (itoa n, l)"
    and "TransitionTo env now p target opts s = (r, s')"
  shows "case r of
      Inr t \<Rightarrow> CanTransitionTo n target \<and> t_From t = Some n \<and> t_To t = target \<and>
        fst (queue_lock (db s') p) = itoa target \<and>
        lock_step (extractLockID opts) (n, l) (target, snd (queue_lock (db s') p)) \<and>
        queue_history (db s') p = take 100 (json_text (transition_json t) # queue_history (db s) p)
    | Inl e \<Rightarrow> conn_fault e \<or> db s' = db s"
proof (cases r)
  case (Inl e)
  with smq_queues.TransitionTo_cases [OF assms(1,4,2)] show ?thesis by auto
next
  case (Inr t)
  with smq_queues.TransitionTo_cases [OF assms(1,4,2)]
  obtain m where can: "CanTransitionTo m target" and t: "t_From t = Some m" "t_To t = target"
    and ok: "state_verdict (db s) p (Some m) target (extractLockID opts) = ''OK''"
    and s': "db s' = state_changed_db p target t (extractLockID opts) (db s)" by auto
  have "n = m" and "\<exists>l'. lock_step (extractLockID opts) (m, l) (target, l')"
    using ok state_verdict_OK [OF can assms(3)] lock_step_enabled [OF can] by auto
  with lock_step_changed [OF can, of "db s" p l] assms(3) Inr can t s' show ?thesis
    by (simp add: state_changed_lock state_changed_views list_range_take)
qed

theorem transition_outcome_witness:
  "\<exists>r d. TransitionTo (mem_env (smq_scripts no_scripts)) 9 sample_queue StatePaused None created_sample = (r, d) \<and>
     queue_lock created_sample sample_queue = (itoa StateActive, []) \<and>
     (case r of Inr t \<Rightarrow> t_To t = StatePaused \<and> fst (queue_lock d sample_queue) = itoa StatePaused
      | Inl e \<Rightarrow> conn_fault e \<or> d = created_sample)"
proof -
  obtain r d where run: "TransitionTo (mem_env (smq_scripts no_scripts)) 9 sample_queue StatePaused None created_sample = (r, d)"
    by fastforce
  have typed: "queue_typed created_sample sample_queue"
    unfolding created_sample_def by (rule created_typed [OF empty_db_typed])
  have lock: "queue_lock created_sample sample_queue = (itoa StateActive, [])"
    by (simp add: created_sample_def created_lock)
  from transition_outcome [OF mem_smq_queues, OF typed, OF lock, OF run] run lock show ?thesis
    by (cases r) auto
qed

text \<open>locks exclude each other. A successful \<open>AcquireLock\<close> found the queue unlocked and leaves it
  locked under its non-empty id. Any other outcome either is a failure to reach Redis or has changed
  nothing.\<close>

theorem acquire_lock_outcome:
  assumes "smq_queues env db other" and "queue_typed (db s) p" and "queue_lock (db s) p = (itoa n, l)"
    and "AcquireLock env now p owner i opts s = (r, s')"
  shows "case r of
      Inr _ \<Rightarrow> i \<noteq> [] \<and> n \<noteq> StateLocked \<and> queue_lock (db s') p = (itoa StateLocked, i)
    | Inl e \<Rightarrow> conn_fault e \<or> db s' = db s"
proof -
  from smq_queues.acquireLock_cases [OF assms(1) assms(4) [unfolded AcquireLock_def] assms(2)]
  consider t m where "r = Inr t" "i \<noteq> []" "CanTransitionTo m StateLocked"
      "state_verdict (db s) p (Some m) StateLocked i = ''OK''" "db s' = state_changed_db p StateLocked t i (db s)"
    | e where "r = Inl e" "conn_fault e \<or> db s' = db s" by blast
  then show ?thesis
    by cases (use state_verdict_OK [OF _ assms(3)] CanTransitionTo_irrefl in \<open>auto simp: state_changed_lock\<close>)
qed

theorem acquire_lock_outcome_witness:
  "\<exists>r d. AcquireLock (mem_env (smq_scripts no_scripts)) 9 sample_queue LockOwnerPurgeJob ''job-1'' None created_sample = (r, d) \<and>
     queue_lock created_sample sample_queue = (itoa StateActive, []) \<and>
     (case r of Inr _ \<Rightarrow> queue_lock d sample_queue = (itoa StateLocked, ''job-1'')
      | Inl e \<Rightarrow> conn_fault e \<or> d = created_sample)"
proof -
  obtain r d where run: "AcquireLock (mem_env (smq_scripts no_scripts)) 9 sample_queue LockOwnerPurgeJob ''job-1'' None created_sample = (r, d)"
    by fastforce
  have typed: "queue_typed created_sample sample_queue"
    unfolding created_sample_def by (rule created_typed [OF empty_db_typed])
  have lock: "queue_lock created_sample sample_queue = (itoa StateActive, [])"
    by (simp add: created_sample_def created_lock)
  from acquire_lock_outcome [OF mem_smq_queues, OF typed, OF lock, OF run] run lock show ?thesis
    by (cases r) auto
qed

text \<open>a lock is released only by its holder. A successful \<open>ReleaseLock\<close> found the queue locked
  under exactly the non-empty id it presents, and leaves it active and without a lock. Any other
  outcome either is a failure to reach Redis or has changed nothing.\<close>

theorem release_lock_outcome:
  assumes "smq_queues env db other" and "queue_typed (db s) p" and "queue_lock (db s) p = (itoa n, l)"
    and "ReleaseLock env now p owner i opts s = (r, s')"
  shows "case r of
      Inr _ \<Rightarrow> i \<noteq> [] \<and> n = StateLocked \<and> l = i \<and> queue_lock (db s') p = (itoa StateActive, [])
    | Inl e \<Rightarrow> conn_fault e \<or> db s' = db s"
proof -
  have can: "CanTransitionTo StateLocked StateActive" "StateActive \<noteq> StateLocked"
    by (simp_all add: CanTransitionTo_iff enum_defs)
  from smq_queues.releaseLock_cases [OF assms(1) assms(4) [unfolded ReleaseLock_def] assms(2)]
  consider t where "r = Inr t" "i \<noteq> []"
      "state_verdict (db s) p (Some StateLocked) StateActive i = ''OK''" "db s' = state_changed_db p StateActive t i (db s)"
    | e where "r = Inl e" "conn_fault e \<or> db s' = db s" by blast
  then show ?thesis
    by cases (use state_verdict_OK [OF can(1) assms(3)] can assms(3) in \<open>auto simp: state_changed_lock\<close>)
qed

theorem release_lock_outcome_witness:
  "\<exists>r d. ReleaseLock (mem_env (smq_scripts no_scripts)) 9 sample_queue LockOwnerPurgeJob ''job-1'' None locked_sample = (r, d) \<and>
     queue_lock locked_sample sample_queue = (itoa StateLocked, ''job-1'') \<and>
     (case r of Inr _ \<Rightarrow> queue_lock d sample_queue = (itoa StateActive, [])
      | Inl e \<Rightarrow> conn_fault e \<or> d = locked_sample)"
proof -
  obtain r d where run: "ReleaseLock (mem_env (smq_scripts no_scripts)) 9 sample_queue LockOwnerPurgeJob ''job-1'' None locked_sample = (r, d)"
    by fastforce
  have typed: "queue_typed locked_sample sample_queue"
    using empty_db_typed [of sample_queue]
    by (simp add: queue_typed_def locked_sample_def no_empty_put key_defs Key_eq_iff qkey_def)
  have lock: "queue_lock locked_sample sample_queue = (itoa StateLocked, ''job-1'')"
    by (simp add: queue_lock_def queue_hash_def locked_sample_def state_of_hash_def schema_defs)
  from release_lock_outcome [OF mem_smq_queues, OF typed, OF lock, OF run] run lock show ?thesis
    by (cases r) auto
qed

end
