(* ===== verification/Exchange_Types.thy ===== *)
theory Exchange_Types
  imports Queue_Codec Redis_Data
begin

text \<open>
  Exchanges as data: \<open>pkg/exchange\<close> (the enumerations \<open>Type\<close> and \<open>Policy\<close>, \<open>Params\<close> with its
  constructor and JSON form, \<open>Props\<close>) and \<open>internal/exchange/codec.go\<close> with its schema. The
  encoders of parameters never fail in Go (\<open>json.Marshal\<close> of strings and integers), so they are
  total here. The round trips at the end are what the binding stores rely on.
\<close>

subsection \<open>Enumerations\<close>

type_synonym exchange_type = int

definition TypeDirect :: exchange_type where [enum_defs]: "TypeDirect = 0"
definition TypeFanout :: exchange_type where [enum_defs]: "TypeFanout = 1"
definition TypeTopic :: exchange_type where [enum_defs]: "TypeTopic = 2"

definition exchange_types :: "exchange_type list" where
  "exchange_types = [TypeDirect, TypeFanout, TypeTopic]"

definition ExchangeType_String :: "exchange_type \<Rightarrow> string" where
  "ExchangeType_String t =
     (if t = TypeDirect then ''direct'' else if t = TypeFanout then ''fanout''
      else if t = TypeTopic then ''topic'' else ''unknown'')"

definition ExchangeType_IsValid :: "exchange_type \<Rightarrow> bool" where
  "ExchangeType_IsValid t \<longleftrightarrow> TypeDirect \<le> t \<and> t \<le> TypeTopic"

type_synonym Policy = int

definition PolicyStandard :: Policy where [enum_defs]: "PolicyStandard = 0"
definition PolicyPriority :: Policy where [enum_defs]: "PolicyPriority = 1"

definition exchange_policies :: "Policy list" where
  "exchange_policies = [PolicyStandard, PolicyPriority]"

definition Policy_String :: "Policy \<Rightarrow> string" where
  "Policy_String p =
     (if p = PolicyStandard then ''standard'' else if p = PolicyPriority then ''priority'' else ''unknown'')"

definition Policy_IsValid :: "Policy \<Rightarrow> bool" where
  "Policy_IsValid p \<longleftrightarrow> PolicyStandard \<le> p \<and> p \<le> PolicyPriority"

lemma exchange_enums_valid:
  "ExchangeType_IsValid t \<longleftrightarrow> t \<in> set exchange_types" "Policy_IsValid p \<longleftrightarrow> p \<in> set exchange_policies"
  by (auto simp: ExchangeType_IsValid_def exchange_types_def Policy_IsValid_def exchange_policies_def enum_defs)

subsection \<open>Parameters and properties\<close>

record exchange_params =
  xp_name :: string
  xp_ns :: string
  xp_typ :: exchange_type

record exchange_props =
  x_Type :: exchange_type
  x_Policy :: Policy

definition NewExchangeParamsWithNS :: "(string \<Rightarrow> string) \<Rightarrow> string \<Rightarrow> string \<Rightarrow> string \<Rightarrow> exchange_type \<Rightarrow> go_error + exchange_params" where
  "NewExchangeParamsWithNS ul defaultNS name namespace typ =
     (if name = [] then Inl (ExchangeErr X_ErrNameRequired)
      else
        let ns = (if namespace = [] then defaultNS else namespace) in
        case ValidateKey ul name of
          Inl err \<Rightarrow> Inl (Wrapf2 (ExchangeErr X_ErrInvalidName) err)
        | Inr validName \<Rightarrow>
            (case ValidateKey ul ns of
               Inl err \<Rightarrow> Inl (Wrapf2 (ExchangeErr X_ErrInvalidNamespace) err)
             | Inr validNS \<Rightarrow> Inr \<lparr>xp_name = validName, xp_ns = validNS, xp_typ = typ\<rparr>))"

definition NewExchangeParams :: "(string \<Rightarrow> string) \<Rightarrow> string \<Rightarrow> string \<Rightarrow> exchange_type \<Rightarrow> go_error + exchange_params" where
  "NewExchangeParams ul defaultNS name typ = NewExchangeParamsWithNS ul defaultNS name [] typ"

definition ExchangeParams_String :: "exchange_params \<Rightarrow> string" where
  "ExchangeParams_String p = xp_name p @ ''@'' @ xp_ns p"

definition ExchangeParams_MarshalJSON :: "exchange_params \<Rightarrow> json" where
  "ExchangeParams_MarshalJSON p =
     JObj [(''name'', JStr (xp_name p)), (''ns'', JStr (xp_ns p)), (''type'', JNum (xp_typ p))]"

definition ExchangeParams_UnmarshalJSON :: "json \<Rightarrow> exchange_params option" where
  "ExchangeParams_UnmarshalJSON v =
     (case un_struct v of
        None \<Rightarrow> None
      | Some kvs \<Rightarrow>
          (case (un_str [] (obj_field kvs ''name''), un_str [] (obj_field kvs ''ns''), un_int 0 (obj_field kvs ''type'')) of
             (Some n, Some ns, Some t) \<Rightarrow> Some \<lparr>xp_name = n, xp_ns = ns, xp_typ = t\<rparr>
           | _ \<Rightarrow> None))"

definition valid_exchange :: "exchange_params \<Rightarrow> bool" where
  "valid_exchange x \<longleftrightarrow> valid_key (xp_name x) \<and> valid_key (xp_ns x) \<and> in_int64 (xp_typ x)"

subsection \<open>The codec\<close>

definition X_Type :: string where [schema_defs]: "X_Type = Field_Key 0"
definition X_Policy :: string where [schema_defs]: "X_Policy = Field_Key 1"

definition Exchange_EncodeParams :: "exchange_params \<Rightarrow> string" where
  "Exchange_EncodeParams params = json_text (ExchangeParams_MarshalJSON params)"

definition Exchange_DecodeParams :: "string \<Rightarrow> go_error + exchange_params" where
  "Exchange_DecodeParams data =
     (case parse_json data of
        None \<Rightarrow> Inl (Wrapf ''decode exchange params'' JsonErr)
      | Some v \<Rightarrow>
          (case ExchangeParams_UnmarshalJSON v of
             None \<Rightarrow> Inl (Wrapf ''decode exchange params'' JsonErr)
           | Some params \<Rightarrow>
               if xp_name params = [] \<or> xp_ns params = []
               then Inl (Errorf ''decode exchange params: invalid format'')
               else Inr params))"

text \<open>The hash that go-redis sends for a Go map, in some order of its two fields.\<close>

definition Exchange_EncodeProps :: "exchange_props \<Rightarrow> (string \<times> string) list" where
  "Exchange_EncodeProps props = [(X_Type, itoa (x_Type props)), (X_Policy, itoa (x_Policy props))]"

definition decode_int_field :: "string \<Rightarrow> string option \<Rightarrow> go_error + int" where
  "decode_int_field what v =
     (case v of
        None \<Rightarrow> Inr 0
      | Some t \<Rightarrow> (case parse_int t of
            (n, None) \<Rightarrow> Inr n
          | (_, Some err) \<Rightarrow> Inl (Wrapf (''decode exchange props '' @ what) (NumErr err))))"

definition Exchange_DecodeProps :: "(string, string) fmap \<Rightarrow> go_error + exchange_props" where
  "Exchange_DecodeProps hash =
     (if hash = fmempty then Inl (Errorf ''decode exchange props: empty hash'')
      else case decode_int_field ''type'' (fmlookup hash X_Type) of
        Inl err \<Rightarrow> Inl err
      | Inr t \<Rightarrow>
          (case decode_int_field ''policy'' (fmlookup hash X_Policy) of
             Inl err \<Rightarrow> Inl err
           | Inr p \<Rightarrow> Inr \<lparr>x_Type = t, x_Policy = p\<rparr>))"

subsection \<open>Round trips\<close>

lemma NewExchangeParamsWithNS_valid:
  "NewExchangeParamsWithNS ul dns name ns t = Inr x \<Longrightarrow> in_int64 t \<Longrightarrow> valid_exchange x \<and> xp_typ x = t"
  by (auto simp: NewExchangeParamsWithNS_def valid_exchange_def Let_def ValidateKey_iff
      split: if_splits sum.splits)

lemma Exchange_Decode_Encode: "valid_exchange x \<Longrightarrow> Exchange_DecodeParams (Exchange_EncodeParams x) = Inr x"
proof -
  assume x: "valid_exchange x"
  then have "json_ascii (ExchangeParams_MarshalJSON x)"
    by (simp add: ExchangeParams_MarshalJSON_def valid_exchange_def valid_key_ascii)
  moreover have "ExchangeParams_UnmarshalJSON (ExchangeParams_MarshalJSON x) = Some x"
    using x by (simp add: ExchangeParams_UnmarshalJSON_def ExchangeParams_MarshalJSON_def un_struct_def un_map_def
        un_str_def un_int_def valid_exchange_def obj_field_Cons fold_eq_def lower_char_def)
  moreover have "xp_name x \<noteq> [] \<and> xp_ns x \<noteq> []" using x by (simp add: valid_exchange_def valid_key_def)
  ultimately show ?thesis
    by (simp add: Exchange_DecodeParams_def Exchange_EncodeParams_def parse_json_text)
qed

lemma Exchange_EncodeParams_inject:
  assumes "valid_exchange x" and "valid_exchange y"
  shows "Exchange_EncodeParams x = Exchange_EncodeParams y \<longleftrightarrow> x = y"
  by (metis Exchange_Decode_Encode assms sum.inject(2))

lemma Exchange_Decode_EncodeProps:
  "in_int64 (x_Type props) \<Longrightarrow> in_int64 (x_Policy props) \<Longrightarrow>
   Exchange_DecodeProps (hset_all (Exchange_EncodeProps props) h) = Inr props"
  by (simp add: Exchange_DecodeProps_def Exchange_EncodeProps_def hset_all_def schema_defs decode_int_field_def)

end
