(* ===== verification/Message_Types.thy ===== *)
theory Message_Types
  imports Exchange_Types
begin

text \<open>
  The public types of \<open>pkg/message\<close>: \<open>Status\<close>, \<open>Priority\<close>, \<open>ConsumeOptions\<close>, the message
  builder \<open>ProducibleMessage\<close> with its setters, the life-cycle \<open>State\<close>, and the records
  \<open>Params\<close>, \<open>StateTransferable\<close>, \<open>Transferable\<close> that are written out. A \<open>time.Time\<close> is an
  integer in nanoseconds since the epoch, a \<open>time.Duration\<close> an integer in nanoseconds that wraps
  at 64 bits where the code multiplies; a nil pointer is \<open>None\<close>. What \<open>time.Now\<close> and
  \<open>uuid.New\<close> return is an argument. A body is the JSON value that \<open>json.Marshal\<close> writes for it.

  The lemmas give the invariants of the builder: a message is addressed to at most one of a queue
  and an exchange, and no duration or count it carries is negative, whatever setters ran.
\<close>

subsection \<open>Status and priority\<close>

type_synonym msg_status = int

definition StatusNew :: msg_status where [enum_defs]: "StatusNew = 0"
definition StatusPending :: msg_status where [enum_defs]: "StatusPending = 1"
definition StatusProcessing :: msg_status where [enum_defs]: "StatusProcessing = 2"
definition StatusScheduled :: msg_status where [enum_defs]: "StatusScheduled = 3"
definition StatusAcknowledged :: msg_status where [enum_defs]: "StatusAcknowledged = 4"
definition StatusUnackRequeuing :: msg_status where [enum_defs]: "StatusUnackRequeuing = 5"
definition StatusUnackDelaying :: msg_status where [enum_defs]: "StatusUnackDelaying = 6"
definition StatusDeadLettered :: msg_status where [enum_defs]: "StatusDeadLettered = 7"

definition message_statuses :: "msg_status list" where
  "message_statuses =
     [StatusNew, StatusPending, StatusProcessing, StatusScheduled, StatusAcknowledged,
     StatusUnackRequeuing, StatusUnackDelaying, StatusDeadLettered]"

definition Status_String :: "msg_status \<Rightarrow> string" where
  "Status_String s =
     (if s = StatusNew then ''new'' else if s = StatusPending then ''pending''
      else if s = StatusProcessing then ''processing'' else if s = StatusScheduled then ''scheduled''
      else if s = StatusAcknowledged then ''acknowledged''
      else if s = StatusUnackRequeuing then ''unack_requeuing''
      else if s = StatusUnackDelaying then ''unack_delaying''
      else if s = StatusDeadLettered then ''dead_lettered'' else ''unknown'')"

definition Status_IsTerminal :: "msg_status \<Rightarrow> bool" where
  "Status_IsTerminal s \<longleftrightarrow> s = StatusAcknowledged \<or> s = StatusDeadLettered"

definition Status_IsPending :: "msg_status \<Rightarrow> bool" where
  "Status_IsPending s \<longleftrightarrow> s = StatusPending"

definition Status_IsProcessing :: "msg_status \<Rightarrow> bool" where
  "Status_IsProcessing s \<longleftrightarrow> s = StatusProcessing"

definition Status_IsRequeuable :: "msg_status \<Rightarrow> bool" where
  "Status_IsRequeuable s \<longleftrightarrow> s = StatusAcknowledged \<or> s = StatusDeadLettered"

definition Status_IsValid :: "msg_status \<Rightarrow> bool" where
  "Status_IsValid s \<longleftrightarrow> StatusNew \<le> s \<and> s \<le> StatusDeadLettered"

type_synonym msg_priority = int

definition PriorityHighest :: msg_priority where [enum_defs]: "PriorityHighest = 0"
definition PriorityVeryHigh :: msg_priority where [enum_defs]: "PriorityVeryHigh = 1"
definition PriorityHigh :: msg_priority where [enum_defs]: "PriorityHigh = 2"
definition PriorityAboveNormal :: msg_priority where [enum_defs]: "PriorityAboveNormal = 3"
definition PriorityNormal :: msg_priority where [enum_defs]: "PriorityNormal = 4"
definition PriorityLow :: msg_priority where [enum_defs]: "PriorityLow = 5"
definition PriorityVeryLow :: msg_priority where [enum_defs]: "PriorityVeryLow = 6"
definition PriorityLowest :: msg_priority where [enum_defs]: "PriorityLowest = 7"

definition message_priorities :: "msg_priority list" where
  "message_priorities =
     [PriorityHighest, PriorityVeryHigh, PriorityHigh, PriorityAboveNormal, PriorityNormal,
     PriorityLow, PriorityVeryLow, PriorityLowest]"

definition Priority_String :: "msg_priority \<Rightarrow> string" where
  "Priority_String p =
     (if p = PriorityHighest then ''highest'' else if p = PriorityVeryHigh then ''very_high''
      else if p = PriorityHigh then ''high'' else if p = PriorityAboveNormal then ''above_normal''
      else if p = PriorityNormal then ''normal'' else if p = PriorityLow then ''low''
      else if p = PriorityVeryLow then ''very_low'' else if p = PriorityLowest then ''lowest''
      else ''unknown'')"

definition Priority_IsValid :: "msg_priority \<Rightarrow> bool" where
  "Priority_IsValid p \<longleftrightarrow> PriorityHighest \<le> p \<and> p \<le> PriorityLowest"

subsection \<open>Times\<close>

text \<open>\<open>time.Time.UnixMilli\<close>, \<open>time.UnixMilli\<close> and \<open>time.Duration(n) * time.Millisecond\<close>.\<close>

definition UnixMilli :: "int \<Rightarrow> int" where
  "UnixMilli t = t div time_Millisecond"

definition of_UnixMilli :: "int \<Rightarrow> int" where
  "of_UnixMilli ms = ms * time_Millisecond"

definition millis :: "int \<Rightarrow> int" where
  "millis n = wrap64 (n * time_Millisecond)"

lemma UnixMilli_of [simp]: "UnixMilli (of_UnixMilli ms) = ms"
  by (simp add: UnixMilli_def of_UnixMilli_def)

subsection \<open>Default options\<close>

record consume_options =
  co_TTL :: int
  co_RetryThreshold :: int
  co_RetryDelay :: int
  co_ConsumeTimeout :: int

definition DefaultConsumeOptions :: consume_options where
  "DefaultConsumeOptions = \<lparr>co_TTL = 0, co_RetryThreshold = 3, co_RetryDelay = 60000, co_ConsumeTimeout = 0\<rparr>"

text \<open>The package variable \<open>defaultOptions\<close> is the last argument and the result.\<close>

definition SetDefaultConsumeOptions :: "consume_options \<Rightarrow> consume_options \<Rightarrow> consume_options" where
  "SetDefaultConsumeOptions opts defaults =
     \<lparr>co_TTL = (if 0 \<le> co_TTL opts then co_TTL opts else co_TTL defaults),
      co_RetryThreshold = (if 0 \<le> co_RetryThreshold opts then co_RetryThreshold opts else co_RetryThreshold defaults),
      co_RetryDelay = (if 0 \<le> co_RetryDelay opts then co_RetryDelay opts else co_RetryDelay defaults),
      co_ConsumeTimeout = (if 0 \<le> co_ConsumeTimeout opts then co_ConsumeTimeout opts else co_ConsumeTimeout defaults)\<rparr>"

subsection \<open>The message builder\<close>

record producible =
  pm_createdAt :: int
  pm_ttl :: int
  pm_retryThreshold :: int
  pm_retryDelay :: int
  pm_consumeTimeout :: int
  pm_body :: json
  pm_priority :: "msg_priority option"
  pm_scheduledCron :: string
  pm_scheduledDelay :: "int option"
  pm_scheduledRepeatPeriod :: "int option"
  pm_scheduledRepeat :: int
  pm_exchange :: "exchange_params option"
  pm_exchangeRoutingKey :: string
  pm_queue :: "queue_params option"

definition New_Message :: "consume_options \<Rightarrow> int \<Rightarrow> producible" where
  "New_Message defaults now =
     \<lparr>pm_createdAt = now, pm_ttl = millis (co_TTL defaults),
      pm_retryThreshold = co_RetryThreshold defaults, pm_retryDelay = millis (co_RetryDelay defaults),
      pm_consumeTimeout = millis (co_ConsumeTimeout defaults), pm_body = JNull, pm_priority = None,
      pm_scheduledCron = [], pm_scheduledDelay = None, pm_scheduledRepeatPeriod = None,
      pm_scheduledRepeat = 0, pm_exchange = None, pm_exchangeRoutingKey = [], pm_queue = None\<rparr>"

definition SetTTL :: "int \<Rightarrow> producible \<Rightarrow> producible" where
  "SetTTL ttl m = m\<lparr>pm_ttl := if ttl < 0 then 0 else ttl\<rparr>"

definition SetRetryThreshold :: "int \<Rightarrow> producible \<Rightarrow> producible" where
  "SetRetryThreshold threshold m = m\<lparr>pm_retryThreshold := if threshold < 0 then 0 else threshold\<rparr>"

definition SetRetryDelay :: "int \<Rightarrow> producible \<Rightarrow> producible" where
  "SetRetryDelay delay m = m\<lparr>pm_retryDelay := if delay < 0 then 0 else delay\<rparr>"

definition SetConsumeTimeout :: "int \<Rightarrow> producible \<Rightarrow> producible" where
  "SetConsumeTimeout timeout m = m\<lparr>pm_consumeTimeout := if timeout < 0 then 0 else timeout\<rparr>"

definition SetBody :: "json \<Rightarrow> producible \<Rightarrow> producible" where
  "SetBody body m = m\<lparr>pm_body := body\<rparr>"

definition SetPriority :: "msg_priority \<Rightarrow> producible \<Rightarrow> producible" where
  "SetPriority priority m = m\<lparr>pm_priority := Some priority\<rparr>"

definition HasPriority :: "producible \<Rightarrow> bool" where
  "HasPriority m \<longleftrightarrow> pm_priority m \<noteq> None"

definition DisablePriority :: "producible \<Rightarrow> producible" where
  "DisablePriority m = m\<lparr>pm_priority := None\<rparr>"

definition SetScheduledCron :: "string \<Rightarrow> producible \<Rightarrow> producible" where
  "SetScheduledCron cronExpr m = m\<lparr>pm_scheduledCron := trim_space cronExpr\<rparr>"

definition SetScheduledDelay :: "int \<Rightarrow> producible \<Rightarrow> producible" where
  "SetScheduledDelay delay m = m\<lparr>pm_scheduledDelay := Some (if delay < 0 then 0 else delay)\<rparr>"

definition SetScheduledRepeatPeriod :: "int \<Rightarrow> producible \<Rightarrow> producible" where
  "SetScheduledRepeatPeriod period m = m\<lparr>pm_scheduledRepeatPeriod := Some (if period < 0 then 0 else period)\<rparr>"

definition SetScheduledRepeat :: "int \<Rightarrow> producible \<Rightarrow> producible" where
  "SetScheduledRepeat repeat m = m\<lparr>pm_scheduledRepeat := if repeat < 0 then 0 else repeat\<rparr>"

definition ResetScheduledParams :: "producible \<Rightarrow> producible" where
  "ResetScheduledParams m = m\<lparr>pm_scheduledCron := [], pm_scheduledDelay := None,
     pm_scheduledRepeatPeriod := None, pm_scheduledRepeat := 0\<rparr>"

definition SetDirectExchange :: "exchange_params option \<Rightarrow> producible \<Rightarrow> producible" where
  "SetDirectExchange params m = m\<lparr>pm_exchange := params, pm_queue := None, pm_exchangeRoutingKey := []\<rparr>"

definition SetFanoutExchange :: "exchange_params option \<Rightarrow> producible \<Rightarrow> producible" where
  "SetFanoutExchange params m = m\<lparr>pm_exchange := params, pm_queue := None, pm_exchangeRoutingKey := []\<rparr>"

definition SetTopicExchange :: "exchange_params option \<Rightarrow> producible \<Rightarrow> producible" where
  "SetTopicExchange params m = m\<lparr>pm_exchange := params, pm_queue := None, pm_exchangeRoutingKey := []\<rparr>"

definition SetExchangeRoutingKey :: "string \<Rightarrow> producible \<Rightarrow> producible" where
  "SetExchangeRoutingKey key m = m\<lparr>pm_exchangeRoutingKey := key\<rparr>"

definition SetQueue :: "queue_params option \<Rightarrow> producible \<Rightarrow> producible" where
  "SetQueue params m = m\<lparr>pm_queue := params, pm_exchange := None, pm_exchangeRoutingKey := []\<rparr>"

subsection \<open>What is written out\<close>

record msg_params =
  p_CreatedAt :: int
  p_TTL :: int
  p_RetryThreshold :: int
  p_RetryDelay :: int
  p_ConsumeTimeout :: int
  p_Body :: json
  p_Priority :: "msg_priority option"
  p_ScheduledCron :: string
  p_ScheduledDelay :: "int option"
  p_ScheduledRepeatPeriod :: "int option"
  p_ScheduledRepeat :: int
  p_Exchange :: "exchange_params option"
  p_Queue :: "queue_params option"
  p_DestinationQueue :: "queue_params option"
  p_ConsumerGroupID :: string

definition Message_ToParams :: "producible \<Rightarrow> queue_params option \<Rightarrow> string \<Rightarrow> msg_params" where
  "Message_ToParams m destinationQueue consumerGroupID =
     \<lparr>p_CreatedAt = UnixMilli (pm_createdAt m), p_TTL = Milliseconds (pm_ttl m),
      p_RetryThreshold = pm_retryThreshold m, p_RetryDelay = Milliseconds (pm_retryDelay m),
      p_ConsumeTimeout = Milliseconds (pm_consumeTimeout m), p_Body = pm_body m, p_Priority = pm_priority m,
      p_ScheduledCron = pm_scheduledCron m,
      p_ScheduledDelay = map_option Milliseconds (pm_scheduledDelay m),
      p_ScheduledRepeatPeriod = map_option Milliseconds (pm_scheduledRepeatPeriod m),
      p_ScheduledRepeat = pm_scheduledRepeat m, p_Exchange = pm_exchange m, p_Queue = pm_queue m,
      p_DestinationQueue = destinationQueue, p_ConsumerGroupID = consumerGroupID\<rparr>"

subsection \<open>The life-cycle state\<close>

record msg_state =
  ms_id :: string
  ms_scheduledAt :: "int option"
  ms_publishedAt :: "int option"
  ms_requeuedAt :: "int option"
  ms_processingStartedAt :: "int option"
  ms_acknowledgedAt :: "int option"
  ms_unacknowledgedAt :: "int option"
  ms_deadLetteredAt :: "int option"
  ms_lastRequeuedAt :: "int option"
  ms_lastUnacknowledgedAt :: "int option"
  ms_lastScheduledAt :: "int option"
  ms_lastRetriedAttemptAt :: "int option"
  ms_lastProcessedAt :: "int option"
  ms_scheduledCronFired :: bool
  ms_attempts :: int
  ms_scheduledRepeatCount :: int
  ms_requeueCount :: int
  ms_expired :: bool
  ms_effectiveScheduledDelay :: int
  ms_scheduledTimes :: int
  ms_scheduledMessageParentID :: string
  ms_requeuedMessageParentID :: string

definition NewMessageState :: "string \<Rightarrow> msg_state" where
  "NewMessageState uuid =
     \<lparr>ms_id = uuid, ms_scheduledAt = None, ms_publishedAt = None, ms_requeuedAt = None,
      ms_processingStartedAt = None, ms_acknowledgedAt = None, ms_unacknowledgedAt = None,
      ms_deadLetteredAt = None, ms_lastRequeuedAt = None, ms_lastUnacknowledgedAt = None,
      ms_lastScheduledAt = None, ms_lastRetriedAttemptAt = None, ms_lastProcessedAt = None,
      ms_scheduledCronFired = False, ms_attempts = 0,
      ms_scheduledRepeatCount = 0, ms_requeueCount = 0, ms_expired = False, ms_effectiveScheduledDelay = 0,
      ms_scheduledTimes = 0, ms_scheduledMessageParentID = [], ms_requeuedMessageParentID = []\<rparr>"

text \<open>The accessors of the timestamps convert from and to Unix milliseconds.\<close>

definition State_ScheduledAt :: "msg_state \<Rightarrow> int option" where
  "State_ScheduledAt ms = map_option UnixMilli (ms_scheduledAt ms)"

definition State_PublishedAt :: "msg_state \<Rightarrow> int option" where
  "State_PublishedAt ms = map_option UnixMilli (ms_publishedAt ms)"

definition State_RequeuedAt :: "msg_state \<Rightarrow> int option" where
  "State_RequeuedAt ms = map_option UnixMilli (ms_requeuedAt ms)"

definition State_ProcessingStartedAt :: "msg_state \<Rightarrow> int option" where
  "State_ProcessingStartedAt ms = map_option UnixMilli (ms_processingStartedAt ms)"

definition State_AcknowledgedAt :: "msg_state \<Rightarrow> int option" where
  "State_AcknowledgedAt ms = map_option UnixMilli (ms_acknowledgedAt ms)"

definition State_UnacknowledgedAt :: "msg_state \<Rightarrow> int option" where
  "State_UnacknowledgedAt ms = map_option UnixMilli (ms_unacknowledgedAt ms)"

definition State_DeadLetteredAt :: "msg_state \<Rightarrow> int option" where
  "State_DeadLetteredAt ms = map_option UnixMilli (ms_deadLetteredAt ms)"

definition State_LastRequeuedAt :: "msg_state \<Rightarrow> int option" where
  "State_LastRequeuedAt ms = map_option UnixMilli (ms_lastRequeuedAt ms)"

definition State_LastUnacknowledgedAt :: "msg_state \<Rightarrow> int option" where
  "State_LastUnacknowledgedAt ms = map_option UnixMilli (ms_lastUnacknowledgedAt ms)"

definition State_LastScheduledAt :: "msg_state \<Rightarrow> int option" where
  "State_LastScheduledAt ms = map_option UnixMilli (ms_lastScheduledAt ms)"

definition State_LastRetriedAttemptAt :: "msg_state \<Rightarrow> int option" where
  "State_LastRetriedAttemptAt ms = map_option UnixMilli (ms_lastRetriedAttemptAt ms)"

definition State_LastProcessedAt :: "msg_state \<Rightarrow> int option" where
  "State_LastProcessedAt ms = map_option UnixMilli (ms_lastProcessedAt ms)"

definition SetScheduledAt :: "int \<Rightarrow> msg_state \<Rightarrow> msg_state" where
  "SetScheduledAt ts ms = ms\<lparr>ms_scheduledAt := Some (of_UnixMilli ts)\<rparr>"

definition SetPublishedAt :: "int \<Rightarrow> msg_state \<Rightarrow> msg_state" where
  "SetPublishedAt ts ms = ms\<lparr>ms_publishedAt := Some (of_UnixMilli ts)\<rparr>"

definition SetRequeuedAt :: "int \<Rightarrow> msg_state \<Rightarrow> msg_state" where
  "SetRequeuedAt ts ms = ms\<lparr>ms_requeuedAt := Some (of_UnixMilli ts)\<rparr>"

definition SetProcessingStartedAt :: "int \<Rightarrow> msg_state \<Rightarrow> msg_state" where
  "SetProcessingStartedAt ts ms = ms\<lparr>ms_processingStartedAt := Some (of_UnixMilli ts)\<rparr>"

definition SetAcknowledgedAt :: "int \<Rightarrow> msg_state \<Rightarrow> msg_state" where
  "SetAcknowledgedAt ts ms = ms\<lparr>ms_acknowledgedAt := Some (of_UnixMilli ts)\<rparr>"

definition SetUnacknowledgedAt :: "int \<Rightarrow> msg_state \<Rightarrow> msg_state" where
  "SetUnacknowledgedAt ts ms = ms\<lparr>ms_unacknowledgedAt := Some (of_UnixMilli ts)\<rparr>"

definition SetDeadLetteredAt :: "int \<Rightarrow> msg_state \<Rightarrow> msg_state" where
  "SetDeadLetteredAt ts ms = ms\<lparr>ms_deadLetteredAt := Some (of_UnixMilli ts)\<rparr>"

definition SetLastRequeuedAt :: "int \<Rightarrow> msg_state \<Rightarrow> msg_state" where
  "SetLastRequeuedAt ts ms = ms\<lparr>ms_lastRequeuedAt := Some (of_UnixMilli ts)\<rparr>"

definition SetLastUnacknowledgedAt :: "int \<Rightarrow> msg_state \<Rightarrow> msg_state" where
  "SetLastUnacknowledgedAt ts ms = ms\<lparr>ms_lastUnacknowledgedAt := Some (of_UnixMilli ts)\<rparr>"

definition SetLastScheduledAt :: "int \<Rightarrow> msg_state \<Rightarrow> msg_state" where
  "SetLastScheduledAt ts ms = ms\<lparr>ms_lastScheduledAt := Some (of_UnixMilli ts)\<rparr>"

definition SetLastRetriedAttemptAt :: "int \<Rightarrow> msg_state \<Rightarrow> msg_state" where
  "SetLastRetriedAttemptAt ts ms = ms\<lparr>ms_lastRetriedAttemptAt := Some (of_UnixMilli ts)\<rparr>"

definition SetLastProcessedAt :: "int \<Rightarrow> msg_state \<Rightarrow> msg_state" where
  "SetLastProcessedAt ts ms = ms\<lparr>ms_lastProcessedAt := Some (of_UnixMilli ts)\<rparr>"

definition SetID :: "string \<Rightarrow> msg_state \<Rightarrow> msg_state" where
  "SetID i ms = ms\<lparr>ms_id := i\<rparr>"

definition SetAttempts :: "int \<Rightarrow> msg_state \<Rightarrow> msg_state" where
  "SetAttempts n ms = ms\<lparr>ms_attempts := n\<rparr>"

definition IncrAttempts :: "msg_state \<Rightarrow> msg_state" where
  "IncrAttempts ms = ms\<lparr>ms_attempts := wrap64 (ms_attempts ms + 1)\<rparr>"

definition HasDelay :: "msg_state \<Rightarrow> bool" where
  "HasDelay ms \<longleftrightarrow> 0 < ms_effectiveScheduledDelay ms"

definition SetEffectiveScheduledDelay :: "int \<Rightarrow> msg_state \<Rightarrow> msg_state" where
  "SetEffectiveScheduledDelay delay ms = ms\<lparr>ms_effectiveScheduledDelay := delay\<rparr>"

definition ClearEffectiveScheduledDelay :: "msg_state \<Rightarrow> msg_state" where
  "ClearEffectiveScheduledDelay ms = ms\<lparr>ms_effectiveScheduledDelay := 0\<rparr>"

definition SetScheduledCronFired :: "bool \<Rightarrow> msg_state \<Rightarrow> msg_state" where
  "SetScheduledCronFired fired ms = ms\<lparr>ms_scheduledCronFired := fired\<rparr>"

definition SetScheduledRepeatCount :: "int \<Rightarrow> msg_state \<Rightarrow> msg_state" where
  "SetScheduledRepeatCount n ms = ms\<lparr>ms_scheduledRepeatCount := n\<rparr>"

definition IncrScheduledRepeatCount :: "msg_state \<Rightarrow> msg_state" where
  "IncrScheduledRepeatCount ms = ms\<lparr>ms_scheduledRepeatCount := wrap64 (ms_scheduledRepeatCount ms + 1)\<rparr>"

definition ResetScheduledRepeatCount :: "msg_state \<Rightarrow> msg_state" where
  "ResetScheduledRepeatCount ms = ms\<lparr>ms_scheduledRepeatCount := 0\<rparr>"

definition SetExpired :: "bool \<Rightarrow> msg_state \<Rightarrow> msg_state" where
  "SetExpired expired ms = ms\<lparr>ms_expired := expired\<rparr>"

definition SetScheduledTimes :: "int \<Rightarrow> msg_state \<Rightarrow> msg_state" where
  "SetScheduledTimes n ms = ms\<lparr>ms_scheduledTimes := n\<rparr>"

definition IncrScheduledTimes :: "msg_state \<Rightarrow> msg_state" where
  "IncrScheduledTimes ms = ms\<lparr>ms_scheduledTimes := wrap64 (ms_scheduledTimes ms + 1)\<rparr>"

definition SetRequeueCount :: "int \<Rightarrow> msg_state \<Rightarrow> msg_state" where
  "SetRequeueCount n ms = ms\<lparr>ms_requeueCount := n\<rparr>"

definition SetScheduledMessageParentID :: "string \<Rightarrow> msg_state \<Rightarrow> msg_state" where
  "SetScheduledMessageParentID i ms = ms\<lparr>ms_scheduledMessageParentID := i\<rparr>"

definition SetRequeuedMessageParentID :: "string \<Rightarrow> msg_state \<Rightarrow> msg_state" where
  "SetRequeuedMessageParentID i ms = ms\<lparr>ms_requeuedMessageParentID := i\<rparr>"

definition MarkPublished :: "int \<Rightarrow> msg_state \<Rightarrow> msg_state" where
  "MarkPublished now ms = ms\<lparr>ms_publishedAt := Some now\<rparr>"

definition State_IsExpired :: "int \<Rightarrow> int \<Rightarrow> int \<Rightarrow> bool" where
  "State_IsExpired now ttl createdAt \<longleftrightarrow> 0 < ttl \<and> ttl \<le> now - createdAt"

text \<open>\<open>StateTransferable\<close>: the same data with the timestamps in Unix milliseconds.\<close>

record state_transferable =
  t_UUID :: string
  t_ScheduledAt :: "int option"
  t_PublishedAt :: "int option"
  t_RequeuedAt :: "int option"
  t_ProcessingStartedAt :: "int option"
  t_AcknowledgedAt :: "int option"
  t_UnacknowledgedAt :: "int option"
  t_DeadLetteredAt :: "int option"
  t_LastRequeuedAt :: "int option"
  t_LastUnacknowledgedAt :: "int option"
  t_LastScheduledAt :: "int option"
  t_LastRetriedAttemptAt :: "int option"
  t_LastProcessedAt :: "int option"
  t_ScheduledCronFired :: bool
  t_Attempts :: int
  t_ScheduledRepeatCount :: int
  t_RequeueCount :: int
  t_Expired :: bool
  t_EffectiveScheduledDelay :: int
  t_ScheduledTimes :: int
  t_ScheduledMessageParentID :: string
  t_RequeuedMessageParentID :: string

definition State_ToTransferable :: "msg_state \<Rightarrow> state_transferable" where
  "State_ToTransferable ms =
     \<lparr>t_UUID = ms_id ms,
      t_ScheduledAt = map_option UnixMilli (ms_scheduledAt ms),
      t_PublishedAt = map_option UnixMilli (ms_publishedAt ms),
      t_RequeuedAt = map_option UnixMilli (ms_requeuedAt ms),
      t_ProcessingStartedAt = map_option UnixMilli (ms_processingStartedAt ms),
      t_AcknowledgedAt = map_option UnixMilli (ms_acknowledgedAt ms),
      t_UnacknowledgedAt = map_option UnixMilli (ms_unacknowledgedAt ms),
      t_DeadLetteredAt = map_option UnixMilli (ms_deadLetteredAt ms),
      t_LastRequeuedAt = map_option UnixMilli (ms_lastRequeuedAt ms),
      t_LastUnacknowledgedAt = map_option UnixMilli (ms_lastUnacknowledgedAt ms),
      t_LastScheduledAt = map_option UnixMilli (ms_lastScheduledAt ms),
      t_LastRetriedAttemptAt = map_option UnixMilli (ms_lastRetriedAttemptAt ms),
      t_LastProcessedAt = map_option UnixMilli (ms_lastProcessedAt ms),
      t_ScheduledCronFired = ms_scheduledCronFired ms, t_Attempts = ms_attempts ms,
      t_ScheduledRepeatCount = ms_scheduledRepeatCount ms, t_RequeueCount = ms_requeueCount ms,
      t_Expired = ms_expired ms, t_EffectiveScheduledDelay = ms_effectiveScheduledDelay ms,
      t_ScheduledTimes = ms_scheduledTimes ms, t_ScheduledMessageParentID = ms_scheduledMessageParentID ms,
      t_RequeuedMessageParentID = ms_requeuedMessageParentID ms\<rparr>"

record transferable =
  tr_ID :: string
  tr_CreatedAt :: int
  tr_TTL :: int
  tr_RetryThreshold :: int
  tr_RetryDelay :: int
  tr_ConsumeTimeout :: int
  tr_Body :: json
  tr_Priority :: "msg_priority option"
  tr_ScheduledCron :: string
  tr_ScheduledDelay :: "int option"
  tr_ScheduledRepeatPeriod :: "int option"
  tr_ScheduledRepeat :: int
  tr_Exchange :: "exchange_params option"
  tr_Queue :: "queue_params option"
  tr_DestinationQueue :: "queue_params option"
  tr_ConsumerGroupID :: string
  tr_MessageState :: state_transferable
  tr_Status :: msg_status

subsection \<open>What the builder guarantees\<close>

text \<open>The messages that a caller can build: \<open>New\<close> and then any setters in any order.\<close>

inductive built :: "consume_options \<Rightarrow> producible \<Rightarrow> bool" for defaults :: consume_options where
  "built defaults (New_Message defaults now)"
| "built defaults m \<Longrightarrow> built defaults (SetTTL d m)"
| "built defaults m \<Longrightarrow> built defaults (SetRetryThreshold n m)"
| "built defaults m \<Longrightarrow> built defaults (SetRetryDelay d m)"
| "built defaults m \<Longrightarrow> built defaults (SetConsumeTimeout d m)"
| "built defaults m \<Longrightarrow> built defaults (SetBody b m)"
| "built defaults m \<Longrightarrow> built defaults (SetPriority p m)"
| "built defaults m \<Longrightarrow> built defaults (DisablePriority m)"
| "built defaults m \<Longrightarrow> built defaults (SetScheduledCron c m)"
| "built defaults m \<Longrightarrow> built defaults (SetScheduledDelay d m)"
| "built defaults m \<Longrightarrow> built defaults (SetScheduledRepeatPeriod d m)"
| "built defaults m \<Longrightarrow> built defaults (SetScheduledRepeat n m)"
| "built defaults m \<Longrightarrow> built defaults (ResetScheduledParams m)"
| "built defaults m \<Longrightarrow> built defaults (SetDirectExchange x m)"
| "built defaults m \<Longrightarrow> built defaults (SetFanoutExchange x m)"
| "built defaults m \<Longrightarrow> built defaults (SetTopicExchange x m)"
| "built defaults m \<Longrightarrow> built defaults (SetExchangeRoutingKey k m)"
| "built defaults m \<Longrightarrow> built defaults (SetQueue q m)"

lemmas setter_defs = New_Message_def SetTTL_def SetRetryThreshold_def SetRetryDelay_def SetConsumeTimeout_def
  SetBody_def SetPriority_def DisablePriority_def SetScheduledCron_def SetScheduledDelay_def
  SetScheduledRepeatPeriod_def SetScheduledRepeat_def ResetScheduledParams_def SetDirectExchange_def
  SetFanoutExchange_def SetTopicExchange_def SetExchangeRoutingKey_def SetQueue_def

definition one_target :: "producible \<Rightarrow> bool" where
  "one_target m \<longleftrightarrow> pm_queue m = None \<or> pm_exchange m = None"

definition nonneg_times :: "producible \<Rightarrow> bool" where
  "nonneg_times m \<longleftrightarrow> 0 \<le> pm_ttl m \<and> 0 \<le> pm_retryThreshold m \<and> 0 \<le> pm_retryDelay m \<and>
     0 \<le> pm_consumeTimeout m \<and> 0 \<le> pm_scheduledRepeat m \<and>
     pred_option (\<lambda>d. 0 \<le> d) (pm_scheduledDelay m) \<and> pred_option (\<lambda>d. 0 \<le> d) (pm_scheduledRepeatPeriod m)"

text \<open>The options whose durations fit the 64 bits of a \<open>time.Duration\<close>.\<close>

definition options_ok :: "consume_options \<Rightarrow> bool" where
  "options_ok opts \<longleftrightarrow> 0 \<le> co_RetryThreshold opts \<and>
     0 \<le> co_TTL opts \<and> in_int64 (co_TTL opts * time_Millisecond) \<and>
     0 \<le> co_RetryDelay opts \<and> in_int64 (co_RetryDelay opts * time_Millisecond) \<and>
     0 \<le> co_ConsumeTimeout opts \<and> in_int64 (co_ConsumeTimeout opts * time_Millisecond)"

lemma options_ok_default: "options_ok DefaultConsumeOptions"
  by (simp add: options_ok_def DefaultConsumeOptions_def)

lemma millis_exact: "in_int64 (n * time_Millisecond) \<Longrightarrow> millis n = n * time_Millisecond"
  by (simp add: millis_def wrap64_id)

lemma built_one_target: "built defaults m \<Longrightarrow> one_target m"
  by (induction rule: built.induct) (simp_all add: one_target_def setter_defs)

lemma built_nonneg:
  assumes "built defaults m" and "options_ok defaults"
  shows "nonneg_times m"
  using assms
  by (induction rule: built.induct)
    (simp_all add: nonneg_times_def setter_defs options_ok_def millis_exact)

text \<open>C25: Whatever setters are applied in whatever order, a message has at most one target (a queue or an
  exchange), and no setting that counts or times something is negative.\<close>

theorem built_well_formed:
  assumes "built defaults m" and "options_ok defaults"
  shows "one_target m \<and> nonneg_times m"
  using assms built_one_target built_nonneg by blast

theorem built_well_formed_witness:
  "one_target (SetQueue (Some \<lparr>qp_name = ''q'', qp_ns = ''n''\<rparr>) (SetTTL (-5)
     (SetDirectExchange (Some \<lparr>xp_name = ''x'', xp_ns = ''n'', xp_typ = TypeDirect\<rparr>)
       (New_Message DefaultConsumeOptions 1000000)))) \<and>
   nonneg_times (SetTTL (-5) (New_Message DefaultConsumeOptions 1000000))"
  using built_well_formed [OF _ options_ok_default] by (meson built.intros)

end
