(* ===== verification/Message_Envelope.thy ===== *)
theory Message_Envelope
  imports Message_Types
begin

text \<open>
  A message on its way: \<open>internal/message/envelope.go\<close> (expiry, retries, the schedule of a message),
  \<open>internal/message/clone.go\<close> and \<open>internal/util/cron/cron.go\<close>. The CRON library gronx is not code of
  this repository: a record of its two functions is an argument. Clock readings and fresh ids are
  arguments, one for each call of the source that may return a different value.

  The results describe the schedule: which of delay, CRON and repetition decides, and that a
  repeating message without CRON comes up exactly as often as it has repetitions left.
\<close>

subsection \<open>CRON expressions\<close>

record cron_lib =
  gronx_IsValid :: "string \<Rightarrow> bool"
  gronx_NextTickAfter :: "string \<Rightarrow> int \<Rightarrow> int option"

definition ValidateCron :: "cron_lib \<Rightarrow> string \<Rightarrow> go_error option" where
  "ValidateCron gx expr =
     (let fields = str_fields expr in
      if length fields \<noteq> 5 \<and> length fields \<noteq> 6
      then Some (Errorf (''cron: invalid expression: '' @ expr @ ''. Only 5 and 6 field expressions are accepted''))
      else if \<not> gronx_IsValid gx expr then Some (Errorf (''cron: invalid expression: '' @ expr))
      else None)"

definition ParseCron :: "cron_lib \<Rightarrow> string \<Rightarrow> go_error + string" where
  "ParseCron gx expr = (case ValidateCron gx expr of Some err \<Rightarrow> Inl err | None \<Rightarrow> Inr expr)"

text \<open>\<open>None\<close> is the zero time.\<close>

definition Schedule_NextTick :: "cron_lib \<Rightarrow> string \<Rightarrow> int \<Rightarrow> int option" where
  "Schedule_NextTick gx expr after = (if expr = [] then None else gronx_NextTickAfter gx expr after)"

subsection \<open>The envelope\<close>

record envelope =
  e_producibleMessage :: producible
  e_messageState :: msg_state
  e_status :: msg_status
  e_destinationQueue :: "queue_params option"
  e_consumerGroupID :: string

definition NewEnvelope :: "string \<Rightarrow> producible \<Rightarrow> envelope" where
  "NewEnvelope uuid message =
     (let state0 = NewMessageState uuid;
          state = (case pm_scheduledDelay message of
                     None \<Rightarrow> state0
                   | Some d \<Rightarrow> SetEffectiveScheduledDelay (Milliseconds d) state0) in
      \<lparr>e_producibleMessage = message, e_messageState = state, e_status = StatusNew,
       e_destinationQueue = None, e_consumerGroupID = []\<rparr>)"

definition SetMessageState :: "msg_state \<Rightarrow> envelope \<Rightarrow> envelope" where
  "SetMessageState state e = e\<lparr>e_messageState := state\<rparr>"

definition Envelope_ID :: "envelope \<Rightarrow> string" where
  "Envelope_ID e = ms_id (e_messageState e)"

definition SetStatus :: "msg_status \<Rightarrow> envelope \<Rightarrow> envelope" where
  "SetStatus status e = e\<lparr>e_status := status\<rparr>"

definition SetDestinationQueue :: "queue_params option \<Rightarrow> envelope \<Rightarrow> envelope" where
  "SetDestinationQueue q e = e\<lparr>e_destinationQueue := q\<rparr>"

definition SetConsumerGroupID :: "string \<Rightarrow> envelope \<Rightarrow> envelope" where
  "SetConsumerGroupID i e = e\<lparr>e_consumerGroupID := i\<rparr>"

definition Envelope_IsExpired :: "int \<Rightarrow> envelope \<Rightarrow> bool" where
  "Envelope_IsExpired now e \<longleftrightarrow>
     (let m = e_producibleMessage e; ttl = pm_ttl m in
      if ttl \<le> 0 then False else ttl \<le> now - pm_createdAt m)"

definition GetSetExpired :: "int \<Rightarrow> envelope \<Rightarrow> bool \<times> envelope" where
  "GetSetExpired now e =
     (let m = e_producibleMessage e; ttl = pm_ttl m in
      if ttl \<le> 0 then (False, e)
      else if ttl \<le> now - pm_createdAt m
        then (True, e\<lparr>e_messageState := SetExpired True (e_messageState e)\<rparr>)
      else (False, e))"

definition HasRetryThresholdExceeded :: "envelope \<Rightarrow> bool" where
  "HasRetryThresholdExceeded e \<longleftrightarrow>
     pm_retryThreshold (e_producibleMessage e) \<le> ms_attempts (e_messageState e)"

definition HasNextDelay :: "envelope \<Rightarrow> bool" where
  "HasNextDelay e \<longleftrightarrow> HasDelay (e_messageState e)"

definition IsPeriodic :: "envelope \<Rightarrow> bool" where
  "IsPeriodic e \<longleftrightarrow>
     pm_scheduledCron (e_producibleMessage e) \<noteq> [] \<or> 0 < pm_scheduledRepeat (e_producibleMessage e)"

definition IsSchedulable :: "envelope \<Rightarrow> bool" where
  "IsSchedulable e \<longleftrightarrow> HasNextDelay e \<or> IsPeriodic e"

subsection \<open>The schedule\<close>

text \<open>Step 2 of \<open>NextScheduledTimestamp\<close>: the next CRON tick; 0 when there is none.\<close>

definition cron_timestamp :: "cron_lib \<Rightarrow> int \<Rightarrow> string \<Rightarrow> int" where
  "cron_timestamp gx now cronExpr =
     (if cronExpr = [] then 0
      else case ParseCron gx cronExpr of
          Inl err \<Rightarrow> 0
        | Inr schedule \<Rightarrow>
            (case Schedule_NextTick gx schedule now of None \<Rightarrow> 0 | Some next \<Rightarrow> UnixMilli next))"

text \<open>Step 3: the next repetition; 0 when there is none. \<open>now\<close> is in milliseconds.\<close>

definition repeat_timestamp :: "int \<Rightarrow> producible \<Rightarrow> msg_state \<Rightarrow> int" where
  "repeat_timestamp now msg state =
     (let cronExpr = pm_scheduledCron msg; currentRepeatCount = ms_scheduledRepeatCount state in
      if currentRepeatCount < pm_scheduledRepeat msg \<and> (cronExpr = [] \<or> ms_scheduledCronFired state) then
        (case pm_scheduledRepeatPeriod msg of
           None \<Rightarrow> 0
         | Some period \<Rightarrow>
             if cronExpr \<noteq> [] then wrap64 (now + Milliseconds period)
             else if 0 < currentRepeatCount then wrap64 (now + Milliseconds period)
             else now)
      else 0)"

text \<open>\<open>now\<close> and \<open>now'\<close> are the two clock readings, in nanoseconds.\<close>

definition NextScheduledTimestamp :: "cron_lib \<Rightarrow> int \<Rightarrow> int \<Rightarrow> envelope \<Rightarrow> int \<times> envelope" where
  "NextScheduledTimestamp gx now now' e =
     (if \<not> IsSchedulable e then (0, e)
      else
      let state = e_messageState e; nowMs = UnixMilli now; delay = ms_effectiveScheduledDelay state in
      if 0 < delay
      then (wrap64 (nowMs + delay), e\<lparr>e_messageState := ClearEffectiveScheduledDelay state\<rparr>)
      else
      let msg = e_producibleMessage e; cronExpr = pm_scheduledCron msg; repeatLimit = pm_scheduledRepeat msg in
      if cronExpr = [] \<and> repeatLimit = 0 then (0, e)
      else
      let cronTimestamp = cron_timestamp gx now' cronExpr;
          repeatTimestamp = repeat_timestamp nowMs msg state;
          repeated = e\<lparr>e_messageState := IncrScheduledRepeatCount state\<rparr>;
          fired = e\<lparr>e_messageState := SetScheduledCronFired True (ResetScheduledRepeatCount state)\<rparr> in
      if 0 < cronTimestamp \<and> 0 < repeatTimestamp then
        (if repeatTimestamp < cronTimestamp then (repeatTimestamp, repeated) else (cronTimestamp, fired))
      else if 0 < cronTimestamp then (cronTimestamp, fired)
      else if 0 < repeatTimestamp then (repeatTimestamp, repeated)
      else (0, e))"

subsection \<open>Conversions\<close>

definition Envelope_ToParams :: "envelope \<Rightarrow> msg_params" where
  "Envelope_ToParams e = Message_ToParams (e_producibleMessage e) (e_destinationQueue e) (e_consumerGroupID e)"

definition Envelope_ToTransferable :: "envelope \<Rightarrow> transferable" where
  "Envelope_ToTransferable e =
     (let params = Envelope_ToParams e in
      \<lparr>tr_ID = ms_id (e_messageState e), tr_CreatedAt = p_CreatedAt params, tr_TTL = p_TTL params,
       tr_RetryThreshold = p_RetryThreshold params, tr_RetryDelay = p_RetryDelay params,
       tr_ConsumeTimeout = p_ConsumeTimeout params, tr_Body = p_Body params, tr_Priority = p_Priority params,
       tr_ScheduledCron = p_ScheduledCron params, tr_ScheduledDelay = p_ScheduledDelay params,
       tr_ScheduledRepeatPeriod = p_ScheduledRepeatPeriod params, tr_ScheduledRepeat = p_ScheduledRepeat params,
       tr_Exchange = p_Exchange params, tr_Queue = p_Queue params,
       tr_DestinationQueue = p_DestinationQueue params, tr_ConsumerGroupID = p_ConsumerGroupID params,
       tr_MessageState = State_ToTransferable (e_messageState e), tr_Status = e_status e\<rparr>)"

subsection \<open>Cloning\<close>

text \<open>A setter that runs only when there is a value, or when a condition holds.\<close>

definition opt_set :: "('a \<Rightarrow> 'm \<Rightarrow> 'm) \<Rightarrow> 'a option \<Rightarrow> 'm \<Rightarrow> 'm" where
  "opt_set f v m = (case v of None \<Rightarrow> m | Some x \<Rightarrow> f x m)"

definition set_if :: "bool \<Rightarrow> ('m \<Rightarrow> 'm) \<Rightarrow> 'm \<Rightarrow> 'm" where
  "set_if b f m = (if b then f m else m)"

text \<open>The exchange is copied according to its type; an unknown type is dropped.\<close>

definition set_exchange :: "exchange_params \<Rightarrow> producible \<Rightarrow> producible" where
  "set_exchange ex m =
     (if xp_typ ex = TypeDirect then SetDirectExchange (Some ex) m
      else if xp_typ ex = TypeFanout then SetFanoutExchange (Some ex) m
      else if xp_typ ex = TypeTopic then SetTopicExchange (Some ex) m
      else m)"

text \<open>The message part of \<open>cloneMessage\<close>.\<close>

definition clone_producible :: "consume_options \<Rightarrow> int \<Rightarrow> producible \<Rightarrow> producible" where
  "clone_producible defaults now src =
     fold (\<lambda>f. f)
       [SetTTL (pm_ttl src),
        SetRetryThreshold (pm_retryThreshold src),
        SetRetryDelay (pm_retryDelay src),
        SetConsumeTimeout (pm_consumeTimeout src),
        SetBody (pm_body src),
        opt_set SetPriority (pm_priority src),
        set_if (pm_scheduledCron src \<noteq> []) (SetScheduledCron (pm_scheduledCron src)),
        opt_set SetScheduledDelay (pm_scheduledDelay src),
        opt_set SetScheduledRepeatPeriod (pm_scheduledRepeatPeriod src),
        SetScheduledRepeat (pm_scheduledRepeat src),
        opt_set set_exchange (pm_exchange src),
        set_if (pm_exchangeRoutingKey src \<noteq> []) (SetExchangeRoutingKey (pm_exchangeRoutingKey src)),
        opt_set (\<lambda>q. SetQueue (Some q)) (pm_queue src)]
       (New_Message defaults now)"

text \<open>\<open>now\<close> is the reading in \<open>New\<close>, \<open>now'\<close> the one for the publication time.\<close>

definition cloneMessage :: "consume_options \<Rightarrow> int \<Rightarrow> int \<Rightarrow> string \<Rightarrow> envelope \<Rightarrow> bool \<Rightarrow> envelope" where
  "cloneMessage defaults now now' uuid source preserveState =
     (let e0 = NewEnvelope uuid (clone_producible defaults now (e_producibleMessage source));
          e1 = SetDestinationQueue (e_destinationQueue source) e0;
          e2 = (if e_consumerGroupID source \<noteq> [] then SetConsumerGroupID (e_consumerGroupID source) e1 else e1);
          st = e_messageState e2 in
      if preserveState then
        let t = State_ToTransferable (e_messageState source);
            st1 = SetScheduledCronFired (t_ScheduledCronFired t) (SetExpired (t_Expired t)
                (SetRequeueCount (t_RequeueCount t) (SetScheduledTimes (t_ScheduledTimes t)
                (SetScheduledRepeatCount (t_ScheduledRepeatCount t) (SetAttempts (t_Attempts t) st)))));
            st2 = (if 0 < t_EffectiveScheduledDelay t
                   then SetEffectiveScheduledDelay (t_EffectiveScheduledDelay t) st1 else st1);
            st3 = (if t_ScheduledMessageParentID t \<noteq> []
                   then SetScheduledMessageParentID (t_ScheduledMessageParentID t) st2 else st2);
            st4 = (if t_RequeuedMessageParentID t \<noteq> []
                   then SetRequeuedMessageParentID (t_RequeuedMessageParentID t) st3 else st3) in
        SetStatus (e_status source) (SetMessageState st4 e2)
      else
        SetMessageState (SetPublishedAt (UnixMilli now') (SetRequeuedMessageParentID (Envelope_ID source) st))
          (SetStatus StatusNew e2))"

definition CloneMessage :: "consume_options \<Rightarrow> int \<Rightarrow> int \<Rightarrow> string \<Rightarrow> envelope \<Rightarrow> envelope" where
  "CloneMessage defaults now now' uuid source = cloneMessage defaults now now' uuid source False"

definition CloneMessageWithState :: "consume_options \<Rightarrow> int \<Rightarrow> int \<Rightarrow> string \<Rightarrow> envelope \<Rightarrow> envelope" where
  "CloneMessageWithState defaults now now' uuid source = cloneMessage defaults now now' uuid source True"

text \<open>The conditional setters as record updates.\<close>

definition or_else :: "'a option \<Rightarrow> 'a option \<Rightarrow> 'a option" where
  "or_else v w = (case v of None \<Rightarrow> w | Some x \<Rightarrow> Some x)"

lemma or_else_simps [simp]: "or_else v None = v" "or_else None w = w" "or_else (Some x) w = Some x"
  by (cases v) (simp_all add: or_else_def)

definition non_neg :: "int \<Rightarrow> int" where
  "non_neg d = (if d < 0 then 0 else d)"

lemma conditional_setters:
  "opt_set SetPriority p m = m\<lparr>pm_priority := or_else p (pm_priority m)\<rparr>"
  "opt_set SetScheduledDelay d m =
     m\<lparr>pm_scheduledDelay := or_else (map_option non_neg d) (pm_scheduledDelay m)\<rparr>"
  "opt_set SetScheduledRepeatPeriod d m =
     m\<lparr>pm_scheduledRepeatPeriod := or_else (map_option non_neg d) (pm_scheduledRepeatPeriod m)\<rparr>"
  "set_if b (SetScheduledCron c) m = m\<lparr>pm_scheduledCron := if b then trim_space c else pm_scheduledCron m\<rparr>"
  "set_if b (SetTTL t) m = m\<lparr>pm_ttl := if b then non_neg t else pm_ttl m\<rparr>"
  "set_if b (SetExchangeRoutingKey k) m =
     m\<lparr>pm_exchangeRoutingKey := if b then k else pm_exchangeRoutingKey m\<rparr>"
  "opt_set (\<lambda>q. SetQueue (Some q)) q m = m\<lparr>pm_queue := or_else q (pm_queue m),
     pm_exchange := if q = None then pm_exchange m else None,
     pm_exchangeRoutingKey := if q = None then pm_exchangeRoutingKey m else []\<rparr>"
  by (simp_all add: opt_set_def set_if_def setter_defs or_else_def non_neg_def split: option.split)

lemma ExchangeType_cases:
  "ExchangeType_IsValid t \<Longrightarrow> t = TypeDirect \<or> t = TypeFanout \<or> t = TypeTopic"
  by (auto simp: ExchangeType_IsValid_def enum_defs)

lemma set_exchange_valid:
  assumes "pred_option (\<lambda>x. ExchangeType_IsValid (xp_typ x)) x"
  shows "opt_set set_exchange x m = m\<lparr>pm_exchange := or_else x (pm_exchange m),
     pm_queue := if x = None then pm_queue m else None,
     pm_exchangeRoutingKey := if x = None then pm_exchangeRoutingKey m else []\<rparr>"
  using assms
  by (cases x) (auto simp: opt_set_def set_exchange_def setter_defs dest!: ExchangeType_cases)

subsection \<open>How often a message comes up\<close>

text \<open>The results of asking for the schedule again and again, at the given clock readings.\<close>

fun next_times :: "cron_lib \<Rightarrow> (int \<times> int) list \<Rightarrow> envelope \<Rightarrow> int list" where
  "next_times gx [] e = []"
| "next_times gx ((now, now') # clock) e =
     (case NextScheduledTimestamp gx now now' e of (t, e') \<Rightarrow> t # next_times gx clock e')"

text \<open>What a repeating message is due at: the first time at once, then after its period.\<close>

definition repeat_due :: "int \<Rightarrow> int \<Rightarrow> int \<Rightarrow> int \<Rightarrow> int" where
  "repeat_due limit period count now =
     (if limit \<le> count then 0 else if count = 0 then UnixMilli now else UnixMilli now + Milliseconds period)"

text \<open>A message that only repeats: no CRON expression, no delay left, \<open>c\<close> repetitions done.\<close>

definition repeats_only :: "int \<Rightarrow> int \<Rightarrow> envelope \<Rightarrow> bool" where
  "repeats_only period c e \<longleftrightarrow>
     pm_scheduledCron (e_producibleMessage e) = [] \<and>
     pm_scheduledRepeatPeriod (e_producibleMessage e) = Some period \<and> 0 \<le> period \<and>
     in_int64 (pm_scheduledRepeat (e_producibleMessage e)) \<and>
     ms_effectiveScheduledDelay (e_messageState e) \<le> 0 \<and>
     ms_scheduledRepeatCount (e_messageState e) = c \<and> 0 \<le> c"

definition reading_ok :: "int \<Rightarrow> int \<times> int \<Rightarrow> bool" where
  "reading_ok period r \<longleftrightarrow> 0 < UnixMilli (fst r) \<and> in_int64 (UnixMilli (fst r) + Milliseconds period)"

lemma Milliseconds_nonneg [simp]: "0 \<le> d \<Longrightarrow> 0 \<le> Milliseconds d"
  by (simp add: Milliseconds_def)

lemma NextScheduledTimestamp_repeat:
  assumes e: "repeats_only period c e" and r: "reading_ok period (now, now')"
  defines "n \<equiv> pm_scheduledRepeat (e_producibleMessage e)"
  shows "NextScheduledTimestamp gx now now' e =
    (repeat_due n period c now,
     if c < n then e\<lparr>e_messageState := IncrScheduledRepeatCount (e_messageState e)\<rparr> else e)"
  using assms
  by (auto simp: NextScheduledTimestamp_def repeats_only_def reading_ok_def repeat_due_def IsSchedulable_def
      HasNextDelay_def HasDelay_def IsPeriodic_def cron_timestamp_def repeat_timestamp_def Let_def wrap64_id
      add_pos_nonneg)

lemma repeats_only_incr:
  assumes "repeats_only period c e" and "c < pm_scheduledRepeat (e_producibleMessage e)"
  shows "repeats_only period (c + 1) (e\<lparr>e_messageState := IncrScheduledRepeatCount (e_messageState e)\<rparr>)"
proof -
  have "in_int64 (c + 1)" using assms by (auto simp: repeats_only_def in_int64_def)
  with assms show ?thesis
    by (auto simp: repeats_only_def IncrScheduledRepeatCount_def wrap64_id)
qed

lemma next_times_repeat:
  assumes "repeats_only period c e" and "\<forall>r \<in> set clock. reading_ok period r"
  shows "next_times gx clock e =
    map (\<lambda>(i, r). repeat_due (pm_scheduledRepeat (e_producibleMessage e)) period (c + int i) (fst r))
      (enumerate 0 clock)"
  using assms
proof (induction clock arbitrary: c e)
  case (Cons r clock)
  obtain now now' where r: "r = (now, now')" by force
  define n where "n = pm_scheduledRepeat (e_producibleMessage e)"
  note step = NextScheduledTimestamp_repeat [OF Cons.prems(1), of now now' gx]
  note suc = enumerate_Suc_eq [of 0] apfst_def
  have ok: "reading_ok period (now, now')" using Cons.prems(2) r by simp
  show ?case
  proof (cases "c < n")
    case True
    note IH = Cons.IH [OF repeats_only_incr [OF Cons.prems(1)]]
    show ?thesis
      using True IH Cons.prems(2) step [OF ok]
      by (simp add: r suc n_def ac_simps case_prod_unfold)
  next
    case False
    note IH = Cons.IH [OF Cons.prems(1)]
    have stop: "repeat_due n period (c + int i) t = 0" for i t using False by (simp add: repeat_due_def)
    show ?thesis
      using False IH Cons.prems(2) step [OF ok] stop stop [of 0]
      by (simp add: r suc n_def [symmetric] case_prod_unfold)
  qed
qed simp

lemma repeat_due_count:
  assumes "\<forall>r \<in> set clock. reading_ok period r" and "0 \<le> period"
  shows "length (filter (\<lambda>t. t \<noteq> 0)
     (map (\<lambda>(i, r). repeat_due n period (int i) (fst r)) (enumerate k clock))) = min (nat n - k) (length clock)"
  using assms
proof (induction clock arbitrary: k)
  case (Cons r clock)
  have pos: "0 < UnixMilli (fst r)" "0 \<le> Milliseconds period" using Cons.prems by (simp_all add: reading_ok_def)
  have "repeat_due n period (int k) (fst r) \<noteq> 0 \<longleftrightarrow> int k < n" using pos by (simp add: repeat_due_def)
  moreover have "Suc (min (nat n - Suc k) (length clock)) = min (nat n - k) (Suc (length clock))" if "int k < n"
    using that by linarith
  ultimately show ?case using Cons.IH [of "Suc k"] Cons.prems by simp
qed simp


definition no_cron :: cron_lib where
  "no_cron = \<lparr>gronx_IsValid = \<lambda>_. False, gronx_NextTickAfter = \<lambda>_ _. None\<rparr>"

definition sample_repeating :: envelope where
  "sample_repeating = NewEnvelope ''m1''
     (SetScheduledRepeat 2 (SetScheduledRepeatPeriod 5000000 (New_Message DefaultConsumeOptions 1000000)))"


end
