(* ===== verification/Message_Codec.thy ===== *)
theory Message_Codec
  imports Message_Envelope
begin

text \<open>
  How messages are written to Redis and read back: the field numbers of
  \<open>internal/message/schema/schema.go\<close>, the JSON form of \<open>Params\<close>, \<open>StateTransferable\<close> and
  \<open>Transferable\<close> (\<open>pkg/message\<close>), and the codec of \<open>internal/message/codec.go\<close>. A Go map is a finite
  map; where the code ranges over one, the order does not matter.
\<close>

subsection \<open>Field names\<close>

definition MF_ID :: string where [schema_defs]: "MF_ID = Field_Key 0"
definition MF_Status :: string where [schema_defs]: "MF_Status = Field_Key 1"
definition MF_Message :: string where [schema_defs]: "MF_Message = Field_Key 2"
definition MF_ScheduledAt :: string where [schema_defs]: "MF_ScheduledAt = Field_Key 3"
definition MF_PublishedAt :: string where [schema_defs]: "MF_PublishedAt = Field_Key 4"
definition MF_ProcessingStartedAt :: string where [schema_defs]: "MF_ProcessingStartedAt = Field_Key 5"
definition MF_DeadLetteredAt :: string where [schema_defs]: "MF_DeadLetteredAt = Field_Key 6"
definition MF_AcknowledgedAt :: string where [schema_defs]: "MF_AcknowledgedAt = Field_Key 7"
definition MF_UnacknowledgedAt :: string where [schema_defs]: "MF_UnacknowledgedAt = Field_Key 8"
definition MF_LastUnacknowledgedAt :: string where [schema_defs]: "MF_LastUnacknowledgedAt = Field_Key 9"
definition MF_LastScheduledAt :: string where [schema_defs]: "MF_LastScheduledAt = Field_Key 10"
definition MF_LastProcessedAt :: string where [schema_defs]: "MF_LastProcessedAt = Field_Key 11"
definition MF_RequeuedAt :: string where [schema_defs]: "MF_RequeuedAt = Field_Key 12"
definition MF_RequeueCount :: string where [schema_defs]: "MF_RequeueCount = Field_Key 13"
definition MF_LastRequeuedAt :: string where [schema_defs]: "MF_LastRequeuedAt = Field_Key 14"
definition MF_LastRetriedAttemptAt :: string where [schema_defs]: "MF_LastRetriedAttemptAt = Field_Key 15"
definition MF_ScheduledCronFired :: string where [schema_defs]: "MF_ScheduledCronFired = Field_Key 16"
definition MF_Attempts :: string where [schema_defs]: "MF_Attempts = Field_Key 17"
definition MF_ScheduledRepeatCount :: string where [schema_defs]: "MF_ScheduledRepeatCount = Field_Key 18"
definition MF_Expired :: string where [schema_defs]: "MF_Expired = Field_Key 19"
definition MF_EffectiveScheduledDelay :: string where [schema_defs]: "MF_EffectiveScheduledDelay = Field_Key 20"
definition MF_ScheduledTimes :: string where [schema_defs]: "MF_ScheduledTimes = Field_Key 21"
definition MF_ScheduledMessageParentID :: string where [schema_defs]: "MF_ScheduledMessageParentID = Field_Key 22"
definition MF_RequeuedMessageParentID :: string where [schema_defs]: "MF_RequeuedMessageParentID = Field_Key 23"

text \<open>The constants in the order of their declaration, which numbers them.\<close>

definition message_schema :: "string list" where
  "message_schema =
     [MF_ID, MF_Status, MF_Message, MF_ScheduledAt, MF_PublishedAt, MF_ProcessingStartedAt,
     MF_DeadLetteredAt, MF_AcknowledgedAt, MF_UnacknowledgedAt, MF_LastUnacknowledgedAt,
     MF_LastScheduledAt, MF_LastProcessedAt, MF_RequeuedAt, MF_RequeueCount, MF_LastRequeuedAt,
     MF_LastRetriedAttemptAt, MF_ScheduledCronFired, MF_Attempts, MF_ScheduledRepeatCount,
     MF_Expired, MF_EffectiveScheduledDelay, MF_ScheduledTimes, MF_ScheduledMessageParentID,
     MF_RequeuedMessageParentID]"

lemma message_schema_iota: "message_schema = map (\<lambda>i. Field_Key (int i)) [0..<24]"
  by (simp add: message_schema_def schema_defs upt_rec numeral_eq_Suc)

subsection \<open>Parameters as JSON\<close>

definition params_json :: "msg_params \<Rightarrow> json" where
  "params_json p = JObj
     ([(''createdAt'', JNum (p_CreatedAt p)), (''ttl'', JNum (p_TTL p)),
       (''retryThreshold'', JNum (p_RetryThreshold p)), (''retryDelay'', JNum (p_RetryDelay p)),
       (''consumeTimeout'', JNum (p_ConsumeTimeout p)), (''body'', p_Body p)]
      @ omit_empty (p_Priority p = None) ''priority'' (opt_json JNum (p_Priority p))
      @ omit_empty (p_ScheduledCron p = []) ''scheduledCron'' (JStr (p_ScheduledCron p))
      @ omit_empty (p_ScheduledDelay p = None) ''scheduledDelay'' (opt_json JNum (p_ScheduledDelay p))
      @ omit_empty (p_ScheduledRepeatPeriod p = None) ''scheduledRepeatPeriod'' (opt_json JNum (p_ScheduledRepeatPeriod p))
      @ [(''scheduledRepeat'', JNum (p_ScheduledRepeat p))]
      @ omit_empty (p_Exchange p = None) ''exchange'' (opt_json ExchangeParams_MarshalJSON (p_Exchange p))
      @ omit_empty (p_Queue p = None) ''queue'' (opt_json Params_MarshalJSON (p_Queue p))
      @ [(''destinationQueue'', opt_json Params_MarshalJSON (p_DestinationQueue p))]
      @ omit_empty (p_ConsumerGroupID p = []) ''consumerGroupId'' (JStr (p_ConsumerGroupID p)))"

text \<open>Reading goes field by field; the first value that does not fit its field is an error.\<close>

definition opt_bind :: "'a option \<Rightarrow> ('a \<Rightarrow> 'b option) \<Rightarrow> 'b option" where
  "opt_bind v f = (case v of None \<Rightarrow> None | Some x \<Rightarrow> f x)"

definition params_of_json :: "json \<Rightarrow> msg_params option" where
  "params_of_json v =
     opt_bind (un_struct v) (\<lambda>kvs.
     opt_bind (un_int 0 (obj_field kvs ''createdAt'')) (\<lambda>createdAt.
     opt_bind (un_int 0 (obj_field kvs ''ttl'')) (\<lambda>ttl.
     opt_bind (un_int 0 (obj_field kvs ''retryThreshold'')) (\<lambda>retryThreshold.
     opt_bind (un_int 0 (obj_field kvs ''retryDelay'')) (\<lambda>retryDelay.
     opt_bind (un_int 0 (obj_field kvs ''consumeTimeout'')) (\<lambda>consumeTimeout.
     opt_bind (un_ptr (un_int 0) (obj_field kvs ''priority'')) (\<lambda>priority.
     opt_bind (un_str [] (obj_field kvs ''scheduledCron'')) (\<lambda>scheduledCron.
     opt_bind (un_ptr (un_int 0) (obj_field kvs ''scheduledDelay'')) (\<lambda>scheduledDelay.
     opt_bind (un_ptr (un_int 0) (obj_field kvs ''scheduledRepeatPeriod'')) (\<lambda>scheduledRepeatPeriod.
     opt_bind (un_int 0 (obj_field kvs ''scheduledRepeat'')) (\<lambda>scheduledRepeat.
     opt_bind (un_custom ExchangeParams_UnmarshalJSON (obj_field kvs ''exchange'')) (\<lambda>exchange.
     opt_bind (un_custom Params_UnmarshalJSON (obj_field kvs ''queue'')) (\<lambda>queue.
     opt_bind (un_custom Params_UnmarshalJSON (obj_field kvs ''destinationQueue'')) (\<lambda>destinationQueue.
     opt_bind (un_str [] (obj_field kvs ''consumerGroupId'')) (\<lambda>consumerGroupId.
       Some \<lparr>p_CreatedAt = createdAt, p_TTL = ttl, p_RetryThreshold = retryThreshold, p_RetryDelay = retryDelay,
         p_ConsumeTimeout = consumeTimeout, p_Body = un_any (obj_field kvs ''body''), p_Priority = priority,
         p_ScheduledCron = scheduledCron, p_ScheduledDelay = scheduledDelay,
         p_ScheduledRepeatPeriod = scheduledRepeatPeriod, p_ScheduledRepeat = scheduledRepeat,
         p_Exchange = exchange, p_Queue = queue, p_DestinationQueue = destinationQueue,
         p_ConsumerGroupID = consumerGroupId\<rparr>)))))))))))))))"

definition Codec_EncodeParams :: "msg_params \<Rightarrow> string" where
  "Codec_EncodeParams params = json_text (params_json params)"

definition Codec_DecodeParams :: "string \<Rightarrow> go_error + msg_params" where
  "Codec_DecodeParams data =
     (case parse_json data of
        None \<Rightarrow> Inl (Wrapf ''decode message params'' JsonErr)
      | Some v \<Rightarrow>
          (case params_of_json v of
             None \<Rightarrow> Inl (Wrapf ''decode message params'' JsonErr)
           | Some params \<Rightarrow> Inr params))"

subsection \<open>Transferables as JSON\<close>

definition state_transferable_json :: "state_transferable \<Rightarrow> json" where
  "state_transferable_json t = JObj
     ([(''uuid'', JStr (t_UUID t))]
      @ omit_empty (t_ScheduledAt t = None) ''scheduledAt'' (opt_json JNum (t_ScheduledAt t))
      @ omit_empty (t_PublishedAt t = None) ''publishedAt'' (opt_json JNum (t_PublishedAt t))
      @ omit_empty (t_RequeuedAt t = None) ''requeuedAt'' (opt_json JNum (t_RequeuedAt t))
      @ omit_empty (t_ProcessingStartedAt t = None) ''processingStartedAt'' (opt_json JNum (t_ProcessingStartedAt t))
      @ omit_empty (t_AcknowledgedAt t = None) ''acknowledgedAt'' (opt_json JNum (t_AcknowledgedAt t))
      @ omit_empty (t_UnacknowledgedAt t = None) ''unacknowledgedAt'' (opt_json JNum (t_UnacknowledgedAt t))
      @ omit_empty (t_DeadLetteredAt t = None) ''deadLetteredAt'' (opt_json JNum (t_DeadLetteredAt t))
      @ omit_empty (t_LastRequeuedAt t = None) ''lastRequeuedAt'' (opt_json JNum (t_LastRequeuedAt t))
      @ omit_empty (t_LastUnacknowledgedAt t = None) ''lastUnacknowledgedAt'' (opt_json JNum (t_LastUnacknowledgedAt t))
      @ omit_empty (t_LastScheduledAt t = None) ''lastScheduledAt'' (opt_json JNum (t_LastScheduledAt t))
      @ omit_empty (t_LastRetriedAttemptAt t = None) ''lastRetriedAttemptAt'' (opt_json JNum (t_LastRetriedAttemptAt t))
      @ omit_empty (t_LastProcessedAt t = None) ''lastProcessedAt'' (opt_json JNum (t_LastProcessedAt t))
      @ [(''scheduledCronFired'', JBool (t_ScheduledCronFired t)), (''attempts'', JNum (t_Attempts t)),
         (''scheduledRepeatCount'', JNum (t_ScheduledRepeatCount t)), (''requeueCount'', JNum (t_RequeueCount t)),
         (''expired'', JBool (t_Expired t)), (''effectiveScheduledDelay'', JNum (t_EffectiveScheduledDelay t)),
         (''scheduledTimes'', JNum (t_ScheduledTimes t))]
      @ omit_empty (t_ScheduledMessageParentID t = []) ''scheduledMessageParentId'' (JStr (t_ScheduledMessageParentID t))
      @ omit_empty (t_RequeuedMessageParentID t = []) ''requeuedMessageParentId'' (JStr (t_RequeuedMessageParentID t)))"

definition transferable_json :: "transferable \<Rightarrow> json" where
  "transferable_json t = JObj
     ([(''id'', JStr (tr_ID t)), (''createdAt'', JNum (tr_CreatedAt t)), (''ttl'', JNum (tr_TTL t)),
       (''retryThreshold'', JNum (tr_RetryThreshold t)), (''retryDelay'', JNum (tr_RetryDelay t)),
       (''consumeTimeout'', JNum (tr_ConsumeTimeout t)), (''body'', tr_Body t)]
      @ omit_empty (tr_Priority t = None) ''priority'' (opt_json JNum (tr_Priority t))
      @ omit_empty (tr_ScheduledCron t = []) ''scheduledCron'' (JStr (tr_ScheduledCron t))
      @ omit_empty (tr_ScheduledDelay t = None) ''scheduledDelay'' (opt_json JNum (tr_ScheduledDelay t))
      @ omit_empty (tr_ScheduledRepeatPeriod t = None) ''scheduledRepeatPeriod'' (opt_json JNum (tr_ScheduledRepeatPeriod t))
      @ [(''scheduledRepeat'', JNum (tr_ScheduledRepeat t))]
      @ omit_empty (tr_Exchange t = None) ''exchange'' (opt_json ExchangeParams_MarshalJSON (tr_Exchange t))
      @ omit_empty (tr_Queue t = None) ''queue'' (opt_json Params_MarshalJSON (tr_Queue t))
      @ [(''destinationQueue'', opt_json Params_MarshalJSON (tr_DestinationQueue t))]
      @ omit_empty (tr_ConsumerGroupID t = []) ''consumerGroupId'' (JStr (tr_ConsumerGroupID t))
      @ [(''messageState'', state_transferable_json (tr_MessageState t)), (''status'', JNum (tr_Status t))])"

subsection \<open>States\<close>

definition boolToStr :: "bool \<Rightarrow> string" where
  "boolToStr b = (if b then ''1'' else ''0'')"

definition setOptionalTS :: "string \<Rightarrow> int option \<Rightarrow> (string, string) fmap \<Rightarrow> (string, string) fmap" where
  "setOptionalTS prop ts hash =
     (case ts of None \<Rightarrow> hash | Some t \<Rightarrow> if 0 < t then fmupd prop (itoa t) hash else hash)"

definition parseOptionalTS :: "(string, string) fmap \<Rightarrow> string \<Rightarrow> (int \<Rightarrow> msg_state \<Rightarrow> msg_state)
    \<Rightarrow> msg_state \<Rightarrow> msg_state" where
  "parseOptionalTS hash prop setter state =
     (case fmlookup hash prop of
        None \<Rightarrow> state
      | Some v \<Rightarrow>
          (case parse_int v of
             (ts, None) \<Rightarrow> if 0 < ts then setter ts state else state
           | (ts, Some err) \<Rightarrow> state))"

definition with_field :: "(string, string) fmap \<Rightarrow> string \<Rightarrow> (string \<Rightarrow> msg_state \<Rightarrow> msg_state)
    \<Rightarrow> msg_state \<Rightarrow> msg_state" where
  "with_field hash prop f state = (case fmlookup hash prop of None \<Rightarrow> state | Some v \<Rightarrow> f v state)"

definition EncodeState :: "msg_state \<Rightarrow> (string, string) fmap" where
  "EncodeState state =
     (let t = State_ToTransferable state;
          hash0 = fmap_of_list
            [(MF_ID, t_UUID t), (MF_Attempts, itoa (t_Attempts t)), (MF_Expired, boolToStr (t_Expired t)),
             (MF_ScheduledCronFired, boolToStr (t_ScheduledCronFired t)),
             (MF_ScheduledRepeatCount, itoa (t_ScheduledRepeatCount t)),
             (MF_ScheduledTimes, itoa (t_ScheduledTimes t)), (MF_RequeueCount, itoa (t_RequeueCount t)),
             (MF_EffectiveScheduledDelay, itoa (t_EffectiveScheduledDelay t))];
          hash1 = fold (\<lambda>(prop, ts). setOptionalTS prop ts)
            [(MF_ScheduledAt, t_ScheduledAt t),
             (MF_PublishedAt, t_PublishedAt t),
             (MF_RequeuedAt, t_RequeuedAt t),
             (MF_ProcessingStartedAt, t_ProcessingStartedAt t),
             (MF_AcknowledgedAt, t_AcknowledgedAt t),
             (MF_UnacknowledgedAt, t_UnacknowledgedAt t),
             (MF_DeadLetteredAt, t_DeadLetteredAt t),
             (MF_LastRequeuedAt, t_LastRequeuedAt t),
             (MF_LastUnacknowledgedAt, t_LastUnacknowledgedAt t),
             (MF_LastScheduledAt, t_LastScheduledAt t),
             (MF_LastRetriedAttemptAt, t_LastRetriedAttemptAt t),
             (MF_LastProcessedAt, t_LastProcessedAt t)] hash0;
          hash2 = (if t_ScheduledMessageParentID t \<noteq> []
                   then fmupd MF_ScheduledMessageParentID (t_ScheduledMessageParentID t) hash1 else hash1) in
      if t_RequeuedMessageParentID t \<noteq> []
      then fmupd MF_RequeuedMessageParentID (t_RequeuedMessageParentID t) hash2 else hash2)"

definition DecodeState :: "string \<Rightarrow> (string, string) fmap \<Rightarrow> go_error + msg_state" where
  "DecodeState uuid hash =
     (if hash = fmempty then Inl (Errorf ''decode message state: empty hash'')
      else Inr (fold (\<lambda>f. f)
        [with_field hash MF_ID SetID,
         with_field hash MF_Attempts (\<lambda>v. SetAttempts (atoi_value v)),
         with_field hash MF_Expired (\<lambda>v. SetExpired (v = ''1'')),
         with_field hash MF_ScheduledCronFired (\<lambda>v. SetScheduledCronFired (v = ''1'')),
         with_field hash MF_ScheduledRepeatCount (\<lambda>v. SetScheduledRepeatCount (atoi_value v)),
         with_field hash MF_ScheduledTimes (\<lambda>v. SetScheduledTimes (atoi_value v)),
         with_field hash MF_RequeueCount (\<lambda>v. SetRequeueCount (atoi_value v)),
         with_field hash MF_EffectiveScheduledDelay (\<lambda>v. SetEffectiveScheduledDelay (atoi_value v)),
         parseOptionalTS hash MF_ScheduledAt SetScheduledAt,
         parseOptionalTS hash MF_PublishedAt SetPublishedAt,
         parseOptionalTS hash MF_RequeuedAt SetRequeuedAt,
         parseOptionalTS hash MF_ProcessingStartedAt SetProcessingStartedAt,
         parseOptionalTS hash MF_AcknowledgedAt SetAcknowledgedAt,
         parseOptionalTS hash MF_UnacknowledgedAt SetUnacknowledgedAt,
         parseOptionalTS hash MF_DeadLetteredAt SetDeadLetteredAt,
         parseOptionalTS hash MF_LastRequeuedAt SetLastRequeuedAt,
         parseOptionalTS hash MF_LastUnacknowledgedAt SetLastUnacknowledgedAt,
         parseOptionalTS hash MF_LastScheduledAt SetLastScheduledAt,
         parseOptionalTS hash MF_LastRetriedAttemptAt SetLastRetriedAttemptAt,
         parseOptionalTS hash MF_LastProcessedAt SetLastProcessedAt,
         with_field hash MF_ScheduledMessageParentID SetScheduledMessageParentID,
         with_field hash MF_RequeuedMessageParentID SetRequeuedMessageParentID]
        (NewMessageState uuid)))"

subsection \<open>Envelopes\<close>

definition EncodeEnvelope :: "envelope \<Rightarrow> (string, string) fmap" where
  "EncodeEnvelope env =
     fmap_of_list [(MF_Message, Codec_EncodeParams (Envelope_ToParams env)), (MF_Status, itoa (e_status env))]
       ++\<^sub>f EncodeState (e_messageState env)"

text \<open>\<open>defaults\<close> and \<open>now\<close> are what \<open>New\<close> uses.\<close>

definition rebuildMessage :: "consume_options \<Rightarrow> int \<Rightarrow> msg_params \<Rightarrow> producible" where
  "rebuildMessage defaults now params =
     fold (\<lambda>f. f)
       [SetBody (p_Body params),
        opt_set SetPriority (p_Priority params),
        set_if (0 < p_TTL params) (SetTTL (millis (p_TTL params))),
        SetRetryThreshold (p_RetryThreshold params),
        SetRetryDelay (millis (p_RetryDelay params)),
        SetConsumeTimeout (millis (p_ConsumeTimeout params)),
        set_if (p_ScheduledCron params \<noteq> []) (SetScheduledCron (p_ScheduledCron params)),
        opt_set SetScheduledDelay (map_option millis (p_ScheduledDelay params)),
        opt_set SetScheduledRepeatPeriod (map_option millis (p_ScheduledRepeatPeriod params)),
        SetScheduledRepeat (p_ScheduledRepeat params),
        opt_set set_exchange (p_Exchange params),
        opt_set (\<lambda>q. SetQueue (Some q)) (p_Queue params)]
       (New_Message defaults now)"

text \<open>\<open>uuid\<close> and \<open>uuid'\<close> are the ids that \<open>DecodeState\<close> and \<open>NewEnvelope\<close> draw.\<close>

definition DecodeEnvelope :: "consume_options \<Rightarrow> int \<Rightarrow> string \<Rightarrow> string \<Rightarrow> (string, string) fmap
    \<Rightarrow> go_error + envelope" where
  "DecodeEnvelope defaults now uuid uuid' hash =
     (if hash = fmempty then Inl (Errorf ''decode message envelope: empty hash'')
      else case Codec_DecodeParams (hash_get hash MF_Message) of
        Inl err \<Rightarrow> Inl err
      | Inr params \<Rightarrow>
          let status = atoi_value (hash_get hash MF_Status);
              stateHash = fmfilter (\<lambda>k. k \<noteq> MF_Message \<and> k \<noteq> MF_Status) hash in
          case DecodeState uuid stateHash of
            Inl err \<Rightarrow> Inl err
          | Inr state0 \<Rightarrow>
              let message = rebuildMessage defaults now params;
                  state = (case p_ScheduledDelay params of
                             None \<Rightarrow> state0
                           | Some d \<Rightarrow> SetEffectiveScheduledDelay d state0);
                  e0 = SetDestinationQueue (p_DestinationQueue params)
                         (SetStatus status (SetMessageState state (NewEnvelope uuid' message))) in
              Inr (if p_ConsumerGroupID params \<noteq> [] then SetConsumerGroupID (p_ConsumerGroupID params) e0 else e0))"

subsection \<open>Round trip of the parameters\<close>

text \<open>Parameters that JSON carries over: 64-bit integers, ASCII strings, valid names, and a body in the
  form that \<open>json.Unmarshal\<close> leaves it in.\<close>

definition params_ok :: "msg_params \<Rightarrow> bool" where
  "params_ok p \<longleftrightarrow>
     in_int64 (p_CreatedAt p) \<and> in_int64 (p_TTL p) \<and> in_int64 (p_RetryThreshold p) \<and>
     in_int64 (p_RetryDelay p) \<and> in_int64 (p_ConsumeTimeout p) \<and> in_int64 (p_ScheduledRepeat p) \<and>
     pred_option in_int64 (p_Priority p) \<and> pred_option in_int64 (p_ScheduledDelay p) \<and>
     pred_option in_int64 (p_ScheduledRepeatPeriod p) \<and>
     is_ascii (p_ScheduledCron p) \<and> is_ascii (p_ConsumerGroupID p) \<and>
     json_ascii (p_Body p) \<and> go_any (p_Body p) = p_Body p \<and>
     pred_option valid_exchange (p_Exchange p) \<and> pred_option valid_params (p_Queue p) \<and>
     pred_option valid_params (p_DestinationQueue p)"

lemma fields_ascii_append [simp]: "fields_ascii (xs @ ys) \<longleftrightarrow> fields_ascii xs \<and> fields_ascii ys"
  by (induction xs) auto

lemma fields_ascii_omit [simp]: "fields_ascii (omit_empty z k v) \<longleftrightarrow> z \<or> is_ascii k \<and> json_ascii v"
  by (simp add: omit_empty_def)

lemma json_ascii_opt: "json_ascii (opt_json f v) \<longleftrightarrow> pred_option (\<lambda>x. json_ascii (f x)) v"
  by (cases v) (simp_all add: opt_json_def)

lemma ExchangeParams_json_ascii: "valid_exchange x \<Longrightarrow> json_ascii (ExchangeParams_MarshalJSON x)"
  by (simp add: ExchangeParams_MarshalJSON_def valid_exchange_def valid_key_ascii)

lemma params_json_ascii: "params_ok p \<Longrightarrow> json_ascii (params_json p)"
  by (auto simp: params_json_def params_ok_def json_ascii_opt option.pred_set
      Params_json_ascii ExchangeParams_json_ascii)

lemma un_custom_opt:
  assumes "pred_option (\<lambda>x. f (g x) = Some x \<and> g x \<noteq> JNull) v"
  shows "un_custom f (Some (opt_json g v)) = Some v"
  using assms by (cases v) (auto simp: un_custom_def opt_json_def split: json.splits)

lemma un_ptr_int_opt:
  "pred_option in_int64 v \<Longrightarrow> un_ptr (un_int 0) (if v = None then None else Some (opt_json JNum v)) = Some v"
  using un_ptr_int [of v] by (auto simp: un_ptr_def)

lemma un_custom_omit:
  "pred_option (\<lambda>x. f (g x) = Some x \<and> g x \<noteq> JNull) v \<Longrightarrow>
   un_custom f (if v = None then None else Some (opt_json g v)) = Some v"
  using un_custom_opt [of f g v] by (auto simp: un_custom_def)

lemma ExchangeParams_roundtrip:
  "valid_exchange x \<Longrightarrow> ExchangeParams_UnmarshalJSON (ExchangeParams_MarshalJSON x) = Some x"
  by (simp add: ExchangeParams_UnmarshalJSON_def ExchangeParams_MarshalJSON_def un_struct_def un_map_def
      un_str_def un_int_def valid_exchange_def obj_field_Cons fold_eq_def lower_char_def)

lemma marshal_not_null: "ExchangeParams_MarshalJSON x \<noteq> JNull" "Params_MarshalJSON q \<noteq> JNull"
  by (simp_all add: ExchangeParams_MarshalJSON_def Params_MarshalJSON_def)

text \<open>The fields that a struct of parameters finds in the object of parameters, or of a transferable.\<close>

definition params_fields :: "(string \<times> json) list \<Rightarrow> msg_params \<Rightarrow> bool" where
  "params_fields kvs p \<longleftrightarrow>
     obj_field kvs ''createdAt'' = Some (JNum (p_CreatedAt p)) \<and>
     obj_field kvs ''ttl'' = Some (JNum (p_TTL p)) \<and>
     obj_field kvs ''retryThreshold'' = Some (JNum (p_RetryThreshold p)) \<and>
     obj_field kvs ''retryDelay'' = Some (JNum (p_RetryDelay p)) \<and>
     obj_field kvs ''consumeTimeout'' = Some (JNum (p_ConsumeTimeout p)) \<and>
     obj_field kvs ''body'' = Some (p_Body p) \<and>
     obj_field kvs ''priority'' = (if p_Priority p = None then None else Some (opt_json JNum (p_Priority p))) \<and>
     obj_field kvs ''scheduledCron'' =
       (if p_ScheduledCron p = [] then None else Some (JStr (p_ScheduledCron p))) \<and>
     obj_field kvs ''scheduledDelay'' =
       (if p_ScheduledDelay p = None then None else Some (opt_json JNum (p_ScheduledDelay p))) \<and>
     obj_field kvs ''scheduledRepeatPeriod'' =
       (if p_ScheduledRepeatPeriod p = None then None else Some (opt_json JNum (p_ScheduledRepeatPeriod p))) \<and>
     obj_field kvs ''scheduledRepeat'' = Some (JNum (p_ScheduledRepeat p)) \<and>
     obj_field kvs ''exchange'' =
       (if p_Exchange p = None then None else Some (opt_json ExchangeParams_MarshalJSON (p_Exchange p))) \<and>
     obj_field kvs ''queue'' =
       (if p_Queue p = None then None else Some (opt_json Params_MarshalJSON (p_Queue p))) \<and>
     obj_field kvs ''destinationQueue'' = Some (opt_json Params_MarshalJSON (p_DestinationQueue p)) \<and>
     obj_field kvs ''consumerGroupId'' =
       (if p_ConsumerGroupID p = [] then None else Some (JStr (p_ConsumerGroupID p)))"

text \<open>Field names in lower case, for the comparison up to case.\<close>

lemma lower_names:
  "map lower_char ''createdAt'' = ''createdat''"
  "map lower_char ''ttl'' = ''ttl''"
  "map lower_char ''retryThreshold'' = ''retrythreshold''"
  "map lower_char ''retryDelay'' = ''retrydelay''"
  "map lower_char ''consumeTimeout'' = ''consumetimeout''"
  "map lower_char ''body'' = ''body''"
  "map lower_char ''priority'' = ''priority''"
  "map lower_char ''scheduledCron'' = ''scheduledcron''"
  "map lower_char ''scheduledDelay'' = ''scheduleddelay''"
  "map lower_char ''scheduledRepeatPeriod'' = ''scheduledrepeatperiod''"
  "map lower_char ''scheduledRepeat'' = ''scheduledrepeat''"
  "map lower_char ''exchange'' = ''exchange''"
  "map lower_char ''queue'' = ''queue''"
  "map lower_char ''destinationQueue'' = ''destinationqueue''"
  "map lower_char ''consumerGroupId'' = ''consumergroupid''"
  "map lower_char ''id'' = ''id''"
  "map lower_char ''messageState'' = ''messagestate''"
  "map lower_char ''status'' = ''status''"
  by code_simp+

lemma params_json_fields:
  "\<exists>kvs. params_json p = JObj kvs \<and> params_fields kvs p"
  by (simp add: params_json_def params_fields_def obj_field_Cons obj_field_append obj_field_omit fold_eq_def
      lower_names del: list.map)

lemma transferable_json_fields:
  "\<exists>kvs. transferable_json (Envelope_ToTransferable e) = JObj kvs \<and> params_fields kvs (Envelope_ToParams e)"
  by (simp add: transferable_json_def Envelope_ToTransferable_def Let_def params_fields_def obj_field_Cons
      obj_field_append obj_field_omit fold_eq_def lower_names del: list.map)

lemma params_of_fields:
  assumes kvs: "params_fields kvs p" and ok: "params_ok p"
  shows "params_of_json (JObj kvs) = Some p"
proof -
  note int = un_ptr_int_opt [of "p_Priority p"] un_ptr_int_opt [of "p_ScheduledDelay p"]
    un_ptr_int_opt [of "p_ScheduledRepeatPeriod p"]
  have x: "un_custom ExchangeParams_UnmarshalJSON
      (if p_Exchange p = None then None else Some (opt_json ExchangeParams_MarshalJSON (p_Exchange p))) = Some (p_Exchange p)"
    by (rule un_custom_omit)
      (use ok in \<open>auto simp: params_ok_def option.pred_set ExchangeParams_roundtrip marshal_not_null\<close>)
  have q: "un_custom Params_UnmarshalJSON
      (if p_Queue p = None then None else Some (opt_json Params_MarshalJSON (p_Queue p))) = Some (p_Queue p)"
    by (rule un_custom_omit) (auto simp: option.pred_set Params_roundtrip marshal_not_null)
  have d: "un_custom Params_UnmarshalJSON (Some (opt_json Params_MarshalJSON (p_DestinationQueue p))) =
      Some (p_DestinationQueue p)"
    by (rule un_custom_opt) (auto simp: option.pred_set Params_roundtrip marshal_not_null)
  show ?thesis
    using ok kvs int x q d
    by (simp add: params_of_json_def params_fields_def params_ok_def opt_bind_def un_struct_def un_map_def
        un_int_def un_str_def un_any_def)
qed

lemma Codec_DecodeParams_text:
  assumes "params_fields kvs p" and "params_ok p" and "json_ascii (JObj kvs)"
  shows "Codec_DecodeParams (json_text (JObj kvs)) = Inr p"
  unfolding Codec_DecodeParams_def parse_json_text [OF assms(3)] by (simp add: params_of_fields [OF assms(1,2)])

lemma Codec_Decode_Encode:
  assumes "params_ok p"
  shows "Codec_DecodeParams (Codec_EncodeParams p) = Inr p"
proof -
  obtain kvs where "params_json p = JObj kvs" "params_fields kvs p" using params_json_fields by blast
  with Codec_DecodeParams_text [of kvs p] params_json_ascii [OF assms] assms show ?thesis
    by (simp add: Codec_EncodeParams_def)
qed

subsection \<open>Round trip of the state\<close>

text \<open>A time in whole milliseconds after the epoch, the only ones the hash keeps.\<close>

definition whole_ms :: "int \<Rightarrow> bool" where
  "whole_ms t \<longleftrightarrow> t = of_UnixMilli (UnixMilli t) \<and> 0 < UnixMilli t \<and> in_int64 (UnixMilli t)"

definition state_ok :: "msg_state \<Rightarrow> bool" where
  "state_ok st \<longleftrightarrow>
     pred_option whole_ms (ms_scheduledAt st) \<and>
     pred_option whole_ms (ms_publishedAt st) \<and>
     pred_option whole_ms (ms_requeuedAt st) \<and>
     pred_option whole_ms (ms_processingStartedAt st) \<and>
     pred_option whole_ms (ms_acknowledgedAt st) \<and>
     pred_option whole_ms (ms_unacknowledgedAt st) \<and>
     pred_option whole_ms (ms_deadLetteredAt st) \<and>
     pred_option whole_ms (ms_lastRequeuedAt st) \<and>
     pred_option whole_ms (ms_lastUnacknowledgedAt st) \<and>
     pred_option whole_ms (ms_lastScheduledAt st) \<and>
     pred_option whole_ms (ms_lastRetriedAttemptAt st) \<and>
     pred_option whole_ms (ms_lastProcessedAt st) \<and>
     in_int64 (ms_attempts st) \<and> in_int64 (ms_scheduledRepeatCount st) \<and> in_int64 (ms_requeueCount st) \<and>
     in_int64 (ms_effectiveScheduledDelay st) \<and> in_int64 (ms_scheduledTimes st)"

lemma whole_ms_of [simp]: "whole_ms (of_UnixMilli ms) \<longleftrightarrow> 0 < ms \<and> in_int64 ms"
  by (simp add: whole_ms_def)

definition ts_field :: "int option \<Rightarrow> string option" where
  "ts_field v = (case v of None \<Rightarrow> None | Some t \<Rightarrow> if 0 < UnixMilli t then Some (itoa (UnixMilli t)) else None)"

lemma lookup_setOptionalTS:
  "fmlookup (setOptionalTS prop (map_option UnixMilli v) hash) k =
     (if k = prop \<and> ts_field v \<noteq> None then ts_field v else fmlookup hash k)"
  by (cases v) (auto simp: setOptionalTS_def ts_field_def)

lemma lookup_if_upd:
  "fmlookup (if c then fmupd k v h else h) j = (if c \<and> j = k then Some v else fmlookup h j)"
  by simp

text \<open>The hash of a state, field by field.\<close>

lemma EncodeState_lookup:
  "fmlookup (EncodeState st) MF_ID = Some (ms_id st)"
  "fmlookup (EncodeState st) MF_Attempts = Some (itoa (ms_attempts st))"
  "fmlookup (EncodeState st) MF_Expired = Some (boolToStr (ms_expired st))"
  "fmlookup (EncodeState st) MF_ScheduledCronFired = Some (boolToStr (ms_scheduledCronFired st))"
  "fmlookup (EncodeState st) MF_ScheduledRepeatCount = Some (itoa (ms_scheduledRepeatCount st))"
  "fmlookup (EncodeState st) MF_ScheduledTimes = Some (itoa (ms_scheduledTimes st))"
  "fmlookup (EncodeState st) MF_RequeueCount = Some (itoa (ms_requeueCount st))"
  "fmlookup (EncodeState st) MF_EffectiveScheduledDelay = Some (itoa (ms_effectiveScheduledDelay st))"
  "fmlookup (EncodeState st) MF_ScheduledAt = ts_field (ms_scheduledAt st)"
  "fmlookup (EncodeState st) MF_PublishedAt = ts_field (ms_publishedAt st)"
  "fmlookup (EncodeState st) MF_RequeuedAt = ts_field (ms_requeuedAt st)"
  "fmlookup (EncodeState st) MF_ProcessingStartedAt = ts_field (ms_processingStartedAt st)"
  "fmlookup (EncodeState st) MF_AcknowledgedAt = ts_field (ms_acknowledgedAt st)"
  "fmlookup (EncodeState st) MF_UnacknowledgedAt = ts_field (ms_unacknowledgedAt st)"
  "fmlookup (EncodeState st) MF_DeadLetteredAt = ts_field (ms_deadLetteredAt st)"
  "fmlookup (EncodeState st) MF_LastRequeuedAt = ts_field (ms_lastRequeuedAt st)"
  "fmlookup (EncodeState st) MF_LastUnacknowledgedAt = ts_field (ms_lastUnacknowledgedAt st)"
  "fmlookup (EncodeState st) MF_LastScheduledAt = ts_field (ms_lastScheduledAt st)"
  "fmlookup (EncodeState st) MF_LastRetriedAttemptAt = ts_field (ms_lastRetriedAttemptAt st)"
  "fmlookup (EncodeState st) MF_LastProcessedAt = ts_field (ms_lastProcessedAt st)"
  "fmlookup (EncodeState st) MF_ScheduledMessageParentID =
     (if ms_scheduledMessageParentID st = [] then None else Some (ms_scheduledMessageParentID st))"
  "fmlookup (EncodeState st) MF_RequeuedMessageParentID =
     (if ms_requeuedMessageParentID st = [] then None else Some (ms_requeuedMessageParentID st))"
  "fmlookup (EncodeState st) MF_Message = None"
  "fmlookup (EncodeState st) MF_Status = None"
  by (simp_all add: EncodeState_def State_ToTransferable_def Let_def lookup_if_upd lookup_setOptionalTS schema_defs)

text \<open>A field that is unset may be absent or, as the publishing script stores it, empty.\<close>

definition field_reads :: "(string, string) fmap \<Rightarrow> string \<Rightarrow> string option \<Rightarrow> bool" where
  "field_reads hash k v \<longleftrightarrow> fmlookup hash k = v \<or> v = None \<and> fmlookup hash k = Some []"

lemma parse_int_empty: "parse_int [] = (0, Some ErrSyntax)"
  by (simp add: parse_int_def int_sign_def)

lemma parse_ts_field:
  assumes "field_reads hash prop (ts_field v)" and "pred_option whole_ms v"
  shows "parseOptionalTS hash prop setter s = (case v of None \<Rightarrow> s | Some t \<Rightarrow> setter (UnixMilli t) s)"
  using assms
  by (cases v) (auto simp: parseOptionalTS_def ts_field_def whole_ms_def field_reads_def parse_int_empty)

lemmas ts_setter_defs = SetScheduledAt_def SetPublishedAt_def SetRequeuedAt_def SetProcessingStartedAt_def
  SetAcknowledgedAt_def SetUnacknowledgedAt_def SetDeadLetteredAt_def SetLastRequeuedAt_def
  SetLastUnacknowledgedAt_def SetLastScheduledAt_def SetLastRetriedAttemptAt_def SetLastProcessedAt_def

lemma opt_setter:
  "ms_scheduledAt s = None \<Longrightarrow> pred_option whole_ms v \<Longrightarrow>
    (case v of None \<Rightarrow> s | Some t \<Rightarrow> SetScheduledAt (UnixMilli t) s) = s\<lparr>ms_scheduledAt := v\<rparr>"
  "ms_publishedAt s = None \<Longrightarrow> pred_option whole_ms v \<Longrightarrow>
    (case v of None \<Rightarrow> s | Some t \<Rightarrow> SetPublishedAt (UnixMilli t) s) = s\<lparr>ms_publishedAt := v\<rparr>"
  "ms_requeuedAt s = None \<Longrightarrow> pred_option whole_ms v \<Longrightarrow>
    (case v of None \<Rightarrow> s | Some t \<Rightarrow> SetRequeuedAt (UnixMilli t) s) = s\<lparr>ms_requeuedAt := v\<rparr>"
  "ms_processingStartedAt s = None \<Longrightarrow> pred_option whole_ms v \<Longrightarrow>
    (case v of None \<Rightarrow> s | Some t \<Rightarrow> SetProcessingStartedAt (UnixMilli t) s) = s\<lparr>ms_processingStartedAt := v\<rparr>"
  "ms_acknowledgedAt s = None \<Longrightarrow> pred_option whole_ms v \<Longrightarrow>
    (case v of None \<Rightarrow> s | Some t \<Rightarrow> SetAcknowledgedAt (UnixMilli t) s) = s\<lparr>ms_acknowledgedAt := v\<rparr>"
  "ms_unacknowledgedAt s = None \<Longrightarrow> pred_option whole_ms v \<Longrightarrow>
    (case v of None \<Rightarrow> s | Some t \<Rightarrow> SetUnacknowledgedAt (UnixMilli t) s) = s\<lparr>ms_unacknowledgedAt := v\<rparr>"
  "ms_deadLetteredAt s = None \<Longrightarrow> pred_option whole_ms v \<Longrightarrow>
    (case v of None \<Rightarrow> s | Some t \<Rightarrow> SetDeadLetteredAt (UnixMilli t) s) = s\<lparr>ms_deadLetteredAt := v\<rparr>"
  "ms_lastRequeuedAt s = None \<Longrightarrow> pred_option whole_ms v \<Longrightarrow>
    (case v of None \<Rightarrow> s | Some t \<Rightarrow> SetLastRequeuedAt (UnixMilli t) s) = s\<lparr>ms_lastRequeuedAt := v\<rparr>"
  "ms_lastUnacknowledgedAt s = None \<Longrightarrow> pred_option whole_ms v \<Longrightarrow>
    (case v of None \<Rightarrow> s | Some t \<Rightarrow> SetLastUnacknowledgedAt (UnixMilli t) s) = s\<lparr>ms_lastUnacknowledgedAt := v\<rparr>"
  "ms_lastScheduledAt s = None \<Longrightarrow> pred_option whole_ms v \<Longrightarrow>
    (case v of None \<Rightarrow> s | Some t \<Rightarrow> SetLastScheduledAt (UnixMilli t) s) = s\<lparr>ms_lastScheduledAt := v\<rparr>"
  "ms_lastRetriedAttemptAt s = None \<Longrightarrow> pred_option whole_ms v \<Longrightarrow>
    (case v of None \<Rightarrow> s | Some t \<Rightarrow> SetLastRetriedAttemptAt (UnixMilli t) s) = s\<lparr>ms_lastRetriedAttemptAt := v\<rparr>"
  "ms_lastProcessedAt s = None \<Longrightarrow> pred_option whole_ms v \<Longrightarrow>
    (case v of None \<Rightarrow> s | Some t \<Rightarrow> SetLastProcessedAt (UnixMilli t) s) = s\<lparr>ms_lastProcessedAt := v\<rparr>"
  by (cases v; simp add: whole_ms_def ts_setter_defs)+

lemma with_fieldI: "field_reads hash prop (Some v) \<Longrightarrow> with_field hash prop f s = f v s"
  by (simp add: with_field_def field_reads_def)

lemma with_field_string:
  assumes "field_reads hash prop (if v = [] then None else Some v)" and "v = [] \<Longrightarrow> f [] s = s"
  shows "with_field hash prop f s = f v s"
  using assms by (auto simp: with_field_def field_reads_def split: if_splits option.splits)

lemma boolToStr_1 [simp]: "boolToStr b = ''1'' \<longleftrightarrow> b"
  by (simp add: boolToStr_def)

lemmas state_setter_defs = SetID_def SetAttempts_def SetExpired_def SetScheduledCronFired_def
  SetScheduledRepeatCount_def SetScheduledTimes_def SetRequeueCount_def SetEffectiveScheduledDelay_def
  SetScheduledMessageParentID_def SetRequeuedMessageParentID_def

text \<open>Any hash that agrees with that of \<open>st\<close> on the fields of a state reads back as \<open>st\<close>.\<close>

definition state_keys :: "string list" where
  "state_keys = [MF_ID, MF_Attempts, MF_Expired, MF_ScheduledCronFired, MF_ScheduledRepeatCount,
     MF_ScheduledTimes, MF_RequeueCount, MF_EffectiveScheduledDelay, MF_ScheduledAt,
     MF_PublishedAt, MF_RequeuedAt, MF_ProcessingStartedAt, MF_AcknowledgedAt, MF_UnacknowledgedAt,
     MF_DeadLetteredAt, MF_LastRequeuedAt, MF_LastUnacknowledgedAt, MF_LastScheduledAt,
     MF_LastRetriedAttemptAt, MF_LastProcessedAt, MF_ScheduledMessageParentID,
     MF_RequeuedMessageParentID]"

definition state_fields :: "(string, string) fmap \<Rightarrow> msg_state \<Rightarrow> bool" where
  "state_fields hash st \<longleftrightarrow> (\<forall>k \<in> set state_keys. field_reads hash k (fmlookup (EncodeState st) k))"

lemma state_fields_eq: "state_fields hash st \<longleftrightarrow>
    list_all (\<lambda>k. field_reads hash k (fmlookup (EncodeState st) k)) state_keys"
  by (simp add: state_fields_def list_all_iff)

lemma state_fieldsD:
  assumes "state_fields hash st"
  shows "field_reads hash MF_ID (Some (ms_id st))"
    "field_reads hash MF_Attempts (Some (itoa (ms_attempts st)))"
    "field_reads hash MF_Expired (Some (boolToStr (ms_expired st)))"
    "field_reads hash MF_ScheduledCronFired (Some (boolToStr (ms_scheduledCronFired st)))"
    "field_reads hash MF_ScheduledRepeatCount (Some (itoa (ms_scheduledRepeatCount st)))"
    "field_reads hash MF_ScheduledTimes (Some (itoa (ms_scheduledTimes st)))"
    "field_reads hash MF_RequeueCount (Some (itoa (ms_requeueCount st)))"
    "field_reads hash MF_EffectiveScheduledDelay (Some (itoa (ms_effectiveScheduledDelay st)))"
    "field_reads hash MF_ScheduledAt (ts_field (ms_scheduledAt st))"
    "field_reads hash MF_PublishedAt (ts_field (ms_publishedAt st))"
    "field_reads hash MF_RequeuedAt (ts_field (ms_requeuedAt st))"
    "field_reads hash MF_ProcessingStartedAt (ts_field (ms_processingStartedAt st))"
    "field_reads hash MF_AcknowledgedAt (ts_field (ms_acknowledgedAt st))"
    "field_reads hash MF_UnacknowledgedAt (ts_field (ms_unacknowledgedAt st))"
    "field_reads hash MF_DeadLetteredAt (ts_field (ms_deadLetteredAt st))"
    "field_reads hash MF_LastRequeuedAt (ts_field (ms_lastRequeuedAt st))"
    "field_reads hash MF_LastUnacknowledgedAt (ts_field (ms_lastUnacknowledgedAt st))"
    "field_reads hash MF_LastScheduledAt (ts_field (ms_lastScheduledAt st))"
    "field_reads hash MF_LastRetriedAttemptAt (ts_field (ms_lastRetriedAttemptAt st))"
    "field_reads hash MF_LastProcessedAt (ts_field (ms_lastProcessedAt st))"
    "field_reads hash MF_ScheduledMessageParentID (if ms_scheduledMessageParentID st = [] then None else Some (ms_scheduledMessageParentID st))"
    "field_reads hash MF_RequeuedMessageParentID (if ms_requeuedMessageParentID st = [] then None else Some (ms_requeuedMessageParentID st))"
  using assms by (simp_all only: state_fields_eq state_keys_def list.pred_inject EncodeState_lookup)

lemma DecodeState_fields:
  assumes ok: "state_ok st" and hash: "state_fields hash st"
  shows "DecodeState uuid hash = Inr st"
proof -
  note reads = state_fieldsD [OF hash]
  have ne: "hash \<noteq> fmempty" using reads(1) by (auto simp: field_reads_def)
  have f: "with_field hash MF_ID f s = f (ms_id st) s"
    "with_field hash MF_Attempts f s = f (itoa (ms_attempts st)) s"
    "with_field hash MF_Expired f s = f (boolToStr (ms_expired st)) s"
    "with_field hash MF_ScheduledCronFired f s = f (boolToStr (ms_scheduledCronFired st)) s"
    "with_field hash MF_ScheduledRepeatCount f s = f (itoa (ms_scheduledRepeatCount st)) s"
    "with_field hash MF_ScheduledTimes f s = f (itoa (ms_scheduledTimes st)) s"
    "with_field hash MF_RequeueCount f s = f (itoa (ms_requeueCount st)) s"
    "with_field hash MF_EffectiveScheduledDelay f s = f (itoa (ms_effectiveScheduledDelay st)) s"
    for f s by (rule with_fieldI; simp only: reads)+
  have g: "ms_scheduledMessageParentID s = [] \<Longrightarrow> with_field hash MF_ScheduledMessageParentID
      SetScheduledMessageParentID s = SetScheduledMessageParentID (ms_scheduledMessageParentID st) s"
    "ms_requeuedMessageParentID s = [] \<Longrightarrow> with_field hash MF_RequeuedMessageParentID
      SetRequeuedMessageParentID s = SetRequeuedMessageParentID (ms_requeuedMessageParentID st) s" for s
    by (rule with_field_string; simp add: reads state_setter_defs)+
  note p = reads(9-20) [THEN parse_ts_field]
  show ?thesis
    using ne ok
    by (simp add: DecodeState_def f g p state_ok_def NewMessageState_def opt_setter state_setter_defs)
qed

subsection \<open>Reading an envelope back\<close>

definition whole_duration :: "int \<Rightarrow> bool" where
  "whole_duration d \<longleftrightarrow> 0 \<le> d \<and> in_int64 d \<and> d mod time_Millisecond = 0"

text \<open>The messages that storage keeps: durations in whole milliseconds, a trimmed CRON expression, one
  target, an exchange of a known type.\<close>

definition msg_ok :: "producible \<Rightarrow> bool" where
  "msg_ok m \<longleftrightarrow> one_target m \<and> whole_duration (pm_ttl m) \<and> whole_duration (pm_retryDelay m) \<and>
     whole_duration (pm_consumeTimeout m) \<and> pred_option whole_duration (pm_scheduledDelay m) \<and>
     pred_option whole_duration (pm_scheduledRepeatPeriod m) \<and> 0 \<le> pm_retryThreshold m \<and>
     0 \<le> pm_scheduledRepeat m \<and> trim_space (pm_scheduledCron m) = pm_scheduledCron m \<and>
     pred_option (\<lambda>x. ExchangeType_IsValid (xp_typ x)) (pm_exchange m)"

text \<open>What comes back: creation time and routing key are lost, a missing time to live is replaced by the
  default, and the delay of the schedule is armed again.\<close>

definition reread_message :: "consume_options \<Rightarrow> int \<Rightarrow> producible \<Rightarrow> producible" where
  "reread_message defaults now m = m\<lparr>pm_createdAt := now,
     pm_ttl := if pm_ttl m = 0 then millis (co_TTL defaults) else pm_ttl m, pm_exchangeRoutingKey := []\<rparr>"

definition rearm :: "producible \<Rightarrow> msg_state \<Rightarrow> msg_state" where
  "rearm m st = (case pm_scheduledDelay m of None \<Rightarrow> st | Some d \<Rightarrow> SetEffectiveScheduledDelay (Milliseconds d) st)"

definition reread :: "consume_options \<Rightarrow> int \<Rightarrow> envelope \<Rightarrow> envelope" where
  "reread defaults now e = e\<lparr>e_producibleMessage := reread_message defaults now (e_producibleMessage e),
     e_messageState := rearm (e_producibleMessage e) (e_messageState e)\<rparr>"

lemma whole_duration_millis:
  assumes "whole_duration d"
  shows "millis (Milliseconds d) = d" "0 \<le> d" "Milliseconds d = 0 \<longleftrightarrow> d = 0" "0 < Milliseconds d \<longleftrightarrow> 0 < d"
proof -
  have d: "0 \<le> d" "in_int64 d" "d mod time_Millisecond = 0" using assms by (simp_all add: whole_duration_def)
  have eq: "Milliseconds d * time_Millisecond = d"
    using d by (simp add: Milliseconds_div mult.commute minus_mod_eq_mult_div [symmetric])
  show "millis (Milliseconds d) = d" using eq d(2) by (simp add: millis_def wrap64_id)
  show "0 \<le> d" by fact
  show zero: "Milliseconds d = 0 \<longleftrightarrow> d = 0" using eq by (auto simp: Milliseconds_def)
  show "0 < Milliseconds d \<longleftrightarrow> 0 < d" using zero d(1) Milliseconds_nonneg [of d] by linarith
qed

lemma map_millis:
  assumes "pred_option whole_duration d"
  shows "map_option non_neg (map_option millis (map_option Milliseconds d)) = d"
  using assms by (cases d) (auto simp: whole_duration_millis(1) non_neg_def dest: whole_duration_millis(2))

lemma rebuild_reread:
  assumes ok: "msg_ok m"
  shows "rebuildMessage defaults now (Message_ToParams m dq g) = reread_message defaults now m"
proof -
  have target: "pm_exchange m = None \<or> pm_queue m = None" using ok by (auto simp: msg_ok_def one_target_def)
  have times: "whole_duration (pm_ttl m)" "whole_duration (pm_retryDelay m)" "whole_duration (pm_consumeTimeout m)"
    "pred_option whole_duration (pm_scheduledDelay m)" "pred_option whole_duration (pm_scheduledRepeatPeriod m)"
    using ok by (simp_all add: msg_ok_def)
  note w = whole_duration_millis [OF times(1)] whole_duration_millis [OF times(2)] whole_duration_millis [OF times(3)]
    map_millis [OF times(4)] map_millis [OF times(5)]
  have sign: "0 < pm_ttl m \<longleftrightarrow> pm_ttl m \<noteq> 0" "\<not> pm_ttl m < 0" "\<not> pm_retryDelay m < 0" "\<not> pm_consumeTimeout m < 0"
    using w(2,6,10) by auto
  have eq: "rebuildMessage defaults now (Message_ToParams m dq g) = (New_Message defaults now)\<lparr>
      pm_body := pm_body m, pm_priority := pm_priority m,
      pm_ttl := if pm_ttl m = 0 then millis (co_TTL defaults) else pm_ttl m,
      pm_retryThreshold := pm_retryThreshold m, pm_retryDelay := pm_retryDelay m,
      pm_consumeTimeout := pm_consumeTimeout m, pm_scheduledCron := pm_scheduledCron m,
      pm_scheduledDelay := pm_scheduledDelay m, pm_scheduledRepeatPeriod := pm_scheduledRepeatPeriod m,
      pm_scheduledRepeat := pm_scheduledRepeat m,
      pm_exchange := pm_exchange m, pm_queue := pm_queue m\<rparr>"
    using ok target
    by (cases "pm_exchange m")
      (simp_all add: rebuildMessage_def Message_ToParams_def conditional_setters set_exchange_valid w sign
        setter_defs msg_ok_def non_neg_def [of "pm_ttl m"] del: option.map_comp)
  show ?thesis by (simp add: eq reread_message_def New_Message_def)
qed

text \<open>A hash that holds an envelope: its parameters as JSON, possibly among other fields, its status and
  its state.\<close>

definition holds_envelope :: "(string, string) fmap \<Rightarrow> envelope \<Rightarrow> bool" where
  "holds_envelope hash e \<longleftrightarrow>
     (\<exists>kvs. fmlookup hash MF_Message = Some (json_text (JObj kvs)) \<and> params_fields kvs (Envelope_ToParams e) \<and>
        json_ascii (JObj kvs)) \<and>
     fmlookup hash MF_Status = Some (itoa (e_status e)) \<and> state_fields hash (e_messageState e)"

definition envelope_ok :: "envelope \<Rightarrow> bool" where
  "envelope_ok e \<longleftrightarrow> msg_ok (e_producibleMessage e) \<and> state_ok (e_messageState e) \<and>
     params_ok (Envelope_ToParams e) \<and> in_int64 (e_status e)"

lemma state_keys_disjoint: "k \<in> set state_keys \<Longrightarrow> k \<noteq> MF_Message \<and> k \<noteq> MF_Status"
  by (auto simp: state_keys_def schema_defs)

lemma state_fields_filter:
  "state_fields (fmfilter (\<lambda>k. k \<noteq> MF_Message \<and> k \<noteq> MF_Status) hash) st \<longleftrightarrow> state_fields hash st"
  using state_keys_disjoint by (auto simp: state_fields_def field_reads_def)

lemma DecodeEnvelope_holds:
  assumes ok: "envelope_ok e" and hash: "holds_envelope hash e"
  shows "DecodeEnvelope defaults now uuid uuid' hash = Inr (reread defaults now e)"
proof -
  from hash obtain kvs where kvs: "fmlookup hash MF_Message = Some (json_text (JObj kvs))"
      "params_fields kvs (Envelope_ToParams e)" "json_ascii (JObj kvs)"
    and st: "fmlookup hash MF_Status = Some (itoa (e_status e))" "state_fields hash (e_messageState e)"
    by (auto simp: holds_envelope_def)
  have ne: "hash \<noteq> fmempty" using st(1) by auto
  have p: "Codec_DecodeParams (hash_get hash MF_Message) = Inr (Envelope_ToParams e)"
    using Codec_DecodeParams_text [OF kvs(2) _ kvs(3)] kvs(1) ok by (simp add: envelope_ok_def hash_get_def)
  have s: "DecodeState uuid (fmfilter (\<lambda>k. k \<noteq> MF_Message \<and> k \<noteq> MF_Status) hash) = Inr (e_messageState e)"
    using DecodeState_fields st(2) ok by (simp add: envelope_ok_def state_fields_filter)
  have m: "rebuildMessage defaults now (Envelope_ToParams e) = reread_message defaults now (e_producibleMessage e)"
    using rebuild_reread ok by (simp add: envelope_ok_def Envelope_ToParams_def)
  have stat: "atoi_value (hash_get hash MF_Status) = e_status e"
    using st(1) ok by (simp add: hash_get_def envelope_ok_def)
  have delay: "p_ScheduledDelay (Envelope_ToParams e) = map_option Milliseconds (pm_scheduledDelay (e_producibleMessage e))"
    "p_DestinationQueue (Envelope_ToParams e) = e_destinationQueue e"
    "p_ConsumerGroupID (Envelope_ToParams e) = e_consumerGroupID e"
    by (simp_all add: Envelope_ToParams_def Message_ToParams_def)
  show ?thesis
    using ne
    by (cases "pm_scheduledDelay (e_producibleMessage e)")
      (simp_all add: DecodeEnvelope_def p s m stat delay reread_def rearm_def NewEnvelope_def SetDestinationQueue_def
        SetStatus_def SetMessageState_def SetConsumerGroupID_def Let_def)
qed

lemma holds_EncodeEnvelope:
  assumes "envelope_ok e"
  shows "holds_envelope (EncodeEnvelope e) e"
proof -
  have look: "fmlookup (EncodeEnvelope e) k = fmlookup (EncodeState (e_messageState e)) k" if "k \<in> set state_keys" for k
    using state_keys_disjoint [OF that] by (auto simp: EncodeEnvelope_def fmlookup_add)
  have nm: "MF_Message |\<notin>| fmdom (EncodeState (e_messageState e))" "MF_Status |\<notin>| fmdom (EncodeState (e_messageState e))"
    by (simp_all add: fmlookup_dom_iff EncodeState_lookup)
  have ms: "MF_Message \<noteq> MF_Status" by (simp add: schema_defs)
  obtain kvs where "params_json (Envelope_ToParams e) = JObj kvs" "params_fields kvs (Envelope_ToParams e)"
    using params_json_fields by blast
  moreover from this(1) have "json_ascii (JObj kvs)"
    using params_json_ascii [of "Envelope_ToParams e"] assms by (simp add: envelope_ok_def)
  ultimately show ?thesis
    using nm ms look
    by (auto simp: holds_envelope_def EncodeEnvelope_def Codec_EncodeParams_def state_fields_def field_reads_def)
qed

subsection \<open>Properties\<close>

text \<open>C22: An envelope that is written with \<open>EncodeEnvelope\<close> and read with \<open>DecodeEnvelope\<close> comes back with its
  id, status, state, targets, group, body, priority, retry settings, consume timeout and schedule.
  It does not come back entirely: the creation time is the time of reading, the routing key is
  gone, a message without a time to live gets the default one, and a scheduling delay that was already used up
  is armed again.\<close>

theorem envelope_roundtrip:
  assumes "envelope_ok e"
  shows "DecodeEnvelope defaults now uuid uuid' (EncodeEnvelope e) = Inr (reread defaults now e)"
  using assms holds_EncodeEnvelope by (intro DecodeEnvelope_holds)

definition sample_message :: producible where
  "sample_message = SetQueue (Some \<lparr>qp_name = ''orders'', qp_ns = ''shop''\<rparr>)
     (SetTTL (millis 5000) (SetBody (JObj [(''n'', JNum 1)]) (New_Message DefaultConsumeOptions 1000000)))"

definition sample_envelope :: envelope where
  "sample_envelope = SetDestinationQueue (pm_queue sample_message) (NewEnvelope ''m1'' sample_message)"

lemmas sample_envelope_defs = sample_envelope_def sample_message_def NewEnvelope_def SetDestinationQueue_def
  New_Message_def DefaultConsumeOptions_def NewMessageState_def millis_def wrap64_def setter_defs

lemma sample_envelope_ok: "envelope_ok sample_envelope"
  by (simp add: envelope_ok_def sample_envelope_defs msg_ok_def one_target_def whole_duration_def in_int64_def
      state_ok_def params_ok_def Envelope_ToParams_def Message_ToParams_def valid_params_def is_ascii_def
      trim_space_def UnixMilli_def Milliseconds_def key_order_def valid_key_def isLetter_def isValidKeyChar_def isDigit_def enum_defs)

theorem envelope_roundtrip_witness:
  "DecodeEnvelope DefaultConsumeOptions 7000000000 ''u'' ''v'' (EncodeEnvelope sample_envelope) =
     Inr (reread DefaultConsumeOptions 7000000000 sample_envelope)"
  by (rule envelope_roundtrip [OF sample_envelope_ok])

text \<open>C23: The time to live of a message counts from the moment it is read back, not from its creation: however
  old the stored message is, what is read at \<open>now\<close> is expired at \<open>t\<close> exactly when the time to live
  has passed between \<open>now\<close> and \<open>t\<close>.\<close>

theorem ttl_counts_from_reading:
  assumes "envelope_ok e" and "holds_envelope hash e" and "0 < pm_ttl (e_producibleMessage e)"
    and "DecodeEnvelope defaults now uuid uuid' hash = Inr e'"
  shows "Envelope_IsExpired t e' \<longleftrightarrow> pm_ttl (e_producibleMessage e) \<le> t - now"
proof -
  have "e' = reread defaults now e" using DecodeEnvelope_holds [OF assms(1,2)] assms(4) by simp
  with assms(3) show ?thesis by (simp add: Envelope_IsExpired_def reread_def reread_message_def Let_def)
qed

theorem ttl_counts_from_reading_witness:
  "Envelope_IsExpired 7000000000 sample_envelope \<and>
   (\<exists>e'. DecodeEnvelope DefaultConsumeOptions 7000000000 ''u'' ''v'' (EncodeEnvelope sample_envelope) = Inr e' \<and>
     \<not> Envelope_IsExpired 7000000001 e')"
proof -
  have ttl: "pm_ttl (e_producibleMessage sample_envelope) = 5000000000" by code_simp
  have old: "Envelope_IsExpired 7000000000 sample_envelope" by code_simp
  have run: "DecodeEnvelope DefaultConsumeOptions 7000000000 ''u'' ''v'' (EncodeEnvelope sample_envelope) =
      Inr (reread DefaultConsumeOptions 7000000000 sample_envelope)"
    by (rule DecodeEnvelope_holds [OF sample_envelope_ok holds_EncodeEnvelope [OF sample_envelope_ok]])
  from ttl_counts_from_reading [OF sample_envelope_ok holds_EncodeEnvelope [OF sample_envelope_ok] _ run, of 7000000001]
  show ?thesis using ttl old run by simp
qed

end
