(* ===== verification/Message_Queue.thy ===== *)
theory Message_Queue
  imports Queue_Store Message_Codec
begin

text \<open>
  A queue with its messages, as the scripts of \<open>Lua_Message\<close> see it: \<open>queue_view q d A\<close> says that the
  keys of the queue \<open>q\<close> and the keys of messages hold in the database \<open>d\<close> what the record \<open>A\<close>
  says, with the right types and the counters as numbers. \<open>wp\<close> is a small calculus for scripts on
  such a view: a command on a key of the queue is an update of one field of the record, everything
  outside the queue and the messages stays as it is.
\<close>

subsection \<open>The view\<close>

text \<open>The lists of a consumer group have keys of their own (\<open>dispatch\<close>, the requeuers, the scheduled
  publisher, \<open>deleteMessageGroup\<close>).\<close>

definition pending_key :: "queue_key \<Rightarrow> string \<Rightarrow> string" where
  "pending_key q g = (if g \<noteq> [] then Queue_PendingWithGroup q g else Queue_Pending q)"

definition priority_key :: "queue_key \<Rightarrow> string \<Rightarrow> string" where
  "priority_key q g = (if g \<noteq> [] then Queue_PriorityWithGroup q g else Queue_Priority q)"

definition counter_fields :: "string list" where
  "counter_fields =
     [F_MessagesCount, F_ScheduledMessagesCount, F_PendingMessagesCount, F_ProcessingMessagesCount,
      F_AcknowledgedMessagesCount, F_DeadLetteredMessagesCount, F_DelayedMessagesCount, F_RequeuedMessagesCount]"

text \<open>The settings of the queue (everything in its hash but the counters), the counters, the published
  ids, the places of messages (by group or consumer), the groups, and the hashes and histories of messages.\<close>

record mq =
  mq_conf :: "string \<Rightarrow> string option"
  mq_cnt :: "string \<Rightarrow> int"
  mq_pub :: "string list"
  mq_pend :: "string \<Rightarrow> string list"
  mq_prio :: "string \<Rightarrow> (string, int) fmap"
  mq_sched :: "(string, int) fmap"
  mq_dly :: "(string, int) fmap"
  mq_req :: "string list"
  mq_ack :: "string list"
  mq_dl :: "string list"
  mq_proc :: "string \<Rightarrow> string list"
  mq_grps :: "string fset"
  mq_msg :: "string \<Rightarrow> (string, string) fmap"
  mq_hist :: "string \<Rightarrow> string list"

definition props_view :: "(string, string) fmap \<Rightarrow> mq \<Rightarrow> bool" where
  "props_view h A \<longleftrightarrow> (\<forall>f. fmlookup h f = (if f \<in> set counter_fields then Some (itoa (mq_cnt A f)) else mq_conf A f)) \<and>
     (\<forall>f \<in> set counter_fields. in_int64 (mq_cnt A f))"

text \<open>Ids of messages are UUIDs; all that matters is that they contain no colon.\<close>

definition plain_id :: "string \<Rightarrow> bool" where
  "plain_id m \<longleftrightarrow> m \<noteq> [] \<and> CHR '':'' \<notin> set m"

definition queue_view :: "queue_key \<Rightarrow> db \<Rightarrow> mq \<Rightarrow> bool" where
  "queue_view q d A \<longleftrightarrow>
     (\<exists>h. get_hash d (Queue_Properties q) = Inr h \<and> props_view h A) \<and>
     get_list d (Queue_Published q) = Inr (mq_pub A) \<and>
     (\<forall>g. get_list d (pending_key q g) = Inr (mq_pend A g)) \<and>
     (\<forall>g. get_zset d (priority_key q g) = Inr (mq_prio A g) \<and>
        (d (priority_key q g) = None \<longleftrightarrow> mq_prio A g = fmempty)) \<and>
     get_zset d (Queue_Scheduled q) = Inr (mq_sched A) \<and>
     get_zset d (Queue_Delayed q) = Inr (mq_dly A) \<and>
     get_list d (Queue_Requeued q) = Inr (mq_req A) \<and>
     get_list d (Queue_Acknowledged q) = Inr (mq_ack A) \<and>
     get_list d (Queue_DeadLetter q) = Inr (mq_dl A) \<and>
     (\<forall>c. get_list d (Queue_ConsumerProcessing q c) = Inr (mq_proc A c)) \<and>
     get_set d (Queue_ConsumerGroups q) = Inr (mq_grps A) \<and>
     (\<forall>m. plain_id m \<longrightarrow> get_hash d (System_Message m) = Inr (mq_msg A m)) \<and>
     (\<forall>m. plain_id m \<longrightarrow> get_list d (System_MessageAcknowledgementHistory m) = Inr (mq_hist A m))"

definition foreign :: "queue_key \<Rightarrow> string \<Rightarrow> bool" where
  "foreign q k \<longleftrightarrow> (\<forall>rest. k \<noteq> Queue_sub q rest) \<and> (\<forall>m. k \<noteq> System_Message m) \<and>
     (\<forall>m. k \<noteq> System_MessageAcknowledgementHistory m)"

subsection \<open>The keys are different\<close>

lemma queue_keys_inject [simp]:
  "pending_key q g = pending_key q g' \<longleftrightarrow> g = g'"
  "priority_key q g = priority_key q g' \<longleftrightarrow> g = g'"
  "Queue_ConsumerProcessing q c = Queue_ConsumerProcessing q c' \<longleftrightarrow> c = c'"
  "System_Message m = System_Message m' \<longleftrightarrow> m = m'"
  "System_MessageAcknowledgementHistory m = System_MessageAcknowledgementHistory m' \<longleftrightarrow> m = m'"
  by (auto simp: pending_key_def priority_key_def key_defs Key_eq_iff key_parts_append)

lemma queue_keys_neq [simp]:
  "Queue_Properties q \<noteq> Queue_Published q" "Queue_Properties q \<noteq> pending_key q g'" "Queue_Properties q \<noteq> priority_key q g'"
  "Queue_Properties q \<noteq> Queue_Scheduled q" "Queue_Properties q \<noteq> Queue_Delayed q" "Queue_Properties q \<noteq> Queue_Requeued q"
  "Queue_Properties q \<noteq> Queue_Acknowledged q" "Queue_Properties q \<noteq> Queue_DeadLetter q" "Queue_Properties q \<noteq> Queue_ConsumerProcessing q c'"
  "Queue_Properties q \<noteq> Queue_ConsumerGroups q" "Queue_Properties q \<noteq> System_Message m" "Queue_Properties q \<noteq> System_MessageAcknowledgementHistory m"
  "System_Message m \<noteq> Queue_Properties q" "System_MessageAcknowledgementHistory m \<noteq> Queue_Properties q"
  "Queue_Published q \<noteq> Queue_Properties q" "Queue_Published q \<noteq> pending_key q g'" "Queue_Published q \<noteq> priority_key q g'"
  "Queue_Published q \<noteq> Queue_Scheduled q" "Queue_Published q \<noteq> Queue_Delayed q" "Queue_Published q \<noteq> Queue_Requeued q"
  "Queue_Published q \<noteq> Queue_Acknowledged q" "Queue_Published q \<noteq> Queue_DeadLetter q" "Queue_Published q \<noteq> Queue_ConsumerProcessing q c'"
  "Queue_Published q \<noteq> Queue_ConsumerGroups q" "Queue_Published q \<noteq> System_Message m" "Queue_Published q \<noteq> System_MessageAcknowledgementHistory m"
  "System_Message m \<noteq> Queue_Published q" "System_MessageAcknowledgementHistory m \<noteq> Queue_Published q"
  "pending_key q g \<noteq> Queue_Properties q" "pending_key q g \<noteq> Queue_Published q" "pending_key q g \<noteq> priority_key q g'"
  "pending_key q g \<noteq> Queue_Scheduled q" "pending_key q g \<noteq> Queue_Delayed q" "pending_key q g \<noteq> Queue_Requeued q"
  "pending_key q g \<noteq> Queue_Acknowledged q" "pending_key q g \<noteq> Queue_DeadLetter q" "pending_key q g \<noteq> Queue_ConsumerProcessing q c'"
  "pending_key q g \<noteq> Queue_ConsumerGroups q" "pending_key q g \<noteq> System_Message m" "pending_key q g \<noteq> System_MessageAcknowledgementHistory m"
  "System_Message m \<noteq> pending_key q g" "System_MessageAcknowledgementHistory m \<noteq> pending_key q g"
  "priority_key q g \<noteq> Queue_Properties q" "priority_key q g \<noteq> Queue_Published q" "priority_key q g \<noteq> pending_key q g'"
  "priority_key q g \<noteq> Queue_Scheduled q" "priority_key q g \<noteq> Queue_Delayed q" "priority_key q g \<noteq> Queue_Requeued q"
  "priority_key q g \<noteq> Queue_Acknowledged q" "priority_key q g \<noteq> Queue_DeadLetter q" "priority_key q g \<noteq> Queue_ConsumerProcessing q c'"
  "priority_key q g \<noteq> Queue_ConsumerGroups q" "priority_key q g \<noteq> System_Message m" "priority_key q g \<noteq> System_MessageAcknowledgementHistory m"
  "System_Message m \<noteq> priority_key q g" "System_MessageAcknowledgementHistory m \<noteq> priority_key q g"
  "Queue_Scheduled q \<noteq> Queue_Properties q" "Queue_Scheduled q \<noteq> Queue_Published q" "Queue_Scheduled q \<noteq> pending_key q g'"
  "Queue_Scheduled q \<noteq> priority_key q g'" "Queue_Scheduled q \<noteq> Queue_Delayed q" "Queue_Scheduled q \<noteq> Queue_Requeued q"
  "Queue_Scheduled q \<noteq> Queue_Acknowledged q" "Queue_Scheduled q \<noteq> Queue_DeadLetter q" "Queue_Scheduled q \<noteq> Queue_ConsumerProcessing q c'"
  "Queue_Scheduled q \<noteq> Queue_ConsumerGroups q" "Queue_Scheduled q \<noteq> System_Message m" "Queue_Scheduled q \<noteq> System_MessageAcknowledgementHistory m"
  "System_Message m \<noteq> Queue_Scheduled q" "System_MessageAcknowledgementHistory m \<noteq> Queue_Scheduled q"
  "Queue_Delayed q \<noteq> Queue_Properties q" "Queue_Delayed q \<noteq> Queue_Published q" "Queue_Delayed q \<noteq> pending_key q g'"
  "Queue_Delayed q \<noteq> priority_key q g'" "Queue_Delayed q \<noteq> Queue_Scheduled q" "Queue_Delayed q \<noteq> Queue_Requeued q"
  "Queue_Delayed q \<noteq> Queue_Acknowledged q" "Queue_Delayed q \<noteq> Queue_DeadLetter q" "Queue_Delayed q \<noteq> Queue_ConsumerProcessing q c'"
  "Queue_Delayed q \<noteq> Queue_ConsumerGroups q" "Queue_Delayed q \<noteq> System_Message m" "Queue_Delayed q \<noteq> System_MessageAcknowledgementHistory m"
  "System_Message m \<noteq> Queue_Delayed q" "System_MessageAcknowledgementHistory m \<noteq> Queue_Delayed q"
  "Queue_Requeued q \<noteq> Queue_Properties q" "Queue_Requeued q \<noteq> Queue_Published q" "Queue_Requeued q \<noteq> pending_key q g'"
  "Queue_Requeued q \<noteq> priority_key q g'" "Queue_Requeued q \<noteq> Queue_Scheduled q" "Queue_Requeued q \<noteq> Queue_Delayed q"
  "Queue_Requeued q \<noteq> Queue_Acknowledged q" "Queue_Requeued q \<noteq> Queue_DeadLetter q" "Queue_Requeued q \<noteq> Queue_ConsumerProcessing q c'"
  "Queue_Requeued q \<noteq> Queue_ConsumerGroups q" "Queue_Requeued q \<noteq> System_Message m" "Queue_Requeued q \<noteq> System_MessageAcknowledgementHistory m"
  "System_Message m \<noteq> Queue_Requeued q" "System_MessageAcknowledgementHistory m \<noteq> Queue_Requeued q"
  "Queue_Acknowledged q \<noteq> Queue_Properties q" "Queue_Acknowledged q \<noteq> Queue_Published q" "Queue_Acknowledged q \<noteq> pending_key q g'"
  "Queue_Acknowledged q \<noteq> priority_key q g'" "Queue_Acknowledged q \<noteq> Queue_Scheduled q" "Queue_Acknowledged q \<noteq> Queue_Delayed q"
  "Queue_Acknowledged q \<noteq> Queue_Requeued q" "Queue_Acknowledged q \<noteq> Queue_DeadLetter q" "Queue_Acknowledged q \<noteq> Queue_ConsumerProcessing q c'"
  "Queue_Acknowledged q \<noteq> Queue_ConsumerGroups q" "Queue_Acknowledged q \<noteq> System_Message m" "Queue_Acknowledged q \<noteq> System_MessageAcknowledgementHistory m"
  "System_Message m \<noteq> Queue_Acknowledged q" "System_MessageAcknowledgementHistory m \<noteq> Queue_Acknowledged q"
  "Queue_DeadLetter q \<noteq> Queue_Properties q" "Queue_DeadLetter q \<noteq> Queue_Published q" "Queue_DeadLetter q \<noteq> pending_key q g'"
  "Queue_DeadLetter q \<noteq> priority_key q g'" "Queue_DeadLetter q \<noteq> Queue_Scheduled q" "Queue_DeadLetter q \<noteq> Queue_Delayed q"
  "Queue_DeadLetter q \<noteq> Queue_Requeued q" "Queue_DeadLetter q \<noteq> Queue_Acknowledged q" "Queue_DeadLetter q \<noteq> Queue_ConsumerProcessing q c'"
  "Queue_DeadLetter q \<noteq> Queue_ConsumerGroups q" "Queue_DeadLetter q \<noteq> System_Message m" "Queue_DeadLetter q \<noteq> System_MessageAcknowledgementHistory m"
  "System_Message m \<noteq> Queue_DeadLetter q" "System_MessageAcknowledgementHistory m \<noteq> Queue_DeadLetter q"
  "Queue_ConsumerProcessing q c \<noteq> Queue_Properties q" "Queue_ConsumerProcessing q c \<noteq> Queue_Published q" "Queue_ConsumerProcessing q c \<noteq> pending_key q g'"
  "Queue_ConsumerProcessing q c \<noteq> priority_key q g'" "Queue_ConsumerProcessing q c \<noteq> Queue_Scheduled q" "Queue_ConsumerProcessing q c \<noteq> Queue_Delayed q"
  "Queue_ConsumerProcessing q c \<noteq> Queue_Requeued q" "Queue_ConsumerProcessing q c \<noteq> Queue_Acknowledged q" "Queue_ConsumerProcessing q c \<noteq> Queue_DeadLetter q"
  "Queue_ConsumerProcessing q c \<noteq> Queue_ConsumerGroups q" "Queue_ConsumerProcessing q c \<noteq> System_Message m" "Queue_ConsumerProcessing q c \<noteq> System_MessageAcknowledgementHistory m"
  "System_Message m \<noteq> Queue_ConsumerProcessing q c" "System_MessageAcknowledgementHistory m \<noteq> Queue_ConsumerProcessing q c"
  "Queue_ConsumerGroups q \<noteq> Queue_Properties q" "Queue_ConsumerGroups q \<noteq> Queue_Published q" "Queue_ConsumerGroups q \<noteq> pending_key q g'"
  "Queue_ConsumerGroups q \<noteq> priority_key q g'" "Queue_ConsumerGroups q \<noteq> Queue_Scheduled q" "Queue_ConsumerGroups q \<noteq> Queue_Delayed q"
  "Queue_ConsumerGroups q \<noteq> Queue_Requeued q" "Queue_ConsumerGroups q \<noteq> Queue_Acknowledged q" "Queue_ConsumerGroups q \<noteq> Queue_DeadLetter q"
  "Queue_ConsumerGroups q \<noteq> Queue_ConsumerProcessing q c'" "Queue_ConsumerGroups q \<noteq> System_Message m" "Queue_ConsumerGroups q \<noteq> System_MessageAcknowledgementHistory m"
  "System_Message m \<noteq> Queue_ConsumerGroups q" "System_MessageAcknowledgementHistory m \<noteq> Queue_ConsumerGroups q"
  by (simp_all add: pending_key_def priority_key_def key_defs Key_eq_iff key_parts_append)

lemma message_keys_neq [simp]:
  "plain_id m \<Longrightarrow> System_Message m \<noteq> System_MessageAcknowledgementHistory m'"
  "plain_id m \<Longrightarrow> System_MessageAcknowledgementHistory m' \<noteq> System_Message m"
  by (auto simp: plain_id_def key_defs Key_eq_iff)

subsection \<open>Updates of the view\<close>

lemma get_put_if:
  "get_hash (put_hash k h d) k' = (if k' = k then Inr h else get_hash d k')"
  "get_list (put_list k xs d) k' = (if k' = k then Inr xs else get_list d k')"
  "get_zset (put_zset k z d) k' = (if k' = k then Inr z else get_zset d k')"
  "get_set (put_set k S d) k' = (if k' = k then Inr S else get_set d k')"
  by simp_all

lemma props_view_frame [simp]:
  "props_view h (A\<lparr>mq_pub := x1\<rparr>) = props_view h A" "props_view h (A\<lparr>mq_pend := x2\<rparr>) = props_view h A"
  "props_view h (A\<lparr>mq_prio := x3\<rparr>) = props_view h A" "props_view h (A\<lparr>mq_sched := x4\<rparr>) = props_view h A"
  "props_view h (A\<lparr>mq_dly := x5\<rparr>) = props_view h A" "props_view h (A\<lparr>mq_req := x6\<rparr>) = props_view h A"
  "props_view h (A\<lparr>mq_ack := x7\<rparr>) = props_view h A" "props_view h (A\<lparr>mq_dl := x8\<rparr>) = props_view h A"
  "props_view h (A\<lparr>mq_proc := x9\<rparr>) = props_view h A" "props_view h (A\<lparr>mq_grps := x10\<rparr>) = props_view h A"
  "props_view h (A\<lparr>mq_msg := x11\<rparr>) = props_view h A" "props_view h (A\<lparr>mq_hist := x12\<rparr>) = props_view h A"
  by (simp_all add: props_view_def)

lemma queue_view_put:
  assumes "queue_view q d A"
  shows "queue_view q (put_list (Queue_Published q) xs d) (A\<lparr>mq_pub := xs\<rparr>)"
    "queue_view q (put_list (pending_key q g) xs d) (A\<lparr>mq_pend := (mq_pend A)(g := xs)\<rparr>)"
    "queue_view q (put_zset (priority_key q g) z d) (A\<lparr>mq_prio := (mq_prio A)(g := z)\<rparr>)"
    "queue_view q (put_zset (Queue_Scheduled q) z d) (A\<lparr>mq_sched := z\<rparr>)"
    "queue_view q (put_zset (Queue_Delayed q) z d) (A\<lparr>mq_dly := z\<rparr>)"
    "queue_view q (put_list (Queue_Requeued q) xs d) (A\<lparr>mq_req := xs\<rparr>)"
    "queue_view q (put_list (Queue_Acknowledged q) xs d) (A\<lparr>mq_ack := xs\<rparr>)"
    "queue_view q (put_list (Queue_DeadLetter q) xs d) (A\<lparr>mq_dl := xs\<rparr>)"
    "queue_view q (put_list (Queue_ConsumerProcessing q c) xs d) (A\<lparr>mq_proc := (mq_proc A)(c := xs)\<rparr>)"
    "plain_id m \<Longrightarrow> queue_view q (put_hash (System_Message m) h d) (A\<lparr>mq_msg := (mq_msg A)(m := h)\<rparr>)"
    "plain_id m \<Longrightarrow> queue_view q (put_list (System_MessageAcknowledgementHistory m) xs d)
       (A\<lparr>mq_hist := (mq_hist A)(m := xs)\<rparr>)"
  using assms by (simp_all add: queue_view_def get_put_if fmdom_eq_fempty)

lemma props_view_count:
  assumes "props_view h A" and "f \<in> set counter_fields" and "in_int64 n"
  shows "props_view (fmupd f (itoa n) h) (A\<lparr>mq_cnt := (mq_cnt A)(f := n)\<rparr>)"
  using assms by (auto simp: props_view_def)

lemma props_view_lookup:
  assumes "props_view h A"
  shows "f \<in> set counter_fields \<Longrightarrow> fmlookup h f = Some (itoa (mq_cnt A f))"
    "f \<notin> set counter_fields \<Longrightarrow> fmlookup h f = mq_conf A f"
    "f \<in> set counter_fields \<Longrightarrow> in_int64 (mq_cnt A f)"
  using assms by (simp_all add: props_view_def)

lemma props_view_nonempty:
  assumes "props_view h A"
  shows "h \<noteq> fmempty"
proof -
  have "F_MessagesCount \<in> set counter_fields" by (simp add: counter_fields_def)
  from props_view_lookup(1) [OF assms this] show ?thesis by auto
qed

lemma queue_view_put_props:
  assumes "queue_view q d A" and "props_view h A'" and "A' = A\<lparr>mq_cnt := n\<rparr>"
  shows "queue_view q (put_hash (Queue_Properties q) h d) A'"
  using assms by (simp add: queue_view_def get_put_if fmdom_eq_fempty)

lemma del_keys_other: "k \<notin> set ks \<Longrightarrow> del_keys ks d k = d k"
  by (simp add: del_keys_def)

lemma queue_view_del:
  assumes "queue_view q d A" and "plain_id m"
  shows "queue_view q (del_keys [System_Message m, System_MessageAcknowledgementHistory m] d)
    (A\<lparr>mq_msg := (mq_msg A)(m := fmempty), mq_hist := (mq_hist A)(m := [])\<rparr>)"
proof -
  have zset: "get_zset (del_keys ks d) k = (if k \<in> set ks then Inr fmempty else get_zset d k)" for ks k
    by (simp add: get_zset_def del_keys_def)
  show ?thesis using assms by (simp add: queue_view_def zset del_keys_other)
qed

lemma queue_view_props:
  "queue_view q d A \<Longrightarrow> \<exists>h. get_hash d (Queue_Properties q) = Inr h \<and> props_view h A"
  by (simp add: queue_view_def)

lemma queue_view_gets:
  assumes "queue_view q d A"
  shows "get_list d (Queue_Published q) = Inr (mq_pub A)" "get_list d (pending_key q g) = Inr (mq_pend A g)"
    "get_zset d (priority_key q g) = Inr (mq_prio A g)" "get_zset d (Queue_Scheduled q) = Inr (mq_sched A)"
    "get_zset d (Queue_Delayed q) = Inr (mq_dly A)" "get_list d (Queue_Requeued q) = Inr (mq_req A)"
    "get_list d (Queue_Acknowledged q) = Inr (mq_ack A)" "get_list d (Queue_DeadLetter q) = Inr (mq_dl A)"
    "get_list d (Queue_ConsumerProcessing q c) = Inr (mq_proc A c)"
    "get_set d (Queue_ConsumerGroups q) = Inr (mq_grps A)"
    "plain_id m \<Longrightarrow> get_hash d (System_Message m) = Inr (mq_msg A m)"
    "plain_id m \<Longrightarrow> get_list d (System_MessageAcknowledgementHistory m) = Inr (mq_hist A m)"
    "d (priority_key q g) = None \<longleftrightarrow> mq_prio A g = fmempty"
  using assms by (simp_all add: queue_view_def)

lemma foreign_neq [simp]:
  assumes "foreign q k"
  shows "k \<noteq> Queue_Properties q" "k \<noteq> Queue_Published q" "k \<noteq> pending_key q g" "k \<noteq> priority_key q g"
    "k \<noteq> Queue_Scheduled q" "k \<noteq> Queue_Delayed q" "k \<noteq> Queue_Requeued q" "k \<noteq> Queue_Acknowledged q"
    "k \<noteq> Queue_DeadLetter q" "k \<noteq> Queue_ConsumerProcessing q c" "k \<noteq> Queue_ConsumerGroups q"
    "k \<noteq> System_Message m" "k \<noteq> System_MessageAcknowledgementHistory m"
  using assms
  by (simp_all add: foreign_def pending_key_def priority_key_def Queue_Properties_def Queue_Published_def
      Queue_PendingWithGroup_def Queue_Pending_def Queue_PriorityWithGroup_def Queue_Priority_def Queue_Scheduled_def
      Queue_Delayed_def Queue_Requeued_def Queue_Acknowledged_def Queue_DeadLetter_def Queue_ConsumerProcessing_def
      Queue_ConsumerGroups_def)

subsection \<open>Commands and scripts on the view\<close>

definition count :: "string \<Rightarrow> int \<Rightarrow> mq \<Rightarrow> mq" where
  "count f n A = A\<lparr>mq_cnt := (mq_cnt A)(f := mq_cnt A f + n)\<rparr>"

definition count_ok :: "string \<Rightarrow> int \<Rightarrow> mq \<Rightarrow> bool" where
  "count_ok f n A \<longleftrightarrow> in_int64 (mq_cnt A f + n)"

definition set_fields :: "string \<Rightarrow> (string \<times> string) list \<Rightarrow> mq \<Rightarrow> mq" where
  "set_fields m fvs A = A\<lparr>mq_msg := (mq_msg A)(m := hset_all fvs (mq_msg A m))\<rparr>"

definition same_elsewhere :: "queue_key \<Rightarrow> db \<Rightarrow> db \<Rightarrow> bool" where
  "same_elsewhere q d d' \<longleftrightarrow> (\<forall>k. foreign q k \<longrightarrow> d' k = d k)"

text \<open>\<open>steps q en c A r A'\<close>: the command \<open>c\<close> succeeds on a database that shows \<open>A\<close>, replies \<open>r\<close> and
  leaves one that shows \<open>A'\<close>. \<open>wp q m A Q\<close> says the same of a script, with its result described by \<open>Q\<close>.\<close>

definition steps :: "queue_key \<Rightarrow> (string fset \<Rightarrow> string list) \<Rightarrow> cmd \<Rightarrow> mq \<Rightarrow> (reply \<Rightarrow> bool) \<Rightarrow> mq \<Rightarrow> bool" where
  "steps q en c A R A' \<longleftrightarrow> (\<forall>d. queue_view q d A \<longrightarrow>
     (\<exists>r d'. redis_apply en c d = (Inr r, d') \<and> R r \<and> same_elsewhere q d d' \<and> queue_view q d' A'))"

definition wp :: "queue_key \<Rightarrow> (db, redis_error, 'a) io \<Rightarrow> mq \<Rightarrow> ('a \<Rightarrow> mq \<Rightarrow> bool) \<Rightarrow> bool" where
  "wp q m A Q \<longleftrightarrow> (\<forall>d. queue_view q d A \<longrightarrow>
     (\<exists>r d' A'. m d = (Inr r, d') \<and> same_elsewhere q d d' \<and> queue_view q d' A' \<and> Q r A'))"

named_theorems wp_intros \<open>rules for scripts on a queue\<close>

lemma same_elsewhere_refl [simp]: "same_elsewhere q d d"
  by (simp add: same_elsewhere_def)

lemma same_elsewhere_trans: "same_elsewhere q d d' \<Longrightarrow> same_elsewhere q d' d'' \<Longrightarrow> same_elsewhere q d d''"
  by (simp add: same_elsewhere_def)

lemma wpD:
  assumes "wp q m A Q" and "queue_view q d A"
  obtains r d' A' where "m d = (Inr r, d')" "same_elsewhere q d d'" "queue_view q d' A'" "Q r A'"
  using assms unfolding wp_def by blast

lemma wp_ret [wp_intros]: "Q x A \<Longrightarrow> wp q (ret x) A Q"
  by (auto simp: wp_def)

lemma wp_lua_return [wp_intros]: "Q (RBulk s) A \<Longrightarrow> wp q (lua_return s) A Q"
  by (simp add: lua_return_def wp_ret)

lemma wp_and_then [wp_intros]:
  assumes "wp q m A (\<lambda>x A1. wp q (f x) A1 Q)"
  shows "wp q (and_then m f) A Q"
  unfolding wp_def
proof (intro allI impI)
  fix d assume "queue_view q d A"
  from wpD [OF assms this] obtain x d1 A1 where 1: "m d = (Inr x, d1)" "same_elsewhere q d d1"
    "queue_view q d1 A1" "wp q (f x) A1 Q" .
  from wpD [OF 1(4,3)] obtain r d' A' where 2: "f x d1 = (Inr r, d')" "same_elsewhere q d1 d'"
    "queue_view q d' A'" "Q r A'" .
  from 1 2 same_elsewhere_trans [OF 1(2) 2(2)]
  show "\<exists>r d' A'. and_then m f d = (Inr r, d') \<and> same_elsewhere q d d' \<and> queue_view q d' A' \<and> Q r A'"
    by (auto simp: and_then_def)
qed

lemma wp_weaken: "wp q m A Q \<Longrightarrow> (\<And>r A'. Q r A' \<Longrightarrow> Q' r A') \<Longrightarrow> wp q m A Q'"
  unfolding wp_def by blast

lemma wp_step:
  assumes "steps q en c A R A'" and "\<And>r. R r \<Longrightarrow> wp q (f r) A' Q"
  shows "wp q (and_then (redis_apply en c) f) A Q"
  using assms unfolding wp_def steps_def
  by (fastforce simp: and_then_def intro: same_elsewhere_trans)

lemma wp_do_Nil [wp_intros]: "Q () A \<Longrightarrow> wp q (lua_do call []) A Q"
  by (simp add: lua_do.simps wp_ret)

lemma wp_do_Cons:
  "steps q en c A R A' \<Longrightarrow> wp q (lua_do (redis_apply en) cs) A' Q \<Longrightarrow> wp q (lua_do (redis_apply en) (c # cs)) A Q"
  by (simp add: lua_do.simps wp_step)

lemma wp_int:
  assumes "steps q en c A (\<lambda>r. r = RInt n) A'" and "Q n A'"
  shows "wp q (lua_int (redis_apply en) c) A Q"
  unfolding lua_int_def by (rule wp_step [OF assms(1)]) (simp add: wp_ret assms(2))

lemma wp_call:
  assumes "steps q en c A (\<lambda>r. r = x) A'" and "Q x A'"
  shows "wp q (redis_apply en c) A Q"
  using assms unfolding wp_def steps_def by blast

subsection \<open>Rules for commands\<close>

lemma list_rem_1 [simp]: "list_rem 1 x ys = remove1 x ys"
  by (induction ys) (simp_all add: list_rem_def)

lemma length_remove1_diff: "int (length xs) - int (length (remove1 x xs)) = (if x \<in> set xs then 1 else 0)"
  by (induction xs) auto

lemma stepsI:
  assumes "\<And>d. queue_view q d A \<Longrightarrow>
    \<exists>r d'. redis_apply en c d = (Inr r, d') \<and> R r \<and> same_elsewhere q d d' \<and> queue_view q d' A'"
  shows "steps q en c A R A'"
  using assms by (simp add: steps_def)

lemma steps_lists:
  "steps q en (RPUSH (Queue_Published q) vs) A (\<lambda>_. True) (A\<lparr>mq_pub := mq_pub A @ vs\<rparr>)"
  "steps q en (RPUSH (pending_key q g) vs) A (\<lambda>_. True) (A\<lparr>mq_pend := (mq_pend A)(g := mq_pend A g @ vs)\<rparr>)"
  "steps q en (LPUSH (pending_key q g) v) A (\<lambda>_. True) (A\<lparr>mq_pend := (mq_pend A)(g := v # mq_pend A g)\<rparr>)"
  "steps q en (RPUSH (Queue_Requeued q) vs) A (\<lambda>_. True) (A\<lparr>mq_req := mq_req A @ vs\<rparr>)"
  "steps q en (RPUSH (Queue_Acknowledged q) vs) A (\<lambda>_. True) (A\<lparr>mq_ack := mq_ack A @ vs\<rparr>)"
  "steps q en (RPUSH (Queue_DeadLetter q) vs) A (\<lambda>_. True) (A\<lparr>mq_dl := mq_dl A @ vs\<rparr>)"
  "steps q en (LPUSH (Queue_ConsumerProcessing q c) v) A (\<lambda>_. True) (A\<lparr>mq_proc := (mq_proc A)(c := v # mq_proc A c)\<rparr>)"
  "plain_id m \<Longrightarrow> steps q en (LPUSH (System_MessageAcknowledgementHistory m) v) A (\<lambda>_. True)
     (A\<lparr>mq_hist := (mq_hist A)(m := v # mq_hist A m)\<rparr>)"
  "steps q en (LTRIM (Queue_Acknowledged q) a b) A (\<lambda>_. True) (A\<lparr>mq_ack := list_range a b (mq_ack A)\<rparr>)"
  "steps q en (LTRIM (Queue_DeadLetter q) a b) A (\<lambda>_. True) (A\<lparr>mq_dl := list_range a b (mq_dl A)\<rparr>)"
  "plain_id m \<Longrightarrow> steps q en (LTRIM (System_MessageAcknowledgementHistory m) a b) A (\<lambda>_. True)
     (A\<lparr>mq_hist := (mq_hist A)(m := list_range a b (mq_hist A m))\<rparr>)"
  by (rule stepsI, simp add: redis_apply.simps modify_ok queue_view_gets same_elsewhere_def queue_view_put)+

lemma steps_removals:
  "steps q en (LREM (Queue_Published q) 1 m) A (\<lambda>r. r = RInt (if m \<in> set (mq_pub A) then 1 else 0))
     (A\<lparr>mq_pub := remove1 m (mq_pub A)\<rparr>)"
  "steps q en (LREM (pending_key q g) 1 m) A (\<lambda>r. r = RInt (if m \<in> set (mq_pend A g) then 1 else 0))
     (A\<lparr>mq_pend := (mq_pend A)(g := remove1 m (mq_pend A g))\<rparr>)"
  "steps q en (LREM (Queue_Requeued q) 1 m) A (\<lambda>r. r = RInt (if m \<in> set (mq_req A) then 1 else 0))
     (A\<lparr>mq_req := remove1 m (mq_req A)\<rparr>)"
  "steps q en (LREM (Queue_Acknowledged q) 1 m) A (\<lambda>r. r = RInt (if m \<in> set (mq_ack A) then 1 else 0))
     (A\<lparr>mq_ack := remove1 m (mq_ack A)\<rparr>)"
  "steps q en (LREM (Queue_DeadLetter q) 1 m) A (\<lambda>r. r = RInt (if m \<in> set (mq_dl A) then 1 else 0))
     (A\<lparr>mq_dl := remove1 m (mq_dl A)\<rparr>)"
  "steps q en (LREM (Queue_ConsumerProcessing q c) 1 m) A (\<lambda>r. r = RInt (if m \<in> set (mq_proc A c) then 1 else 0))
     (A\<lparr>mq_proc := (mq_proc A)(c := remove1 m (mq_proc A c))\<rparr>)"
  by (rule stepsI, simp add: redis_apply.simps modify_ok queue_view_gets same_elsewhere_def queue_view_put
      length_remove1_diff)+

definition is_number :: "string \<Rightarrow> bool" where
  "is_number s \<longleftrightarrow> snd (parse_int s) = None"

lemma is_number_itoa [simp]: "in_int64 n \<Longrightarrow> is_number (itoa n)"
  by (simp add: is_number_def)

lemma zadd_number: "is_number s \<Longrightarrow> zadd s m z = Inr (bool_reply (m |\<notin>| fmdom z), fmupd m (atoi_value s) z)"
  by (cases "parse_int s") (simp add: zadd_def is_number_def)

lemma drop_one: "fcard ({|m|} |\<inter>| fmdom z) = (if m |\<in>| fmdom z then 1 else 0)" "fcard {|m|} = 1" "fmdrop_set {m} z = fmdrop m z"
  by (auto simp: fmdrop_set_single fcard_finsert_disjoint)

lemma steps_zsets:
  "is_number s \<Longrightarrow> steps q en (ZADD (priority_key q g) s m) A (\<lambda>_. True)
     (A\<lparr>mq_prio := (mq_prio A)(g := fmupd m (atoi_value s) (mq_prio A g))\<rparr>)"
  "is_number s \<Longrightarrow> steps q en (ZADD (Queue_Scheduled q) s m) A (\<lambda>_. True)
     (A\<lparr>mq_sched := fmupd m (atoi_value s) (mq_sched A)\<rparr>)"
  "is_number s \<Longrightarrow> steps q en (ZADD (Queue_Delayed q) s m) A (\<lambda>_. True)
     (A\<lparr>mq_dly := fmupd m (atoi_value s) (mq_dly A)\<rparr>)"
  "steps q en (ZREM (priority_key q g) [m]) A (\<lambda>r. r = RInt (if m |\<in>| fmdom (mq_prio A g) then 1 else 0))
     (A\<lparr>mq_prio := (mq_prio A)(g := fmdrop m (mq_prio A g))\<rparr>)"
  "steps q en (ZREM (Queue_Scheduled q) [m]) A (\<lambda>r. r = RInt (if m |\<in>| fmdom (mq_sched A) then 1 else 0))
     (A\<lparr>mq_sched := fmdrop m (mq_sched A)\<rparr>)"
  "steps q en (ZREM (Queue_Delayed q) [m]) A (\<lambda>r. r = RInt (if m |\<in>| fmdom (mq_dly A) then 1 else 0))
     (A\<lparr>mq_dly := fmdrop m (mq_dly A)\<rparr>)"
  by (rule stepsI, simp add: redis_apply.simps modify_ok queue_view_gets same_elsewhere_def queue_view_put
      zadd_number bool_reply_def drop_one)+

text \<open>A number in a field of a message; a missing field counts as zero.\<close>

definition field_number :: "(string, string) fmap \<Rightarrow> string \<Rightarrow> int \<Rightarrow> bool" where
  "field_number h f n \<longleftrightarrow> parse_int (case fmlookup h f of None \<Rightarrow> ''0'' | Some v \<Rightarrow> v) = (n, None)"

definition num_field :: "(string, string) fmap \<Rightarrow> string \<Rightarrow> int" where
  "num_field h f = fst (parse_int (case fmlookup h f of None \<Rightarrow> ''0'' | Some v \<Rightarrow> v))"

definition can_incr :: "(string, string) fmap \<Rightarrow> string \<Rightarrow> bool" where
  "can_incr h f \<longleftrightarrow> field_number h f (num_field h f) \<and> in_int64 (num_field h f + 1)"

lemma field_hset_all:
  assumes "f \<notin> fst ` set fvs"
  shows "fmlookup (hset_all fvs h) f = fmlookup h f"
  using assms
proof (induction fvs arbitrary: h)
  case (Cons fv fvs)
  then show ?case by (cases fv) (auto simp: hset_all_def)
qed (simp add: hset_all_def)

lemma numbers_hset_all:
  assumes "f \<notin> fst ` set fvs"
  shows "num_field (hset_all fvs h) f = num_field h f" "can_incr (hset_all fvs h) f = can_incr h f"
  by (simp_all add: num_field_def can_incr_def field_number_def field_hset_all [OF assms])

lemma steps_hashes:
  "plain_id m \<Longrightarrow> steps q en (HSET (System_Message m) fvs) A (\<lambda>_. True) (set_fields m fvs A)"
  "plain_id m \<Longrightarrow> can_incr (mq_msg A m) f \<Longrightarrow> steps q en (HINCRBY (System_Message m) f 1) A (\<lambda>_. True)
     (set_fields m [(f, itoa (num_field (mq_msg A m) f + 1))] A)"
  "plain_id m \<Longrightarrow> steps q en (DEL [System_Message m, System_MessageAcknowledgementHistory m]) A (\<lambda>_. True)
     (A\<lparr>mq_msg := (mq_msg A)(m := fmempty), mq_hist := (mq_hist A)(m := [])\<rparr>)"
  by (rule stepsI, simp add: redis_apply.simps modify_ok queue_view_gets same_elsewhere_def queue_view_put
      hincrby_def field_number_def can_incr_def set_fields_def hset_all_def queue_view_del del_keys_other)+

lemma steps_count:
  assumes "f \<in> set counter_fields" and "count_ok f n A"
  shows "steps q en (HINCRBY (Queue_Properties q) f n) A (\<lambda>_. True) (count f n A)"
proof (rule stepsI)
  fix d assume view: "queue_view q d A"
  then obtain h where h: "get_hash d (Queue_Properties q) = Inr h" "props_view h A"
    using queue_view_props by blast
  note look = props_view_lookup [OF h(2)]
  have "hincrby f n h = Inr (RInt (mq_cnt A f + n), fmupd f (itoa (mq_cnt A f + n)) h)"
    using assms look(1,3) by (simp add: hincrby_def count_ok_def)
  moreover have "queue_view q (put_hash (Queue_Properties q) (fmupd f (itoa (mq_cnt A f + n)) h) d)
      (count f n A)"
    unfolding count_def
    by (rule queue_view_put_props [OF view props_view_count [OF h(2) assms(1) assms(2) [unfolded count_ok_def]] refl])
  ultimately show "\<exists>r d'. redis_apply en (HINCRBY (Queue_Properties q) f n) d = (Inr r, d') \<and> True \<and>
      same_elsewhere q d d' \<and> queue_view q d' (count f n A)"
    by (simp add: redis_apply.simps modify_ok h(1) same_elsewhere_def)
qed

lemma steps_expire:
  assumes "0 < ms"
  shows "steps q en (PEXPIRE k ms) A (\<lambda>_. True) A"
  using assms by (intro stepsI) (simp add: redis_apply.simps)

lemma rpoplpush_run:
  assumes "get_list d src = Inr (xs @ [m])" and "get_list (put_list src xs d) dst = Inr ys"
  shows "rpoplpush src dst d = (Inr (RBulk m), put_list dst (m # ys) (put_list src xs d))"
proof -
  obtain a as where a: "xs @ [m] = a # as" by (cases "xs @ [m]") auto
  have "last (a # as) = m" "butlast (a # as) = xs" unfolding a [symmetric] by simp_all
  with assms a show ?thesis by (simp add: rpoplpush_def Let_def)
qed

lemma steps_pop:
  "mq_pend A g = xs @ [m] \<Longrightarrow>
     steps q en (RPOPLPUSH (pending_key q g) (Queue_ConsumerProcessing q c)) A (\<lambda>r. r = RBulk m)
       (A\<lparr>mq_pend := (mq_pend A)(g := xs), mq_proc := (mq_proc A)(c := m # mq_proc A c)\<rparr>)"
  "mq_pend A g = [] \<Longrightarrow>
     steps q en (RPOPLPUSH (pending_key q g) (Queue_ConsumerProcessing q c)) A (\<lambda>r. r = RNil) A"
proof -
  assume xs: "mq_pend A g = xs @ [m]"
  show "steps q en (RPOPLPUSH (pending_key q g) (Queue_ConsumerProcessing q c)) A (\<lambda>r. r = RBulk m)
       (A\<lparr>mq_pend := (mq_pend A)(g := xs), mq_proc := (mq_proc A)(c := m # mq_proc A c)\<rparr>)"
  proof (rule stepsI)
    fix d assume view: "queue_view q d A"
    from queue_view_put(9) [OF queue_view_put(2) [OF view, of g xs], of c "m # mq_proc A c"]
    show "\<exists>r d'. redis_apply en (RPOPLPUSH (pending_key q g) (Queue_ConsumerProcessing q c)) d = (Inr r, d') \<and>
        r = RBulk m \<and> same_elsewhere q d d' \<and>
        queue_view q d' (A\<lparr>mq_pend := (mq_pend A)(g := xs), mq_proc := (mq_proc A)(c := m # mq_proc A c)\<rparr>)"
      by (simp add: redis_apply.simps rpoplpush_run queue_view_gets [OF view] xs same_elsewhere_def)
  qed
next
  assume "mq_pend A g = []"
  then show "steps q en (RPOPLPUSH (pending_key q g) (Queue_ConsumerProcessing q c)) A (\<lambda>r. r = RNil) A"
    by (intro stepsI) (simp add: redis_apply.simps rpoplpush_def queue_view_gets)
qed

subsection \<open>Rules for reads\<close>

lemma steps_reads:
  "steps q en (SISMEMBER (Queue_ConsumerGroups q) g) A (\<lambda>r. r = RInt (if g |\<in>| mq_grps A then 1 else 0)) A"
  "steps q en (LLEN (Queue_ConsumerProcessing q c)) A (\<lambda>r. r = RInt (int (length (mq_proc A c)))) A"
  "steps q en (EXISTS [priority_key q g]) A (\<lambda>r. r = RInt (if mq_prio A g = fmempty then 0 else 1)) A"
  by (rule stepsI, simp add: redis_apply.simps queue_view_gets bool_reply_def del: not_None_eq)+

lemma steps_exists: "steps q en (EXISTS [Queue_Properties q]) A (\<lambda>r. r = RInt 1) A"
proof (rule stepsI)
  fix d assume view: "queue_view q d A"
  then obtain h where h: "get_hash d (Queue_Properties q) = Inr h" "props_view h A"
    using queue_view_props by blast
  then have "d (Queue_Properties q) = Some (RHash h)"
    using get_SomeD(1) props_view_nonempty by blast
  with view show "\<exists>r d'. redis_apply en (EXISTS [Queue_Properties q]) d = (Inr r, d') \<and> r = RInt 1 \<and>
      same_elsewhere q d d' \<and> queue_view q d' A"
    by (simp add: redis_apply.simps)
qed

lemma wp_read:
  assumes "\<And>d. queue_view q d A \<Longrightarrow> m d = (Inr x, d)" and "Q x A"
  shows "wp q m A Q"
  using assms by (auto simp: wp_def)

lemma wp_hget_props [wp_intros]:
  assumes "f \<notin> set counter_fields" and "Q (mq_conf A f) A"
  shows "wp q (lua_hget (redis_apply en) (Queue_Properties q) f) A Q"
proof (rule wp_read [where x = "mq_conf A f"])
  show "Q (mq_conf A f) A" by fact
  fix d assume "queue_view q d A"
  then obtain h where h: "get_hash d (Queue_Properties q) = Inr h" "props_view h A"
    using queue_view_props by blast
  with props_view_lookup(2) [OF h(2) assms(1)]
  show "lua_hget (redis_apply en) (Queue_Properties q) f d = (Inr (mq_conf A f), d)"
    by (simp add: lua_simps)
qed

lemma wp_hmget_props [wp_intros]:
  assumes "\<forall>f \<in> set fs. f \<notin> set counter_fields" and "Q (map (mq_conf A) fs) A"
  shows "wp q (lua_strings (redis_apply en) (HMGET (Queue_Properties q) fs)) A Q"
proof (rule wp_read [where x = "map (mq_conf A) fs"])
  show "Q (map (mq_conf A) fs) A" by fact
  fix d assume "queue_view q d A"
  then obtain h where h: "get_hash d (Queue_Properties q) = Inr h" "props_view h A"
    using queue_view_props by blast
  have "map (fmlookup h) fs = map (mq_conf A) fs"
    using props_view_lookup(2) [OF h(2)] assms(1) by simp
  with h(1) show "lua_strings (redis_apply en) (HMGET (Queue_Properties q) fs) d = (Inr (map (mq_conf A) fs), d)"
    by (simp add: lua_simps)
qed

lemma wp_hget_message [wp_intros]:
  "plain_id m \<Longrightarrow> Q (fmlookup (mq_msg A m) f) A \<Longrightarrow> wp q (lua_hget (redis_apply en) (System_Message m) f) A Q"
  by (rule wp_read [where x = "fmlookup (mq_msg A m) f"]) (simp_all add: lua_simps queue_view_gets)

lemma wp_hmget_message [wp_intros]:
  "plain_id m \<Longrightarrow> Q (map (fmlookup (mq_msg A m)) fs) A \<Longrightarrow>
     wp q (lua_strings (redis_apply en) (HMGET (System_Message m) fs)) A Q"
  by (rule wp_read [where x = "map (fmlookup (mq_msg A m)) fs"]) (simp_all add: lua_simps queue_view_gets)

lemma wp_group_exists [wp_intros]:
  assumes "Q (g = [] \<or> g |\<in>| mq_grps A) A"
  shows "wp q (lua_group_exists (redis_apply en) (Queue_ConsumerGroups q) g) A Q"
  by (rule wp_read [where x = "g = [] \<or> g |\<in>| mq_grps A"])
    (simp_all add: assms lua_group_exists_def lua_simps queue_view_gets and_then_def)

text \<open>One rule per command, in the forms in which scripts issue them.\<close>

lemmas wp_do_rules [wp_intros] =
  steps_lists [THEN wp_do_Cons] steps_removals [THEN wp_do_Cons] steps_zsets [THEN wp_do_Cons]
  steps_hashes [THEN wp_do_Cons] steps_count [THEN wp_do_Cons] steps_expire [THEN wp_do_Cons]

lemmas wp_int_rules [wp_intros] =
  steps_removals [THEN wp_int] steps_zsets(4-6) [THEN wp_int] steps_reads [THEN wp_int] steps_exists [THEN wp_int]

lemma wp_if [wp_intros]:
  "(b \<Longrightarrow> wp q m A Q) \<Longrightarrow> (\<not> b \<Longrightarrow> wp q m' A Q) \<Longrightarrow> wp q (if b then m else m') A Q"
  by simp

lemma wp_option [wp_intros]:
  "(v = None \<Longrightarrow> wp q m A Q) \<Longrightarrow> (\<And>x. v = Some x \<Longrightarrow> wp q (f x) A Q) \<Longrightarrow>
     wp q (case v of None \<Rightarrow> m | Some x \<Rightarrow> f x) A Q"
  by (cases v) simp_all

lemma wp_do_if [wp_intros]:
  "(b \<Longrightarrow> wp q (lua_do call cs) A Q) \<Longrightarrow> (\<not> b \<Longrightarrow> wp q (lua_do call cs') A Q) \<Longrightarrow>
     wp q (lua_do call (if b then cs else cs')) A Q"
  "(b \<Longrightarrow> wp q (lua_do call (c # cs)) A Q) \<Longrightarrow> (\<not> b \<Longrightarrow> wp q (lua_do call (c' # cs)) A Q) \<Longrightarrow>
     wp q (lua_do call ((if b then c else c') # cs)) A Q"
  by simp_all

lemma lua_do_append: "lua_do call (cs @ cs') = and_then (lua_do call cs) (\<lambda>_. lua_do call cs')"
proof (induction cs)
  case Nil
  show ?case by (rule ext) (simp add: lua_do.simps and_then_def)
qed (simp add: lua_do.simps and_then_assoc)

lemma wp_do_append [wp_intros]:
  "wp q (lua_do call cs) A (\<lambda>_ A1. wp q (lua_do call cs') A1 Q) \<Longrightarrow> wp q (lua_do call (cs @ cs')) A Q"
  by (simp add: lua_do_append wp_and_then)

lemma count_sel [simp]:
  "mq_conf (count f n A) = mq_conf A" "mq_pub (count f n A) = mq_pub A" "mq_pend (count f n A) = mq_pend A"
  "mq_prio (count f n A) = mq_prio A" "mq_sched (count f n A) = mq_sched A" "mq_dly (count f n A) = mq_dly A"
  "mq_req (count f n A) = mq_req A" "mq_ack (count f n A) = mq_ack A" "mq_dl (count f n A) = mq_dl A"
  "mq_proc (count f n A) = mq_proc A" "mq_grps (count f n A) = mq_grps A" "mq_msg (count f n A) = mq_msg A"
  "mq_hist (count f n A) = mq_hist A" "mq_cnt (count f n A) = (mq_cnt A)(f := mq_cnt A f + n)"
  by (simp_all add: count_def)

lemma set_fields_sel [simp]:
  "mq_conf (set_fields m fs A) = mq_conf A" "mq_pub (set_fields m fs A) = mq_pub A" "mq_pend (set_fields m fs A) = mq_pend A"
  "mq_prio (set_fields m fs A) = mq_prio A" "mq_sched (set_fields m fs A) = mq_sched A" "mq_dly (set_fields m fs A) = mq_dly A"
  "mq_req (set_fields m fs A) = mq_req A" "mq_ack (set_fields m fs A) = mq_ack A" "mq_dl (set_fields m fs A) = mq_dl A"
  "mq_proc (set_fields m fs A) = mq_proc A" "mq_grps (set_fields m fs A) = mq_grps A" "mq_cnt (set_fields m fs A) = mq_cnt A"
  "mq_hist (set_fields m fs A) = mq_hist A" "mq_msg (set_fields m fs A) = (mq_msg A)(m := hset_all fs (mq_msg A m))"
  by (simp_all add: set_fields_def)

lemma counter_distinct [simp]:
  "F_MessagesCount \<noteq> F_PendingMessagesCount" "F_MessagesCount \<noteq> F_ScheduledMessagesCount"
  "F_PendingMessagesCount \<noteq> F_MessagesCount" "F_ScheduledMessagesCount \<noteq> F_MessagesCount"
  by (simp_all add: schema_defs)

lemma self_update [simp]:
  "A\<lparr>mq_pub := mq_pub A\<rparr> = A" "A\<lparr>mq_pend := mq_pend A\<rparr> = A" "A\<lparr>mq_prio := mq_prio A\<rparr> = A"
  "A\<lparr>mq_sched := mq_sched A\<rparr> = A" "A\<lparr>mq_dly := mq_dly A\<rparr> = A" "A\<lparr>mq_req := mq_req A\<rparr> = A"
  "A\<lparr>mq_ack := mq_ack A\<rparr> = A" "A\<lparr>mq_dl := mq_dl A\<rparr> = A" "A\<lparr>mq_proc := mq_proc A\<rparr> = A" for A :: mq
  by simp_all

lemma fmdrop_absent: "a |\<notin>| fmdom m \<Longrightarrow> fmdrop a m = m"
  by (rule fmap_ext) (auto simp: fmdom_notD)

text \<open>The replies of removals.\<close>

lemma removed_flag [simp]: "0 < (if b then 1 else 0 :: int) \<longleftrightarrow> b" "(if b then 1 else 0 :: int) = 1 \<longleftrightarrow> b"
  by simp_all

subsection \<open>Loops\<close>

text \<open>A loop over entries whose body never ends the script: if each round does what \<open>f\<close> says, the
  loop does what \<open>fold f\<close> says. \<open>P\<close> is what the rounds rely on; it may depend on the entries that
  are still to come.\<close>

lemma wp_each:
  fixes body :: "string list \<Rightarrow> string list \<Rightarrow> 'a \<Rightarrow> (db, redis_error, string + 'a) io"
  assumes "0 < ap" and "\<And>e. e \<in> set es \<Longrightarrow> length (ks e) = kp \<and> length (as e) = ap"
    and body: "\<And>e rest acc A. P (e # rest) acc A \<Longrightarrow>
      wp q (body (ks e) (as e) acc) A (\<lambda>r A'. r = Inr (fst (f e (acc, A))) \<and> A' = snd (f e (acc, A)))"
    and keep: "\<And>e rest acc A. P (e # rest) acc A \<Longrightarrow> P rest (fst (f e (acc, A))) (snd (f e (acc, A)))"
    and "P es acc A"
  shows "wp q (lua_each kp ap body (concat (map ks es)) (concat (map as es)) acc) A
    (\<lambda>r A'. r = Inr (fst (fold f es (acc, A))) \<and> A' = snd (fold f es (acc, A)))"
  using assms(2,5)
proof (induction es arbitrary: acc A)
  case Nil
  show ?case using wp_ret by (simp add: wp_def lua_each.simps)
next
  case (Cons e es)
  have len: "length (ks e) = kp" "length (as e) = ap" "as e \<noteq> []" using Cons.prems(1) [of e] assms(1) by auto
  have "wp q (lua_each kp ap body (ks e @ concat (map ks es)) (as e @ concat (map as es)) acc) A
      (\<lambda>r A'. r = Inr (fst (fold f es (f e (acc, A)))) \<and> A' = snd (fold f es (f e (acc, A))))"
    unfolding lua_each.simps [of kp ap body "ks e @ _"]
  proof (subst if_not_P)
    show "\<not> (as e @ concat (map as es) = [] \<or> ap = 0)" using len assms(1) by simp
    show "wp q (and_then (body (take kp (ks e @ concat (map ks es))) (take ap (as e @ concat (map as es))) acc)
        (\<lambda>r. case r of Inl s \<Rightarrow> ret (Inl s)
          | Inr acc' \<Rightarrow> lua_each kp ap body (drop kp (ks e @ concat (map ks es))) (drop ap (as e @ concat (map as es))) acc')) A
        (\<lambda>r A'. r = Inr (fst (fold f es (f e (acc, A)))) \<and> A' = snd (fold f es (f e (acc, A))))"
    proof (rule wp_and_then, rule wp_weaken)
      show "wp q (body (take kp (ks e @ concat (map ks es))) (take ap (as e @ concat (map as es))) acc) A
          (\<lambda>r A'. r = Inr (fst (f e (acc, A))) \<and> A' = snd (f e (acc, A)))"
        using body [OF Cons.prems(2)] len by simp
      fix r :: "string + 'a" and A' assume "r = Inr (fst (f e (acc, A))) \<and> A' = snd (f e (acc, A))"
      then show "wp q (case r of Inl s \<Rightarrow> ret (Inl s)
          | Inr acc' \<Rightarrow> lua_each kp ap body (drop kp (ks e @ concat (map ks es))) (drop ap (as e @ concat (map as es))) acc') A'
          (\<lambda>r A'. r = Inr (fst (fold f es (f e (acc, A)))) \<and> A' = snd (fold f es (f e (acc, A))))"
        using Cons.IH [OF _ keep [OF Cons.prems(2)]] Cons.prems(1) len by simp
    qed
  qed
  then show ?case by simp
qed

lemma wp_loop:
  fixes body :: "string list \<Rightarrow> string list \<Rightarrow> 'a \<Rightarrow> (db, redis_error, string + 'a) io"
  assumes "keys = concat (map ks es)" and "args = concat (map as es)"
    and "0 < ap" and "\<And>e. e \<in> set es \<Longrightarrow> length (ks e) = kp \<and> length (as e) = ap"
    and "\<And>e rest acc A. P (e # rest) acc A \<Longrightarrow>
      wp q (body (ks e) (as e) acc) A (\<lambda>r A'. r = Inr (fst (f e (acc, A))) \<and> A' = snd (f e (acc, A)))"
    and "\<And>e rest acc A. P (e # rest) acc A \<Longrightarrow> P rest (fst (f e (acc, A))) (snd (f e (acc, A)))"
    and "P es acc A"
    and "Q (Inr (fst (fold f es (acc, A)))) (snd (fold f es (acc, A)))"
  shows "wp q (lua_each kp ap body keys args acc) A Q"
  unfolding assms(1,2)
  by (rule wp_weaken [OF wp_each [where f = f and P = P, OF assms(3-7)]]) (use assms(8) in simp_all)

lemma wp_single:
  assumes "length keys = kp" and "length args = ap" and "0 < ap" and "wp q (body keys args acc) A Q"
  shows "wp q (lua_each kp ap body keys args acc) A Q"
proof -
  have "lua_each kp ap body keys args acc = and_then (body keys args acc) ret"
    using assms(1-3) by (subst lua_each.simps) (auto simp: lua_each.simps fun_eq_iff and_then_def split: sum.split prod.split)
  with assms(4) show ?thesis by simp
qed

end
