(* ===== verification/Publishing.thy ===== *)
theory Publishing
  imports Message_Queue
begin

text \<open>
  Publication of a message: the arguments that \<open>internal/producer/publish_args.go\<close> and \<open>dispatch\<close>
  of \<open>internal/producer/producer.go\<close> build for \<open>publish-message.lua\<close>, and what the script makes of
  them. The shared procedure is treated once (\<open>wp_publish_message\<close>), for all three scripts that
  call it: its verdict and its effect are functions of the view of the queue.
\<close>

subsection \<open>Arguments\<close>

definition OrEmptyInt64 :: "int option \<Rightarrow> string" where
  "OrEmptyInt64 v = (case v of None \<Rightarrow> [] | Some n \<Rightarrow> itoa n)"

definition BoolToInt :: "bool \<Rightarrow> int" where
  "BoolToInt b = (if b then 1 else 0)"

definition buildQueuePropertyArgs :: "string list" where
  "buildQueuePropertyArgs =
     [F_Type, F_MessagesCount, F_PendingMessagesCount, F_ScheduledMessagesCount,
      itoa TypePriority, itoa TypeLIFO, itoa TypeFIFO, F_OperationalState, F_LockID,
      itoa StateActive, itoa StatePaused, itoa StateStopped, itoa StateLocked]"

definition buildMessagePropertyKeys :: "string list" where
  "buildMessagePropertyKeys =
     [MF_ID, MF_Status, MF_Message, MF_ScheduledAt, MF_PublishedAt, MF_ProcessingStartedAt, MF_DeadLetteredAt,
      MF_AcknowledgedAt, MF_UnacknowledgedAt, MF_LastUnacknowledgedAt, MF_LastScheduledAt, MF_RequeuedAt,
      MF_RequeueCount, MF_LastRequeuedAt, MF_LastRetriedAttemptAt, MF_ScheduledCronFired, MF_Attempts,
      MF_ScheduledRepeatCount, MF_Expired, MF_EffectiveScheduledDelay, MF_ScheduledTimes,
      MF_ScheduledMessageParentID, MF_RequeuedMessageParentID, MF_LastProcessedAt]"

text \<open>The priority of a message as the scripts get it: empty when there is none.\<close>

definition priority_text :: "producible \<Rightarrow> string" where
  "priority_text m = (case pm_priority m of None \<Rightarrow> [] | Some p \<Rightarrow> itoa p)"

definition messagePropertyValues :: "envelope \<Rightarrow> string list" where
  "messagePropertyValues e =
     (let t = State_ToTransferable (e_messageState e) in
      [Envelope_ID e, itoa (e_status e), json_text (params_json (Envelope_ToParams e)),
       OrEmptyInt64 (t_ScheduledAt t), OrEmptyInt64 (t_PublishedAt t), OrEmptyInt64 (t_ProcessingStartedAt t),
       OrEmptyInt64 (t_DeadLetteredAt t), OrEmptyInt64 (t_AcknowledgedAt t), OrEmptyInt64 (t_UnacknowledgedAt t),
       OrEmptyInt64 (t_LastUnacknowledgedAt t), OrEmptyInt64 (t_LastScheduledAt t), OrEmptyInt64 (t_RequeuedAt t),
       itoa (t_RequeueCount t), OrEmptyInt64 (t_LastRequeuedAt t), OrEmptyInt64 (t_LastRetriedAttemptAt t),
       itoa (BoolToInt (t_ScheduledCronFired t)), itoa (t_Attempts t), itoa (t_ScheduledRepeatCount t),
       itoa (BoolToInt (t_Expired t)), itoa (t_EffectiveScheduledDelay t), itoa (t_ScheduledTimes t),
       t_ScheduledMessageParentID t, t_RequeuedMessageParentID t, OrEmptyInt64 (t_LastProcessedAt t)])"

definition publish_args :: "string \<Rightarrow> string \<Rightarrow> string list \<Rightarrow> string \<Rightarrow> string \<Rightarrow> string list" where
  "publish_args priority scheduledTimestamp values groupID lockID =
     buildQueuePropertyArgs @
     [priority, scheduledTimestamp, itoa StatusScheduled, itoa StatusPending] @
     buildMessagePropertyKeys @ values @ [groupID, lockID]"

definition BuildPublishArgs :: "envelope \<Rightarrow> string list" where
  "BuildPublishArgs e =
     publish_args (priority_text (e_producibleMessage e)) (OrEmptyInt64 (State_ScheduledAt (e_messageState e)))
       (messagePropertyValues e) (e_consumerGroupID e) []"

definition publish_keys :: "queue_key \<Rightarrow> string \<Rightarrow> string \<Rightarrow> string list" where
  "publish_keys q g m =
     [Queue_Properties q, priority_key q g, pending_key q g, Queue_Scheduled q, Queue_Published q,
      Queue_ConsumerGroups q, System_Message m]"

subsection \<open>The shared procedure\<close>

text \<open>What the procedure answers, and what it does when it answers \<open>OK\<close>: the id goes to the pending
  list of its group or to the scheduled set, the counters go up, the hash of the message is written.\<close>

definition publish_verdict :: "mq \<Rightarrow> string \<Rightarrow> string \<Rightarrow> bool \<Rightarrow> string \<Rightarrow> string" where
  "publish_verdict A g prio pending lock =
     (case mq_conf A F_Type of
        None \<Rightarrow> ''QUEUE_NOT_FOUND''
      | Some ty \<Rightarrow>
          (case publish_state_error (itoa StateActive) (itoa StatePaused) (itoa StateStopped) (itoa StateLocked)
              (state_or (itoa StateActive) (mq_conf A F_OperationalState)) lock (or_empty (mq_conf A F_LockID)) of
             Some err \<Rightarrow> err
           | None \<Rightarrow>
               if \<not> (g = [] \<or> g |\<in>| mq_grps A) then ''CONSUMER_GROUP_NOT_FOUND''
               else if ty = itoa TypePriority \<and> prio = [] then ''MESSAGE_PRIORITY_REQUIRED''
               else if ty \<noteq> itoa TypePriority \<and> prio \<noteq> [] then ''PRIORITY_QUEUING_NOT_ENABLED''
               else if pending \<and> ty \<notin> {itoa TypePriority, itoa TypeLIFO, itoa TypeFIFO} then ''UNKNOWN_QUEUE_TYPE''
               else ''OK''))"

definition put_pending :: "string \<Rightarrow> string \<Rightarrow> string \<Rightarrow> mq \<Rightarrow> mq" where
  "put_pending g m prio A =
     (if mq_conf A F_Type = Some (itoa TypePriority)
      then A\<lparr>mq_prio := (mq_prio A)(g := fmupd m (atoi_value prio) (mq_prio A g))\<rparr>
      else if mq_conf A F_Type = Some (itoa TypeLIFO)
      then A\<lparr>mq_pend := (mq_pend A)(g := mq_pend A g @ [m])\<rparr>
      else A\<lparr>mq_pend := (mq_pend A)(g := m # mq_pend A g)\<rparr>)"

definition do_publish :: "string \<Rightarrow> string \<Rightarrow> string \<Rightarrow> string \<Rightarrow> bool \<Rightarrow> string list \<Rightarrow> mq \<Rightarrow> mq" where
  "do_publish g m prio ts pending vals A =
     (let A1 = (if pending then count F_PendingMessagesCount 1 (put_pending g m prio A)
                else count F_ScheduledMessagesCount 1 (A\<lparr>mq_sched := fmupd m (atoi_value ts) (mq_sched A)\<rparr>)) in
      count F_MessagesCount 1 (set_fields m (zip buildMessagePropertyKeys vals)
        (A1\<lparr>mq_pub := mq_pub A1 @ [m]\<rparr>)))"

lemma nth1_append: "nth1 (xs @ ys) i = (if i \<le> length xs then nth1 xs i else nth1 ys (i - length xs))"
  by (auto simp: nth1_def nth_append)

lemma nth1_slice: "map (\<lambda>i. nth1 (pre @ xs @ post) (length pre + i)) [1..<Suc (length xs)] = xs"
  by (rule nth_equalityI) (simp_all add: nth1_def nth_append del: upt_Suc)

lemma length_builders [simp]: "length buildQueuePropertyArgs = 13" "length buildMessagePropertyKeys = 24"
  by (simp_all add: buildQueuePropertyArgs_def buildMessagePropertyKeys_def)

text \<open>The positions of the arguments.\<close>

lemma publish_args_nth:
  assumes "length vals = 24"
  shows "nth1 (publish_args prio ts vals g lock) 1 = F_Type"
    "nth1 (publish_args prio ts vals g lock) 2 = F_MessagesCount"
    "nth1 (publish_args prio ts vals g lock) 3 = F_PendingMessagesCount"
    "nth1 (publish_args prio ts vals g lock) 4 = F_ScheduledMessagesCount"
    "nth1 (publish_args prio ts vals g lock) 5 = itoa TypePriority"
    "nth1 (publish_args prio ts vals g lock) 6 = itoa TypeLIFO"
    "nth1 (publish_args prio ts vals g lock) 7 = itoa TypeFIFO"
    "nth1 (publish_args prio ts vals g lock) 8 = F_OperationalState"
    "nth1 (publish_args prio ts vals g lock) 9 = F_LockID"
    "nth1 (publish_args prio ts vals g lock) 10 = itoa StateActive"
    "nth1 (publish_args prio ts vals g lock) 11 = itoa StatePaused"
    "nth1 (publish_args prio ts vals g lock) 12 = itoa StateStopped"
    "nth1 (publish_args prio ts vals g lock) 13 = itoa StateLocked"
    "nth1 (publish_args prio ts vals g lock) 14 = prio"
    "nth1 (publish_args prio ts vals g lock) 15 = ts"
    "nth1 (publish_args prio ts vals g lock) 17 = itoa StatusPending"
    "nth1 (publish_args prio ts vals g lock) 42 = nth1 vals 1"
    "nth1 (publish_args prio ts vals g lock) 43 = nth1 vals 2"
    "nth1 (publish_args prio ts vals g lock) 66 = g"
    "nth1 (publish_args prio ts vals g lock) 67 = lock"
  using assms by (simp_all add: publish_args_def nth1_append buildQueuePropertyArgs_def)

lemma publish_args_fields:
  assumes "length vals = 24"
  shows "map (\<lambda>i. (nth1 (publish_args prio ts vals g lock) (17 + i), nth1 (publish_args prio ts vals g lock) (41 + i)))
    [1..<25] = zip buildMessagePropertyKeys vals"
proof -
  define pre where "pre = buildQueuePropertyArgs @ [prio, ts, itoa StatusScheduled, itoa StatusPending]"
  define args where "args = publish_args prio ts vals g lock"
  have "map (\<lambda>i. nth1 args (17 + i)) [1..<25] = buildMessagePropertyKeys"
    using nth1_slice [of pre buildMessagePropertyKeys "vals @ [g, lock]"]
    by (simp add: args_def pre_def publish_args_def del: upt_Suc)
  moreover have "map (\<lambda>i. nth1 args (41 + i)) [1..<25] = vals"
    using nth1_slice [of "pre @ buildMessagePropertyKeys" vals "[g, lock]"] assms
    by (simp add: args_def pre_def publish_args_def del: upt_Suc)
  moreover have "map (\<lambda>i. (f i, g i)) xs = zip (map f xs) (map g xs)" for f g :: "nat \<Rightarrow> string" and xs
    by (induction xs) simp_all
  ultimately show ?thesis by (simp add: args_def)
qed

lemma conf_fields [simp]: "F_Type \<notin> set counter_fields" "F_OperationalState \<notin> set counter_fields"
    "F_LockID \<notin> set counter_fields"
  by (simp_all add: counter_fields_def schema_defs)

lemma count_fields [simp]: "F_MessagesCount \<in> set counter_fields" "F_ScheduledMessagesCount \<in> set counter_fields"
    "F_PendingMessagesCount \<in> set counter_fields" "F_ProcessingMessagesCount \<in> set counter_fields"
    "F_AcknowledgedMessagesCount \<in> set counter_fields" "F_DeadLetteredMessagesCount \<in> set counter_fields"
    "F_DelayedMessagesCount \<in> set counter_fields" "F_RequeuedMessagesCount \<in> set counter_fields"
  by (simp_all add: counter_fields_def)

definition publishable :: "mq \<Rightarrow> string \<Rightarrow> string \<Rightarrow> bool \<Rightarrow> bool" where
  "publishable A prio ts pending \<longleftrightarrow> count_ok F_MessagesCount 1 A \<and>
     (if pending then count_ok F_PendingMessagesCount 1 A \<and> (prio \<noteq> [] \<longrightarrow> is_number prio)
      else count_ok F_ScheduledMessagesCount 1 A \<and> is_number ts)"

lemma publish_keys_nth:
  "nth1 (publish_keys q g m) 1 = Queue_Properties q"
  "nth1 (publish_keys q g m) 2 = priority_key q g" "nth1 (publish_keys q g m) 3 = pending_key q g"
  "nth1 (publish_keys q g m) 4 = Queue_Scheduled q" "nth1 (publish_keys q g m) 5 = Queue_Published q"
  "nth1 (publish_keys q g m) 6 = Queue_ConsumerGroups q" "nth1 (publish_keys q g m) 7 = System_Message m"
  by (simp_all add: publish_keys_def)

lemma publish_state_error_OK: "publish_state_error a p s l st lock lock' = Some x \<Longrightarrow> x \<noteq> ''OK''"
  by (auto simp: publish_state_error_def split: if_splits)

lemma wp_publish_message:
  assumes vals: "length vals = 24" "nth1 vals 1 = m" "nth1 vals 2 = st" and m: "plain_id m"
    and ok: "publishable A prio ts (st = itoa StatusPending)"
  shows "wp q (publish_message (redis_apply en) (publish_keys q g m) (publish_args prio ts vals g lock)) A
    (\<lambda>r A'. r = publish_verdict A g prio (st = itoa StatusPending) lock \<and>
      A' = (if r = ''OK'' then do_publish g m prio ts (st = itoa StatusPending) vals A else A))"
  unfolding publish_message_def Let_def publish_args_fields [OF vals(1)] publish_args_nth [OF vals(1)] publish_keys_nth vals
  by (intro wp_intros; use m ok in \<open>auto simp: count_ok_def publishable_def publish_verdict_def do_publish_def
      put_pending_def Let_def dest: publish_state_error_OK\<close>)

end
