(* ===== verification/Consuming.thy ===== *)
theory Consuming
  imports Publishing
begin

text \<open>
  What a consumer does to messages: check-out (\<open>internal/consumer/dequeue_message.go\<close>), acknowledgement
  in batches (\<open>batch_acker.go\<close>), the decision about a failed message (\<open>unacknowledge.go\<close>) and the
  batch that carries it out (\<open>message_unacknowledger.go\<close>). The first part builds the arguments of the
  scripts as the Go code does; the second says what the scripts make of them, one message at a time:
  a batch does what its messages one after the other would do, counters included.
\<close>

subsection \<open>Configuration and causes\<close>

record audit_messages =
  am_Enabled :: bool
  am_QueueSize :: int
  am_Expire :: int

record audit_history =
  ah_Enabled :: bool
  ah_MaxSize :: int

record message_audit =
  ma_AcknowledgedMessages :: audit_messages
  ma_DeadLetteredMessages :: audit_messages
  ma_UnacknowledgementHistory :: audit_history

type_synonym UnacknowledgeCause = int

definition CauseTimeout :: UnacknowledgeCause where [enum_defs]: "CauseTimeout = 0"
definition CauseConsumeError :: UnacknowledgeCause where [enum_defs]: "CauseConsumeError = 1"
definition CauseUnacknowledged :: UnacknowledgeCause where [enum_defs]: "CauseUnacknowledged = 2"
definition CauseOfflineConsumer :: UnacknowledgeCause where [enum_defs]: "CauseOfflineConsumer = 3"
definition CauseShuttingDown :: UnacknowledgeCause where [enum_defs]: "CauseShuttingDown = 4"
definition CauseTTLExpired :: UnacknowledgeCause where [enum_defs]: "CauseTTLExpired = 5"
definition CauseQueueStopped :: UnacknowledgeCause where [enum_defs]: "CauseQueueStopped = 6"
definition CauseQueueInvalidState :: UnacknowledgeCause where [enum_defs]: "CauseQueueInvalidState = 7"
definition CauseQueueLocked :: UnacknowledgeCause where [enum_defs]: "CauseQueueLocked = 8"
definition CauseMessageNotFound :: UnacknowledgeCause where [enum_defs]: "CauseMessageNotFound = 9"
definition CauseQueueStateChanged :: UnacknowledgeCause where [enum_defs]: "CauseQueueStateChanged = 10"
definition CauseQueueNotFound :: UnacknowledgeCause where [enum_defs]: "CauseQueueNotFound = 11"
definition CauseUnexpectedError :: UnacknowledgeCause where [enum_defs]: "CauseUnexpectedError = 12"
definition CauseInvalidHandlerSignature :: UnacknowledgeCause where [enum_defs]: "CauseInvalidHandlerSignature = 13"

definition unacknowledge_causes :: "UnacknowledgeCause list" where
  "unacknowledge_causes =
     [CauseTimeout, CauseConsumeError, CauseUnacknowledged, CauseOfflineConsumer,
     CauseShuttingDown, CauseTTLExpired, CauseQueueStopped, CauseQueueInvalidState,
     CauseQueueLocked, CauseMessageNotFound, CauseQueueStateChanged, CauseQueueNotFound,
     CauseUnexpectedError, CauseInvalidHandlerSignature]"

type_synonym DeadLetterCause = int

definition DeadLetterTTLExpired :: DeadLetterCause where [enum_defs]: "DeadLetterTTLExpired = 0"
definition DeadLetterRetryThresholdExceeded :: DeadLetterCause where [enum_defs]: "DeadLetterRetryThresholdExceeded = 1"
definition DeadLetterPeriodicMessage :: DeadLetterCause where [enum_defs]: "DeadLetterPeriodicMessage = 2"

definition dead_letter_causes :: "DeadLetterCause list" where
  "dead_letter_causes = [DeadLetterTTLExpired, DeadLetterRetryThresholdExceeded, DeadLetterPeriodicMessage]"

type_synonym UnacknowledgeAction = int

definition ActionDeadLetter :: UnacknowledgeAction where [enum_defs]: "ActionDeadLetter = 0"
definition ActionRequeue :: UnacknowledgeAction where [enum_defs]: "ActionRequeue = 1"
definition ActionDelay :: UnacknowledgeAction where [enum_defs]: "ActionDelay = 2"

definition unacknowledge_actions :: "UnacknowledgeAction list" where
  "unacknowledge_actions = [ActionDeadLetter, ActionRequeue, ActionDelay]"

definition UnacknowledgeAction_String :: "UnacknowledgeAction \<Rightarrow> string" where
  "UnacknowledgeAction_String a =
     (if a = ActionDeadLetter then ''DEAD_LETTER''
      else if a = ActionRequeue then ''REQUEUE''
      else if a = ActionDelay then ''DELAY''
      else ''UNKNOWN'')"

text \<open>\<open>now\<close> is the reading that \<open>IsExpired\<close> makes.\<close>

definition resolveUnackAction :: "int \<Rightarrow> envelope \<Rightarrow> UnacknowledgeCause \<Rightarrow> UnacknowledgeAction \<times> DeadLetterCause" where
  "resolveUnackAction now msg cause =
     (if cause = CauseTTLExpired \<or> Envelope_IsExpired now msg then (ActionDeadLetter, DeadLetterTTLExpired)
      else if IsPeriodic msg then (ActionDeadLetter, DeadLetterPeriodicMessage)
      else if HasRetryThresholdExceeded msg then (ActionDeadLetter, DeadLetterRetryThresholdExceeded)
      else if 0 < pm_retryDelay (e_producibleMessage msg) then (ActionDelay, 0)
      else (ActionRequeue, 0))"

lemma resolveUnackAction_range:
  "fst (resolveUnackAction now cause msg) \<in> set unacknowledge_actions" "snd (resolveUnackAction now cause msg) \<in> set dead_letter_causes"
  by (auto simp: resolveUnackAction_def unacknowledge_actions_def dead_letter_causes_def enum_defs)

subsection \<open>Arguments of the scripts\<close>

definition state_args :: "string list" where
  "state_args = [F_OperationalState, itoa StateActive, itoa StatePaused, itoa StateStopped, itoa StateLocked]"

definition checkout_keys :: "queue_key \<Rightarrow> string \<Rightarrow> string list" where
  "checkout_keys q m = [System_Message m, Queue_Properties q]"

definition checkout_args :: "int \<Rightarrow> string list" where
  "checkout_args now =
     [MF_ProcessingStartedAt, MF_LastProcessedAt, itoa now, MF_Status, itoa StatusProcessing, itoa StatusPending,
      MF_Attempts, F_ProcessingMessagesCount, F_PendingMessagesCount] @ state_args"

text \<open>The flags \<open>storeMessages\<close>, \<open>expireStoredMessages\<close> and \<open>storedMessagesSize\<close>.\<close>

definition audit_args :: "audit_messages \<Rightarrow> string list" where
  "audit_args a =
     [if am_Enabled a then ''1'' else ''0'',
      if am_Enabled a \<and> 0 < am_Expire a then itoa (wrap64 (am_Expire a * 1000)) else ''0'',
      if am_Enabled a \<and> 0 < am_QueueSize a then itoa (- am_QueueSize a) else ''0'']"

definition acknowledge_keys :: "queue_key \<Rightarrow> string \<Rightarrow> string list \<Rightarrow> string list" where
  "acknowledge_keys q c ids =
     [Queue_ConsumerProcessing q c, Queue_Acknowledged q, Queue_Properties q] @ map System_Message ids"

definition acknowledge_args :: "message_audit \<Rightarrow> int \<Rightarrow> string list \<Rightarrow> string list" where
  "acknowledge_args cfg now ids =
     audit_args (ma_AcknowledgedMessages cfg) @ [itoa now] @ state_args @
     [MF_Status, itoa StatusAcknowledged, MF_AcknowledgedAt, F_AcknowledgedMessagesCount, F_ProcessingMessagesCount] @
     ids"

record unack_entry =
  ue_Message :: envelope
  ue_Cause :: UnacknowledgeCause

text \<open>What one entry of a batch contributes to \<open>ARGV\<close>, in the order of the script.\<close>

record unack_args =
  ua_id :: string
  ua_retry :: string
  ua_deadAt :: string
  ua_expired :: string
  ua_at :: string
  ua_history :: string

definition history_record :: "string \<Rightarrow> UnacknowledgeCause \<Rightarrow> UnacknowledgeAction \<Rightarrow> int \<Rightarrow> int \<Rightarrow> string" where
  "history_record msgID cause action attempts now =
     json_text (JObj [(''action'', JNum action), (''attempts'', JNum attempts), (''cause'', JNum cause),
       (''messageId'', JStr msgID), (''timestamp'', JNum now)])"

text \<open>The body of the loop; \<open>clock\<close> and \<open>clock'\<close> are the readings that the two calls of \<open>IsExpired\<close> make.\<close>

definition unack_entry_args :: "message_audit \<Rightarrow> int \<Rightarrow> unack_entry \<times> int \<times> int \<Rightarrow> unack_args" where
  "unack_entry_args cfg now = (\<lambda>(entry, clock, clock').
     let msg = ue_Message entry; msgID = Envelope_ID msg; action = fst (resolveUnackAction clock msg (ue_Cause entry)) in
     \<lparr>ua_id = msgID,
      ua_retry = (if action \<noteq> ActionDeadLetter then itoa action else []),
      ua_deadAt = (if action = ActionDeadLetter then itoa now else []),
      ua_expired = (if Envelope_IsExpired clock' msg \<or> ue_Cause entry = CauseTTLExpired then ''1'' else ''0''),
      ua_at = itoa now,
      ua_history = (if ah_Enabled (ma_UnacknowledgementHistory cfg)
        then history_record msgID (ue_Cause entry) action (ms_attempts (e_messageState msg)) now else [])\<rparr>)"

definition unack_keys1 :: "queue_key \<Rightarrow> string \<Rightarrow> unack_args \<Rightarrow> string list" where
  "unack_keys1 q c u = [Queue_ConsumerProcessing q c, System_Message (ua_id u), System_MessageAcknowledgementHistory (ua_id u)]"

definition unack_args1 :: "unack_args \<Rightarrow> string list" where
  "unack_args1 u = [ua_id u, ua_retry u, ua_deadAt u, ua_expired u, ua_at u, ua_at u, ua_history u]"

definition unack_static_args :: "message_audit \<Rightarrow> string list" where
  "unack_static_args cfg =
     [itoa ActionDelay, itoa ActionRequeue] @ audit_args (ma_DeadLetteredMessages cfg) @
     [MF_Status, F_ProcessingMessagesCount, F_DeadLetteredMessagesCount, F_RequeuedMessagesCount,
      itoa StatusUnackRequeuing, itoa StatusDeadLettered, MF_DeadLetteredAt, MF_UnacknowledgedAt,
      MF_LastUnacknowledgedAt, MF_Expired] @ state_args @
     [itoa (if ah_Enabled (ma_UnacknowledgementHistory cfg) then ah_MaxSize (ma_UnacknowledgementHistory cfg) else 0)]"

definition unack_batch_keys :: "queue_key \<Rightarrow> string \<Rightarrow> unack_args list \<Rightarrow> string list" where
  "unack_batch_keys q c us = [Queue_Requeued q, Queue_DeadLetter q, Queue_Properties q] @ concat (map (unack_keys1 q c) us)"

definition unack_batch_args :: "message_audit \<Rightarrow> unack_args list \<Rightarrow> string list" where
  "unack_batch_args cfg us = unack_static_args cfg @ concat (map unack_args1 us)"

definition buildBatchLuaArgs :: "message_audit \<Rightarrow> int \<Rightarrow> queue_key \<Rightarrow> string \<Rightarrow> (unack_entry \<times> int \<times> int) list
    \<Rightarrow> string list \<times> string list" where
  "buildBatchLuaArgs cfg now q c entries =
     (let us = map (unack_entry_args cfg now) entries in (unack_batch_keys q c us, unack_batch_args cfg us))"

subsection \<open>Check-out\<close>

text \<open>The verdict of the scripts about the state of the queue.\<close>

definition state_verdict :: "mq \<Rightarrow> string option" where
  "state_verdict A = state_error (itoa StateActive) (itoa StatePaused) (itoa StateStopped) (itoa StateLocked)
     (state_or (itoa StateActive) (mq_conf A F_OperationalState))"

definition msg_status_of :: "mq \<Rightarrow> string \<Rightarrow> string option" where
  "msg_status_of A m = fmlookup (mq_msg A m) MF_Status"

definition checkout_verdict :: "mq \<Rightarrow> string \<Rightarrow> string option" where
  "checkout_verdict A m =
     (case state_verdict A of
        Some err \<Rightarrow> Some err
      | None \<Rightarrow>
          if msg_status_of A m = None then Some ''MESSAGE_NOT_FOUND''
          else if msg_status_of A m \<noteq> Some (itoa StatusPending) then Some ''MESSAGE_NOT_PENDING''
          else None)"

definition checkout_fields :: "int \<Rightarrow> (string, string) fmap \<Rightarrow> (string \<times> string) list" where
  "checkout_fields now h =
     (MF_Status, itoa StatusProcessing) #
     (if fmlookup h MF_ProcessingStartedAt = Some [] then [(MF_ProcessingStartedAt, itoa now)] else []) @
     [(MF_LastProcessedAt, itoa now), (MF_Attempts, itoa (num_field h MF_Attempts + 1))]"

definition do_checkout :: "int \<Rightarrow> string \<Rightarrow> mq \<Rightarrow> mq" where
  "do_checkout now m A =
     count F_PendingMessagesCount (-1) (count F_ProcessingMessagesCount 1
       (set_fields m (checkout_fields now (mq_msg A m)) A))"

lemma set_fields_twice: "set_fields m fs (set_fields m gs A) = set_fields m (gs @ fs) A"
  by (simp add: set_fields_def hset_all_def)

lemma steps_hgetall:
  assumes "plain_id m"
  shows "steps q en (HGETALL (System_Message m)) A
    (\<lambda>r. r = RArr (map RBulk (flatten_pairs (enum_fmap en (mq_msg A m))))) A"
  by (rule stepsI) (simp add: redis_apply.simps queue_view_gets assms)

lemma checkout_args_nth:
  "nth1 (checkout_args now) 1 = MF_ProcessingStartedAt" "nth1 (checkout_args now) 2 = MF_LastProcessedAt"
  "nth1 (checkout_args now) 3 = itoa now" "nth1 (checkout_args now) 4 = MF_Status"
  "nth1 (checkout_args now) 5 = itoa StatusProcessing" "nth1 (checkout_args now) 6 = itoa StatusPending"
  "nth1 (checkout_args now) 7 = MF_Attempts" "nth1 (checkout_args now) 8 = F_ProcessingMessagesCount"
  "nth1 (checkout_args now) 9 = F_PendingMessagesCount" "nth1 (checkout_args now) 10 = F_OperationalState"
  "nth1 (checkout_args now) 11 = itoa StateActive" "nth1 (checkout_args now) 12 = itoa StatePaused"
  "nth1 (checkout_args now) 13 = itoa StateStopped" "nth1 (checkout_args now) 14 = itoa StateLocked"
  by (simp_all add: checkout_args_def state_args_def)

lemma checkout_keys_nth: "nth1 (checkout_keys q m) 1 = System_Message m" "nth1 (checkout_keys q m) 2 = Queue_Properties q"
  by (simp_all add: checkout_keys_def)

lemma wp_checkout:
  assumes m: "plain_id m" and n: "can_incr (mq_msg A m) MF_Attempts"
    and ok: "count_ok F_ProcessingMessagesCount 1 A" "count_ok F_PendingMessagesCount (-1) A"
  shows "wp q (lua_checkout_message (redis_apply en) (checkout_keys q m) (checkout_args now)) A
    (\<lambda>r A'. case checkout_verdict A m of
       Some err \<Rightarrow> r = RBulk err \<and> A' = A
     | None \<Rightarrow> A' = do_checkout now m A \<and>
         r = RArr (map RBulk (flatten_pairs (enum_fmap en (mq_msg A' m)))))"
proof -
  have neq: "MF_Attempts \<noteq> MF_Status" "MF_Attempts \<noteq> MF_ProcessingStartedAt" "MF_Attempts \<noteq> MF_LastProcessedAt"
    "F_PendingMessagesCount \<noteq> F_ProcessingMessagesCount"
    by (simp_all add: schema_defs)
  show ?thesis
    unfolding lua_checkout_message_def Let_def checkout_args_nth checkout_keys_nth
    by (intro wp_intros steps_hgetall [THEN wp_call]; use m n ok neq in
        \<open>auto simp: checkout_verdict_def state_verdict_def msg_status_of_def do_checkout_def checkout_fields_def
          set_fields_twice count_ok_def numbers_hset_all\<close>)
qed

subsection \<open>Acknowledgement\<close>

text \<open>The settings are in range: expiry times in milliseconds and list sizes fit.\<close>

definition audit_ok :: "audit_messages \<Rightarrow> bool" where
  "audit_ok a \<longleftrightarrow> (0 < am_Expire a \<longrightarrow> in_int64 (am_Expire a * 1000)) \<and> in_int64 (am_QueueSize a)"

definition keep_last :: "audit_messages \<Rightarrow> string list \<Rightarrow> string list" where
  "keep_last a xs = (if am_Enabled a \<and> 0 < am_QueueSize a then list_range (- am_QueueSize a) (-1) xs else xs)"

definition do_ack :: "message_audit \<Rightarrow> int \<Rightarrow> string \<Rightarrow> string \<Rightarrow> mq \<Rightarrow> mq" where
  "do_ack cfg now c m A =
     (if m \<in> set (mq_proc A c) then
        count F_AcknowledgedMessagesCount 1 (count F_ProcessingMessagesCount (-1)
          (set_fields m [(MF_Status, itoa StatusAcknowledged), (MF_AcknowledgedAt, itoa now)]
            (A\<lparr>mq_proc := (mq_proc A)(c := remove1 m (mq_proc A c)),
              mq_ack := mq_ack A @ (if am_Enabled (ma_AcknowledgedMessages cfg) then [m] else [])\<rparr>)))
      else A)"

definition do_ack_batch :: "message_audit \<Rightarrow> int \<Rightarrow> string \<Rightarrow> string list \<Rightarrow> mq \<Rightarrow> mq" where
  "do_ack_batch cfg now c ids A =
     (let B = fold (do_ack cfg now c) ids A in
      if \<exists>m \<in> set ids. m \<in> set (mq_proc A c)
      then B\<lparr>mq_ack := keep_last (ma_AcknowledgedMessages cfg) (mq_ack B)\<rparr> else B)"

text \<open>A round of the script, and the state in which everything the rounds have postponed is done.\<close>

definition ack_round :: "int \<Rightarrow> string \<Rightarrow> string \<Rightarrow> (int list \<times> string list) \<times> mq \<Rightarrow> (int list \<times> string list) \<times> mq" where
  "ack_round now c m = (\<lambda>((results, acked), A).
     if m \<in> set (mq_proc A c) then
       ((results @ [1], acked @ [m]),
        set_fields m [(MF_Status, itoa StatusAcknowledged), (MF_AcknowledgedAt, itoa now)]
          (A\<lparr>mq_proc := (mq_proc A)(c := remove1 m (mq_proc A c))\<rparr>))
     else ((results @ [0], acked), A))"

definition ack_settled :: "message_audit \<Rightarrow> (int list \<times> string list) \<times> mq \<Rightarrow> mq" where
  "ack_settled cfg = (\<lambda>((results, acked), A).
     count F_ProcessingMessagesCount (- int (length acked)) (count F_AcknowledgedMessagesCount (int (length acked))
       (A\<lparr>mq_ack := mq_ack A @ (if am_Enabled (ma_AcknowledgedMessages cfg) then acked else [])\<rparr>)))"

lemma fold_fusion:
  assumes "\<And>x s. x \<in> set xs \<Longrightarrow> h (f x s) = g x (h s)"
  shows "h (fold f xs s) = fold g xs (h s)"
  using assms by (induction xs arbitrary: s) simp_all

lemma count_zero [simp]: "count f 0 A = A"
  by (simp add: count_def)

lemma ack_settled_round: "ack_settled cfg (ack_round now c m s) = do_ack cfg now c m (ack_settled cfg s)"
  by (cases s, cases "fst s")
    (auto simp: ack_settled_def ack_round_def do_ack_def count_def set_fields_def fun_upd_twist schema_defs algebra_simps)

lemma ack_rounds_acked:
  "snd (fst (fold (ack_round now c) ids ((rs, as), A))) = [] \<longleftrightarrow> as = [] \<and> (\<forall>m \<in> set ids. m \<notin> set (mq_proc A c))"
proof (induction ids arbitrary: rs as A)
  case (Cons m ids)
  then show ?case by (cases "m \<in> set (mq_proc A c)") (auto simp: ack_round_def)
qed simp

fun ack_results :: "string list \<Rightarrow> string list \<Rightarrow> int list" where
  "ack_results p [] = []"
| "ack_results p (m # ids) = (if m \<in> set p then 1 # ack_results (remove1 m p) ids else 0 # ack_results p ids)"

lemma ack_rounds_results:
  "fst (fst (fold (ack_round now c) ids ((rs, as), A))) = rs @ ack_results (mq_proc A c) ids"
  by (induction ids arbitrary: rs as A) (simp_all add: ack_round_def)

lemma ack_rounds_frame:
  "mq_cnt (snd (fold (ack_round now c) ids s)) = mq_cnt (snd s)"
  "mq_ack (snd (fold (ack_round now c) ids s)) = mq_ack (snd s)"
proof -
  have "mq_cnt (snd (ack_round now c m s)) = mq_cnt (snd s)" "mq_ack (snd (ack_round now c m s)) = mq_ack (snd s)" for m s
    by (simp_all add: ack_round_def split: prod.split)
  then show "mq_cnt (snd (fold (ack_round now c) ids s)) = mq_cnt (snd s)"
    "mq_ack (snd (fold (ack_round now c) ids s)) = mq_ack (snd s)"
    by (induction ids arbitrary: s) simp_all
qed

text \<open>All counters are in the range of Redis.\<close>

definition counters_ok :: "mq \<Rightarrow> bool" where
  "counters_ok A \<longleftrightarrow> (\<forall>f \<in> set counter_fields. in_int64 (mq_cnt A f))"

lemma acknowledge_args_nth:
  "nth1 (acknowledge_args cfg now ids) 1 = (if am_Enabled (ma_AcknowledgedMessages cfg) then ''1'' else ''0'')"
  "nth1 (acknowledge_args cfg now ids) 2 = nth1 (audit_args (ma_AcknowledgedMessages cfg)) 2"
  "nth1 (acknowledge_args cfg now ids) 3 = nth1 (audit_args (ma_AcknowledgedMessages cfg)) 3"
  "nth1 (acknowledge_args cfg now ids) 4 = itoa now" "nth1 (acknowledge_args cfg now ids) 5 = F_OperationalState"
  "nth1 (acknowledge_args cfg now ids) 6 = itoa StateActive" "nth1 (acknowledge_args cfg now ids) 7 = itoa StatePaused"
  "nth1 (acknowledge_args cfg now ids) 8 = itoa StateStopped" "nth1 (acknowledge_args cfg now ids) 9 = itoa StateLocked"
  "nth1 (acknowledge_args cfg now ids) 10 = MF_Status" "nth1 (acknowledge_args cfg now ids) 11 = itoa StatusAcknowledged"
  "nth1 (acknowledge_args cfg now ids) 12 = MF_AcknowledgedAt"
  "nth1 (acknowledge_args cfg now ids) 13 = F_AcknowledgedMessagesCount"
  "nth1 (acknowledge_args cfg now ids) 14 = F_ProcessingMessagesCount"
  by (simp_all add: acknowledge_args_def state_args_def audit_args_def)

lemma acknowledge_args_drop: "drop 14 (acknowledge_args cfg now ids) = ids"
  by (simp add: acknowledge_args_def state_args_def audit_args_def)

lemma acknowledge_keys_nth:
  "nth1 (acknowledge_keys q c ids) 1 = Queue_ConsumerProcessing q c" "nth1 (acknowledge_keys q c ids) 2 = Queue_Acknowledged q"
  "nth1 (acknowledge_keys q c ids) 3 = Queue_Properties q" "drop 3 (acknowledge_keys q c ids) = map System_Message ids"
  by (simp_all add: acknowledge_keys_def)

lemma wp_cases_sum [wp_intros]:
  "(\<And>x. r = Inl x \<Longrightarrow> wp q (f x) A Q) \<Longrightarrow> (\<And>y. r = Inr y \<Longrightarrow> wp q (g y) A Q) \<Longrightarrow>
     wp q (case r of Inl x \<Rightarrow> f x | Inr y \<Rightarrow> g y) A Q"
  by (cases r) simp_all

lemma wp_cases_prod [wp_intros]: "(\<And>x y. p = (x, y) \<Longrightarrow> wp q (f x y) A Q) \<Longrightarrow> wp q (case p of (x, y) \<Rightarrow> f x y) A Q"
  by (cases p) simp

lemma itoa_eq_zero [simp]: "itoa n = ''0'' \<longleftrightarrow> n = 0"
proof -
  have "''0'' = itoa 0" by code_simp
  then show ?thesis using itoa_inject [of n 0] by metis
qed

lemma audit_args_nth:
  "audit_ok a \<Longrightarrow> nth1 (audit_args a) 2 \<noteq> ''0'' \<Longrightarrow> 0 < atoi_value (nth1 (audit_args a) 2)"
  "audit_ok a \<Longrightarrow> nth1 (audit_args a) 3 \<noteq> ''0'' \<Longrightarrow> am_Enabled a \<and> 0 < am_QueueSize a \<and>
     atoi_value (nth1 (audit_args a) 3) = - am_QueueSize a"
  "audit_ok a \<Longrightarrow> am_Enabled a \<Longrightarrow> nth1 (audit_args a) 3 = ''0'' \<Longrightarrow> am_QueueSize a \<le> 0"
  by (auto simp: audit_args_def audit_ok_def wrap64_id in_int64_def split: if_splits)

lemma audit_flag: "(if b then ''1'' else ''0'') = ''1'' \<longleftrightarrow> b"
  by simp

lemma keep_last_args:
  "audit_ok a \<Longrightarrow> am_Enabled a \<Longrightarrow> keep_last a xs =
     (if nth1 (audit_args a) 3 \<noteq> ''0'' then list_range (atoi_value (nth1 (audit_args a) 3)) (-1) xs else xs)"
  "\<not> am_Enabled a \<Longrightarrow> keep_last a xs = xs"
  using audit_args_nth(2,3) [of a] by (auto simp: keep_last_def)

lemma ack_batch_eq:
  assumes "fst (fold (ack_round now c) ids (([], []), A)) = (results, acked)"
  shows "results = ack_results (mq_proc A c) ids \<and>
    do_ack_batch cfg now c ids A =
      (let B = snd (fold (ack_round now c) ids (([], []), A));
           C = count F_ProcessingMessagesCount (- int (length acked)) (count F_AcknowledgedMessagesCount (int (length acked)) B);
           xs = mq_ack B @ (if am_Enabled (ma_AcknowledgedMessages cfg) then acked else []) in
       if acked = [] then B
       else if am_Enabled (ma_AcknowledgedMessages cfg) then C\<lparr>mq_ack := keep_last (ma_AcknowledgedMessages cfg) xs\<rparr> else C)"
proof -
  define S where "S = fold (ack_round now c) ids (([], []), A)"
  have S: "S = ((results, acked), snd S)" using assms by (cases S) (simp add: S_def)
  have "ack_settled cfg S = fold (do_ack cfg now c) ids (ack_settled cfg (([], []), A))"
    unfolding S_def by (rule fold_fusion) (rule ack_settled_round)
  then have fold: "fold (do_ack cfg now c) ids A = ack_settled cfg S"
    by (simp add: ack_settled_def)
  have acked: "acked = [] \<longleftrightarrow> (\<forall>m \<in> set ids. m \<notin> set (mq_proc A c))"
    using ack_rounds_acked [of now c ids "[]" "[]" A] assms by simp
  have "results = ack_results (mq_proc A c) ids"
    using ack_rounds_results [of now c ids "[]" "[]" A] assms by simp
  moreover have "do_ack_batch cfg now c ids A = (let C = ack_settled cfg S in
      if acked = [] then C else C\<lparr>mq_ack := keep_last (ma_AcknowledgedMessages cfg) (mq_ack C)\<rparr>)"
    using acked by (auto simp: do_ack_batch_def fold Let_def)
  moreover have "ack_settled cfg S = (let B = snd S; xs = mq_ack B @ (if am_Enabled (ma_AcknowledgedMessages cfg) then acked else [])
      in (count F_ProcessingMessagesCount (- int (length acked)) (count F_AcknowledgedMessagesCount (int (length acked)) B))\<lparr>mq_ack := xs\<rparr>)"
    by (subst S) (simp add: ack_settled_def count_def Let_def)
  ultimately show ?thesis
    by (simp add: Let_def S_def [symmetric] keep_last_args(2) count_def)
qed

lemma wp_acknowledge:
  assumes ids: "\<forall>m \<in> set ids. plain_id m" and a: "audit_ok (ma_AcknowledgedMessages cfg)"
    and ok: "counters_ok (do_ack_batch cfg now c ids A)"
  shows "wp q (lua_acknowledge_message (redis_apply en) (acknowledge_keys q c ids) (acknowledge_args cfg now ids)) A
    (\<lambda>r A'. case state_verdict A of
       Some err \<Rightarrow> r = RBulk err \<and> A' = A
     | None \<Rightarrow> r = RArr (map RInt (ack_results (mq_proc A c) ids)) \<and> A' = do_ack_batch cfg now c ids A)"
proof -
  have lists: "concat (map (\<lambda>m. [System_Message m]) ids) = map System_Message ids" "concat (map (\<lambda>m. [m]) ids) = ids"
    by (induction ids) simp_all
  note loop = wp_loop [where ks = "\<lambda>m. [System_Message m]" and as = "\<lambda>m. [m]" and f = "ack_round now c"
      and P = "\<lambda>es acc A. \<forall>m \<in> set es. plain_id m" and es = ids]
  obtain results acked where S: "fst (fold (ack_round now c) ids (([], []), A)) = (results, acked)" by fastforce
  define B where "B = snd (fold (ack_round now c) ids (([], []), A))"
  note batch = ack_batch_eq [OF S, of cfg, folded B_def, unfolded Let_def]
  have B: "mq_cnt B = mq_cnt A" unfolding B_def ack_rounds_frame by simp
  have cnt: "acked \<noteq> [] \<Longrightarrow> in_int64 (mq_cnt A F_AcknowledgedMessagesCount + int (length acked))"
    "acked \<noteq> [] \<Longrightarrow> in_int64 (mq_cnt A F_ProcessingMessagesCount - int (length acked))"
    using ok batch B by (auto simp: counters_ok_def counter_fields_def schema_defs split: if_splits)
  have neq: "F_ProcessingMessagesCount \<noteq> F_AcknowledgedMessagesCount" by (simp add: schema_defs)
  show ?thesis
    unfolding lua_acknowledge_message_def Let_def acknowledge_args_nth acknowledge_args_drop acknowledge_keys_nth
    by (intro wp_intros loop; simp add: state_verdict_def lists S B_def [symmetric] count_ok_def B cnt batch
        ack_round_def ids audit_flag keep_last_args a audit_args_nth neq remove1_idem)
      (auto intro!: wp_intros)
qed

subsection \<open>Unacknowledgement\<close>

definition requeues :: "unack_args \<Rightarrow> bool" where
  "requeues u \<longleftrightarrow> ua_retry u = itoa ActionRequeue \<or> ua_retry u = itoa ActionDelay"

definition keep_history :: "message_audit \<Rightarrow> string list \<Rightarrow> string list" where
  "keep_history cfg xs =
     (let size = if ah_Enabled (ma_UnacknowledgementHistory cfg) then ah_MaxSize (ma_UnacknowledgementHistory cfg) else 0 in
      if 0 < size then list_range 0 (size - 1) xs else xs)"

definition unack_move :: "message_audit \<Rightarrow> string \<Rightarrow> unack_args \<Rightarrow> mq \<Rightarrow> mq" where
  "unack_move cfg c u A =
     (let m = ua_id u;
          A1 = A\<lparr>mq_proc := (mq_proc A)(c := remove1 m (mq_proc A c))\<rparr>;
          A2 = (if requeues u then A1\<lparr>mq_req := mq_req A @ [m]\<rparr>
                else if am_Enabled (ma_DeadLetteredMessages cfg)
                then A1\<lparr>mq_dl := keep_last (ma_DeadLetteredMessages cfg) (mq_dl A @ [m])\<rparr> else A1);
          A3 = (if ua_history u \<noteq> []
                then set_fields m [(''unacknowledgedCount'', itoa (num_field (mq_msg A m) ''unacknowledgedCount'' + 1))]
                  (A2\<lparr>mq_hist := (mq_hist A)(m := keep_history cfg (ua_history u # mq_hist A m))\<rparr>)
                else A2) in
      set_fields m
        [(MF_Status, if requeues u then itoa StatusUnackRequeuing else itoa StatusDeadLettered),
         (MF_UnacknowledgedAt, ua_at u), (MF_LastUnacknowledgedAt, ua_at u),
         (MF_DeadLetteredAt, ua_deadAt u), (MF_Expired, ua_expired u)] A3)"

definition do_unack :: "message_audit \<Rightarrow> string \<Rightarrow> unack_args \<Rightarrow> mq \<Rightarrow> mq" where
  "do_unack cfg c u A =
     (if ua_id u \<in> set (mq_proc A c) then
        count (if requeues u then F_RequeuedMessagesCount else F_DeadLetteredMessagesCount) 1
          (count F_ProcessingMessagesCount (-1) (unack_move cfg c u A))
      else A)"

definition unack_round :: "message_audit \<Rightarrow> string \<Rightarrow> unack_args \<Rightarrow> (int \<times> int) \<times> mq \<Rightarrow> (int \<times> int) \<times> mq" where
  "unack_round cfg c u = (\<lambda>((dead, requeued), A).
     if ua_id u \<in> set (mq_proc A c)
     then (if requeues u then (dead, requeued + 1) else (dead + 1, requeued), unack_move cfg c u A)
     else ((dead, requeued), A))"

definition unack_settled :: "(int \<times> int) \<times> mq \<Rightarrow> mq" where
  "unack_settled = (\<lambda>((dead, requeued), A).
     count F_RequeuedMessagesCount requeued (count F_DeadLetteredMessagesCount dead
       (count F_ProcessingMessagesCount (- (dead + requeued)) A)))"

lemma unack_move_sel [simp]:
  "mq_cnt (unack_move cfg c u A) = mq_cnt A" "mq_conf (unack_move cfg c u A) = mq_conf A"
  "mq_pub (unack_move cfg c u A) = mq_pub A" "mq_pend (unack_move cfg c u A) = mq_pend A"
  "mq_prio (unack_move cfg c u A) = mq_prio A" "mq_sched (unack_move cfg c u A) = mq_sched A"
  "mq_dly (unack_move cfg c u A) = mq_dly A" "mq_ack (unack_move cfg c u A) = mq_ack A"
  "mq_grps (unack_move cfg c u A) = mq_grps A"
  "mq_proc (unack_move cfg c u A) = (mq_proc A)(c := remove1 (ua_id u) (mq_proc A c))"
  "m \<noteq> ua_id u \<Longrightarrow> mq_msg (unack_move cfg c u A) m = mq_msg A m"
  by (simp_all add: unack_move_def Let_def)

lemma unack_move_count: "unack_move cfg c u (count f n A) = count f n (unack_move cfg c u A)"
  by (simp add: unack_move_def Let_def count_def set_fields_def)

lemma count_twist: "f \<noteq> g \<Longrightarrow> count f m (count g n A) = count g n (count f m A)"
  by (simp add: count_def fun_upd_twist)

lemma count_plus: "count f m (count f n A) = count f (n + m) A"
  by (simp add: count_def add.assoc)

lemma unack_settled_round: "unack_settled (unack_round cfg c u s) = do_unack cfg c u (unack_settled s)"
proof -
  obtain dead requeued A where s: "s = ((dead, requeued), A)" by (metis prod.exhaust)
  show ?thesis
    by (auto simp: s unack_settled_def unack_round_def do_unack_def unack_move_count)
      (auto simp: count_def fun_upd_twist schema_defs algebra_simps)
qed

lemma unack_rounds_frame:
  "mq_cnt (snd (fold (unack_round cfg c) us s)) = mq_cnt (snd s)"
proof -
  have "mq_cnt (snd (unack_round cfg c u s)) = mq_cnt (snd s)" for u s
    by (simp add: unack_round_def split: prod.split)
  then show ?thesis by (induction us arbitrary: s) simp_all
qed

lemma unack_rounds_counts:
  assumes "0 \<le> fst (fst s)" and "0 \<le> snd (fst s)"
  shows "0 \<le> fst (fst (fold (unack_round cfg c) us s)) \<and> 0 \<le> snd (fst (fold (unack_round cfg c) us s))"
proof -
  have "0 \<le> fst (fst (unack_round cfg c u s)) \<and> 0 \<le> snd (fst (unack_round cfg c u s))"
    if "0 \<le> fst (fst s)" "0 \<le> snd (fst s)" for u s
    using that by (auto simp: unack_round_def split: prod.split)
  with assms show ?thesis by (induction us arbitrary: s) simp_all
qed

definition unack_ready :: "mq \<Rightarrow> unack_args list \<Rightarrow> bool" where
  "unack_ready A us \<longleftrightarrow> distinct (map ua_id us) \<and>
     (\<forall>u \<in> set us. plain_id (ua_id u) \<and> (ua_history u \<noteq> [] \<longrightarrow> can_incr (mq_msg A (ua_id u)) ''unacknowledgedCount''))"

lemma unack_ready_round:
  assumes "unack_ready A (u # us)"
  shows "unack_ready (snd (unack_round cfg c u (acc, A))) us"
proof -
  have "mq_msg (unack_move cfg c u A) (ua_id v) = mq_msg A (ua_id v)" if "v \<in> set us" for v
  proof (rule unack_move_sel)
    show "ua_id v \<noteq> ua_id u" using assms that by (auto simp: unack_ready_def image_iff dest: bspec)
  qed
  with assms show ?thesis by (cases acc) (simp add: unack_ready_def unack_round_def)
qed

lemma unack_batch_args_nth:
  "nth1 (unack_batch_args cfg us) 1 = itoa ActionDelay" "nth1 (unack_batch_args cfg us) 2 = itoa ActionRequeue"
  "nth1 (unack_batch_args cfg us) 3 = (if am_Enabled (ma_DeadLetteredMessages cfg) then ''1'' else ''0'')"
  "nth1 (unack_batch_args cfg us) 4 = nth1 (audit_args (ma_DeadLetteredMessages cfg)) 2"
  "nth1 (unack_batch_args cfg us) 5 = nth1 (audit_args (ma_DeadLetteredMessages cfg)) 3"
  "nth1 (unack_batch_args cfg us) 6 = MF_Status" "nth1 (unack_batch_args cfg us) 7 = F_ProcessingMessagesCount"
  "nth1 (unack_batch_args cfg us) 8 = F_DeadLetteredMessagesCount" "nth1 (unack_batch_args cfg us) 9 = F_RequeuedMessagesCount"
  "nth1 (unack_batch_args cfg us) 10 = itoa StatusUnackRequeuing" "nth1 (unack_batch_args cfg us) 11 = itoa StatusDeadLettered"
  "nth1 (unack_batch_args cfg us) 12 = MF_DeadLetteredAt" "nth1 (unack_batch_args cfg us) 13 = MF_UnacknowledgedAt"
  "nth1 (unack_batch_args cfg us) 14 = MF_LastUnacknowledgedAt" "nth1 (unack_batch_args cfg us) 15 = MF_Expired"
  "nth1 (unack_batch_args cfg us) 16 = F_OperationalState" "nth1 (unack_batch_args cfg us) 17 = itoa StateActive"
  "nth1 (unack_batch_args cfg us) 18 = itoa StatePaused" "nth1 (unack_batch_args cfg us) 19 = itoa StateStopped"
  "nth1 (unack_batch_args cfg us) 20 = itoa StateLocked"
  "nth1 (unack_batch_args cfg us) 21 =
     itoa (if ah_Enabled (ma_UnacknowledgementHistory cfg) then ah_MaxSize (ma_UnacknowledgementHistory cfg) else 0)"
  by (simp_all add: unack_batch_args_def unack_static_args_def state_args_def audit_args_def del: if_split)

lemma unack_batch_keys_nth:
  "nth1 (unack_batch_keys q c us) 1 = Queue_Requeued q" "nth1 (unack_batch_keys q c us) 2 = Queue_DeadLetter q"
  "nth1 (unack_batch_keys q c us) 3 = Queue_Properties q"
  by (simp_all add: unack_batch_keys_def)

lemma length_concat_const: "(\<And>x. x \<in> set xs \<Longrightarrow> length (f x) = n) \<Longrightarrow> length (concat (map f xs)) = n * length xs"
  by (induction xs) simp_all

lemma unack_batch_drops:
  "drop 3 (unack_batch_keys q c us) = concat (map (unack_keys1 q c) us)"
  "drop 21 (unack_batch_args cfg us) = concat (map unack_args1 us)"
  "length (unack_batch_keys q c us) - 3 = 3 * length us" "length (unack_batch_args cfg us) - 21 = 7 * length us"
proof -
  show "drop 3 (unack_batch_keys q c us) = concat (map (unack_keys1 q c) us)"
    "drop 21 (unack_batch_args cfg us) = concat (map unack_args1 us)"
    by (simp_all add: unack_batch_keys_def unack_batch_args_def unack_static_args_def state_args_def audit_args_def)
  show "length (unack_batch_keys q c us) - 3 = 3 * length us" "length (unack_batch_args cfg us) - 21 = 7 * length us"
    using length_concat_const [of us "unack_keys1 q c" 3] length_concat_const [of us unack_args1 7]
    by (simp_all add: unack_batch_keys_def unack_batch_args_def unack_static_args_def state_args_def audit_args_def
        unack_keys1_def unack_args1_def)
qed

lemma unack_nth1:
  "nth1 (unack_keys1 q c u) 1 = Queue_ConsumerProcessing q c" "nth1 (unack_keys1 q c u) 2 = System_Message (ua_id u)"
  "nth1 (unack_keys1 q c u) 3 = System_MessageAcknowledgementHistory (ua_id u)"
  "nth1 (unack_args1 u) 1 = ua_id u" "nth1 (unack_args1 u) 2 = ua_retry u" "nth1 (unack_args1 u) 3 = ua_deadAt u"
  "nth1 (unack_args1 u) 4 = ua_expired u" "nth1 (unack_args1 u) 5 = ua_at u" "nth1 (unack_args1 u) 6 = ua_at u"
  "nth1 (unack_args1 u) 7 = ua_history u" "length (unack_keys1 q c u) = 3" "length (unack_args1 u) = 7"
  by (simp_all add: unack_keys1_def unack_args1_def)

lemma wp_unack_round:
  assumes ready: "unack_ready A (u # us)" and a: "audit_ok (ma_DeadLetteredMessages cfg)"
    and size: "in_int64 (ah_MaxSize (ma_UnacknowledgementHistory cfg))"
  shows "wp q (unacknowledge_round (redis_apply en) (unack_batch_keys q c vs) (unack_batch_args cfg vs)
      (unack_keys1 q c u) (unack_args1 u) acc) A
    (\<lambda>r A'. r = Inr (fst (unack_round cfg c u (acc, A))) \<and> A' = snd (unack_round cfg c u (acc, A)))"
proof -
  define max where "max = (if ah_Enabled (ma_UnacknowledgementHistory cfg) then ah_MaxSize (ma_UnacknowledgementHistory cfg) else 0)"
  have max: "atoi_value (itoa max) = max" using size by (simp add: max_def in_int64_def)
  note folds = requeues_def [symmetric] max_def [symmetric] max
  have u: "plain_id (ua_id u)" "ua_id u \<noteq> []" "ua_history u \<noteq> [] \<Longrightarrow> can_incr (mq_msg A (ua_id u)) ''unacknowledgedCount''"
    using ready by (simp_all add: unack_ready_def plain_id_def)
  show ?thesis
    unfolding unacknowledge_round_def Let_def unack_batch_args_nth unack_batch_keys_nth unack_nth1 folds audit_flag
    by (intro wp_intros; simp add: u unack_round_def unack_move_def keep_last_args a keep_history_def Let_def audit_args_nth
        folds remove1_idem)
qed

lemma wp_unacknowledge:
  assumes us: "us \<noteq> []" "unack_ready A us" and a: "audit_ok (ma_DeadLetteredMessages cfg)"
    and size: "in_int64 (ah_MaxSize (ma_UnacknowledgementHistory cfg))"
    and ok: "counters_ok (fold (do_unack cfg c) us A)"
  shows "wp q (lua_unacknowledge_message (redis_apply en) (unack_batch_keys q c us) (unack_batch_args cfg us)) A
    (\<lambda>r A'. case state_verdict A of
       Some err \<Rightarrow> r = RBulk err \<and> A' = A
     | None \<Rightarrow> (\<exists>n. r = RInt n) \<and> A' = fold (do_unack cfg c) us A)"
proof -
  note loop = wp_loop [where ks = "unack_keys1 q c" and as = "unack_args1" and f = "unack_round cfg c"
      and P = "\<lambda>es acc A. unack_ready A es" and es = us]
  obtain dead requeued where S: "fst (fold (unack_round cfg c) us ((0, 0), A)) = (dead, requeued)" by fastforce
  define B where "B = snd (fold (unack_round cfg c) us ((0, 0), A))"
  have "unack_settled (fold (unack_round cfg c) us ((0, 0), A)) = fold (do_unack cfg c) us (unack_settled ((0, 0), A))"
    by (rule fold_fusion) (rule unack_settled_round)
  moreover have "fold (unack_round cfg c) us ((0, 0), A) = ((dead, requeued), B)"
    using S by (simp add: B_def prod_eq_iff)
  ultimately have batch: "fold (do_unack cfg c) us A = count F_RequeuedMessagesCount requeued
      (count F_DeadLetteredMessagesCount dead (count F_ProcessingMessagesCount (- (dead + requeued)) B))"
    by (simp add: unack_settled_def)
  have pos: "0 \<le> dead" "0 \<le> requeued"
    using unack_rounds_counts [of "((0, 0), A)" cfg c us] S by simp_all
  have B: "mq_cnt B = mq_cnt A" unfolding B_def unack_rounds_frame by simp
  have cnt: "in_int64 (mq_cnt A F_ProcessingMessagesCount - (dead + requeued))"
    "in_int64 (mq_cnt A F_DeadLetteredMessagesCount + dead)" "in_int64 (mq_cnt A F_RequeuedMessagesCount + requeued)"
    using ok by (auto simp: batch B counters_ok_def counter_fields_def schema_defs algebra_simps)
  have neq: "F_ProcessingMessagesCount \<noteq> F_DeadLetteredMessagesCount" "F_ProcessingMessagesCount \<noteq> F_RequeuedMessagesCount"
    "F_DeadLetteredMessagesCount \<noteq> F_RequeuedMessagesCount" "F_DeadLetteredMessagesCount \<noteq> F_ProcessingMessagesCount"
    "F_RequeuedMessagesCount \<noteq> F_ProcessingMessagesCount" "F_RequeuedMessagesCount \<noteq> F_DeadLetteredMessagesCount"
    by (simp_all add: schema_defs)
  show ?thesis
    unfolding lua_unacknowledge_message_def Let_def unack_batch_args_nth unack_batch_keys_nth unack_batch_drops
    by (intro wp_intros loop wp_unack_round [OF _ a size]; (assumption | erule unack_ready_round |
        use pos cnt in \<open>simp add: state_verdict_def S B_def [symmetric] count_ok_def unack_nth1 us batch B neq algebra_simps\<close>)?)
qed

end
