(* ===== verification/Requeuing.thy ===== *)
theory Requeuing
  imports Consuming
begin

text \<open>
  The two background tasks that bring failed messages back, \<open>internal/consumer/immediate_requeuer.go\<close>
  and \<open>delayed_requeuer.go\<close>: the arguments they build from the messages they loaded and what
  \<open>requeue-immediate.lua\<close> and \<open>requeue-delayed.lua\<close> make of them. As in \<open>Consuming\<close>, a batch does
  what its messages one after the other would do.
\<close>

subsection \<open>Arguments\<close>

record requeue_args =
  ra_id :: string
  ra_priority :: string
  ra_delay :: string
  ra_due :: string
  ra_group :: string

text \<open>The loop of \<open>requeueMessages\<close>; \<open>timestamp\<close> is its clock reading in milliseconds.\<close>

definition requeue_entry_args :: "int \<Rightarrow> envelope \<Rightarrow> requeue_args" where
  "requeue_entry_args timestamp msg =
     (let retryDelay = pm_retryDelay (e_producibleMessage msg) in
      \<lparr>ra_id = Envelope_ID msg,
       ra_priority = priority_text (e_producibleMessage msg),
       ra_delay = itoa (Milliseconds retryDelay),
       ra_due = itoa (if 0 < retryDelay then wrap64 (timestamp + Milliseconds retryDelay) else 0),
       ra_group = e_consumerGroupID msg\<rparr>)"

definition requeue_keys1 :: "queue_key \<Rightarrow> requeue_args \<Rightarrow> string list" where
  "requeue_keys1 q u = [System_Message (ra_id u), pending_key q (ra_group u), priority_key q (ra_group u)]"

definition requeue_args1 :: "requeue_args \<Rightarrow> string list" where
  "requeue_args1 u = [ra_id u, ra_priority u, ra_delay u, ra_due u, ra_group u]"

definition requeue_immediate_keys :: "queue_key \<Rightarrow> requeue_args list \<Rightarrow> string list" where
  "requeue_immediate_keys q us =
     [Queue_Properties q, Queue_Requeued q, Queue_Delayed q, Queue_DeadLetter q, Queue_ConsumerGroups q] @
     concat (map (requeue_keys1 q) us)"

definition requeue_immediate_args :: "int \<Rightarrow> requeue_args list \<Rightarrow> string list" where
  "requeue_immediate_args timestamp us =
     [F_Type, F_RequeuedMessagesCount, F_DelayedMessagesCount, F_PendingMessagesCount, F_DeadLetteredMessagesCount,
      MF_Status, itoa StatusPending, itoa StatusDeadLettered, MF_DeadLetteredAt, itoa StatusUnackDelaying,
      MF_LastRetriedAttemptAt, itoa TypeLIFO, itoa TypeFIFO] @ state_args @ [itoa timestamp] @
     concat (map requeue_args1 us)"

text \<open>The arguments that \<open>enqueueDelayed\<close> builds; a message contributes three of them.\<close>

definition delayed_args1 :: "requeue_args \<Rightarrow> string list" where
  "delayed_args1 u = [ra_id u, ra_priority u, ra_group u]"

definition requeue_delayed_keys :: "queue_key \<Rightarrow> requeue_args list \<Rightarrow> string list" where
  "requeue_delayed_keys q us =
     [Queue_Properties q, Queue_Delayed q, Queue_DeadLetter q, Queue_ConsumerGroups q] @
     concat (map (requeue_keys1 q) us)"

definition requeue_delayed_args :: "int \<Rightarrow> requeue_args list \<Rightarrow> string list" where
  "requeue_delayed_args timestamp us =
     [F_Type, F_DelayedMessagesCount, F_PendingMessagesCount, F_DeadLetteredMessagesCount,
      MF_Status, itoa StatusPending, itoa StatusDeadLettered, MF_DeadLetteredAt,
      MF_LastRetriedAttemptAt, itoa TypeLIFO, itoa TypeFIFO] @ state_args @ [itoa timestamp] @
     concat (map delayed_args1 us)"

subsection \<open>One message\<close>

definition group_ok :: "mq \<Rightarrow> string \<Rightarrow> bool" where
  "group_ok A g \<longleftrightarrow> g = [] \<or> g |\<in>| mq_grps A"

text \<open>A failed message goes back to the end from which consumers take, or to the dead letters when its
  consumer group is gone.\<close>

definition put_retry :: "string \<Rightarrow> string \<Rightarrow> string \<Rightarrow> mq \<Rightarrow> mq" where
  "put_retry g m prio A =
     (if mq_conf A F_Type = Some (itoa TypeFIFO) \<or> mq_conf A F_Type = Some (itoa TypeLIFO)
      then A\<lparr>mq_pend := (mq_pend A)(g := mq_pend A g @ [m])\<rparr>
      else A\<lparr>mq_prio := (mq_prio A)(g := fmupd m (atoi_value prio) (mq_prio A g))\<rparr>)"

definition retry_move :: "int \<Rightarrow> requeue_args \<Rightarrow> mq \<Rightarrow> mq" where
  "retry_move now u A =
     (if group_ok A (ra_group u)
      then set_fields (ra_id u) [(MF_Status, itoa StatusPending), (MF_LastRetriedAttemptAt, itoa now)]
        (put_retry (ra_group u) (ra_id u) (ra_priority u) A)
      else set_fields (ra_id u) [(MF_Status, itoa StatusDeadLettered), (MF_DeadLetteredAt, itoa now)]
        (A\<lparr>mq_dl := mq_dl A @ [ra_id u]\<rparr>))"

definition retry_count :: "mq \<Rightarrow> requeue_args \<Rightarrow> string" where
  "retry_count A u = (if group_ok A (ra_group u) then F_PendingMessagesCount else F_DeadLetteredMessagesCount)"

definition delay_move :: "requeue_args \<Rightarrow> mq \<Rightarrow> mq" where
  "delay_move u A =
     (let A1 = set_fields (ra_id u) [(MF_Status, itoa StatusUnackDelaying)] A in
      A1\<lparr>mq_dly := fmupd (ra_id u) (atoi_value (ra_due u)) (mq_dly A)\<rparr>)"

definition drop_req :: "string \<Rightarrow> mq \<Rightarrow> mq" where
  "drop_req m A = A\<lparr>mq_req := remove1 m (mq_req A)\<rparr>"

definition drop_dly :: "string \<Rightarrow> mq \<Rightarrow> mq" where
  "drop_dly m A = A\<lparr>mq_dly := fmdrop m (mq_dly A)\<rparr>"

definition do_requeue :: "int \<Rightarrow> requeue_args \<Rightarrow> mq \<Rightarrow> mq" where
  "do_requeue now u A =
     (if ra_id u \<in> set (mq_req A) then
        count F_RequeuedMessagesCount (-1)
          (if ra_delay u = ''0'' then count (retry_count A u) 1 (retry_move now u (drop_req (ra_id u) A))
           else count F_DelayedMessagesCount 1 (delay_move u (drop_req (ra_id u) A)))
      else A)"

definition do_undelay :: "int \<Rightarrow> requeue_args \<Rightarrow> mq \<Rightarrow> mq" where
  "do_undelay now u A =
     (if ra_id u |\<in>| fmdom (mq_dly A) then
        count F_DelayedMessagesCount (-1) (count (retry_count A u) 1 (retry_move now u (drop_dly (ra_id u) A)))
      else A)"

text \<open>The scores that Redis is given are numbers.\<close>

definition requeue_ready :: "mq \<Rightarrow> requeue_args list \<Rightarrow> bool" where
  "requeue_ready A us \<longleftrightarrow> (\<forall>u \<in> set us. plain_id (ra_id u) \<and> is_number (ra_due u) \<and>
     (mq_conf A F_Type = Some (itoa TypePriority) \<longrightarrow> is_number (ra_priority u)))"

definition known_type :: "mq \<Rightarrow> bool" where
  "known_type A \<longleftrightarrow> mq_conf A F_Type \<in> Some ` itoa ` {TypeLIFO, TypeFIFO, TypePriority}"

lemma move_sel [simp]:
  "mq_cnt (retry_move now u A) = mq_cnt A" "mq_conf (retry_move now u A) = mq_conf A" "mq_grps (retry_move now u A) = mq_grps A"
  "mq_req (retry_move now u A) = mq_req A" "mq_dly (retry_move now u A) = mq_dly A"
  "mq_cnt (delay_move u A) = mq_cnt A" "mq_conf (delay_move u A) = mq_conf A" "mq_grps (delay_move u A) = mq_grps A"
  "mq_req (delay_move u A) = mq_req A"
  "mq_cnt (drop_req m A) = mq_cnt A" "mq_conf (drop_req m A) = mq_conf A" "mq_grps (drop_req m A) = mq_grps A"
  "mq_req (drop_req m A) = remove1 m (mq_req A)" "mq_dly (drop_req m A) = mq_dly A"
  "mq_cnt (drop_dly m A) = mq_cnt A" "mq_conf (drop_dly m A) = mq_conf A" "mq_grps (drop_dly m A) = mq_grps A"
  "mq_dly (drop_dly m A) = fmdrop m (mq_dly A)"
  by (simp_all add: retry_move_def put_retry_def delay_move_def drop_req_def drop_dly_def Let_def)

lemma move_count:
  "retry_move now u (count f n A) = count f n (retry_move now u A)"
  "delay_move u (count f n A) = count f n (delay_move u A)"
  "drop_req m (count f n A) = count f n (drop_req m A)" "drop_dly m (count f n A) = count f n (drop_dly m A)"
  "group_ok (count f n A) g = group_ok A g" "retry_count (count f n A) u = retry_count A u"
  by (simp_all add: retry_move_def put_retry_def delay_move_def drop_req_def drop_dly_def group_ok_def retry_count_def
      count_def set_fields_def Let_def)

lemma group_ok_drop [simp]: "group_ok (drop_req m A) g = group_ok A g" "group_ok (drop_dly m A) g = group_ok A g"
  by (simp_all add: group_ok_def)

subsection \<open>requeue-immediate.lua\<close>

definition requeue_round :: "int \<Rightarrow> requeue_args \<Rightarrow> (int \<times> int \<times> int) \<times> mq \<Rightarrow> (int \<times> int \<times> int) \<times> mq" where
  "requeue_round now u = (\<lambda>((pending, delayed, dead), A).
     if ra_id u \<in> set (mq_req A) then
       (if ra_delay u = ''0'' then
          (if group_ok A (ra_group u) then (pending + 1, delayed, dead) else (pending, delayed, dead + 1),
           retry_move now u (drop_req (ra_id u) A))
        else ((pending, delayed + 1, dead), delay_move u (drop_req (ra_id u) A)))
     else ((pending, delayed, dead), A))"

definition requeue_settled :: "(int \<times> int \<times> int) \<times> mq \<Rightarrow> mq" where
  "requeue_settled = (\<lambda>((pending, delayed, dead), A).
     count F_DeadLetteredMessagesCount dead (count F_PendingMessagesCount pending (count F_DelayedMessagesCount delayed
       (count F_RequeuedMessagesCount (- (pending + delayed + dead)) A))))"

lemma requeue_settled_round: "requeue_settled (requeue_round now u s) = do_requeue now u (requeue_settled s)"
proof -
  obtain pending delayed dead A where s: "s = ((pending, delayed, dead), A)" by (metis prod.exhaust)
  show ?thesis
    by (auto simp: s requeue_settled_def requeue_round_def do_requeue_def move_count retry_count_def)
      (auto simp: count_def fun_upd_twist schema_defs algebra_simps)
qed

lemma requeue_rounds_frame:
  "mq_cnt (snd (fold (requeue_round now) us s)) = mq_cnt (snd s)"
proof -
  have "mq_cnt (snd (requeue_round now u s)) = mq_cnt (snd s)" for u s
    by (simp add: requeue_round_def split: prod.split)
  then show ?thesis by (induction us arbitrary: s) simp_all
qed

lemma requeue_rounds_counts:
  assumes "0 \<le> fst (fst s) \<and> 0 \<le> fst (snd (fst s)) \<and> 0 \<le> snd (snd (fst s))"
  shows "0 \<le> fst (fst (fold (requeue_round now) us s)) \<and> 0 \<le> fst (snd (fst (fold (requeue_round now) us s))) \<and>
    0 \<le> snd (snd (fst (fold (requeue_round now) us s)))"
proof -
  have "0 \<le> fst (fst (requeue_round now u s)) \<and> 0 \<le> fst (snd (fst (requeue_round now u s))) \<and>
      0 \<le> snd (snd (fst (requeue_round now u s)))"
    if "0 \<le> fst (fst s) \<and> 0 \<le> fst (snd (fst s)) \<and> 0 \<le> snd (snd (fst s))" for u s
    using that by (auto simp: requeue_round_def split: prod.split)
  with assms show ?thesis by (induction us arbitrary: s) simp_all
qed

lemma requeue_immediate_nth:
  "nth1 (requeue_immediate_keys q us) 1 = Queue_Properties q" "nth1 (requeue_immediate_keys q us) 2 = Queue_Requeued q"
  "nth1 (requeue_immediate_keys q us) 3 = Queue_Delayed q" "nth1 (requeue_immediate_keys q us) 4 = Queue_DeadLetter q"
  "nth1 (requeue_immediate_keys q us) 5 = Queue_ConsumerGroups q"
  "nth1 (requeue_immediate_args now us) 1 = F_Type" "nth1 (requeue_immediate_args now us) 2 = F_RequeuedMessagesCount"
  "nth1 (requeue_immediate_args now us) 3 = F_DelayedMessagesCount"
  "nth1 (requeue_immediate_args now us) 4 = F_PendingMessagesCount"
  "nth1 (requeue_immediate_args now us) 5 = F_DeadLetteredMessagesCount" "nth1 (requeue_immediate_args now us) 6 = MF_Status"
  "nth1 (requeue_immediate_args now us) 7 = itoa StatusPending" "nth1 (requeue_immediate_args now us) 8 = itoa StatusDeadLettered"
  "nth1 (requeue_immediate_args now us) 9 = MF_DeadLetteredAt" "nth1 (requeue_immediate_args now us) 10 = itoa StatusUnackDelaying"
  "nth1 (requeue_immediate_args now us) 11 = MF_LastRetriedAttemptAt" "nth1 (requeue_immediate_args now us) 12 = itoa TypeLIFO"
  "nth1 (requeue_immediate_args now us) 13 = itoa TypeFIFO" "nth1 (requeue_immediate_args now us) 14 = F_OperationalState"
  "nth1 (requeue_immediate_args now us) 15 = itoa StateActive" "nth1 (requeue_immediate_args now us) 16 = itoa StatePaused"
  "nth1 (requeue_immediate_args now us) 17 = itoa StateStopped" "nth1 (requeue_immediate_args now us) 18 = itoa StateLocked"
  "nth1 (requeue_immediate_args now us) 19 = itoa now"
  "drop 5 (requeue_immediate_keys q us) = concat (map (requeue_keys1 q) us)"
  by (simp_all add: requeue_immediate_keys_def requeue_immediate_args_def state_args_def)

lemma requeue_immediate_drop: "drop 19 (requeue_immediate_args now us) = concat (map requeue_args1 us)"
  by (simp add: requeue_immediate_args_def state_args_def)

lemma requeue_nth1:
  "nth1 (requeue_keys1 q u) 1 = System_Message (ra_id u)" "nth1 (requeue_keys1 q u) 2 = pending_key q (ra_group u)"
  "nth1 (requeue_keys1 q u) 3 = priority_key q (ra_group u)"
  "nth1 (requeue_args1 u) 1 = ra_id u" "nth1 (requeue_args1 u) 2 = ra_priority u" "nth1 (requeue_args1 u) 3 = ra_delay u"
  "nth1 (requeue_args1 u) 4 = ra_due u" "nth1 (requeue_args1 u) 5 = ra_group u"
  "nth1 (delayed_args1 u) 1 = ra_id u" "nth1 (delayed_args1 u) 2 = ra_priority u" "nth1 (delayed_args1 u) 3 = ra_group u"
  "length (requeue_keys1 q u) = 3" "length (requeue_args1 u) = 5" "length (delayed_args1 u) = 3"
  by (simp_all add: requeue_keys1_def requeue_args1_def delayed_args1_def)

lemma wp_requeue_round:
  assumes ready: "requeue_ready A (u # us)" and ty: "mq_conf A F_Type = Some ty" "known_type A"
  shows "wp q (requeue_immediate_round (redis_apply en) (requeue_immediate_keys q vs) (requeue_immediate_args now vs) ty
      (requeue_keys1 q u) (requeue_args1 u) acc) A
    (\<lambda>r A'. r = Inr (fst (requeue_round now u (acc, A))) \<and> A' = snd (requeue_round now u (acc, A)))"
proof -
  have u: "plain_id (ra_id u)" "is_number (ra_due u)" "ty \<noteq> itoa TypeFIFO \<Longrightarrow> ty \<noteq> itoa TypeLIFO \<Longrightarrow> is_number (ra_priority u)"
    using ready ty by (auto simp: requeue_ready_def known_type_def)
  show ?thesis
    unfolding requeue_immediate_round_def Let_def requeue_immediate_nth requeue_nth1
    by (intro wp_intros; simp add: u ty requeue_round_def retry_move_def put_retry_def delay_move_def drop_req_def group_ok_def
        Let_def remove1_idem)
qed

lemma requeue_ready_round:
  "requeue_ready A (u # us) \<Longrightarrow> requeue_ready (snd (requeue_round now u (acc, A))) us"
  "mq_conf (snd (requeue_round now u (acc, A))) = mq_conf A"
  by (auto simp: requeue_ready_def requeue_round_def split: prod.split)

text \<open>What both scripts answer: nothing to do without a queue, a refusal, or the number of messages handled.\<close>

definition requeue_post :: "mq \<Rightarrow> mq \<Rightarrow> reply \<Rightarrow> mq \<Rightarrow> bool" where
  "requeue_post A B r A' \<longleftrightarrow>
     (case mq_conf A F_Type of
        None \<Rightarrow> r = RInt 0 \<and> A' = A
      | Some ty \<Rightarrow>
          (case state_verdict A of
             Some err \<Rightarrow> r = RBulk err \<and> A' = A
           | None \<Rightarrow> (\<exists>n. r = RInt n) \<and> A' = B))"

lemma counts_neq:
  "F_RequeuedMessagesCount \<noteq> F_DelayedMessagesCount" "F_RequeuedMessagesCount \<noteq> F_PendingMessagesCount"
  "F_RequeuedMessagesCount \<noteq> F_DeadLetteredMessagesCount" "F_DelayedMessagesCount \<noteq> F_PendingMessagesCount"
  "F_DelayedMessagesCount \<noteq> F_DeadLetteredMessagesCount" "F_PendingMessagesCount \<noteq> F_DeadLetteredMessagesCount"
  by (simp_all add: schema_defs)

lemma wp_requeue_immediate:
  assumes ready: "requeue_ready A us" and ty: "known_type A" and ok: "counters_ok (fold (do_requeue now) us A)"
  shows "wp q (lua_requeue_immediate (redis_apply en) (requeue_immediate_keys q us) (requeue_immediate_args now us)) A
    (requeue_post A (fold (do_requeue now) us A))"
proof -
  obtain ty where ty': "mq_conf A F_Type = Some ty" using ty by (auto simp: known_type_def)
  note loop = wp_loop [where ks = "requeue_keys1 q" and as = "requeue_args1" and f = "requeue_round now"
      and P = "\<lambda>es acc B. requeue_ready B es \<and> mq_conf B = mq_conf A" and es = us]
  obtain pending delayed dead where S: "fst (fold (requeue_round now) us ((0, 0, 0), A)) = (pending, delayed, dead)"
    by (metis prod.exhaust)
  define B where "B = snd (fold (requeue_round now) us ((0, 0, 0), A))"
  have "requeue_settled (fold (requeue_round now) us ((0, 0, 0), A)) = fold (do_requeue now) us (requeue_settled ((0, 0, 0), A))"
    by (rule fold_fusion) (rule requeue_settled_round)
  moreover have "fold (requeue_round now) us ((0, 0, 0), A) = ((pending, delayed, dead), B)"
    using S by (simp add: B_def prod_eq_iff)
  ultimately have batch: "fold (do_requeue now) us A = count F_DeadLetteredMessagesCount dead
      (count F_PendingMessagesCount pending (count F_DelayedMessagesCount delayed
        (count F_RequeuedMessagesCount (- (pending + delayed + dead)) B)))"
    by (simp add: requeue_settled_def)
  have pos: "0 \<le> pending" "0 \<le> delayed" "0 \<le> dead"
    using requeue_rounds_counts [of "((0, 0, 0), A)" now us] S by simp_all
  have B: "mq_cnt B = mq_cnt A" unfolding B_def requeue_rounds_frame by simp
  have zero: "0 < pending + delayed + dead \<or> pending = 0 \<and> delayed = 0 \<and> dead = 0"
    using pos by linarith
  have cnt: "in_int64 (mq_cnt A F_RequeuedMessagesCount + (- pending - delayed - dead))"
    "in_int64 (mq_cnt A F_DelayedMessagesCount + delayed)" "in_int64 (mq_cnt A F_PendingMessagesCount + pending)"
    "in_int64 (mq_cnt A F_DeadLetteredMessagesCount + dead)"
    using ok by (auto simp: batch B counters_ok_def counter_fields_def schema_defs algebra_simps)
  have body: "wp q (requeue_immediate_round (redis_apply en) (requeue_immediate_keys q us) (requeue_immediate_args now us) ty
      (requeue_keys1 q u) (requeue_args1 u) acc) C
    (\<lambda>r A'. r = Inr (fst (requeue_round now u (acc, C))) \<and> A' = snd (requeue_round now u (acc, C)))"
    if "requeue_ready C (u # rest) \<and> mq_conf C = mq_conf A" for C u rest acc
    using that ty ty' by (intro wp_requeue_round [where us = rest]) (simp_all add: known_type_def)
  show ?thesis
    unfolding lua_requeue_immediate_def Let_def requeue_immediate_nth requeue_immediate_drop
    by (intro wp_intros loop; (use zero in \<open>elim disjE\<close>)?; use pos cnt body in \<open>simp add: S B_def [symmetric] count_ok_def requeue_nth1
        ready batch B ty' requeue_ready_round counts_neq counts_neq [symmetric] requeue_post_def state_verdict_def\<close>)
qed

subsection \<open>requeue-delayed.lua\<close>

definition undelay_round :: "int \<Rightarrow> requeue_args \<Rightarrow> (int \<times> int) \<times> mq \<Rightarrow> (int \<times> int) \<times> mq" where
  "undelay_round now u = (\<lambda>((requeued, dead), A).
     if ra_id u |\<in>| fmdom (mq_dly A) then
       (if group_ok A (ra_group u) then (requeued + 1, dead) else (requeued, dead + 1),
        retry_move now u (drop_dly (ra_id u) A))
     else ((requeued, dead), A))"

definition undelay_settled :: "(int \<times> int) \<times> mq \<Rightarrow> mq" where
  "undelay_settled = (\<lambda>((requeued, dead), A).
     count F_DelayedMessagesCount (- (requeued + dead)) (count F_DeadLetteredMessagesCount dead
       (count F_PendingMessagesCount requeued A)))"

lemma undelay_settled_round: "undelay_settled (undelay_round now u s) = do_undelay now u (undelay_settled s)"
proof -
  obtain requeued dead A where s: "s = ((requeued, dead), A)" by (metis prod.exhaust)
  show ?thesis
    by (auto simp: s undelay_settled_def undelay_round_def do_undelay_def move_count retry_count_def)
      (auto simp: count_def fun_upd_twist schema_defs algebra_simps)
qed

lemma undelay_rounds_frame: "mq_cnt (snd (fold (undelay_round now) us s)) = mq_cnt (snd s)"
proof -
  have "mq_cnt (snd (undelay_round now u s)) = mq_cnt (snd s)" for u s
    by (simp add: undelay_round_def split: prod.split)
  then show ?thesis by (induction us arbitrary: s) simp_all
qed

lemma undelay_rounds_counts:
  assumes "0 \<le> fst (fst s) \<and> 0 \<le> snd (fst s)"
  shows "0 \<le> fst (fst (fold (undelay_round now) us s)) \<and> 0 \<le> snd (fst (fold (undelay_round now) us s))"
proof -
  have "0 \<le> fst (fst (undelay_round now u s)) \<and> 0 \<le> snd (fst (undelay_round now u s))"
    if "0 \<le> fst (fst s) \<and> 0 \<le> snd (fst s)" for u s
    using that by (auto simp: undelay_round_def split: prod.split)
  with assms show ?thesis by (induction us arbitrary: s) simp_all
qed

lemma requeue_delayed_nth:
  "nth1 (requeue_delayed_keys q us) 1 = Queue_Properties q" "nth1 (requeue_delayed_keys q us) 2 = Queue_Delayed q"
  "nth1 (requeue_delayed_keys q us) 3 = Queue_DeadLetter q" "nth1 (requeue_delayed_keys q us) 4 = Queue_ConsumerGroups q"
  "nth1 (requeue_delayed_args now us) 1 = F_Type" "nth1 (requeue_delayed_args now us) 2 = F_DelayedMessagesCount"
  "nth1 (requeue_delayed_args now us) 3 = F_PendingMessagesCount" "nth1 (requeue_delayed_args now us) 4 = F_DeadLetteredMessagesCount"
  "nth1 (requeue_delayed_args now us) 5 = MF_Status"
  "nth1 (requeue_delayed_args now us) 6 = itoa StatusPending" "nth1 (requeue_delayed_args now us) 7 = itoa StatusDeadLettered"
  "nth1 (requeue_delayed_args now us) 8 = MF_DeadLetteredAt"
  "nth1 (requeue_delayed_args now us) 9 = MF_LastRetriedAttemptAt" "nth1 (requeue_delayed_args now us) 10 = itoa TypeLIFO"
  "nth1 (requeue_delayed_args now us) 11 = itoa TypeFIFO" "nth1 (requeue_delayed_args now us) 12 = F_OperationalState"
  "nth1 (requeue_delayed_args now us) 13 = itoa StateActive" "nth1 (requeue_delayed_args now us) 14 = itoa StatePaused"
  "nth1 (requeue_delayed_args now us) 15 = itoa StateStopped" "nth1 (requeue_delayed_args now us) 16 = itoa StateLocked"
  "nth1 (requeue_delayed_args now us) 17 = itoa now"
  "drop 4 (requeue_delayed_keys q us) = concat (map (requeue_keys1 q) us)"
  by (simp_all add: requeue_delayed_keys_def requeue_delayed_args_def state_args_def)

lemma requeue_delayed_drop: "drop 17 (requeue_delayed_args now us) = concat (map delayed_args1 us)"
  by (simp add: requeue_delayed_args_def state_args_def)

lemma wp_undelay_round:
  assumes ready: "requeue_ready A (u # us)" and ty: "mq_conf A F_Type = Some ty" "known_type A"
  shows "wp q (requeue_delayed_round (redis_apply en) (requeue_delayed_keys q vs) (requeue_delayed_args now vs) ty
      (requeue_keys1 q u) (delayed_args1 u) acc) A
    (\<lambda>r A'. r = Inr (fst (undelay_round now u (acc, A))) \<and> A' = snd (undelay_round now u (acc, A)))"
proof -
  have u: "plain_id (ra_id u)" "ty \<noteq> itoa TypeFIFO \<Longrightarrow> ty \<noteq> itoa TypeLIFO \<Longrightarrow> is_number (ra_priority u)"
    using ready ty by (auto simp: requeue_ready_def known_type_def)
  show ?thesis
    unfolding requeue_delayed_round_def Let_def requeue_delayed_nth requeue_nth1
    by (intro wp_intros; simp add: u ty undelay_round_def retry_move_def put_retry_def drop_dly_def group_ok_def Let_def fmdrop_absent)
qed

lemma undelay_ready_round:
  "requeue_ready A (u # us) \<Longrightarrow> requeue_ready (snd (undelay_round now u (acc, A))) us"
  "mq_conf (snd (undelay_round now u (acc, A))) = mq_conf A"
  by (auto simp: requeue_ready_def undelay_round_def split: prod.split)

lemma wp_requeue_delayed:
  assumes ready: "requeue_ready A us" and ty: "known_type A" and ok: "counters_ok (fold (do_undelay now) us A)"
  shows "wp q (lua_requeue_delayed (redis_apply en) (requeue_delayed_keys q us) (requeue_delayed_args now us)) A
    (requeue_post A (fold (do_undelay now) us A))"
proof -
  obtain ty where ty': "mq_conf A F_Type = Some ty" using ty by (auto simp: known_type_def)
  note loop = wp_loop [where ks = "requeue_keys1 q" and as = "delayed_args1" and f = "undelay_round now"
      and P = "\<lambda>es acc B. requeue_ready B es \<and> mq_conf B = mq_conf A" and es = us]
  obtain requeued dead where S: "fst (fold (undelay_round now) us ((0, 0), A)) = (requeued, dead)"
    by (metis prod.exhaust)
  define B where "B = snd (fold (undelay_round now) us ((0, 0), A))"
  have "undelay_settled (fold (undelay_round now) us ((0, 0), A)) = fold (do_undelay now) us (undelay_settled ((0, 0), A))"
    by (rule fold_fusion) (rule undelay_settled_round)
  moreover have "fold (undelay_round now) us ((0, 0), A) = ((requeued, dead), B)"
    using S by (simp add: B_def prod_eq_iff)
  ultimately have batch: "fold (do_undelay now) us A = count F_DelayedMessagesCount (- (requeued + dead))
      (count F_DeadLetteredMessagesCount dead (count F_PendingMessagesCount requeued B))"
    by (simp add: undelay_settled_def)
  have pos: "0 \<le> requeued" "0 \<le> dead"
    using undelay_rounds_counts [of "((0, 0), A)" now us] S by simp_all
  have zero: "0 < requeued + dead \<or> requeued = 0 \<and> dead = 0"
    using pos by linarith
  have B: "mq_cnt B = mq_cnt A" unfolding B_def undelay_rounds_frame by simp
  have cnt: "in_int64 (mq_cnt A F_DelayedMessagesCount + (- requeued - dead))"
    "in_int64 (mq_cnt A F_PendingMessagesCount + requeued)" "in_int64 (mq_cnt A F_DeadLetteredMessagesCount + dead)"
    using ok by (auto simp: batch B counters_ok_def counter_fields_def schema_defs algebra_simps)
  have body: "wp q (requeue_delayed_round (redis_apply en) (requeue_delayed_keys q us) (requeue_delayed_args now us) ty
      (requeue_keys1 q u) (delayed_args1 u) acc) C
    (\<lambda>r A'. r = Inr (fst (undelay_round now u (acc, C))) \<and> A' = snd (undelay_round now u (acc, C)))"
    if "requeue_ready C (u # rest) \<and> mq_conf C = mq_conf A" for C u rest acc
    using that ty ty' by (intro wp_undelay_round [where us = rest]) (simp_all add: known_type_def)
  show ?thesis
    unfolding lua_requeue_delayed_def Let_def requeue_delayed_nth requeue_delayed_drop
    by (intro wp_intros loop; (use zero in \<open>elim disjE\<close>)?; use pos cnt body in \<open>simp add: S B_def [symmetric] count_ok_def requeue_nth1
        ready batch B ty' undelay_ready_round counts_neq counts_neq [symmetric] requeue_post_def state_verdict_def\<close>)
qed

end
