(* ===== verification/Scheduling.thy ===== *)
theory Scheduling
  imports Requeuing
begin

text \<open>
  The background task that publishes scheduled messages when they are due,
  \<open>internal/consumer/scheduled_publisher.go\<close>: what it passes to \<open>publish-scheduled.lua\<close> for each
  message, and what the script makes of it. A message that is not periodic moves to its pending list;
  a periodic one stays in the schedule with its next time and a fresh copy of it is published.
\<close>

subsection \<open>Arguments\<close>

definition buildScheduledArgs :: "string list" where
  "buildScheduledArgs =
     [F_Type, F_MessagesCount, F_PendingMessagesCount, F_ScheduledMessagesCount, F_DeadLetteredMessagesCount,
      itoa TypePriority, itoa TypeLIFO, itoa TypeFIFO, F_OperationalState, F_LockID,
      itoa StateActive, itoa StatePaused, itoa StateStopped, itoa StateLocked,
      itoa StatusPending, itoa StatusScheduled, itoa StatusDeadLettered,
      MF_ID, MF_Status, MF_Message, MF_ScheduledAt, MF_PublishedAt, MF_ProcessingStartedAt, MF_DeadLetteredAt,
      MF_AcknowledgedAt, MF_UnacknowledgedAt, MF_LastUnacknowledgedAt, MF_LastScheduledAt, MF_RequeuedAt,
      MF_RequeueCount, MF_LastRequeuedAt, MF_LastRetriedAttemptAt, MF_ScheduledCronFired, MF_Attempts,
      MF_ScheduledRepeatCount, MF_Expired, MF_EffectiveScheduledDelay, MF_ScheduledTimes,
      MF_ScheduledMessageParentID, MF_RequeuedMessageParentID, MF_LastProcessedAt]"

text \<open>What one message contributes to \<open>ARGV\<close>, in the order of the script (the consumer group apart).\<close>

record sched_args =
  sa_new :: string
  sa_json :: string
  sa_priority :: string
  sa_newAt :: string
  sa_id :: string
  sa_next :: string
  sa_last :: string
  sa_times :: string
  sa_publishedAt :: string
  sa_cronFired :: string
  sa_repeat :: string
  sa_delay :: string
  sa_deadAt :: string

text \<open>The clock readings made for one message (\<open>tk_now\<close> in milliseconds, the others in nanoseconds) and
  the id that a copy gets.\<close>

record tick =
  tk_now :: int
  tk_next :: "int \<times> int"
  tk_clone :: "int \<times> int"
  tk_uuid :: string

definition scheduled_clone :: "consume_options \<Rightarrow> tick \<Rightarrow> envelope \<Rightarrow> envelope" where
  "scheduled_clone defaults tk msg =
     (let clone = CloneMessage defaults (fst (tk_clone tk)) (snd (tk_clone tk)) (tk_uuid tk) msg;
          st = SetScheduledMessageParentID (Envelope_ID msg) (SetPublishedAt (tk_now tk) (e_messageState clone)) in
      SetMessageState st (clone\<lparr>e_producibleMessage := ResetScheduledParams (e_producibleMessage clone)\<rparr>))"

text \<open>The body of the loop of \<open>enqueueScheduled\<close>.\<close>

definition sched_entry_args :: "cron_lib \<Rightarrow> consume_options \<Rightarrow> envelope \<times> tick \<Rightarrow> sched_args" where
  "sched_entry_args gx defaults = (\<lambda>(msg0, tk).
     case NextScheduledTimestamp gx (fst (tk_next tk)) (snd (tk_next tk)) msg0 of (nextSchedule, msg) \<Rightarrow>
     let periodic = 0 < nextSchedule \<and> IsPeriodic msg;
         clone = scheduled_clone defaults tk msg;
         st = (if periodic then IncrScheduledTimes (SetLastScheduledAt (tk_now tk) (e_messageState msg))
               else e_messageState msg) in
     \<lparr>sa_new = (if periodic then Envelope_ID clone else []),
      sa_json = (if periodic then json_text (transferable_json (Envelope_ToTransferable clone)) else []),
      sa_priority = priority_text (e_producibleMessage msg),
      sa_newAt = itoa (if periodic then tk_now tk else 0),
      sa_id = Envelope_ID msg,
      sa_next = itoa nextSchedule,
      sa_last = OrEmptyInt64 (State_LastScheduledAt st),
      sa_times = itoa (ms_scheduledTimes st),
      sa_publishedAt = OrEmptyInt64 (State_PublishedAt st),
      sa_cronFired = itoa (BoolToInt (ms_scheduledCronFired st)),
      sa_repeat = itoa (ms_scheduledRepeatCount st),
      sa_delay = itoa (ms_effectiveScheduledDelay st),
      sa_deadAt = itoa (tk_now tk)\<rparr>)"

definition sched_keys1 :: "sched_args \<Rightarrow> string list" where
  "sched_keys1 u = [if sa_new u = [] then [] else System_Message (sa_new u), System_Message (sa_id u)]"

definition sched_args1 :: "string \<Rightarrow> sched_args \<Rightarrow> string list" where
  "sched_args1 g u =
     [sa_new u, sa_json u, sa_priority u, sa_newAt u, sa_id u, sa_next u, sa_last u, sa_times u, sa_publishedAt u,
      sa_cronFired u, sa_repeat u, sa_delay u, g, sa_deadAt u]"

definition publish_scheduled_keys :: "queue_key \<Rightarrow> string \<Rightarrow> sched_args list \<Rightarrow> string list" where
  "publish_scheduled_keys q g us =
     [Queue_Properties q, pending_key q g, Queue_Published q, priority_key q g, Queue_Scheduled q, Queue_DeadLetter q,
      Queue_ConsumerGroups q] @ concat (map sched_keys1 us)"

definition publish_scheduled_args :: "string \<Rightarrow> sched_args list \<Rightarrow> string list" where
  "publish_scheduled_args g us = buildScheduledArgs @ concat (map (sched_args1 g) us)"

subsection \<open>One message\<close>

definition schedule_fields :: "sched_args \<Rightarrow> (string \<times> string) list" where
  "schedule_fields u =
     [(MF_LastScheduledAt, sa_last u), (MF_ScheduledTimes, sa_times u), (MF_ScheduledCronFired, sa_cronFired u),
      (MF_ScheduledRepeatCount, sa_repeat u), (MF_EffectiveScheduledDelay, sa_delay u)]"

definition dead_fields :: "string \<Rightarrow> (string \<times> string) list" where
  "dead_fields at = [(MF_Status, itoa StatusDeadLettered), (MF_DeadLetteredAt, at)]"

definition sched_child :: "sched_args \<Rightarrow> string list" where
  "sched_child u = child_values (sa_new u) (itoa StatusPending) (sa_json u) (sa_newAt u) (sa_id u) []"

definition do_due :: "string \<Rightarrow> sched_args \<Rightarrow> mq \<Rightarrow> mq" where
  "do_due g u A =
     (let A1 = count F_ScheduledMessagesCount (-1) (A\<lparr>mq_sched := fmdrop (sa_id u) (mq_sched A)\<rparr>) in
      if group_ok A g
      then set_fields (sa_id u) ([(MF_PublishedAt, sa_publishedAt u), (MF_Status, itoa StatusPending)] @ schedule_fields u)
        (count F_PendingMessagesCount 1 (put_pending g (sa_id u) (sa_priority u) A1))
      else set_fields (sa_id u) (dead_fields (sa_deadAt u))
        (count F_DeadLetteredMessagesCount 1 (A1\<lparr>mq_dl := mq_dl A @ [sa_id u]\<rparr>)))"

definition do_repeat :: "string \<Rightarrow> sched_args \<Rightarrow> mq \<Rightarrow> mq" where
  "do_repeat g u A =
     do_publish g (sa_new u) (sa_priority u) [] True (sched_child u)
       (set_fields (sa_id u) (schedule_fields u) (A\<lparr>mq_sched := fmupd (sa_id u) (atoi_value (sa_next u)) (mq_sched A)\<rparr>))"

definition do_expire_schedule :: "sched_args \<Rightarrow> mq \<Rightarrow> mq" where
  "do_expire_schedule u A =
     count F_DeadLetteredMessagesCount 1 (count F_ScheduledMessagesCount (-1)
       (set_fields (sa_id u) (dead_fields (sa_deadAt u))
         (A\<lparr>mq_sched := fmdrop (sa_id u) (mq_sched A), mq_dl := mq_dl A @ [sa_id u]\<rparr>)))"

definition do_scheduled :: "string \<Rightarrow> sched_args \<Rightarrow> mq \<Rightarrow> mq" where
  "do_scheduled g u A =
     (if sa_new u = [] then (if sa_id u |\<in>| fmdom (mq_sched A) then do_due g u A else A)
      else if group_ok A g then do_repeat g u A
      else if sa_id u |\<in>| fmdom (mq_sched A) then do_expire_schedule u A
      else A)"

text \<open>Room for \<open>n\<close> more steps of every counter.\<close>

definition room :: "mq \<Rightarrow> nat \<Rightarrow> bool" where
  "room A n \<longleftrightarrow> (\<forall>f \<in> set counter_fields. - (2 ^ 63) + int n \<le> mq_cnt A f \<and> mq_cnt A f + int n \<le> 2 ^ 63 - 1)"

definition prio_fits :: "mq \<Rightarrow> string \<Rightarrow> bool" where
  "prio_fits A prio \<longleftrightarrow> (if mq_conf A F_Type = Some (itoa TypePriority) then prio \<noteq> [] \<and> is_number prio else prio = [])"

definition sched_ready :: "mq \<Rightarrow> sched_args list \<Rightarrow> bool" where
  "sched_ready A us \<longleftrightarrow> room A (length us) \<and> known_type A \<and> state_verdict A = None \<and>
     (\<forall>u \<in> set us. plain_id (sa_id u) \<and> (sa_new u \<noteq> [] \<longrightarrow> plain_id (sa_new u) \<and> is_number (sa_next u)) \<and>
       prio_fits A (sa_priority u))"

lemma buildScheduledArgs_keys: "buildScheduledArgs = take 17 buildScheduledArgs @ buildMessagePropertyKeys"
  by (simp add: buildScheduledArgs_def buildMessagePropertyKeys_def)

lemma publish_scheduled_nth:
  "nth1 (publish_scheduled_keys q g us) 1 = Queue_Properties q" "nth1 (publish_scheduled_keys q g us) 2 = pending_key q g"
  "nth1 (publish_scheduled_keys q g us) 3 = Queue_Published q" "nth1 (publish_scheduled_keys q g us) 4 = priority_key q g"
  "nth1 (publish_scheduled_keys q g us) 5 = Queue_Scheduled q" "nth1 (publish_scheduled_keys q g us) 6 = Queue_DeadLetter q"
  "nth1 (publish_scheduled_keys q g us) 7 = Queue_ConsumerGroups q"
  "nth1 (publish_scheduled_args g us) 1 = F_Type" "nth1 (publish_scheduled_args g us) 2 = F_MessagesCount"
  "nth1 (publish_scheduled_args g us) 3 = F_PendingMessagesCount" "nth1 (publish_scheduled_args g us) 4 = F_ScheduledMessagesCount"
  "nth1 (publish_scheduled_args g us) 5 = F_DeadLetteredMessagesCount" "nth1 (publish_scheduled_args g us) 6 = itoa TypePriority"
  "nth1 (publish_scheduled_args g us) 7 = itoa TypeLIFO" "nth1 (publish_scheduled_args g us) 8 = itoa TypeFIFO"
  "nth1 (publish_scheduled_args g us) 9 = F_OperationalState" "nth1 (publish_scheduled_args g us) 10 = F_LockID"
  "nth1 (publish_scheduled_args g us) 11 = itoa StateActive" "nth1 (publish_scheduled_args g us) 12 = itoa StatePaused"
  "nth1 (publish_scheduled_args g us) 13 = itoa StateStopped" "nth1 (publish_scheduled_args g us) 14 = itoa StateLocked"
  "nth1 (publish_scheduled_args g us) 15 = itoa StatusPending" "nth1 (publish_scheduled_args g us) 16 = itoa StatusScheduled"
  "nth1 (publish_scheduled_args g us) 17 = itoa StatusDeadLettered"
  "nth1 (publish_scheduled_args g us) 19 = MF_Status" "nth1 (publish_scheduled_args g us) 22 = MF_PublishedAt"
  "nth1 (publish_scheduled_args g us) 24 = MF_DeadLetteredAt" "nth1 (publish_scheduled_args g us) 28 = MF_LastScheduledAt"
  "nth1 (publish_scheduled_args g us) 33 = MF_ScheduledCronFired" "nth1 (publish_scheduled_args g us) 35 = MF_ScheduledRepeatCount"
  "nth1 (publish_scheduled_args g us) 37 = MF_EffectiveScheduledDelay" "nth1 (publish_scheduled_args g us) 38 = MF_ScheduledTimes"
  "drop 7 (publish_scheduled_keys q g us) = concat (map sched_keys1 us)"
  by (simp_all add: publish_scheduled_keys_def publish_scheduled_args_def buildScheduledArgs_def)

lemma publish_scheduled_drop:
  "drop 41 (publish_scheduled_args g us) = concat (map (sched_args1 g) us)"
  "take 24 (drop 17 (publish_scheduled_args g us)) = buildMessagePropertyKeys"
  by (simp_all add: publish_scheduled_args_def buildScheduledArgs_def buildMessagePropertyKeys_def)

lemma sched_nth1:
  "nth1 (sched_keys1 u) 1 = (if sa_new u = [] then [] else System_Message (sa_new u))"
  "nth1 (sched_keys1 u) 2 = System_Message (sa_id u)"
  "nth1 (sched_args1 g u) 1 = sa_new u" "nth1 (sched_args1 g u) 2 = sa_json u" "nth1 (sched_args1 g u) 3 = sa_priority u"
  "nth1 (sched_args1 g u) 4 = sa_newAt u" "nth1 (sched_args1 g u) 5 = sa_id u" "nth1 (sched_args1 g u) 6 = sa_next u"
  "nth1 (sched_args1 g u) 7 = sa_last u" "nth1 (sched_args1 g u) 8 = sa_times u" "nth1 (sched_args1 g u) 9 = sa_publishedAt u"
  "nth1 (sched_args1 g u) 10 = sa_cronFired u" "nth1 (sched_args1 g u) 11 = sa_repeat u" "nth1 (sched_args1 g u) 12 = sa_delay u"
  "nth1 (sched_args1 g u) 13 = g" "nth1 (sched_args1 g u) 14 = sa_deadAt u"
  "length (sched_keys1 u) = 2" "length (sched_args1 g u) = 14"
  by (simp_all add: sched_keys1_def sched_args1_def)

subsection \<open>publish-scheduled.lua\<close>

lemma child_values_nth [simp]:
  "length (child_values m st json at p1 p2) = 24" "nth1 (child_values m st json at p1 p2) 1 = m"
  "nth1 (child_values m st json at p1 p2) (Suc 0) = m" "nth1 (child_values m st json at p1 p2) 2 = st"
  by (simp_all add: child_values_def)

text \<open>A message that a script publishes on its own.\<close>

lemma wp_publish_child:
  assumes "k = System_Message m" and "plain_id m" and "publishable A prio [] True"
    and "publish_verdict A g prio True lock = ''OK'' \<Longrightarrow>
      Q ''OK'' (do_publish g m prio [] True (child_values m (itoa StatusPending) json at p1 p2) A)"
    and "publish_verdict A g prio True lock \<noteq> ''OK'' \<Longrightarrow> Q (publish_verdict A g prio True lock) A"
  shows "wp q (publish_message (redis_apply en)
      [Queue_Properties q, priority_key q g, pending_key q g, Queue_Scheduled q, Queue_Published q, Queue_ConsumerGroups q, k]
      (buildQueuePropertyArgs @ [prio, [], itoa StatusScheduled, itoa StatusPending] @ buildMessagePropertyKeys @
       child_values m (itoa StatusPending) json at p1 p2 @ [g, lock])) A Q"
  unfolding assms(1) publish_keys_def [symmetric] publish_args_def [symmetric]
  by (rule wp_weaken [OF wp_publish_message [where st = "itoa StatusPending"]]) (use assms in \<open>auto split: if_splits\<close>)

lemma queue_property_args:
  "[F_Type, F_MessagesCount, F_PendingMessagesCount, F_ScheduledMessagesCount,
    itoa TypePriority, itoa TypeLIFO, itoa TypeFIFO, F_OperationalState, F_LockID,
    itoa StateActive, itoa StatePaused, itoa StateStopped, itoa StateLocked, prio, [], a, b] =
   buildQueuePropertyArgs @ [prio, [], a, b]"
  by (simp add: buildQueuePropertyArgs_def)

lemma publish_verdict_OK:
  assumes "known_type A" and "state_verdict A = None" and "prio_fits A prio" and "group_ok A g"
  shows "publish_verdict A g prio pending [] = ''OK''"
proof -
  have "publish_state_error (itoa StateActive) (itoa StatePaused) (itoa StateStopped) (itoa StateLocked)
      (state_or (itoa StateActive) (mq_conf A F_OperationalState)) [] lock = None" for lock
    using assms(2) by (auto simp: state_verdict_def state_error_def publish_state_error_def split: if_splits)
  with assms(1,3,4) show ?thesis
    by (auto simp: publish_verdict_def known_type_def prio_fits_def group_ok_def enum_defs split: if_splits)
qed

definition sched_round :: "string \<Rightarrow> sched_args \<Rightarrow> int \<times> mq \<Rightarrow> int \<times> mq" where
  "sched_round g u = (\<lambda>(n, A).
     (if sa_new u = [] \<and> sa_id u |\<notin>| fmdom (mq_sched A) then n else n + 1, do_scheduled g u A))"

lemma room_counts:
  assumes "room A (Suc n)" and "f \<in> set counter_fields"
  shows "count_ok f 1 A" "count_ok f (-1) A"
  using assms by (auto simp: room_def count_ok_def in_int64_def dest!: bspec [OF _ assms(2)])

lemma wp_sched_round:
  assumes ready: "sched_ready A (u # us)" and ty: "mq_conf A F_Type = Some ty"
  shows "wp q (publish_scheduled_round (redis_apply en) (publish_scheduled_keys q g vs) (publish_scheduled_args g vs) ty
      (sched_keys1 u) (sched_args1 g u) acc) A
    (\<lambda>r A'. r = Inr (fst (sched_round g u (acc, A))) \<and> A' = snd (sched_round g u (acc, A)))"
proof -
  have u: "plain_id (sa_id u)" "sa_new u \<noteq> [] \<Longrightarrow> plain_id (sa_new u)" "sa_new u \<noteq> [] \<Longrightarrow> is_number (sa_next u)"
    "prio_fits A (sa_priority u)" "known_type A" "state_verdict A = None"
    using ready by (auto simp: sched_ready_def)
  have room: "room A (Suc (length us))" using ready by (simp add: sched_ready_def)
  have counts: "in_int64 (mq_cnt A f + 1)" "in_int64 (mq_cnt A f - 1)" if "f \<in> set counter_fields" for f
    using room_counts [OF room that] by (simp_all add: count_ok_def)
  have neq: "F_ScheduledMessagesCount \<noteq> F_PendingMessagesCount" "F_ScheduledMessagesCount \<noteq> F_DeadLetteredMessagesCount"
    "F_PendingMessagesCount \<noteq> F_ScheduledMessagesCount" "F_DeadLetteredMessagesCount \<noteq> F_ScheduledMessagesCount"
    by (simp_all add: schema_defs)
  have child: "publish_verdict B g (sa_priority u) True [] = ''OK''" "publishable B (sa_priority u) [] True"
    if "mq_conf B = mq_conf A" "mq_grps B = mq_grps A" "mq_cnt B = mq_cnt A" "g = [] \<or> g |\<in>| mq_grps A" for B
  proof -
    show "publish_verdict B g (sa_priority u) True [] = ''OK''"
      using u that by (intro publish_verdict_OK) (simp_all add: known_type_def state_verdict_def prio_fits_def group_ok_def)
    show "publishable B (sa_priority u) [] True"
      using u(4) that counts by (auto simp: publishable_def count_ok_def prio_fits_def split: if_splits)
  qed
  have prio: "ty \<noteq> itoa TypeFIFO \<Longrightarrow> ty \<noteq> itoa TypeLIFO \<Longrightarrow> is_number (sa_priority u)"
    using u(4,5) ty by (auto simp: prio_fits_def known_type_def)
  have put: "put_pending g m p B =
      (if ty = itoa TypeFIFO then B\<lparr>mq_pend := (mq_pend B)(g := m # mq_pend B g)\<rparr>
       else if ty = itoa TypeLIFO then B\<lparr>mq_pend := (mq_pend B)(g := mq_pend B g @ [m])\<rparr>
       else B\<lparr>mq_prio := (mq_prio B)(g := fmupd m (atoi_value p) (mq_prio B g))\<rparr>)"
    if "mq_conf B = mq_conf A" for m p B
    using u(5) ty that by (auto simp: put_pending_def known_type_def enum_defs)
  show ?thesis
    unfolding publish_scheduled_round_def Let_def publish_scheduled_nth publish_scheduled_drop sched_nth1 queue_property_args append_assoc
    by (intro wp_intros wp_publish_child; simp add: u ty counts neq child prio put count_ok_def sched_round_def do_scheduled_def do_due_def
        do_repeat_def do_expire_schedule_def group_ok_def schedule_fields_def dead_fields_def sched_child_def
        fmdrop_absent Let_def)
qed

lemma put_pending_sel [simp]:
  "mq_conf (put_pending g m p A) = mq_conf A" "mq_cnt (put_pending g m p A) = mq_cnt A" "mq_grps (put_pending g m p A) = mq_grps A"
  "mq_pub (put_pending g m p A) = mq_pub A" "mq_msg (put_pending g m p A) = mq_msg A"
  by (simp_all add: put_pending_def)

lemma do_scheduled_conf [simp]: "mq_conf (do_scheduled g u A) = mq_conf A"
  by (simp add: do_scheduled_def do_due_def do_repeat_def do_expire_schedule_def do_publish_def Let_def)

lemma room_count: "room A (Suc n) \<Longrightarrow> abs k \<le> 1 \<Longrightarrow> mq_cnt B f = mq_cnt A f + k \<Longrightarrow> f \<in> set counter_fields \<Longrightarrow>
    - (2 ^ 63) + int n \<le> mq_cnt B f \<and> mq_cnt B f + int n \<le> 2 ^ 63 - 1"
  by (auto simp: room_def dest!: bspec)

lemma do_scheduled_count: "\<exists>k. abs k \<le> 1 \<and> mq_cnt (do_scheduled g u A) f = mq_cnt A f + k"
proof -
  have "abs (mq_cnt (do_scheduled g u A) f - mq_cnt A f) \<le> 1"
    by (auto simp: do_scheduled_def do_due_def do_repeat_def do_expire_schedule_def do_publish_def Let_def schema_defs)
  then show ?thesis by (intro exI [of _ "mq_cnt (do_scheduled g u A) f - mq_cnt A f"]) simp
qed

lemma sched_ready_round:
  assumes "sched_ready A (u # us)"
  shows "sched_ready (snd (sched_round g u (acc, A))) us"
proof -
  have "room (do_scheduled g u A) (length us)"
    unfolding room_def
  proof
    fix f assume "f \<in> set counter_fields"
    with do_scheduled_count [of g u A f] assms
    show "- (2 ^ 63) + int (length us) \<le> mq_cnt (do_scheduled g u A) f \<and> mq_cnt (do_scheduled g u A) f + int (length us) \<le> 2 ^ 63 - 1"
      by (auto simp: sched_ready_def dest: room_count)
  qed
  with assms show ?thesis
    by (simp add: sched_ready_def sched_round_def known_type_def state_verdict_def prio_fits_def)
qed

lemma sched_rounds: "snd (fold (sched_round g) us s) = fold (do_scheduled g) us (snd s)"
proof -
  have "snd (sched_round g u s) = do_scheduled g u (snd s)" for u s
    by (simp add: sched_round_def split: prod.split)
  then show ?thesis by (intro fold_fusion) simp
qed

lemma wp_publish_scheduled:
  assumes ready: "sched_ready A us"
  shows "wp q (lua_publish_scheduled (redis_apply en) (publish_scheduled_keys q g us) (publish_scheduled_args g us)) A
    (\<lambda>r A'. (\<exists>n. r = RInt n) \<and> A' = fold (do_scheduled g) us A)"
proof -
  obtain ty where ty: "mq_conf A F_Type = Some ty" using ready by (auto simp: sched_ready_def known_type_def)
  note loop = wp_loop [where ks = "sched_keys1" and as = "sched_args1 g" and f = "sched_round g"
      and P = "\<lambda>es acc B. sched_ready B es \<and> mq_conf B = mq_conf A" and es = us]
  have body: "wp q (publish_scheduled_round (redis_apply en) (publish_scheduled_keys q g us) (publish_scheduled_args g us) ty
      (sched_keys1 u) (sched_args1 g u) acc) B
    (\<lambda>r A'. r = Inr (fst (sched_round g u (acc, B))) \<and> A' = snd (sched_round g u (acc, B)))"
    if "sched_ready B (u # rest) \<and> mq_conf B = mq_conf A" for B u rest acc
    using that ty by (intro wp_sched_round [where us = rest]) simp_all
  have conf: "mq_conf (snd (sched_round g u (acc, B))) = mq_conf B" for u acc B
    by (simp add: sched_round_def)
  have verdict: "state_verdict A = None" using ready by (simp add: sched_ready_def)
  show ?thesis
    unfolding lua_publish_scheduled_def Let_def publish_scheduled_nth publish_scheduled_drop
    by (intro wp_intros loop; use body verdict in \<open>simp add: sched_nth1 ready ty sched_ready_round conf sched_rounds
        state_verdict_def\<close>)
qed

text \<open>A queue that is stopped or locked keeps its schedule.\<close>

lemma wp_publish_scheduled_refused:
  assumes "state_verdict A \<noteq> None"
  shows "wp q (lua_publish_scheduled (redis_apply en) (publish_scheduled_keys q g us) (publish_scheduled_args g us)) A
    (\<lambda>r A'. r = RInt 0 \<and> A' = A)"
  unfolding lua_publish_scheduled_def Let_def publish_scheduled_nth publish_scheduled_drop
  by (rule wp_and_then, rule wp_hmget_props, simp, use assms [unfolded state_verdict_def] in simp)
    (auto intro!: wp_intros simp: wp_ret)

end
