(* ===== verification/Message_Store.thy ===== *)
theory Message_Store
  imports Scheduling
begin

text \<open>
  The message store, \<open>internal/message/store.go\<close>, with its facade \<open>internal/message/manager.go\<close>:
  loading messages, deleting them in batches by queue and consumer group, requeueing a finished
  message by hand, and the history of a message. What a decoding draws from its surroundings (default
  options, the clock, fresh ids) is a record \<open>decode_ctx\<close>, with one reading per message. Go ranges
  over a map in an unspecified order; the order is the argument \<open>ord\<close>.
\<close>

subsection \<open>Loading\<close>

record decode_ctx =
  dc_defaults :: consume_options
  dc_now :: "string \<Rightarrow> int"
  dc_uuid :: "string \<Rightarrow> string \<times> string"

definition decode_at :: "decode_ctx \<Rightarrow> string \<Rightarrow> (string, string) fmap \<Rightarrow> go_error + envelope" where
  "decode_at dc m hash = DecodeEnvelope (dc_defaults dc) (dc_now dc m) (fst (dc_uuid dc m)) (snd (dc_uuid dc m)) hash"

definition GetStatus :: "'s redis_server \<Rightarrow> string \<Rightarrow> ('s, go_error, msg_status) io" where
  "GetStatus rd messageID =
     and_then (map_err (\<lambda>_. MessageErr M_ErrNotFound)
       (LoadHashField rd (System_Message messageID) MF_Status ''message status'')) (\<lambda>statusStr.
     case parse_int statusStr of
       (status, None) \<Rightarrow> ret status
     | (_, Some err) \<Rightarrow> throw (Wrapf ''parse message status'' (NumErr err)))"

definition GetState :: "'s redis_server \<Rightarrow> string \<Rightarrow> string \<Rightarrow> ('s, go_error, msg_state) io" where
  "GetState rd uuid messageID =
     and_then (map_err (\<lambda>_. MessageErr M_ErrNotFound)
       (LoadHash rd (System_Message messageID) ''message state'')) (\<lambda>hash.
     lift_sum (DecodeState uuid hash))"

definition GetMessage :: "'s redis_server \<Rightarrow> decode_ctx \<Rightarrow> string \<Rightarrow> ('s, go_error, envelope) io" where
  "GetMessage rd dc messageID =
     and_then (map_err (\<lambda>_. MessageErr M_ErrNotFound)
       (LoadHash rd (System_Message messageID) ''message'')) (\<lambda>hash.
     lift_sum (decode_at dc messageID hash))"

primrec GetMessages :: "'s redis_server \<Rightarrow> decode_ctx \<Rightarrow> string list \<Rightarrow> ('s, go_error, envelope list) io" where
  "GetMessages rd dc [] = ret []"
| "GetMessages rd dc (m # ids) =
     and_then (try_io (GetMessage rd dc m)) (\<lambda>r.
     case r of
       Inl err \<Rightarrow> if errors_is err (MessageErr M_ErrNotFound) then GetMessages rd dc ids else throw err
     | Inr env \<Rightarrow> and_then (GetMessages rd dc ids) (\<lambda>envs. ret (env # envs)))"

definition GetUnacknowledgmentHistory :: "'s redis_server \<Rightarrow> string \<Rightarrow> ('s, go_error, string list) io" where
  "GetUnacknowledgmentHistory rd messageID =
     and_then (map_err (\<lambda>e. Wrapf ''check message exists'' (RedisErr e)) (exists_keys rd [System_Message messageID])) (\<lambda>n.
     if n = 0 then throw (MessageErr M_ErrNotFound)
     else map_err (\<lambda>e. Wrapf ''get unacknowledgment history'' (RedisErr e))
       (lrange rd (System_MessageAcknowledgementHistory messageID) 0 (-1)))"

subsection \<open>Deletion\<close>

record delete_stats =
  ds_Processed :: int
  ds_Success :: int
  ds_NotFound :: int
  ds_InProcess :: int

type_synonym delete_status = string

definition DeleteStatusOK :: delete_status where "DeleteStatusOK = ''OK''"
definition DeleteStatusPartialSuccess :: delete_status where "DeleteStatusPartialSuccess = ''PARTIAL_SUCCESS''"
definition DeleteStatusNotFound :: delete_status where "DeleteStatusNotFound = ''MESSAGE_NOT_FOUND''"
definition DeleteStatusInProcess :: delete_status where "DeleteStatusInProcess = ''MESSAGE_IN_PROCESS''"
definition DeleteStatusNotDeleted :: delete_status where "DeleteStatusNotDeleted = ''MESSAGE_NOT_DELETED''"

definition delete_statuses :: "delete_status list" where
  "delete_statuses =
     [DeleteStatusOK, DeleteStatusPartialSuccess, DeleteStatusNotFound, DeleteStatusInProcess,
     DeleteStatusNotDeleted]"

lemmas delete_status_defs = DeleteStatusOK_def DeleteStatusPartialSuccess_def DeleteStatusNotFound_def
  DeleteStatusInProcess_def DeleteStatusNotDeleted_def

record delete_response =
  dr_Status :: delete_status
  dr_Stats :: delete_stats

definition delete_keys :: "queue_key \<Rightarrow> string \<Rightarrow> string list \<Rightarrow> string list" where
  "delete_keys q g ids =
     [Queue_Properties q, Queue_Published q, pending_key q g, priority_key q g, Queue_Scheduled q, Queue_Acknowledged q,
      Queue_DeadLetter q, Queue_Delayed q, Queue_Requeued q] @
     concat (map (\<lambda>m. [System_Message m, System_MessageAcknowledgementHistory m]) ids)"

definition delete_args :: "string \<Rightarrow> string list \<Rightarrow> string list" where
  "delete_args lockID ids =
     [F_Type, F_MessagesCount, F_AcknowledgedMessagesCount, F_DeadLetteredMessagesCount, F_PendingMessagesCount,
      F_ScheduledMessagesCount, F_DelayedMessagesCount, F_RequeuedMessagesCount,
      itoa TypePriority, itoa TypeLIFO, itoa TypeFIFO, MF_Status,
      itoa StatusProcessing, itoa StatusAcknowledged, itoa StatusPending, itoa StatusScheduled, itoa StatusDeadLettered,
      itoa StatusUnackDelaying, itoa StatusUnackRequeuing, F_OperationalState, itoa StateLocked, F_LockID, lockID] @ ids"

definition toInt :: "reply \<Rightarrow> int" where
  "toInt v = (case v of RInt n \<Rightarrow> n | _ \<Rightarrow> 0)"

definition delete_group_reply :: "reply \<Rightarrow> ('s, go_error, delete_stats) io" where
  "delete_group_reply reply =
     (case reply of
        RBulk replyStr \<Rightarrow>
          if replyStr = ''QUEUE_LOCKED'' then throw (QueueErr Q_ErrLocked)
          else if replyStr = ''QUEUE_NOT_FOUND'' then throw (QueueErr Q_ErrNotFound)
          else throw (Errorf (''unexpected script reply: '' @ replyStr))
      | RArr (a # b # c # d # _) \<Rightarrow>
          ret \<lparr>ds_Processed = toInt a, ds_Success = toInt b, ds_NotFound = toInt c, ds_InProcess = toInt d\<rparr>
      | _ \<Rightarrow> throw (Errorf ''unexpected script reply''))"

definition deleteMessageGroup :: "'s redis_server \<Rightarrow> queue_params \<Rightarrow> envelope list \<Rightarrow> string \<Rightarrow> ('s, go_error, delete_stats) io" where
  "deleteMessageGroup rd queue messages lockID =
     (let consumerGroupID = (case messages of [] \<Rightarrow> [] | m # _ \<Rightarrow> e_consumerGroupID m);
          ids = map Envelope_ID messages in
      and_then (map_err (Wrapf ''delete message script'')
        (Eval rd DeleteMessage (delete_keys (qkey queue) consumerGroupID ids) (delete_args lockID ids)))
        delete_group_reply)"

definition add_stats :: "delete_stats \<Rightarrow> delete_stats \<Rightarrow> delete_stats" where
  "add_stats a b =
     \<lparr>ds_Processed = ds_Processed a + ds_Processed b, ds_Success = ds_Success a + ds_Success b,
      ds_NotFound = ds_NotFound a + ds_NotFound b, ds_InProcess = ds_InProcess a + ds_InProcess b\<rparr>"

text \<open>The two-level map \<open>groups\<close>: the queue id and the consumer group (\<open>_\<close> for none) of a message.\<close>

definition group_of :: "envelope \<Rightarrow> (string \<times> string) option" where
  "group_of env =
     map_option (\<lambda>q. (qp_ns q @ '':'' @ qp_name q, if e_consumerGroupID env = [] then ''_'' else e_consumerGroupID env))
       (e_destinationQueue env)"

definition group_messages :: "envelope list \<Rightarrow> string \<times> string \<Rightarrow> envelope list" where
  "group_messages envs k = filter (\<lambda>env. group_of env = Some k) envs"

definition group_keys :: "envelope list \<Rightarrow> (string \<times> string) list" where
  "group_keys envs = remdups (List.map_filter group_of envs)"

definition group_queue :: "envelope list \<Rightarrow> queue_params option" where
  "group_queue envs = (case envs of [] \<Rightarrow> None | env # _ \<Rightarrow> e_destinationQueue env)"

definition delete_status :: "delete_stats \<Rightarrow> delete_status" where
  "delete_status st =
     (if ds_Processed st = ds_Success st \<and> 0 < ds_Processed st then DeleteStatusOK
      else if 0 < ds_Success st then DeleteStatusPartialSuccess
      else DeleteStatusNotDeleted)"

primrec delete_groups :: "'s redis_server \<Rightarrow> envelope list list \<Rightarrow> string \<Rightarrow> delete_stats \<Rightarrow> ('s, go_error, delete_stats) io" where
  "delete_groups rd [] lockID acc = ret acc"
| "delete_groups rd (envs # gs) lockID acc =
     (case group_queue envs of
        None \<Rightarrow> delete_groups rd gs lockID acc
      | Some queue \<Rightarrow> and_then (deleteMessageGroup rd queue envs lockID) (\<lambda>stats.
          delete_groups rd gs lockID (add_stats acc stats)))"

definition DeleteMessages :: "'s redis_server \<Rightarrow> decode_ctx \<Rightarrow> ((string \<times> string) list \<Rightarrow> (string \<times> string) list)
    \<Rightarrow> string list \<Rightarrow> string \<Rightarrow> ('s, go_error, delete_response) io" where
  "DeleteMessages rd dc ord messageIDs lockID =
     (if messageIDs = []
      then ret \<lparr>dr_Status = DeleteStatusOK, dr_Stats = \<lparr>ds_Processed = 0, ds_Success = 0, ds_NotFound = 0, ds_InProcess = 0\<rparr>\<rparr>
      else
      and_then (GetMessages rd dc messageIDs) (\<lambda>messages.
      let notFound = int (length messageIDs) - int (length messages);
          stats0 = \<lparr>ds_Processed = notFound, ds_Success = 0, ds_NotFound = notFound, ds_InProcess = 0\<rparr> in
      if messages = [] then ret \<lparr>dr_Status = DeleteStatusNotDeleted, dr_Stats = stats0\<rparr>
      else
      and_then (delete_groups rd (map (group_messages messages) (ord (group_keys messages))) lockID stats0) (\<lambda>stats.
      ret \<lparr>dr_Status = delete_status stats, dr_Stats = stats\<rparr>)))"

subsection \<open>Requeueing by hand\<close>

definition requeue_keys :: "queue_key \<Rightarrow> string \<Rightarrow> string \<Rightarrow> string \<Rightarrow> string list" where
  "requeue_keys q g messageID newID =
     [Queue_Properties q, priority_key q g, pending_key q g, Queue_Published q, Queue_Scheduled q, Queue_ConsumerGroups q,
      System_Message messageID, System_Message newID]"

definition requeue_msg_args :: "string \<Rightarrow> string \<Rightarrow> string \<Rightarrow> int \<Rightarrow> int \<Rightarrow> string \<Rightarrow> string list" where
  "requeue_msg_args newID newMessageJSON priority ts requeuedAt g =
     buildQueuePropertyArgs @ [itoa StatusScheduled, itoa StatusPending] @ buildMessagePropertyKeys @ [[]] @
     [newID, newMessageJSON, priority, itoa ts, itoa requeuedAt, itoa ts, g]"

text \<open>The clock readings of \<open>RequeueMessage\<close>: \<open>ts\<close> in milliseconds, the two of \<open>CloneMessage\<close> in nanoseconds.\<close>

definition requeue_clone :: "consume_options \<Rightarrow> int \<Rightarrow> int \<times> int \<Rightarrow> string \<Rightarrow> string \<Rightarrow> envelope \<Rightarrow> envelope" where
  "requeue_clone defaults ts clock uuid messageID original =
     (let clone = CloneMessage defaults (fst clock) (snd clock) uuid original;
          st = SetRequeuedMessageParentID messageID (SetPublishedAt ts (e_messageState clone)) in
      SetMessageState st (clone\<lparr>e_producibleMessage := ResetScheduledParams (e_producibleMessage clone)\<rparr>))"

definition Store_RequeueMessage :: "'s redis_server \<Rightarrow> decode_ctx \<Rightarrow> int \<Rightarrow> int \<times> int \<Rightarrow> string \<Rightarrow> string \<Rightarrow> ('s, go_error, string) io" where
  "Store_RequeueMessage rd dc ts clock uuid messageID =
     and_then (GetMessage rd dc messageID) (\<lambda>original.
     if \<not> Status_IsRequeuable (e_status original) then throw (MessageErr M_ErrNotRequeuable)
     else case e_destinationQueue original of
       None \<Rightarrow> throw (Errorf ''requeue: message has no destination queue'')
     | Some destQueue \<Rightarrow>
     let clone = requeue_clone (dc_defaults dc) ts clock uuid messageID original;
         newID = Envelope_ID clone; consumerGroupID = e_consumerGroupID original;
         newMessageJSON = json_text (transferable_json (Envelope_ToTransferable clone));
         requeuedAt = (case State_RequeuedAt (e_messageState original) of None \<Rightarrow> ts | Some at \<Rightarrow> at) in
     and_then (map_err (Wrapf ''requeue message'')
       (Eval rd RequeueMessage (requeue_keys (qkey destQueue) consumerGroupID messageID newID)
         (requeue_msg_args newID newMessageJSON (priority_text (e_producibleMessage clone)) ts requeuedAt consumerGroupID)))
       (\<lambda>reply.
     case reply of
       RInt n \<Rightarrow> if n = 0 then throw (MessageErr M_ErrNotFound) else ret newID
     | RBulk replyStr \<Rightarrow> throw (Errorf (''requeue message: script error: '' @ replyStr))
     | _ \<Rightarrow> throw (Errorf ''requeue message: script error: '')))"

subsection \<open>The manager\<close>

definition Manager_State :: "'s redis_server \<Rightarrow> string \<Rightarrow> string \<Rightarrow> ('s, go_error, state_transferable) io" where
  "Manager_State rd uuid messageID = and_then (GetState rd uuid messageID) (\<lambda>state. ret (State_ToTransferable state))"

definition Manager_Get :: "'s redis_server \<Rightarrow> decode_ctx \<Rightarrow> string \<Rightarrow> ('s, go_error, transferable) io" where
  "Manager_Get rd dc messageID = and_then (GetMessage rd dc messageID) (\<lambda>env. ret (Envelope_ToTransferable env))"

definition Manager_GetAll :: "'s redis_server \<Rightarrow> decode_ctx \<Rightarrow> string list \<Rightarrow> ('s, go_error, transferable list) io" where
  "Manager_GetAll rd dc ids = and_then (GetMessages rd dc ids) (\<lambda>envs. ret (map Envelope_ToTransferable envs))"

definition Manager_DeleteAll :: "'s redis_server \<Rightarrow> decode_ctx \<Rightarrow> ((string \<times> string) list \<Rightarrow> (string \<times> string) list)
    \<Rightarrow> string list \<Rightarrow> ('s, go_error, delete_response) io" where
  "Manager_DeleteAll rd dc ord messageIDs =
     (if messageIDs = []
      then ret \<lparr>dr_Status = DeleteStatusOK, dr_Stats = \<lparr>ds_Processed = 0, ds_Success = 0, ds_NotFound = 0, ds_InProcess = 0\<rparr>\<rparr>
      else DeleteMessages rd dc ord messageIDs [])"

definition Manager_Delete :: "'s redis_server \<Rightarrow> decode_ctx \<Rightarrow> ((string \<times> string) list \<Rightarrow> (string \<times> string) list)
    \<Rightarrow> string \<Rightarrow> ('s, go_error, delete_response) io" where
  "Manager_Delete rd dc ord messageID = Manager_DeleteAll rd dc ord [messageID]"

subsection \<open>delete-message.lua\<close>

text \<open>Where a message with a given status is taken from, and the counter of that place.\<close>

definition del_place :: "string \<Rightarrow> string \<Rightarrow> string \<Rightarrow> mq \<Rightarrow> mq" where
  "del_place g m st A =
     (if st = itoa StatusAcknowledged then A\<lparr>mq_ack := remove1 m (mq_ack A)\<rparr>
      else if st = itoa StatusDeadLettered then A\<lparr>mq_dl := remove1 m (mq_dl A)\<rparr>
      else if st = itoa StatusScheduled then A\<lparr>mq_sched := fmdrop m (mq_sched A)\<rparr>
      else if st = itoa StatusUnackRequeuing then A\<lparr>mq_req := remove1 m (mq_req A)\<rparr>
      else if st = itoa StatusPending then
        (if mq_conf A F_Type = Some (itoa TypePriority)
         then A\<lparr>mq_prio := (mq_prio A)(g := fmdrop m (mq_prio A g))\<rparr>
         else A\<lparr>mq_pend := (mq_pend A)(g := remove1 m (mq_pend A g))\<rparr>)
      else A)"

definition del_counter :: "string \<Rightarrow> string option" where
  "del_counter st =
     (if st = itoa StatusAcknowledged then Some F_AcknowledgedMessagesCount
      else if st = itoa StatusDeadLettered then Some F_DeadLetteredMessagesCount
      else if st = itoa StatusScheduled then Some F_ScheduledMessagesCount
      else if st = itoa StatusUnackRequeuing then Some F_RequeuedMessagesCount
      else if st = itoa StatusPending then Some F_PendingMessagesCount
      else None)"

definition forget :: "string \<Rightarrow> mq \<Rightarrow> mq" where
  "forget m A = A\<lparr>mq_msg := (mq_msg A)(m := fmempty), mq_hist := (mq_hist A)(m := []), mq_pub := remove1 m (mq_pub A)\<rparr>"

definition do_delete :: "string \<Rightarrow> string \<Rightarrow> mq \<Rightarrow> mq" where
  "do_delete g m A =
     (case msg_status_of A m of
        None \<Rightarrow> A
      | Some st \<Rightarrow>
          if st = itoa StatusProcessing then A
          else let B = count F_MessagesCount (-1) (forget m (del_place g m st A)) in
            (case del_counter st of None \<Rightarrow> B | Some f \<Rightarrow> count f (-1) B))"

definition delete_round :: "string \<Rightarrow> string \<Rightarrow> (int \<times> int \<times> int \<times> int) \<times> mq \<Rightarrow> (int \<times> int \<times> int \<times> int) \<times> mq" where
  "delete_round g m = (\<lambda>((processed, success, notFound, inProcess), A).
     (case msg_status_of A m of
        None \<Rightarrow> (processed + 1, success, notFound + 1, inProcess)
      | Some st \<Rightarrow> if st = itoa StatusProcessing then (processed + 1, success, notFound, inProcess + 1)
          else (processed + 1, success + 1, notFound, inProcess),
      do_delete g m A))"

text \<open>No message of the batch waits for a delayed retry: for such a message the script fails.\<close>

definition delete_ready :: "mq \<Rightarrow> string list \<Rightarrow> bool" where
  "delete_ready A ids \<longleftrightarrow> room A (length ids) \<and> known_type A \<and>
     (\<forall>m \<in> set ids. plain_id m \<and> msg_status_of A m \<noteq> Some (itoa StatusUnackDelaying))"

lemma delete_nth:
  "nth1 (delete_keys q g ids) 1 = Queue_Properties q" "nth1 (delete_keys q g ids) 2 = Queue_Published q"
  "nth1 (delete_keys q g ids) 3 = pending_key q g" "nth1 (delete_keys q g ids) 4 = priority_key q g"
  "nth1 (delete_keys q g ids) 5 = Queue_Scheduled q" "nth1 (delete_keys q g ids) 6 = Queue_Acknowledged q"
  "nth1 (delete_keys q g ids) 7 = Queue_DeadLetter q" "nth1 (delete_keys q g ids) 8 = Queue_Delayed q"
  "nth1 (delete_keys q g ids) 9 = Queue_Requeued q"
  "nth1 (delete_args l ids) 1 = F_Type" "nth1 (delete_args l ids) 2 = F_MessagesCount"
  "nth1 (delete_args l ids) 3 = F_AcknowledgedMessagesCount" "nth1 (delete_args l ids) 4 = F_DeadLetteredMessagesCount"
  "nth1 (delete_args l ids) 5 = F_PendingMessagesCount" "nth1 (delete_args l ids) 6 = F_ScheduledMessagesCount"
  "nth1 (delete_args l ids) 7 = F_DelayedMessagesCount" "nth1 (delete_args l ids) 8 = F_RequeuedMessagesCount"
  "nth1 (delete_args l ids) 9 = itoa TypePriority" "nth1 (delete_args l ids) 10 = itoa TypeLIFO"
  "nth1 (delete_args l ids) 11 = itoa TypeFIFO" "nth1 (delete_args l ids) 12 = MF_Status"
  "nth1 (delete_args l ids) 13 = itoa StatusProcessing" "nth1 (delete_args l ids) 14 = itoa StatusAcknowledged"
  "nth1 (delete_args l ids) 15 = itoa StatusPending" "nth1 (delete_args l ids) 16 = itoa StatusScheduled"
  "nth1 (delete_args l ids) 17 = itoa StatusDeadLettered" "nth1 (delete_args l ids) 18 = itoa StatusUnackDelaying"
  "nth1 (delete_args l ids) 19 = itoa StatusUnackRequeuing" "nth1 (delete_args l ids) 20 = F_OperationalState"
  "nth1 (delete_args l ids) 21 = itoa StateLocked" "nth1 (delete_args l ids) 22 = F_LockID"
  "nth1 (delete_args l ids) 23 = l"
  by (simp_all add: delete_keys_def delete_args_def)

lemma delete_drops:
  "drop 9 (delete_keys q g ids) = concat (map (\<lambda>m. [System_Message m, System_MessageAcknowledgementHistory m]) ids)"
  "drop 23 (delete_args l ids) = ids"
  "length (delete_keys q g ids) - 9 = 2 * length ids" "length (delete_args l ids) - 23 = length ids"
  using length_concat_const [of ids "\<lambda>m. [System_Message m, System_MessageAcknowledgementHistory m]" 2]
  by (simp_all add: delete_keys_def delete_args_def)

lemma pair_nth1: "nth1 [a, b] 1 = a" "nth1 [a, b] 2 = b" "nth1 [a] 1 = a"
  by simp_all

lemma wp_delete_round:
  assumes ready: "delete_ready A (m # ids)"
  shows "wp q (delete_message_round (redis_apply en) (delete_keys q g vs) (delete_args l vs) (mq_conf A F_Type)
      [System_Message m, System_MessageAcknowledgementHistory m] [m] acc) A
    (\<lambda>r A'. r = Inr (fst (delete_round g m (acc, A))) \<and> A' = snd (delete_round g m (acc, A)))"
proof -
  have m: "plain_id m" "msg_status_of A m \<noteq> Some (itoa StatusUnackDelaying)" "known_type A"
    using ready by (auto simp: delete_ready_def)
  have room: "room A (Suc (length ids))" using ready by (simp add: delete_ready_def)
  have counts: "in_int64 (mq_cnt A f - 1)" if "f \<in> set counter_fields" for f
    using room_counts [OF room that] by (simp_all add: count_ok_def)
  have neq: "F_AcknowledgedMessagesCount \<noteq> F_MessagesCount" "F_DeadLetteredMessagesCount \<noteq> F_MessagesCount"
    "F_ScheduledMessagesCount \<noteq> F_MessagesCount" "F_RequeuedMessagesCount \<noteq> F_MessagesCount"
    "F_PendingMessagesCount \<noteq> F_MessagesCount"
    by (simp_all add: schema_defs)
  have types: "mq_conf A F_Type = Some (itoa TypePriority) \<or> mq_conf A F_Type = Some (itoa TypeFIFO) \<or>
      mq_conf A F_Type = Some (itoa TypeLIFO)"
    using m(3) by (auto simp: known_type_def)
  show ?thesis
    unfolding delete_message_round_def Let_def delete_nth pair_nth1
    by (intro wp_intros; use m(2) in \<open>simp add: m(1) msg_status_of_def delete_round_def do_delete_def counts count_ok_def\<close>;
        (intro wp_intros)?; use types in \<open>simp add: counts neq count_ok_def del_place_def del_counter_def forget_def Let_def enum_defs\<close>)
qed

definition lock_verdict :: "mq \<Rightarrow> string \<Rightarrow> string option" where
  "lock_verdict A lockID =
     (if mq_conf A F_OperationalState = Some (itoa StateLocked) then
        (if lockID = [] then Some ''QUEUE_LOCKED''
         else if or_empty (mq_conf A F_LockID) = [] \<or> or_empty (mq_conf A F_LockID) \<noteq> lockID then Some ''INVALID_LOCK''
         else None)
      else None)"

lemma do_delete_conf [simp]: "mq_conf (do_delete g m A) = mq_conf A"
  by (simp add: do_delete_def forget_def del_place_def Let_def split: option.split)

lemma do_delete_count: "\<exists>k. abs k \<le> 1 \<and> mq_cnt (do_delete g m A) f = mq_cnt A f + k"
proof -
  have "abs (mq_cnt (do_delete g m A) f - mq_cnt A f) \<le> 1"
    by (auto simp: do_delete_def forget_def del_place_def del_counter_def Let_def schema_defs split: option.split)
  then show ?thesis by (intro exI [of _ "mq_cnt (do_delete g m A) f - mq_cnt A f"]) simp
qed

lemma do_delete_status:
  "msg_status_of (do_delete g m A) m' = (if m' = m \<and> msg_status_of A m \<noteq> Some (itoa StatusProcessing) then None else msg_status_of A m')"
  by (auto simp: do_delete_def forget_def del_place_def msg_status_of_def Let_def split: option.split)

lemma delete_ready_round:
  assumes "delete_ready A (m # ids)"
  shows "delete_ready (snd (delete_round g m (acc, A))) ids"
proof -
  have "room (do_delete g m A) (length ids)"
    unfolding room_def
  proof
    fix f assume "f \<in> set counter_fields"
    with do_delete_count [of g m A f] assms
    show "- (2 ^ 63) + int (length ids) \<le> mq_cnt (do_delete g m A) f \<and> mq_cnt (do_delete g m A) f + int (length ids) \<le> 2 ^ 63 - 1"
      by (auto simp: delete_ready_def dest: room_count)
  qed
  with assms show ?thesis
    by (auto simp: delete_ready_def delete_round_def known_type_def do_delete_status split: prod.split)
qed

lemma delete_rounds: "snd (fold (delete_round g) ids s) = fold (do_delete g) ids (snd s)"
proof -
  have "snd (delete_round g m s) = do_delete g m (snd s)" for m s
    by (simp add: delete_round_def split: prod.split)
  then show ?thesis by (intro fold_fusion) simp
qed

text \<open>The reply: how many were looked at, deleted, missing, in process.\<close>

definition delete_counts :: "string \<Rightarrow> string list \<Rightarrow> mq \<Rightarrow> int \<times> int \<times> int \<times> int" where
  "delete_counts g ids A = fst (fold (delete_round g) ids ((0, 0, 0, 0), A))"

definition counts_reply :: "int \<times> int \<times> int \<times> int \<Rightarrow> reply" where
  "counts_reply = (\<lambda>(a, b, c, d). RArr (map RInt [a, b, c, d]))"

lemma wp_delete:
  assumes ready: "delete_ready A ids" and ids: "ids \<noteq> []"
  shows "wp q (lua_delete_message (redis_apply en) (delete_keys q g ids) (delete_args l ids)) A
    (\<lambda>r A'. case lock_verdict A l of
       Some err \<Rightarrow> r = RBulk err \<and> A' = A
     | None \<Rightarrow> r = counts_reply (delete_counts g ids A) \<and> A' = fold (do_delete g) ids A)"
proof -
  note loop = wp_loop [where ks = "\<lambda>m. [System_Message m, System_MessageAcknowledgementHistory m]" and as = "\<lambda>m. [m]"
      and f = "delete_round g" and P = "\<lambda>es acc B. delete_ready B es \<and> mq_conf B = mq_conf A" and es = ids]
  have body: "wp q (delete_message_round (redis_apply en) (delete_keys q g ids) (delete_args l ids) (mq_conf A F_Type)
      [System_Message m, System_MessageAcknowledgementHistory m] [m] acc) B
    (\<lambda>r A'. r = Inr (fst (delete_round g m (acc, B))) \<and> A' = snd (delete_round g m (acc, B)))"
    if "delete_ready B (m # rest) \<and> mq_conf B = mq_conf A" for B m rest acc
    using wp_delete_round [of B m rest q en g ids l acc] that by simp
  have conf: "mq_conf (snd (delete_round g m (acc, B))) = mq_conf B" for m acc B
    by (simp add: delete_round_def split: prod.split)
  have lists: "concat (map (\<lambda>m. [m]) ids) = ids"
    by (induction ids) simp_all
  show ?thesis
    unfolding lua_delete_message_def lua_lock_guard_def Let_def delete_nth delete_drops
    by (intro wp_intros loop; use body in \<open>simp add: ready conf lists ids lock_verdict_def delete_ready_round delete_rounds
        delete_counts_def [symmetric] counts_reply_def\<close>)
      (erule body)+
qed

subsection \<open>requeue-message.lua\<close>

text \<open>A copy of the message is published; the original keeps its status and records the copy.\<close>

definition do_copy :: "string \<Rightarrow> string \<Rightarrow> string \<Rightarrow> string \<Rightarrow> string \<Rightarrow> int \<Rightarrow> int \<Rightarrow> mq \<Rightarrow> mq" where
  "do_copy g m newID json prio ts requeuedAt A =
     set_fields m [(MF_RequeuedAt, itoa requeuedAt), (MF_LastRequeuedAt, itoa ts),
         (MF_RequeueCount, itoa (num_field (mq_msg A m) MF_RequeueCount + 1))]
       (do_publish g newID prio [] True
         (child_values newID (itoa StatusPending) json (itoa ts) [] (or_empty (fmlookup (mq_msg A m) MF_ID))) A)"

definition copy_verdict :: "mq \<Rightarrow> string \<Rightarrow> string \<Rightarrow> string \<Rightarrow> reply option" where
  "copy_verdict A g m prio =
     (case fmlookup (mq_msg A m) MF_ID of
        None \<Rightarrow> Some (RInt 0)
      | Some originalID \<Rightarrow>
          if \<not> group_ok A g then Some (RInt 0)
          else if publish_verdict A g prio True [] \<noteq> ''OK''
          then Some (RBulk (''REQUEUE_ERROR:'' @ originalID @ '':'' @ publish_verdict A g prio True []))
          else None)"

lemma requeue_nth:
  "nth1 (requeue_keys q g m n) 1 = Queue_Properties q" "nth1 (requeue_keys q g m n) 2 = priority_key q g"
  "nth1 (requeue_keys q g m n) 3 = pending_key q g" "nth1 (requeue_keys q g m n) 4 = Queue_Published q"
  "nth1 (requeue_keys q g m n) 5 = Queue_Scheduled q" "nth1 (requeue_keys q g m n) 6 = Queue_ConsumerGroups q"
  "drop 6 (requeue_keys q g m n) = [System_Message m, System_Message n]"
  "nth1 (requeue_msg_args n json p ts at g) 14 = itoa StatusScheduled"
  "nth1 (requeue_msg_args n json p ts at g) 15 = itoa StatusPending"
  "nth1 (requeue_msg_args n json p ts at g) 16 = MF_ID"
  "nth1 (requeue_msg_args n json p ts at g) 27 = MF_RequeuedAt"
  "nth1 (requeue_msg_args n json p ts at g) 28 = MF_RequeueCount"
  "nth1 (requeue_msg_args n json p ts at g) 29 = MF_LastRequeuedAt"
  "nth1 (requeue_msg_args n json p ts at g) 40 = []"
  "take 13 (requeue_msg_args n json p ts at g) = buildQueuePropertyArgs"
  "take 24 (drop 15 (requeue_msg_args n json p ts at g)) = buildMessagePropertyKeys"
  "drop 40 (requeue_msg_args n json p ts at g) = [n, json, p, itoa ts, itoa at, itoa ts, g]"
  by (simp_all add: requeue_keys_def requeue_msg_args_def buildQueuePropertyArgs_def buildMessagePropertyKeys_def)

lemma seven_nth1:
  "nth1 [a1, a2, a3, a4, a5, a6, a7] 1 = a1" "nth1 [a1, a2, a3, a4, a5, a6, a7] 2 = a2"
  "nth1 [a1, a2, a3, a4, a5, a6, a7] 3 = a3" "nth1 [a1, a2, a3, a4, a5, a6, a7] 4 = a4"
  "nth1 [a1, a2, a3, a4, a5, a6, a7] 5 = a5" "nth1 [a1, a2, a3, a4, a5, a6, a7] 6 = a6"
  "nth1 [a1, a2, a3, a4, a5, a6, a7] 7 = a7"
  by simp_all

lemma wp_copy_round:
  assumes m: "plain_id m" "plain_id n" "m \<noteq> n" and ok: "publishable A p [] True" "can_incr (mq_msg A m) MF_RequeueCount"
  shows "wp q (requeue_message_round (redis_apply en) (requeue_keys q g m n) (requeue_msg_args n json p ts at g)
      [System_Message m, System_Message n] [n, json, p, itoa ts, itoa at, itoa ts, g] 0) A
    (\<lambda>r A'. case copy_verdict A g m p of
       Some err \<Rightarrow> case_sum RBulk RInt r = err \<and> A' = A
     | None \<Rightarrow> r = Inr 1 \<and> A' = do_copy g m n json p ts at A)"
proof -
  have neq: "MF_RequeueCount \<noteq> MF_RequeuedAt" "MF_RequeueCount \<noteq> MF_LastRequeuedAt" by (simp_all add: schema_defs)
  have msg: "mq_msg (do_publish g n p [] True vals A) m = mq_msg A m" for vals
    using m(3) by (simp add: do_publish_def Let_def)
  show ?thesis
    unfolding requeue_message_round_def Let_def requeue_nth pair_nth1 seven_nth1
    by (intro wp_intros wp_publish_child; use m ok in \<open>simp add: copy_verdict_def do_copy_def group_ok_def neq msg
        numbers_hset_all set_fields_twice\<close>)
qed

lemma wp_requeue_message:
  assumes "plain_id m" "plain_id n" "m \<noteq> n" and "publishable A p [] True" "can_incr (mq_msg A m) MF_RequeueCount"
  shows "wp q (lua_requeue_message (redis_apply en) (requeue_keys q g m n) (requeue_msg_args n json p ts at g)) A
    (\<lambda>r A'. case copy_verdict A g m p of
       Some err \<Rightarrow> r = err \<and> A' = A
     | None \<Rightarrow> r = RInt 1 \<and> A' = do_copy g m n json p ts at A)"
proof -
  have tail: "wp q (case x of Inl s \<Rightarrow> lua_return s | Inr k \<Rightarrow> ret (RInt k)) B Q" if "Q (case_sum RBulk RInt x) B" for x B Q
    using that by (cases x) (simp_all add: wp_ret wp_lua_return)
  show ?thesis
    unfolding lua_requeue_message_def requeue_nth
    by (intro wp_intros wp_single wp_weaken [OF wp_copy_round [OF assms]] tail) (auto split: option.splits)
qed

end
