(* ===== verification/Message_Lifecycle.thy ===== *)
theory Message_Lifecycle
  imports Message_Store
begin

text \<open>
  The life of the messages of one queue under the scripts of all its clients. A message is in at most
  one place (a pending list, a schedule, the processing list of a consumer, \<dots>), its status says which,
  and the counters of the queue are the numbers of messages with each status. The operations of
  \<open>Publishing\<close>, \<open>Consuming\<close>, \<open>Requeuing\<close>, \<open>Scheduling\<close> and \<open>Message_Store\<close> keep this, one by one and
  in batches, in whatever order clients run them; so no message is lost or duplicated on its way, and
  no counter leaves its range.
\<close>

subsection \<open>Places and statuses\<close>

datatype place = Pend string | Prio string | Sched | Dly | Req | Ack | Dead | Proc string

definition at_place :: "mq \<Rightarrow> place \<Rightarrow> string set" where
  "at_place A p = (case p of
     Pend g \<Rightarrow> set (mq_pend A g) | Prio g \<Rightarrow> fset (fmdom (mq_prio A g)) | Sched \<Rightarrow> fset (fmdom (mq_sched A))
   | Dly \<Rightarrow> fset (fmdom (mq_dly A)) | Req \<Rightarrow> set (mq_req A) | Ack \<Rightarrow> set (mq_ack A) | Dead \<Rightarrow> set (mq_dl A)
   | Proc c \<Rightarrow> set (mq_proc A c))"

text \<open>A message that a consumer has taken but not yet checked out is still pending.\<close>

definition place_statuses :: "place \<Rightarrow> int set" where
  "place_statuses p = (case p of
     Pend g \<Rightarrow> {StatusPending} | Prio g \<Rightarrow> {StatusPending} | Sched \<Rightarrow> {StatusScheduled} | Dly \<Rightarrow> {StatusUnackDelaying}
   | Req \<Rightarrow> {StatusUnackRequeuing} | Ack \<Rightarrow> {StatusAcknowledged} | Dead \<Rightarrow> {StatusDeadLettered}
   | Proc c \<Rightarrow> {StatusPending, StatusProcessing})"

definition status_counter :: "int \<Rightarrow> string" where
  "status_counter s =
     (if s = StatusPending then F_PendingMessagesCount else if s = StatusProcessing then F_ProcessingMessagesCount
      else if s = StatusScheduled then F_ScheduledMessagesCount else if s = StatusAcknowledged then F_AcknowledgedMessagesCount
      else if s = StatusUnackRequeuing then F_RequeuedMessagesCount else if s = StatusUnackDelaying then F_DelayedMessagesCount
      else F_DeadLetteredMessagesCount)"

definition live_statuses :: "int set" where
  "live_statuses = {StatusPending, StatusProcessing, StatusScheduled, StatusUnackRequeuing, StatusUnackDelaying}"

definition final_statuses :: "int set" where
  "final_statuses = {StatusAcknowledged, StatusDeadLettered}"

text \<open>The state of all messages, apart from the order in the lists: the published ids, the status of
  each, what is where, and the counters.\<close>

definition tally :: "string list \<Rightarrow> (string \<Rightarrow> string option) \<Rightarrow> int \<Rightarrow> nat" where
  "tally pub sts s = length (filter (\<lambda>m. sts m = Some (itoa s)) pub)"

definition life :: "string list \<Rightarrow> (string \<Rightarrow> string option) \<Rightarrow> (place \<Rightarrow> string set) \<Rightarrow> (string \<Rightarrow> int) \<Rightarrow> bool" where
  "life pub sts at cnt \<longleftrightarrow>
     distinct pub \<and>
     (\<forall>m \<in> set pub. \<exists>s \<in> live_statuses \<union> final_statuses. sts m = Some (itoa s)) \<and>
     (\<forall>p m. m \<in> at p \<longrightarrow> m \<in> set pub \<and> (\<exists>s \<in> place_statuses p. sts m = Some (itoa s)) \<or>
        (\<exists>c. p = Proc c) \<and> m \<notin> set pub \<and> sts m = None) \<and>
     (\<forall>p p' m. m \<in> at p \<longrightarrow> m \<in> at p' \<longrightarrow> p = p') \<and>
     (\<forall>m \<in> set pub. \<forall>s \<in> live_statuses. sts m = Some (itoa s) \<longrightarrow> (\<exists>p. m \<in> at p)) \<and>
     cnt F_MessagesCount = int (length pub) \<and>
     (\<forall>s \<in> live_statuses \<union> final_statuses. cnt (status_counter s) = int (tally pub sts s))"

lemmas status_defs = live_statuses_def final_statuses_def status_counter_def place_statuses_def

text \<open>The lists hold an id at most once.\<close>

definition tidy :: "mq \<Rightarrow> bool" where
  "tidy A \<longleftrightarrow> (\<forall>g. distinct (mq_pend A g)) \<and> (\<forall>c. distinct (mq_proc A c)) \<and> distinct (mq_req A) \<and>
     distinct (mq_ack A) \<and> distinct (mq_dl A)"

definition lively :: "mq \<Rightarrow> bool" where
  "lively A \<longleftrightarrow> tidy A \<and> life (mq_pub A) (msg_status_of A) (at_place A) (mq_cnt A)"

subsection \<open>Moves\<close>

lemma status_counter_inj:
  "s \<in> live_statuses \<union> final_statuses \<Longrightarrow> s' \<in> live_statuses \<union> final_statuses \<Longrightarrow>
     status_counter s = status_counter s' \<longleftrightarrow> s = s'"
  by (auto simp: status_defs enum_defs schema_defs)

lemma status_counter_total: "status_counter s \<noteq> F_MessagesCount"
  by (simp add: status_defs schema_defs)

lemma tally_simps [simp]:
  "tally [] sts t = 0" "tally (x # pub) sts t = tally pub sts t + (if sts x = Some (itoa t) then 1 else 0)"
  "tally (xs @ ys) sts t = tally xs sts t + tally ys sts t"
  by (simp_all add: tally_def)

lemma tally_cong: "(\<And>x. x \<in> set pub \<Longrightarrow> sts x = sts' x) \<Longrightarrow> tally pub sts t = tally pub sts' t"
  by (induction pub) auto

lemma tally_update:
  assumes "distinct pub" and "m \<in> set pub" and "sts m = Some (itoa s)"
    and "sts' m = Some (itoa s')" and "\<And>x. x \<noteq> m \<Longrightarrow> sts' x = sts x"
  shows "int (tally pub sts' t) = int (tally pub sts t) - (if t = s then 1 else 0) + (if t = s' then 1 else 0)"
  using assms(1,2)
proof (induction pub)
  case (Cons x pub)
  show ?case
  proof (cases "x = m")
    case True
    with Cons.prems have "tally pub sts' t = tally pub sts t" by (intro tally_cong) (auto intro: assms(5))
    with True assms(3,4) show ?thesis by simp
  qed (use Cons assms(5) in simp)
qed simp

lemma tally_remove:
  assumes "m \<in> set pub" and "sts m = Some (itoa s)"
  shows "int (tally (remove1 m pub) sts t) = int (tally pub sts t) - (if t = s then 1 else 0)"
  using assms by (induction pub) auto

text \<open>A message changes its status and place: it is taken from wherever it is and put to \<open>p'\<close>, unless it
  is finished and not kept; lists of finished messages may lose entries.\<close>

definition moves_to :: "string \<Rightarrow> place \<Rightarrow> (place \<Rightarrow> string set) \<Rightarrow> (place \<Rightarrow> string set) \<Rightarrow> bool" where
  "moves_to m p' at at' \<longleftrightarrow>
     (\<forall>p x. x \<in> at' p \<longrightarrow> x = m \<and> p = p' \<or> x \<noteq> m \<and> x \<in> at p) \<and>
     (\<forall>p x. x \<noteq> m \<longrightarrow> x \<in> at p \<longrightarrow> p \<noteq> Ack \<longrightarrow> p \<noteq> Dead \<longrightarrow> x \<in> at' p) \<and>
     (p' \<noteq> Ack \<longrightarrow> p' \<noteq> Dead \<longrightarrow> m \<in> at' p')"

definition recount :: "int \<Rightarrow> int \<Rightarrow> (string \<Rightarrow> int) \<Rightarrow> (string \<Rightarrow> int) \<Rightarrow> bool" where
  "recount s s' cnt cnt' \<longleftrightarrow> cnt' F_MessagesCount = cnt F_MessagesCount \<and>
     (\<forall>t \<in> live_statuses \<union> final_statuses. cnt' (status_counter t) =
        cnt (status_counter t) - (if t = s then 1 else 0) + (if t = s' then 1 else 0))"

lemma life_move:
  assumes life: "life pub sts at cnt" and m: "m \<in> set pub" "sts m = Some (itoa s)"
    and to: "moves_to m p' at at'" "s' \<in> place_statuses p'" and cnt: "recount s s' cnt cnt'"
  shows "life pub (sts(m \<mapsto> itoa s')) at' cnt'"
proof -
  have dist: "distinct pub" and stat: "\<And>x. x \<in> set pub \<Longrightarrow> \<exists>s \<in> live_statuses \<union> final_statuses. sts x = Some (itoa s)"
    and placed: "\<And>p x. x \<in> at p \<Longrightarrow> x \<in> set pub \<and> (\<exists>s \<in> place_statuses p. sts x = Some (itoa s)) \<or>
        (\<exists>c. p = Proc c) \<and> x \<notin> set pub \<and> sts x = None"
    and one: "\<And>p p' x. x \<in> at p \<Longrightarrow> x \<in> at p' \<Longrightarrow> p = p'"
    and kept: "\<And>x s. x \<in> set pub \<Longrightarrow> s \<in> live_statuses \<Longrightarrow> sts x = Some (itoa s) \<Longrightarrow> \<exists>p. x \<in> at p"
    and counts: "cnt F_MessagesCount = int (length pub)"
      "\<And>s. s \<in> live_statuses \<union> final_statuses \<Longrightarrow> cnt (status_counter s) = int (tally pub sts s)"
    using life unfolding life_def by blast+
  have s': "s' \<in> live_statuses \<union> final_statuses"
    using to(2) by (cases p') (auto simp: status_defs)
  have fin: "s \<notin> live_statuses" if "s \<in> place_statuses Ack \<union> place_statuses Dead" for s
    using that by (auto simp: status_defs enum_defs)
  have live': "p' \<noteq> Ack \<and> p' \<noteq> Dead" if "s' \<in> live_statuses"
    using that to(2) fin by auto
  have new: "\<exists>p. x \<in> at' p" if x: "x \<in> set pub" "t \<in> live_statuses" "(sts(m \<mapsto> itoa s')) x = Some (itoa t)" for x t
  proof (cases "x = m")
    case True
    with x have "s' \<in> live_statuses" by simp
    with live' to(1) show ?thesis using True by (auto simp: moves_to_def)
  next
    case False
    with x kept obtain p where p: "x \<in> at p" by fastforce
    with placed x False have "t \<in> place_statuses p" by fastforce
    with x(2) fin have "p \<noteq> Ack" "p \<noteq> Dead" by blast+
    with p False to(1) have "x \<in> at' p" unfolding moves_to_def by blast
    then show ?thesis ..
  qed
  have from_at: "x = m \<and> p = p' \<or> x \<noteq> m \<and> x \<in> at p" if "x \<in> at' p" for p x
    using to(1) that unfolding moves_to_def by blast
  have placed': "x \<in> set pub \<and> (\<exists>s \<in> place_statuses p. (sts(m \<mapsto> itoa s')) x = Some (itoa s)) \<or>
      (\<exists>c. p = Proc c) \<and> x \<notin> set pub \<and> (sts(m \<mapsto> itoa s')) x = None" if "x \<in> at' p" for p x
    using from_at [OF that] placed [of x p] m(1) to(2) by auto
  have one': "p = p''" if "x \<in> at' p" "x \<in> at' p''" for p p'' x
    using from_at [OF that(1)] from_at [OF that(2)] one by blast
  have stat': "\<exists>s \<in> live_statuses \<union> final_statuses. (sts(m \<mapsto> itoa s')) x = Some (itoa s)" if "x \<in> set pub" for x
    using stat [OF that] s' by auto
  have tally': "cnt' (status_counter t) = int (tally pub (sts(m \<mapsto> itoa s')) t)" if "t \<in> live_statuses \<union> final_statuses" for t
    using cnt that counts(2) [OF that] tally_update [where sts = sts and sts' = "sts(m \<mapsto> itoa s')" and t = t, OF dist m]
    unfolding recount_def by simp
  have total: "cnt' F_MessagesCount = int (length pub)" using cnt counts(1) by (simp add: recount_def)
  show ?thesis
    unfolding life_def
    by (intro conjI ballI allI impI dist stat' placed' one' total tally' new)
qed

lemma lifeD:
  assumes "life pub sts at cnt"
  shows "distinct pub"
    "m \<in> set pub \<Longrightarrow> \<exists>s \<in> live_statuses \<union> final_statuses. sts m = Some (itoa s)"
    "m \<in> at p \<Longrightarrow> m \<in> set pub \<and> (\<exists>s \<in> place_statuses p. sts m = Some (itoa s)) \<or>
       (\<exists>c. p = Proc c) \<and> m \<notin> set pub \<and> sts m = None"
    "m \<in> at p \<Longrightarrow> m \<in> at p' \<Longrightarrow> p = p'"
    "m \<in> set pub \<Longrightarrow> s \<in> live_statuses \<Longrightarrow> sts m = Some (itoa s) \<Longrightarrow> \<exists>p. m \<in> at p"
    "cnt F_MessagesCount = int (length pub)"
    "s \<in> live_statuses \<union> final_statuses \<Longrightarrow> cnt (status_counter s) = int (tally pub sts s)"
  using assms unfolding life_def by blast+

text \<open>A new message.\<close>

lemma life_add:
  assumes life: "life pub sts at cnt" and m: "m \<notin> set pub" "\<And>p. m \<notin> at p"
    and at': "\<And>p. at' p = (if p = p' then insert m (at p) else at p)" and s': "s' \<in> place_statuses p'"
    and cnt: "cnt' F_MessagesCount = cnt F_MessagesCount + 1"
      "\<And>t. t \<in> live_statuses \<union> final_statuses \<Longrightarrow> cnt' (status_counter t) = cnt (status_counter t) + (if t = s' then 1 else 0)"
  shows "life (pub @ [m]) (sts(m \<mapsto> itoa s')) at' cnt'"
proof -
  note old = lifeD [OF life]
  have s'': "s' \<in> live_statuses \<union> final_statuses" using s' by (cases p') (auto simp: status_defs)
  have tally': "tally pub (sts(m \<mapsto> itoa s')) t = tally pub sts t" for t
    using m(1) by (intro tally_cong) auto
  have stat: "\<exists>s \<in> live_statuses \<union> final_statuses. (sts(m \<mapsto> itoa s')) x = Some (itoa s)" if "x \<in> set (pub @ [m])" for x
    using that old(2) [of x] s'' by auto
  have placed: "x \<in> set (pub @ [m]) \<and> (\<exists>s \<in> place_statuses p. (sts(m \<mapsto> itoa s')) x = Some (itoa s)) \<or>
      (\<exists>c. p = Proc c) \<and> x \<notin> set (pub @ [m]) \<and> (sts(m \<mapsto> itoa s')) x = None" if "x \<in> at' p" for p x
    using that old(3) [of x p] s' m(2) by (auto simp: at' split: if_splits)
  have one: "p = p''" if "x \<in> at' p" "x \<in> at' p''" for p p'' x
    using that old(4) [of x p p''] m(2) by (auto simp: at' split: if_splits)
  have kept: "\<exists>p. x \<in> at' p" if x: "x \<in> set (pub @ [m])" "s \<in> live_statuses" "(sts(m \<mapsto> itoa s')) x = Some (itoa s)" for x s
  proof (cases "x = m")
    case True
    then have "x \<in> at' p'" by (simp add: at')
    then show ?thesis ..
  next
    case False
    with x old(5) [of x s] obtain p where "x \<in> at p" by auto
    then have "x \<in> at' p" by (auto simp: at')
    then show ?thesis ..
  qed
  have counts: "cnt' (status_counter s) = int (tally (pub @ [m]) (sts(m \<mapsto> itoa s')) s)"
    if "s \<in> live_statuses \<union> final_statuses" for s
    using cnt(2) [OF that] old(7) [OF that] tally' [of s] by simp
  have total: "cnt' F_MessagesCount = int (length (pub @ [m]))" and dist: "distinct (pub @ [m])"
    using cnt(1) old(6) old(1) m(1) by simp_all
  show ?thesis
    unfolding life_def by (intro conjI ballI allI impI dist stat placed one total counts kept)
qed

text \<open>A message is forgotten; the processing list of a consumer may still name it.\<close>

lemma life_forget:
  assumes life: "life pub sts at cnt" and m: "m \<in> set pub" "sts m = Some (itoa s)"
    and at': "\<And>p x. x \<noteq> m \<Longrightarrow> x \<in> at' p \<longleftrightarrow> x \<in> at p" "\<And>p. m \<in> at' p \<Longrightarrow> m \<in> at p \<and> (\<exists>c. p = Proc c)"
    and cnt: "cnt' F_MessagesCount = cnt F_MessagesCount - 1"
      "\<And>t. t \<in> live_statuses \<union> final_statuses \<Longrightarrow> cnt' (status_counter t) = cnt (status_counter t) - (if t = s then 1 else 0)"
  shows "life (remove1 m pub) (sts(m := None)) at' cnt'"
proof -
  note old = lifeD [OF life]
  have pub: "x \<in> set (remove1 m pub) \<longleftrightarrow> x \<in> set pub \<and> x \<noteq> m" for x using old(1) by auto
  have stat: "\<exists>s \<in> live_statuses \<union> final_statuses. (sts(m := None)) x = Some (itoa s)" if "x \<in> set (remove1 m pub)" for x
    using that old(2) [of x] by (simp add: pub)
  have placed: "x \<in> set (remove1 m pub) \<and> (\<exists>s \<in> place_statuses p. (sts(m := None)) x = Some (itoa s)) \<or>
      (\<exists>c. p = Proc c) \<and> x \<notin> set (remove1 m pub) \<and> (sts(m := None)) x = None" if "x \<in> at' p" for p x
    using that old(3) [of x p] at'(1) [of x p] at'(2) [of p] by (cases "x = m") (auto simp: pub)
  have sub: "x \<in> at p" if "x \<in> at' p" for x p using that at'(1) [of x p] at'(2) [of p] by (cases "x = m") auto
  have one: "p = p''" if "x \<in> at' p" "x \<in> at' p''" for p p'' x
    using that [THEN sub] old(4) by blast
  have kept: "\<exists>p. x \<in> at' p" if x: "x \<in> set (remove1 m pub)" "t \<in> live_statuses" "(sts(m := None)) x = Some (itoa t)" for x t
    using old(5) [of x t] x at'(1) [of x] by (auto simp: pub)
  have "tally (remove1 m pub) (sts(m := None)) t = tally (remove1 m pub) sts t" for t
    by (rule tally_cong) (simp add: pub)
  then have counts: "cnt' (status_counter t) = int (tally (remove1 m pub) (sts(m := None)) t)"
    if "t \<in> live_statuses \<union> final_statuses" for t
    using cnt(2) [OF that] old(7) [OF that] tally_remove [where sts = sts and t = t, OF m] by simp
  have total: "cnt' F_MessagesCount = int (length (remove1 m pub))" and dist: "distinct (remove1 m pub)"
    using cnt(1) old(6) old(1) m(1) length_remove1_diff [of pub m] by simp_all
  show ?thesis
    unfolding life_def by (intro conjI ballI allI impI dist stat placed one total counts kept)
qed

subsection \<open>The operations\<close>

lemma at_place_simps [simp]:
  "at_place A (Pend g) = set (mq_pend A g)" "at_place A (Prio g) = fset (fmdom (mq_prio A g))"
  "at_place A Sched = fset (fmdom (mq_sched A))" "at_place A Dly = fset (fmdom (mq_dly A))"
  "at_place A Req = set (mq_req A)" "at_place A Ack = set (mq_ack A)" "at_place A Dead = set (mq_dl A)"
  "at_place A (Proc c) = set (mq_proc A c)"
  by (simp_all add: at_place_def)

lemma at_place_frame [simp]: "at_place (count f n A) = at_place A" "at_place (set_fields m fs A) = at_place A"
  by (rule ext; simp add: at_place_def split: place.split)+

lemma tidy_frame [simp]: "tidy (count f n A) = tidy A" "tidy (set_fields m fs A) = tidy A"
  by (simp_all add: tidy_def)

lemma status_frame [simp]: "msg_status_of (count f n A) = msg_status_of A"
  by (simp add: msg_status_of_def fun_eq_iff)

lemma status_set_fields:
  "msg_status_of (set_fields m fvs A) = (msg_status_of A)(m := fmlookup (hset_all fvs (mq_msg A m)) MF_Status)"
  by (simp add: msg_status_of_def fun_eq_iff)

lemma hset_all_in:
  assumes "distinct (map fst fvs)" and "(f, v) \<in> set fvs"
  shows "fmlookup (hset_all fvs h) f = Some v"
  using assms
proof (induction fvs arbitrary: h)
  case (Cons fv fvs)
  obtain f' v' where fv: "fv = (f', v')" by fastforce
  have step: "hset_all (fv # fvs) h = hset_all fvs (fmupd f' v' h)" by (simp add: fv hset_all_def)
  show ?case
  proof (cases "(f, v) \<in> set fvs")
    case True
    with Cons show ?thesis by (simp add: step)
  next
    case False
    with Cons.prems have "f = f'" "v = v'" "f \<notin> fst ` set fvs" by (auto simp: fv)
    then show ?thesis by (simp add: step field_hset_all)
  qed
qed simp

definition pending_place :: "mq \<Rightarrow> string \<Rightarrow> place" where
  "pending_place A g = (if mq_conf A F_Type = Some (itoa TypePriority) then Prio g else Pend g)"

lemma put_pending_place: "at_place (put_pending g m prio A) p = (if p = pending_place A g then insert m (at_place A p) else at_place A p)"
  by (cases p) (auto simp: put_pending_def pending_place_def)

definition fresh :: "mq \<Rightarrow> string \<Rightarrow> bool" where
  "fresh A m \<longleftrightarrow> m \<notin> set (mq_pub A) \<and> (\<forall>p. m \<notin> at_place A p)"

lemma distinct_keys: "distinct buildMessagePropertyKeys"
  by (simp add: buildMessagePropertyKeys_def schema_defs)

lemma published_status:
  assumes "length vals = 24"
  shows "fmlookup (hset_all (zip buildMessagePropertyKeys vals) h) MF_Status = Some (nth1 vals 2)"
proof (rule hset_all_in)
  show "distinct (map fst (zip buildMessagePropertyKeys vals))" using assms distinct_keys by simp
  have "buildMessagePropertyKeys ! 1 = MF_Status" by (simp add: buildMessagePropertyKeys_def)
  then show "(MF_Status, nth1 vals 2) \<in> set (zip buildMessagePropertyKeys vals)"
    using assms by (auto simp: in_set_zip nth1_def intro!: exI [of _ 1])
qed

lemma lively_publish:
  assumes A: "lively A" and m: "fresh A m" and vals: "length vals = 24"
    "nth1 vals 2 = itoa (if pending then StatusPending else StatusScheduled)"
  shows "lively (do_publish g m prio ts pending vals A)" (is "lively ?B")
proof -
  define s where "s = (if pending then StatusPending else StatusScheduled)"
  define p' where "p' = (if pending then pending_place A g else Sched)"
  have status: "msg_status_of ?B = (msg_status_of A)(m \<mapsto> itoa s)"
    using vals by (auto simp: do_publish_def Let_def status_set_fields published_status s_def msg_status_of_def put_pending_def)
  have at: "at_place ?B p = (if p = p' then insert m (at_place A p) else at_place A p)" for p
    by (cases p) (auto simp: do_publish_def Let_def p'_def put_pending_def pending_place_def)
  have cnt: "mq_cnt ?B F_MessagesCount = mq_cnt A F_MessagesCount + 1"
    "mq_cnt ?B (status_counter t) = mq_cnt A (status_counter t) + (if t = s then 1 else 0)"
    if "t \<in> live_statuses \<union> final_statuses" for t
    using that by (auto simp: do_publish_def Let_def s_def status_defs enum_defs schema_defs put_pending_def)
  have tidy: "tidy ?B"
    using A m by (auto simp: lively_def tidy_def fresh_def do_publish_def Let_def put_pending_def dest: spec [of _ "Pend g"])
  have "life (mq_pub A @ [m]) ((msg_status_of A)(m \<mapsto> itoa s)) (at_place ?B) (mq_cnt ?B)"
  proof (rule life_add [where p' = p'])
    show "life (mq_pub A) (msg_status_of A) (at_place A) (mq_cnt A)" using A by (simp add: lively_def)
    show "s \<in> place_statuses p'" by (simp add: s_def p'_def pending_place_def place_statuses_def)
  qed (use m at cnt in \<open>auto simp: fresh_def status_defs\<close>)
  moreover have "mq_pub ?B = mq_pub A @ [m]" by (simp add: do_publish_def Let_def put_pending_def)
  ultimately show ?thesis using tidy status by (simp add: lively_def)
qed

text \<open>A message goes from \<open>p\<close> to another place \<open>p'\<close>, or stays where it is with another status.\<close>

lemma moves_toI:
  assumes "\<And>p''. m \<in> at p'' \<Longrightarrow> p'' = p"
    and "\<And>p''. at' p'' = (if p'' = p' then at' p' else at p'' - {m})"
    and "at' p' \<subseteq> insert m (at p')" and "p' \<noteq> Ack \<Longrightarrow> p' \<noteq> Dead \<Longrightarrow> at' p' = insert m (at p')"
  shows "moves_to m p' at at'"
proof -
  have "x = m \<and> p'' = p' \<or> x \<noteq> m \<and> x \<in> at p''" if "x \<in> at' p''" for x p''
    using that assms(2) [of p''] assms(3) by (cases "p'' = p'") auto
  moreover have "x \<in> at' p''" if "x \<noteq> m" "x \<in> at p''" "p'' \<noteq> Ack" "p'' \<noteq> Dead" for x p''
    using that assms(2) [of p''] assms(4) by (cases "p'' = p'") auto
  ultimately show ?thesis using assms(4) unfolding moves_to_def by blast
qed

lemma lively_move:
  assumes A: "lively A" and m: "m \<in> at_place A p" "m \<in> set (mq_pub A)" "msg_status_of A m = Some (itoa s)"
    and B: "mq_pub B = mq_pub A" "msg_status_of B = (msg_status_of A)(m \<mapsto> itoa s')" "tidy B"
    and at: "\<And>p''. p'' \<noteq> p \<Longrightarrow> p'' \<noteq> p' \<Longrightarrow> at_place B p'' = at_place A p''"
      "p \<noteq> p' \<Longrightarrow> at_place B p = at_place A p - {m}" "at_place B p' \<subseteq> insert m (at_place A p')"
      "p' \<noteq> Ack \<Longrightarrow> p' \<noteq> Dead \<Longrightarrow> at_place B p' = insert m (at_place A p')"
    and s': "s' \<in> place_statuses p'" and cnt: "recount s s' (mq_cnt A) (mq_cnt B)"
  shows "lively B"
proof -
  have life: "life (mq_pub A) (msg_status_of A) (at_place A) (mq_cnt A)" using A by (simp add: lively_def)
  have only: "p'' = p" if "m \<in> at_place A p''" for p'' using lifeD(4) [OF life m(1) that] by simp
  have at': "at_place B p'' = (if p'' = p' then at_place B p' else at_place A p'' - {m})" for p''
    using at(1) [of p''] at(2) only [of p''] by (cases "p'' = p") auto
  show ?thesis
    using life_move [OF life m(2,3) moves_toI [OF only at' at(3,4)] s' cnt] B by (simp add: lively_def)
qed

lemma lively_placed:
  assumes "lively A" and "m \<in> at_place A p" and "\<nexists>c. p = Proc c"
  shows "m \<in> set (mq_pub A)" "\<exists>s \<in> place_statuses p. msg_status_of A m = Some (itoa s)"
  using assms lifeD(3) [of "mq_pub A" "msg_status_of A" "at_place A" "mq_cnt A" m p] by (auto simp: lively_def)

lemma lively_unique: "lively A \<Longrightarrow> m \<in> at_place A p \<Longrightarrow> m \<in> at_place A p' \<Longrightarrow> p = p'"
  using lifeD(4) [of "mq_pub A" "msg_status_of A" "at_place A" "mq_cnt A" m p p'] by (auto simp: lively_def)

lemma recount_same: "recount s s cnt cnt"
  by (simp add: recount_def)

lemma tidy_distinct:
  assumes "tidy A"
  shows "distinct (mq_pend A g)" "distinct (mq_proc A c)" "distinct (mq_req A)" "distinct (mq_ack A)" "distinct (mq_dl A)"
  using assms by (simp_all add: tidy_def)

definition pop_pending :: "string \<Rightarrow> string \<Rightarrow> mq \<Rightarrow> mq" where
  "pop_pending g c A =
     (if mq_pend A g = [] then A
      else A\<lparr>mq_pend := (mq_pend A)(g := butlast (mq_pend A g)), mq_proc := (mq_proc A)(c := last (mq_pend A g) # mq_proc A c)\<rparr>)"

lemma lively_pop:
  assumes A: "lively A"
  shows "lively (pop_pending g c A)"
proof (cases "mq_pend A g = []")
  case False
  then obtain xs m where xs: "mq_pend A g = xs @ [m]" by (metis append_butlast_last_id)
  let ?B = "A\<lparr>mq_pend := (mq_pend A)(g := xs), mq_proc := (mq_proc A)(c := m # mq_proc A c)\<rparr>"
  have m: "m \<in> at_place A (Pend g)" by (simp add: xs)
  have tidy: "tidy A" "m \<notin> set xs" using A tidy_distinct(1) [of A g] by (simp_all add: lively_def xs)
  have free: "m \<notin> set (mq_proc A c)" using lively_unique [OF A m, of "Proc c"] by auto
  have st: "msg_status_of A m = Some (itoa StatusPending)" "m \<in> set (mq_pub A)"
    using lively_placed [OF A m] by (auto simp: place_statuses_def)
  have "lively ?B"
  proof (rule lively_move [OF A m st(2,1), where s' = StatusPending and p' = "Proc c"])
    show "tidy ?B" using tidy free xs tidy_distinct(1) [of A g] by (auto simp: tidy_def)
    show "at_place ?B p'' = at_place A p''" if "p'' \<noteq> Pend g" "p'' \<noteq> Proc c" for p''
      using that by (cases p'') auto
  qed (use st xs tidy in \<open>auto simp: recount_same place_statuses_def msg_status_of_def fun_eq_iff\<close>)
  then show ?thesis using False by (simp add: pop_pending_def xs)
qed (use A in \<open>simp add: pop_pending_def\<close>)

definition pop_priority :: "string \<Rightarrow> string \<Rightarrow> mq \<Rightarrow> mq" where
  "pop_priority g c A =
     (if mq_prio A g = fmempty then A
      else let m = snd (hd (zset_list (mq_prio A g))) in
        A\<lparr>mq_prio := (mq_prio A)(g := fmdrop m (mq_prio A g)), mq_proc := (mq_proc A)(c := m # mq_proc A c)\<rparr>)"

lemma zset_list_first:
  assumes "z \<noteq> fmempty"
  shows "zset_list z \<noteq> []" "snd (hd (zset_list z)) |\<in>| fmdom z"
proof -
  have set: "set (zset_list z) = (\<lambda>m. (the (fmlookup z m), m)) ` fset (fmdom z)"
    by (simp add: zset_list_def sorted_list_of_fset.rep_eq)
  have "fmdom z \<noteq> {||}" using assms by (simp add: fmdom_eq_fempty)
  with set show ne: "zset_list z \<noteq> []" by auto
  then have "hd (zset_list z) \<in> set (zset_list z)" by simp
  then show "snd (hd (zset_list z)) |\<in>| fmdom z" unfolding set by auto
qed

lemma lively_zpop:
  assumes A: "lively A"
  shows "lively (pop_priority g c A)"
proof (cases "mq_prio A g = fmempty")
  case False
  define m where "m = snd (hd (zset_list (mq_prio A g)))"
  let ?B = "A\<lparr>mq_prio := (mq_prio A)(g := fmdrop m (mq_prio A g)), mq_proc := (mq_proc A)(c := m # mq_proc A c)\<rparr>"
  have m: "m \<in> at_place A (Prio g)" using zset_list_first(2) [OF False] by (simp add: m_def)
  have free: "m \<notin> set (mq_proc A c)" using lively_unique [OF A m, of "Proc c"] by auto
  have st: "msg_status_of A m = Some (itoa StatusPending)" "m \<in> set (mq_pub A)"
    using lively_placed [OF A m] by (auto simp: place_statuses_def)
  have "lively ?B"
  proof (rule lively_move [OF A m st(2,1), where s' = StatusPending and p' = "Proc c"])
    show "tidy ?B" using A free by (auto simp: tidy_def lively_def)
    show "at_place ?B p'' = at_place A p''" if "p'' \<noteq> Prio g" "p'' \<noteq> Proc c" for p''
      using that by (cases p'') auto
  qed (use st in \<open>auto simp: recount_same place_statuses_def msg_status_of_def fun_eq_iff\<close>)
  then show ?thesis using False by (simp add: pop_priority_def m_def Let_def)
qed (use A in \<open>simp add: pop_priority_def\<close>)

lemma lively_checkout:
  assumes A: "lively A" and m: "m \<in> set (mq_proc A c)" "msg_status_of A m = Some (itoa StatusPending)"
  shows "lively (do_checkout now m A)" (is "lively ?B")
proof -
  have pub: "m \<in> set (mq_pub A)"
    using A m lifeD(3) [of "mq_pub A" "msg_status_of A" "at_place A" "mq_cnt A" m "Proc c"] by (auto simp: lively_def)
  have "fmlookup (hset_all (checkout_fields now h) h) MF_Status = Some (itoa StatusProcessing)" for h
    by (rule hset_all_in) (auto simp: checkout_fields_def schema_defs)
  then have status: "msg_status_of ?B = (msg_status_of A)(m \<mapsto> itoa StatusProcessing)"
    by (simp add: do_checkout_def status_set_fields)
  have cnt: "recount StatusPending StatusProcessing (mq_cnt A) (mq_cnt ?B)"
    by (auto simp: recount_def do_checkout_def status_defs enum_defs schema_defs)
  show ?thesis
    by (rule lively_move [OF A _ pub m(2), where p = "Proc c" and p' = "Proc c", OF _ _ status _ _ _ _ _ _ cnt])
      (use A m in \<open>auto simp: do_checkout_def place_statuses_def lively_def\<close>)
qed

lemma checked_out:
  assumes "lively A" and "m \<in> set (mq_proc A c)" and "msg_status_of A m = Some (itoa StatusProcessing)"
  shows "m \<in> set (mq_pub A)" "\<And>p. m \<in> at_place A p \<Longrightarrow> p = Proc c"
  using assms lifeD(3) [of "mq_pub A" "msg_status_of A" "at_place A" "mq_cnt A" m "Proc c"]
    lively_unique [OF assms(1), of m _ "Proc c"] by (auto simp: lively_def)

lemma lively_ack:
  assumes A: "lively A" and m: "m \<in> set (mq_proc A c) \<Longrightarrow> msg_status_of A m = Some (itoa StatusProcessing)"
  shows "lively (do_ack cfg now c m A)" (is "lively ?B")
proof (cases "m \<in> set (mq_proc A c)")
  case True
  note pub = checked_out [OF A True m [OF True]]
  have dist: "distinct (mq_proc A c)" "tidy A" using A tidy_distinct by (auto simp: lively_def)
  have new: "m \<notin> set (mq_ack A)" using pub(2) [of Ack] by auto
  have "fmlookup (hset_all [(MF_Status, v), (MF_AcknowledgedAt, v')] h) MF_Status = Some v" for v v' h
    by (rule hset_all_in) (auto simp: schema_defs)
  then have status: "msg_status_of ?B = (msg_status_of A)(m \<mapsto> itoa StatusAcknowledged)"
    using True by (simp add: do_ack_def status_set_fields) (simp add: msg_status_of_def fun_eq_iff)
  have cnt: "recount StatusProcessing StatusAcknowledged (mq_cnt A) (mq_cnt ?B)"
    using True by (auto simp: recount_def do_ack_def status_defs enum_defs schema_defs)
  show ?thesis
  proof (rule lively_move [OF A _ pub(1) m [OF True], where p = "Proc c" and p' = Ack, OF _ _ status _ _ _ _ _ _ cnt])
    show "tidy ?B" using True dist new by (auto simp: tidy_def do_ack_def)
    show "at_place ?B p'' = at_place A p''" if "p'' \<noteq> Proc c" "p'' \<noteq> Ack" for p''
      using True that by (cases p'') (auto simp: do_ack_def)
  qed (use True dist in \<open>auto simp: do_ack_def place_statuses_def\<close>)
qed (use A in \<open>simp add: do_ack_def\<close>)

text \<open>Trimming the list of acknowledged messages.\<close>

lemma list_range_sub: "set (list_range a b xs) \<subseteq> set xs" "distinct xs \<Longrightarrow> distinct (list_range a b xs)"
  by (auto simp: list_range_def Let_def dest: in_set_takeD in_set_dropD)

lemma keep_last_sub: "set (keep_last a xs) \<subseteq> set xs" "distinct xs \<Longrightarrow> distinct (keep_last a xs)"
  using list_range_sub(1) [of _ _ xs] list_range_sub(2) [of xs] by (simp_all add: keep_last_def)

lemma lively_trim:
  assumes A: "lively A" and xs: "set xs \<subseteq> set (mq_ack A)" "distinct xs"
  shows "lively (A\<lparr>mq_ack := xs\<rparr>)" (is "lively ?B")
proof -
  note old = lifeD [of "mq_pub A" "msg_status_of A" "at_place A" "mq_cnt A"]
  have life: "life (mq_pub A) (msg_status_of A) (at_place A) (mq_cnt A)" using A by (simp add: lively_def)
  have sub: "at_place ?B p \<subseteq> at_place A p" "p \<noteq> Ack \<Longrightarrow> at_place ?B p = at_place A p" for p
    using xs by (cases p; auto)+
  have kept: "\<exists>p. m \<in> at_place ?B p" if x: "m \<in> set (mq_pub A)" "s \<in> live_statuses" "msg_status_of A m = Some (itoa s)" for m s
  proof -
    obtain p where p: "m \<in> at_place A p" using old(5) [OF life x] by blast
    have "p \<noteq> Ack" using old(3) [OF life p] x by (auto simp: status_defs enum_defs)
    with sub(2) p show ?thesis by blast
  qed
  have "life (mq_pub A) (msg_status_of A) (at_place ?B) (mq_cnt A)"
    unfolding life_def
    using old [OF life] kept by (intro conjI ballI allI impI) (use sub(1) in blast)+
  moreover have "tidy ?B" using A xs by (simp add: lively_def tidy_def)
  moreover have "msg_status_of ?B = msg_status_of A" by (simp add: msg_status_of_def fun_eq_iff)
  ultimately show ?thesis by (simp add: lively_def)
qed

lemma unack_status:
  "msg_status_of (unack_move cfg c u A) = (msg_status_of A)
     (ua_id u \<mapsto> if requeues u then itoa StatusUnackRequeuing else itoa StatusDeadLettered)"
proof -
  have "fmlookup (hset_all [(MF_Status, v), (MF_UnacknowledgedAt, v1), (MF_LastUnacknowledgedAt, v2),
      (MF_DeadLetteredAt, v3), (MF_Expired, v4)] h) MF_Status = Some v" for v v1 v2 v3 v4 h
    by (rule hset_all_in) (auto simp: schema_defs)
  then show ?thesis by (auto simp: unack_move_def Let_def status_set_fields) (auto simp: msg_status_of_def fun_eq_iff)
qed

lemma lively_unack:
  assumes A: "lively A" and m: "ua_id u \<in> set (mq_proc A c) \<Longrightarrow> msg_status_of A (ua_id u) = Some (itoa StatusProcessing)"
  shows "lively (do_unack cfg c u A)" (is "lively ?B")
proof (cases "ua_id u \<in> set (mq_proc A c)")
  case True
  define s' where "s' = (if requeues u then StatusUnackRequeuing else StatusDeadLettered)"
  define p' where "p' = (if requeues u then Req else Dead)"
  note pub = checked_out [OF A True m [OF True]]
  have dist: "distinct (mq_proc A c)" "tidy A" using A tidy_distinct by (auto simp: lively_def)
  have new: "ua_id u \<notin> set (mq_req A)" "ua_id u \<notin> set (mq_dl A)" using pub(2) [of Req] pub(2) [of Dead] by auto
  have status: "msg_status_of ?B = (msg_status_of A)(ua_id u \<mapsto> itoa s')"
    using True by (simp add: do_unack_def unack_status s'_def)
  have cnt: "recount StatusProcessing s' (mq_cnt A) (mq_cnt ?B)"
    using True by (auto simp: recount_def do_unack_def s'_def status_defs enum_defs schema_defs)
  have dl: "set (keep_last a (mq_dl A @ [ua_id u])) \<subseteq> insert (ua_id u) (set (mq_dl A))"
    "distinct (keep_last a (mq_dl A @ [ua_id u]))" for a
    using keep_last_sub [where a = a and xs = "mq_dl A @ [ua_id u]"] new(2) dist(2) by (auto simp: tidy_def)
  show ?thesis
  proof (rule lively_move [OF A _ pub(1) m [OF True], where p = "Proc c" and p' = p', OF _ _ status _ _ _ _ _ _ cnt])
    show "tidy ?B" using True dist new dl by (auto simp: tidy_def do_unack_def unack_move_def Let_def)
    show "at_place ?B p'' = at_place A p''" if "p'' \<noteq> Proc c" "p'' \<noteq> p'" for p''
      using True that by (cases p'') (auto simp: do_unack_def unack_move_def Let_def p'_def split: if_splits)
  qed (use True dist dl in \<open>auto simp: do_unack_def unack_move_def Let_def p'_def s'_def place_statuses_def split: if_splits\<close>)
qed (use A in \<open>simp add: do_unack_def\<close>)

text \<open>Both requeuers and the scheduled publisher take a message that waits at \<open>p\<close> with status \<open>s\<close>.\<close>

lemma retry_status:
  "msg_status_of (retry_move now u A) = (msg_status_of A)
     (ra_id u \<mapsto> itoa (if group_ok A (ra_group u) then StatusPending else StatusDeadLettered))"
proof -
  have "fmlookup (hset_all [(MF_Status, v), (f, v1)] h) MF_Status = Some v" if "f \<noteq> MF_Status" for v v1 f h
    using that by (intro hset_all_in) auto
  then show ?thesis
    by (auto simp: retry_move_def status_set_fields schema_defs) (auto simp: msg_status_of_def fun_eq_iff put_retry_def)
qed

definition retry_place :: "mq \<Rightarrow> requeue_args \<Rightarrow> place" where
  "retry_place A u =
     (if \<not> group_ok A (ra_group u) then Dead
      else if mq_conf A F_Type = Some (itoa TypeFIFO) \<or> mq_conf A F_Type = Some (itoa TypeLIFO) then Pend (ra_group u)
      else Prio (ra_group u))"

lemma retry_at:
  "at_place (retry_move now u A) p = (if p = retry_place A u then insert (ra_id u) (at_place A p) else at_place A p)"
  by (cases p) (auto simp: retry_move_def put_retry_def retry_place_def)

lemma retry_tidy:
  assumes "tidy A" and "\<And>p. ra_id u \<notin> at_place A p"
  shows "tidy (retry_move now u A)"
  using assms(1) assms(2) [of Dead] assms(2) [of "Pend (ra_group u)"]
  by (simp add: tidy_def retry_move_def put_retry_def)

lemma retry_counter:
  "status_counter (if group_ok A (ra_group u) then StatusPending else StatusDeadLettered) = retry_count A u"
  by (simp add: status_counter_def retry_count_def enum_defs)

lemma lively_retry:
  assumes A: "lively A" and m: "ra_id u \<in> at_place A p" "\<nexists>c. p = Proc c" "msg_status_of A (ra_id u) = Some (itoa s)"
    and A': "mq_pub A' = mq_pub A" "msg_status_of A' = msg_status_of A" "tidy A'" "mq_conf A' = mq_conf A" "mq_grps A' = mq_grps A"
      "mq_cnt A' = mq_cnt A" "\<And>p'. at_place A' p' = at_place A p' - {ra_id u}"
    and B: "B = count f n (count (retry_count A u) 1 (retry_move now u A'))" and f: "f = status_counter s" "n = -1"
    and s: "s \<in> {StatusUnackRequeuing, StatusUnackDelaying}"
  shows "lively B"
proof -
  define s' where "s' = (if group_ok A (ra_group u) then StatusPending else StatusDeadLettered)"
  have same: "retry_place A' u = retry_place A u" "group_ok A' = group_ok A" using A' by (simp_all add: retry_place_def group_ok_def fun_eq_iff)
  have p: "p \<noteq> retry_place A u"
    using lively_placed(2) [OF A m(1,2)] m(3) s by (auto simp: place_statuses_def retry_place_def enum_defs)
  have cnt: "recount s s' (mq_cnt A) (mq_cnt B)"
    unfolding recount_def B f retry_counter [symmetric] s'_def [symmetric]
    using s A'(6) by (auto simp: s'_def status_defs enum_defs schema_defs)
  have at: "at_place B p'' = (if p'' = retry_place A u then insert (ra_id u) (at_place A p'' - {ra_id u}) else at_place A p'' - {ra_id u})" for p''
    by (simp add: B retry_at same A'(7))
  have only: "ra_id u \<notin> at_place A p''" if "p'' \<noteq> p" for p'' using lively_unique [OF A m(1), of p''] that by blast
  show ?thesis
  proof (rule lively_move [OF A m(1) lively_placed(1) [OF A m(1,2)] m(3), where p' = "retry_place A u" and s' = s'])
    show "mq_pub B = mq_pub A" by (simp add: B retry_move_def put_retry_def A'(1))
    show "msg_status_of B = (msg_status_of A)(ra_id u \<mapsto> itoa s')"
      by (simp add: B retry_status A'(2) same s'_def)
    show "tidy B" using retry_tidy [OF A'(3)] A'(7) by (simp add: B)
    show "at_place B p'' = at_place A p''" if "p'' \<noteq> p" "p'' \<noteq> retry_place A u" for p''
      using only [OF that(1)] that(2) by (simp add: at)
    show "s' \<in> place_statuses (retry_place A u)" by (simp add: s'_def retry_place_def place_statuses_def)
  qed (use p cnt in \<open>auto simp: at\<close>)
qed

lemma drop_at:
  assumes A: "lively A"
  shows "m \<in> set (mq_req A) \<Longrightarrow> at_place (drop_req m A) p = at_place A p - {m}"
    "m |\<in>| fmdom (mq_dly A) \<Longrightarrow> at_place (drop_dly m A) p = at_place A p - {m}"
proof -
  have dist: "distinct (mq_req A)" using A tidy_distinct by (auto simp: lively_def)
  show "at_place (drop_req m A) p = at_place A p - {m}" if "m \<in> set (mq_req A)"
    using lively_unique [OF A, of m Req p] that dist by (cases p) (auto simp: drop_req_def)
  show "at_place (drop_dly m A) p = at_place A p - {m}" if "m |\<in>| fmdom (mq_dly A)"
    using lively_unique [OF A, of m Dly p] that by (cases p) (auto simp: drop_dly_def)
qed

lemma drop_frame [simp]:
  "mq_pub (drop_req m A) = mq_pub A" "mq_pub (drop_dly m A) = mq_pub A"
  "msg_status_of (drop_req m A) = msg_status_of A" "msg_status_of (drop_dly m A) = msg_status_of A"
  by (simp_all add: drop_req_def drop_dly_def msg_status_of_def fun_eq_iff)

lemma drop_tidy: "tidy A \<Longrightarrow> tidy (drop_req m A)" "tidy A \<Longrightarrow> tidy (drop_dly m A)"
  by (simp_all add: tidy_def drop_req_def drop_dly_def)

lemma lively_delay:
  assumes A: "lively A" and m: "ra_id u \<in> set (mq_req A)"
  shows "lively (count F_RequeuedMessagesCount (-1) (count F_DelayedMessagesCount 1 (delay_move u (drop_req (ra_id u) A))))"
    (is "lively ?B")
proof -
  have at: "ra_id u \<in> at_place A Req" using m by simp
  have st: "msg_status_of A (ra_id u) = Some (itoa StatusUnackRequeuing)"
    using lively_placed(2) [OF A at] by (auto simp: place_statuses_def)
  have dist: "distinct (mq_req A)" "tidy A" using A tidy_distinct by (auto simp: lively_def)
  have status: "msg_status_of ?B = (msg_status_of A)(ra_id u \<mapsto> itoa StatusUnackDelaying)"
    by (auto simp: delay_move_def Let_def msg_status_of_def fun_eq_iff drop_req_def hset_all_def)
  have cnt: "recount StatusUnackRequeuing StatusUnackDelaying (mq_cnt A) (mq_cnt ?B)"
    by (auto simp: recount_def status_defs enum_defs schema_defs)
  show ?thesis
  proof (rule lively_move [OF A at lively_placed(1) [OF A at] st, where p' = Dly, OF _ _ status _ _ _ _ _ _ cnt])
    show "at_place ?B p'' = at_place A p''" if "p'' \<noteq> Req" "p'' \<noteq> Dly" for p''
      using that by (cases p'') (auto simp: delay_move_def Let_def drop_req_def)
  qed (use dist in \<open>auto simp: delay_move_def Let_def drop_req_def place_statuses_def tidy_def\<close>)
qed

lemma lively_requeue:
  assumes A: "lively A"
  shows "lively (do_requeue now u A)"
proof (cases "ra_id u \<in> set (mq_req A)")
  case True
  then have at: "ra_id u \<in> at_place A Req" by simp
  have st: "msg_status_of A (ra_id u) = Some (itoa StatusUnackRequeuing)"
    using lively_placed(2) [OF A at] by (auto simp: place_statuses_def)
  have "lively (count F_RequeuedMessagesCount (-1) (count (retry_count A u) 1 (retry_move now u (drop_req (ra_id u) A))))"
    by (rule lively_retry [OF A at _ st _ _ _ _ _ _ _ refl])
      (use A True in \<open>simp_all add: drop_at drop_tidy lively_def [of A] status_counter_def enum_defs\<close>)
  with lively_delay [OF A True] True show ?thesis by (simp add: do_requeue_def)
qed (use A in \<open>simp add: do_requeue_def\<close>)

lemma lively_undelay:
  assumes A: "lively A"
  shows "lively (do_undelay now u A)"
proof (cases "ra_id u |\<in>| fmdom (mq_dly A)")
  case True
  then have at: "ra_id u \<in> at_place A Dly" by simp
  have st: "msg_status_of A (ra_id u) = Some (itoa StatusUnackDelaying)"
    using lively_placed(2) [OF A at] by (auto simp: place_statuses_def)
  have "lively (count F_DelayedMessagesCount (-1) (count (retry_count A u) 1 (retry_move now u (drop_dly (ra_id u) A))))"
    by (rule lively_retry [OF A at _ st _ _ _ _ _ _ _ refl])
      (use A True in \<open>simp_all add: drop_at drop_tidy lively_def [of A] status_counter_def enum_defs\<close>)
  with True show ?thesis by (simp add: do_undelay_def)
qed (use A in \<open>simp add: do_undelay_def\<close>)

lemma scheduled_message:
  assumes "lively A" and "m |\<in>| fmdom (mq_sched A)"
  shows "m \<in> at_place A Sched" "m \<in> set (mq_pub A)" "msg_status_of A m = Some (itoa StatusScheduled)" "tidy A"
    "\<And>p. m \<in> at_place A p \<Longrightarrow> p = Sched"
  using assms lively_placed [of A m Sched] lively_unique [OF assms(1), of m _ Sched]
  by (auto simp: place_statuses_def lively_def)

lemma status_in_front:
  "f \<noteq> MF_Status \<Longrightarrow> fmlookup (hset_all [(MF_Status, v), (f, v')] h) MF_Status = Some v"
  "fmlookup (hset_all ([(MF_PublishedAt, v'), (MF_Status, v)] @ schedule_fields u) h) MF_Status = Some v"
  "fmlookup (hset_all (schedule_fields u) h) MF_Status = fmlookup h MF_Status"
  by (rule hset_all_in; auto simp: schedule_fields_def schema_defs)+ (simp add: hset_all_def schedule_fields_def schema_defs)

lemma lively_due:
  assumes A: "lively A" and m: "sa_id u |\<in>| fmdom (mq_sched A)"
  shows "lively (do_due g u A)" (is "lively ?B")
proof -
  note old = scheduled_message [OF A m]
  define s' where "s' = (if group_ok A g then StatusPending else StatusDeadLettered)"
  define p' where "p' = (if group_ok A g then pending_place A g else Dead)"
  have status: "msg_status_of ?B = (msg_status_of A)(sa_id u \<mapsto> itoa s')"
    using status_in_front(1) [of MF_DeadLetteredAt] status_in_front(2) [of _ _ u]
    by (auto simp: do_due_def Let_def status_set_fields dead_fields_def s'_def schema_defs)
      (auto simp: msg_status_of_def fun_eq_iff)
  have cnt: "recount StatusScheduled s' (mq_cnt A) (mq_cnt ?B)"
    by (auto simp: recount_def do_due_def Let_def s'_def status_defs enum_defs schema_defs)
  have at: "at_place ?B p = (if p = p' then insert (sa_id u) (at_place A p) else at_place A p - {sa_id u})" for p
    using old(5) [of p] by (cases p) (auto simp: do_due_def Let_def p'_def pending_place_def put_pending_def)
  have free: "sa_id u \<notin> set (mq_dl A)" "sa_id u \<notin> set (mq_pend A g)" using old(5) [of Dead] old(5) [of "Pend g"] by auto
  show ?thesis
  proof (rule lively_move [OF A old(1-3), where p' = p', OF _ status _ _ _ _ _ _ cnt])
    show "mq_pub ?B = mq_pub A" by (simp add: do_due_def Let_def)
    show "tidy ?B" using old(4) free by (auto simp: tidy_def do_due_def Let_def put_pending_def)
    show "s' \<in> place_statuses p'" by (simp add: s'_def p'_def pending_place_def place_statuses_def)
    show "at_place ?B Sched = at_place A Sched - {sa_id u}" if "Sched \<noteq> p'" unfolding at using that by simp
    show "at_place ?B p'' = at_place A p''" if "p'' \<noteq> Sched" "p'' \<noteq> p'" for p''
      unfolding at using that old(5) [of p''] by auto
  qed (simp_all only: at simp_thms if_True subset_refl)
qed

lemma lively_expire_schedule:
  assumes A: "lively A" and m: "sa_id u |\<in>| fmdom (mq_sched A)"
  shows "lively (do_expire_schedule u A)" (is "lively ?B")
proof -
  note old = scheduled_message [OF A m]
  have status: "msg_status_of ?B = (msg_status_of A)(sa_id u \<mapsto> itoa StatusDeadLettered)"
    using status_in_front(1) [of MF_DeadLetteredAt]
    by (auto simp: do_expire_schedule_def status_set_fields dead_fields_def schema_defs) (auto simp: msg_status_of_def fun_eq_iff)
  have cnt: "recount StatusScheduled StatusDeadLettered (mq_cnt A) (mq_cnt ?B)"
    by (auto simp: recount_def do_expire_schedule_def status_defs enum_defs schema_defs)
  have free: "sa_id u \<notin> set (mq_dl A)" using old(5) [of Dead] by auto
  show ?thesis
  proof (rule lively_move [OF A old(1-3), where p' = Dead, OF _ status _ _ _ _ _ _ cnt])
    show "at_place ?B p'' = at_place A p''" if "p'' \<noteq> Sched" "p'' \<noteq> Dead" for p''
      using that by (cases p'') (auto simp: do_expire_schedule_def)
  qed (use old(4) free in \<open>auto simp: do_expire_schedule_def tidy_def place_statuses_def\<close>)
qed

lemma lively_repeat:
  assumes A: "lively A" and m: "sa_id u |\<in>| fmdom (mq_sched A)" and new: "fresh A (sa_new u)"
  shows "lively (do_repeat g u A)"
proof -
  note old = scheduled_message [OF A m]
  define B where "B = set_fields (sa_id u) (schedule_fields u) (A\<lparr>mq_sched := fmupd (sa_id u) (atoi_value (sa_next u)) (mq_sched A)\<rparr>)"
  have at: "at_place B = at_place A"
  proof
    fix p show "at_place B p = at_place A p" using m by (cases p) (auto simp: B_def)
  qed
  have "msg_status_of B = msg_status_of A"
    by (simp add: B_def status_set_fields status_in_front) (simp add: msg_status_of_def fun_eq_iff)
  then have "lively B" using A at by (simp add: lively_def tidy_def B_def)
  moreover have "fresh B (sa_new u)" using new at by (simp add: fresh_def B_def)
  ultimately have "lively (do_publish g (sa_new u) (sa_priority u) [] True (sched_child u) B)"
    by (intro lively_publish) (simp_all add: sched_child_def)
  then show ?thesis by (simp add: do_repeat_def B_def)
qed

text \<open>A periodic message is read from the schedule before the script runs; the copy has a new id.\<close>

definition sched_allowed :: "mq \<Rightarrow> sched_args \<Rightarrow> bool" where
  "sched_allowed A u \<longleftrightarrow> (sa_new u \<noteq> [] \<longrightarrow> sa_id u |\<in>| fmdom (mq_sched A) \<and> fresh A (sa_new u))"

lemma lively_scheduled: "lively A \<Longrightarrow> sched_allowed A u \<Longrightarrow> lively (do_scheduled g u A)"
  by (auto simp: do_scheduled_def sched_allowed_def lively_due lively_expire_schedule lively_repeat)

text \<open>A message to delete belongs to the queue; a pending one is in the list of the group \<open>g\<close> or has just
  been taken by a consumer; none waits for a delayed retry (\<open>delete_ready\<close>).\<close>

definition delete_allowed :: "mq \<Rightarrow> string \<Rightarrow> string \<Rightarrow> bool" where
  "delete_allowed A g m \<longleftrightarrow>
     (msg_status_of A m \<noteq> None \<longrightarrow> m \<in> set (mq_pub A)) \<and> msg_status_of A m \<noteq> Some (itoa StatusUnackDelaying) \<and>
     (\<forall>p. m \<in> at_place A p \<longrightarrow> msg_status_of A m = Some (itoa StatusPending) \<longrightarrow> p = pending_place A g \<or> (\<exists>c. p = Proc c))"

lemma lively_place_status:
  assumes "lively A" and "m \<in> at_place A p" and "msg_status_of A m = Some (itoa s)"
  shows "s \<in> place_statuses p"
  using assms lifeD(3) [of "mq_pub A" "msg_status_of A" "at_place A" "mq_cnt A" m p] by (auto simp: lively_def)

lemma forget_frame [simp]: "at_place (forget m A) = at_place A" "tidy (forget m A) = tidy A" "mq_cnt (forget m A) = mq_cnt A"
  "mq_pub (forget m A) = remove1 m (mq_pub A)"
  by (simp_all add: forget_def tidy_def at_place_def fun_eq_iff split: place.split)

lemma del_place_frame: "mq_cnt (del_place g m v A) = mq_cnt A" "mq_pub (del_place g m v A) = mq_pub A"
  "tidy A \<Longrightarrow> tidy (del_place g m v A)"
  by (simp_all add: del_place_def tidy_def)

lemma deleted_at:
  assumes A: "lively A" and ok: "delete_allowed A g m" and st: "msg_status_of A m = Some (itoa s)" and s: "s \<noteq> StatusProcessing"
  shows "x \<noteq> m \<Longrightarrow> x \<in> at_place (do_delete g m A) p \<longleftrightarrow> x \<in> at_place A p"
    "m \<in> at_place (do_delete g m A) p \<Longrightarrow> m \<in> at_place A p \<and> (\<exists>c. p = Proc c)"
proof -
  have dist: "distinct (mq_pend A g')" "distinct (mq_req A)" "distinct (mq_ack A)" "distinct (mq_dl A)" for g'
    using A tidy_distinct by (auto simp: lively_def)
  have at: "at_place (do_delete g m A) p = at_place (del_place g m (itoa s) A) p" for p
    using st s by (simp add: do_delete_def Let_def split: option.split)
  show "x \<in> at_place (do_delete g m A) p \<longleftrightarrow> x \<in> at_place A p" if "x \<noteq> m"
    unfolding at using that by (cases p) (auto simp: del_place_def)
  show "m \<in> at_place A p \<and> (\<exists>c. p = Proc c)" if "m \<in> at_place (do_delete g m A) p"
  proof -
    have old: "m \<in> at_place A p" using that unfolding at
      by (cases p) (auto simp: del_place_def split: if_splits dest: subsetD [OF set_remove1_subset])
    have s': "s \<in> place_statuses p" by (rule lively_place_status [OF A old st])
    have "s \<noteq> StatusUnackDelaying" using ok st by (auto simp: delete_allowed_def)
    moreover have "p = pending_place A g \<or> (\<exists>c. p = Proc c)" if "s = StatusPending"
      using ok old st that unfolding delete_allowed_def by blast
    ultimately show ?thesis using old that s' dist unfolding at
      by (cases p) (auto simp: del_place_def place_statuses_def pending_place_def enum_defs split: if_splits)
  qed
qed

lemma del_counter_status:
  assumes "s \<in> live_statuses \<union> final_statuses" and "s \<noteq> StatusProcessing" and "s \<noteq> StatusUnackDelaying"
  shows "del_counter (itoa s) = Some (status_counter s)"
  using assms by (auto simp: del_counter_def status_defs enum_defs)

lemma lively_delete:
  assumes A: "lively A" and ok: "delete_allowed A g m"
  shows "lively (do_delete g m A)" (is "lively ?B")
proof -
  consider "msg_status_of A m = None" | "msg_status_of A m = Some (itoa StatusProcessing)"
    | s where "msg_status_of A m = Some (itoa s)" "s \<noteq> StatusProcessing" "s \<in> live_statuses \<union> final_statuses" "m \<in> set (mq_pub A)"
  proof (cases "msg_status_of A m")
    case (Some v)
    then have "m \<in> set (mq_pub A)" using ok by (auto simp: delete_allowed_def)
    with A lifeD(2) [of "mq_pub A" "msg_status_of A" "at_place A" "mq_cnt A" m] that show ?thesis by (force simp: lively_def)
  qed (use that in blast)
  then show ?thesis
  proof cases
    case (3 s)
    have status: "msg_status_of ?B = (msg_status_of A)(m := None)"
      using do_delete_status [of g m A] 3 by (auto simp: fun_eq_iff)
    have del: "s \<noteq> StatusUnackDelaying" using ok 3 by (auto simp: delete_allowed_def)
    have B: "mq_cnt ?B = (mq_cnt A)(F_MessagesCount := mq_cnt A F_MessagesCount - 1,
        status_counter s := mq_cnt A (status_counter s) - 1)" "mq_pub ?B = remove1 m (mq_pub A)"
      using 3(1,2) status_counter_total [of s] del_counter_status [OF 3(3,2) del]
      by (simp_all add: do_delete_def del_place_frame Let_def)
    have cnt: "mq_cnt ?B F_MessagesCount = mq_cnt A F_MessagesCount - 1"
      "\<And>t. t \<in> live_statuses \<union> final_statuses \<Longrightarrow>
        mq_cnt ?B (status_counter t) = mq_cnt A (status_counter t) - (if t = s then 1 else 0)"
      using status_counter_total status_counter_total [THEN not_sym] status_counter_inj [OF _ 3(3)] unfolding B by simp_all
    have "tidy ?B" using A 3 by (simp add: lively_def do_delete_def del_place_frame Let_def split: option.split)
    moreover have "life (remove1 m (mq_pub A)) ((msg_status_of A)(m := None)) (at_place ?B) (mq_cnt ?B)"
      using A 3 cnt deleted_at [OF A ok 3(1,2)]
      by (intro life_forget [where sts = "msg_status_of A" and at = "at_place A" and cnt = "mq_cnt A" and s = s]) (auto simp: lively_def)
    ultimately show ?thesis by (simp add: lively_def status B(2))
  qed (use A in \<open>simp_all add: do_delete_def\<close>)
qed

lemma lively_copy:
  assumes A: "lively A" and "fresh A newID"
  shows "lively (do_copy g m newID json prio ts at A)"
proof -
  define B where "B = do_publish g newID prio [] True (child_values newID (itoa StatusPending) json (itoa ts) [] (or_empty (fmlookup (mq_msg A m) MF_ID))) A"
  have "lively B" unfolding B_def using assms by (intro lively_publish) simp_all
  have "fmlookup (hset_all [(MF_RequeuedAt, a), (MF_LastRequeuedAt, b), (MF_RequeueCount, n)] h) MF_Status = fmlookup h MF_Status"
    for a b n h by (rule field_hset_all) (simp add: schema_defs)
  then have "msg_status_of (set_fields m [(MF_RequeuedAt, a), (MF_LastRequeuedAt, b), (MF_RequeueCount, n)] B) = msg_status_of B" for a b n
    by (simp add: status_set_fields) (simp add: msg_status_of_def fun_eq_iff)
  with \<open>lively B\<close> show ?thesis by (simp add: do_copy_def B_def [symmetric] lively_def)
qed

end
