(* ===== verification/Queue_Runs.thy ===== *)
theory Queue_Runs
  imports Message_Lifecycle
begin

text \<open>
  A queue under all its clients. An \<open>operation\<close> is one script (or the command \<open>RPOPLPUSH\<close>) with the
  arguments that the Go code builds for it; \<open>invoke\<close> runs it on the database, \<open>run_op\<close> says what it does to
  the view of the queue. Operations of any clients follow each other in any order, and the settings
  and consumer groups of the queue may change in between: \<open>reach\<close>.
\<close>

subsection \<open>Operations\<close>

datatype operation =
    Publish envelope
  | Pop string string
  | PopPriority string string
  | Checkout int string
  | Acknowledge message_audit int string "string list"
  | Unacknowledge message_audit int string "(unack_entry \<times> int \<times> int) list"
  | RequeueNow int "envelope list"
  | RequeueDue int "envelope list"
  | PublishDue cron_lib consume_options string "(envelope \<times> tick) list"
  | Delete string "string list" string
  | CopyMessage string string string string string int int

definition invoke :: "queue_key \<Rightarrow> (string fset \<Rightarrow> string list) \<Rightarrow> operation \<Rightarrow> (db, redis_error, reply) io" where
  "invoke q en op = (let call = redis_apply en in case op of
     Publish e \<Rightarrow> lua_publish_message call (publish_keys q (e_consumerGroupID e) (Envelope_ID e)) (BuildPublishArgs e)
   | Pop g c \<Rightarrow> call (RPOPLPUSH (pending_key q g) (Queue_ConsumerProcessing q c))
   | PopPriority g c \<Rightarrow> lua_zpoplpush call [priority_key q g, Queue_ConsumerProcessing q c] []
   | Checkout now m \<Rightarrow> lua_checkout_message call (checkout_keys q m) (checkout_args now)
   | Acknowledge cfg now c ids \<Rightarrow> lua_acknowledge_message call (acknowledge_keys q c ids) (acknowledge_args cfg now ids)
   | Unacknowledge cfg now c entries \<Rightarrow>
       (case buildBatchLuaArgs cfg now q c entries of (ks, as) \<Rightarrow> lua_unacknowledge_message call ks as)
   | RequeueNow now msgs \<Rightarrow> (let us = map (requeue_entry_args now) msgs in
       lua_requeue_immediate call (requeue_immediate_keys q us) (requeue_immediate_args now us))
   | RequeueDue now msgs \<Rightarrow> (let us = map (requeue_entry_args now) msgs in
       lua_requeue_delayed call (requeue_delayed_keys q us) (requeue_delayed_args now us))
   | PublishDue gx defaults g msgs \<Rightarrow> (let us = map (sched_entry_args gx defaults) msgs in
       lua_publish_scheduled call (publish_scheduled_keys q g us) (publish_scheduled_args g us))
   | Delete g ids l \<Rightarrow> lua_delete_message call (delete_keys q g ids) (delete_args l ids)
   | CopyMessage g m n json p ts at \<Rightarrow>
       lua_requeue_message call (requeue_keys q g m n) (requeue_msg_args n json p ts at g))"

text \<open>What an operation does. A queue that is stopped or locked refuses most of them.\<close>

definition run_publish :: "envelope \<Rightarrow> mq \<Rightarrow> mq" where
  "run_publish e A =
     (let g = e_consumerGroupID e; prio = priority_text (e_producibleMessage e); pending = (e_status e = StatusPending) in
      if publish_verdict A g prio pending [] = ''OK''
      then do_publish g (Envelope_ID e) prio (OrEmptyInt64 (State_ScheduledAt (e_messageState e))) pending (messagePropertyValues e) A
      else A)"

definition run_op :: "operation \<Rightarrow> mq \<Rightarrow> mq" where
  "run_op op A = (case op of
     Publish e \<Rightarrow> run_publish e A
   | Pop g c \<Rightarrow> pop_pending g c A
   | PopPriority g c \<Rightarrow> pop_priority g c A
   | Checkout now m \<Rightarrow> (if checkout_verdict A m = None then do_checkout now m A else A)
   | Acknowledge cfg now c ids \<Rightarrow> (if state_verdict A = None then do_ack_batch cfg now c ids A else A)
   | Unacknowledge cfg now c entries \<Rightarrow>
       (if state_verdict A = None then fold (do_unack cfg c) (map (unack_entry_args cfg now) entries) A else A)
   | RequeueNow now msgs \<Rightarrow> (if state_verdict A = None then fold (do_requeue now) (map (requeue_entry_args now) msgs) A else A)
   | RequeueDue now msgs \<Rightarrow> (if state_verdict A = None then fold (do_undelay now) (map (requeue_entry_args now) msgs) A else A)
   | PublishDue gx defaults g msgs \<Rightarrow>
       (if state_verdict A = None then fold (do_scheduled g) (map (sched_entry_args gx defaults) msgs) A else A)
   | Delete g ids l \<Rightarrow> (if lock_verdict A l = None then fold (do_delete g) ids A else A)
   | CopyMessage g m n json p ts at \<Rightarrow> (if copy_verdict A g m p = None then do_copy g m n json p ts at A else A))"

subsection \<open>When clients run them\<close>

text \<open>What the Go code sees to before it runs a script: ids are UUIDs, new ones are fresh; a consumer checks
  out what it has popped; it acknowledges and unacknowledges what it has checked out; a message is
  deleted with the group it was published to. The rest are ranges: numbers fit into \<open>int64\<close>, and a
  queue holds fewer than \<open>2 ^ 63\<close> messages.\<close>

definition priority_ok :: "mq \<Rightarrow> producible \<Rightarrow> bool" where
  "priority_ok A m \<longleftrightarrow> pred_option in_int64 (pm_priority m) \<and>
     (mq_conf A F_Type = Some (itoa TypePriority) \<longleftrightarrow> pm_priority m \<noteq> None)"

definition op_size :: "operation \<Rightarrow> nat" where
  "op_size op = (case op of
     PublishDue gx defaults g msgs \<Rightarrow> length msgs | Delete g ids l \<Rightarrow> length ids | _ \<Rightarrow> 1)"

definition sched_batch :: "mq \<Rightarrow> sched_args list \<Rightarrow> bool" where
  "sched_batch A us \<longleftrightarrow> distinct (map sa_id us) \<and> distinct (filter (\<lambda>n. n \<noteq> []) (map sa_new us)) \<and>
     (\<forall>u \<in> set us. plain_id (sa_id u) \<and> prio_fits A (sa_priority u) \<and> sched_allowed A u \<and>
        (sa_new u \<noteq> [] \<longrightarrow> plain_id (sa_new u) \<and> is_number (sa_next u)))"

definition allowed :: "mq \<Rightarrow> operation \<Rightarrow> bool" where
  "allowed A op \<longleftrightarrow> int (length (mq_pub A)) + int (op_size op) < 2 ^ 63 \<and> (case op of
     Publish e \<Rightarrow> plain_id (Envelope_ID e) \<and> fresh A (Envelope_ID e) \<and> pred_option in_int64 (pm_priority (e_producibleMessage e)) \<and>
       (e_status e = StatusPending \<or>
        e_status e = StatusScheduled \<and> (\<exists>t. State_ScheduledAt (e_messageState e) = Some t \<and> in_int64 t))
   | Pop g c \<Rightarrow> True
   | PopPriority g c \<Rightarrow> True
   | Checkout now m \<Rightarrow> plain_id m \<and> (\<exists>c. m \<in> set (mq_proc A c)) \<and> can_incr (mq_msg A m) MF_Attempts
   | Acknowledge cfg now c ids \<Rightarrow> audit_ok (ma_AcknowledgedMessages cfg) \<and>
       (\<forall>m \<in> set ids. plain_id m \<and> (m \<in> set (mq_proc A c) \<longrightarrow> msg_status_of A m = Some (itoa StatusProcessing)))
   | Unacknowledge cfg now c entries \<Rightarrow> audit_ok (ma_DeadLetteredMessages cfg) \<and>
       in_int64 (ah_MaxSize (ma_UnacknowledgementHistory cfg)) \<and> entries \<noteq> [] \<and>
       unack_ready A (map (unack_entry_args cfg now) entries) \<and>
       (\<forall>(e, _) \<in> set entries. Envelope_ID (ue_Message e) \<in> set (mq_proc A c) \<longrightarrow>
          msg_status_of A (Envelope_ID (ue_Message e)) = Some (itoa StatusProcessing))
   | RequeueNow now msgs \<Rightarrow> (\<forall>e \<in> set msgs. plain_id (Envelope_ID e) \<and> priority_ok A (e_producibleMessage e))
   | RequeueDue now msgs \<Rightarrow> (\<forall>e \<in> set msgs. plain_id (Envelope_ID e) \<and> priority_ok A (e_producibleMessage e))
   | PublishDue gx defaults g msgs \<Rightarrow> sched_batch A (map (sched_entry_args gx defaults) msgs)
   | Delete g ids l \<Rightarrow> ids \<noteq> [] \<and> (\<forall>m \<in> set ids. plain_id m \<and> delete_allowed A g m)
   | CopyMessage g m n json p ts at \<Rightarrow> plain_id m \<and> plain_id n \<and> m \<noteq> n \<and> fresh A n \<and> (p \<noteq> [] \<longrightarrow> is_number p) \<and>
       can_incr (mq_msg A m) MF_RequeueCount)"

subsection \<open>Batches\<close>

lemma fold_keeps:
  assumes "I A" and "\<forall>x \<in> set xs. G A x" and "sorted_wrt R xs"
    and step: "\<And>x A. x \<in> set xs \<Longrightarrow> I A \<Longrightarrow> G A x \<Longrightarrow> I (f x A)"
    and keep: "\<And>x y A. x \<in> set xs \<Longrightarrow> R x y \<Longrightarrow> I A \<Longrightarrow> G A x \<Longrightarrow> G A y \<Longrightarrow> G (f x A) y"
  shows "I (fold f xs A)"
  using assms(1,2,3) step keep
proof (induction xs arbitrary: A)
  case (Cons x xs)
  show ?case
  proof (simp, rule Cons.IH)
    show "I (f x A)" by (rule Cons.prems(4)) (use Cons.prems in simp_all)
    show "\<forall>y \<in> set xs. G (f x A) y"
      using Cons.prems(1-3) by (intro ballI Cons.prems(5) [of x]) auto
  qed (use Cons.prems in auto)
qed simp

lemma ack_other:
  "lively A \<Longrightarrow> m' \<in> set (mq_proc (do_ack cfg now c m A) c) \<Longrightarrow> m' \<in> set (mq_proc A c) \<and> m' \<noteq> m"
  using tidy_distinct(2) [of A c] by (auto simp: do_ack_def lively_def split: if_splits)

lemma do_ack_status: "m' \<noteq> m \<Longrightarrow> msg_status_of (do_ack cfg now c m A) m' = msg_status_of A m'"
  by (simp add: do_ack_def msg_status_of_def)

lemma lively_ack_batch:
  assumes A: "lively A" and ids: "\<forall>m \<in> set ids. m \<in> set (mq_proc A c) \<longrightarrow> msg_status_of A m = Some (itoa StatusProcessing)"
  shows "lively (do_ack_batch cfg now c ids A)"
proof -
  have "lively (fold (do_ack cfg now c) ids A)"
  proof (rule fold_keeps [where I = lively and G = "\<lambda>A m. m \<in> set (mq_proc A c) \<longrightarrow> msg_status_of A m = Some (itoa StatusProcessing)" and R = "\<lambda>_ _. True"])
    fix m m' A
    assume "lively A" and "m' \<in> set (mq_proc A c) \<longrightarrow> msg_status_of A m' = Some (itoa StatusProcessing)"
    then show "m' \<in> set (mq_proc (do_ack cfg now c m A) c) \<longrightarrow> msg_status_of (do_ack cfg now c m A) m' = Some (itoa StatusProcessing)"
      using ack_other do_ack_status by metis
  qed (use A ids in \<open>auto intro: lively_ack\<close>)
  then show ?thesis
    using keep_last_sub tidy_distinct(4) by (auto simp: do_ack_batch_def Let_def lively_def [of "fold _ _ _"] intro!: lively_trim)
qed

lemma lively_unack_batch:
  assumes A: "lively A"
    and us: "\<forall>u \<in> set us. ua_id u \<in> set (mq_proc A c) \<longrightarrow> msg_status_of A (ua_id u) = Some (itoa StatusProcessing)"
  shows "lively (fold (do_unack cfg c) us A)"
proof (rule fold_keeps [where I = lively and R = "\<lambda>_ _. True"
      and G = "\<lambda>A u. ua_id u \<in> set (mq_proc A c) \<longrightarrow> msg_status_of A (ua_id u) = Some (itoa StatusProcessing)"])
  fix u v A
  assume A: "lively A" and v: "ua_id v \<in> set (mq_proc A c) \<longrightarrow> msg_status_of A (ua_id v) = Some (itoa StatusProcessing)"
  show "ua_id v \<in> set (mq_proc (do_unack cfg c u A) c) \<longrightarrow> msg_status_of (do_unack cfg c u A) (ua_id v) = Some (itoa StatusProcessing)"
    using A v tidy_distinct(2) [of A c] by (auto simp: do_unack_def lively_def unack_status)
qed (use A us in \<open>auto intro: lively_unack\<close>)

lemma lively_requeue_batch: "lively A \<Longrightarrow> lively (fold (do_requeue now) us A)"
  by (induction us arbitrary: A) (simp_all add: lively_requeue)

lemma lively_undelay_batch: "lively A \<Longrightarrow> lively (fold (do_undelay now) us A)"
  by (induction us arbitrary: A) (simp_all add: lively_undelay)

lemma do_delete_pub: "m' \<noteq> m \<Longrightarrow> m' \<in> set (mq_pub (do_delete g m A)) \<longleftrightarrow> m' \<in> set (mq_pub A)"
  by (auto simp: do_delete_def Let_def del_place_frame split: option.split)

lemma delete_allowed_step:
  assumes A: "lively A" and m: "delete_allowed A g m" and m': "delete_allowed A g m'"
  shows "delete_allowed (do_delete g m A) g m'"
proof (cases "m' = m")
  case True
  then show ?thesis using m do_delete_status [of g m A m]
    by (cases "msg_status_of A m = Some (itoa StatusProcessing)") (auto simp: delete_allowed_def do_delete_def enum_defs)
next
  case False
  have "m' \<in> at_place (do_delete g m A) p \<longleftrightarrow> m' \<in> at_place A p" for p
  proof (cases "msg_status_of A m")
    case (Some v)
    then have "m \<in> set (mq_pub A)" using m by (auto simp: delete_allowed_def)
    with A lifeD(2) [of "mq_pub A" "msg_status_of A" "at_place A" "mq_cnt A" m] Some
    obtain s where s: "msg_status_of A m = Some (itoa s)" by (auto simp: lively_def)
    show ?thesis
    proof (cases "s = StatusProcessing")
      case False
      with deleted_at(1) [OF A m s] \<open>m' \<noteq> m\<close> show ?thesis by blast
    qed (simp add: do_delete_def s)
  qed (simp add: do_delete_def)
  moreover have "pending_place (do_delete g m A) g = pending_place A g" by (simp add: pending_place_def)
  ultimately show ?thesis
    using m' False by (simp add: delete_allowed_def do_delete_status do_delete_pub)
qed

lemma lively_delete_batch:
  assumes "lively A" and "\<forall>m \<in> set ids. delete_allowed A g m"
  shows "lively (fold (do_delete g) ids A)"
  by (rule fold_keeps [where I = lively and G = "\<lambda>A. delete_allowed A g" and R = "\<lambda>_ _. True"])
    (use assms in \<open>auto intro: lively_delete delete_allowed_step\<close>)

text \<open>The scheduled publisher: messages of one batch do not get in each other's way.\<close>

lemma scheduled_sched:
  "m \<noteq> sa_id u \<Longrightarrow> m |\<in>| fmdom (mq_sched (do_scheduled g u A)) \<longleftrightarrow> m |\<in>| fmdom (mq_sched A)"
  by (auto simp: do_scheduled_def do_due_def do_repeat_def do_expire_schedule_def do_publish_def put_pending_def Let_def)

lemma fresh_scheduled:
  assumes A: "lively A" and u: "sched_allowed A u" and n: "fresh A n" "n \<noteq> sa_new u \<or> sa_new u = []"
  shows "fresh (do_scheduled g u A) n"
proof -
  have id: "n \<noteq> sa_id u" if "sa_id u |\<in>| fmdom (mq_sched A)" using n(1) that by (auto simp: fresh_def dest: spec [of _ Sched])
  have "n \<notin> at_place (do_scheduled g u A) p" for p
    using n u id spec [of "\<lambda>p. n \<notin> at_place A p" p] unfolding fresh_def
    by (cases p) (auto simp: do_scheduled_def do_due_def do_repeat_def do_expire_schedule_def do_publish_def put_pending_def
        Let_def sched_allowed_def)
  moreover have "n \<notin> set (mq_pub (do_scheduled g u A))"
    using n by (auto simp: fresh_def do_scheduled_def do_due_def do_repeat_def do_expire_schedule_def do_publish_def Let_def)
  ultimately show ?thesis by (simp add: fresh_def)
qed

lemma lively_sched_batch:
  assumes A: "lively A" and us: "sched_batch A us"
  shows "lively (fold (do_scheduled g) us A)"
proof (rule fold_keeps [where I = lively and G = sched_allowed
      and R = "\<lambda>u v. sa_id u \<noteq> sa_id v \<and> (sa_new v = [] \<or> sa_new u \<noteq> sa_new v)"])
  have sorted: "sorted_wrt (\<lambda>u v. sa_id u \<noteq> sa_id v \<and> (sa_new v = [] \<or> sa_new u \<noteq> sa_new v)) vs"
    if "distinct (map sa_id vs)" "distinct (filter (\<lambda>n. n \<noteq> []) (map sa_new vs))" for vs
    using that
  proof (induction vs)
    case (Cons v vs)
    have "sa_new w = [] \<or> sa_new v \<noteq> sa_new w" if "w \<in> set vs" for w
      using Cons.prems(2) that by (cases "sa_new v = []") (auto simp: image_iff)
    with Cons show ?case by (auto split: if_splits simp: image_iff)
  qed simp
  show "sorted_wrt (\<lambda>u v. sa_id u \<noteq> sa_id v \<and> (sa_new v = [] \<or> sa_new u \<noteq> sa_new v)) us"
    by (rule sorted) (use us in \<open>simp_all add: sched_batch_def\<close>)
  fix u v A
  assume A: "lively A" "sched_allowed A u" "sched_allowed A v" "sa_id u \<noteq> sa_id v \<and> (sa_new v = [] \<or> sa_new u \<noteq> sa_new v)"
  then show "sched_allowed (do_scheduled g u A) v"
    using scheduled_sched [of "sa_id v" u g A] fresh_scheduled [OF A(1,2), of "sa_new v" g] by (auto simp: sched_allowed_def)
qed (use A us in \<open>auto simp: sched_batch_def intro: lively_scheduled\<close>)

subsection \<open>Every operation keeps the invariant\<close>

lemma values_nth: "length (messagePropertyValues e) = 24" "nth1 (messagePropertyValues e) 1 = Envelope_ID e"
  "nth1 (messagePropertyValues e) 2 = itoa (e_status e)"
  by (simp_all add: messagePropertyValues_def Let_def)

lemma entry_ids: "ua_id (unack_entry_args cfg now (e, clocks)) = Envelope_ID (ue_Message e)"
  by (cases clocks) (simp add: unack_entry_args_def Let_def)

lemma run_lively:
  assumes A: "lively A" and ok: "allowed A op"
  shows "lively (run_op op A)"
proof (cases op)
  case (Publish e)
  have "itoa (e_status e) = itoa (if e_status e = StatusPending then StatusPending else StatusScheduled)"
    using ok Publish by (auto simp: allowed_def)
  with A ok show ?thesis
    by (auto simp: Publish run_op_def run_publish_def Let_def allowed_def values_nth intro!: lively_publish)
next
  case (Checkout now m)
  then obtain c where "m \<in> set (mq_proc A c)" using ok by (auto simp: allowed_def)
  then show ?thesis using A lively_checkout [OF A]
    by (auto simp: Checkout run_op_def checkout_verdict_def split: option.splits if_splits)
next
  case (Unacknowledge cfg now c entries)
  have "\<forall>u \<in> set (map (unack_entry_args cfg now) entries). ua_id u \<in> set (mq_proc A c) \<longrightarrow>
      msg_status_of A (ua_id u) = Some (itoa StatusProcessing)"
    using ok by (auto simp: Unacknowledge allowed_def entry_ids)
  with A show ?thesis by (simp add: Unacknowledge run_op_def lively_unack_batch)
qed (use A ok in \<open>auto simp: run_op_def allowed_def lively_pop lively_zpop lively_ack_batch lively_requeue_batch
    lively_undelay_batch lively_sched_batch lively_delete_batch lively_copy\<close>)

lemma put_pending_conf: "mq_conf (do_publish g m prio ts pending vals A) = mq_conf A"
  by (simp add: do_publish_def Let_def)

lemma fold_conf: "(\<And>x A. mq_conf (f x A) = mq_conf A) \<Longrightarrow> mq_conf (fold f xs A) = mq_conf A"
  by (induction xs arbitrary: A) simp_all

lemma run_conf: "mq_conf (run_op op A) = mq_conf A"
  by (cases op) (auto simp: run_op_def run_publish_def Let_def put_pending_conf pop_pending_def pop_priority_def do_checkout_def
      do_ack_batch_def do_ack_def do_unack_def do_requeue_def do_undelay_def do_copy_def fold_conf)

subsection \<open>The counters\<close>

lemma counter_cases:
  assumes "f \<in> set counter_fields"
  shows "f = F_MessagesCount \<or> (\<exists>s \<in> live_statuses \<union> final_statuses. f = status_counter s)"
  using assms by (auto simp: counter_fields_def status_defs enum_defs)

lemma lively_counter:
  assumes "lively A" and "f \<in> set counter_fields"
  shows "0 \<le> mq_cnt A f" "mq_cnt A f \<le> int (length (mq_pub A))"
proof -
  have life: "life (mq_pub A) (msg_status_of A) (at_place A) (mq_cnt A)" using assms(1) by (simp add: lively_def)
  have "tally pub sts s \<le> length pub" for pub sts s by (simp add: tally_def)
  then show "0 \<le> mq_cnt A f" "mq_cnt A f \<le> int (length (mq_pub A))"
    using counter_cases [OF assms(2)] lifeD(6,7) [OF life] by auto
qed

lemma lively_counters_ok: "lively A \<Longrightarrow> int (length (mq_pub A)) < 2 ^ 63 \<Longrightarrow> counters_ok A"
  unfolding counters_ok_def in_int64_def using lively_counter by fastforce

lemma lively_room: "lively A \<Longrightarrow> int (length (mq_pub A)) + int n < 2 ^ 63 \<Longrightarrow> room A n"
  unfolding room_def using lively_counter by fastforce

lemma lively_count_ok:
  assumes "lively A" and "int (length (mq_pub A)) + 1 < 2 ^ 63" and "f \<in> set counter_fields"
  shows "count_ok f 1 A" "count_ok f (-1) A"
  using lively_counter [OF assms(1,3)] assms(2) by (simp_all add: count_ok_def in_int64_def)

subsection \<open>The scripts do what the operations say\<close>

lemma wp_zpop:
  "wp q (lua_zpoplpush (redis_apply en) [priority_key q g, Queue_ConsumerProcessing q c] []) A
     (\<lambda>r A'. A' = pop_priority g c A \<and>
       r = (if mq_prio A g = fmempty then RNil else RBulk (snd (hd (zset_list (mq_prio A g))))))"
proof (cases "mq_prio A g = fmempty")
  case True
  then show ?thesis
    unfolding lua_zpoplpush_def Let_def pair_nth1 by (intro wp_intros) (simp_all add: pop_priority_def)
next
  case False
  note first = zset_list_first [OF False]
  have "list_range 0 0 (map snd (zset_list (mq_prio A g))) = [snd (hd (zset_list (mq_prio A g)))]"
    using first(1) by (cases "zset_list (mq_prio A g)") (simp_all add: list_range_def Let_def)
  then have read: "lua_strings (redis_apply en) (ZRANGE (priority_key q g) 0 0) d = (Inr [Some (snd (hd (zset_list (mq_prio A g))))], d)"
    if "queue_view q d A" for d
    using queue_view_gets(3) [OF that] by (simp add: lua_strings_def redis_apply.simps look_def and_then_def)
  show ?thesis
    unfolding lua_zpoplpush_def Let_def pair_nth1
    by (intro wp_intros wp_read [OF read]) (use False in \<open>auto intro!: wp_intros simp: pop_priority_def Let_def or_empty_def\<close>)
qed

lemma priority_text_number: "pred_option in_int64 (pm_priority m) \<Longrightarrow> priority_text m \<noteq> [] \<Longrightarrow> is_number (priority_text m)"
  by (auto simp: priority_text_def split: option.splits)

lemma wp_publish_envelope:
  assumes A: "lively A" and ok: "allowed A (Publish e)"
  shows "wp q (invoke q en (Publish e)) A
    (\<lambda>r A'. r = RBulk (publish_verdict A (e_consumerGroupID e) (priority_text (e_producibleMessage e)) (e_status e = StatusPending) []) \<and>
      A' = run_publish e A)"
proof -
  define st where "st = itoa (e_status e)"
  have pending: "(st = itoa StatusPending) = (e_status e = StatusPending)" by (simp add: st_def)
  have small: "int (length (mq_pub A)) + 1 < 2 ^ 63" using ok by (simp add: allowed_def op_size_def)
  note cnt = lively_count_ok [OF A small]
  have able: "publishable A (priority_text (e_producibleMessage e)) (OrEmptyInt64 (State_ScheduledAt (e_messageState e))) (st = itoa StatusPending)"
    unfolding pending
    using ok cnt priority_text_number [of "e_producibleMessage e"]
    by (auto simp: publishable_def allowed_def OrEmptyInt64_def)
  show ?thesis
    unfolding invoke_def Let_def operation.case lua_publish_message_def BuildPublishArgs_def
    by (rule wp_and_then, rule wp_weaken [OF wp_publish_message [where st = st, OF values_nth(1,2) _ _ able]])
      (use ok in \<open>auto simp: values_nth st_def allowed_def run_publish_def Let_def pending intro!: wp_intros\<close>)
qed

lemma requeue_ready_entries:
  assumes "\<forall>e \<in> set msgs. plain_id (Envelope_ID e) \<and> priority_ok A (e_producibleMessage e)"
  shows "requeue_ready A (map (requeue_entry_args now) msgs)"
proof -
  have "is_number (ra_due (requeue_entry_args now e))" for e
    by (simp add: requeue_entry_args_def Let_def)
  moreover have "is_number (ra_priority (requeue_entry_args now e))" if "priority_ok A (e_producibleMessage e)" "mq_conf A F_Type = Some (itoa TypePriority)" for e
    using that priority_text_number [of "e_producibleMessage e"]
    by (auto simp: requeue_entry_args_def Let_def priority_ok_def priority_text_def)
  ultimately show ?thesis using assms by (auto simp: requeue_ready_def requeue_entry_args_def Let_def)
qed

lemma fold_pub: "(\<And>x A. mq_pub (f x A) = mq_pub A) \<Longrightarrow> mq_pub (fold f xs A) = mq_pub A"
  by (induction xs arbitrary: A) simp_all

lemma moves_pub: "mq_pub (do_ack cfg now c m A) = mq_pub A" "mq_pub (do_unack cfg c u A) = mq_pub A"
    "mq_pub (do_requeue now r A) = mq_pub A" "mq_pub (do_undelay now r A) = mq_pub A"
  by (simp_all add: do_ack_def do_unack_def do_requeue_def do_undelay_def retry_move_def put_retry_def delay_move_def Let_def)

lemma batch_counters:
  assumes "lively B" and "mq_pub B = mq_pub A" and "int (length (mq_pub A)) + 1 < 2 ^ 63"
  shows "counters_ok B"
  using lively_counters_ok [OF assms(1)] assms(2,3) by simp

lemma wp_batches:
  assumes A: "lively A" and ok: "allowed A op"
  shows "op = Acknowledge cfg now c ids \<Longrightarrow> wp q (invoke q en op) A (\<lambda>r A'. A' = run_op op A)"
    "op = Unacknowledge cfg now c entries \<Longrightarrow> wp q (invoke q en op) A (\<lambda>r A'. A' = run_op op A)"
    "op = Delete g ids l \<Longrightarrow> known_type A \<Longrightarrow> wp q (invoke q en op) A (\<lambda>r A'. A' = run_op op A)"
proof -
  have live: "lively (run_op op A)" by (rule run_lively [OF A ok])
  have small: "int (length (mq_pub A)) + int (op_size op) < 2 ^ 63" using ok by (simp add: allowed_def)
  show "wp q (invoke q en op) A (\<lambda>r A'. A' = run_op op A)" if op: "op = Acknowledge cfg now c ids"
  proof -
    have "lively (do_ack_batch cfg now c ids A)" using ok A by (auto simp: op allowed_def intro: lively_ack_batch)
    then have cnt: "counters_ok (do_ack_batch cfg now c ids A)"
      by (rule batch_counters [where A = A]) (use small in \<open>simp_all add: op op_size_def do_ack_batch_def Let_def fold_pub moves_pub\<close>)
    show ?thesis unfolding op invoke_def Let_def operation.case
      by (rule wp_weaken [OF wp_acknowledge [OF _ _ cnt]]) (use ok in \<open>auto simp: op allowed_def run_op_def split: option.splits\<close>)
  qed
  show "wp q (invoke q en op) A (\<lambda>r A'. A' = run_op op A)" if op: "op = Unacknowledge cfg now c entries"
  proof -
    let ?us = "map (unack_entry_args cfg now) entries"
    have "lively (fold (do_unack cfg c) ?us A)"
      by (rule lively_unack_batch [OF A]) (use ok in \<open>auto simp: op allowed_def entry_ids\<close>)
    then have cnt: "counters_ok (fold (do_unack cfg c) ?us A)"
      by (rule batch_counters [where A = A]) (use small in \<open>simp_all add: op op_size_def fold_pub moves_pub\<close>)
    show ?thesis unfolding op invoke_def Let_def operation.case buildBatchLuaArgs_def prod.case
      by (rule wp_weaken [OF wp_unacknowledge [OF _ _ _ _ cnt]]) (use ok in \<open>auto simp: op allowed_def run_op_def split: option.splits\<close>)
  qed
  show "wp q (invoke q en op) A (\<lambda>r A'. A' = run_op op A)" if op: "op = Delete g ids l" and ty: "known_type A"
  proof -
    have ready: "delete_ready A ids" "ids \<noteq> []"
      using ok ty lively_room [OF A, of "length ids"] by (auto simp: op op_size_def allowed_def delete_ready_def delete_allowed_def)
    show ?thesis unfolding op invoke_def Let_def operation.case
      by (rule wp_weaken [OF wp_delete [OF ready]]) (auto simp: op run_op_def split: option.splits)
  qed
qed

lemma wp_requeues:
  assumes A: "lively A" and ok: "allowed A op" and ty: "known_type A"
  shows "op = RequeueNow now msgs \<Longrightarrow> wp q (invoke q en op) A (\<lambda>r A'. A' = run_op op A)"
    "op = RequeueDue now msgs \<Longrightarrow> wp q (invoke q en op) A (\<lambda>r A'. A' = run_op op A)"
proof -
  have small: "int (length (mq_pub A)) + int (op_size op) < 2 ^ 63" using ok by (simp add: allowed_def)
  let ?us = "map (requeue_entry_args now) msgs"
  show "wp q (invoke q en op) A (\<lambda>r A'. A' = run_op op A)" if op: "op = RequeueNow now msgs"
  proof -
    have ready: "requeue_ready A ?us" using ok by (intro requeue_ready_entries) (simp add: op allowed_def)
    have cnt: "counters_ok (fold (do_requeue now) ?us A)"
      by (rule batch_counters [OF lively_requeue_batch [OF A]]) (use small in \<open>simp_all add: op op_size_def fold_pub moves_pub\<close>)
    show ?thesis unfolding op invoke_def Let_def operation.case
      by (rule wp_weaken [OF wp_requeue_immediate [OF ready ty cnt]])
        (use ty in \<open>auto simp: requeue_post_def run_op_def known_type_def split: option.splits\<close>)
  qed
  show "wp q (invoke q en op) A (\<lambda>r A'. A' = run_op op A)" if op: "op = RequeueDue now msgs"
  proof -
    have ready: "requeue_ready A ?us" using ok by (intro requeue_ready_entries) (simp add: op allowed_def)
    have cnt: "counters_ok (fold (do_undelay now) ?us A)"
      by (rule batch_counters [OF lively_undelay_batch [OF A]]) (use small in \<open>simp_all add: op op_size_def fold_pub moves_pub\<close>)
    show ?thesis unfolding op invoke_def Let_def operation.case
      by (rule wp_weaken [OF wp_requeue_delayed [OF ready ty cnt]])
        (use ty in \<open>auto simp: requeue_post_def run_op_def known_type_def split: option.splits\<close>)
  qed
qed

lemma wp_due:
  assumes A: "lively A" and ok: "allowed A (PublishDue gx defaults g msgs)" and ty: "known_type A"
  shows "wp q (invoke q en (PublishDue gx defaults g msgs)) A (\<lambda>r A'. A' = run_op (PublishDue gx defaults g msgs) A)"
proof (cases "state_verdict A = None")
  case True
  have "room A (length msgs)" using lively_room [OF A] ok by (simp add: allowed_def op_size_def)
  then have ready: "sched_ready A (map (sched_entry_args gx defaults) msgs)"
    using ok ty True by (auto simp: allowed_def sched_ready_def sched_batch_def)
  show ?thesis unfolding invoke_def Let_def operation.case
    by (rule wp_weaken [OF wp_publish_scheduled [OF ready]]) (simp add: run_op_def True)
next
  case False
  show ?thesis unfolding invoke_def Let_def operation.case
    by (rule wp_weaken [OF wp_publish_scheduled_refused [OF False]]) (simp add: run_op_def False)
qed

lemma invoke_wp:
  assumes A: "lively A" and ok: "allowed A op" and ty: "known_type A"
  shows "wp q (invoke q en op) A (\<lambda>r A'. A' = run_op op A)"
proof (cases op)
  case (Publish e)
  show ?thesis unfolding Publish
    by (rule wp_weaken [OF wp_publish_envelope [OF A ok [unfolded Publish]]]) (simp add: run_op_def)
next
  case (Pop g c)
  show ?thesis
  proof (cases "mq_pend A g = []")
    case True
    show ?thesis unfolding Pop invoke_def Let_def operation.case
      by (rule wp_call [OF steps_pop(2) [OF True]]) (simp add: run_op_def pop_pending_def True)
  next
    case False
    then obtain xs m where xs: "mq_pend A g = xs @ [m]" by (metis append_butlast_last_id)
    show ?thesis unfolding Pop invoke_def Let_def operation.case
      by (rule wp_call [OF steps_pop(1) [OF xs]]) (simp add: run_op_def pop_pending_def xs)
  qed
next
  case (PopPriority g c)
  show ?thesis unfolding PopPriority invoke_def Let_def operation.case
    by (rule wp_weaken [OF wp_zpop]) (simp add: run_op_def)
next
  case (Checkout now m)
  have small: "int (length (mq_pub A)) + 1 < 2 ^ 63" using ok by (simp add: allowed_def op_size_def Checkout)
  note cnt = lively_count_ok [OF A small]
  show ?thesis unfolding Checkout invoke_def Let_def operation.case
    by (rule wp_weaken [OF wp_checkout]) (use ok cnt in \<open>auto simp: Checkout allowed_def run_op_def split: option.splits\<close>)
next
  case (CopyMessage g m n json p ts at)
  have small: "int (length (mq_pub A)) + 1 < 2 ^ 63" using ok by (simp add: allowed_def op_size_def CopyMessage)
  have able: "publishable A p [] True"
    using lively_count_ok [OF A small] ok by (simp add: publishable_def allowed_def CopyMessage)
  show ?thesis unfolding CopyMessage invoke_def Let_def operation.case
    by (rule wp_weaken [OF wp_requeue_message [OF _ _ _ able]])
      (use ok in \<open>auto simp: CopyMessage allowed_def run_op_def split: option.splits\<close>)
next
  case (PublishDue gx defaults g msgs)
  show ?thesis unfolding PublishDue by (rule wp_due [OF A ok [unfolded PublishDue] ty])
qed ((erule wp_batches [OF A ok] wp_requeues [OF A ok ty]; (rule ty)?)+)

subsection \<open>Runs\<close>

text \<open>A queue without messages.\<close>

definition unused :: "mq \<Rightarrow> bool" where
  "unused A \<longleftrightarrow> mq_pub A = [] \<and> (\<forall>p. at_place A p = {}) \<and> (\<forall>f \<in> set counter_fields. mq_cnt A f = 0)"

definition settings :: "mq \<Rightarrow> (string \<Rightarrow> string option) \<Rightarrow> string fset \<Rightarrow> (string \<Rightarrow> (string, string) fmap) \<Rightarrow> (string \<Rightarrow> string list) \<Rightarrow> mq" where
  "settings A conf grps msg hist = A\<lparr>mq_conf := conf, mq_grps := grps, mq_msg := msg, mq_hist := hist\<rparr>"

text \<open>Between two operations on the messages of the queue everything else may change: the state, the lock
  and the groups of the queue, and messages of other queues.\<close>

inductive reach :: "queue_key \<Rightarrow> db \<Rightarrow> mq \<Rightarrow> bool" for q where
  start: "queue_view q d A \<Longrightarrow> known_type A \<Longrightarrow> unused A \<Longrightarrow> reach q d A"
| operate: "reach q d A \<Longrightarrow> allowed A op \<Longrightarrow> invoke q en op d = (r, d') \<Longrightarrow> reach q d' (run_op op A)"
| elsewhere: "reach q d A \<Longrightarrow> conf F_Type = mq_conf A F_Type \<Longrightarrow>
    (\<And>m. m \<in> set (mq_pub A) \<or> (\<exists>p. m \<in> at_place A p) \<Longrightarrow> msg m = mq_msg A m \<and> hist m = mq_hist A m) \<Longrightarrow>
    queue_view q d' (settings A conf grps msg hist) \<Longrightarrow> reach q d' (settings A conf grps msg hist)"

lemma lively_unused:
  assumes "unused A"
  shows "lively A"
proof -
  have "status_counter s \<in> set counter_fields" for s by (simp add: status_counter_def counter_fields_def)
  then have cnt: "mq_cnt A (status_counter s) = 0" for s using assms by (simp add: unused_def)
  have none: "x \<notin> at_place A p" for x p using assms by (simp add: unused_def)
  have all: "at_place A p = {}" for p using assms by (simp add: unused_def)
  have "tidy A"
    using all [of "Pend _"] all [of "Proc _"] all [of Req] all [of Ack] all [of Dead] by (simp add: tidy_def)
  with assms none cnt show ?thesis by (simp add: lively_def life_def unused_def counter_fields_def)
qed

lemma lively_settings:
  assumes A: "lively A" and same: "\<And>m. m \<in> set (mq_pub A) \<or> (\<exists>p. m \<in> at_place A p) \<Longrightarrow> msg m = mq_msg A m"
  shows "lively (settings A conf grps msg hist)" (is "lively ?B")
proof -
  have life: "life (mq_pub A) (msg_status_of A) (at_place A) (mq_cnt A)" using A by (simp add: lively_def)
  have at: "at_place ?B = at_place A" by (rule ext) (simp add: settings_def at_place_def split: place.split)
  have st: "msg_status_of ?B m = msg_status_of A m" if "m \<in> set (mq_pub A) \<or> (\<exists>p. m \<in> at_place A p)" for m
    using same [OF that] by (simp add: settings_def msg_status_of_def)
  have tally: "tally (mq_pub A) (msg_status_of ?B) s = tally (mq_pub A) (msg_status_of A) s" for s
    by (rule tally_cong) (simp add: st)
  have "life (mq_pub A) (msg_status_of ?B) (at_place A) (mq_cnt A)"
    unfolding life_def tally using life [unfolded life_def] st by (intro conjI ballI allI impI) (metis | blast)+
  then show ?thesis using A by (simp add: lively_def at) (simp add: settings_def tidy_def)
qed

lemma reach_view:
  assumes "reach q d A"
  shows "queue_view q d A \<and> lively A \<and> known_type A"
  using assms
proof induction
  case (operate d A op en r d')
  then have ok: "lively A" "allowed A op" "known_type A" "queue_view q d A" by simp_all
  obtain r' d'' A' where "invoke q en op d = (Inr r', d'')" "queue_view q d'' A'" "A' = run_op op A"
    using wpD [OF invoke_wp [OF ok(1-3)] ok(4)] by metis
  with operate.hyps(3) run_lively [OF ok(1,2)] ok(3) show ?case by (simp add: known_type_def run_conf)
next
  case (elsewhere d A conf msg hist d' grps)
  then have "lively (settings A conf grps msg hist)" by (intro lively_settings) simp_all
  with elsewhere show ?case by (simp add: known_type_def) (simp add: settings_def)
qed (simp add: lively_unused)

subsection \<open>Creation\<close>

text \<open>No key of the queue exists, and the keys of messages have their types.\<close>

definition vacant :: "queue_key \<Rightarrow> db \<Rightarrow> bool" where
  "vacant q d \<longleftrightarrow> (\<forall>rest. d (Queue_sub q rest) = None) \<and>
     (\<forall>m. plain_id m \<longrightarrow> \<not> isl (get_hash d (System_Message m)) \<and> \<not> isl (get_list d (System_MessageAcknowledgementHistory m)))"

definition new_queue :: "int \<Rightarrow> queue_type \<Rightarrow> DeliveryModel \<Rightarrow> rate_limit option \<Rightarrow> db \<Rightarrow> mq" where
  "new_queue now qt dm rl d =
     \<lparr>mq_conf = (\<lambda>f. fmlookup (created_hash now qt dm rl fmempty) f), mq_cnt = (\<lambda>f. 0), mq_pub = [], mq_pend = (\<lambda>g. []),
      mq_prio = (\<lambda>g. fmempty), mq_sched = fmempty, mq_dly = fmempty, mq_req = [], mq_ack = [], mq_dl = [],
      mq_proc = (\<lambda>c. []), mq_grps = {||}, mq_msg = (\<lambda>m. projr (get_hash d (System_Message m))),
      mq_hist = (\<lambda>m. projr (get_list d (System_MessageAcknowledgementHistory m)))\<rparr>"

lemma created_counters: "f \<in> set counter_fields \<Longrightarrow> fmlookup (created_hash now qt dm rl h) f = Some (itoa 0)"
  unfolding created_hash_def itoa_zero by (rule hset_all_in) (auto simp: counter_fields_def schema_defs)

lemma created_props_view: "props_view (created_hash now qt dm rl fmempty) (new_queue now qt dm rl d)"
  by (simp add: props_view_def new_queue_def created_counters in_int64_def)

lemma queue_subs:
  "\<exists>rest. Queue_Properties q = Queue_sub q rest" "\<exists>rest. Queue_Published q = Queue_sub q rest"
  "\<exists>rest. pending_key q g = Queue_sub q rest" "\<exists>rest. priority_key q g = Queue_sub q rest"
  "\<exists>rest. Queue_Scheduled q = Queue_sub q rest" "\<exists>rest. Queue_Delayed q = Queue_sub q rest"
  "\<exists>rest. Queue_Requeued q = Queue_sub q rest" "\<exists>rest. Queue_Acknowledged q = Queue_sub q rest"
  "\<exists>rest. Queue_DeadLetter q = Queue_sub q rest" "\<exists>rest. Queue_ConsumerProcessing q c = Queue_sub q rest"
  "\<exists>rest. Queue_ConsumerGroups q = Queue_sub q rest"
  by (auto simp: pending_key_def priority_key_def Queue_Properties_def Queue_Published_def
      Queue_PendingWithGroup_def Queue_Pending_def Queue_PriorityWithGroup_def Queue_Priority_def Queue_Scheduled_def
      Queue_Delayed_def Queue_Requeued_def Queue_Acknowledged_def Queue_DeadLetter_def Queue_ConsumerProcessing_def
      Queue_ConsumerGroups_def)

lemma created_view:
  assumes d: "queue_typed d p" "vacant (qkey p) d"
  shows "queue_view (qkey p) (created_db now p qt dm rl d) (new_queue now qt dm rl d)"
proof -
  have none: "d (Queue_Published (qkey p)) = None" "d (pending_key (qkey p) g) = None" "d (priority_key (qkey p) g) = None"
    "d (Queue_Scheduled (qkey p)) = None" "d (Queue_Delayed (qkey p)) = None" "d (Queue_Requeued (qkey p)) = None"
    "d (Queue_Acknowledged (qkey p)) = None" "d (Queue_DeadLetter (qkey p)) = None"
    "d (Queue_ConsumerProcessing (qkey p) c) = None" "d (Queue_ConsumerGroups (qkey p)) = None" "d (Queue_Properties (qkey p)) = None" for g c
    using d(2) queue_subs by (metis vacant_def)+
  have hash: "queue_hash d p = fmempty" by (simp add: queue_hash_def get_hash_def none)
  define M H where "M m = projr (get_hash d (System_Message m))" and "H m = projr (get_list d (System_MessageAcknowledgementHistory m))" for m
  have msgs: "get_hash d (System_Message m) = Inr (M m)" "get_list d (System_MessageAcknowledgementHistory m) = Inr (H m)"
    if "plain_id m" for m
    using d(2) that by (auto simp: vacant_def isl_def M_def H_def)
  define d' where "d' = created_db now p qt dm rl d"
  have props: "get_hash d' (Queue_Properties (qkey p)) = Inr (created_hash now qt dm rl fmempty)"
    unfolding d'_def created_db_views(3) hash ..
  have others: "d' k = d k" if "k \<notin> set (create_queue_keys p)" for k
    unfolding d'_def by (rule created_db_views(4) [OF that])
  have keys: "Queue_Published (qkey p) \<notin> set (create_queue_keys p)" "pending_key (qkey p) g \<notin> set (create_queue_keys p)"
    "priority_key (qkey p) g \<notin> set (create_queue_keys p)" "Queue_Scheduled (qkey p) \<notin> set (create_queue_keys p)"
    "Queue_Delayed (qkey p) \<notin> set (create_queue_keys p)" "Queue_Requeued (qkey p) \<notin> set (create_queue_keys p)"
    "Queue_Acknowledged (qkey p) \<notin> set (create_queue_keys p)" "Queue_DeadLetter (qkey p) \<notin> set (create_queue_keys p)"
    "Queue_ConsumerProcessing (qkey p) c \<notin> set (create_queue_keys p)" "Queue_ConsumerGroups (qkey p) \<notin> set (create_queue_keys p)"
    "System_Message m \<notin> set (create_queue_keys p)" "System_MessageAcknowledgementHistory m \<notin> set (create_queue_keys p)" for g c m
    by (simp_all add: create_queue_keys_def pending_key_def priority_key_def key_defs Key_eq_iff qkey_def)
  have empty: "get_list d' k = Inr []" "get_zset d' k = Inr fmempty" "get_set d' k = Inr {||}" if "d' k = None" for k
    using that by (simp_all add: get_list_def get_zset_def get_set_def)
  have same: "get_hash d' (System_Message m) = get_hash d (System_Message m)"
    "get_list d' (System_MessageAcknowledgementHistory m) = get_list d (System_MessageAcknowledgementHistory m)" for m
    by (simp_all add: get_hash_def get_list_def others keys)
  note vacancies = none [unfolded others [OF keys(1), symmetric] others [OF keys(2), symmetric] others [OF keys(3), symmetric]
      others [OF keys(4), symmetric] others [OF keys(5), symmetric] others [OF keys(6), symmetric] others [OF keys(7), symmetric]
      others [OF keys(8), symmetric] others [OF keys(9), symmetric] others [OF keys(10), symmetric]]
  have view: "mq_pub B = []" "mq_pend B g = []" "mq_prio B g = fmempty" "mq_sched B = fmempty" "mq_dly B = fmempty" "mq_req B = []"
    "mq_ack B = []" "mq_dl B = []" "mq_proc B c = []" "mq_grps B = {||}"
    "mq_msg B m = M m" "mq_hist B m = H m"
    if "B = new_queue now qt dm rl d" for B g c m
    by (simp_all add: that new_queue_def M_def H_def)
  show ?thesis
    unfolding queue_view_def d'_def [symmetric] props
    by (simp add: view vacancies empty same msgs created_props_view)
qed

end
