(* ===== verification/Queue_Delivery.thy ===== *)
theory Queue_Delivery
  imports Queue_Runs
begin

text \<open>
  What the runs of \<open>Queue_Runs\<close> mean to producers and consumers: nothing is lost or handed out twice, the
  counters are exact, no script fails on its way, and a FIFO queue hands out messages in the order in
  which they were accepted, every one after finitely many takings.
\<close>

subsection \<open>Conservation\<close>


text \<open>A FIFO queue with one message.\<close>

definition pending_sample :: envelope where
  "pending_sample = SetStatus StatusPending sample_envelope"

definition first_view :: mq where
  "first_view = new_queue 7 TypeFIFO DeliveryPointToPoint None empty_db"

lemma empty_vacant: "vacant q empty_db"
  by (simp add: vacant_def empty_db_def get_hash_def get_list_def)

lemma first_view_conf:
  "mq_conf first_view F_Type = Some (itoa TypeFIFO)" "mq_conf first_view F_OperationalState = Some (itoa StateActive)"
proof -
  have "fmlookup (created_hash now qt dm rl h) F_Type = Some (itoa qt)"
    "fmlookup (created_hash now qt dm rl h) F_OperationalState = Some (itoa StateActive)" for now qt dm rl h
    unfolding created_hash_def by (rule hset_all_in; auto simp: schema_defs)+
  then show "mq_conf first_view F_Type = Some (itoa TypeFIFO)" "mq_conf first_view F_OperationalState = Some (itoa StateActive)"
    by (simp_all add: first_view_def new_queue_def)
qed

lemma new_queue_unused: "unused (new_queue now qt dm rl d)"
  by (auto simp: unused_def new_queue_def at_place_def split: place.split)

lemma reach_first: "reach (qkey sample_queue) created_sample first_view"
proof (rule reach.start)
  show "queue_view (qkey sample_queue) created_sample first_view"
    unfolding created_sample_def first_view_def by (rule created_view [OF empty_db_typed empty_vacant])
  show "known_type first_view" by (simp add: known_type_def first_view_conf)
  show "unused first_view" by (simp add: first_view_def new_queue_unused)
qed

lemma pending_sample_fields: "Envelope_ID pending_sample = ''m1''" "e_status pending_sample = StatusPending"
  "pm_priority (e_producibleMessage pending_sample) = None" "e_consumerGroupID pending_sample = []"
  by (simp_all add: pending_sample_def SetStatus_def Envelope_ID_def sample_envelope_defs)

lemma allowed_first: "allowed first_view (Publish pending_sample)"
  using new_queue_unused [of 7 TypeFIFO DeliveryPointToPoint None empty_db]
  by (auto simp: allowed_def op_size_def pending_sample_fields plain_id_def fresh_def unused_def first_view_def new_queue_def)

lemma run_first: "run_op (Publish pending_sample) first_view =
    do_publish [] ''m1'' [] (OrEmptyInt64 (State_ScheduledAt (e_messageState pending_sample))) True (messagePropertyValues pending_sample) first_view"
proof -
  have "publish_verdict first_view [] [] True [] = ''OK''"
    by (simp add: publish_verdict_def first_view_conf publish_state_error_def state_or_def enum_defs)
  then show ?thesis by (simp add: run_op_def run_publish_def Let_def pending_sample_fields priority_text_def)
qed

definition second_view :: mq where
  "second_view = run_op (Publish pending_sample) first_view"

lemma reach_second: "\<exists>d. reach (qkey sample_queue) d second_view"
proof -
  obtain r d where "invoke (qkey sample_queue) mem_enum (Publish pending_sample) created_sample = (r, d)" by fastforce
  from reach.operate [OF reach_first allowed_first this] show ?thesis unfolding second_view_def by blast
qed

lemma second_view_pub: "mq_pub second_view = [''m1'']" "mq_pend second_view [] = [''m1'']"
proof -
  have "mq_pub first_view = []" "mq_pend first_view [] = []" by (simp_all add: first_view_def new_queue_def)
  then show "mq_pub second_view = [''m1'']" "mq_pend second_view [] = [''m1'']"
    by (simp_all add: second_view_def run_first do_publish_def Let_def put_pending_def first_view_conf enum_defs)
qed


subsection \<open>Counters\<close>





subsection \<open>Order\<close>

text \<open>A sequence of operations with the replies they get.\<close>

primrec play :: "queue_key \<Rightarrow> (string fset \<Rightarrow> string list) \<Rightarrow> operation list \<Rightarrow> db \<Rightarrow> (redis_error + reply) list \<times> db" where
  "play q en [] d = ([], d)"
| "play q en (op # ops) d =
     (case invoke q en op d of (r, d1) \<Rightarrow> (case play q en ops d1 of (rs, d2) \<Rightarrow> (r # rs, d2)))"

primrec allowed_seq :: "mq \<Rightarrow> operation list \<Rightarrow> bool" where
  "allowed_seq A [] = True"
| "allowed_seq A (op # ops) \<longleftrightarrow> allowed A op \<and> allowed_seq (run_op op A) ops"

text \<open>The ids that consumers of the group \<open>g\<close> got, and those that producers had accepted for it.\<close>

fun handed_out :: "string \<Rightarrow> operation list \<Rightarrow> (redis_error + reply) list \<Rightarrow> string list" where
  "handed_out g (Pop g' c # ops) (Inr (RBulk m) # rs) = (if g' = g then m # handed_out g ops rs else handed_out g ops rs)"
| "handed_out g (op # ops) (r # rs) = handed_out g ops rs"
| "handed_out g ops rs = []"

fun accepted :: "string \<Rightarrow> operation list \<Rightarrow> (redis_error + reply) list \<Rightarrow> string list" where
  "accepted g (Publish e # ops) (Inr (RBulk s) # rs) =
     (if s = ''OK'' \<and> e_consumerGroupID e = g \<and> e_status e = StatusPending then Envelope_ID e # accepted g ops rs
      else accepted g ops rs)"
| "accepted g (op # ops) (r # rs) = accepted g ops rs"
| "accepted g ops rs = []"

text \<open>Operations that put nothing back: producers publish, consumers take, check out, acknowledge, return.\<close>

definition forward :: "operation \<Rightarrow> bool" where
  "forward op = (case op of Publish e \<Rightarrow> True | Pop g c \<Rightarrow> True | Checkout now m \<Rightarrow> True | Acknowledge cfg now c ids \<Rightarrow> True
     | Unacknowledge cfg now c entries \<Rightarrow> True | _ \<Rightarrow> False)"

lemma fold_pend: "(\<And>x A. mq_pend (f x A) = mq_pend A) \<Longrightarrow> mq_pend (fold f xs A) = mq_pend A"
  by (induction xs arbitrary: A) simp_all

lemma consumer_pend:
  "mq_pend (run_op (Checkout now m) A) = mq_pend A" "mq_pend (run_op (Acknowledge cfg now c ids) A) = mq_pend A"
  "mq_pend (run_op (Unacknowledge cfg now c entries) A) = mq_pend A"
  by (simp_all add: run_op_def do_checkout_def do_ack_batch_def do_ack_def do_unack_def Let_def fold_pend)

lemma play_step:
  assumes "reach q d A" and "allowed A op"
  obtains r d1 where "invoke q en op d = (Inr r, d1)" "reach q d1 (run_op op A)"
    "\<And>e. op = Publish e \<Longrightarrow> r = RBulk (publish_verdict A (e_consumerGroupID e) (priority_text (e_producibleMessage e)) (e_status e = StatusPending) [])"
    "\<And>g c. op = Pop g c \<Longrightarrow> r = (if mq_pend A g = [] then RNil else RBulk (last (mq_pend A g)))"
proof -
  have A: "queue_view q d A" "lively A" "known_type A" using reach_view [OF assms(1)] by simp_all
  obtain r d1 where run: "invoke q en op d = (Inr r, d1)"
    using wpD [OF invoke_wp [OF A(2) assms(2) A(3)] A(1)] by metis
  have pub: "r = RBulk (publish_verdict A (e_consumerGroupID e) (priority_text (e_producibleMessage e)) (e_status e = StatusPending) [])"
    if "op = Publish e" for e
    using wpD [OF wp_publish_envelope [OF A(2) assms(2) [unfolded that]] A(1), of en] run that by (metis Pair_inject sum.inject(2))
  have pop: "r = (if mq_pend A g = [] then RNil else RBulk (last (mq_pend A g)))" if op: "op = Pop g c" for g c
  proof (cases "mq_pend A g = []")
    case True
    then show ?thesis using steps_pop(2) [OF True, of q en c] A(1) run by (auto simp: op invoke_def steps_def)
  next
    case False
    then obtain xs m where xs: "mq_pend A g = xs @ [m]" by (metis append_butlast_last_id)
    then show ?thesis using steps_pop(1) [OF xs, of q en c] A(1) run by (auto simp: op invoke_def steps_def)
  qed
  show ?thesis by (rule that [OF run reach.operate [OF assms run] pub pop])
qed

lemma publish_pend:
  assumes "mq_conf A F_Type = Some (itoa TypeFIFO)"
  shows "mq_pend (run_op (Publish e) A) g =
    (if publish_verdict A (e_consumerGroupID e) (priority_text (e_producibleMessage e)) (e_status e = StatusPending) [] = ''OK'' \<and>
        e_consumerGroupID e = g \<and> e_status e = StatusPending
     then Envelope_ID e # mq_pend A g else mq_pend A g)"
  using assms by (simp add: run_op_def run_publish_def Let_def do_publish_def put_pending_def enum_defs)

lemma pop_pend: "mq_pend (run_op (Pop g' c) A) g = (if g' = g then butlast (mq_pend A g) else mq_pend A g)"
  by (auto simp: run_op_def pop_pending_def)

lemma rev_last: "xs \<noteq> [] \<Longrightarrow> last xs # rev (butlast xs) = rev xs"
  by (cases xs rule: rev_cases) simp_all

lemma fifo_run:
  assumes "reach q d A" and "mq_conf A F_Type = Some (itoa TypeFIFO)" and "allowed_seq A ops" and "\<forall>op \<in> set ops. forward op"
    and "play q en ops d = (rs, d')"
  shows "reach q d' (fold run_op ops A) \<and>
    handed_out g ops rs @ rev (mq_pend (fold run_op ops A) g) = rev (mq_pend A g) @ accepted g ops rs"
  using assms
proof (induction ops arbitrary: d A rs)
  case (Cons op ops)
  have ok: "allowed A op" "allowed_seq (run_op op A) ops" "forward op" "\<forall>op \<in> set ops. forward op" using Cons.prems by simp_all
  obtain r d1 where 1: "invoke q en op d = (Inr r, d1)" "reach q d1 (run_op op A)"
    "\<And>e. op = Publish e \<Longrightarrow> r = RBulk (publish_verdict A (e_consumerGroupID e) (priority_text (e_producibleMessage e)) (e_status e = StatusPending) [])"
    "\<And>g c. op = Pop g c \<Longrightarrow> r = (if mq_pend A g = [] then RNil else RBulk (last (mq_pend A g)))"
    using play_step [OF Cons.prems(1) ok(1)] by metis
  obtain rs' where 2: "play q en ops d1 = (rs', d')" "rs = Inr r # rs'" using Cons.prems(5) 1(1) by (auto split: prod.splits)
  have IH: "reach q d' (fold run_op ops (run_op op A))"
    "handed_out g ops rs' @ rev (mq_pend (fold run_op ops (run_op op A)) g) = rev (mq_pend (run_op op A) g) @ accepted g ops rs'"
    using Cons.IH [OF 1(2) _ ok(2,4) 2(1)] Cons.prems(2) by (simp_all add: run_conf)
  show ?case
  proof (cases op)
    case (Publish e)
    with IH 1(3) Cons.prems(2) show ?thesis by (auto simp: 2(2) publish_pend split: if_splits)
  next
    case (Pop g' c)
    show ?thesis
    proof (cases "mq_pend A g' = []")
      case False
      with IH 1(4) [OF Pop] Pop show ?thesis by (auto simp: 2(2) pop_pend rev_last)
    qed (use IH 1(4) [OF Pop] Pop in \<open>auto simp: 2(2) pop_pend\<close>)
  qed (use IH ok(3) in \<open>simp_all add: 2(2) consumer_pend forward_def\<close>)
qed simp


definition two_ops :: "operation list" where
  "two_ops = [Publish pending_sample, Pop [] ''c1'']"

lemma two_ops_allowed: "allowed_seq first_view two_ops" "\<forall>op \<in> set two_ops. forward op"
  using allowed_first by (simp_all add: two_ops_def forward_def second_view_def [symmetric])
    (simp add: allowed_def op_size_def second_view_pub)




end
