(* ===== verification/Queue_Client.thy ===== *)
theory Queue_Client
  imports Queue_Delivery
begin

text \<open>
  What a client knows after it has run a script on a queue. A script that comes to its end on every
  order of enumeration either is reported as done, or the call fails for Redis and the script has run
  completely or not at all. For the operations of \<open>Queue_Runs\<close> that means: whatever the Go code is told,
  the database is one that \<open>reach\<close> describes.
\<close>

context redis
begin

lemma Eval_total:
  assumes run: "Eval rd i ks as s = (r, s')"
    and total: "\<And>en. enum_ok en \<Longrightarrow> \<exists>x d'. lua i (redis_apply en) ks as (db s) = (Inr x, d')"
  shows "(\<exists>en x. enum_ok en \<and> r = Inr x \<and> x \<noteq> RNil \<and> lua i (redis_apply en) ks as (db s) = (Inr x, db s')) \<or>
    (\<exists>e. r = Inl e \<and> redis_fault e \<and>
       (db s' = db s \<or> (\<exists>en. enum_ok en \<and> db s' = snd (lua i (redis_apply en) ks as (db s)))))"
proof -
  have good: "(\<exists>en x. enum_ok en \<and> r0 = Inr x \<and> lua i (redis_apply en) ks as (db s) = (Inr x, db s1)) \<or>
      (\<exists>m. r0 = Inl (ConnError m)) \<and> (db s1 = db s \<or> (\<exists>en. enum_ok en \<and> db s1 = snd (lua i (redis_apply en) ks as (db s))))"
    if srv: "served db (\<lambda>en. lua i (redis_apply en) ks as) s0 r0 s1" "db s0 = db s" for s0 r0 s1
  proof -
    obtain en where en: "enum_ok en" and alt: "lua i (redis_apply en) ks as (db s) = (r0, db s1) \<or>
        is_conn_error r0 \<and> (db s1 = db s \<or> db s1 = snd (lua i (redis_apply en) ks as (db s)))"
      using srv unfolding served_def by auto
    obtain x d' where "lua i (redis_apply en) ks as (db s) = (Inr x, d')" using total [OF en] by blast
    with en alt show ?thesis
      by (auto simp: is_conn_error_def split: sum.splits redis_error.splits)
  qed
  obtain r1 s1 where r1: "evalsha rd i ks as s = (r1, s1)" by fastforce
  show ?thesis
  proof (cases "r1 = Inl NoScript")
    case True
    with evalsha_served [OF r1] have s1: "db s1 = db s" by simp
    obtain r2 s2 where r2: "eval_text rd i ks as s1 = (r2, s2)" by fastforce
    have out: "s' = s2 \<and> r = (case r2 of Inl e \<Rightarrow> Inl (RedisErr e) | Inr x \<Rightarrow> if x = RNil then Inl (RedisErr RedisNil) else Inr x)"
      using run r1 True r2
      by (auto simp: Eval_def try_io_def and_then_def map_err_def nil_reply_def split: sum.splits if_splits)
    from good [OF eval_served [OF r2] s1] show ?thesis
    proof (elim disjE exE conjE)
      fix en x assume *: "enum_ok en" "r2 = Inr x" "lua i (redis_apply en) ks as (db s) = (Inr x, db s2)"
      show ?thesis by (cases "x = RNil") (use * out in \<open>auto intro!: exI [of _ en]\<close>)
    qed (use out in auto)
  next
    case False
    with evalsha_served [OF r1] have srv: "served db (\<lambda>en. lua i (redis_apply en) ks as) s r1 s1" by simp
    have out: "s' = s1 \<and> r = (case r1 of Inl e \<Rightarrow> Inl (Wrapf ''execute script'' (RedisErr e))
        | Inr x \<Rightarrow> if x = RNil then Inl (Wrapf ''execute script'' (RedisErr RedisNil)) else Inr x)"
      using run r1 False by (auto simp: Eval_def try_io_def and_then_def nil_reply_def split: sum.splits if_splits)
    from good [OF srv refl] show ?thesis
    proof (elim disjE exE conjE)
      fix en x assume *: "enum_ok en" "r1 = Inr x" "lua i (redis_apply en) ks as (db s) = (Inr x, db s1)"
      show ?thesis by (cases "x = RNil") (use * out in \<open>auto intro!: exI [of _ en]\<close>)
    qed (use out in auto)
  qed
qed

text \<open>A script that leaves all keys but one alone does so however the call ends.\<close>

lemma Eval_frame:
  assumes "Eval rd i ks as s = (r, s')" and "\<And>en d. snd (lua i (redis_apply en) ks as d) k = d k"
  shows "db s' k = db s k"
  using Eval_db [OF assms(1)] assms(2) by auto

end

subsection \<open>Operations on a reachable queue\<close>

lemma invoke_total:
  assumes "reach q d A" and "allowed A op"
  shows "\<exists>x d'. invoke q en op d = (Inr x, d') \<and> reach q d' (run_op op A)"
proof -
  have view: "queue_view q d A" "lively A" "known_type A" using reach_view [OF assms(1)] by simp_all
  obtain x d' where run: "invoke q en op d = (Inr x, d')"
    using wpD [OF invoke_wp [OF view(2) assms(2) view(3)] view(1)] by metis
  with reach.operate [OF assms run] show ?thesis by blast
qed

context smq_queues
begin

lemma Eval_operate:
  assumes reach: "reach q (db s) A" and ok: "allowed A op"
    and op: "\<And>en. invoke q en op = smq_scripts other i (redis_apply en) ks as"
    and run: "Eval (env_redis env) i ks as s = (r, s')"
  shows "(\<exists>en x. enum_ok en \<and> r = Inr x \<and> x \<noteq> RNil \<and> invoke q en op (db s) = (Inr x, db s') \<and> reach q (db s') (run_op op A)) \<or>
    (\<exists>e. r = Inl e \<and> redis_fault e \<and> (db s' = db s \<or> reach q (db s') (run_op op A)))"
proof -
  have total: "\<exists>x d'. smq_scripts other i (redis_apply en) ks as (db s) = (Inr x, d') \<and> reach q d' (run_op op A)" for en
    using invoke_total [OF reach ok, of en] by (simp add: op)
  from Eval_total [OF run] total show ?thesis unfolding op by (metis snd_conv prod.inject)
qed

lemma exec_operate:
  assumes reach: "reach q (db s) A" and ok: "allowed A op"
    and op: "\<And>en. invoke q en op = redis_apply en c"
    and run: "exec (env_redis env) c s = (r, s')"
  shows "(\<exists>en x. enum_ok en \<and> r = Inr x \<and> invoke q en op (db s) = (Inr x, db s') \<and> reach q (db s') (run_op op A)) \<or>
    (\<exists>m. r = Inl (ConnError m)) \<and> (db s' = db s \<or> reach q (db s') (run_op op A))"
proof -
  obtain en where en: "enum_ok en" and alt: "redis_apply en c (db s) = (r, db s') \<or>
      is_conn_error r \<and> (db s' = db s \<or> db s' = snd (redis_apply en c (db s)))"
    using exec_served [OF run] unfolding served_def by auto
  obtain x d' where x: "redis_apply en c (db s) = (Inr x, d')" "reach q d' (run_op op A)"
    using invoke_total [OF reach ok, of en] by (auto simp: op)
  show ?thesis using alt
  proof
    assume "redis_apply en c (db s) = (r, db s')"
    with x en show ?thesis by (auto simp: op)
  next
    assume *: "is_conn_error r \<and> (db s' = db s \<or> db s' = snd (redis_apply en c (db s)))"
    then have "\<exists>m. r = Inl (ConnError m)" by (auto simp: is_conn_error_def split: sum.splits redis_error.splits)
    with * x show ?thesis by auto
  qed
qed

end

text \<open>The key of the rate limiter is none of those that make up the view.\<close>

lemma reach_elsewhere:
  assumes "reach q d A" and "queue_view q d' A"
  shows "reach q d' A"
proof -
  have "reach q d' (settings A (mq_conf A) (mq_grps A) (mq_msg A) (mq_hist A))"
    by (rule reach.elsewhere [OF assms(1)]) (use assms(2) in \<open>simp_all add: settings_def\<close>)
  then show ?thesis by (simp add: settings_def)
qed

lemma get_cong:
  "d' k = d k \<Longrightarrow> get_hash d' k = get_hash d k" "d' k = d k \<Longrightarrow> get_list d' k = get_list d k"
  "d' k = d k \<Longrightarrow> get_zset d' k = get_zset d k" "d' k = d k \<Longrightarrow> get_set d' k = get_set d k"
  by (simp_all add: get_hash_def get_list_def get_zset_def get_set_def)

lemma view_cong:
  assumes "queue_view q d A" and same: "\<And>k. k \<noteq> Queue_RateLimit q \<Longrightarrow> d' k = d k"
  shows "queue_view q d' A"
proof -
  have keys: "Queue_Properties q \<noteq> Queue_RateLimit q" "Queue_Published q \<noteq> Queue_RateLimit q"
    "\<And>g. pending_key q g \<noteq> Queue_RateLimit q" "\<And>g. priority_key q g \<noteq> Queue_RateLimit q"
    "Queue_Scheduled q \<noteq> Queue_RateLimit q" "Queue_Delayed q \<noteq> Queue_RateLimit q" "Queue_Requeued q \<noteq> Queue_RateLimit q"
    "Queue_Acknowledged q \<noteq> Queue_RateLimit q" "Queue_DeadLetter q \<noteq> Queue_RateLimit q"
    "\<And>c. Queue_ConsumerProcessing q c \<noteq> Queue_RateLimit q" "Queue_ConsumerGroups q \<noteq> Queue_RateLimit q"
    "\<And>m. plain_id m \<Longrightarrow> System_Message m \<noteq> Queue_RateLimit q"
    "\<And>m. plain_id m \<Longrightarrow> System_MessageAcknowledgementHistory m \<noteq> Queue_RateLimit q"
    by (auto simp: pending_key_def priority_key_def key_defs Key_eq_iff key_parts_append plain_id_def)
  show ?thesis
    using assms(1) unfolding queue_view_def
    by (simp add: keys same get_cong [where d = d and d' = d'])
qed

end
