(* ===== verification/Dequeue.thy ===== *)
theory Dequeue
  imports Queue_Client
begin

text \<open>
  How a consumer takes a message, \<open>internal/consumer/dequeue_message.go\<close>, and how it gives messages back,
  \<open>internal/consumer/message_unacknowledger.go\<close>. Taking has two steps, a pop into the processing list
  of the consumer and the check-out; the second part of the theory says what becomes of the queue on
  every outcome of them, failures of the connection included.

  Readings of the clock, fresh ids, the default options and the audit settings are a record
  \<open>consumer_ctx\<close>. \<open>BRPOPLPUSH\<close> without a time limit waits while the list is empty and then does what
  \<open>RPOPLPUSH\<close> does; a wait that is cancelled returns nothing, as \<open>RPOPLPUSH\<close> does on an empty list.
\<close>

subsection \<open>Giving messages back\<close>

definition UnacknowledgeBatch :: "'s redis_server \<Rightarrow> message_audit \<Rightarrow> int \<Rightarrow> queue_params \<Rightarrow> string
    \<Rightarrow> (unack_entry \<times> int \<times> int) list \<Rightarrow> ('s, go_error, unit) io" where
  "UnacknowledgeBatch rd cfg now queue consumerID entries =
     (if entries = [] then ret ()
      else case buildBatchLuaArgs cfg now (qkey queue) consumerID entries of
        (luaKeys, luaArgs) \<Rightarrow> and_then (Eval rd UnacknowledgeMessage luaKeys luaArgs) (\<lambda>_. ret ()))"

text \<open>A message that cannot be read or decoded is left out.\<close>

primrec loadMessages :: "'s redis_server \<Rightarrow> decode_ctx \<Rightarrow> string list \<Rightarrow> ('s, go_error, envelope list) io" where
  "loadMessages rd dc [] = ret []"
| "loadMessages rd dc (i # ids) =
     and_then (try_io (LoadHash rd (System_Message i) ''message'')) (\<lambda>r.
     case r of
       Inl (err :: go_error) \<Rightarrow> loadMessages rd dc ids
     | Inr hash \<Rightarrow>
         (case decode_at dc i hash of
            Inl err \<Rightarrow> loadMessages rd dc ids
          | Inr env \<Rightarrow> and_then (loadMessages rd dc ids) (\<lambda>envs. ret (env # envs))))"

definition UnacknowledgeProcessingQueue :: "'s redis_server \<Rightarrow> message_audit \<Rightarrow> decode_ctx \<Rightarrow> (envelope \<Rightarrow> int \<times> int) \<Rightarrow> int
    \<Rightarrow> queue_params \<Rightarrow> string \<Rightarrow> UnacknowledgeCause \<Rightarrow> ('s, go_error, unit) io" where
  "UnacknowledgeProcessingQueue rd cfg dc clock now queue consumerID cause =
     and_then (try_io (lrange rd (Queue_ConsumerProcessing (qkey queue) consumerID) 0 (-1))) (\<lambda>r.
     case r of
       Inl (err :: redis_error) \<Rightarrow> ret ()
     | Inr ids \<Rightarrow>
         if ids = [] then ret ()
         else
         and_then (map_err (Wrapf ''load messages'') (loadMessages rd dc ids)) (\<lambda>messages.
         UnacknowledgeBatch rd cfg now queue consumerID
           (map (\<lambda>msg. (\<lparr>ue_Message = msg, ue_Cause = cause\<rparr>, clock msg)) messages)))"

subsection \<open>Taking a message\<close>

record dequeuer =
  dq_queue :: queue_params
  dq_groupID :: string
  dq_consumerID :: string
  dq_blocking :: bool
  dq_queueType :: "queue_type option"
  dq_rateLimit :: "rate_limit option"

definition WithBlocking :: "dequeuer \<Rightarrow> dequeuer" where
  "WithBlocking d = d\<lparr>dq_blocking := True\<rparr>"

definition NewDequeueMessage :: "queue_params \<Rightarrow> string \<Rightarrow> string \<Rightarrow> (dequeuer \<Rightarrow> dequeuer) list \<Rightarrow> dequeuer" where
  "NewDequeueMessage queue groupID consumerID opts =
     fold (\<lambda>f d. f d) opts
       \<lparr>dq_queue = queue, dq_groupID = groupID, dq_consumerID = consumerID, dq_blocking = False,
        dq_queueType = None, dq_rateLimit = None\<rparr>"

definition Dequeue_Init :: "'s redis_server \<Rightarrow> dequeuer \<Rightarrow> ('s, go_error, dequeuer) io" where
  "Dequeue_Init rd d =
     and_then (map_err (Wrapf ''dequeue init'') (Queue_Load rd (dq_queue d))) (\<lambda>props.
     ret (d\<lparr>dq_queueType := Some (q_Type props), dq_rateLimit := q_RateLimit props\<rparr>))"

record consumer_ctx =
  cc_audit :: message_audit
  cc_decode :: decode_ctx
  cc_now :: int
  cc_new :: "int \<times> string"
  cc_unack :: "int \<times> int \<times> int"

definition RPopLPush :: "'s redis_server \<Rightarrow> string \<Rightarrow> string \<Rightarrow> ('s, redis_error, string) io" where
  "RPopLPush rd src dst =
     and_then (exec rd (RPOPLPUSH src dst)) (\<lambda>r. if r = RNil then throw RedisNil else expect_reply bulk r)"

definition BRPopLPush :: "'s redis_server \<Rightarrow> string \<Rightarrow> string \<Rightarrow> ('s, redis_error, string) io" where
  "BRPopLPush = RPopLPush"

text \<open>The text that \<open>%v\<close> makes of a reply.\<close>

fun fmt_v :: "reply \<Rightarrow> string" where
  "fmt_v (RInt n) = itoa n"
| "fmt_v (RBulk s) = s"
| "fmt_v RNil = ''<nil>''"
| "fmt_v (RArr rs) = ''['' @ join_on (CHR '' '') (map fmt_v rs) @ '']''"

definition popPriority :: "'s redis_server \<Rightarrow> string \<Rightarrow> string \<Rightarrow> ('s, go_error, string) io" where
  "popPriority rd src dst =
     and_then (try_io (Eval rd ZPOPLPUSH [src, dst] [])) (\<lambda>r.
     case r of
       Inl (err :: go_error) \<Rightarrow> ret []
     | Inr reply \<Rightarrow> if reply = RNil then ret [] else ret (fmt_v reply))"

definition popFIFO :: "'s redis_server \<Rightarrow> dequeuer \<Rightarrow> string \<Rightarrow> string \<Rightarrow> ('s, go_error, string) io" where
  "popFIFO rd d src dst =
     and_then (try_io (if dq_blocking d \<and> dq_rateLimit d = None then BRPopLPush rd src dst else RPopLPush rd src dst)) (\<lambda>r.
     case r of Inl (err :: redis_error) \<Rightarrow> ret [] | Inr val \<Rightarrow> ret val)"

definition pop :: "'s redis_server \<Rightarrow> dequeuer \<Rightarrow> queue_type \<Rightarrow> ('s, go_error, string) io" where
  "pop rd d queueType =
     (let q = qkey (dq_queue d); dst = Queue_ConsumerProcessing q (dq_consumerID d) in
      if dq_groupID d \<noteq> [] then
        (if queueType = TypePriority then popPriority rd (Queue_PriorityWithGroup q (dq_groupID d)) dst
         else popFIFO rd d (Queue_PendingWithGroup q (dq_groupID d)) dst)
      else if queueType = TypePriority then popPriority rd (Queue_Priority q) dst
      else popFIFO rd d (Queue_Pending q) dst)"

definition checkRateLimit :: "'s redis_server \<Rightarrow> dequeuer \<Rightarrow> ('s, go_error, bool) io" where
  "checkRateLimit rd d =
     (case dq_rateLimit d of
        None \<Rightarrow> ret True
      | Some rl \<Rightarrow>
          and_then (Eval rd CheckRateLimit [Queue_RateLimit (qkey (dq_queue d))]
            [itoa (rl_limit rl), itoa (Milliseconds (rl_interval rl))]) (\<lambda>reply.
          and_then (lift_sum (Int64_of reply)) (\<lambda>n. ret (n = 0))))"

definition checkout_reply :: "string \<Rightarrow> ('s, go_error, envelope option) io" where
  "checkout_reply replyStr =
     (if replyStr = ''QUEUE_STOPPED'' then throw (ConsumerErr C_ErrQueueStopped)
      else if replyStr = ''QUEUE_LOCKED'' then throw (ConsumerErr C_ErrQueueLocked)
      else if replyStr = ''QUEUE_INVALID_STATE'' then throw (ConsumerErr C_ErrQueueInvalidState)
      else if replyStr = ''MESSAGE_NOT_FOUND'' then ret None
      else if replyStr = ''MESSAGE_NOT_PENDING'' then ret None
      else throw (Errorf (''unexpected script reply: '' @ replyStr)))"

definition checkout :: "'s redis_server \<Rightarrow> consumer_ctx \<Rightarrow> dequeuer \<Rightarrow> string \<Rightarrow> ('s, go_error, envelope option) io" where
  "checkout rd cc d messageID =
     and_then (map_err (Wrapf ''checkout script'')
       (Eval rd CheckoutMessage (checkout_keys (qkey (dq_queue d)) messageID) (checkout_args (cc_now cc)))) (\<lambda>reply.
     case reply of
       RBulk replyStr \<Rightarrow> checkout_reply replyStr
     | RNil \<Rightarrow> ret None
     | RArr hash \<Rightarrow>
         map_err (Wrapf ''decode message'')
           (and_then (lift_sum (decode_at (cc_decode cc) messageID (fmap_of_list (rev (pair_up (map fmt_v hash)))))) (\<lambda>env.
            ret (Some env)))
     | RInt n \<Rightarrow> throw (Errorf ''invalid script reply type: int64''))"

definition causeFromCheckoutError :: "go_error \<Rightarrow> UnacknowledgeCause option" where
  "causeFromCheckoutError err =
     (if errors_is err (ConsumerErr C_ErrQueueStopped) then Some CauseQueueStopped
      else if errors_is err (ConsumerErr C_ErrQueueLocked) then Some CauseQueueLocked
      else if errors_is err (ConsumerErr C_ErrQueueInvalidState) then Some CauseQueueInvalidState
      else None)"

definition minimal_envelope :: "consumer_ctx \<Rightarrow> dequeuer \<Rightarrow> string \<Rightarrow> envelope" where
  "minimal_envelope cc d messageID =
     (let msg = SetConsumeTimeout 0 (SetQueue (Some (dq_queue d)) (SetBody (JStr [])
            (New_Message (dc_defaults (cc_decode cc)) (fst (cc_new cc)))));
          envelope = NewEnvelope (snd (cc_new cc)) msg;
          envelope = SetDestinationQueue (Some (dq_queue d))
            (SetMessageState (SetID messageID (e_messageState envelope)) envelope) in
      if dq_groupID d \<noteq> [] then SetConsumerGroupID (dq_groupID d) envelope else envelope)"

definition unacknowledgePoppedMessage :: "'s redis_server \<Rightarrow> consumer_ctx \<Rightarrow> dequeuer \<Rightarrow> string \<Rightarrow> go_error \<Rightarrow> ('s, go_error, unit) io" where
  "unacknowledgePoppedMessage rd cc d messageID checkoutErr =
     (case causeFromCheckoutError checkoutErr of
        None \<Rightarrow> ret ()
      | Some cause \<Rightarrow>
          and_then (try_io (UnacknowledgeBatch rd (cc_audit cc) (fst (cc_unack cc)) (dq_queue d) (dq_consumerID d)
            [(\<lparr>ue_Message = minimal_envelope cc d messageID, ue_Cause = cause\<rparr>, snd (cc_unack cc))]))
            (\<lambda>(_ :: go_error + unit). ret ()))"

definition Dequeue :: "'s redis_server \<Rightarrow> consumer_ctx \<Rightarrow> dequeuer \<Rightarrow> ('s, go_error, envelope option) io" where
  "Dequeue rd cc d =
     (case dq_queueType d of
        None \<Rightarrow> throw (Errorf ''dequeue: not initialized, call Init first'')
      | Some queueType \<Rightarrow>
      and_then (map_err (Wrapf ''dequeue: rate limit check'') (checkRateLimit rd d)) (\<lambda>ok.
      if \<not> ok then ret None
      else
      and_then (map_err (Wrapf ''dequeue: pop'') (pop rd d queueType)) (\<lambda>messageID.
      if messageID = [] then ret None
      else
      and_then (try_io (checkout rd cc d messageID)) (\<lambda>r.
      case r of
        Inl err \<Rightarrow> and_then (unacknowledgePoppedMessage rd cc d messageID err) (\<lambda>_. throw err)
      | Inr None \<Rightarrow> ret None
      | Inr (Some env) \<Rightarrow> ret (Some env)))))"

subsection \<open>The rate limiter\<close>

lemma apply_keeps_key: "k \<notin> cmd_keys c \<Longrightarrow> keeps (\<lambda>d. d k) (redis_apply en c)"
  unfolding keeps_def by (metis redis_apply_frame snd_conv)

lemma check_rate_limit_frame:
  assumes "k \<noteq> key"
  shows "snd (lua_check_rate_limit (redis_apply en) [key] as d) k = d k"
proof -
  have "keeps (\<lambda>d. d k) (lua_check_rate_limit (redis_apply en) [key] as)"
    unfolding lua_check_rate_limit_def Let_def nth1_def lua_int_def lua_do.simps
    by (intro keeps_intros apply_keeps_key) (use assms in simp_all)
  then show ?thesis unfolding keeps_def by (metis prod.collapse)
qed

context smq_queues
begin

lemma checkRateLimit_keeps:
  assumes run: "checkRateLimit (env_redis env) d s = (r, s')" and reach: "reach (qkey (dq_queue d)) (db s) A"
  shows "reach (qkey (dq_queue d)) (db s') A"
proof (cases "dq_rateLimit d")
  case None
  with run reach show ?thesis by (simp add: checkRateLimit_def)
next
  case (Some rl)
  let ?k = "Queue_RateLimit (qkey (dq_queue d))"
  obtain r1 s1 where ev: "Eval (env_redis env) CheckRateLimit [?k] [itoa (rl_limit rl), itoa (Milliseconds (rl_interval rl))] s = (r1, s1)"
    by fastforce
  have "s' = s1" using run ev by (cases r1) (auto simp: checkRateLimit_def Some and_then_def split: sum.splits)
  have "db s1 k = db s k" if "k \<noteq> ?k" for k
    by (rule Eval_frame [OF ev]) (use that check_rate_limit_frame in \<open>simp add: smq_scripts_def\<close>)
  then have "queue_view (qkey (dq_queue d)) (db s1) A"
    using view_cong reach_view [OF reach] by blast
  with reach \<open>s' = s1\<close> show ?thesis by (simp add: reach_elsewhere)
qed

end

subsection \<open>The pop\<close>

text \<open>The message at the head of what waits for a group, and the operation that takes it.\<close>

definition next_id :: "mq \<Rightarrow> queue_type \<Rightarrow> string \<Rightarrow> string option" where
  "next_id A t g =
     (if t = TypePriority
      then (if mq_prio A g = fmempty then None else Some (snd (hd (zset_list (mq_prio A g)))))
      else (if mq_pend A g = [] then None else Some (last (mq_pend A g))))"

definition pop_op :: "queue_type \<Rightarrow> string \<Rightarrow> string \<Rightarrow> operation" where
  "pop_op t g c = (if t = TypePriority then PopPriority g c else Pop g c)"

lemma pop_reply:
  assumes "reach q d A" and "invoke q en (pop_op t g c) d = (Inr x, d')"
  shows "x = (case next_id A t g of None \<Rightarrow> RNil | Some m \<Rightarrow> RBulk m)"
proof (cases "t = TypePriority")
  case True
  have view: "queue_view q d A" using reach_view [OF assms(1)] by simp
  obtain y d1 where "lua_zpoplpush (redis_apply en) [priority_key q g, Queue_ConsumerProcessing q c] [] d = (Inr y, d1)"
    "y = (if mq_prio A g = fmempty then RNil else RBulk (snd (hd (zset_list (mq_prio A g)))))"
    using wpD [OF wp_zpop view, of en g c] by metis
  with assms(2) show ?thesis by (auto simp add: True pop_op_def invoke_def next_id_def)
next
  case False
  have view: "queue_view q d A" using reach_view [OF assms(1)] by simp
  show ?thesis
  proof (cases "mq_pend A g = []")
    case True
    then show ?thesis using steps_pop(2) [OF True, of q en c] view assms(2) False
      by (auto simp: pop_op_def invoke_def steps_def next_id_def)
  next
    case ne: False
    then obtain xs m where xs: "mq_pend A g = xs @ [m]" by (metis append_butlast_last_id)
    then show ?thesis using steps_pop(1) [OF xs, of q en c] view assms(2) False
      by (auto simp: pop_op_def invoke_def steps_def next_id_def)
  qed
qed

lemma pop_empty: "next_id A t g = None \<Longrightarrow> run_op (pop_op t g c) A = A"
  by (auto simp: next_id_def pop_op_def run_op_def pop_pending_def pop_priority_def split: if_splits)

lemma pop_taken:
  assumes A: "lively A" and m: "next_id A t g = Some m"
  shows "m \<in> set (mq_proc (run_op (pop_op t g c) A) c)" "msg_status_of A m = Some (itoa StatusPending)"
proof -
  show "m \<in> set (mq_proc (run_op (pop_op t g c) A) c)"
    using m by (auto simp: next_id_def pop_op_def run_op_def pop_pending_def pop_priority_def Let_def split: if_splits)
  have "\<exists>p. (p = Pend g \<or> p = Prio g) \<and> m \<in> at_place A p"
  proof (cases "t = TypePriority")
    case True
    with m zset_list_first(2) [of "mq_prio A g"] have "m \<in> at_place A (Prio g)" by (auto simp: next_id_def split: if_splits)
    then show ?thesis by blast
  next
    case False
    with m have "m \<in> at_place A (Pend g)" by (auto simp: next_id_def split: if_splits)
    then show ?thesis by blast
  qed
  then obtain p where p: "p = Pend g \<or> p = Prio g" "m \<in> at_place A p" by blast
  show "msg_status_of A m = Some (itoa StatusPending)"
    using lively_placed(2) [OF A p(2)] p(1) by (auto simp: place_statuses_def)
qed

lemma pop_msg: "mq_msg (run_op (pop_op t g c) A) = mq_msg A" "mq_pub (run_op (pop_op t g c) A) = mq_pub A"
  by (simp_all add: pop_op_def run_op_def pop_pending_def pop_priority_def Let_def)

lemma pop_verdict:
  assumes A: "lively A" and m: "next_id A t g = Some m"
  shows "checkout_verdict (run_op (pop_op t g c) A) m = state_verdict A"
  using pop_taken(2) [OF A m]
  by (simp add: checkout_verdict_def msg_status_of_def pop_msg state_verdict_def run_conf split: option.split)

context smq_queues
begin

lemma pop_outcome:
  assumes run: "pop (env_redis env) d t s = (r, s')" and reach: "reach (qkey (dq_queue d)) (db s) A"
    and room: "int (length (mq_pub A)) + 1 < 2 ^ 63"
  shows "(\<exists>m. r = Inr m \<and> next_id A t (dq_groupID d) = Some m \<and>
      reach (qkey (dq_queue d)) (db s') (run_op (pop_op t (dq_groupID d) (dq_consumerID d)) A)) \<or>
    r = Inr [] \<and> (reach (qkey (dq_queue d)) (db s') A \<or>
      reach (qkey (dq_queue d)) (db s') (run_op (pop_op t (dq_groupID d) (dq_consumerID d)) A))"
    (is "?taken \<or> ?none")
proof -
  let ?q = "qkey (dq_queue d)" and ?g = "dq_groupID d" and ?c = "dq_consumerID d"
  let ?B = "run_op (pop_op t ?g ?c) A"
  have ok: "allowed A (pop_op t ?g ?c)" using room by (simp add: allowed_def pop_op_def op_size_def)
  show ?thesis
  proof (cases "t = TypePriority")
    case True
    have pr: "pop (env_redis env) d t s = popPriority (env_redis env) (priority_key ?q ?g) (Queue_ConsumerProcessing ?q ?c) s"
      by (simp add: True pop_def Let_def priority_key_def)
    obtain r1 s1 where ev: "Eval (env_redis env) ZPOPLPUSH [priority_key ?q ?g, Queue_ConsumerProcessing ?q ?c] [] s = (r1, s1)"
      by fastforce
    have "pop (env_redis env) d t s = (Inr (case r1 of Inl _ \<Rightarrow> [] | Inr x \<Rightarrow> if x = RNil then [] else fmt_v x), s1)"
      unfolding pr popPriority_def try_then ev by (simp split: sum.split)
    with run have out: "s' = s1" "r = Inr (case r1 of Inl _ \<Rightarrow> [] | Inr x \<Rightarrow> if x = RNil then [] else fmt_v x)" by auto
    have op: "invoke ?q en (pop_op t ?g ?c) =
        smq_scripts other ZPOPLPUSH (redis_apply en) [priority_key ?q ?g, Queue_ConsumerProcessing ?q ?c] []" for en
      by (simp add: invoke_def pop_op_def True smq_scripts_def)
    from Eval_operate [OF reach ok op ev] show ?thesis
    proof (elim disjE exE conjE)
      fix en x assume *: "r1 = Inr x" "x \<noteq> RNil" "invoke ?q en (pop_op t ?g ?c) (db s) = (Inr x, db s1)" "reach ?q (db s1) ?B"
      have "x = (case next_id A t ?g of None \<Rightarrow> RNil | Some m \<Rightarrow> RBulk m)" by (rule pop_reply [OF reach *(3)])
      with * out show ?thesis by (auto split: option.splits)
    qed (use out reach in auto)
  next
    case False
    have pr: "pop (env_redis env) d t s = popFIFO (env_redis env) d (pending_key ?q ?g) (Queue_ConsumerProcessing ?q ?c) s"
      by (simp add: False pop_def Let_def pending_key_def)
    obtain r1 s1 where ev: "exec (env_redis env) (RPOPLPUSH (pending_key ?q ?g) (Queue_ConsumerProcessing ?q ?c)) s = (r1, s1)"
      by fastforce
    have "pop (env_redis env) d t s = (Inr (case r1 of Inl _ \<Rightarrow> [] | Inr x \<Rightarrow> (case bulk x of None \<Rightarrow> [] | Some m \<Rightarrow> m)), s1)"
      unfolding pr popFIFO_def BRPopLPush_def if_cancel try_then RPopLPush_def
      by (cases r1) (auto simp: and_then_def ev expect_reply_def split: option.split)
    with run have out: "s' = s1" "r = Inr (case r1 of Inl _ \<Rightarrow> [] | Inr x \<Rightarrow> (case bulk x of None \<Rightarrow> [] | Some m \<Rightarrow> m))" by auto
    have op: "invoke ?q en (pop_op t ?g ?c) = redis_apply en (RPOPLPUSH (pending_key ?q ?g) (Queue_ConsumerProcessing ?q ?c))" for en
      by (simp add: invoke_def pop_op_def False)
    from exec_operate [OF reach ok op ev] show ?thesis
    proof (elim disjE exE conjE)
      fix en x assume *: "r1 = Inr x" "invoke ?q en (pop_op t ?g ?c) (db s) = (Inr x, db s1)" "reach ?q (db s1) ?B"
      have "x = (case next_id A t ?g of None \<Rightarrow> RNil | Some m \<Rightarrow> RBulk m)" by (rule pop_reply [OF reach *(2)])
      with * out show ?thesis by (auto split: option.splits)
    qed (use out reach in auto)
  qed
qed

end

subsection \<open>The check-out\<close>

lemma enum_fmap_rev: "enum_ok en \<Longrightarrow> fmap_of_list (rev (enum_fmap en h)) = h"
proof -
  assume en: "enum_ok en"
  have "distinct (map fst (enum_fmap en h))" using enum_ok_distinct [OF en] by (simp add: enum_fmap_def comp_def)
  then have "map_of (rev (enum_fmap en h)) = map_of (enum_fmap en h)" by (subst map_of_inject_set) (simp_all add: rev_map [symmetric])
  then have "fmap_of_list (rev (enum_fmap en h)) = fmap_of_list (enum_fmap en h)"
    by (intro fmap_ext) (simp add: fmlookup_of_list)
  then show ?thesis using fmap_of_enum_fmap [OF en] by simp
qed

lemma checkout_run:
  assumes reach: "reach q d A" and ok: "allowed A (Checkout now m)" and en: "enum_ok en"
    and run: "invoke q en (Checkout now m) d = (Inr x, d')"
  shows "case checkout_verdict A m of
      Some err \<Rightarrow> x = RBulk err
    | None \<Rightarrow> \<exists>rs. x = RArr rs \<and> fmap_of_list (rev (pair_up (map fmt_v rs))) = mq_msg (do_checkout now m A) m"
proof -
  have view: "queue_view q d A" "lively A" using reach_view [OF reach] by simp_all
  have pre: "plain_id m" "can_incr (mq_msg A m) MF_Attempts" "int (length (mq_pub A)) + 1 < 2 ^ 63"
    using ok by (simp_all add: allowed_def op_size_def)
  have cnt: "count_ok F_ProcessingMessagesCount 1 A" "count_ok F_PendingMessagesCount (-1) A"
    using lively_count_ok [OF view(2) pre(3)] by (simp_all add: counter_fields_def)
  obtain y d1 A' where y: "invoke q en (Checkout now m) d = (Inr y, d1)"
    "case checkout_verdict A m of Some err \<Rightarrow> y = RBulk err \<and> A' = A
     | None \<Rightarrow> A' = do_checkout now m A \<and> y = RArr (map RBulk (flatten_pairs (enum_fmap en (mq_msg A' m))))"
    using wpD [OF wp_checkout [OF pre(1,2) cnt] view(1), of en now] unfolding invoke_def Let_def operation.case by metis
  have "map fmt_v (map RBulk xs) = xs" for xs by (induction xs) simp_all
  then show ?thesis using y run by (auto simp: enum_fmap_rev [OF en] simp del: map_map split: option.splits)
qed

lemma wp_unack_refused:
  assumes "state_verdict A = Some err"
  shows "wp q (lua_unacknowledge_message (redis_apply en) (unack_batch_keys q c us) (unack_batch_args cfg us)) A (\<lambda>r A'. A' = A)"
  unfolding lua_unacknowledge_message_def Let_def unack_batch_args_nth unack_batch_keys_nth unack_batch_drops
  by (intro wp_intros; use assms in \<open>simp add: state_verdict_def\<close>)

text \<open>The decoder's errors are its own, those of JSON and of numbers.\<close>

lemma decode_error:
  assumes "decode_at dc m h = Inl e"
  shows "\<not> errors_is e (ConsumerErr c)"
  using assms
  by (auto simp: decode_at_def DecodeEnvelope_def Codec_DecodeParams_def DecodeState_def Let_def split: if_splits option.splits sum.splits)

lemma popped_unack_total: "\<exists>u s'. unacknowledgePoppedMessage rd cc d m err s = (Inr u, s')"
  by (auto simp: unacknowledgePoppedMessage_def try_then split: option.splits prod.splits)

context smq_queues
begin

lemma checkout_outcome:
  assumes run: "checkout (env_redis env) cc d m s = (r, s')" and reach: "reach (qkey (dq_queue d)) (db s) A"
    and ok: "allowed A (Checkout (cc_now cc) m)"
  defines "C \<equiv> do_checkout (cc_now cc) m A"
  shows "(\<exists>err. checkout_verdict A m = Some err \<and> (r, s') = checkout_reply err s' \<and> reach (qkey (dq_queue d)) (db s') A) \<or>
    checkout_verdict A m = None \<and> reach (qkey (dq_queue d)) (db s') C \<and>
      r = (case decode_at (cc_decode cc) m (mq_msg C m) of Inl e \<Rightarrow> Inl (Wrapf ''decode message'' e) | Inr env \<Rightarrow> Inr (Some env)) \<or>
    (\<exists>e. r = Inl (Wrapf ''checkout script'' e) \<and> redis_fault e \<and>
       (reach (qkey (dq_queue d)) (db s') A \<or> checkout_verdict A m = None \<and> reach (qkey (dq_queue d)) (db s') C))"
proof -
  let ?q = "qkey (dq_queue d)" and ?op = "Checkout (cc_now cc) m"
  obtain r1 s1 where ev: "Eval (env_redis env) CheckoutMessage (checkout_keys ?q m) (checkout_args (cc_now cc)) s = (r1, s1)"
    by fastforce
  have op: "invoke ?q en ?op = smq_scripts other CheckoutMessage (redis_apply en) (checkout_keys ?q m) (checkout_args (cc_now cc))" for en
    by (simp add: invoke_def smq_scripts_def)
  have C: "run_op ?op A = (if checkout_verdict A m = None then C else A)" by (simp add: run_op_def C_def)
  show ?thesis using Eval_operate [OF reach ok op ev]
  proof (elim disjE exE conjE)
    fix en x assume *: "enum_ok en" "r1 = Inr x" "invoke ?q en ?op (db s) = (Inr x, db s1)" "reach ?q (db s1) (run_op ?op A)"
    note x = checkout_run [OF reach ok *(1,3)]
    have rest: "(r, s') = (case x of RBulk v \<Rightarrow> checkout_reply v | RNil \<Rightarrow> ret None
       | RArr hash \<Rightarrow> map_err (Wrapf ''decode message'')
           (and_then (lift_sum (decode_at (cc_decode cc) m (fmap_of_list (rev (pair_up (map fmt_v hash)))))) (\<lambda>env. ret (Some env)))
       | RInt n \<Rightarrow> throw (Errorf ''invalid script reply type: int64'')) s1"
      using run ev *(2) by (simp add: checkout_def and_then_def map_err_def)
    show ?thesis
    proof (cases "checkout_verdict A m")
      case None
      with x obtain rs where rs: "x = RArr rs" "fmap_of_list (rev (pair_up (map fmt_v rs))) = mq_msg C m" by (auto simp: C_def)
      with rest have "s' = s1 \<and> r = (case decode_at (cc_decode cc) m (mq_msg C m) of
          Inl e \<Rightarrow> Inl (Wrapf ''decode message'' e) | Inr env \<Rightarrow> Inr (Some env))"
        by (auto simp: and_then_def map_err_def lift_sum_def split: sum.splits)
      with None * C show ?thesis by simp
    next
      case (Some err)
      with x rest have "(r, s') = checkout_reply err s1" by simp
      then have "s' = s1" by (auto simp: checkout_reply_def split: if_splits)
      with Some * C \<open>(r, s') = checkout_reply err s1\<close> show ?thesis by simp
    qed
  next
    fix e assume *: "r1 = Inl e" "redis_fault e" "db s1 = db s"
    then have "s' = s1" "r = Inl (Wrapf ''checkout script'' e)" using run ev by (auto simp: checkout_def and_then_def map_err_def)
    with * reach show ?thesis by auto
  next
    fix e assume *: "r1 = Inl e" "redis_fault e" "reach ?q (db s1) (run_op ?op A)"
    then have "s' = s1" "r = Inl (Wrapf ''checkout script'' e)" using run ev by (auto simp: checkout_def and_then_def map_err_def)
    with * C show ?thesis by (auto split: if_splits)
  qed
qed

lemma unack_refused:
  assumes run: "UnacknowledgeBatch (env_redis env) cfg now p c entries s = (r, s')" and reach: "reach (qkey p) (db s) A"
    and refused: "state_verdict A = Some err"
  shows "reach (qkey p) (db s') A"
proof (cases "entries = []")
  case True
  with run reach show ?thesis by (simp add: UnacknowledgeBatch_def)
next
  case False
  define us where "us = map (unack_entry_args cfg now) entries"
  obtain r1 s1 where ev: "Eval (env_redis env) UnacknowledgeMessage (unack_batch_keys (qkey p) c us) (unack_batch_args cfg us) s = (r1, s1)"
    by fastforce
  have "s' = s1" using run ev False by (auto simp: UnacknowledgeBatch_def buildBatchLuaArgs_def us_def Let_def and_then_def split: sum.splits)
  have view: "queue_view (qkey p) (db s) A" using reach_view [OF reach] by simp
  have script: "\<exists>x d'. smq_scripts other UnacknowledgeMessage (redis_apply en) (unack_batch_keys (qkey p) c us) (unack_batch_args cfg us) (db s)
      = (Inr x, d') \<and> queue_view (qkey p) d' A" for en
    using wpD [OF wp_unack_refused [OF refused] view, of en c us cfg] by (metis smq_scripts_def ID.simps)
  from Eval_total [OF ev] script have "queue_view (qkey p) (db s1) A" using view by (metis snd_conv prod.inject)
  with reach \<open>s' = s1\<close> show ?thesis by (simp add: reach_elsewhere)
qed

lemma after_pop_cases:
  assumes run: "and_then (try_io (checkout (env_redis env) cc d m)) (\<lambda>r. case r of
       Inl err \<Rightarrow> and_then (unacknowledgePoppedMessage (env_redis env) cc d m err) (\<lambda>_. throw err)
     | Inr None \<Rightarrow> ret None
     | Inr (Some env) \<Rightarrow> ret (Some env)) s = (r, s')"
    and reach: "reach (qkey (dq_queue d)) (db s) B" and ok: "allowed B (Checkout (cc_now cc) m)"
    and ver: "checkout_verdict B m = state_verdict B"
  defines "R \<equiv> reach (qkey (dq_queue d)) (db s')" and "C \<equiv> do_checkout (cc_now cc) m B"
  shows "(\<exists>v. state_verdict B = Some v \<and> checkout_reply v s' = (r, s') \<and> R B) \<or>
    state_verdict B = None \<and> R C \<and>
      r = (case decode_at (cc_decode cc) m (mq_msg C m) of Inl e \<Rightarrow> Inl (Wrapf ''decode message'' e) | Inr env \<Rightarrow> Inr (Some env)) \<or>
    (\<exists>e. r = Inl e \<and> redis_fault e \<and> (R B \<or> state_verdict B = None \<and> R C))"
proof -
  obtain r1 s1 where co: "checkout (env_redis env) cc d m s = (r1, s1)" by fastforce
  note cases = checkout_outcome [OF co reach ok, unfolded ver, folded C_def]
  show ?thesis
  proof (cases r1)
    case (Inr x)
    then have "r = r1" "s' = s1" using run co by (auto simp: try_then split: option.splits)
    with cases show ?thesis by (auto simp: R_def)
  next
    case (Inl err)
    obtain u s2 where un: "unacknowledgePoppedMessage (env_redis env) cc d m err s1 = (u, s2)" by fastforce
    have u: "\<exists>x. u = Inr x" using un popped_unack_total [of "env_redis env" cc d m err s1] by auto
    then have "and_then (unacknowledgePoppedMessage (env_redis env) cc d m err) (\<lambda>_. throw err) s1 = (Inl err :: go_error + envelope option, s2)"
      using un by (auto simp: and_then_Inr)
    then have out: "r = Inl err" "s' = s2" using run co Inl by (auto simp: try_then)
    show ?thesis
    proof (cases "causeFromCheckoutError err")
      case None
      then have "s2 = s1" using un by (simp add: unacknowledgePoppedMessage_def)
      with cases out Inl show ?thesis by (auto simp: R_def)
    next
      case (Some cause)
      then obtain r2 where batch: "UnacknowledgeBatch (env_redis env) (cc_audit cc) (fst (cc_unack cc)) (dq_queue d) (dq_consumerID d)
          [(\<lparr>ue_Message = minimal_envelope cc d m, ue_Cause = cause\<rparr>, snd (cc_unack cc))] s1 = (r2, s2)"
        using un by (auto simp: unacknowledgePoppedMessage_def try_then split: prod.splits)
      have known: "\<exists>c. errors_is err (ConsumerErr c)" using Some by (auto simp: causeFromCheckoutError_def split: if_splits)
      have fault: "\<not> errors_is e (ConsumerErr c)" if "redis_fault e" for e c
        using that by (induction e rule: redis_fault.induct) auto
      have dec: "\<not> errors_is e (ConsumerErr c)" if "decode_at (cc_decode cc) m (mq_msg C m) = Inl e" for e c
        using decode_error [OF that] by simp
      from cases known fault dec Inl obtain v where v: "state_verdict B = Some v" "checkout_reply v s1 = (Inl err, s1)"
        "reach (qkey (dq_queue d)) (db s1) B"
        by (auto split: sum.splits)
      have "reach (qkey (dq_queue d)) (db s2) B" by (rule unack_refused [OF batch v(3,1)])
      moreover have "checkout_reply v s2 = (Inl err, s2)" using v(2) by (auto simp: checkout_reply_def split: if_splits)
      ultimately show ?thesis using v(1) out by (auto simp: R_def)
    qed
  qed
qed

lemma Dequeue_cases:
  assumes reach: "reach (qkey (dq_queue d)) (db s) A" and t: "dq_queueType d = Some t"
    and ids: "\<forall>m. next_id A t (dq_groupID d) = Some m \<longrightarrow> plain_id m \<and> can_incr (mq_msg A m) MF_Attempts"
    and room: "int (length (mq_pub A)) + 1 < 2 ^ 63"
    and run: "Dequeue (env_redis env) cc d s = (r, s')"
  defines "R \<equiv> reach (qkey (dq_queue d)) (db s')"
    and "B \<equiv> run_op (pop_op t (dq_groupID d) (dq_consumerID d)) A"
  shows "(\<exists>e. r = Inl (Wrapf ''dequeue: rate limit check'' e) \<and> R A) \<or> r = Inr None \<and> (R A \<or> R B) \<or>
    (\<exists>m. next_id A t (dq_groupID d) = Some m \<and>
       ((\<exists>v. state_verdict A = Some v \<and> checkout_reply v s' = (r, s') \<and> R B) \<or>
        state_verdict A = None \<and> R (do_checkout (cc_now cc) m B) \<and>
          r = (case decode_at (cc_decode cc) m (mq_msg (do_checkout (cc_now cc) m B) m) of
                 Inl e \<Rightarrow> Inl (Wrapf ''decode message'' e) | Inr env \<Rightarrow> Inr (Some env)) \<or>
        (\<exists>e. r = Inl e \<and> redis_fault e \<and> (R B \<or> state_verdict A = None \<and> R (do_checkout (cc_now cc) m B)))))"
proof -
  have A: "lively A" using reach_view [OF reach] by simp
  obtain r1 s1 where rl: "checkRateLimit (env_redis env) d s = (r1, s1)" by fastforce
  have 1: "reach (qkey (dq_queue d)) (db s1) A" by (rule checkRateLimit_keeps [OF rl reach])
  show ?thesis
  proof (cases "r1 = Inr True")
    case False
    then have "s' = s1 \<and> (r = Inr None \<or> (\<exists>e. r = Inl (Wrapf ''dequeue: rate limit check'' e)))"
      using run rl t by (cases r1) (auto simp: Dequeue_def and_then_def map_err_def)
    with 1 show ?thesis by (auto simp: R_def)
  next
    case True
    obtain r2 s2 where pop: "pop (env_redis env) d t s1 = (r2, s2)" by fastforce
    note out = pop_outcome [OF pop 1 room, folded B_def]
    then obtain m where r2: "r2 = Inr m" by blast
    have rest: "Dequeue (env_redis env) cc d s = (if m = [] then ret None else
        and_then (try_io (checkout (env_redis env) cc d m)) (\<lambda>r. case r of
          Inl err \<Rightarrow> and_then (unacknowledgePoppedMessage (env_redis env) cc d m err) (\<lambda>_. throw err)
        | Inr None \<Rightarrow> ret None
        | Inr (Some env) \<Rightarrow> ret (Some env))) s2"
      using rl True t pop r2 by (simp add: Dequeue_def and_then_def map_err_def)
    show ?thesis
    proof (cases "m = []")
      case True
      then have "r = Inr None" "s' = s2" using run rest by simp_all
      with out r2 show ?thesis by (auto simp: R_def)
    next
      case False
      with out r2 have m: "next_id A t (dq_groupID d) = Some m" and B: "reach (qkey (dq_queue d)) (db s2) B" by auto
      have ok: "allowed B (Checkout (cc_now cc) m)"
        using ids m pop_taken(1) [OF A m] room by (auto simp: allowed_def op_size_def B_def pop_msg)
      have ver: "checkout_verdict B m = state_verdict B" "state_verdict B = state_verdict A"
        using pop_verdict [OF A m, of "dq_consumerID d"] by (simp_all add: B_def state_verdict_def run_conf)
      from after_pop_cases [OF _ B ok ver(1), of r s'] run rest False m show ?thesis
        unfolding ver(2) R_def by auto
    qed
  qed
qed

end

subsection \<open>What taking a message comes to\<close>

text \<open>C26: What \<open>Dequeue\<close> can come to, on a queue that any clients have worked on. A message that is returned
  was the next one of the group, is now in the processing list of the consumer and is marked and
  counted as processing; what is returned is what its hash decodes to. No message means that
  nothing has changed, or that the pop has happened and its answer was lost. An error is a failure
  of Redis, with the pop and the check-out done or not; or a refusal for the state of the queue, after
  the pop; or a hash that does not decode, after both.\<close>

theorem dequeue_outcome:
  assumes env: "smq_queues env db other" and reach: "reach (qkey (dq_queue d)) (db s) A" and t: "dq_queueType d = Some t"
    and ids: "\<forall>m. next_id A t (dq_groupID d) = Some m \<longrightarrow> plain_id m \<and> can_incr (mq_msg A m) MF_Attempts"
    and room: "int (length (mq_pub A)) + 1 < 2 ^ 63"
    and run: "Dequeue (env_redis env) cc d s = (r, s')"
  defines "R \<equiv> reach (qkey (dq_queue d)) (db s')"
    and "B \<equiv> run_op (pop_op t (dq_groupID d) (dq_consumerID d)) A"
  shows "case r of
      Inr (Some e) \<Rightarrow> (\<exists>m. next_id A t (dq_groupID d) = Some m \<and> state_verdict A = None \<and>
        R (do_checkout (cc_now cc) m B) \<and> decode_at (cc_decode cc) m (mq_msg (do_checkout (cc_now cc) m B) m) = Inr e)
    | Inr None \<Rightarrow> R A \<or> R B
    | Inl e \<Rightarrow>
        (\<exists>e'. e = Wrapf ''dequeue: rate limit check'' e') \<and> R A \<or>
        (\<exists>m. next_id A t (dq_groupID d) = Some m \<and>
          ((\<exists>v. state_verdict A = Some v \<and> checkout_reply v s' = (r, s') \<and> R B) \<or>
           redis_fault e \<and> (R B \<or> R (do_checkout (cc_now cc) m B)) \<or>
           state_verdict A = None \<and> R (do_checkout (cc_now cc) m B) \<and>
             (\<exists>e'. e = Wrapf ''decode message'' e' \<and>
                decode_at (cc_decode cc) m (mq_msg (do_checkout (cc_now cc) m B) m) = Inl e')))"
proof -
  have refused: "\<exists>e. r = Inl e" if "state_verdict A = Some v" "checkout_reply v s' = (r, s')" for v
    using that by (auto simp: state_verdict_def state_error_def checkout_reply_def split: if_splits)
  from smq_queues.Dequeue_cases [OF env reach t ids room run] show ?thesis
    unfolding R_def [symmetric] B_def [symmetric]
    by (elim disjE exE conjE) (use refused in \<open>force split: sum.split option.split\<close>)+
qed

definition sample_dequeuer :: dequeuer where
  "sample_dequeuer = (NewDequeueMessage sample_queue [] ''c1'' [])\<lparr>dq_queueType := Some TypeFIFO\<rparr>"

lemma sample_dequeuer_fields: "dq_queue sample_dequeuer = sample_queue" "dq_groupID sample_dequeuer = []"
  "dq_consumerID sample_dequeuer = ''c1''" "dq_queueType sample_dequeuer = Some TypeFIFO" "dq_rateLimit sample_dequeuer = None"
  by (simp_all add: sample_dequeuer_def NewDequeueMessage_def)

definition sample_audit :: message_audit where
  "sample_audit = \<lparr>ma_AcknowledgedMessages = \<lparr>am_Enabled = False, am_QueueSize = 0, am_Expire = 0\<rparr>,
     ma_DeadLetteredMessages = \<lparr>am_Enabled = False, am_QueueSize = 0, am_Expire = 0\<rparr>,
     ma_UnacknowledgementHistory = \<lparr>ah_Enabled = False, ah_MaxSize = 0\<rparr>\<rparr>"

definition sample_ctx :: consumer_ctx where
  "sample_ctx = \<lparr>cc_audit = sample_audit,
     cc_decode = \<lparr>dc_defaults = DefaultConsumeOptions, dc_now = (\<lambda>_. 7000000000), dc_uuid = (\<lambda>_. (''u'', ''v''))\<rparr>,
     cc_now = 8, cc_new = (7000000000, ''w''), cc_unack = (9, 9000000000, 9000000000)\<rparr>"

lemma second_next: "next_id second_view TypeFIFO [] = Some ''m1''"
  by (simp add: next_id_def second_view_pub enum_defs)

lemma second_field:
  "(f, v) \<in> set (zip buildMessagePropertyKeys (messagePropertyValues pending_sample)) \<Longrightarrow>
     fmlookup (mq_msg second_view ''m1'') f = Some v"
proof -
  have "map fst (zip buildMessagePropertyKeys (messagePropertyValues pending_sample)) = buildMessagePropertyKeys"
    by (simp add: map_fst_zip values_nth)
  then have "distinct (map fst (zip buildMessagePropertyKeys (messagePropertyValues pending_sample)))"
    by (simp add: distinct_keys)
  then show "(f, v) \<in> set (zip buildMessagePropertyKeys (messagePropertyValues pending_sample)) \<Longrightarrow>
     fmlookup (mq_msg second_view ''m1'') f = Some v"
    by (simp add: second_view_def run_first do_publish_def Let_def set_fields_def hset_all_in)
qed

lemma second_attempts: "can_incr (mq_msg second_view ''m1'') MF_Attempts"
proof -
  have "ms_attempts (e_messageState pending_sample) = 0"
    by (simp add: pending_sample_def sample_envelope_defs SetStatus_def)
  then have "fmlookup (mq_msg second_view ''m1'') MF_Attempts = Some (itoa 0)"
    by (intro second_field) (simp add: buildMessagePropertyKeys_def messagePropertyValues_def Let_def State_ToTransferable_def)
  then show ?thesis by (simp add: can_incr_def field_number_def num_field_def in_int64_def)
qed

theorem dequeue_outcome_witness:
  "\<exists>d r d'. reach (qkey sample_queue) d second_view \<and>
     Dequeue (mem_redis (smq_scripts no_scripts)) sample_ctx sample_dequeuer d = (r, d') \<and>
     (case r of Inr (Some e) \<Rightarrow> \<exists>A. reach (qkey sample_queue) d' A \<and> ''m1'' \<in> set (mq_proc A ''c1'') | _ \<Rightarrow> True)"
proof -
  obtain d where d: "reach (qkey sample_queue) d second_view" using reach_second ..
  obtain r d' where run: "Dequeue (mem_redis (smq_scripts no_scripts)) sample_ctx sample_dequeuer d = (r, d')" by fastforce
  have m: "\<forall>m. next_id second_view TypeFIFO [] = Some m \<longrightarrow> plain_id m \<and> can_incr (mq_msg second_view m) MF_Attempts"
    using second_next second_attempts by (auto simp: plain_id_def)
  have A: "lively second_view" using reach_view [OF d] by simp
  note out = dequeue_outcome [OF mem_smq_queues, of sample_dequeuer d second_view TypeFIFO sample_ctx r d', unfolded sample_dequeuer_fields]
  have "(case r of Inr (Some e) \<Rightarrow> \<exists>A. reach (qkey sample_queue) d' A \<and> ''m1'' \<in> set (mq_proc A ''c1'') | _ \<Rightarrow> True)"
    using out [OF d _ m] run pop_taken(1) [OF A second_next, of "''c1''"]
    by (auto simp: second_view_pub second_next do_checkout_def split: sum.splits option.splits)
  with d run show ?thesis by blast
qed

text \<open>The lists and the groups of a queue stay as they are when one of its settings changes.\<close>

lemma reach_set_conf:
  assumes "reach q d A" and "f \<notin> set counter_fields" and "f \<noteq> F_Type"
  shows "\<exists>d'. reach q d' (A\<lparr>mq_conf := (mq_conf A)(f := Some v)\<rparr>)"
proof -
  obtain h where h: "get_hash d (Queue_Properties q) = Inr h" "props_view h A" and view: "queue_view q d A"
    using reach_view [OF assms(1)] queue_view_props by blast
  let ?A = "settings A ((mq_conf A)(f := Some v)) (mq_grps A) (mq_msg A) (mq_hist A)"
  have "props_view (fmupd f v h) ?A" using h(2) assms(2) by (auto simp: props_view_def settings_def)
  then have "queue_view q (put_hash (Queue_Properties q) (fmupd f v h) d) ?A"
    using view by (simp add: queue_view_def get_put_if fmdom_eq_fempty settings_def)
  then have "reach q (put_hash (Queue_Properties q) (fmupd f v h) d) ?A"
    by (rule reach.elsewhere [OF assms(1), rotated 2]) (use assms(3) in auto)
  then show ?thesis unfolding settings_def by (auto intro: exI)
qed

text \<open>C32: A consumer that takes a message from a queue which has just been stopped or locked strands it.
  When \<open>Dequeue\<close> reports the state of the queue, the message it had popped is in the processing list
  of the consumer and nowhere else, still marked as pending: the call that is meant to give it back
  is refused for the same reason as the check-out, and its refusal is ignored.\<close>

theorem refused_take_strands:
  assumes env: "smq_queues env db other" and reach: "reach (qkey (dq_queue d)) (db s) A" and t: "dq_queueType d = Some t"
    and ids: "\<forall>m. next_id A t (dq_groupID d) = Some m \<longrightarrow> plain_id m \<and> can_incr (mq_msg A m) MF_Attempts"
    and room: "int (length (mq_pub A)) + 1 < 2 ^ 63"
    and run: "Dequeue (env_redis env) cc d s = (Inl (ConsumerErr e), s')"
  shows "\<exists>m B. next_id A t (dq_groupID d) = Some m \<and> state_verdict A \<noteq> None \<and> reach (qkey (dq_queue d)) (db s') B \<and>
    m \<in> set (mq_proc B (dq_consumerID d)) \<and> msg_status_of B m = Some (itoa StatusPending) \<and>
    (\<forall>p. m \<in> at_place B p \<longrightarrow> p = Proc (dq_consumerID d))"
proof -
  define B where "B = run_op (pop_op t (dq_groupID d) (dq_consumerID d)) A"
  have A: "lively A" using reach_view [OF reach] by simp
  have "\<exists>m. next_id A t (dq_groupID d) = Some m \<and> state_verdict A \<noteq> None \<and> reach (qkey (dq_queue d)) (db s') B"
    using smq_queues.Dequeue_cases [OF env reach t ids room run] unfolding B_def [symmetric]
    by (elim disjE exE conjE) (auto split: sum.splits)
  then obtain m where m: "next_id A t (dq_groupID d) = Some m" "state_verdict A \<noteq> None"
    and B: "reach (qkey (dq_queue d)) (db s') B" by blast
  have at: "m \<in> set (mq_proc B (dq_consumerID d))" unfolding B_def by (rule pop_taken(1) [OF A m(1)])
  have "lively B" using reach_view [OF B] by simp
  then have "\<forall>p. m \<in> at_place B p \<longrightarrow> p = Proc (dq_consumerID d)"
    using lively_unique [of B m _ "Proc (dq_consumerID d)"] at by auto
  moreover have "msg_status_of B m = Some (itoa StatusPending)"
    using pop_taken(2) [OF A m(1)] by (simp add: B_def msg_status_of_def pop_msg)
  ultimately show ?thesis using m B at by blast
qed

definition stopped_view :: mq where
  "stopped_view = second_view\<lparr>mq_conf := (mq_conf second_view)(F_OperationalState := Some (itoa StateStopped))\<rparr>"

lemma stopped_next: "next_id stopped_view TypeFIFO [] = Some ''m1''" "mq_msg stopped_view = mq_msg second_view"
  "mq_pub stopped_view = mq_pub second_view"
  by (simp_all add: stopped_view_def next_id_def second_view_pub enum_defs)

lemma stopped_verdict: "state_verdict stopped_view = Some ''QUEUE_STOPPED''"
  by (simp add: state_verdict_def stopped_view_def state_or_def state_error_def)

theorem refused_take_strands_witness:
  "\<exists>d d' B. reach (qkey sample_queue) d stopped_view \<and>
     Dequeue (mem_redis (smq_scripts no_scripts)) sample_ctx sample_dequeuer d = (Inl (ConsumerErr C_ErrQueueStopped), d') \<and>
     reach (qkey sample_queue) d' B \<and> ''m1'' \<in> set (mq_proc B ''c1'')"
proof -
  let ?q = "qkey sample_queue" and ?rd = "mem_redis (smq_scripts no_scripts)"
  obtain d0 where "reach ?q d0 second_view" using reach_second ..
  then obtain d where d: "reach ?q d stopped_view"
    using reach_set_conf [of ?q d0 second_view F_OperationalState] unfolding stopped_view_def
    by (auto simp: counter_fields_def schema_defs)
  have A: "lively stopped_view" using reach_view [OF d] by simp
  let ?B = "run_op (Pop [] ''c1'') stopped_view"
  have ok: "allowed stopped_view (Pop [] ''c1'')" by (simp add: allowed_def op_size_def stopped_next second_view_pub)
  obtain x d1 where 1: "invoke ?q mem_enum (Pop [] ''c1'') d = (Inr x, d1)" "reach ?q d1 ?B" using invoke_total [OF d ok] by blast
  have op: "pop_op TypeFIFO [] ''c1'' = Pop [] ''c1''" by (simp add: pop_op_def enum_defs)
  have x: "x = RBulk ''m1''" using pop_reply [OF d, of mem_enum TypeFIFO "[]" "''c1''"] 1(1) by (simp add: op stopped_next)
  have pop: "pop ?rd sample_dequeuer TypeFIFO d = (Inr ''m1'', d1)"
  proof -
    have "exec ?rd (RPOPLPUSH (Queue_Pending ?q) (Queue_ConsumerProcessing ?q ''c1'')) d = (Inr (RBulk ''m1''), d1)"
      using 1(1) x by (simp add: mem_redis_def invoke_def pending_key_def)
    then have "RPopLPush ?rd (Queue_Pending ?q) (Queue_ConsumerProcessing ?q ''c1'') d = (Inr ''m1'', d1)"
      by (simp add: RPopLPush_def and_then_Inr)
    then show ?thesis
      by (simp add: pop_def Let_def sample_dequeuer_fields enum_defs popFIFO_def BRPopLPush_def try_then)
  qed
  have B: "checkout_verdict ?B ''m1'' = Some ''QUEUE_STOPPED''"
    using pop_verdict [OF A stopped_next(1), of "''c1''"] by (simp add: op stopped_verdict)
  have ok2: "allowed ?B (Checkout 8 ''m1'')"
    using pop_taken(1) [OF A stopped_next(1), of "''c1''"] second_attempts pop_msg [of TypeFIFO "[]" "''c1''" stopped_view]
    by (auto simp: allowed_def op_size_def plain_id_def op stopped_next second_view_pub)
  obtain y d2 where 2: "invoke ?q mem_enum (Checkout 8 ''m1'') d1 = (Inr y, d2)" using invoke_total [OF 1(2) ok2] by blast
  have y: "y = RBulk ''QUEUE_STOPPED''" using checkout_run [OF 1(2) ok2 mem_enum_ok 2] by (simp add: B)
  have "Eval ?rd CheckoutMessage (checkout_keys ?q ''m1'') (checkout_args 8) d1 = (Inr (RBulk ''QUEUE_STOPPED''), d2)"
    by (rule mem_Eval) (use 2 y in \<open>simp add: invoke_def smq_scripts_def\<close>)
  then have co: "checkout ?rd sample_ctx sample_dequeuer ''m1'' d1 = (Inl (ConsumerErr C_ErrQueueStopped), d2)"
    by (simp add: checkout_def sample_dequeuer_fields sample_ctx_def and_then_def map_err_def checkout_reply_def)
  obtain u d' where un: "unacknowledgePoppedMessage ?rd sample_ctx sample_dequeuer ''m1'' (ConsumerErr C_ErrQueueStopped) d2 = (Inr u, d')"
    using popped_unack_total [of ?rd sample_ctx sample_dequeuer] by metis
  have run: "Dequeue ?rd sample_ctx sample_dequeuer d = (Inl (ConsumerErr C_ErrQueueStopped), d')"
    by (simp add: Dequeue_def sample_dequeuer_fields checkRateLimit_def and_then_map_err(1) [where m = "pop _ _ _"] pop try_then co
        and_then_Inr [where m = "unacknowledgePoppedMessage _ _ _ _ _"] un)
  have ids: "\<forall>m. next_id stopped_view TypeFIFO [] = Some m \<longrightarrow> plain_id m \<and> can_incr (mq_msg stopped_view m) MF_Attempts"
    using second_attempts by (simp add: stopped_next plain_id_def)
  show ?thesis
    using refused_take_strands [OF mem_smq_queues, of sample_dequeuer d stopped_view TypeFIFO sample_ctx, unfolded sample_dequeuer_fields]
      d run ids by (fastforce simp: stopped_next second_view_pub)
qed

end
