(* ===== verification/Batching.thy ===== *)
theory Batching
  imports Dequeue
begin

text \<open>
  What a consumer does with a message after it has taken it: \<open>internal/consumer/batch_acker.go\<close>,
  \<open>batch_unacker.go\<close>, \<open>consume_message.go\<close> and \<open>pkg/consumer/batch_config.go\<close>.

  The two batchers have the same buffer and timer. An operation on them returns the new state and the
  batches that it hands over to be carried out; the methods hold the mutex of the batcher, so the
  operations follow each other, and the timer may fire between any two of them. A batch is carried out
  by \<open>acknowledge\<close> or \<open>unacknowledge\<close>.
\<close>

subsection \<open>The buffer\<close>

record batch_config =
  bc_Enabled :: bool
  bc_BatchSize :: int
  bc_BatchTimeout :: int

definition DefaultBatchConfig :: batch_config where
  "DefaultBatchConfig = \<lparr>bc_Enabled = False, bc_BatchSize = 100, bc_BatchTimeout = 10 * time_Second\<rparr>"

record 'x batcher =
  bt_cfg :: batch_config
  bt_buffer :: "'x list"
  bt_timer :: bool

definition new_batcher :: "batch_config \<Rightarrow> 'x batcher" where
  "new_batcher cfg = \<lparr>bt_cfg = cfg, bt_buffer = [], bt_timer = False\<rparr>"

definition batch_flush :: "'x batcher \<Rightarrow> 'x batcher \<times> 'x list list" where
  "batch_flush b =
     (if bt_buffer b = [] then (b, [])
      else (b\<lparr>bt_buffer := [], bt_timer := False\<rparr>, [bt_buffer b]))"

definition batch_add :: "'x batcher \<Rightarrow> 'x \<Rightarrow> 'x batcher \<times> 'x list list" where
  "batch_add b x =
     (if \<not> bc_Enabled (bt_cfg b) then (b, [[x]])
      else
      let b = b\<lparr>bt_buffer := bt_buffer b @ [x]\<rparr>;
          b = (if \<not> bt_timer b then b\<lparr>bt_timer := True\<rparr> else b) in
      if bc_BatchSize (bt_cfg b) \<le> int (length (bt_buffer b))
      then batch_flush (b\<lparr>bt_timer := False\<rparr>)
      else (b, []))"

definition batch_shutdown :: "'x batcher \<Rightarrow> 'x batcher \<times> 'x list list" where
  "batch_shutdown b = batch_flush (b\<lparr>bt_timer := False\<rparr>)"

type_synonym batch_acker = "string batcher"
type_synonym batch_unacker = "unack_entry batcher"

definition BatchAcker_Ack :: "batch_acker \<Rightarrow> string \<Rightarrow> batch_acker \<times> string list list" where
  "BatchAcker_Ack ba messageID = batch_add ba messageID"

definition BatchUnacker_Unack :: "batch_unacker \<Rightarrow> envelope \<Rightarrow> UnacknowledgeCause \<Rightarrow> batch_unacker \<times> unack_entry list list" where
  "BatchUnacker_Unack bu msg cause = batch_add bu \<lparr>ue_Message = msg, ue_Cause = cause\<rparr>"

subsection \<open>Carrying out a batch\<close>

record settle_ctx =
  sx_audit :: message_audit
  sx_now :: int
  sx_decode :: decode_ctx
  sx_unack_now :: int
  sx_clock :: "envelope \<Rightarrow> int \<times> int"

definition causeFromAckError :: "string \<Rightarrow> UnacknowledgeCause" where
  "causeFromAckError reply =
     (if reply = ''QUEUE_STOPPED'' then CauseQueueStopped
      else if reply = ''QUEUE_LOCKED'' then CauseQueueLocked
      else if reply = ''QUEUE_INVALID_STATE'' then CauseQueueInvalidState
      else CauseUnexpectedError)"

definition unack_all :: "settle_ctx \<Rightarrow> UnacknowledgeCause \<Rightarrow> envelope list \<Rightarrow> (unack_entry \<times> int \<times> int) list" where
  "unack_all sx cause envs = map (\<lambda>env. (\<lparr>ue_Message = env, ue_Cause = cause\<rparr>, sx_clock sx env)) envs"

definition unacknowledgeFailed :: "'s redis_server \<Rightarrow> settle_ctx \<Rightarrow> queue_params \<Rightarrow> string \<Rightarrow> string list \<Rightarrow> UnacknowledgeCause
    \<Rightarrow> ('s, go_error, unit) io" where
  "unacknowledgeFailed rd sx queue consumerID ids cause =
     and_then (loadMessages rd (sx_decode sx) ids) (\<lambda>envs.
     if envs = [] then ret ()
     else and_then (try_io (UnacknowledgeBatch rd (sx_audit sx) (sx_unack_now sx) queue consumerID (unack_all sx cause envs)))
       (\<lambda>(_ :: go_error + unit). ret ()))"

definition acknowledge :: "'s redis_server \<Rightarrow> settle_ctx \<Rightarrow> queue_params \<Rightarrow> string \<Rightarrow> string list \<Rightarrow> ('s, go_error, unit) io" where
  "acknowledge rd sx queue consumerID ids =
     and_then (try_io (Eval rd AcknowledgeMessage (acknowledge_keys (qkey queue) consumerID ids)
       (acknowledge_args (sx_audit sx) (sx_now sx) ids))) (\<lambda>r.
     case r of
       Inl (err :: go_error) \<Rightarrow> unacknowledgeFailed rd sx queue consumerID ids CauseUnexpectedError
     | Inr (RBulk errStr) \<Rightarrow> unacknowledgeFailed rd sx queue consumerID ids (causeFromAckError errStr)
     | Inr (RArr results) \<Rightarrow> ret ()
     | Inr _ \<Rightarrow> unacknowledgeFailed rd sx queue consumerID ids CauseUnexpectedError)"

text \<open>The consumer events, \<open>internal/consumer/events/publish.go\<close>.\<close>

definition PublishMessageReceived :: "'s smq_env \<Rightarrow> string \<Rightarrow> queue_params \<Rightarrow> string \<Rightarrow> ('s, go_error, unit) io" where
  "PublishMessageReceived env m q c = publish_event env ''consumer.messageReceived'' [JStr m, Params_MarshalJSON q, JStr c]"

definition PublishMessageAcknowledged :: "'s smq_env \<Rightarrow> string \<Rightarrow> queue_params \<Rightarrow> string \<Rightarrow> ('s, go_error, unit) io" where
  "PublishMessageAcknowledged env m q c = publish_event env ''consumer.messageAcknowledged'' [JStr m, Params_MarshalJSON q, JStr c]"

definition PublishMessageUnacknowledged :: "'s smq_env \<Rightarrow> string \<Rightarrow> queue_params \<Rightarrow> string \<Rightarrow> int \<Rightarrow> ('s, go_error, unit) io" where
  "PublishMessageUnacknowledged env m q c cause =
     publish_event env ''consumer.messageUnacknowledged'' [JStr m, Params_MarshalJSON q, JStr c, JNum cause]"

definition PublishMessageDeadLettered :: "'s smq_env \<Rightarrow> string \<Rightarrow> queue_params \<Rightarrow> string \<Rightarrow> int \<Rightarrow> ('s, go_error, unit) io" where
  "PublishMessageDeadLettered env m q c cause =
     publish_event env ''consumer.messageDeadLettered'' [JStr m, Params_MarshalJSON q, JStr c, JNum cause]"

definition PublishMessageRequeued :: "'s smq_env \<Rightarrow> string \<Rightarrow> queue_params \<Rightarrow> string \<Rightarrow> ('s, go_error, unit) io" where
  "PublishMessageRequeued env m q c = publish_event env ''consumer.messageRequeued'' [JStr m, Params_MarshalJSON q, JStr c]"

definition PublishMessageDelayed :: "'s smq_env \<Rightarrow> string \<Rightarrow> queue_params \<Rightarrow> string \<Rightarrow> ('s, go_error, unit) io" where
  "PublishMessageDelayed env m q c = publish_event env ''consumer.messageDelayed'' [JStr m, Params_MarshalJSON q, JStr c]"

text \<open>The events of one entry; \<open>clock\<close> is the reading that \<open>resolveUnackAction\<close> makes for them.\<close>

definition unack_events :: "'s smq_env \<Rightarrow> queue_params \<Rightarrow> string \<Rightarrow> (envelope \<Rightarrow> int) \<Rightarrow> unack_entry \<Rightarrow> ('s, go_error, unit) io" where
  "unack_events env q c clock entry =
     (let msgID = Envelope_ID (ue_Message entry) in
      case resolveUnackAction (clock (ue_Message entry)) (ue_Message entry) (ue_Cause entry) of
        (action, deadLetterCause) \<Rightarrow>
          if action = ActionDeadLetter then
            and_then (PublishMessageUnacknowledged env msgID q c (ue_Cause entry)) (\<lambda>_.
            PublishMessageDeadLettered env msgID q c deadLetterCause)
          else if action = ActionDelay then
            and_then (PublishMessageUnacknowledged env msgID q c (ue_Cause entry)) (\<lambda>_.
            PublishMessageDelayed env msgID q c)
          else if action = ActionRequeue then
            and_then (PublishMessageUnacknowledged env msgID q c (ue_Cause entry)) (\<lambda>_.
            PublishMessageRequeued env msgID q c)
          else ret ())"

definition unacknowledge :: "'s smq_env \<Rightarrow> settle_ctx \<Rightarrow> (envelope \<Rightarrow> int) \<Rightarrow> queue_params \<Rightarrow> string \<Rightarrow> unack_entry list
    \<Rightarrow> ('s, go_error, unit) io" where
  "unacknowledge env sx clock queue consumerID entries =
     and_then (try_io (UnacknowledgeBatch (env_redis env) (sx_audit sx) (sx_unack_now sx) queue consumerID
       (map (\<lambda>entry. (entry, sx_clock sx (ue_Message entry))) entries))) (\<lambda>r.
     case r of
       Inl (err :: go_error) \<Rightarrow> ret ()
     | Inr _ \<Rightarrow> and_then (for_io (unack_events env queue consumerID clock) entries) (\<lambda>_. ret ()))"

subsection \<open>Consuming a message\<close>

definition isExpired :: "int \<Rightarrow> transferable \<Rightarrow> bool" where
  "isExpired now m \<longleftrightarrow> (if tr_TTL m \<le> 0 then False
     else millis (tr_TTL m) \<le> now - tr_CreatedAt m * time_Millisecond)"

text \<open>What the handler does with a message: it returns, with or without an error, or it panics. The
  forced timer fires before the result of the handler is looked at, or between that look and the end
  of the call, or not at all; without a consume timeout there is no timer.\<close>

datatype handling = Returns "go_error option" | Panics

datatype timing = TimerIdle | TimerBefore | TimerAfter

text \<open>What is handed to the batchers; two decisions may be carried out in either order.\<close>

datatype settlement = AckMessage string | UnackMessage envelope UnacknowledgeCause

definition Consume_decides :: "int \<Rightarrow> (transferable \<Rightarrow> handling) \<Rightarrow> timing \<Rightarrow> envelope \<Rightarrow> settlement list" where
  "Consume_decides now handler timing envelope =
     (let m = Envelope_ToTransferable envelope in
      if isExpired now m then [UnackMessage envelope CauseTTLExpired]
      else
      let timing = (if 0 < tr_ConsumeTimeout m then timing else TimerIdle);
          failed = (case handler m of Returns None \<Rightarrow> False | Returns (Some err) \<Rightarrow> True | Panics \<Rightarrow> True);
          decision = (if failed then UnackMessage envelope CauseUnacknowledged else AckMessage (tr_ID m)) in
      case timing of
        TimerBefore \<Rightarrow> [UnackMessage envelope CauseTimeout]
      | TimerAfter \<Rightarrow> [decision, UnackMessage envelope CauseTimeout]
      | TimerIdle \<Rightarrow> [decision])"

definition Consume :: "'s smq_env \<Rightarrow> queue_params \<Rightarrow> string \<Rightarrow> int \<Rightarrow> (transferable \<Rightarrow> handling) \<Rightarrow> timing \<Rightarrow> envelope
    \<Rightarrow> ('s, go_error, settlement list) io" where
  "Consume env queue consumerID now handler timing envelope =
     (let m = Envelope_ToTransferable envelope; decisions = Consume_decides now handler timing envelope in
      and_then (PublishMessageReceived env (tr_ID m) queue consumerID) (\<lambda>_.
      and_then (if AckMessage (tr_ID m) \<in> set decisions
        then PublishMessageAcknowledged env (tr_ID m) queue consumerID else ret ()) (\<lambda>_.
      ret decisions)))"

subsection \<open>Every run of a batcher\<close>

text \<open>What can happen to a batcher: a message is added, the batch is flushed by its owner or by the timer,
  the batcher is shut down.\<close>

datatype 'x batch_event = Add 'x | Flush | Fire | Shutdown

fun batch_step :: "'x batch_event \<Rightarrow> 'x batcher \<Rightarrow> 'x batcher \<times> 'x list list" where
  "batch_step (Add x) b = batch_add b x"
| "batch_step Flush b = batch_flush b"
| "batch_step Fire b = batch_flush b"
| "batch_step Shutdown b = batch_shutdown b"

primrec batch_run :: "'x batch_event list \<Rightarrow> 'x batcher \<Rightarrow> 'x batcher \<times> 'x list list" where
  "batch_run [] b = (b, [])"
| "batch_run (e # es) b =
     (case batch_step e b of (b1, out) \<Rightarrow> (case batch_run es b1 of (b2, outs) \<Rightarrow> (b2, out @ outs)))"

primrec added :: "'x batch_event list \<Rightarrow> 'x list" where
  "added [] = []"
| "added (e # es) = (case e of Add x \<Rightarrow> x # added es | _ \<Rightarrow> added es)"

definition batch_inv :: "'x batcher \<Rightarrow> bool" where
  "batch_inv b \<longleftrightarrow> (bt_buffer b \<noteq> [] \<longleftrightarrow> bt_timer b) \<and> (bt_buffer b \<noteq> [] \<longrightarrow> bc_Enabled (bt_cfg b) \<and> int (length (bt_buffer b)) < bc_BatchSize (bt_cfg b))"

lemma batch_step_props:
  assumes "batch_inv b" and "batch_step e b = (b', out)"
  shows "batch_inv b' \<and> bt_cfg b' = bt_cfg b \<and> concat out @ bt_buffer b' = bt_buffer b @ added [e] \<and>
    (\<forall>xs \<in> set out. xs \<noteq> [] \<and> int (length xs) \<le> max 1 (bc_BatchSize (bt_cfg b))) \<and>
    (e \<in> {Flush, Fire, Shutdown} \<longrightarrow> bt_buffer b' = [])"
  using assms
  by (cases e)
    (auto simp: batch_inv_def batch_add_def batch_flush_def batch_shutdown_def Let_def split: if_splits)

lemma added_append: "added (es @ es') = added es @ added es'"
  by (induction es) (auto split: batch_event.split)

lemma batch_run_props:
  assumes "batch_inv b" and "batch_run es b = (b', out)"
  shows "batch_inv b' \<and> bt_cfg b' = bt_cfg b \<and> concat out @ bt_buffer b' = bt_buffer b @ added es \<and>
    (\<forall>xs \<in> set out. xs \<noteq> [] \<and> int (length xs) \<le> max 1 (bc_BatchSize (bt_cfg b)))"
  using assms
proof (induction es arbitrary: b out)
  case (Cons e es)
  obtain b1 out1 out2 where run: "batch_step e b = (b1, out1)" "batch_run es b1 = (b', out2)" "out = out1 @ out2"
    using Cons.prems(2) by (auto split: prod.splits)
  note step = batch_step_props [OF Cons.prems(1) run(1)]
  have e: "added (e # es) = added [e] @ added es" using added_append [of "[e]" es] by simp
  from step have "batch_inv b1" by blast
  note rest = Cons.IH [OF this run(2)]
  have "concat out @ bt_buffer b' = concat out1 @ (concat out2 @ bt_buffer b')" by (simp add: run(3))
  also have "\<dots> = concat out1 @ bt_buffer b1 @ added es" using rest by simp
  also have "\<dots> = bt_buffer b @ added (e # es)" using step unfolding e by (metis append.assoc)
  finally show ?case using step rest run(3) by auto
qed simp



subsection \<open>A batch is its messages one after the other\<close>

definition trim_ack :: "message_audit \<Rightarrow> mq \<Rightarrow> mq" where
  "trim_ack cfg A = A\<lparr>mq_ack := keep_last (ma_AcknowledgedMessages cfg) (mq_ack A)\<rparr>"

lemma list_range_last: "0 < n \<Longrightarrow> list_range (- n) (-1) xs = drop (length xs - nat n) xs"
  by (cases xs rule: rev_cases) (auto simp: list_range_def Let_def nat_diff_distrib' max_def intro!: arg_cong2 [where f = drop])

lemma last_n_append:
  "drop (length (drop (length xs - n) xs @ ys) - n) (drop (length xs - n) xs @ ys) = drop (length (xs @ ys) - n) (xs @ ys)"
  by (cases "length xs \<le> n") (auto simp: add.commute)

lemma keep_last_append: "keep_last a (keep_last a xs @ ys) = keep_last a (xs @ ys)"
  unfolding keep_last_def using last_n_append by (auto simp only: list_range_last if_True if_False split: if_splits)

lemma trim_ack_do_ack: "trim_ack cfg (do_ack cfg now c m (trim_ack cfg A)) = trim_ack cfg (do_ack cfg now c m A)"
  by (simp add: do_ack_def trim_ack_def keep_last_append [of _ _ "[]", simplified] keep_last_append count_def set_fields_def)

lemma trim_ack_fold: "trim_ack cfg (fold (do_ack cfg now c) ids (trim_ack cfg A)) = trim_ack cfg (fold (do_ack cfg now c) ids A)"
proof (induction ids arbitrary: A)
  case Nil
  then show ?case by (simp add: trim_ack_def keep_last_append [of _ _ "[]", simplified])
next
  case (Cons m ids)
  have "trim_ack cfg (fold (do_ack cfg now c) ids (do_ack cfg now c m (trim_ack cfg A))) =
      trim_ack cfg (fold (do_ack cfg now c) ids (trim_ack cfg (do_ack cfg now c m (trim_ack cfg A))))"
    by (simp add: Cons.IH)
  then show ?case by (simp add: trim_ack_do_ack Cons.IH)
qed

lemma fold_ack_none: "\<forall>m \<in> set ids. m \<notin> set (mq_proc A c) \<Longrightarrow> fold (do_ack cfg now c) ids A = A"
  by (induction ids) (simp_all add: do_ack_def)

lemma do_ack_batch_single: "do_ack_batch cfg now c ids A = fold (\<lambda>m. do_ack_batch cfg now c [m]) ids A"
proof (induction ids arbitrary: A)
  case (Cons m ids)
  show ?case
  proof (cases "m \<in> set (mq_proc A c)")
    case True
    let ?X = "do_ack cfg now c m A"
    have one: "do_ack_batch cfg now c [m] A = trim_ack cfg ?X" using True by (simp add: do_ack_batch_def trim_ack_def Let_def)
    have "do_ack_batch cfg now c (m # ids) A = trim_ack cfg (fold (do_ack cfg now c) ids ?X)"
      using True by (simp add: do_ack_batch_def trim_ack_def Let_def)
    moreover have "do_ack_batch cfg now c ids (trim_ack cfg ?X) = trim_ack cfg (fold (do_ack cfg now c) ids ?X)"
    proof (cases "\<exists>i \<in> set ids. i \<in> set (mq_proc (trim_ack cfg ?X) c)")
      case True
      then have "do_ack_batch cfg now c ids (trim_ack cfg ?X) = trim_ack cfg (fold (do_ack cfg now c) ids (trim_ack cfg ?X))"
        by (simp add: do_ack_batch_def trim_ack_def Let_def)
      then show ?thesis by (simp add: trim_ack_fold)
    next
      case False
      then have "do_ack_batch cfg now c ids (trim_ack cfg ?X) = fold (do_ack cfg now c) ids (trim_ack cfg ?X)"
        by (simp add: do_ack_batch_def Let_def)
      moreover have "fold (do_ack cfg now c) ids (trim_ack cfg ?X) = trim_ack cfg ?X" using False by (intro fold_ack_none) blast
      moreover have "fold (do_ack cfg now c) ids ?X = ?X" using False by (intro fold_ack_none) (simp add: trim_ack_def)
      ultimately show ?thesis by simp
    qed
    ultimately show ?thesis by (simp add: one Cons.IH [symmetric])
  next
    case False
    then have "do_ack cfg now c m A = A" by (simp add: do_ack_def)
    with False have "do_ack_batch cfg now c (m # ids) A = do_ack_batch cfg now c ids A" "do_ack_batch cfg now c [m] A = A"
      by (simp_all add: do_ack_batch_def Let_def)
    then show ?thesis by (simp add: Cons.IH)
  qed
qed (simp add: do_ack_batch_def)

lemma play_reach:
  "reach q d A \<Longrightarrow> allowed_seq A ops \<Longrightarrow> play q en ops d = (rs, d') \<Longrightarrow> reach q d' (fold run_op ops A)"
proof (induction ops arbitrary: d A rs)
  case (Cons op ops)
  obtain r d1 rs1 where run: "invoke q en op d = (r, d1)" "play q en ops d1 = (rs1, d')"
    using Cons.prems(3) by (auto split: prod.splits)
  have "reach q d1 (run_op op A)" using reach.operate [OF Cons.prems(1) _ run(1)] Cons.prems(2) by simp
  from Cons.IH [OF this _ run(2)] Cons.prems(2) show ?case by simp
qed simp

lemma run_verdict: "state_verdict (run_op op A) = state_verdict A"
  by (simp add: state_verdict_def run_conf)

lemma run_single_acks:
  "fold run_op (map (\<lambda>m. Acknowledge cfg now c [m]) ids) A = run_op (Acknowledge cfg now c ids) A"
proof (cases "state_verdict A")
  case None
  have "fold run_op (map (\<lambda>m. Acknowledge cfg now c [m]) ids) A = fold (\<lambda>m. do_ack_batch cfg now c [m]) ids A" if "state_verdict A = None" for A
    using that
  proof (induction ids arbitrary: A)
    case (Cons m ids)
    then show ?case using run_verdict [of "Acknowledge cfg now c [m]" A] by (simp add: run_op_def)
  qed simp
  with None show ?thesis by (simp add: run_op_def do_ack_batch_single [of _ _ _ ids])
next
  case (Some v)
  then have "fold run_op (map (\<lambda>m. Acknowledge cfg now c [m]) ids) A = A" by (induction ids) (simp_all add: run_op_def)
  with Some show ?thesis by (simp add: run_op_def)
qed

lemma ack_batch_sel:
  "mq_proc (do_ack_batch cfg now c [m] A) = mq_proc (do_ack cfg now c m A)"
  "msg_status_of (do_ack_batch cfg now c [m] A) = msg_status_of (do_ack cfg now c m A)"
  "mq_pub (do_ack_batch cfg now c [m] A) = mq_pub A"
  by (simp_all add: do_ack_batch_def do_ack_def Let_def msg_status_of_def fun_eq_iff)

lemma allowed_single_acks:
  assumes "lively A" and "allowed A (Acknowledge cfg now c ids)"
  shows "allowed_seq A (map (\<lambda>m. Acknowledge cfg now c [m]) ids)"
  using assms
proof (induction ids arbitrary: A)
  case (Cons m ids)
  let ?op = "Acknowledge cfg now c [m]" and ?B = "run_op (Acknowledge cfg now c [m]) A"
  have ok: "allowed A ?op" using Cons.prems(2) by (simp add: allowed_def op_size_def)
  have B: "lively ?B" by (rule run_lively [OF Cons.prems(1) ok])
  have "allowed ?B (Acknowledge cfg now c ids)"
  proof (cases "state_verdict A")
    case None
    have "m' \<in> set (mq_proc ?B c) \<Longrightarrow> msg_status_of ?B m' = Some (itoa StatusProcessing)" if "m' \<in> set ids" for m'
      using ack_other [OF Cons.prems(1), of m' cfg now c m] do_ack_status [of m' m cfg now c A] that Cons.prems(2) None
      by (simp add: run_op_def ack_batch_sel allowed_def)
    with Cons.prems(2) None show ?thesis by (simp add: allowed_def op_size_def) (simp add: run_op_def ack_batch_sel)
  next
    case (Some v)
    then show ?thesis using Cons.prems(2) by (simp add: run_op_def allowed_def op_size_def)
  qed
  with ok Cons.IH [OF B] show ?case by simp
qed simp

text \<open>C30: It does not matter how acknowledgements are batched. Acknowledging a batch by one script and
  acknowledging its messages one by one lead to databases that show the same queue: the same lists,
  counters, message states, and the same tail of the acknowledged messages that is kept.\<close>

theorem ack_batch_equivalence:
  assumes "reach q d A" and "allowed A (Acknowledge cfg now c ids)"
    and "invoke q en (Acknowledge cfg now c ids) d = (r, d')"
    and "play q en (map (\<lambda>m. Acknowledge cfg now c [m]) ids) d = (rs, d'')"
  defines "B \<equiv> run_op (Acknowledge cfg now c ids) A"
  shows "reach q d' B \<and> queue_view q d' B \<and> reach q d'' B \<and> queue_view q d'' B"
proof -
  have "lively A" using reach_view [OF assms(1)] by simp
  from play_reach [OF assms(1) allowed_single_acks [OF this assms(2)] assms(4)] reach.operate [OF assms(1-3)]
  show ?thesis unfolding run_single_acks B_def using reach_view by blast
qed

text \<open>The sample message in the hands of the consumer \<open>c1\<close>.\<close>

definition third_view :: mq where
  "third_view = run_op (Checkout 8 ''m1'') (run_op (Pop [] ''c1'') second_view)"

lemma second_conf: "mq_conf second_view = mq_conf first_view"
  by (simp add: second_view_def run_conf)

lemma sample_verdict: "state_verdict second_view = None"
  by (simp add: state_verdict_def second_conf first_view_conf state_or_def state_error_def enum_defs)

lemma reach_third:
  "\<exists>d. reach (qkey sample_queue) d third_view" "mq_proc third_view ''c1'' = [''m1'']"
  "msg_status_of third_view ''m1'' = Some (itoa StatusProcessing)" "mq_pub third_view = [''m1'']" "state_verdict third_view = None"
proof -
  obtain d where d: "reach (qkey sample_queue) d second_view" using reach_second ..
  have A: "lively second_view" using reach_view [OF d] by simp
  let ?B = "run_op (Pop [] ''c1'') second_view"
  have op: "pop_op TypeFIFO [] ''c1'' = Pop [] ''c1''" by (simp add: pop_op_def enum_defs)
  note pop = pop_taken(1) [OF A second_next, of "''c1''", unfolded op] pop_msg [of TypeFIFO "[]" "''c1''" second_view, unfolded op]
  have ver: "checkout_verdict ?B ''m1'' = None"
    using pop_verdict [OF A second_next, of "''c1''", unfolded op] by (simp add: sample_verdict)
  have ok: "allowed second_view (Pop [] ''c1'')" "allowed ?B (Checkout 8 ''m1'')"
    using pop second_attempts by (auto simp: allowed_def op_size_def plain_id_def second_view_pub)
  obtain rs d' where "play (qkey sample_queue) mem_enum [Pop [] ''c1'', Checkout 8 ''m1''] d = (rs, d')" by fastforce
  from play_reach [OF d _ this] ok show "\<exists>d. reach (qkey sample_queue) d third_view"
    unfolding third_view_def by auto
  have view: "third_view = do_checkout 8 ''m1'' ?B" unfolding third_view_def using ver by (simp add: run_op_def [of "Checkout _ _"])
  have "mq_proc second_view ''c1'' = []"
    by (simp add: second_view_def run_first do_publish_def Let_def put_pending_def) (simp add: first_view_def new_queue_def)
  then show "mq_proc third_view ''c1'' = [''m1'']" "mq_pub third_view = [''m1'']"
    by (simp_all add: view do_checkout_def second_view_pub pop) (simp add: run_op_def pop_pending_def second_view_pub)
  show "msg_status_of third_view ''m1'' = Some (itoa StatusProcessing)"
    by (auto simp: view do_checkout_def checkout_fields_def msg_status_of_def set_fields_def hset_all_def schema_defs)
  show "state_verdict third_view = None" by (simp add: third_view_def run_verdict sample_verdict)
qed

lemma third_allowed: "\<forall>m \<in> set ids. plain_id m \<Longrightarrow> allowed third_view (Acknowledge sample_audit 9 ''c1'' ids)"
  by (simp add: allowed_def op_size_def reach_third audit_ok_def sample_audit_def in_int64_def)

theorem ack_batch_equivalence_witness:
  "\<exists>d r d' rs d'' B. reach (qkey sample_queue) d third_view \<and>
     invoke (qkey sample_queue) mem_enum (Acknowledge sample_audit 9 ''c1'' [''m1'', ''m2'']) d = (r, d') \<and>
     play (qkey sample_queue) mem_enum (map (\<lambda>m. Acknowledge sample_audit 9 ''c1'' [m]) [''m1'', ''m2'']) d = (rs, d'') \<and>
     queue_view (qkey sample_queue) d' B \<and> queue_view (qkey sample_queue) d'' B"
proof -
  let ?ops = "map (\<lambda>m. Acknowledge sample_audit 9 ''c1'' [m]) [''m1'', ''m2'']"
  obtain d where d: "reach (qkey sample_queue) d third_view" using reach_third(1) ..
  obtain r d' where 1: "invoke (qkey sample_queue) mem_enum (Acknowledge sample_audit 9 ''c1'' [''m1'', ''m2'']) d = (r, d')" by fastforce
  obtain rs d'' where 2: "play (qkey sample_queue) mem_enum ?ops d = (rs, d'')" by fastforce
  have "allowed third_view (Acknowledge sample_audit 9 ''c1'' [''m1'', ''m2''])" by (rule third_allowed) (simp add: plain_id_def)
  from ack_batch_equivalence [OF d this 1 2] show ?thesis using 2 d 1 by blast
qed

subsection \<open>The first settlement wins\<close>

lemma ack_gone: "lively A \<Longrightarrow> m \<notin> set (mq_proc (do_ack_batch cfg now c [m] A) c)"
  using tidy_distinct(2) [of A c] by (auto simp: ack_batch_sel do_ack_def lively_def)

lemma unack_gone: "lively A \<Longrightarrow> ua_id u \<notin> set (mq_proc (do_unack cfg c u A) c)"
  using tidy_distinct(2) [of A c] by (auto simp: do_unack_def lively_def)

lemma settle_no_op:
  assumes "m \<notin> set (mq_proc A c)"
  shows "run_op (Acknowledge cfg now c [m]) A = A"
    "Envelope_ID (ue_Message e) = m \<Longrightarrow> run_op (Unacknowledge cfg now c [(e, clocks)]) A = A"
  using assms by (simp_all add: run_op_def do_ack_batch_def do_ack_def do_unack_def entry_ids)

lemma field_key_text: "Field_Key n \<noteq> ''unacknowledgedCount''"
proof
  assume "Field_Key n = ''unacknowledgedCount''"
  then have "CHR ''u'' \<in> set (itoa n)" by (simp add: Field_Key_def)
  then show False using itoa_chars by (fastforce simp: is_digit_def)
qed

lemma settled_allowed:
  assumes A: "lively A" and ok: "allowed A (Acknowledge cfg now c [m])" "allowed A (Unacknowledge cfg now' c [(e, clocks)])"
    and m: "Envelope_ID (ue_Message e) = m" and ver: "state_verdict A = None"
  shows "allowed_seq A [Acknowledge cfg now c [m], Unacknowledge cfg now' c [(e, clocks)]]"
    "allowed_seq A [Unacknowledge cfg now' c [(e, clocks)], Acknowledge cfg now c [m]]"
proof -
  let ?B = "run_op (Acknowledge cfg now c [m]) A" and ?C = "run_op (Unacknowledge cfg now' c [(e, clocks)]) A"
  have gone: "m \<notin> set (mq_proc ?B c)" "m \<notin> set (mq_proc ?C c)"
    using ack_gone [OF A] unack_gone [OF A] ver m by (auto simp: run_op_def entry_ids) (metis entry_ids)
  have pub: "mq_pub ?B = mq_pub A" "mq_pub ?C = mq_pub A"
    using ver by (simp_all add: run_op_def ack_batch_sel do_unack_def)
  have same: "can_incr (mq_msg ?B m) ''unacknowledgedCount''" if "can_incr (mq_msg A m) ''unacknowledgedCount''"
  proof -
    have "fmlookup (mq_msg ?B m) ''unacknowledgedCount'' = fmlookup (mq_msg A m) ''unacknowledgedCount''"
      using ver by (auto simp: run_op_def do_ack_batch_def do_ack_def Let_def set_fields_def hset_all_def schema_defs field_key_text)
    with that show ?thesis by (simp add: can_incr_def field_number_def num_field_def)
  qed
  show "allowed_seq A [Acknowledge cfg now c [m], Unacknowledge cfg now' c [(e, clocks)]]"
    using ok gone same m by (simp add: allowed_def op_size_def pub unack_ready_def entry_ids)
  show "allowed_seq A [Unacknowledge cfg now' c [(e, clocks)], Acknowledge cfg now c [m]]"
    using ok gone by (simp add: allowed_def op_size_def pub)
qed

text \<open>C31: A message is settled once. When a message that a consumer has checked out is both acknowledged and
  returned, as happens when the handler finishes while its timeout expires, the script that runs
  first decides and the other one changes nothing, in either order.\<close>

theorem settled_once:
  assumes "reach q d A" and "allowed A (Acknowledge cfg now c [m])" and "allowed A (Unacknowledge cfg now' c [(e, clocks)])"
    and "Envelope_ID (ue_Message e) = m" and "state_verdict A = None" and "m \<in> set (mq_proc A c)"
    and "play q en [Acknowledge cfg now c [m], Unacknowledge cfg now' c [(e, clocks)]] d = (rs, d1)"
    and "play q en [Unacknowledge cfg now' c [(e, clocks)], Acknowledge cfg now c [m]] d = (rs', d2)"
  defines "acked \<equiv> run_op (Acknowledge cfg now c [m]) A" and "returned \<equiv> run_op (Unacknowledge cfg now' c [(e, clocks)]) A"
  shows "reach q d1 acked \<and> msg_status_of acked m = Some (itoa StatusAcknowledged) \<and>
    reach q d2 returned \<and> (\<exists>s \<in> {StatusUnackRequeuing, StatusDeadLettered}. msg_status_of returned m = Some (itoa s))"
proof -
  have A: "lively A" using reach_view [OF assms(1)] by simp
  note ok = settled_allowed [OF A assms(2-5)]
  have gone: "m \<notin> set (mq_proc acked c)" "m \<notin> set (mq_proc returned c)"
    using ack_gone [OF A] unack_gone [OF A] assms(4,5) unfolding acked_def returned_def by (auto simp: run_op_def entry_ids) (metis entry_ids)
  have "reach q d1 acked"
    using play_reach [OF assms(1) ok(1) assms(7)] settle_no_op(2) [OF gone(1) assms(4)] by (simp add: acked_def)
  moreover have "reach q d2 returned"
    using play_reach [OF assms(1) ok(2) assms(8)] settle_no_op(1) [OF gone(2)] by (simp add: returned_def)
  moreover have "msg_status_of acked m = Some (itoa StatusAcknowledged)"
    using assms(5,6) by (simp add: acked_def run_op_def ack_batch_sel) (simp add: do_ack_def msg_status_of_def set_fields_def hset_all_def schema_defs)
  moreover have "\<exists>s \<in> {StatusUnackRequeuing, StatusDeadLettered}. msg_status_of returned m = Some (itoa s)"
    using assms(4,5,6) by (simp add: returned_def run_op_def do_unack_def entry_ids) (simp add: unack_status entry_ids)
  ultimately show ?thesis by blast
qed

theorem settled_once_witness:
  "\<exists>d rs d1 rs' d2 A B. reach (qkey sample_queue) d third_view \<and>
     play (qkey sample_queue) mem_enum [Acknowledge sample_audit 9 ''c1'' [''m1''],
       Unacknowledge sample_audit 9 ''c1'' [(\<lparr>ue_Message = pending_sample, ue_Cause = CauseTimeout\<rparr>, 9, 9)]] d = (rs, d1) \<and>
     play (qkey sample_queue) mem_enum [Unacknowledge sample_audit 9 ''c1'' [(\<lparr>ue_Message = pending_sample, ue_Cause = CauseTimeout\<rparr>, 9, 9)],
       Acknowledge sample_audit 9 ''c1'' [''m1'']] d = (rs', d2) \<and>
     reach (qkey sample_queue) d1 A \<and> msg_status_of A ''m1'' = Some (itoa StatusAcknowledged) \<and>
     reach (qkey sample_queue) d2 B \<and> msg_status_of B ''m1'' \<noteq> Some (itoa StatusAcknowledged)"
proof -
  let ?e = "\<lparr>ue_Message = pending_sample, ue_Cause = CauseTimeout\<rparr>"
  let ?ack = "Acknowledge sample_audit 9 ''c1'' [''m1'']" and ?un = "Unacknowledge sample_audit 9 ''c1'' [(?e, 9, 9)]"
  obtain d where d: "reach (qkey sample_queue) d third_view" using reach_third(1) ..
  obtain rs d1 where 1: "play (qkey sample_queue) mem_enum [?ack, ?un] d = (rs, d1)" by fastforce
  obtain rs' d2 where 2: "play (qkey sample_queue) mem_enum [?un, ?ack] d = (rs', d2)" by fastforce
  have ack: "allowed third_view ?ack" by (rule third_allowed) (simp add: plain_id_def)
  have un: "allowed third_view ?un"
    by (simp add: allowed_def op_size_def reach_third audit_ok_def sample_audit_def in_int64_def unack_ready_def entry_ids
        pending_sample_fields plain_id_def) (simp add: unack_entry_args_def Let_def sample_audit_def)
  have id: "Envelope_ID (ue_Message ?e) = ''m1''" by (simp add: pending_sample_fields)
  have m: "''m1'' \<in> set (mq_proc third_view ''c1'')" by (simp add: reach_third)
  note out = settled_once [OF d ack un id reach_third(5) m 1 2]
  have "itoa StatusUnackRequeuing \<noteq> itoa StatusAcknowledged" "itoa StatusDeadLettered \<noteq> itoa StatusAcknowledged"
    by (simp_all add: enum_defs)
  with out d 1 2 show ?thesis by (metis insertE emptyE option.inject)
qed

subsection \<open>Returning what was never checked out\<close>

lemma unack_unchecked:
  fixes cfg :: message_audit
  assumes A: "lively A" and m: "m \<in> set (mq_proc A c)" "msg_status_of A m = Some (itoa StatusPending)" and u: "ua_id u = m"
  defines "C \<equiv> do_unack cfg c u A"
  shows "mq_cnt C F_ProcessingMessagesCount = int (tally (mq_pub C) (msg_status_of C) StatusProcessing) - 1"
    "mq_cnt C F_PendingMessagesCount = int (tally (mq_pub C) (msg_status_of C) StatusPending) + 1"
proof -
  have life: "life (mq_pub A) (msg_status_of A) (at_place A) (mq_cnt A)" using A by (simp add: lively_def)
  have pub: "m \<in> set (mq_pub A)" "distinct (mq_pub A)" using lifeD(1) [OF life] lifeD(3) [OF life, of m "Proc c"] m by auto
  let ?s' = "if requeues u then StatusUnackRequeuing else StatusDeadLettered"
  have st: "msg_status_of C m = Some (itoa ?s')" "\<And>x. x \<noteq> m \<Longrightarrow> msg_status_of C x = msg_status_of A x" and same: "mq_pub C = mq_pub A"
    using m(1) u by (auto simp: C_def do_unack_def) (simp_all add: unack_status)
  have "mq_cnt C F_ProcessingMessagesCount = mq_cnt A F_ProcessingMessagesCount - 1"
    "mq_cnt C F_PendingMessagesCount = mq_cnt A F_PendingMessagesCount"
    using m(1) u by (simp_all add: C_def do_unack_def) (auto simp: count_def schema_defs)
  moreover have "mq_cnt A F_ProcessingMessagesCount = int (tally (mq_pub A) (msg_status_of A) StatusProcessing)"
    "mq_cnt A F_PendingMessagesCount = int (tally (mq_pub A) (msg_status_of A) StatusPending)"
    using lifeD(7) [OF life, of StatusProcessing] lifeD(7) [OF life, of StatusPending] by (simp_all add: status_defs enum_defs)
  ultimately show "mq_cnt C F_ProcessingMessagesCount = int (tally (mq_pub C) (msg_status_of C) StatusProcessing) - 1"
    "mq_cnt C F_PendingMessagesCount = int (tally (mq_pub C) (msg_status_of C) StatusPending) + 1"
    using tally_update [where sts = "msg_status_of A" and sts' = "msg_status_of C", OF pub(2,1) m(2) st, of StatusProcessing]
      tally_update [where sts = "msg_status_of A" and sts' = "msg_status_of C", OF pub(2,1) m(2) st, of StatusPending]
    unfolding same by (simp_all add: enum_defs split: if_splits)
qed

text \<open>Giving back a message that was popped but not checked out breaks the counters. A consumer that dies
  between the pop and the check-out leaves the message in its processing list, still marked as
  pending; the recovery returns the whole list, whose messages the script subtracts from the
  messages in processing. Afterwards the counter of messages in processing is one too low, possibly
  negative, and that of pending messages is one too high.\<close>

theorem unchecked_unack_miscounts:
  assumes reach: "reach q d A" and nxt: "next_id A t g = Some m" "plain_id m" and ver: "state_verdict A = None"
    and room: "int (length (mq_pub A)) + 1 < 2 ^ 63"
    and cfg: "audit_ok (ma_DeadLetteredMessages cfg)" "\<not> ah_Enabled (ma_UnacknowledgementHistory cfg)"
      "in_int64 (ah_MaxSize (ma_UnacknowledgementHistory cfg))"
    and e: "Envelope_ID (ue_Message e) = m"
    and run: "invoke q en (pop_op t g c) d = (r1, d1)" "invoke q en (Unacknowledge cfg now c [(e, clocks)]) d1 = (r2, d2)"
  shows "\<exists>C. queue_view q d2 C \<and>
    mq_cnt C F_ProcessingMessagesCount = int (tally (mq_pub C) (msg_status_of C) StatusProcessing) - 1 \<and>
    mq_cnt C F_PendingMessagesCount = int (tally (mq_pub C) (msg_status_of C) StatusPending) + 1"
proof -
  define B where "B = run_op (pop_op t g c) A"
  define u where "u = unack_entry_args cfg now (e, clocks)"
  have A: "lively A" using reach_view [OF reach] by simp
  have ok: "allowed A (pop_op t g c)" using room by (simp add: allowed_def pop_op_def op_size_def)
  have "reach q d1 B" unfolding B_def by (rule reach.operate [OF reach ok run(1)])
  then have B: "queue_view q d1 B" "lively B" using reach_view by blast+
  have m: "m \<in> set (mq_proc B c)" "msg_status_of B m = Some (itoa StatusPending)"
    using pop_taken [OF A nxt(1)] by (simp_all add: B_def msg_status_of_def pop_msg)
  have u: "ua_id u = m" "ua_history u = []"
    using e cfg(2) by (cases clocks; simp add: u_def unack_entry_args_def Let_def)+
  have len: "int (length (mq_pub B)) + 1 < 2 ^ 63" using room by (simp add: B_def pop_msg)
  have "in_int64 (mq_cnt (do_unack cfg c u B) f)" if "f \<in> set counter_fields" for f
  proof -
    have "mq_cnt B f - 1 \<le> mq_cnt (do_unack cfg c u B) f" "mq_cnt (do_unack cfg c u B) f \<le> mq_cnt B f + 1"
      by (simp_all add: do_unack_def)
    with lively_counter [OF B(2) that] len show ?thesis by (simp add: in_int64_def)
  qed
  then have "counters_ok (do_unack cfg c u B)" by (simp add: counters_ok_def)
  then have wp: "wp q (lua_unacknowledge_message (redis_apply en) (unack_batch_keys q c [u]) (unack_batch_args cfg [u])) B
      (\<lambda>r A'. case state_verdict B of Some err \<Rightarrow> r = RBulk err \<and> A' = B | None \<Rightarrow> (\<exists>n. r = RInt n) \<and> A' = fold (do_unack cfg c) [u] B)"
    by (intro wp_unacknowledge) (use cfg u nxt(2) in \<open>simp_all add: unack_ready_def\<close>)
  have "state_verdict B = None" using ver by (simp add: B_def run_verdict)
  then have "queue_view q d2 (do_unack cfg c u B)"
    using wpD [OF wp B(1)] run(2) unfolding invoke_def buildBatchLuaArgs_def Let_def
    by (auto simp: u_def [symmetric])
  with unack_unchecked [OF B(2) m u(1)] show ?thesis by blast
qed

theorem unchecked_unack_miscounts_witness:
  "\<exists>d r1 d1 r2 d2 C. reach (qkey sample_queue) d second_view \<and>
     invoke (qkey sample_queue) mem_enum (pop_op TypeFIFO [] ''c1'') d = (r1, d1) \<and>
     invoke (qkey sample_queue) mem_enum
       (Unacknowledge sample_audit 9 ''c1'' [(\<lparr>ue_Message = pending_sample, ue_Cause = CauseOfflineConsumer\<rparr>, 9, 9)]) d1 = (r2, d2) \<and>
     queue_view (qkey sample_queue) d2 C \<and>
     mq_cnt C F_ProcessingMessagesCount = int (tally (mq_pub C) (msg_status_of C) StatusProcessing) - 1"
proof -
  let ?e = "\<lparr>ue_Message = pending_sample, ue_Cause = CauseOfflineConsumer\<rparr>"
  obtain d where d: "reach (qkey sample_queue) d second_view" using reach_second ..
  obtain r1 d1 where 1: "invoke (qkey sample_queue) mem_enum (pop_op TypeFIFO [] ''c1'') d = (r1, d1)" by fastforce
  obtain r2 d2 where 2: "invoke (qkey sample_queue) mem_enum (Unacknowledge sample_audit 9 ''c1'' [(?e, 9, 9)]) d1 = (r2, d2)" by fastforce
  have "plain_id ''m1''" "Envelope_ID (ue_Message ?e) = ''m1''" by (simp_all add: plain_id_def pending_sample_fields)
  moreover have "audit_ok (ma_DeadLetteredMessages sample_audit)" "\<not> ah_Enabled (ma_UnacknowledgementHistory sample_audit)"
    "in_int64 (ah_MaxSize (ma_UnacknowledgementHistory sample_audit))"
    by (simp_all add: sample_audit_def audit_ok_def in_int64_def)
  moreover have "int (length (mq_pub second_view)) + 1 < 2 ^ 63" by (simp add: second_view_pub)
  ultimately show ?thesis
    using unchecked_unack_miscounts [OF d second_next _ sample_verdict _ _ _ _ _ 1 2] d 1 2 by blast
qed

end
