(* ===== verification/Consumer_Groups.thy ===== *)
theory Consumer_Groups
  imports Batching
begin

text \<open>
  Consumers as members of a queue: consumer groups (\<open>internal/queue/consumer_group.go\<close>,
  \<open>internal/consumer/prepare_group.go\<close>), subscription (\<open>subscribe.go\<close>), heartbeats (\<open>heartbeat.go\<close>,
  \<open>heartbeat_checker.go\<close>) and the recovery of dead consumers (\<open>reap_consumers.go\<close>). The name of the host
  and the number of the process are arguments. A tick of a background loop is one call of \<open>beat\<close> or
  \<open>reap\<close>; that a heartbeat key expires is a change of the database by others.
\<close>

subsection \<open>Groups\<close>

definition ConsumerGroup_Save :: "'s smq_env \<Rightarrow> (string \<Rightarrow> string) \<Rightarrow> queue_params \<Rightarrow> string \<Rightarrow> ('s, go_error, int) io" where
  "ConsumerGroup_Save env ul queueParams groupID =
     and_then (map_err (Wrapf ''invalid consumer group ID'') (lift_sum (ValidateKey ul groupID))) (\<lambda>_.
     and_then (Queue_Load (env_redis env) queueParams) (\<lambda>props.
     if q_DeliveryModel props \<noteq> DeliveryPubSub then throw (QueueErr Q_ErrConsumerGroupsNotSupported)
     else
     and_then (map_err (\<lambda>e. Wrapf ''save consumer group'' (RedisErr e))
       (sadd (env_redis env) (Queue_ConsumerGroups (qkey queueParams)) [groupID])) (\<lambda>result.
     and_then (if result = 1 then PublishConsumerGroupCreated env queueParams groupID else ret ()) (\<lambda>_.
     ret result))))"

definition delete_group_args :: "string \<Rightarrow> string list" where
  "delete_group_args groupID =
     [F_Type, itoa TypePriority, F_DeliveryModel, itoa DeliveryPubSub, groupID, F_OperationalState,
      State_String StateLocked, F_LockID, []]"

definition ConsumerGroup_Delete :: "'s smq_env \<Rightarrow> queue_params \<Rightarrow> string \<Rightarrow> ('s, go_error, unit) io" where
  "ConsumerGroup_Delete env queueParams groupID =
     (let q = qkey queueParams;
          luaKeys = [Queue_ConsumerGroups q, Queue_Pending q, Queue_Priority q, Queue_Properties q,
            Queue_ConsumerGroupMembers q groupID] in
      and_then (map_err (Wrapf ''delete consumer group'')
        (Eval (env_redis env) DeleteConsumerGroup luaKeys (delete_group_args groupID))) (\<lambda>reply.
      and_then (lift_sum (String_of reply)) (\<lambda>replyStr.
      if replyStr = ''OK'' then PublishConsumerGroupDeleted env queueParams groupID
      else if replyStr = ''QUEUE_LOCKED'' then throw (QueueErr Q_ErrLocked)
      else if replyStr = ''QUEUE_NOT_FOUND'' then throw (QueueErr Q_ErrNotFound)
      else if replyStr = ''CONSUMER_GROUPS_NOT_SUPPORTED'' then throw (QueueErr Q_ErrConsumerGroupsNotSupported)
      else if replyStr = ''CONSUMER_GROUP_NOT_EMPTY'' then throw (QueueErr Q_ErrConsumerGroupNotEmpty)
      else if replyStr = ''CONSUMER_GROUP_HAS_ACTIVE_CONSUMERS'' then throw (QueueErr Q_ErrConsumerGroupHasActiveConsumers)
      else throw (Errorf (''delete consumer group: unexpected script reply: '' @ replyStr)))))"

definition ConsumerGroup_List :: "'s redis_server \<Rightarrow> queue_params \<Rightarrow> ('s, go_error, string list) io" where
  "ConsumerGroup_List rd queueParams =
     map_err (Wrapf ''list consumer groups'') (LoadSetMembers rd (Queue_ConsumerGroups (qkey queueParams)) ''consumer groups'')"

definition ephemeralGroupID :: "string \<Rightarrow> string" where
  "ephemeralGroupID consumerID = ''cid-'' @ consumerID"

definition createConsumerGroup :: "'s smq_env \<Rightarrow> queue_params \<Rightarrow> string \<Rightarrow> ('s, go_error, unit) io" where
  "createConsumerGroup env q groupID =
     and_then (map_err (\<lambda>e. Wrapf ''create consumer group'' (RedisErr e))
       (sadd (env_redis env) (Queue_ConsumerGroups (qkey q)) [groupID])) (\<lambda>result.
     if result = 1 then PublishConsumerGroupCreated env q groupID else ret ())"

definition PrepareConsumerGroup :: "'s smq_env \<Rightarrow> string \<Rightarrow> queue_params \<Rightarrow> string \<Rightarrow> ('s, go_error, string) io" where
  "PrepareConsumerGroup env consumerID q groupID =
     and_then (map_err (Wrapf ''prepare consumer group'') (Queue_Load (env_redis env) q)) (\<lambda>props.
     if q_DeliveryModel props = DeliveryPubSub then
       (let effectiveGroupID = (if groupID = [] then ephemeralGroupID consumerID else groupID) in
        and_then (map_err (Wrapf ''prepare consumer group'') (createConsumerGroup env q effectiveGroupID)) (\<lambda>_.
        ret effectiveGroupID))
     else if groupID \<noteq> [] then throw (Errorf ''consumer group not supported for point-to-point queues'')
     else ret [])"

definition DeleteEphemeralConsumerGroup :: "'s redis_server \<Rightarrow> string \<Rightarrow> queue_params \<Rightarrow> string \<Rightarrow> ('s, go_error, unit) io" where
  "DeleteEphemeralConsumerGroup rd consumerID queueParams groupID =
     (let effectiveGroupID = (if groupID = [] then ephemeralGroupID consumerID else groupID);
          q = qkey queueParams;
          luaKeys = [Queue_ConsumerGroups q, Queue_PendingWithGroup q effectiveGroupID, Queue_PriorityWithGroup q effectiveGroupID,
            Queue_Properties q, Queue_ConsumerGroupMembers q effectiveGroupID] in
      and_then (map_err (Wrapf ''delete ephemeral consumer group'')
        (Eval rd DeleteConsumerGroup luaKeys (delete_group_args effectiveGroupID))) (\<lambda>reply.
      if fmt_v reply \<noteq> ''OK''
      then throw (Errorf (''delete ephemeral consumer group: unexpected reply: '' @ fmt_v reply))
      else ret ()))"

subsection \<open>Subscription\<close>

record consumer_info =
  ci_IPAddresses :: "string list"
  ci_Hostname :: string
  ci_PID :: int
  ci_CreatedAt :: int

definition consumer_info_json :: "consumer_info \<Rightarrow> json" where
  "consumer_info_json i = JObj
     [(''ipAddress'', JArr (map JStr (ci_IPAddresses i))), (''hostname'', JStr (ci_Hostname i)), (''pid'', JNum (ci_PID i)),
      (''createdAt'', JNum (ci_CreatedAt i))]"

definition localIPs :: "string list" where
  "localIPs = [''127.0.0.1'']"

definition subscribe_keys :: "string \<Rightarrow> queue_params \<Rightarrow> string \<Rightarrow> string list" where
  "subscribe_keys consumerID q groupID =
     [Queue_Properties (qkey q), Queue_Consumers (qkey q), System_ConsumerQueues consumerID, Queue_ProcessingQueues (qkey q),
      Queue_ConsumerProcessing (qkey q) consumerID] @
     (if groupID \<noteq> [] then [Queue_ConsumerGroupMembers (qkey q) groupID] else [])"

definition Subscribe_Consumer :: "'s redis_server \<Rightarrow> string \<Rightarrow> int \<Rightarrow> int \<Rightarrow> string \<Rightarrow> queue_params \<Rightarrow> string \<Rightarrow> ('s, go_error, unit) io" where
  "Subscribe_Consumer rd hostname pid now consumerID q groupID =
     (let info = \<lparr>ci_IPAddresses = localIPs, ci_Hostname = hostname, ci_PID = pid, ci_CreatedAt = now\<rparr>;
          argv = [consumerID, json_text (consumer_info_json info), json_text (Params_MarshalJSON q), ''11'', itoa StateActive];
          name = qp_ns q @ ''/'' @ qp_name q in
      and_then (map_err (Wrapf ''subscribe consumer'') (Eval rd SubscribeConsumer (subscribe_keys consumerID q groupID) argv)) (\<lambda>reply.
      and_then (lift_sum (String_of reply)) (\<lambda>replyStr.
      if replyStr = ''OK'' then ret ()
      else if replyStr = ''QUEUE_NOT_FOUND'' then throw (Errorf (''queue not found: '' @ name))
      else if replyStr = ''QUEUE_NOT_ACTIVE'' then throw (Errorf (''queue not active: '' @ name))
      else throw (Errorf (''unexpected script reply: '' @ replyStr)))))"

definition Unsubscribe_Consumer :: "'s redis_server \<Rightarrow> string \<Rightarrow> queue_params \<Rightarrow> string \<Rightarrow> ('s, go_error, unit) io" where
  "Unsubscribe_Consumer rd consumerID q groupID =
     (let argv = [consumerID, json_text (Params_MarshalJSON q)]; name = qp_ns q @ ''/'' @ qp_name q in
      and_then (map_err (Wrapf ''unsubscribe consumer'') (Eval rd UnsubscribeConsumer (subscribe_keys consumerID q groupID) argv)) (\<lambda>reply.
      and_then (lift_sum (String_of reply)) (\<lambda>replyStr.
      if replyStr = ''OK'' then ret ()
      else if replyStr = ''QUEUE_NOT_FOUND'' then throw (Errorf (''queue not found: '' @ name))
      else if replyStr = ''PROCESSING_QUEUE_NOT_EMPTY''
      then throw (Errorf (''processing queue not empty for consumer '' @ consumerID @ '' on queue '' @ name))
      else throw (Errorf (''unexpected script reply: '' @ replyStr)))))"

subsection \<open>Heartbeats\<close>

record heartbeat =
  hb_id :: string
  hb_ttl :: int
  hb_interval :: int

definition NewHeartbeat :: "string \<Rightarrow> int \<Rightarrow> heartbeat" where
  "NewHeartbeat i ttl =
     (let ttl = (if ttl < 3 * time_Second then 3 * time_Second else ttl) in
      \<lparr>hb_id = i, hb_ttl = ttl, hb_interval = ttl div 3\<rparr>)"

definition heartbeat_payload :: "int \<Rightarrow> string \<Rightarrow> json" where
  "heartbeat_payload now i = JObj
     [(''timestamp'', JNum now), (''componentId'', JStr i), (''componentType'', JStr ''consumer'')]"

text \<open>\<open>Set\<close> with an expiry in nanoseconds becomes \<open>SET ... PX\<close> in milliseconds.\<close>

definition Heartbeat_beat :: "'s redis_server \<Rightarrow> int \<Rightarrow> heartbeat \<Rightarrow> ('s, go_error, unit) io" where
  "Heartbeat_beat rd now h =
     and_then (try_io (exec rd (SETPX (System_ConsumerHeartbeat (hb_id h)) (json_text (heartbeat_payload now (hb_id h)))
       (Milliseconds (hb_ttl h))))) (\<lambda>(_ :: redis_error + reply). ret ())"

definition Heartbeat_Stop :: "'s redis_server \<Rightarrow> heartbeat \<Rightarrow> ('s, go_error, unit) io" where
  "Heartbeat_Stop rd h =
     and_then (try_io (exec rd (DEL [System_ConsumerHeartbeat (hb_id h)]))) (\<lambda>(_ :: redis_error + reply). ret ())"

definition IsAlive :: "'s redis_server \<Rightarrow> string \<Rightarrow> ('s, go_error, bool) io" where
  "IsAlive rd consumerID =
     and_then (try_io (exists_keys rd [System_ConsumerHeartbeat consumerID])) (\<lambda>r.
     case r of Inl (err :: redis_error) \<Rightarrow> ret False | Inr n \<Rightarrow> ret (0 < n))"

text \<open>The map that \<open>AreAlive\<close> returns, as an association list.\<close>

definition AreAlive :: "'s redis_server \<Rightarrow> string list \<Rightarrow> ('s, go_error, (string \<times> bool) list) io" where
  "AreAlive rd consumerIDs =
     (if consumerIDs = [] then ret []
      else
      and_then (map_err (\<lambda>e. Wrapf ''check consumers'' (RedisErr e)) (exec rd (MGET (map System_ConsumerHeartbeat consumerIDs)))) (\<lambda>r.
      case r of
        RArr vals \<Rightarrow> ret (zip consumerIDs (map (\<lambda>v. v \<noteq> RNil) vals))
      | _ \<Rightarrow> throw (Wrapf ''check consumers'' (RedisErr bad_reply))))"

subsection \<open>Dead consumers\<close>

definition recoverConsumer :: "'s redis_server \<Rightarrow> settle_ctx \<Rightarrow> queue_params \<Rightarrow> string \<Rightarrow> ('s, go_error, unit) io" where
  "recoverConsumer rd sx q consumerID =
     and_then (try_io (UnacknowledgeProcessingQueue rd (sx_audit sx) (sx_decode sx) (sx_clock sx) (sx_unack_now sx) q consumerID
       CauseOfflineConsumer)) (\<lambda>(_ :: go_error + unit).
     let deadGroupID = ephemeralGroupID consumerID in
     and_then (try_io (sismember rd (Queue_ConsumerGroups (qkey q)) deadGroupID)) (\<lambda>(r :: redis_error + bool).
     if r = Inr True then
       and_then (try_io (DeleteEphemeralConsumerGroup rd consumerID q deadGroupID)) (\<lambda>(_ :: go_error + unit).
       and_then (try_io (Unsubscribe_Consumer rd consumerID q deadGroupID)) (\<lambda>(_ :: go_error + unit). ret ()))
     else and_then (try_io (Unsubscribe_Consumer rd consumerID q [])) (\<lambda>(_ :: go_error + unit). ret ())))"

definition reap :: "'s redis_server \<Rightarrow> settle_ctx \<Rightarrow> queue_params \<Rightarrow> string \<Rightarrow> ('s, go_error, unit) io" where
  "reap rd sx q consumerID =
     and_then (try_io (hkeys rd (Queue_Consumers (qkey q)))) (\<lambda>(r :: redis_error + string list).
     case r of
       Inl err \<Rightarrow> ret ()
     | Inr consumerIDs \<Rightarrow>
         (let others = filter (\<lambda>c. c \<noteq> consumerID) consumerIDs in
          if others = [] then ret ()
          else
          and_then (try_io (AreAlive rd others)) (\<lambda>(a :: go_error + (string \<times> bool) list).
          case a of
            Inl err \<Rightarrow> ret ()
          | Inr aliveMap \<Rightarrow>
              and_then (for_io (recoverConsumer rd sx q) (filter (\<lambda>c. map_of aliveMap c \<noteq> Some True) others)) (\<lambda>_. ret ()))))"

subsection \<open>The messages of a dead consumer\<close>

lemma with_field_id:
  "(\<And>v st. ms_id (f v st) = ms_id st) \<Longrightarrow> ms_id (with_field h p f st) = ms_id st"
  "(\<And>v st. ms_id (f' v st) = ms_id st) \<Longrightarrow> ms_id (parseOptionalTS h p f' st) = ms_id st"
  by (simp_all add: with_field_def parseOptionalTS_def split: option.split prod.split)

lemma DecodeState_id:
  assumes "DecodeState uuid h = Inr st" and m: "fmlookup h MF_ID = Some m"
  shows "ms_id st = m"
proof -
  have "ms_id (with_field h MF_ID SetID st0) = m" for st0
    using m by (simp add: with_field_def SetID_def)
  then show ?thesis
    using assms(1) by (auto simp: DecodeState_def with_field_id state_setter_defs ts_setter_defs split: if_splits)
qed

lemma decode_id:
  assumes "decode_at dc m h = Inr env" and "fmlookup h MF_ID = Some m"
  shows "Envelope_ID env = m"
proof -
  let ?h = "fmfilter (\<lambda>k. k \<noteq> MF_Message \<and> k \<noteq> MF_Status) h"
  have m: "fmlookup ?h MF_ID = Some m" using assms(2) by (simp add: schema_defs)
  obtain ps st0 where st: "Codec_DecodeParams (hash_get h MF_Message) = Inr ps"
    "DecodeState (fst (dc_uuid dc m)) ?h = Inr st0" "h \<noteq> fmempty"
    using assms(1) by (auto simp: decode_at_def DecodeEnvelope_def Let_def split: if_splits sum.splits)
  have "ms_id st0 = m" by (rule DecodeState_id [OF st(2) m])
  then show ?thesis
    using assms(1) st
    by (auto simp: decode_at_def DecodeEnvelope_def Let_def Envelope_ID_def SetDestinationQueue_def
        SetStatus_def SetMessageState_def SetConsumerGroupID_def SetEffectiveScheduledDelay_def split: option.splits)
qed

context redis
begin

lemma loadMessages_run:
  assumes "loadMessages rd dc ids s = (r, s')"
  shows "db s' = db s \<and> (\<exists>ms envs. r = Inr envs \<and> set ms \<subseteq> set ids \<and> (distinct ids \<longrightarrow> distinct ms) \<and>
    list_all2 (\<lambda>m env. \<exists>h. get_hash (db s) (System_Message m) = Inr h \<and> decode_at dc m h = Inr env) ms envs)"
  using assms
proof (induction ids arbitrary: s r s')
  case (Cons i ids)
  obtain r1 s1 where ld: "LoadHash rd (System_Message i) ''message'' s = (r1, s1)" by fastforce
  have s1: "db s1 = db s" using keepsD [OF Load_keeps(1) ld] .
  show ?case
  proof (cases "\<exists>h env. r1 = Inr h \<and> decode_at dc i h = Inr env")
    case True
    then obtain h env where h: "r1 = Inr h" "decode_at dc i h = Inr env" by blast
    obtain r2 s2 where rest: "loadMessages rd dc ids s1 = (r2, s2)" by fastforce
    from Cons.IH [OF rest] obtain ms envs where envs: "r2 = Inr envs" "db s2 = db s1" "set ms \<subseteq> set ids" "distinct ids \<longrightarrow> distinct ms"
      "list_all2 (\<lambda>m env. \<exists>h. get_hash (db s) (System_Message m) = Inr h \<and> decode_at dc m h = Inr env) ms envs"
      unfolding s1 by blast
    have "r = Inr (env # envs)" "s' = s2"
      using Cons.prems ld h rest envs(1) by (simp_all add: and_then_def try_io_def)
    moreover have "get_hash (db s) (System_Message i) = Inr h" using LoadHash_ok ld h(1) by blast
    ultimately show ?thesis using envs s1 h(2) by (intro conjI exI [of _ "i # ms"] exI [of _ "env # envs"]) auto
  next
    case False
    then have "loadMessages rd dc ids s1 = (r, s')"
      using Cons.prems ld by (cases r1) (auto simp: and_then_def try_io_def split: sum.splits)
    from Cons.IH [OF this] obtain ms envs where "db s' = db s" "r = Inr envs" "set ms \<subseteq> set ids" "distinct ids \<longrightarrow> distinct ms"
      "list_all2 (\<lambda>m env. \<exists>h. get_hash (db s) (System_Message m) = Inr h \<and> decode_at dc m h = Inr env) ms envs"
      unfolding s1 by blast
    then show ?thesis by (intro conjI exI [of _ ms] exI [of _ envs]) auto
  qed
qed simp

lemma loaded_messages:
  assumes ld: "loadMessages rd dc ids s = (r, s')" and view: "queue_view q (db s) A"
    and ready: "\<forall>m \<in> set ids. plain_id m \<and> fmlookup (mq_msg A m) MF_ID = Some m" and dist: "distinct ids"
  shows "db s' = db s \<and> (\<exists>envs. r = Inr envs \<and> set (map Envelope_ID envs) \<subseteq> set ids \<and> distinct (map Envelope_ID envs) \<and>
    (\<forall>e \<in> set envs. decode_at dc (Envelope_ID e) (mq_msg A (Envelope_ID e)) = Inr e))"
proof -
  from loadMessages_run [OF ld] dist obtain ms envs where envs: "db s' = db s" "r = Inr envs" "set ms \<subseteq> set ids" "distinct ms"
    "list_all2 (\<lambda>m env. \<exists>h. get_hash (db s) (System_Message m) = Inr h \<and> decode_at dc m h = Inr env) ms envs" by blast
  have len: "length envs = length ms" using list_all2_lengthD [OF envs(5)] by simp
  have nth: "Envelope_ID (envs ! i) = ms ! i \<and> decode_at dc (ms ! i) (mq_msg A (ms ! i)) = Inr (envs ! i)" if i: "i < length ms" for i
  proof -
    have "ms ! i \<in> set ids" using envs(3) i by (meson nth_mem subsetD)
    then have m: "plain_id (ms ! i)" "fmlookup (mq_msg A (ms ! i)) MF_ID = Some (ms ! i)" using ready by auto
    obtain h where "get_hash (db s) (System_Message (ms ! i)) = Inr h" "decode_at dc (ms ! i) h = Inr (envs ! i)"
      using list_all2_nthD [OF envs(5) i] by blast
    then show ?thesis using decode_id m(2) queue_view_gets(11) [OF view m(1)] by auto
  qed
  then have "map Envelope_ID envs = ms" using len by (intro nth_equalityI) simp_all
  moreover have "\<forall>e \<in> set envs. decode_at dc (Envelope_ID e) (mq_msg A (Envelope_ID e)) = Inr e"
    using nth len by (auto simp: in_set_conv_nth)
  ultimately show ?thesis using envs by blast
qed

end

lemma do_unack_proc: "mq_proc (do_unack cfg c u A) c = remove1 (ua_id u) (mq_proc A c)"
  by (simp add: do_unack_def remove1_idem)

lemma do_unack_status:
  "msg_status_of (do_unack cfg c u A) m =
     (if m = ua_id u \<and> m \<in> set (mq_proc A c)
      then Some (if requeues u then itoa StatusUnackRequeuing else itoa StatusDeadLettered) else msg_status_of A m)"
  by (auto simp: do_unack_def) (simp_all add: unack_status)

lemma unack_unlisted:
  "m \<notin> set (mq_proc A c) \<Longrightarrow> msg_status_of (fold (do_unack cfg c) us A) m = msg_status_of A m"
proof (induction us arbitrary: A)
  case (Cons u us)
  have "m \<notin> set (mq_proc (do_unack cfg c u A) c)"
    using Cons.prems set_remove1_subset [of "ua_id u" "mq_proc A c"] by (auto simp: do_unack_proc)
  from Cons.IH [OF this] show ?case using Cons.prems by (simp add: do_unack_status)
qed simp

lemma fold_unack_proc:
  "distinct (mq_proc A c) \<Longrightarrow> set (mq_proc (fold (do_unack cfg c) us A) c) = set (mq_proc A c) - ua_id ` set us"
proof (induction us arbitrary: A)
  case (Cons u us)
  have "distinct (mq_proc (do_unack cfg c u A) c)" using Cons.prems by (simp add: do_unack_proc)
  from Cons.IH [OF this] show ?case using Cons.prems by (auto simp: do_unack_proc)
qed simp

lemma fold_unack_other:
  "m \<notin> ua_id ` set us \<Longrightarrow> msg_status_of (fold (do_unack cfg c) us A) m = msg_status_of A m"
  by (induction us arbitrary: A) (simp_all add: do_unack_status)

lemma fold_unack_returned:
  assumes "distinct (mq_proc A c)" "m \<in> ua_id ` set us" "m \<in> set (mq_proc A c)"
  shows "msg_status_of (fold (do_unack cfg c) us A) m \<in> {Some (itoa StatusUnackRequeuing), Some (itoa StatusDeadLettered)}"
  using assms
proof (induction us arbitrary: A)
  case (Cons u us)
  let ?A = "do_unack cfg c u A"
  have d: "distinct (mq_proc ?A c)" using Cons.prems by (simp add: do_unack_proc)
  show ?case
  proof (cases "m = ua_id u")
    case True
    then have "m \<notin> set (mq_proc ?A c)" using Cons.prems by (simp add: do_unack_proc)
    from unack_unlisted [OF this] show ?thesis using True Cons.prems by (simp add: do_unack_status)
  next
    case False
    then show ?thesis using Cons.IH [OF d] Cons.prems by (simp add: do_unack_proc)
  qed
qed simp

lemma unack_all_allowed:
  assumes "audit_ok (ma_DeadLetteredMessages cfg)" "in_int64 (ah_MaxSize (ma_UnacknowledgementHistory cfg))"
    and "int (length (mq_pub A)) + 1 < 2 ^ 63" and "distinct (map Envelope_ID envs)" and "envs \<noteq> []"
    and ready: "\<forall>m \<in> set (map Envelope_ID envs). plain_id m \<and> msg_status_of A m = Some (itoa StatusProcessing) \<and>
      can_incr (mq_msg A m) ''unacknowledgedCount''"
  shows "allowed A (Unacknowledge cfg now c (map (\<lambda>msg. (\<lparr>ue_Message = msg, ue_Cause = cause\<rparr>, clock msg)) envs))"
proof -
  have "unack_ready A (map (unack_entry_args cfg now) (map (\<lambda>msg. (\<lparr>ue_Message = msg, ue_Cause = cause\<rparr>, clock msg)) envs))"
    using assms(4) ready unfolding unack_ready_def by (auto simp: entry_ids comp_def)
  then show ?thesis using assms by (auto simp: allowed_def op_size_def)
qed

lemma list_range_all [simp]: "list_range 0 (-1) xs = xs"
  by (simp add: list_range_def Let_def)

context smq_queues
begin

lemma UnacknowledgeBatch_reach:
  assumes run: "UnacknowledgeBatch (env_redis env) cfg now p c entries s = (r, s')"
    and reach: "reach (qkey p) (db s) A" and ok: "allowed A (Unacknowledge cfg now c entries)"
  shows "reach (qkey p) (db s') A \<or> reach (qkey p) (db s') (run_op (Unacknowledge cfg now c entries) A)"
proof -
  let ?args = "buildBatchLuaArgs cfg now (qkey p) c entries"
  obtain r1 s1 where ev: "Eval (env_redis env) UnacknowledgeMessage (fst ?args) (snd ?args) s = (r1, s1)" by fastforce
  have "entries \<noteq> []" using ok by (simp add: allowed_def)
  with run ev have "s' = s1" by (auto simp: UnacknowledgeBatch_def split_beta and_then_def split: sum.splits)
  have op: "invoke (qkey p) en (Unacknowledge cfg now c entries) =
      smq_scripts other UnacknowledgeMessage (redis_apply en) (fst ?args) (snd ?args)" for en
    by (simp add: invoke_def smq_scripts_def split_beta)
  from Eval_operate [OF reach ok op ev] \<open>s' = s1\<close> reach show ?thesis by auto
qed

lemma recovery_run:
  assumes run: "UnacknowledgeProcessingQueue (env_redis env) cfg dc clock now p c cause s = (r, s')"
    and reach: "reach (qkey p) (db s) A"
    and cfg: "audit_ok (ma_DeadLetteredMessages cfg)" "in_int64 (ah_MaxSize (ma_UnacknowledgementHistory cfg))"
    and room: "int (length (mq_pub A)) + 1 < 2 ^ 63"
    and ready: "\<forall>m \<in> set (mq_proc A c). plain_id m \<and> msg_status_of A m = Some (itoa StatusProcessing) \<and>
      fmlookup (mq_msg A m) MF_ID = Some m \<and> can_incr (mq_msg A m) ''unacknowledgedCount''"
  shows "reach (qkey p) (db s') A \<or>
    (\<exists>entries. entries \<noteq> [] \<and> fst ` set entries \<subseteq> {e. Envelope_ID (ue_Message e) \<in> set (mq_proc A c)} \<and>
      reach (qkey p) (db s') (run_op (Unacknowledge cfg now c entries) A))"
proof -
  let ?pk = "Queue_ConsumerProcessing (qkey p) c" and ?rd = "env_redis env"
  have view: "queue_view (qkey p) (db s) A" "lively A" using reach_view [OF reach] by simp_all
  have dist: "distinct (mq_proc A c)" using tidy_distinct(2) view(2) by (simp add: lively_def)
  obtain r1 s1 where lr: "lrange ?rd ?pk 0 (-1) s = (r1, s1)" by fastforce
  have s1: "db s1 = db s" using keepsD [OF call_keeps(5) lr] .
  show ?thesis
  proof (cases "\<exists>ids. r1 = Inr ids \<and> ids \<noteq> []")
    case False
    then have "s' = s1" using run lr by (cases r1) (auto simp: UnacknowledgeProcessingQueue_def and_then_def try_io_def)
    with s1 reach show ?thesis by simp
  next
    case True
    then obtain ids where ids: "r1 = Inr ids" "ids \<noteq> []" by blast
    have "ids = mq_proc A c" using lrange_ok [OF lr [unfolded ids(1)]] queue_view_gets(9) [OF view(1), of c] by auto
    obtain r2 s2 where ld: "loadMessages ?rd dc ids s1 = (r2, s2)" by fastforce
    have "\<forall>m \<in> set ids. plain_id m \<and> fmlookup (mq_msg A m) MF_ID = Some m" "distinct ids" using ready dist \<open>ids = _\<close> by auto
    from loaded_messages [OF ld view(1) [folded s1] this] obtain envs where envs: "db s2 = db s1" "r2 = Inr envs"
      "set (map Envelope_ID envs) \<subseteq> set (mq_proc A c)" "distinct (map Envelope_ID envs)"
      using \<open>ids = _\<close> by blast
    define entries where "entries = map (\<lambda>msg. (\<lparr>ue_Message = msg, ue_Cause = cause\<rparr>, clock msg)) envs"
    have ub: "UnacknowledgeBatch ?rd cfg now p c entries s2 = (r, s')"
      using run lr ids ld envs(2)
      by (simp add: UnacknowledgeProcessingQueue_def and_then_def try_io_def map_err_def entries_def)
    show ?thesis
    proof (cases "envs = []")
      case True
      with ub reach envs s1 show ?thesis by (simp add: UnacknowledgeBatch_def entries_def)
    next
      case False
      have ok: "allowed A (Unacknowledge cfg now c entries)"
        unfolding entries_def by (rule unack_all_allowed) (use cfg room envs(3,4) False ready in auto)
      have "reach (qkey p) (db s2) A" using reach s1 envs(1) by simp
      from UnacknowledgeBatch_reach [OF ub this ok]
      have "reach (qkey p) (db s') A \<or> reach (qkey p) (db s') (run_op (Unacknowledge cfg now c entries) A)" .
      moreover have "fst ` set entries \<subseteq> {e. Envelope_ID (ue_Message e) \<in> set (mq_proc A c)}"
        using envs(3) by (auto simp: entries_def)
      moreover have "entries \<noteq> []" using False by (simp add: entries_def)
      ultimately show ?thesis by blast
    qed
  qed
qed

end


subsection \<open>A recovery on a server that answers every call\<close>

lemma mem_loadMessages:
  assumes "\<forall>m \<in> set ids. \<exists>h. get_hash d (System_Message m) = Inr h \<and> h \<noteq> fmempty \<and> (\<exists>e. decode_at dc m h = Inr e \<and> Envelope_ID e = m)"
  shows "\<exists>envs. loadMessages (mem_redis lua) dc ids d = (Inr envs, d) \<and> map Envelope_ID envs = ids"
  using assms
proof (induction ids)
  case (Cons m ids)
  obtain h e where h: "get_hash d (System_Message m) = Inr h" "h \<noteq> fmempty" "decode_at dc m h = Inr e" "Envelope_ID e = m"
    using Cons.prems by auto
  obtain envs where "loadMessages (mem_redis lua) dc ids d = (Inr envs, d)" "map Envelope_ID envs = ids"
    using Cons.IH Cons.prems by auto
  with mem_reads(4) [OF h(1,2)] h(3,4) show ?case
    by (intro exI [of _ "e # envs"]) (simp add: and_then_def try_io_def)
qed simp


lemma decode_total:
  assumes "Codec_DecodeParams (hash_get h MF_Message) = Inr ps" and "fmlookup h MF_ID = Some m"
  shows "\<exists>e. decode_at dc m h = Inr e \<and> Envelope_ID e = m"
proof -
  have "fmlookup (fmfilter (\<lambda>k. k \<noteq> MF_Message \<and> k \<noteq> MF_Status) h) MF_ID = Some m" using assms(2) by (simp add: schema_defs)
  then have "h \<noteq> fmempty" "fmfilter (\<lambda>k. k \<noteq> MF_Message \<and> k \<noteq> MF_Status) h \<noteq> fmempty" using assms(2) by fastforce+
  with assms(1) obtain e where "decode_at dc m h = Inr e"
    by (simp add: decode_at_def DecodeEnvelope_def DecodeState_def Let_def)
  with decode_id [OF this assms(2)] show ?thesis by blast
qed

lemma third_field:
  assumes "f \<notin> {MF_Status, MF_ProcessingStartedAt, MF_LastProcessedAt, MF_Attempts}"
  shows "fmlookup (mq_msg third_view ''m1'') f = fmlookup (mq_msg second_view ''m1'') f"
proof -
  have pop: "mq_msg (run_op (Pop [] ''c1'') second_view) = mq_msg second_view"
    using pop_msg [of TypeFIFO "[]" "''c1''" second_view] by (simp add: pop_op_def enum_defs)
  show ?thesis using assms unfolding third_view_def
    by (simp add: run_op_def [of "Checkout _ _"] do_checkout_def pop checkout_fields_def field_hset_all)
qed

lemma third_message:
  "fmlookup (mq_msg third_view ''m1'') MF_ID = Some ''m1''"
  "Codec_DecodeParams (hash_get (mq_msg third_view ''m1'') MF_Message) = Inr (Envelope_ToParams pending_sample)"
  "can_incr (mq_msg third_view ''m1'') ''unacknowledgedCount''"
proof -
  show "fmlookup (mq_msg third_view ''m1'') MF_ID = Some ''m1''"
    by (subst third_field, simp add: schema_defs, rule second_field)
      (simp add: buildMessagePropertyKeys_def messagePropertyValues_def Let_def pending_sample_fields)
  have "fmlookup (mq_msg third_view ''m1'') MF_Message = Some (Codec_EncodeParams (Envelope_ToParams pending_sample))"
    by (subst third_field, simp add: schema_defs, rule second_field)
      (simp add: buildMessagePropertyKeys_def messagePropertyValues_def Let_def Codec_EncodeParams_def)
  moreover have "params_ok (Envelope_ToParams pending_sample)"
    using sample_envelope_ok by (simp add: envelope_ok_def pending_sample_def SetStatus_def Envelope_ToParams_def)
  ultimately show "Codec_DecodeParams (hash_get (mq_msg third_view ''m1'') MF_Message) = Inr (Envelope_ToParams pending_sample)"
    by (simp add: hash_get_def Codec_Decode_Encode)
  have "fmlookup (mq_msg third_view ''m1'') ''unacknowledgedCount'' = None"
  proof -
    have "''unacknowledgedCount'' \<notin> set buildMessagePropertyKeys"
      by (simp add: buildMessagePropertyKeys_def schema_defs field_key_text [symmetric])
    then have "fmlookup (mq_msg second_view ''m1'') ''unacknowledgedCount'' = fmlookup (mq_msg first_view ''m1'') ''unacknowledgedCount''"
      by (simp add: second_view_def run_first do_publish_def Let_def set_fields_def) (rule field_hset_all, auto dest: set_zip_leftD)
    also have "\<dots> = None" by (simp add: first_view_def new_queue_def empty_db_def get_hash_def)
    finally show ?thesis by (subst third_field) (simp_all add: schema_defs field_key_text [symmetric])
  qed
  then show "can_incr (mq_msg third_view ''m1'') ''unacknowledgedCount''"
    by (simp add: can_incr_def field_number_def num_field_def in_int64_def)
qed

lemma third_ready:
  "\<forall>m \<in> set (mq_proc third_view ''c1''). plain_id m \<and> msg_status_of third_view m = Some (itoa StatusProcessing) \<and>
     fmlookup (mq_msg third_view m) MF_ID = Some m \<and> can_incr (mq_msg third_view m) ''unacknowledgedCount''"
  using reach_third third_message by (simp add: plain_id_def)

lemma sample_audit_ok: "audit_ok (ma_DeadLetteredMessages sample_audit)" "in_int64 (ah_MaxSize (ma_UnacknowledgementHistory sample_audit))"
  by (simp_all add: sample_audit_def audit_ok_def in_int64_def)



subsection \<open>Deleting a group\<close>

lemma group_keys [simp]:
  "Queue_ConsumerGroupMembers q g \<noteq> Queue_Properties q" "Queue_ConsumerGroupMembers q g \<noteq> Queue_Published q"
  "Queue_ConsumerGroupMembers q g \<noteq> pending_key q g'" "Queue_ConsumerGroupMembers q g \<noteq> priority_key q g'"
  "Queue_ConsumerGroupMembers q g \<noteq> Queue_Scheduled q" "Queue_ConsumerGroupMembers q g \<noteq> Queue_Delayed q"
  "Queue_ConsumerGroupMembers q g \<noteq> Queue_Requeued q" "Queue_ConsumerGroupMembers q g \<noteq> Queue_Acknowledged q"
  "Queue_ConsumerGroupMembers q g \<noteq> Queue_DeadLetter q" "Queue_ConsumerGroupMembers q g \<noteq> Queue_ConsumerProcessing q c"
  "Queue_ConsumerGroupMembers q g \<noteq> Queue_ConsumerGroups q" "Queue_ConsumerGroupMembers q g \<noteq> System_Message m"
  "Queue_ConsumerGroupMembers q g \<noteq> System_MessageAcknowledgementHistory m"
  by (simp_all add: pending_key_def priority_key_def key_defs Key_eq_iff key_parts_append)

text \<open>The database after the script, for a group whose waiting messages are kept under \<open>g'\<close>.\<close>

lemma group_deleted_view:
  assumes "queue_view q d A"
  shows "queue_view q (del_keys [Queue_ConsumerGroupMembers q g] (del_keys [pending_key q g', priority_key q g']
      (put_set (Queue_ConsumerGroups q) (mq_grps A |-| {|g|}) d)))
    (A\<lparr>mq_grps := mq_grps A |-| {|g|}, mq_pend := (mq_pend A)(g' := []), mq_prio := (mq_prio A)(g' := fmempty)\<rparr>)"
proof -
  have zset: "get_zset (del_keys ks d) k = (if k \<in> set ks then Inr fmempty else get_zset d k)" for ks k d
    by (simp add: get_zset_def del_keys_def)
  have gone: "k \<in> set ks \<Longrightarrow> del_keys ks d k = None" for ks k and d :: db by (simp add: del_keys_def)
  show ?thesis
    using assms by (simp add: queue_view_def zset get_put_if del_keys_other gone group_keys [symmetric] del: group_keys)
qed

lemma group_conf_fields: "f \<in> {F_Type, F_DeliveryModel, F_OperationalState, F_LockID} \<Longrightarrow> f \<notin> set counter_fields"
  by (auto simp: counter_fields_def schema_defs)

definition group_verdict :: "mq \<Rightarrow> string fset \<Rightarrow> string \<Rightarrow> string" where
  "group_verdict A M g =
     (if mq_conf A F_Type = None then ''QUEUE_NOT_FOUND''
      else if mq_conf A F_OperationalState = Some (State_String StateLocked) then ''QUEUE_LOCKED''
      else if mq_conf A F_DeliveryModel \<noteq> Some (itoa DeliveryPubSub) then ''CONSUMER_GROUPS_NOT_SUPPORTED''
      else if M \<noteq> {||} then ''CONSUMER_GROUP_HAS_ACTIVE_CONSUMERS''
      else if (if mq_conf A F_Type = Some (itoa TypePriority) then mq_prio A g \<noteq> fmempty else mq_pend A g \<noteq> [])
      then ''CONSUMER_GROUP_NOT_EMPTY''
      else ''OK'')"

lemma delete_group_script:
  assumes view: "queue_view q d A" and M: "get_set d (Queue_ConsumerGroupMembers q g) = Inr M"
  shows "lua_delete_consumer_group (redis_apply en)
      [Queue_ConsumerGroups q, pending_key q g', priority_key q g', Queue_Properties q, Queue_ConsumerGroupMembers q g]
      (delete_group_args g) d =
    (Inr (RBulk (group_verdict A M g')), if group_verdict A M g' = ''OK''
       then del_keys [Queue_ConsumerGroupMembers q g] (del_keys [pending_key q g', priority_key q g']
         (put_set (Queue_ConsumerGroups q) (mq_grps A |-| {|g|}) d)) else d)"
proof -
  obtain h where h: "get_hash d (Queue_Properties q) = Inr h" "props_view h A" using queue_view_props [OF view] by blast
  have f: "fmlookup h f = mq_conf A f" if "f \<in> {F_Type, F_DeliveryModel, F_OperationalState, F_LockID}" for f
    by (rule props_view_lookup(2) [OF h(2) group_conf_fields [OF that]])
  have "delete_group_verdict h (fcard M) (if fmlookup h F_Type = Some (itoa TypePriority) then fcard (fmdom (mq_prio A g')) else length (mq_pend A g'))
      F_Type F_DeliveryModel (itoa DeliveryPubSub) F_OperationalState (State_String StateLocked) F_LockID [] = group_verdict A M g'"
    by (auto simp: delete_group_verdict_def group_verdict_def f fcard_pos fmdom_eq_fempty)
  then show ?thesis
    using lua_delete_consumer_group_run [OF h(1) queue_view_gets(10) [OF view] M queue_view_gets(2) [OF view] queue_view_gets(3) [OF view],
        of en g' g' F_Type "itoa TypePriority" F_DeliveryModel "itoa DeliveryPubSub" g F_OperationalState "State_String StateLocked" F_LockID "[]"]
    by (simp add: delete_group_args_def Let_def)
qed

context smq_queues
begin

text \<open>A script that is run on the lists kept under \<open>g'\<close> for a group \<open>g\<close> decides by the messages under \<open>g'\<close>.\<close>

lemma delete_group_eval:
  assumes view: "queue_view q (db s) A" and M: "get_set (db s) (Queue_ConsumerGroupMembers q g) = Inr M"
    and run: "Eval (env_redis env) DeleteConsumerGroup [Queue_ConsumerGroups q, pending_key q g', priority_key q g', Queue_Properties q,
      Queue_ConsumerGroupMembers q g] (delete_group_args g) s = (r, s')"
  shows "(r = Inr (RBulk (group_verdict A M g')) \<or> (\<exists>e. r = Inl e \<and> redis_fault e)) \<and>
    (group_verdict A M g' \<noteq> ''OK'' \<longrightarrow> db s' = db s) \<and>
    (group_verdict A M g' = ''OK'' \<longrightarrow> \<not> isl r \<longrightarrow> queue_view q (db s')
       (A\<lparr>mq_grps := mq_grps A |-| {|g|}, mq_pend := (mq_pend A)(g' := []), mq_prio := (mq_prio A)(g' := fmempty)\<rparr>))"
proof -
  note script = delete_group_script [OF view M, of _ g', unfolded smq_scripts_def]
  have lua: "smq_scripts other DeleteConsumerGroup = lua_delete_consumer_group" by (simp add: smq_scripts_def fun_eq_iff)
  from Eval_total [OF run, unfolded lua script] show ?thesis
    using group_deleted_view [OF view, of g g'] by (auto split: if_splits)
qed

lemma ConsumerGroup_Delete_run:
  assumes view: "queue_view (qkey p) (db s) A" and M: "get_set (db s) (Queue_ConsumerGroupMembers (qkey p) g) = Inr M"
    and run: "ConsumerGroup_Delete env p g s = (r, s')"
  shows "(r = Inr () \<longrightarrow> group_verdict A M [] = ''OK'' \<and> queue_view (qkey p) (db s')
       (A\<lparr>mq_grps := mq_grps A |-| {|g|}, mq_pend := (mq_pend A)([] := []), mq_prio := (mq_prio A)([] := fmempty)\<rparr>)) \<and>
    (r = Inl (QueueErr Q_ErrConsumerGroupNotEmpty) \<longrightarrow> group_verdict A M [] = ''CONSUMER_GROUP_NOT_EMPTY'')"
proof -
  let ?v = "group_verdict A M []"
  obtain r1 s1 where ev: "Eval (env_redis env) DeleteConsumerGroup [Queue_ConsumerGroups (qkey p), pending_key (qkey p) [],
      priority_key (qkey p) [], Queue_Properties (qkey p), Queue_ConsumerGroupMembers (qkey p) g] (delete_group_args g) s = (r1, s1)"
    by fastforce
  have keys: "pending_key (qkey p) [] = Queue_Pending (qkey p)" "priority_key (qkey p) [] = Queue_Priority (qkey p)"
    by (simp_all add: pending_key_def priority_key_def)
  note out = delete_group_eval [OF view M ev]
  show ?thesis
  proof (cases r1)
    case (Inl e)
    with run ev have "r = Inl (Wrapf ''delete consumer group'' e)"
      by (simp add: ConsumerGroup_Delete_def Let_def keys and_then_def map_err_def String_of_def)
    then show ?thesis by simp
  next
    case (Inr x)
    with out have x: "r1 = Inr (RBulk ?v)" by auto
    show ?thesis
    proof (cases "?v = ''OK''")
      case True
      with run ev x have "PublishConsumerGroupDeleted env p g s1 = (r, s')"
        by (simp add: ConsumerGroup_Delete_def Let_def keys and_then_def map_err_def String_of_def)
      from publish_event_result [OF this [unfolded PublishConsumerGroupDeleted_def]] out True Inr show ?thesis by simp
    next
      case False
      with run ev x show ?thesis
        by (auto simp: ConsumerGroup_Delete_def Let_def keys and_then_def map_err_def String_of_def split: if_splits)
    qed
  qed
qed

end

text \<open>C33: \<open>ConsumerGroups.Delete\<close> of the queue store does not see the messages that wait for the group: it hands
  the script the lists of the queue itself, which are empty when every message belongs to a group.
  A group without members is therefore never reported as not empty, and a successful deletion leaves
  its messages where no consumer takes them: they still wait under a group that is not registered.\<close>

theorem group_delete_orphans:
  assumes env: "smq_queues env db other" and view: "queue_view (qkey p) (db s) A"
    and members: "get_set (db s) (Queue_ConsumerGroupMembers (qkey p) g) = Inr {||}"
    and grouped: "mq_pend A [] = []" "mq_prio A [] = fmempty"
    and run: "ConsumerGroup_Delete env p g s = (r, s')"
  shows "r \<noteq> Inl (QueueErr Q_ErrConsumerGroupNotEmpty) \<and>
    (r = Inr () \<longrightarrow> queue_view (qkey p) (db s') (A\<lparr>mq_grps := mq_grps A |-| {|g|}\<rparr>))"
proof -
  have "mq_pend A = (mq_pend A)([] := [])" "mq_prio A = (mq_prio A)([] := fmempty)" using grouped by (auto simp: fun_eq_iff)
  moreover have "group_verdict A {||} [] \<noteq> ''CONSUMER_GROUP_NOT_EMPTY''" using grouped by (simp add: group_verdict_def)
  ultimately show ?thesis using smq_queues.ConsumerGroup_Delete_run [OF env view members run] by auto
qed

text \<open>A queue with the ephemeral group of a consumer, one message that waits for it, and members \<open>M\<close>.\<close>

definition group_view :: mq where
  "group_view = (new_queue 7 TypeFIFO DeliveryPubSub None empty_db)\<lparr>mq_grps := {|ephemeralGroupID ''c1''|},
     mq_pend := (\<lambda>_. [])(ephemeralGroupID ''c1'' := [''m1''])\<rparr>"

definition group_sample :: "string fset \<Rightarrow> db" where
  "group_sample M = put_set (Queue_ConsumerGroupMembers (qkey sample_queue) (ephemeralGroupID ''c1'')) M
     (put_list (pending_key (qkey sample_queue) (ephemeralGroupID ''c1'')) [''m1'']
        (put_set (Queue_ConsumerGroups (qkey sample_queue)) {|ephemeralGroupID ''c1''|}
           (created_db 7 sample_queue TypeFIFO DeliveryPubSub None empty_db)))"

lemma group_sample_view: "queue_view (qkey sample_queue) (group_sample M) group_view"
proof -
  have "queue_view (qkey sample_queue) (created_db 7 sample_queue TypeFIFO DeliveryPubSub None empty_db)
      (new_queue 7 TypeFIFO DeliveryPubSub None empty_db)"
    by (rule created_view [OF empty_db_typed empty_vacant])
  then show ?thesis
    by (simp add: queue_view_def group_sample_def group_view_def get_put_if group_keys [symmetric] del: group_keys) (simp add: new_queue_def props_view_def)
qed

lemma group_sample_members:
  "get_set (group_sample M) (Queue_ConsumerGroupMembers (qkey sample_queue) (ephemeralGroupID ''c1'')) = Inr M"
  by (simp add: group_sample_def)

lemma group_sample_verdict: "group_verdict group_view {||} [] = ''OK''"
proof -
  have "mq_conf group_view F_Type = Some (itoa TypeFIFO)" "mq_conf group_view F_DeliveryModel = Some (itoa DeliveryPubSub)"
    "mq_conf group_view F_OperationalState = Some (itoa StateActive)"
    unfolding group_view_def new_queue_def created_hash_def by (simp_all, (rule hset_all_in; auto simp: schema_defs)+)
  then show ?thesis by (simp add: group_verdict_def group_view_def new_queue_def enum_defs itoa_zero State_String_def ephemeralGroupID_def)
qed

theorem group_delete_orphans_witness:
  "\<exists>d'. ConsumerGroup_Delete (mem_env (smq_scripts no_scripts)) sample_queue (ephemeralGroupID ''c1'') (group_sample {||}) = (Inr (), d') \<and>
     get_list d' (pending_key (qkey sample_queue) (ephemeralGroupID ''c1'')) = Inr [''m1''] \<and>
     get_set d' (Queue_ConsumerGroups (qkey sample_queue)) = Inr {||}"
proof -
  let ?q = "qkey sample_queue" and ?g = "ephemeralGroupID ''c1''" and ?env = "mem_env (smq_scripts no_scripts)"
  obtain d1 where "lua_delete_consumer_group (redis_apply mem_enum)
      [Queue_ConsumerGroups ?q, pending_key ?q [], priority_key ?q [], Queue_Properties ?q, Queue_ConsumerGroupMembers ?q ?g]
      (delete_group_args ?g) (group_sample {||}) = (Inr (RBulk ''OK''), d1)"
    using delete_group_script [OF group_sample_view group_sample_members, of mem_enum "[]" "{||}"]
    by (simp add: group_sample_verdict)
  then have "Eval (env_redis ?env) DeleteConsumerGroup
      [Queue_ConsumerGroups ?q, Queue_Pending ?q, Queue_Priority ?q, Queue_Properties ?q, Queue_ConsumerGroupMembers ?q ?g]
      (delete_group_args ?g) (group_sample {||}) = (Inr (RBulk ''OK''), d1)"
    unfolding mem_env_redis by (intro mem_Eval) (simp add: smq_scripts_def pending_key_def priority_key_def)
  then obtain d' where run: "ConsumerGroup_Delete ?env sample_queue ?g (group_sample {||}) = (Inr (), d')"
    using mem_smq.publish_event_run [of "smq_scripts no_scripts"]
    by (simp add: ConsumerGroup_Delete_def Let_def and_then_def map_err_def String_of_def PublishConsumerGroupDeleted_def)
  have "queue_view ?q d' (group_view\<lparr>mq_grps := mq_grps group_view |-| {|?g|}\<rparr>)"
    using group_delete_orphans [OF mem_smq_queues, OF group_sample_view group_sample_members _ _ run]
    by (simp add: group_view_def ephemeralGroupID_def new_queue_def)
  then show ?thesis using run queue_view_gets(2,10) by (fastforce simp: group_view_def)
qed

subsection \<open>The group of a dead consumer\<close>

lemma lua_do_keeps: "\<forall>c \<in> set cs. k \<notin> cmd_keys c \<Longrightarrow> keeps (\<lambda>d. d k) (lua_do (redis_apply en) cs)"
  by (induction cs) (simp_all add: lua_do.simps, intro keeps_intros apply_keeps_key, simp_all)

lemma unsubscribe_frame:
  assumes "k \<notin> set (subscribe_keys c p g)"
  shows "snd (lua_unsubscribe_consumer (redis_apply en) (subscribe_keys c p g) as d) k = d k"
proof -
  have "keeps (\<lambda>d. d k) (lua_unsubscribe_consumer (redis_apply en) (subscribe_keys c p g) as)"
    unfolding lua_unsubscribe_consumer_def Let_def lua_int_def lua_return_def
    by (intro keeps_intros apply_keeps_key lua_do_keeps) (use assms in \<open>auto simp: subscribe_keys_def nth1_def split: if_splits\<close>)
  then show ?thesis unfolding keeps_def by (metis prod.collapse)
qed

lemma subscribe_keys_apart:
  "Queue_ConsumerGroups (qkey p) \<notin> set (subscribe_keys c p g)" "pending_key (qkey p) g' \<notin> set (subscribe_keys c p g)"
  by (auto simp: subscribe_keys_def pending_key_def key_defs Key_eq_iff key_parts_append)

context smq_queues
begin

lemma Unsubscribe_frame:
  assumes "Unsubscribe_Consumer (env_redis env) c p g s = (r, s')" and "k \<notin> set (subscribe_keys c p g)"
  shows "db s' k = db s k"
proof -
  obtain r1 s1 where ev: "Eval (env_redis env) UnsubscribeConsumer (subscribe_keys c p g) [c, json_text (Params_MarshalJSON p)] s = (r1, s1)"
    by fastforce
  have "s' = s1" using assms(1) ev
    by (auto simp: Unsubscribe_Consumer_def Let_def and_then_def map_err_def split: sum.splits if_splits)
  moreover have "db s1 k = db s k"
    by (rule Eval_frame [OF ev]) (use unsubscribe_frame [OF assms(2)] in \<open>simp add: smq_scripts_def\<close>)
  ultimately show ?thesis by simp
qed

lemma DeleteEphemeral_refused:
  assumes view: "queue_view (qkey p) (db s) A" and M: "get_set (db s) (Queue_ConsumerGroupMembers (qkey p) (ephemeralGroupID c)) = Inr M" "M \<noteq> {||}"
    and run: "DeleteEphemeralConsumerGroup (env_redis env) c p (ephemeralGroupID c) s = (r, s')"
  shows "db s' = db s"
proof -
  let ?q = "qkey p" and ?g = "ephemeralGroupID c"
  obtain r1 s1 where ev: "Eval (env_redis env) DeleteConsumerGroup [Queue_ConsumerGroups ?q, pending_key ?q ?g, priority_key ?q ?g,
      Queue_Properties ?q, Queue_ConsumerGroupMembers ?q ?g] (delete_group_args ?g) s = (r1, s1)" by fastforce
  have "?g \<noteq> []" by (simp add: ephemeralGroupID_def)
  then have "s' = s1" using run ev
    by (auto simp: DeleteEphemeralConsumerGroup_def Let_def pending_key_def priority_key_def and_then_def map_err_def split: sum.splits if_splits)
  moreover have "group_verdict A M ?g \<noteq> ''OK''" using M(2) by (simp add: group_verdict_def)
  ultimately show ?thesis using delete_group_eval [OF view M(1) ev] by simp
qed

lemma recovery_nothing:
  assumes view: "queue_view (qkey p) (db s) A" and none: "mq_proc A c = []"
    and run: "UnacknowledgeProcessingQueue (env_redis env) cfg dc clock now p c cause s = (r, s')"
  shows "db s' = db s"
proof -
  obtain r1 s1 where lr: "lrange (env_redis env) (Queue_ConsumerProcessing (qkey p) c) 0 (-1) s = (r1, s1)" by fastforce
  have "s' = s1"
  proof (cases r1)
    case (Inr ids)
    then have "ids = []" using lrange_ok [OF lr [unfolded Inr]] queue_view_gets(9) [OF view, of c] none by auto
    with run lr Inr show ?thesis by (simp add: UnacknowledgeProcessingQueue_def and_then_def try_io_def)
  qed (use run lr in \<open>simp add: UnacknowledgeProcessingQueue_def and_then_def try_io_def\<close>)
  with keepsD [OF call_keeps(5) lr] show ?thesis by simp
qed

lemma recoverConsumer_keeps_group:
  assumes view: "queue_view (qkey p) (db s) A" and none: "mq_proc A c = []"
    and M: "get_set (db s) (Queue_ConsumerGroupMembers (qkey p) (ephemeralGroupID c)) = Inr M" "M \<noteq> {||}"
    and run: "recoverConsumer (env_redis env) sx p c s = (r, s')"
    and k: "\<And>g. k \<notin> set (subscribe_keys c p g)"
  shows "db s' k = db s k"
proof -
  let ?rd = "env_redis env" and ?g = "ephemeralGroupID c"
  obtain r1 s1 where 1: "UnacknowledgeProcessingQueue ?rd (sx_audit sx) (sx_decode sx) (sx_clock sx) (sx_unack_now sx) p c
      CauseOfflineConsumer s = (r1, s1)" by fastforce
  have s1: "db s1 = db s" by (rule recovery_nothing [OF view none 1])
  obtain r2 s2 where 2: "sismember ?rd (Queue_ConsumerGroups (qkey p)) ?g s1 = (r2, s2)" by fastforce
  have s2: "db s2 = db s" using keepsD [OF call_keeps(6) 2] s1 by simp
  show ?thesis
  proof (cases "r2 = Inr True")
    case True
    obtain r3 s3 where 3: "DeleteEphemeralConsumerGroup ?rd c p ?g s2 = (r3, s3)" by fastforce
    have s3: "db s3 = db s" using DeleteEphemeral_refused [OF _ _ M(2) 3] view M(1) s2 by simp
    obtain r4 s4 where 4: "Unsubscribe_Consumer ?rd c p ?g s3 = (r4, s4)" by fastforce
    have "s' = s4" using run 1 2 3 4 True by (simp add: recoverConsumer_def Let_def and_then_def try_io_def)
    with Unsubscribe_frame [OF 4 k] s3 show ?thesis by simp
  next
    case False
    obtain r4 s4 where 4: "Unsubscribe_Consumer ?rd c p [] s2 = (r4, s4)" by fastforce
    have "s' = s4" using run 1 2 4 False by (simp add: recoverConsumer_def Let_def and_then_def try_io_def)
    with Unsubscribe_frame [OF 4 k] s2 show ?thesis by simp
  qed
qed

end

text \<open>The reaper does not remove the group of a dead pub/sub consumer. A subscription made the consumer a member
  of its ephemeral group, and \<open>recoverConsumer\<close> deletes the group before it cancels the
  subscription: the script refuses because the group has members, the refusal is ignored, and the group
  stays registered, with the messages that wait for it, whatever the server answers.\<close>

theorem reaped_group_leaks:
  assumes env: "smq_queues env db other" and view: "queue_view (qkey p) (db s) A" and none: "mq_proc A c = []"
    and M: "get_set (db s) (Queue_ConsumerGroupMembers (qkey p) (ephemeralGroupID c)) = Inr M" "c |\<in>| M"
    and run: "recoverConsumer (env_redis env) sx p c s = (r, s')"
  shows "get_set (db s') (Queue_ConsumerGroups (qkey p)) = Inr (mq_grps A) \<and>
    get_list (db s') (pending_key (qkey p) (ephemeralGroupID c)) = Inr (mq_pend A (ephemeralGroupID c))"
proof -
  have "M \<noteq> {||}" using M(2) by auto
  then have "db s' k = db s k" if "\<And>g. k \<notin> set (subscribe_keys c p g)" for k
    using smq_queues.recoverConsumer_keeps_group [OF env view none M(1) _ run] that by blast
  then have "db s' (Queue_ConsumerGroups (qkey p)) = db s (Queue_ConsumerGroups (qkey p))"
    "db s' (pending_key (qkey p) (ephemeralGroupID c)) = db s (pending_key (qkey p) (ephemeralGroupID c))"
    using subscribe_keys_apart by blast+
  with get_cong(2,4) [of "db s'" _ "db s"] queue_view_gets(2,10) [OF view] show ?thesis by metis
qed

definition sample_settle :: settle_ctx where
  "sample_settle = \<lparr>sx_audit = sample_audit, sx_now = 9, sx_decode = cc_decode sample_ctx, sx_unack_now = 9, sx_clock = (\<lambda>_. (9, 9))\<rparr>"

theorem reaped_group_leaks_witness:
  "\<exists>r d'. recoverConsumer (mem_redis (smq_scripts no_scripts)) sample_settle sample_queue ''c1'' (group_sample {|''c1''|}) = (r, d') \<and>
     get_set d' (Queue_ConsumerGroups (qkey sample_queue)) = Inr {|ephemeralGroupID ''c1''|} \<and>
     get_list d' (pending_key (qkey sample_queue) (ephemeralGroupID ''c1'')) = Inr [''m1'']"
proof -
  obtain r d' where run: "recoverConsumer (env_redis (mem_env (smq_scripts no_scripts))) sample_settle sample_queue ''c1''
    (group_sample {|''c1''|}) = (r, d')" by fastforce
  have "mq_proc group_view ''c1'' = []" by (simp add: group_view_def new_queue_def)
  from reaped_group_leaks [OF mem_smq_queues, OF group_sample_view this group_sample_members _ run] run show ?thesis
    by (simp add: group_view_def)
qed

end
