(* ===== verification/Purging.thy ===== *)
theory Purging
  imports Purge_Jobs Queue_State Consumer_Groups
begin

text \<open>
  Purging a queue: \<open>purge_manager.go\<close>, \<open>purge_helpers.go\<close> and \<open>purge_worker.go\<close> of \<open>internal/queue\<close>, and
  \<open>internal/consumer/orphaned_lock_recoverer.go\<close>. A purge locks the queue, creates a job, and deletes the
  messages of a category batch by batch; then the job is finished and the queue unlocked. The
  context of a purge is done after a given number of rounds of its loop; the texts of errors, the
  clock and the id of a job are arguments.
\<close>

subsection \<open>Categories of messages\<close>

type_synonym browse_filter = int

definition BrowseDeadLettered :: browse_filter where [enum_defs]: "BrowseDeadLettered = 0"
definition BrowseAcknowledged :: browse_filter where [enum_defs]: "BrowseAcknowledged = 1"
definition BrowseScheduled :: browse_filter where [enum_defs]: "BrowseScheduled = 2"
definition BrowsePending :: browse_filter where [enum_defs]: "BrowsePending = 3"
definition BrowsePublished :: browse_filter where [enum_defs]: "BrowsePublished = 4"

definition browse_filters :: "browse_filter list" where
  "browse_filters = [BrowseDeadLettered, BrowseAcknowledged, BrowseScheduled, BrowsePending, BrowsePublished]"

definition resolveCategoryKey :: "browse_filter \<Rightarrow> queue_key \<Rightarrow> string" where
  "resolveCategoryKey flt qKey =
     (if flt = BrowsePending then Queue_Pending qKey
      else if flt = BrowseScheduled then Queue_Scheduled qKey
      else if flt = BrowseAcknowledged then Queue_Acknowledged qKey
      else if flt = BrowseDeadLettered then Queue_DeadLetter qKey
      else [])"

definition validateFilter :: "message_audit \<Rightarrow> browse_filter \<Rightarrow> go_error option" where
  "validateFilter cfg flt =
     (if flt = BrowseAcknowledged \<and> \<not> am_Enabled (ma_AcknowledgedMessages cfg) \<or>
         flt = BrowseDeadLettered \<and> \<not> am_Enabled (ma_DeadLetteredMessages cfg)
      then Some (Wrapf ''purge'' (QueueErr Q_ErrAuditDisabled)) else None)"

subsection \<open>Batches\<close>

definition key_type :: "'s redis_server \<Rightarrow> string \<Rightarrow> ('s, redis_error, string) io" where
  "key_type rd k = and_then (exec rd (TYPE_OF k)) (expect_reply bulk)"

definition zrange :: "'s redis_server \<Rightarrow> string \<Rightarrow> int \<Rightarrow> int \<Rightarrow> ('s, redis_error, string list) io" where
  "zrange rd k a b = and_then (exec rd (ZRANGE k a b)) (expect_reply strings_of)"

definition fetchBatch :: "'s redis_server \<Rightarrow> string \<Rightarrow> int \<Rightarrow> ('s, go_error, string list) io" where
  "fetchBatch rd key n =
     and_then (map_err RedisErr (key_type rd key)) (\<lambda>t.
     if t = ''list'' then map_err RedisErr (lrange rd key 0 (n - 1))
     else if t = ''zset'' then map_err RedisErr (zrange rd key 0 (n - 1))
     else if t = ''none'' then ret []
     else throw (Errorf (''purge: unexpected key type: '' @ t)))"

definition trimCategory :: "'s redis_server \<Rightarrow> string \<Rightarrow> int \<Rightarrow> ('s, go_error, unit) io" where
  "trimCategory rd key n =
     map_err RedisErr
       (and_then (key_type rd key) (\<lambda>t.
        if t = ''list'' then and_then (exec rd (LTRIM key n (-1))) (\<lambda>_. ret ())
        else if t = ''zset'' then
          and_then (zrange rd key 0 (n - 1)) (\<lambda>ids.
          if ids = [] then ret () else and_then (exec rd (ZREM key ids)) (\<lambda>_. ret ()))
        else ret ()))"

subsection \<open>The loop of a purge\<close>

record purge_ctx =
  pc_decode :: decode_ctx
  pc_order :: "(string \<times> string) list \<Rightarrow> (string \<times> string) list"
  pc_text :: "go_error \<Rightarrow> string"
  pc_start :: int
  pc_round :: "nat \<Rightarrow> int"
  pc_end :: int

text \<open>A job without a queue, which \<open>Enqueue\<close> never creates, makes the worker panic.\<close>

definition nil_dereference :: go_error where
  "nil_dereference = Errorf ''runtime error: invalid memory address or nil pointer dereference''"

datatype round_end = GoOn | Done | Failed go_error

definition purge_round :: "'s redis_server \<Rightarrow> purge_ctx \<Rightarrow> string \<Rightarrow> int \<Rightarrow> purge_job \<Rightarrow> int
    \<Rightarrow> ('s, go_error, purge_job \<times> int \<times> round_end) io" where
  "purge_round rd pc categoryKey now job purged =
     and_then (try_io (Job_IsCanceled rd (pj_ID job))) (\<lambda>r.
     case r of
       Inl (err :: go_error) \<Rightarrow> ret (job, purged, Failed (Wrapf ''check canceled'' err))
     | Inr canceled \<Rightarrow>
     if canceled then ret (job, purged, Done)
     else
     and_then (try_io (fetchBatch rd categoryKey (pj_BatchSize job))) (\<lambda>r.
     case r of
       Inl (err :: go_error) \<Rightarrow> ret (job, purged, Failed (Wrapf ''fetch batch'' err))
     | Inr ids \<Rightarrow>
     if ids = [] then ret (job, purged, Done)
     else
     and_then (try_io (DeleteMessages rd (pc_decode pc) (pc_order pc) ids (pj_ID job))) (\<lambda>r.
     case r of
       Inl (err :: go_error) \<Rightarrow> ret (job, purged, Failed (Wrapf ''delete messages'' err))
     | Inr result \<Rightarrow>
     let purged' = purged + ds_Success (dr_Stats result) in
     and_then (try_io (trimCategory rd categoryKey (int (length ids)))) (\<lambda>r.
     case r of
       Inl (err :: go_error) \<Rightarrow> ret (job, purged', Failed (Wrapf ''trim category'' err))
     | Inr _ \<Rightarrow>
     and_then (Job_Save rd now (job\<lparr>pj_Meta := Some purged'\<rparr>)) (\<lambda>(job', _).
     ret (job', purged', GoOn))))))"

primrec purge_loop :: "'s redis_server \<Rightarrow> purge_ctx \<Rightarrow> string \<Rightarrow> nat \<Rightarrow> purge_job \<Rightarrow> int
    \<Rightarrow> ('s, go_error, purge_job \<times> int \<times> go_error option) io" where
  "purge_loop rd pc categoryKey 0 job purged = ret (job, purged, Some (Errorf ''context canceled''))"
| "purge_loop rd pc categoryKey (Suc n) job purged =
     and_then (purge_round rd pc categoryKey (pc_round pc n) job purged) (\<lambda>(job', purged', e).
     case e of
       GoOn \<Rightarrow> purge_loop rd pc categoryKey n job' purged'
     | Done \<Rightarrow> ret (job', purged', None)
     | Failed err \<Rightarrow> ret (job', purged', Some err))"

definition purgeMessages :: "'s redis_server \<Rightarrow> purge_ctx \<Rightarrow> nat \<Rightarrow> purge_job
    \<Rightarrow> ('s, go_error, purge_job \<times> int \<times> go_error option) io" where
  "purgeMessages rd pc rounds job =
     (case pj_Queue job of
        None \<Rightarrow> throw nil_dereference
      | Some p \<Rightarrow> purge_loop rd pc (resolveCategoryKey (pj_MessageType job) (qkey p)) rounds job 0)"

subsection \<open>The manager\<close>

definition newPurgeJob :: "int \<Rightarrow> string \<Rightarrow> queue_params \<Rightarrow> browse_filter \<Rightarrow> purge_job" where
  "newPurgeJob now jobID queueParams flt =
     \<lparr>pj_ID = jobID, pj_Queue = Some queueParams, pj_MessageType = flt, pj_Status = PurgeJobPending, pj_CreatedAt = now,
      pj_UpdatedAt = 0, pj_StartedAt = 0, pj_CompletedAt = 0, pj_BatchSize = 1000, pj_DelayMs = 5000, pj_Error = [],
      pj_Meta = Some 0\<rparr>"

definition describe :: "string \<Rightarrow> transition_options" where
  "describe text = \<lparr>o_Reason = None, o_Description = Some text, o_LockID = None, o_Owner = None, o_Metadata = None\<rparr>"

definition purge_unlockQueue :: "'s smq_env \<Rightarrow> int \<Rightarrow> queue_params option \<Rightarrow> string \<Rightarrow> job_status \<Rightarrow> string \<Rightarrow> ('s, go_error, unit) io" where
  "purge_unlockQueue env now queueParams jobID status description =
     (let reason = (if status = PurgeJobFailed then ''PURGE_QUEUE_FAIL''
                    else if status = PurgeJobCanceled then ''PURGE_QUEUE_CANCEL'' else ''PURGE_QUEUE_COMPLETE'') in
      case queueParams of
        None \<Rightarrow> throw nil_dereference
      | Some p \<Rightarrow> and_then (try_io (releaseLock env now p LockOwnerPurgeJob jobID reason (Some (describe description))))
          (\<lambda>(_ :: go_error + state_transition). ret ()))"

definition Purge_Enqueue :: "'s smq_env \<Rightarrow> message_audit \<Rightarrow> (go_error \<Rightarrow> string) \<Rightarrow> int \<Rightarrow> string \<Rightarrow> queue_params \<Rightarrow> browse_filter
    \<Rightarrow> ('s, go_error, string) io" where
  "Purge_Enqueue env cfg text now jobID queueParams flt =
     (case validateFilter cfg flt of
        Some err \<Rightarrow> throw err
      | None \<Rightarrow>
          and_then (map_err (Wrapf ''purge: lock queue'')
            (acquireLock env now queueParams LockOwnerPurgeJob jobID ''PURGE_QUEUE_START'' (Some (describe ''Queue is being purged'')))) (\<lambda>_.
          and_then (try_io (runJobScript (env_redis env) (JobCreate (newPurgeJob now jobID queueParams flt)))) (\<lambda>r.
          case r of
            Inr _ \<Rightarrow> ret jobID
          | Inl err \<Rightarrow>
              and_then (purge_unlockQueue env now (Some queueParams) jobID PurgeJobFailed (text err)) (\<lambda>_.
              throw (Wrapf ''purge: enqueue job'' err)))))"

definition Purge_Cancel :: "'s smq_env \<Rightarrow> int \<Rightarrow> queue_params \<Rightarrow> string \<Rightarrow> ('s, go_error, unit) io" where
  "Purge_Cancel env now queueParams jobID =
     and_then (map_err (Wrapf ''purge: get job'') (Job_Get (env_redis env) jobID)) (\<lambda>job.
     and_then (map_err (Wrapf ''purge: cancel job'')
       (runJobScript (env_redis env) (JobCancel jobID (job\<lparr>pj_Status := PurgeJobCanceled, pj_CompletedAt := now\<rparr>)))) (\<lambda>_.
     purge_unlockQueue env now (Some queueParams) jobID PurgeJobCanceled ''Purge job cancelled''))"

definition failJob :: "'s smq_env \<Rightarrow> int \<Rightarrow> purge_job \<Rightarrow> string \<Rightarrow> ('s, go_error, unit) io" where
  "failJob env now job errMsg =
     and_then (try_io (runJobScript (env_redis env)
       (JobFail (pj_ID job) (job\<lparr>pj_Status := PurgeJobFailed, pj_Error := errMsg, pj_CompletedAt := now\<rparr>))))
       (\<lambda>(_ :: go_error + unit).
     purge_unlockQueue env now (pj_Queue job) (pj_ID job) PurgeJobFailed errMsg)"

definition purge_execute :: "'s smq_env \<Rightarrow> purge_ctx \<Rightarrow> nat \<Rightarrow> string \<Rightarrow> string \<Rightarrow> ('s, go_error, unit) io" where
  "purge_execute env pc rounds workerID jobID =
     and_then (try_io (Job_Get (env_redis env) jobID)) (\<lambda>r.
     case r of
       Inl (err :: go_error) \<Rightarrow> ret ()
     | Inr job0 \<Rightarrow>
     let job = job0\<lparr>pj_Status := PurgeJobProcessing, pj_StartedAt := pc_start pc\<rparr> in
     and_then (try_io (runJobScript (env_redis env) (JobStart jobID workerID job))) (\<lambda>r.
     case r of
       Inl err \<Rightarrow> failJob env (pc_end pc) job (pc_text pc err)
     | Inr _ \<Rightarrow>
     and_then (purgeMessages (env_redis env) pc rounds job) (\<lambda>(job1, purged, e).
     case e of
       Some err \<Rightarrow> failJob env (pc_end pc) job1 (pc_text pc err)
     | None \<Rightarrow>
     and_then (try_io (Job_IsCanceled (env_redis env) jobID)) (\<lambda>(canceled :: go_error + bool).
     if canceled = Inr True then ret ()
     else
     and_then (try_io (runJobScript (env_redis env) (JobComplete jobID
       (job1\<lparr>pj_Status := PurgeJobCompleted, pj_Meta := Some purged, pj_CompletedAt := pc_end pc\<rparr>)))) (\<lambda>(_ :: go_error + unit).
     purge_unlockQueue env (pc_end pc) (pj_Queue job1) jobID PurgeJobCompleted ''Purge completed'')))))"

subsection \<open>The worker\<close>

definition IsWorkerAlive :: "'s redis_server \<Rightarrow> string \<Rightarrow> ('s, go_error, bool) io" where
  "IsWorkerAlive rd jobID =
     and_then (try_io (exec rd (GET (System_JobWorker jobID)))) (\<lambda>(r :: redis_error + reply).
     case r of
       Inr (RBulk workerID) \<Rightarrow>
         if workerID = [] then ret False
         else and_then (try_io (exists_keys rd [System_WorkerHeartbeat workerID])) (\<lambda>(r :: redis_error + int).
           ret (case r of Inl err \<Rightarrow> False | Inr n \<Rightarrow> 0 < n))
     | _ \<Rightarrow> ret False)"

definition worker_beat :: "'s redis_server \<Rightarrow> string \<Rightarrow> ('s, go_error, unit) io" where
  "worker_beat rd workerID =
     and_then (try_io (exec rd (SETPX (System_WorkerHeartbeat workerID) ''1'' 30000))) (\<lambda>(_ :: redis_error + reply). ret ())"

text \<open>The blocking pop, which answers nil when its second is over.\<close>

definition acquire :: "'s redis_server \<Rightarrow> ('s, redis_error, string) io" where
  "acquire rd =
     and_then (exec rd (RPOPLPUSH System_PendingPurgeJobs System_ActivePurgeJobs)) (\<lambda>r.
     if r = RNil then ret [] else expect_reply bulk r)"

primrec recover_each :: "'s redis_server \<Rightarrow> int \<Rightarrow> string list \<Rightarrow> ('s, go_error, unit) io" where
  "recover_each rd now [] = ret ()"
| "recover_each rd now (jobID # jobIDs) =
     and_then (IsWorkerAlive rd jobID) (\<lambda>alive.
     if alive then recover_each rd now jobIDs
     else
     and_then (try_io (Job_Get rd jobID)) (\<lambda>r.
     case r of
       Inl (err :: go_error) \<Rightarrow> recover_each rd now jobIDs
     | Inr job \<Rightarrow>
         and_then (try_io (runJobScript rd (JobRecover jobID
           (job\<lparr>pj_Status := PurgeJobPending, pj_Error := ''Recovered from worker crash'', pj_UpdatedAt := now\<rparr>))))
           (\<lambda>(_ :: go_error + unit). recover_each rd now jobIDs)))"

definition recoverStuckJobs :: "'s redis_server \<Rightarrow> int \<Rightarrow> ('s, go_error, unit) io" where
  "recoverStuckJobs rd now =
     and_then (try_io (LoadSetMembers rd System_ActivePurgeJobs ''processing purge jobs'')) (\<lambda>r.
     case r of
       Inl (err :: go_error) \<Rightarrow> ret ()
     | Inr jobIDs \<Rightarrow> recover_each rd now jobIDs)"

text \<open>The worker runs until its context ends, which the number of rounds stands for; a failed or empty pop is only waited out.\<close>

definition work_round :: "'s smq_env \<Rightarrow> purge_ctx \<Rightarrow> nat \<Rightarrow> string \<Rightarrow> ('s, go_error, unit) io" where
  "work_round env pc rounds workerID =
     and_then (try_io (acquire (env_redis env))) (\<lambda>(r :: redis_error + string).
     case r of
       Inl err \<Rightarrow> ret ()
     | Inr jobID \<Rightarrow> if jobID = [] then ret () else purge_execute env pc rounds workerID jobID)"

primrec work_loop :: "'s smq_env \<Rightarrow> purge_ctx \<Rightarrow> nat \<Rightarrow> string \<Rightarrow> nat \<Rightarrow> ('s, go_error, unit) io" where
  "work_loop env pc rounds workerID 0 = ret ()"
| "work_loop env pc rounds workerID (Suc n) =
     and_then (work_round env pc rounds workerID) (\<lambda>_. work_loop env pc rounds workerID n)"

definition work :: "'s smq_env \<Rightarrow> purge_ctx \<Rightarrow> nat \<Rightarrow> string \<Rightarrow> nat \<Rightarrow> ('s, go_error, unit) io" where
  "work env pc rounds workerID n =
     and_then (recoverStuckJobs (env_redis env) (pc_start pc)) (\<lambda>_. work_loop env pc rounds workerID n)"

subsection \<open>Locks that were left behind\<close>

definition orphan_transition :: "int \<Rightarrow> string \<Rightarrow> state_transition" where
  "orphan_transition now lockID =
     \<lparr>t_From = Some StateLocked, t_To = StateActive, t_Reason = ''PURGE_QUEUE_COMPLETE'', t_Timestamp = now, t_Description = [],
      t_LockID = Some lockID, t_Owner = None, t_Metadata = []\<rparr>"

text \<open>The reply of the script is only logged.\<close>

definition orphan_unlockQueue :: "'s redis_server \<Rightarrow> int \<Rightarrow> queue_params \<Rightarrow> string \<Rightarrow> ('s, go_error, unit) io" where
  "orphan_unlockQueue rd now p lockID =
     and_then (try_io (Eval rd SetQueueState (set_state_keys p)
       (set_state_args (Some StateLocked) StateActive (orphan_transition now lockID) lockID)))
       (\<lambda>(_ :: go_error + reply). ret ())"

definition orphan_recover :: "'s redis_server \<Rightarrow> int \<Rightarrow> queue_params \<Rightarrow> ('s, go_error, unit) io" where
  "orphan_recover rd now p =
     and_then (try_io (FetchCurrent rd now p)) (\<lambda>r.
     case r of
       Inl (err :: go_error) \<Rightarrow> ret ()
     | Inr state \<Rightarrow>
     if t_To state \<noteq> StateLocked then ret ()
     else if t_Owner state \<noteq> Some LockOwnerPurgeJob then ret ()
     else
     let lockID = (case t_LockID state of None \<Rightarrow> [] | Some i \<Rightarrow> i) in
     if lockID = [] then ret ()
     else
     and_then (IsWorkerAlive rd lockID) (\<lambda>alive.
     if alive then ret () else orphan_unlockQueue rd now p lockID))"

subsection \<open>Jobs whose worker has died\<close>

context redis
begin

text \<open>The active jobs are a list; reading them as a set fails, so that no job is ever recovered.\<close>

lemma stuck_jobs_stay:
  assumes run: "recoverStuckJobs rd now s = (r, s')" and active: "get_list (db s) System_ActivePurgeJobs = Inr (i # is)"
  shows "r = Inr () \<and> db s' = db s"
proof -
  have "get_set (db s) System_ActivePurgeJobs = Inl WrongType"
    using get_SomeD(3) [OF active] by (simp add: get_set_def)
  then have "\<nexists>xs s1. smembers rd System_ActivePurgeJobs s = (Inr xs, s1)"
    unfolding smembers_def and_then_ok by (auto dest!: exec_ok simp: redis_apply.simps)
  moreover obtain r1 s1 where sm: "smembers rd System_ActivePurgeJobs s = (r1, s1)" by fastforce
  moreover have "keeps db (smembers rd System_ActivePurgeJobs)"
    unfolding smembers_def by (intro keeps_intros exec_reads) simp
  ultimately show ?thesis using run
    by (cases r1) (auto simp: recoverStuckJobs_def LoadSetMembers_def and_then_def try_io_def map_err_def keeps_def dest: spec)
qed

text \<open>A job that still waits counts as one whose worker has died: the recoverer of locks unlocks its queue.\<close>

lemma waiting_job_not_alive:
  assumes "jobs_reach (db s) J" and "job_status J i = Some (itoa PurgeJobPending)"
  shows "fst (IsWorkerAlive rd i s) = Inr False"
proof -
  have J: "jobs_view (db s) J" "jobs_ok J" using jobs_reach_ok [OF assms(1)] by simp_all
  have "jb_wrk J i = None" using jobs_ok_D(4) [OF J(2), of i] assms(2) by (auto simp: enum_defs)
  then have "get_str (db s) (System_JobWorker i) = Inr None" using J(1) by (simp add: jobs_view_def)
  then have "\<nexists>w s1. exec rd (GET (System_JobWorker i)) s = (Inr (RBulk w), s1)"
    by (auto dest!: exec_ok simp: redis_apply.simps opt_reply_def)
  then show ?thesis
    by (cases "exec rd (GET (System_JobWorker i)) s")
      (auto simp: IsWorkerAlive_def and_then_def try_io_def split: sum.split reply.split)
qed

end

text \<open>Progress that is recorded after a cancellation brings the job back.\<close>

lemma save_revives:
  "pj_Status job = PurgeJobProcessing \<Longrightarrow>
     job_status (run_job (SaveProgress job) (run_job (Call (JobCancel (pj_ID job) cancelled)) J)) (pj_ID job) = Some (itoa PurgeJobProcessing)"
  by (simp add: run_job_def [of "SaveProgress _"] job_status_put enum_defs)

subsection \<open>One round on a server that answers\<close>

lemma foreign_purge_jobs: "foreign q System_PurgeJobs"
  by (auto simp: foreign_def key_defs Key_eq_iff key_parts_append)

lemma view_foreign: "foreign q k \<Longrightarrow> queue_view q d A \<Longrightarrow> queue_view q (put_hash k h d) A"
  unfolding queue_view_def by (simp add: foreign_neq [THEN not_sym])

lemma list_range_ends:
  "0 < n \<Longrightarrow> list_range 0 (int n - 1) xs = take n xs" "list_range (int n) (-1) xs = drop n xs"
  by (auto simp: list_range_def Let_def nat_diff_distrib of_nat_diff)

lemma mem_fetchBatch:
  "d k = Some (RList xs) \<Longrightarrow> 0 < n \<Longrightarrow> fetchBatch (mem_redis lua) k (int n) d = (Inr (take n xs), d)"
  using mem_reads(1) [of d k xs lua 0 "int n - 1"]
  by (simp add: fetchBatch_def key_type_def mem_redis_def [of lua] and_then_def map_err_def redis_apply.simps type_name_def get_list_def
      list_range_ends)

lemma mem_trimCategory:
  "d k = Some (RList xs) \<Longrightarrow> trimCategory (mem_redis lua) k (int n) d = (Inr (), put_list k (drop n xs) d)"
  by (simp add: trimCategory_def key_type_def mem_redis_def [of lua] and_then_def map_err_def redis_apply.simps type_name_def get_list_def
      modify_def list_range_ends)

lemma mem_Job_Get:
  "get_hash d System_PurgeJobs = Inr h \<Longrightarrow> fmlookup h i = Some (mustMarshal job) \<Longrightarrow> job_fits job \<Longrightarrow>
     Job_Get (mem_redis lua) i d = (Inr job, d)"
  using purge_job_parse [of job]
  by (simp add: Job_Get_def hget_def mem_redis_def and_then_def map_err_def redis_apply.simps opt_reply_def)

lemma mem_GetMessages:
  assumes "\<forall>m \<in> set ids. \<exists>h. get_hash d (System_Message m) = Inr h \<and> h \<noteq> fmempty \<and> (\<exists>e. decode_at dc m h = Inr e \<and> P m e)"
  shows "\<exists>envs. GetMessages (mem_redis lua) dc ids d = (Inr envs, d) \<and> list_all2 P ids envs"
  using assms
proof (induction ids)
  case (Cons m ids)
  obtain h e where h: "get_hash d (System_Message m) = Inr h" "h \<noteq> fmempty" "decode_at dc m h = Inr e" "P m e" using Cons.prems by auto
  have "GetMessage (mem_redis lua) dc m d = (Inr e, d)"
    using mem_reads(4) [OF h(1,2), of lua "''message''"] h(3) by (simp add: GetMessage_def and_then_def map_err_def)
  moreover obtain envs where "GetMessages (mem_redis lua) dc ids d = (Inr envs, d)" "list_all2 P ids envs" using Cons by auto
  ultimately show ?case using h(4) by (simp add: and_then_def try_io_def)
qed simp

text \<open>Messages that all go to one queue without a group are deleted by one run of the script.\<close>

lemma one_group:
  assumes "\<forall>e \<in> set envs. e_destinationQueue e = Some p \<and> e_consumerGroupID e = []" and "envs \<noteq> []"
    and ord: "\<forall>ks. distinct ks \<longrightarrow> distinct (ord ks) \<and> set (ord ks) = set ks"
  shows "map (group_messages envs) (ord (group_keys envs)) = [envs]"
proof -
  let ?k = "(qp_ns p @ '':'' @ qp_name p, ''_'')"
  have g: "\<forall>e \<in> set envs. group_of e = Some ?k" using assms(1) by (simp add: group_of_def)
  have "List.map_filter group_of envs = map (\<lambda>_. ?k) envs" using g by (induction envs) (simp_all add: List.map_filter_simps)
  moreover have "remdups (map (\<lambda>_. ?k) es) = (if es = [] then [] else [?k])" for es :: "envelope list"
    by (induction es) (auto simp: image_constant_conv)
  ultimately have "group_keys envs = [?k]" using assms(2) by (simp add: group_keys_def)
  moreover have "distinct (ord [?k])" "set (ord [?k]) = {?k}" using ord by simp_all
  then have "ord [?k] = [?k]"
    by (cases "ord [?k]") (auto, metis list.set_intros(1) neq_Nil_conv singletonD subsetD)
  moreover have "group_messages envs ?k = envs" using g by (simp add: group_messages_def)
  ultimately show ?thesis by simp
qed

lemma mem_DeleteMessages:
  assumes reach: "Queue_Runs.reach (qkey p) d A" and lock: "lock_verdict A l = None" and ids: "ids \<noteq> []"
    and ok: "allowed A (Delete [] ids l)" and ord: "\<forall>ks. distinct ks \<longrightarrow> distinct (ord ks) \<and> set (ord ks) = set ks"
    and msgs: "\<forall>m \<in> set ids. plain_id m \<and> fmlookup (mq_msg A m) MF_ID = Some m \<and>
      (\<exists>e. decode_at dc m (mq_msg A m) = Inr e \<and> e_destinationQueue e = Some p \<and> e_consumerGroupID e = [])"
  shows "\<exists>res d'. DeleteMessages (mem_redis (smq_scripts other)) dc ord ids l d = (Inr res, d') \<and>
    Queue_Runs.reach (qkey p) d' (fold (do_delete []) ids A)"
proof -
  let ?rd = "mem_redis (smq_scripts other)"
  have view: "queue_view (qkey p) d A" "lively A" "known_type A" using reach_view [OF reach] by simp_all
  let ?P = "\<lambda>m e. Envelope_ID e = m \<and> e_destinationQueue e = Some p \<and> e_consumerGroupID e = []"
  have "\<forall>m \<in> set ids. \<exists>h. get_hash d (System_Message m) = Inr h \<and> h \<noteq> fmempty \<and> (\<exists>e. decode_at dc m h = Inr e \<and> ?P m e)"
  proof
    fix m assume "m \<in> set ids"
    with msgs obtain e where m: "plain_id m" "fmlookup (mq_msg A m) MF_ID = Some m" and
      e: "decode_at dc m (mq_msg A m) = Inr e" "e_destinationQueue e = Some p" "e_consumerGroupID e = []" by blast
    moreover have "mq_msg A m \<noteq> fmempty" using m(2) by auto
    ultimately show "\<exists>h. get_hash d (System_Message m) = Inr h \<and> h \<noteq> fmempty \<and> (\<exists>e. decode_at dc m h = Inr e \<and> ?P m e)"
      using queue_view_gets(11) [OF view(1) m(1)] decode_id [OF e(1) m(2)] by blast
  qed
  from mem_GetMessages [OF this] obtain envs where envs: "GetMessages ?rd dc ids d = (Inr envs, d)" "list_all2 ?P ids envs" by blast
  have map: "map Envelope_ID envs = ids" "\<forall>e \<in> set envs. e_destinationQueue e = Some p \<and> e_consumerGroupID e = []"
    using envs(2) by (auto simp: list_all2_conv_all_nth in_set_conv_nth intro!: nth_equalityI)
  then have ne: "envs \<noteq> []" using ids by auto
  have ready: "delete_ready A ids"
    using ok view(3) lively_room [OF view(2), of "length ids"] by (auto simp: op_size_def allowed_def delete_ready_def delete_allowed_def)
  obtain x d' where run: "lua_delete_message (redis_apply mem_enum) (delete_keys (qkey p) [] ids) (delete_args l ids) d = (Inr x, d')"
    and x: "x = counts_reply (delete_counts [] ids A)"
    by (rule wpD [OF wp_delete [OF ready ids, of "qkey p" mem_enum "[]" l] view(1)]) (use lock in auto)
  have "invoke (qkey p) mem_enum (Delete [] ids l) d = (Inr x, d')" using run by (simp add: invoke_def)
  from reach.operate [OF reach ok this] have new: "Queue_Runs.reach (qkey p) d' (fold (do_delete []) ids A)"
    using lock by (simp add: run_op_def)
  have "Eval ?rd DeleteMessage (delete_keys (qkey p) [] ids) (delete_args l ids) d = (Inr x, d')"
    using run by (intro mem_Eval_reply) (simp_all add: smq_scripts_def x counts_reply_def split: prod.split)
  then have "\<exists>st. deleteMessageGroup ?rd p envs l d = (Inr st, d')"
    using map ne by (cases envs) (auto simp: deleteMessageGroup_def and_then_def map_err_def x counts_reply_def delete_group_reply_def split: prod.split)
  then have "\<exists>res. DeleteMessages ?rd dc ord ids l d = (Inr res, d')"
    using envs(1) ids ne one_group [OF map(2) ne ord] map(2)
    by (cases envs) (auto simp: DeleteMessages_def and_then_def Let_def group_queue_def)
  with new show ?thesis by blast
qed

lemma mem_Job_Save:
  assumes "queue_view q d A"
  shows "\<exists>e d'. Job_Save (mem_redis lua) now job d = (Inr (job\<lparr>pj_UpdatedAt := now\<rparr>, e), d') \<and> queue_view q d' A"
  using assms view_foreign [OF foreign_purge_jobs assms]
  by (cases "get_hash d System_PurgeJobs")
    (auto simp: Job_Save_def mem_redis_def Let_def and_then_def try_io_def redis_apply.simps modify_ok modify_err)

subsection \<open>What a batch leaves behind\<close>

lemma delete_pending:
  assumes "msg_status_of A m = Some (itoa StatusPending)" and "mq_conf A F_Type \<noteq> Some (itoa TypePriority)"
  shows "mq_pend (do_delete [] m A) = (mq_pend A)([] := remove1 m (mq_pend A []))" "mq_conf (do_delete [] m A) = mq_conf A"
    "x \<noteq> m \<Longrightarrow> x \<in> set (mq_pub (do_delete [] m A)) \<longleftrightarrow> x \<in> set (mq_pub A)"
    "x \<noteq> m \<Longrightarrow> x \<in> at_place (do_delete [] m A) pl \<longleftrightarrow> x \<in> at_place A pl"
  using assms by (simp_all add: do_delete_def del_place_def del_counter_def enum_defs Let_def)
    (auto simp: forget_def count_def at_place_def split: place.split)

lemma delete_prefix:
  assumes "\<forall>m \<in> set ids. msg_status_of A m = Some (itoa StatusPending)" and "mq_conf A F_Type \<noteq> Some (itoa TypePriority)"
    and "distinct ids" and "mq_pend A [] = ids @ rest"
  defines "B \<equiv> fold (do_delete []) ids A"
  shows "mq_pend B [] = rest \<and> (\<forall>x pl. x \<notin> set ids \<longrightarrow> msg_status_of B x = msg_status_of A x \<and>
    (x \<in> set (mq_pub B) \<longleftrightarrow> x \<in> set (mq_pub A)) \<and> (x \<in> at_place B pl \<longleftrightarrow> x \<in> at_place A pl))"
  using assms(1-4) unfolding B_def
proof (induction ids arbitrary: A)
  case (Cons m ids)
  have m: "msg_status_of A m = Some (itoa StatusPending)" using Cons.prems(1) by simp
  note del = delete_pending [OF m Cons.prems(2)]
  have "\<forall>m' \<in> set ids. msg_status_of (do_delete [] m A) m' = Some (itoa StatusPending)"
    using Cons.prems(1,3) by (auto simp: do_delete_status)
  from Cons.IH [OF this] del(1,2) Cons.prems(2-4) show ?case
    using del(3,4) by (simp add: do_delete_status)
qed simp

lemma pending_messages:
  assumes "lively A" and "m \<in> set (mq_pend A g)"
  shows "m \<in> set (mq_pub A)" "msg_status_of A m = Some (itoa StatusPending)" "m \<in> at_place A pl \<Longrightarrow> pl = Pend g"
  using assms lifeD(3,4) [of "mq_pub A" "msg_status_of A" "at_place A" "mq_cnt A" m "Pend g"]
  by (auto simp: lively_def place_statuses_def)

text \<open>The queue after a batch has been deleted, and after the list has been trimmed.\<close>

definition batch_deleted :: "nat \<Rightarrow> mq \<Rightarrow> mq" where
  "batch_deleted n A = fold (do_delete []) (take n (mq_pend A [])) A"

definition batch_trimmed :: "nat \<Rightarrow> mq \<Rightarrow> mq" where
  "batch_trimmed n A = (batch_deleted n A)\<lparr>mq_pend := (mq_pend (batch_deleted n A))([] := drop n (drop n (mq_pend A [])))\<rparr>"

lemma batch_trimmed:
  assumes A: "lively A" and fifo: "mq_conf A F_Type \<noteq> Some (itoa TypePriority)"
  shows "mq_pend (batch_deleted n A) [] = drop n (mq_pend A [])" "mq_pend (batch_trimmed n A) [] = drop (2 * n) (mq_pend A [])"
    "m \<in> set (take n (drop n (mq_pend A []))) \<Longrightarrow>
      m \<in> set (mq_pub (batch_trimmed n A)) \<and> msg_status_of (batch_trimmed n A) m = Some (itoa StatusPending) \<and>
      (\<forall>pl. m \<notin> at_place (batch_trimmed n A) pl)"
proof -
  let ?L = "mq_pend A []" and ?B = "batch_trimmed n A" and ?C = "batch_deleted n A"
  have dist: "distinct ?L" using tidy_distinct(1) A by (simp add: lively_def)
  have "\<forall>m \<in> set (take n ?L). msg_status_of A m = Some (itoa StatusPending)"
    using pending_messages(2) [OF A] by (meson in_set_takeD)
  from delete_prefix [OF this fifo, of "drop n ?L"] dist
  have C: "mq_pend ?C [] = drop n ?L" "x \<notin> set (take n ?L) \<Longrightarrow> msg_status_of ?C x = msg_status_of A x \<and>
      (x \<in> set (mq_pub ?C) \<longleftrightarrow> x \<in> set (mq_pub A)) \<and> (x \<in> at_place ?C pl \<longleftrightarrow> x \<in> at_place A pl)" for x pl
    by (auto simp: batch_deleted_def)
  show "mq_pend ?C [] = drop n ?L" by (rule C)
  show "mq_pend ?B [] = drop (2 * n) ?L" by (simp add: batch_trimmed_def mult_2)
  assume m: "m \<in> set (take n (drop n ?L))"
  have "distinct (take n ?L @ take n (drop n ?L) @ drop n (drop n ?L))" using dist by (simp only: append_take_drop_id)
  then have out: "m \<notin> set (take n ?L)" "m \<notin> set (drop n (drop n ?L))" "m \<in> set ?L"
    using m by (auto dest: in_set_takeD in_set_dropD)
  have "m \<notin> at_place ?B pl" for pl
  proof (cases "pl = Pend []")
    case False
    then have "at_place ?B pl = at_place ?C pl" by (auto simp: batch_trimmed_def at_place_def split: place.split)
    with False show ?thesis using C(2) [OF out(1), of pl] pending_messages(3) [OF A out(3)] by auto
  qed (use out(2) in \<open>simp add: batch_trimmed_def\<close>)
  with C(2) [OF out(1)] pending_messages(1,2) [OF A out(3)]
  show "m \<in> set (mq_pub ?B) \<and> msg_status_of ?B m = Some (itoa StatusPending) \<and> (\<forall>pl. m \<notin> at_place ?B pl)"
    by (simp add: batch_trimmed_def msg_status_of_def)
qed


subsection \<open>A queue with two messages\<close>

definition early_sample :: envelope where
  "early_sample = SetStatus StatusPending (SetDestinationQueue (pm_queue sample_message) (NewEnvelope ''m0'' sample_message))"

definition early_view :: mq where "early_view = run_op (Publish early_sample) first_view"

definition two_view :: mq where "two_view = run_op (Publish pending_sample) early_view"

lemma early_sample_fields: "Envelope_ID early_sample = ''m0''" "e_status early_sample = StatusPending"
  "pm_priority (e_producibleMessage early_sample) = None" "e_consumerGroupID early_sample = []"
  by (simp_all add: early_sample_def SetStatus_def Envelope_ID_def sample_envelope_defs)

lemma publish_plain:
  assumes "mq_conf A = mq_conf first_view" and "pm_priority (e_producibleMessage e) = None" and "e_consumerGroupID e = []"
    and "e_status e = StatusPending"
  shows "run_op (Publish e) A = do_publish [] (Envelope_ID e) [] (OrEmptyInt64 (State_ScheduledAt (e_messageState e))) True (messagePropertyValues e) A"
proof -
  have "publish_verdict A [] [] True [] = ''OK''"
    by (simp add: publish_verdict_def assms(1) first_view_conf publish_state_error_def state_or_def enum_defs)
  then show ?thesis using assms by (simp add: run_op_def run_publish_def Let_def priority_text_def)
qed

lemma two_views:
  "mq_conf early_view = mq_conf first_view" "mq_pub early_view = [''m0'']" "mq_pend early_view [] = [''m0'']"
  "mq_conf two_view = mq_conf first_view" "mq_pub two_view = [''m0'', ''m1'']" "mq_pend two_view [] = [''m1'', ''m0'']"
proof -
  show *: "mq_conf early_view = mq_conf first_view" by (simp add: early_view_def run_conf)
  then show "mq_conf two_view = mq_conf first_view" by (simp add: two_view_def run_conf)
  have 0: "mq_pub first_view = []" "mq_pend first_view [] = []" by (simp_all add: first_view_def new_queue_def)
  show 1: "mq_pub early_view = [''m0'']" "mq_pend early_view [] = [''m0'']"
    unfolding early_view_def publish_plain [OF refl early_sample_fields(3,4,2)]
    by (simp_all add: early_sample_fields do_publish_def Let_def put_pending_def first_view_conf enum_defs 0)
  show "mq_pub two_view = [''m0'', ''m1'']" "mq_pend two_view [] = [''m1'', ''m0'']"
    unfolding two_view_def publish_plain [OF * pending_sample_fields(3,4,2)]
    by (simp_all add: pending_sample_fields do_publish_def Let_def put_pending_def * first_view_conf enum_defs 1)
qed

lemma reach_two: "\<exists>d. Queue_Runs.reach (qkey sample_queue) d two_view"
proof -
  have ok1: "allowed first_view (Publish early_sample)"
    using new_queue_unused [of 7 TypeFIFO DeliveryPointToPoint None empty_db]
    by (auto simp: allowed_def op_size_def early_sample_fields plain_id_def fresh_def unused_def first_view_def new_queue_def)
  obtain r d where "invoke (qkey sample_queue) mem_enum (Publish early_sample) created_sample = (r, d)" by fastforce
  from reach.operate [OF reach_first ok1 this] have d: "Queue_Runs.reach (qkey sample_queue) d early_view" by (simp add: early_view_def)
  have none: "''m1'' \<notin> at_place first_view pl" for pl
    using new_queue_unused [of 7 TypeFIFO DeliveryPointToPoint None empty_db] by (auto simp: unused_def first_view_def)
  have "''m1'' \<notin> at_place early_view pl" for pl
    unfolding early_view_def publish_plain [OF refl early_sample_fields(3,4,2)] using none [of pl]
    by (cases pl) (auto simp: early_sample_fields do_publish_def Let_def put_pending_def first_view_conf enum_defs)
  then have ok2: "allowed early_view (Publish pending_sample)"
    by (simp add: allowed_def op_size_def pending_sample_fields plain_id_def fresh_def two_views)
  obtain r d' where "invoke (qkey sample_queue) mem_enum (Publish pending_sample) d = (r, d')" by fastforce
  from reach.operate [OF d ok2 this] show ?thesis unfolding two_view_def by blast
qed

lemma two_field:
  assumes "(f, v) \<in> set (zip buildMessagePropertyKeys (messagePropertyValues pending_sample))"
  shows "fmlookup (mq_msg two_view ''m1'') f = Some v"
proof -
  have "map fst (zip buildMessagePropertyKeys (messagePropertyValues pending_sample)) = buildMessagePropertyKeys"
    by (simp add: map_fst_zip values_nth)
  then have "distinct (map fst (zip buildMessagePropertyKeys (messagePropertyValues pending_sample)))" by (simp add: distinct_keys)
  with assms show ?thesis unfolding two_view_def publish_plain [OF two_views(1) pending_sample_fields(3,4,2)]
    by (simp add: pending_sample_fields do_publish_def Let_def set_fields_def hset_all_in)
qed

lemma decode_target:
  assumes "Codec_DecodeParams (hash_get h MF_Message) = Inr ps" and "decode_at dc m h = Inr e"
  shows "e_destinationQueue e = p_DestinationQueue ps" "e_consumerGroupID e = p_ConsumerGroupID ps"
  using assms
  by (auto simp: decode_at_def DecodeEnvelope_def Let_def NewEnvelope_def SetDestinationQueue_def SetStatus_def SetMessageState_def
      SetConsumerGroupID_def split: if_splits sum.splits)

lemma two_message:
  "fmlookup (mq_msg two_view ''m1'') MF_ID = Some ''m1''"
  "\<exists>e. decode_at dc ''m1'' (mq_msg two_view ''m1'') = Inr e \<and> e_destinationQueue e = Some sample_queue \<and> e_consumerGroupID e = []"
proof -
  show i: "fmlookup (mq_msg two_view ''m1'') MF_ID = Some ''m1''"
    by (rule two_field) (simp add: buildMessagePropertyKeys_def messagePropertyValues_def Let_def pending_sample_fields)
  have "fmlookup (mq_msg two_view ''m1'') MF_Message = Some (Codec_EncodeParams (Envelope_ToParams pending_sample))"
    by (rule two_field) (simp add: buildMessagePropertyKeys_def messagePropertyValues_def Let_def Codec_EncodeParams_def)
  moreover have "params_ok (Envelope_ToParams pending_sample)"
    using sample_envelope_ok by (simp add: envelope_ok_def pending_sample_def SetStatus_def Envelope_ToParams_def)
  ultimately have ps: "Codec_DecodeParams (hash_get (mq_msg two_view ''m1'') MF_Message) = Inr (Envelope_ToParams pending_sample)"
    by (simp add: hash_get_def Codec_Decode_Encode)
  obtain e where e: "decode_at dc ''m1'' (mq_msg two_view ''m1'') = Inr e" using decode_total [OF ps i] by blast
  have "p_DestinationQueue (Envelope_ToParams pending_sample) = Some sample_queue" "p_ConsumerGroupID (Envelope_ToParams pending_sample) = []"
    by (simp_all add: Envelope_ToParams_def Message_ToParams_def pending_sample_def sample_envelope_defs SetStatus_def sample_queue_def)
  with decode_target [OF ps e] e show "\<exists>e. decode_at dc ''m1'' (mq_msg two_view ''m1'') = Inr e \<and> e_destinationQueue e = Some sample_queue \<and> e_consumerGroupID e = []"
    by simp
qed

definition sample_purge :: purge_ctx where
  "sample_purge = \<lparr>pc_decode = cc_decode sample_ctx, pc_order = (\<lambda>ks. ks), pc_text = (\<lambda>_. []), pc_start = 9, pc_round = (\<lambda>_. 9), pc_end = 9\<rparr>"


end
