(* ===== verification/Redis_Effects.thy ===== *)
theory Redis_Effects
  imports Redis_Client
begin

text \<open>
  Reasoning about operations that read, decide and then write once: the stores of exchanges do so
  in a transaction (\<open>WithTransaction\<close>), others in a pipeline or a script. \<open>effect\<close> says everything
  such an operation can come to when it starts on the database \<open>d\<close>: success, which has turned \<open>d\<close>
  into \<open>d'\<close>; a refusal, described by \<open>er\<close>, which has changed nothing; or a fault of Redis, after
  which the write has happened completely or not at all.
\<close>

definition effect :: "('s \<Rightarrow> 'd) \<Rightarrow> 'd \<Rightarrow> 'd \<Rightarrow> ('a \<Rightarrow> bool) \<Rightarrow> (go_error \<Rightarrow> bool) \<Rightarrow> ('s, go_error, 'a) io \<Rightarrow> bool" where
  "effect obs d d' ok er m \<longleftrightarrow> (\<forall>s r s'. obs s = d \<longrightarrow> m s = (r, s') \<longrightarrow>
     (case r of
        Inr x \<Rightarrow> ok x \<and> obs s' = d'
      | Inl e \<Rightarrow> obs s' = d \<and> er e \<or> redis_fault e \<and> (obs s' = d \<or> Ex ok \<and> obs s' = d')))"

text \<open>An operation that leaves the database alone and can only fail for Redis.\<close>

definition fetches :: "('s \<Rightarrow> 'd) \<Rightarrow> ('s, go_error, 'a) io \<Rightarrow> bool" where
  "fetches obs m \<longleftrightarrow> keeps obs m \<and> (\<forall>s e s'. m s = (Inl e, s') \<longrightarrow> redis_fault e)"

named_theorems fetches_intros \<open>calls that only read\<close>
named_theorems effect_intros \<open>composition rules for \<open>effect\<close>\<close>

lemma effectD_ok: "effect obs d d' ok er m \<Longrightarrow> obs s = d \<Longrightarrow> m s = (Inr x, s') \<Longrightarrow> ok x \<and> obs s' = d'"
  unfolding effect_def by fastforce

lemma effectD_err:
  "effect obs d d' ok er m \<Longrightarrow> obs s = d \<Longrightarrow> m s = (Inl e, s') \<Longrightarrow>
     obs s' = d \<and> er e \<or> redis_fault e \<and> (obs s' = d \<or> Ex ok \<and> obs s' = d')"
  unfolding effect_def by fastforce

lemma effect_final: "effect obs d d' ok er m \<Longrightarrow> obs s = d \<Longrightarrow> m s = (r, s') \<Longrightarrow> obs s' = d \<or> Ex ok \<and> obs s' = d'"
  by (cases r) (auto dest: effectD_ok effectD_err)

lemma effect_throw [effect_intros]: "er e \<Longrightarrow> effect obs d d' ok er (throw e)"
  by (simp add: effect_def throw_def)

lemma effect_ret [effect_intros]: "ok x \<Longrightarrow> effect obs d d ok er (ret x)"
  by (simp add: effect_def ret_def)

lemma effect_if [effect_intros]:
  "(b \<Longrightarrow> effect obs d d' ok er m) \<Longrightarrow> (\<not> b \<Longrightarrow> effect obs d d' ok er m') \<Longrightarrow>
   effect obs d d' ok er (if b then m else m')"
  by simp

text \<open>A first step that changes nothing: what follows may use what it has returned.\<close>

lemma effect_after:
  assumes m: "keeps obs m"
    and err: "\<And>s e s1. obs s = d \<Longrightarrow> m s = (Inl e, s1) \<Longrightarrow> redis_fault e \<or> er e"
    and f: "\<And>s x s1. obs s = d \<Longrightarrow> m s = (Inr x, s1) \<Longrightarrow> effect obs d d' ok er (f x)"
  shows "effect obs d d' ok er (and_then m f)"
  unfolding effect_def
proof (intro allI impI)
  fix s r s' assume s: "obs s = d" and run: "and_then m f s = (r, s')"
  obtain r1 s1 where ms: "m s = (r1, s1)" by fastforce
  have s1: "obs s1 = d" using keepsD [OF m ms] s by simp
  show "case r of Inr x \<Rightarrow> ok x \<and> obs s' = d'
    | Inl e \<Rightarrow> obs s' = d \<and> er e \<or> redis_fault e \<and> (obs s' = d \<or> Ex ok \<and> obs s' = d')"
  proof (cases r1)
    case (Inl e)
    with run ms have "r = Inl e" "s' = s1" by (simp_all add: and_then_Inl)
    with err [OF s, of e s1] ms Inl s1 show ?thesis by auto
  next
    case (Inr x)
    with run ms have fs: "f x s1 = (r, s')" by (simp add: and_then_Inr)
    from f [OF s, of x s1] ms Inr have e: "effect obs d d' ok er (f x)" by simp
    show ?thesis
    proof (cases r)
      case (Inl e')
      with effectD_err [OF e s1] fs show ?thesis by simp
    next
      case (Inr y)
      with effectD_ok [OF e s1] fs show ?thesis by simp
    qed
  qed
qed

lemma effect_fetch:
  "fetches obs m \<Longrightarrow> (\<And>s x s1. obs s = d \<Longrightarrow> m s = (Inr x, s1) \<Longrightarrow> effect obs d d' ok er (f x)) \<Longrightarrow>
   effect obs d d' ok er (and_then m f)"
  by (rule effect_after) (unfold fetches_def, blast+)

lemma effect_then_ret:
  assumes "effect obs d d' ok0 er m" and "\<And>x. ok0 x \<Longrightarrow> ok (g x)"
  shows "effect obs d d' ok er (and_then m (\<lambda>x. ret (g x)))"
  unfolding effect_def
proof (intro allI impI)
  fix s r s' assume s: "obs s = d" and run: "and_then m (\<lambda>x. ret (g x)) s = (r, s')"
  obtain r1 where m: "m s = (r1, s')" and r: "r = (case r1 of Inl e \<Rightarrow> Inl e | Inr x \<Rightarrow> Inr (g x))"
    using run by (cases "m s") (auto simp: and_then_def ret_def split: sum.splits)
  show "case r of Inr x \<Rightarrow> ok x \<and> obs s' = d'
    | Inl e \<Rightarrow> obs s' = d \<and> er e \<or> redis_fault e \<and> (obs s' = d \<or> Ex ok \<and> obs s' = d')"
  proof (cases r1)
    case (Inl e)
    have "Ex ok0 \<Longrightarrow> Ex ok" using assms(2) by blast
    with Inl effectD_err [OF assms(1) s] m r show ?thesis by auto
  next
    case (Inr x)
    with effectD_ok [OF assms(1) s] m r assms(2) show ?thesis by simp
  qed
qed

lemma effect_map_err:
  assumes "effect obs d d' ok er0 m" and "\<And>e. er0 e \<Longrightarrow> er (Wrapf t e)"
  shows "effect obs d d' ok er (map_err (Wrapf t) m)"
  unfolding effect_def
proof (intro allI impI)
  fix s r s' assume s: "obs s = d" and run: "map_err (Wrapf t) m s = (r, s')"
  obtain r1 where m: "m s = (r1, s')" and r: "r = (case r1 of Inl e \<Rightarrow> Inl (Wrapf t e) | Inr x \<Rightarrow> Inr x)"
    using run by (cases "m s") (auto simp: map_err_def split: sum.splits)
  show "case r of Inr x \<Rightarrow> ok x \<and> obs s' = d'
    | Inl e \<Rightarrow> obs s' = d \<and> er e \<or> redis_fault e \<and> (obs s' = d \<or> Ex ok \<and> obs s' = d')"
  proof (cases r1)
    case (Inl e)
    with effectD_err [OF assms(1) s] m r assms(2) show ?thesis by auto
  next
    case (Inr x)
    with effectD_ok [OF assms(1) s] m r show ?thesis by simp
  qed
qed

lemma fetchesD: "fetches obs m \<Longrightarrow> m s = (Inl e, s') \<Longrightarrow> redis_fault e"
  unfolding fetches_def by blast

lemma fetches_and_then [fetches_intros]:
  assumes "fetches obs m" and "\<And>x. fetches obs (f x)"
  shows "fetches obs (and_then m f)"
proof -
  have "redis_fault e" if "and_then m f s = (Inl e, s')" for s e s'
    using that fetchesD [OF assms(1)] fetchesD [OF assms(2)] unfolding and_then_err by blast
  moreover have "keeps obs (and_then m f)"
    using assms unfolding fetches_def by (blast intro: keeps_intros)
  ultimately show ?thesis unfolding fetches_def by blast
qed

lemma fetches_ret [fetches_intros]: "fetches obs (ret x)"
  by (simp add: fetches_def ret_def keeps_def)

lemma fetches_if [fetches_intros]:
  "(b \<Longrightarrow> fetches obs m) \<Longrightarrow> (\<not> b \<Longrightarrow> fetches obs m') \<Longrightarrow> fetches obs (if b then m else m')"
  by simp

subsection \<open>Commands that cannot fail\<close>

definition multi_ok :: "(string fset \<Rightarrow> string list) \<Rightarrow> cmd list \<Rightarrow> db \<Rightarrow> db \<Rightarrow> bool" where
  "multi_ok en cs d d' \<longleftrightarrow> (\<exists>xs. multi_apply en cs d = (Inr xs, d'))"

lemma multi_ok_Nil: "multi_ok en [] d d"
  by (simp add: multi_ok_def multi_apply_def)

lemma multi_ok_Cons: "redis_apply en c d = (Inr x, d1) \<Longrightarrow> multi_ok en cs d1 d' \<Longrightarrow> multi_ok en (c # cs) d d'"
  by (auto simp: multi_ok_def multi_apply_def split: prod.splits)

lemma multi_ok_steps:
  "get_set d k = Inr S \<Longrightarrow> multi_ok en cs (put_set k (S |\<union>| fset_of_list ms) d) d' \<Longrightarrow> multi_ok en (SADD k ms # cs) d d'"
  "get_set d k = Inr S \<Longrightarrow> multi_ok en cs (put_set k (S |-| fset_of_list ms) d) d' \<Longrightarrow> multi_ok en (SREM k ms # cs) d d'"
  "get_hash d k = Inr h \<Longrightarrow> multi_ok en cs (put_hash k (hset_all fvs h) d) d' \<Longrightarrow> multi_ok en (HSET k fvs # cs) d d'"
  "multi_ok en cs (del_keys ks d) d' \<Longrightarrow> multi_ok en (DEL ks # cs) d d'"
  by (rule multi_ok_Cons; simp add: redis_apply.simps modify_ok)+

lemma multi_ok_dels: "multi_ok en (map (\<lambda>k. DEL [f k]) ks) d (del_keys (map f ks) d)"
proof (induction ks arbitrary: d)
  case Nil
  have "del_keys [] d = d" by (simp add: del_keys_def)
  then show ?case using multi_ok_Nil by simp
next
  case (Cons k ks)
  have "del_keys (map f ks) (del_keys [f k] d) = del_keys (map f (k # ks)) d" by (auto simp: del_keys_def)
  with Cons [of "del_keys [f k] d"] show ?case by (simp add: multi_ok_steps(4))
qed

context redis
begin

lemma fetches_calls [fetches_intros]:
  "fetches db (map_err RedisErr (sismember rd k m))"
  "fetches db (map_err RedisErr (smembers rd k))"
  "fetches db (map_err RedisErr (scard rd k))"
  "fetches db (map_err RedisErr (hexists rd k f))"
  "fetches db (LoadSetMembers rd k e)"
  "fetches db (SetContains rd k v e)"
  unfolding fetches_def LoadSetMembers_def SetContains_def
  by (auto intro!: keeps_intros call_keeps simp: map_err_err dest: call_not_tx)

lemma exec_sadd_typed:
  assumes "sadd rd k ms s = (r, s')" and "get_set (db s) k = Inr S"
  shows "(r = Inr (int (fcard (fset_of_list ms |-| S))) \<and> db s' = put_set k (S |\<union>| fset_of_list ms) (db s)) \<or>
    (\<exists>e. r = Inl (ConnError e))"
proof -
  obtain r1 s1 where ex: "exec rd (SADD k ms) s = (r1, s1)" by fastforce
  from exec_served [OF ex] assms(2) have "r1 = Inr (RInt (int (fcard (fset_of_list ms |-| S)))) \<and>
      db s1 = put_set k (S |\<union>| fset_of_list ms) (db s) \<or> is_conn_error r1"
    by (auto simp: served_def redis_apply.simps modify_def)
  with assms(1) ex show ?thesis
    by (auto simp: sadd_def and_then_def is_conn_error_def split: sum.splits redis_error.splits)
qed

text \<open>The queued commands of a transaction on a database on which none of them fails.\<close>

lemma effect_tx:
  assumes run: "\<And>en. enum_ok en \<Longrightarrow> multi_ok en cs d d'"
    and "er (RedisErr TxFailedErr)" and "ok ()"
  shows "effect db d d' ok er (and_then (map_err RedisErr (tx_exec rd cs)) (\<lambda>_. ret ()))"
  unfolding effect_def
proof (intro allI impI)
  fix s r s' assume s: "db s = d" and "and_then (map_err RedisErr (tx_exec rd cs)) (\<lambda>_. ret ()) s = (r, s')"
  then obtain r1 where tx: "tx_exec rd cs s = (r1, s')"
    and r: "r = (case r1 of Inl e \<Rightarrow> Inl (RedisErr e) | Inr x \<Rightarrow> Inr ())"
    by (cases "tx_exec rd cs s") (auto simp: and_then_def map_err_def ret_def split: sum.splits)
  from tx_served [OF tx] consider (served) "served db (\<lambda>en. multi_apply en cs) s r1 s'"
    | (failed) "r1 = Inl TxFailedErr" "db s' = db s" by blast
  then show "case r of Inr x \<Rightarrow> ok x \<and> db s' = d'
    | Inl e \<Rightarrow> db s' = d \<and> er e \<or> redis_fault e \<and> (db s' = d \<or> Ex ok \<and> db s' = d')"
  proof cases
    case served
    then obtain en where en: "enum_ok en"
      and o: "multi_apply en cs d = (r1, db s') \<or> is_conn_error r1 \<and> (db s' = d \<or> db s' = snd (multi_apply en cs d))"
      by (auto simp: served_def s)
    from run [OF en] obtain xs where "multi_apply en cs d = (Inr xs, d')" by (auto simp: multi_ok_def)
    with o r assms(3) show ?thesis
      by (auto simp: is_conn_error_def split: sum.splits redis_error.splits)
  qed (use s r assms(2) in simp)
qed

text \<open>The retry loop: attempts that Redis aborts change nothing.\<close>

lemma effect_attempts:
  assumes fn: "effect db d d' ok er0 fn"
    and "er (Errorf (''transaction failed after '' @ itoa m @ '' attempts''))"
    and "\<And>e. er0 e \<Longrightarrow> \<not> errors_is e (RedisErr TxFailedErr) \<Longrightarrow> er (Wrapf ''transaction failed'' e)"
  shows "effect db d d' ok er (tx_attempts rd ks fn m n)"
proof (induction n)
  case 0
  show ?case unfolding tx_attempts.simps by (rule effect_throw) (rule assms(2))
next
  case (Suc n)
  show ?case
    unfolding effect_def
  proof (intro allI impI)
    fix s r s' assume s: "db s = d" and run: "tx_attempts rd ks fn m (Suc n) s = (r, s')"
    obtain r1 s1 where w: "Watch rd ks fn s = (r1, s1)" by fastforce
    have w1: "case r1 of Inr x \<Rightarrow> ok x \<and> db s1 = d'
      | Inl e \<Rightarrow> db s1 = d \<and> er0 e \<or> redis_fault e \<and> (db s1 = d \<or> Ex ok \<and> db s1 = d')"
    proof -
      from Watch_run [OF w] consider (conn) "is_conn_error (fst (watch rd ks s))"
          "r1 = Inl (RedisErr (projl (fst (watch rd ks s))))" "db s1 = d"
        | (fn) s0 s2 where "db s0 = d" "fn s0 = (r1, s2)" "db s1 = db s2" using s by auto
      then show ?thesis
      proof cases
        case conn
        then show ?thesis by (auto simp: is_conn_error_def split: sum.splits redis_error.splits)
      next
        case fn
        then show ?thesis
          using effectD_ok [OF assms(1) fn(1)] effectD_err [OF assms(1) fn(1)] by (cases r1) auto
      qed
    qed
    show "case r of Inr x \<Rightarrow> ok x \<and> db s' = d'
      | Inl e \<Rightarrow> db s' = d \<and> er e \<or> redis_fault e \<and> (db s' = d \<or> Ex ok \<and> db s' = d')"
    proof (cases r1)
      case (Inr x)
      with run w w1 show ?thesis by (auto simp: try_then)
    next
      case (Inl e)
      show ?thesis
      proof (cases "errors_is e (RedisErr TxFailedErr)")
        case True
        with run w Inl have rest: "tx_attempts rd ks fn m n s1 = (r, s')" by (simp add: try_then)
        have "db s1 = d" using w1 Inl redis_fault_not_tx True by auto
        with effectD_ok [OF Suc.IH this] effectD_err [OF Suc.IH this] rest show ?thesis by (cases r) auto
      next
        case False
        with run w Inl w1 assms(3) show ?thesis by (auto simp: try_then)
      qed
    qed
  qed
qed

lemma effect_WithTransaction:
  assumes "effect db d d' ok er0 fn"
    and "\<And>m. er (Errorf (''transaction failed after '' @ itoa m @ '' attempts''))"
    and "\<And>e. er0 e \<Longrightarrow> \<not> errors_is e (RedisErr TxFailedErr) \<Longrightarrow> er (Wrapf ''transaction failed'' e)"
  shows "effect db d d' ok er (WithTransaction rd ks n fn)"
  unfolding WithTransaction_def Let_def by (rule effect_attempts [OF assms])

end

end
