(* ===== verification/Exchange_Store.thy ===== *)
theory Exchange_Store
  imports Exchange_Types Queue_Store Redis_Effects
begin

text \<open>
  \<open>internal/exchange/store.go\<close>, \<open>validate.go\<close> and \<open>lookup.go\<close>: creating, loading and deleting
  exchanges, the type check that guards every operation on an existing exchange, and the rules under
  which a queue may be bound. An exchange has a properties hash (type and policy) and is listed, as
  JSON, in the global set and in the set of its namespace.
\<close>

definition xkey :: "exchange_params \<Rightarrow> exchange_key" where
  "xkey x = \<lparr>xk_Namespace = xp_ns x, xk_Name = xp_name x\<rparr>"

subsection \<open>The store\<close>

definition Exchange_Save :: "'s redis_server \<Rightarrow> exchange_params \<Rightarrow> Policy \<Rightarrow> ('s, go_error, unit) io" where
  "Exchange_Save rd params policy =
     (let key = xkey params;
          paramsStr = Exchange_EncodeParams params;
          propsHash = Exchange_EncodeProps \<lparr>x_Type = xp_typ params, x_Policy = policy\<rparr>;
          watchKeys = [Exchange_Properties key, System_AllExchanges, Namespace_Exchanges (xp_ns params)];
          txf = and_then (map_err RedisErr (hexists rd (Exchange_Properties key) X_Type)) (\<lambda>exists.
            if exists then throw (ExchangeErr X_ErrAlreadyExists)
            else and_then (map_err RedisErr (tx_exec rd
              [HSET (Exchange_Properties key) propsHash,
               SADD System_AllNamespaces [xp_ns params],
               SADD System_AllExchanges [paramsStr],
               SADD (Namespace_Exchanges (xp_ns params)) [paramsStr]])) (\<lambda>_. ret ()))
      in WithTransaction rd watchKeys 3 txf)"

definition Exchange_Load :: "'s redis_server \<Rightarrow> exchange_params \<Rightarrow> ('s, go_error, exchange_props) io" where
  "Exchange_Load rd params =
     and_then (map_err (\<lambda>_. ExchangeErr X_ErrNotFound)
       (LoadHash rd (Exchange_Properties (xkey params)) ''exchange properties'')) (\<lambda>hash.
     map_err (Wrapf ''load exchange'') (lift_sum (Exchange_DecodeProps hash)))"

definition Exchange_Exists :: "'s redis_server \<Rightarrow> exchange_params \<Rightarrow> ('s, go_error, bool) io" where
  "Exchange_Exists rd params =
     and_then (map_err (\<lambda>e. Wrapf ''check exchange exists'' (RedisErr e)) (exists_keys rd [Exchange_Properties (xkey params)]))
       (\<lambda>count. ret (0 < count))"

definition ValidateType :: "'s redis_server \<Rightarrow> exchange_params \<Rightarrow> bool \<Rightarrow> ('s, go_error, unit) io" where
  "ValidateType rd params required =
     and_then (try_io (LoadHashField rd (Exchange_Properties (xkey params)) X_Type ''exchange type'')) (\<lambda>r.
     case r of
       Inl err \<Rightarrow> if required then throw (ExchangeErr X_ErrNotFound) else ret ()
     | Inr storedType \<Rightarrow>
         (case parse_int storedType of
            (_, Some err) \<Rightarrow> throw (Wrapf ''parse exchange type'' (NumErr err))
          | (typeValue, None) \<Rightarrow>
              if typeValue \<noteq> xp_typ params then throw (ExchangeErr X_ErrTypeMismatch) else ret ()))"

text \<open>The loops over routing keys and patterns that look for a bound queue.\<close>

fun check_unbound :: "'s redis_server \<Rightarrow> (string \<Rightarrow> string) \<Rightarrow> string list \<Rightarrow> ('s, go_error, unit) io" where
  "check_unbound rd queues [] = ret ()"
| "check_unbound rd queues (k # ks) =
     and_then (map_err RedisErr (scard rd (queues k))) (\<lambda>count.
     if 0 < count then throw (ExchangeErr X_ErrHasBoundQueues) else check_unbound rd queues ks)"

definition Exchange_Delete :: "'s redis_server \<Rightarrow> exchange_params \<Rightarrow> ('s, go_error, unit) io" where
  "Exchange_Delete rd params =
     (let key = xkey params in
      and_then (Exchange_Exists rd params) (\<lambda>exists.
      if \<not> exists then throw (ExchangeErr X_ErrNotFound)
      else
      and_then
        (if xp_typ params = TypeDirect then
           and_then (LoadSetMembers rd (Exchange_RoutingKeys key) ''routing keys'')
             (check_unbound rd (Exchange_RoutingKeyQueues key))
         else if xp_typ params = TypeTopic then
           and_then (LoadSetMembers rd (Exchange_BindingPatterns key) ''binding patterns'')
             (check_unbound rd (Exchange_PatternQueues key))
         else if xp_typ params = TypeFanout then check_unbound rd (\<lambda>_. Exchange_FanoutQueues key) [[]]
         else ret ()) (\<lambda>_.
      let paramsStr = Exchange_EncodeParams params in
      and_then (map_err (\<lambda>e. Wrapf ''delete exchange'' (RedisErr e)) (pipe_exec rd
        ([DEL [Exchange_Exchange key], DEL [Exchange_Properties key],
          SREM System_AllExchanges [paramsStr], SREM (Namespace_Exchanges (xp_ns params)) [paramsStr]] @
         (if xp_typ params = TypeDirect then [DEL [Exchange_RoutingKeys key]]
          else if xp_typ params = TypeTopic then [DEL [Exchange_BindingPatterns key]]
          else if xp_typ params = TypeFanout then [DEL [Exchange_FanoutQueues key]]
          else [])))) (\<lambda>_. ret ()))))"

subsection \<open>The validator\<close>

definition checkPolicy :: "exchange_props \<Rightarrow> queue_type \<Rightarrow> go_error option" where
  "checkPolicy props queueType =
     (if x_Policy props = PolicyStandard then
        if queueType \<noteq> TypeFIFO \<and> queueType \<noteq> TypeLIFO then Some (ExchangeErr X_ErrPolicyViolation) else None
      else if x_Policy props = PolicyPriority then
        if queueType \<noteq> TypePriority then Some (ExchangeErr X_ErrPolicyViolation) else None
      else None)"

definition ValidateQueueBinding :: "'s redis_server \<Rightarrow> exchange_params \<Rightarrow> queue_params \<Rightarrow> ('s, go_error, exchange_props option) io" where
  "ValidateQueueBinding rd params queueParams =
     and_then (map_err (Wrapf ''validate binding: load queue'') (Queue_Load rd queueParams)) (\<lambda>queueProps.
     and_then (try_io (Exchange_Load rd params)) (\<lambda>r.
     case r of
       Inl err \<Rightarrow>
         if errors_is err (ExchangeErr X_ErrNotFound) then ret None
         else throw (Wrapf ''validate binding: load exchange'' err)
     | Inr exchangeProps \<Rightarrow>
         if x_Type exchangeProps \<noteq> xp_typ params then throw (ExchangeErr X_ErrTypeMismatch)
         else (case checkPolicy exchangeProps (q_Type queueProps) of
             Some err \<Rightarrow> throw err
           | None \<Rightarrow> ret (Some exchangeProps))))"

subsection \<open>Lookup\<close>

fun decodeExchangeParams :: "string list \<Rightarrow> exchange_params list" where
  "decodeExchangeParams [] = []"
| "decodeExchangeParams (member # members) =
     (case Exchange_DecodeParams member of
        Inl err \<Rightarrow> decodeExchangeParams members
      | Inr p \<Rightarrow> p # decodeExchangeParams members)"

definition ExchangeLookup_All :: "'s redis_server \<Rightarrow> ('s, go_error, exchange_params list) io" where
  "ExchangeLookup_All rd =
     and_then (LoadSetMembers rd System_AllExchanges ''all exchanges'') (\<lambda>members. ret (decodeExchangeParams members))"

definition ExchangeLookup_ByNamespace :: "'s redis_server \<Rightarrow> string \<Rightarrow> ('s, go_error, exchange_params list) io" where
  "ExchangeLookup_ByNamespace rd namespace =
     and_then (LoadSetMembers rd (Namespace_Exchanges namespace) (''exchanges in namespace '' @ namespace))
       (\<lambda>members. ret (decodeExchangeParams members))"

definition ExchangeLookup_ByQueue :: "'s redis_server \<Rightarrow> queue_params \<Rightarrow> ('s, go_error, exchange_params list) io" where
  "ExchangeLookup_ByQueue rd queueParams =
     and_then (LoadSetMembers rd (Queue_ExchangeBindings (qkey queueParams)) (''exchanges for queue '' @ Params_String queueParams))
       (\<lambda>members. ret (decodeExchangeParams members))"

subsection \<open>What the checks tell about the database\<close>

text \<open>The refusals of \<open>ValidateQueueBinding\<close>: the queue does not exist or cannot be read, the stored
  exchange cannot be read, is of another type, or does not accept queues of this type.\<close>

definition binding_refused :: "db \<Rightarrow> exchange_params \<Rightarrow> queue_params \<Rightarrow> go_error \<Rightarrow> bool" where
  "binding_refused d x q e \<longleftrightarrow>
     (\<exists>qh. get_hash d (Queue_Properties (qkey q)) = Inr qh \<and>
        (qh = fmempty \<and> e = Wrapf ''validate binding: load queue'' (Errorf ''queue properties not found'') \<or>
         (\<exists>err. DecodeProps qh = Inl err \<and> e = Wrapf ''validate binding: load queue'' (Wrapf ''load queue: decode'' err)) \<or>
         (\<exists>qp xh. DecodeProps qh = Inr qp \<and> get_hash d (Exchange_Properties (xkey x)) = Inr xh \<and>
            ((\<exists>err. Exchange_DecodeProps xh = Inl err \<and>
                e = Wrapf ''validate binding: load exchange'' (Wrapf ''load exchange'' err)) \<or>
             (\<exists>xp. Exchange_DecodeProps xh = Inr xp \<and>
                (x_Type xp \<noteq> xp_typ x \<and> e = ExchangeErr X_ErrTypeMismatch \<or>
                 x_Type xp = xp_typ x \<and> checkPolicy xp (q_Type qp) = Some e))))))"

definition type_refused :: "db \<Rightarrow> exchange_params \<Rightarrow> go_error \<Rightarrow> bool" where
  "type_refused d x e \<longleftrightarrow>
     e = ExchangeErr X_ErrNotFound \<or>
     (\<exists>h v. get_hash d (Exchange_Properties (xkey x)) = Inr h \<and> fmlookup h X_Type = Some v \<and>
        (case parse_int v of
           (_, Some err) \<Rightarrow> e = Wrapf ''parse exchange type'' (NumErr err)
         | (n, None) \<Rightarrow> n \<noteq> xp_typ x \<and> e = ExchangeErr X_ErrTypeMismatch))"

lemma Exchange_DecodeProps_err:
  "Exchange_DecodeProps h = Inl err \<Longrightarrow> \<not> errors_is err (ExchangeErr X_ErrNotFound)"
  by (auto simp: Exchange_DecodeProps_def decode_int_field_def split: if_splits sum.splits option.splits prod.splits)

context redis
begin

lemma Queue_Load_keeps [keeps_intros]: "keeps db (Queue_Load rd q)"
  unfolding Queue_Load_def by (intro keeps_intros)

lemma Exchange_Load_keeps [keeps_intros]: "keeps db (Exchange_Load rd x)"
  unfolding Exchange_Load_def by (intro keeps_intros)

lemma ValidateQueueBinding_keeps: "keeps db (ValidateQueueBinding rd x q)"
  unfolding ValidateQueueBinding_def
  by (intro keeps_intros Queue_Load_keeps Exchange_Load_keeps)

lemma ValidateType_keeps: "keeps db (ValidateType rd x b)"
  unfolding ValidateType_def
  by (intro keeps_intros) (auto intro!: keeps_intros split: sum.splits option.splits prod.splits)

lemma Queue_Load_outcome:
  assumes "Queue_Load rd q s = (r, s')"
  shows "case r of
      Inr qp \<Rightarrow> \<exists>qh. get_hash (db s) (Queue_Properties (qkey q)) = Inr qh \<and> DecodeProps qh = Inr qp
    | Inl e \<Rightarrow> redis_fault e \<or> (\<exists>qh. get_hash (db s) (Queue_Properties (qkey q)) = Inr qh \<and>
        (qh = fmempty \<and> e = Errorf ''queue properties not found'' \<or>
         (\<exists>err. DecodeProps qh = Inl err \<and> e = Wrapf ''load queue: decode'' err)))"
proof -
  obtain r1 s1 where h: "hgetall rd (Queue_Properties (qkey q)) s = (r1, s1)" by fastforce
  show ?thesis
  proof (cases r1)
    case (Inl e)
    then show ?thesis
      using assms h call_not_tx(3) [of "Queue_Properties (qkey q)" s e s1]
      by (auto simp: Queue_Load_def LoadHash_def and_then_map_err and_then_def map_err_def)
  next
    case (Inr qh)
    with h have "get_hash (db s) (Queue_Properties (qkey q)) = Inr qh" using hgetall_ok by blast
    then show ?thesis
      using assms h Inr
      by (auto simp: Queue_Load_def LoadHash_def and_then_def map_err_def lift_sum_def throw_def ret_def
          split: if_splits sum.splits)
  qed
qed

lemma Exchange_Load_outcome:
  assumes "Exchange_Load rd x s = (r, s')"
  shows "case r of
      Inr xp \<Rightarrow> \<exists>xh. get_hash (db s) (Exchange_Properties (xkey x)) = Inr xh \<and> Exchange_DecodeProps xh = Inr xp
    | Inl e \<Rightarrow> e = ExchangeErr X_ErrNotFound \<or> (\<exists>xh err. get_hash (db s) (Exchange_Properties (xkey x)) = Inr xh \<and>
        Exchange_DecodeProps xh = Inl err \<and> e = Wrapf ''load exchange'' err)"
proof -
  obtain r1 s1 where h: "LoadHash rd (Exchange_Properties (xkey x)) ''exchange properties'' s = (r1, s1)" by fastforce
  show ?thesis
  proof (cases r1)
    case (Inl e)
    then show ?thesis using assms h by (auto simp: Exchange_Load_def and_then_def map_err_def)
  next
    case (Inr xh)
    with h have "get_hash (db s) (Exchange_Properties (xkey x)) = Inr xh" using LoadHash_ok by blast
    then show ?thesis
      using assms h Inr
      by (auto simp: Exchange_Load_def and_then_def map_err_def lift_sum_def split: sum.splits)
  qed
qed

lemma ValidateQueueBinding_outcome:
  assumes "ValidateQueueBinding rd x q s = (r, s')"
  shows "case r of
      Inr _ \<Rightarrow> \<exists>qh qp. get_hash (db s) (Queue_Properties (qkey q)) = Inr qh \<and> DecodeProps qh = Inr qp
    | Inl e \<Rightarrow> redis_fault e \<or> binding_refused (db s) x q e"
proof -
  obtain r1 s1 where q: "Queue_Load rd q s = (r1, s1)" by fastforce
  note q_out = Queue_Load_outcome [OF q]
  show ?thesis
  proof (cases r1)
    case (Inl e)
    with assms q have "r = Inl (Wrapf ''validate binding: load queue'' e)"
      by (simp add: ValidateQueueBinding_def and_then_def map_err_def)
    with Inl q_out show ?thesis by (auto simp: binding_refused_def)
  next
    case (Inr qp)
    with q_out obtain qh where qh: "get_hash (db s) (Queue_Properties (qkey q)) = Inr qh" "DecodeProps qh = Inr qp"
      by auto
    obtain r2 s2 where l: "Exchange_Load rd x s1 = (r2, s2)" by fastforce
    have s1: "db s1 = db s" using keepsD [OF Queue_Load_keeps q] .
    note x_out = Exchange_Load_outcome [OF l, unfolded s1]
    show ?thesis
    proof (cases r2)
      case (Inr xp)
      with x_out obtain xh where xh: "get_hash (db s) (Exchange_Properties (xkey x)) = Inr xh" "Exchange_DecodeProps xh = Inr xp"
        by auto
      show ?thesis
      proof (cases r)
        case (Inl e)
        with assms q l Inr \<open>r1 = Inr qp\<close>
        have "x_Type xp \<noteq> xp_typ x \<and> e = ExchangeErr X_ErrTypeMismatch \<or>
            x_Type xp = xp_typ x \<and> checkPolicy xp (q_Type qp) = Some e"
          by (auto simp: ValidateQueueBinding_def and_then_def map_err_def try_io_def throw_def ret_def
              split: if_splits option.splits)
        with Inl qh xh show ?thesis by (auto simp: binding_refused_def)
      qed (use qh in auto)
    next
      case (Inl err)
      then show ?thesis
      proof (cases "errors_is err (ExchangeErr X_ErrNotFound)")
        case True
        with assms q l Inl \<open>r1 = Inr qp\<close> have "r = Inr None"
          by (simp add: ValidateQueueBinding_def and_then_def map_err_def try_io_def ret_def)
        with qh show ?thesis by auto
      next
        case False
        with assms q l Inl \<open>r1 = Inr qp\<close> have "r = Inl (Wrapf ''validate binding: load exchange'' err)"
          by (simp add: ValidateQueueBinding_def and_then_def map_err_def try_io_def throw_def)
        with False x_out Inl qh show ?thesis by (auto simp: binding_refused_def)
      qed
    qed
  qed
qed

lemma ValidateType_outcome:
  assumes "ValidateType rd x True s = (r, s')"
  shows "case r of
      Inr _ \<Rightarrow> \<exists>h v. get_hash (db s) (Exchange_Properties (xkey x)) = Inr h \<and> fmlookup h X_Type = Some v \<and>
        parse_int v = (xp_typ x, None)
    | Inl e \<Rightarrow> type_refused (db s) x e"
proof -
  obtain r1 s1 where f: "hget rd (Exchange_Properties (xkey x)) X_Type s = (r1, s1)" by fastforce
  show ?thesis
  proof (cases r1)
    case (Inl e)
    then show ?thesis
      using assms f by (auto simp: ValidateType_def LoadHashField_def and_then_def map_err_def try_io_def type_refused_def throw_def)
  next
    case (Inr v)
    then obtain h where h: "get_hash (db s) (Exchange_Properties (xkey x)) = Inr h" "fmlookup h X_Type = Some v"
      using f hget_ok by blast
    obtain n e where p: "parse_int v = (n, e)" by fastforce
    show ?thesis
      using assms f Inr p h
      by (cases e) (auto simp: ValidateType_def LoadHashField_def and_then_def map_err_def try_io_def type_refused_def
          throw_def ret_def split: if_splits)
  qed
qed

end

end
