(* ===== verification/Queue_Manager.thy ===== *)
theory Queue_Manager
  imports Purging Exchange_Store
begin

text \<open>
  The administrative side: \<open>validate.go\<close>, \<open>lookup.go\<close> and \<open>browse.go\<close> of \<open>internal/queue\<close>, and
  \<open>internal/namespace/manager.go\<close>. \<open>internal/queue/manager.go\<close> and \<open>internal/exchange/manager.go\<close> only pass their
  calls on to these and to the stores. \<open>browse_outcome\<close> states which page of a category a browse
  returns; the lemmas at the end are about the rate limit that \<open>CanEnqueue\<close> applies and about what
  the deletion of a namespace does.
\<close>

subsection \<open>Validation\<close>

definition Validator_Exists :: "'s redis_server \<Rightarrow> queue_params \<Rightarrow> ('s, go_error, unit) io" where
  "Validator_Exists rd p =
     and_then (map_err (Wrapf ''validate queue exists'') (Queue_Exists rd p)) (\<lambda>found.
     if \<not> found then throw (QueueErr Q_ErrNotFound) else ret ())"

text \<open>The common start of the checks below.\<close>

definition with_props :: "'s redis_server \<Rightarrow> queue_params \<Rightarrow> string \<Rightarrow> (queue_props \<Rightarrow> go_error option) \<Rightarrow> ('s, go_error, unit) io" where
  "with_props rd p what check =
     and_then (Validator_Exists rd p) (\<lambda>_.
     and_then (map_err (Wrapf what) (Queue_Load rd p)) (\<lambda>props.
     case check props of Some err \<Rightarrow> throw err | None \<Rightarrow> ret ()))"

definition IsOperational :: "'s redis_server \<Rightarrow> queue_params \<Rightarrow> ('s, go_error, unit) io" where
  "IsOperational rd p = with_props rd p ''validate queue operational'' (\<lambda>props.
     if \<not> State_IsOperational (q_OperationalState props) then Some (QueueErr Q_ErrNotOperational) else None)"

definition CanEnqueue :: "'s redis_server \<Rightarrow> queue_params \<Rightarrow> ('s, go_error, unit) io" where
  "CanEnqueue rd p = with_props rd p ''validate enqueue'' (\<lambda>props.
     if \<not> State_IsOperational (q_OperationalState props) then Some (QueueErr Q_ErrNotOperational)
     else
     case q_RateLimit props of
       None \<Rightarrow> None
     | Some rl \<Rightarrow> if rl_limit rl \<le> q_MessagesCount props then Some (QueueErr Q_ErrRateLimitExceeded) else None)"

definition CanDequeue :: "'s redis_server \<Rightarrow> queue_params \<Rightarrow> ('s, go_error, unit) io" where
  "CanDequeue rd p = with_props rd p ''validate dequeue'' (\<lambda>props.
     if q_OperationalState props \<noteq> StateActive then Some (QueueErr Q_ErrNotOperational) else None)"

definition CanBindToExchange :: "'s redis_server \<Rightarrow> queue_params \<Rightarrow> ('s, go_error, unit) io" where
  "CanBindToExchange rd p = Validator_Exists rd p"

definition CanDelete :: "'s redis_server \<Rightarrow> queue_params \<Rightarrow> ('s, go_error, unit) io" where
  "CanDelete rd p = with_props rd p ''validate queue deletion'' (\<lambda>props.
     if 0 < q_ProcessingMessagesCount props then Some (QueueErr Q_ErrHasProcessingMessages)
     else if 0 < q_PendingMessagesCount props then Some (QueueErr Q_ErrHasPendingMessages)
     else None)"

definition CanPurge :: "'s redis_server \<Rightarrow> queue_params \<Rightarrow> ('s, go_error, unit) io" where
  "CanPurge rd p = Validator_Exists rd p"

definition DeliveryModelMatches :: "'s redis_server \<Rightarrow> queue_params \<Rightarrow> DeliveryModel \<Rightarrow> ('s, go_error, unit) io" where
  "DeliveryModelMatches rd p expected = with_props rd p ''validate delivery model'' (\<lambda>props.
     if q_DeliveryModel props \<noteq> expected then Some (QueueErr Q_ErrDeliveryModelMismatch) else None)"

subsection \<open>Lookup\<close>

fun decodeQueueParams :: "string list \<Rightarrow> queue_params list" where
  "decodeQueueParams [] = []"
| "decodeQueueParams (member # members) =
     (case DecodeParams member of
        Inl err \<Rightarrow> decodeQueueParams members
      | Inr p \<Rightarrow> p # decodeQueueParams members)"

definition QueueLookup_All :: "'s redis_server \<Rightarrow> ('s, go_error, queue_params list) io" where
  "QueueLookup_All rd =
     and_then (LoadSetMembers rd System_AllQueues ''all queues'') (\<lambda>members. ret (decodeQueueParams members))"

definition QueueLookup_ByNamespace :: "'s redis_server \<Rightarrow> string \<Rightarrow> ('s, go_error, queue_params list) io" where
  "QueueLookup_ByNamespace rd namespace =
     and_then (LoadSetMembers rd (Namespace_Queues namespace) (''queues in namespace '' @ namespace)) (\<lambda>members.
     ret (decodeQueueParams members))"

definition members_of_all :: "'s redis_server \<Rightarrow> (string \<Rightarrow> string) \<Rightarrow> string \<Rightarrow> string list \<Rightarrow> ('s, go_error, string list) io" where
  "members_of_all rd key entity names =
     and_then (for_io (\<lambda>n. LoadSetMembers rd (key n) (entity @ n)) names) (\<lambda>ms. ret (concat ms))"

text \<open>The loop over \<open>allMembers\<close> keeps the first of equal entries.\<close>

definition first_seen :: "string list \<Rightarrow> string list" where
  "first_seen ms = rev (remdups (rev ms))"

definition QueueLookup_ByExchange :: "'s redis_server \<Rightarrow> string \<Rightarrow> string \<Rightarrow> int \<Rightarrow> ('s, go_error, queue_params list) io" where
  "QueueLookup_ByExchange rd namespace exchangeName exchangeType =
     (let exKey = \<lparr>xk_Namespace = namespace, xk_Name = exchangeName\<rparr>; full = namespace @ ''/'' @ exchangeName in
      and_then
        (if exchangeType = TypeDirect then
           and_then (LoadSetMembers rd (Exchange_RoutingKeys exKey) (''routing keys for exchange '' @ full)) (\<lambda>routingKeys.
           members_of_all rd (Exchange_RoutingKeyQueues exKey) ''queues for routing key '' routingKeys)
         else if exchangeType = TypeTopic then
           and_then (LoadSetMembers rd (Exchange_BindingPatterns exKey) (''patterns for exchange '' @ full)) (\<lambda>patterns.
           members_of_all rd (Exchange_PatternQueues exKey) ''queues for pattern '' patterns)
         else if exchangeType = TypeFanout then
           LoadSetMembers rd (Exchange_FanoutQueues exKey) (''queues for fanout exchange '' @ full)
         else ret [])
        (\<lambda>allMembers. ret (decodeQueueParams (first_seen allMembers))))"

definition QueueLookup_AllNamespaces :: "'s redis_server \<Rightarrow> ('s, go_error, string list) io" where
  "QueueLookup_AllNamespaces rd = LoadSetMembers rd System_AllNamespaces ''all namespaces''"

subsection \<open>Browsing\<close>

record browse_params =
  bp_Filter :: browse_filter
  bp_Offset :: int
  bp_Count :: int

record browse_result =
  br_IDs :: "string list"
  br_Total :: int
  br_Offset :: int
  br_Count :: int
  br_HasMore :: bool

text \<open>\<open>browseList\<close> and \<open>browseSortedSet\<close> differ in the two commands and in the text of the errors.\<close>

definition browse_page :: "string \<Rightarrow> ('s, redis_error, int) io \<Rightarrow> (int \<Rightarrow> int \<Rightarrow> ('s, redis_error, string list) io) \<Rightarrow> browse_params
    \<Rightarrow> ('s, go_error, browse_result) io" where
  "browse_page what cnt rng params =
     and_then (map_err (\<lambda>e. Wrapf what (RedisErr e)) cnt) (\<lambda>total.
     let stop = wrap64 (bp_Offset params + bp_Count params - 1) in
     and_then (map_err (\<lambda>e. Wrapf what (RedisErr e)) (rng (bp_Offset params) stop)) (\<lambda>ids.
     ret \<lparr>br_IDs = ids, br_Total = total, br_Offset = bp_Offset params, br_Count = int (length ids),
       br_HasMore = wrap64 (bp_Offset params + int (length ids)) < total\<rparr>))"

definition browseList :: "'s redis_server \<Rightarrow> string \<Rightarrow> browse_params \<Rightarrow> ('s, go_error, browse_result) io" where
  "browseList rd key = browse_page ''browse list'' (and_then (exec rd (LLEN key)) (expect_reply int_of)) (lrange rd key)"

definition browseSortedSet :: "'s redis_server \<Rightarrow> string \<Rightarrow> browse_params \<Rightarrow> ('s, go_error, browse_result) io" where
  "browseSortedSet rd key = browse_page ''browse sorted set'' (and_then (exec rd (ZCARD key)) (expect_reply int_of)) (zrange rd key)"

definition BrowseMessages :: "'s redis_server \<Rightarrow> message_audit \<Rightarrow> queue_params \<Rightarrow> browse_params option \<Rightarrow> ('s, go_error, browse_result) io" where
  "BrowseMessages rd cfg queueParams params0 =
     (let params1 = (case params0 of None \<Rightarrow> \<lparr>bp_Filter = BrowsePublished, bp_Offset = 0, bp_Count = 0\<rparr> | Some p \<Rightarrow> p);
          params = (if bp_Count params1 \<le> 0 then params1\<lparr>bp_Count := 100\<rparr> else params1);
          flt = bp_Filter params in
      and_then (map_err (Wrapf ''browse: load queue'') (Queue_Load rd queueParams)) (\<lambda>props.
      let q = qkey queueParams in
      if flt = BrowsePublished then browseList rd (Queue_Published q) params
      else if flt = BrowsePending then
        (if q_Type props = TypePriority then browseSortedSet rd (Queue_Priority q) params else browseList rd (Queue_Pending q) params)
      else if flt = BrowseScheduled then browseSortedSet rd (Queue_Scheduled q) params
      else if flt = BrowseAcknowledged then
        (if \<not> am_Enabled (ma_AcknowledgedMessages cfg) then throw (Errorf ''browse: acknowledged messages audit is disabled'')
         else browseList rd (Queue_Acknowledged q) params)
      else if flt = BrowseDeadLettered then
        (if \<not> am_Enabled (ma_DeadLetteredMessages cfg) then throw (Errorf ''browse: dead-lettered messages audit is disabled'')
         else browseList rd (Queue_DeadLetter q) params)
      else throw (Errorf (''browse: unknown filter: '' @ itoa flt))))"

subsection \<open>Namespaces\<close>

definition validate_namespace :: "(string \<Rightarrow> string) \<Rightarrow> string \<Rightarrow> go_error + string" where
  "validate_namespace ulower name =
     (if name = [] then Inl (NamespaceErr N_ErrNameRequired)
      else
      case ValidateKey ulower name of
        Inl err \<Rightarrow> Inl (Wrapf2 (NamespaceErr N_ErrInvalidName) err)
      | Inr validName \<Rightarrow> Inr validName)"

definition Namespace_Exists :: "'s redis_server \<Rightarrow> (string \<Rightarrow> string) \<Rightarrow> string \<Rightarrow> ('s, go_error, bool) io" where
  "Namespace_Exists rd ulower name =
     and_then (lift_sum (validate_namespace ulower name)) (\<lambda>validName.
     map_err (Wrapf ''check namespace exists'') (SetContains rd System_AllNamespaces validName ''namespace''))"

text \<open>The loops of \<open>Delete\<close>: an item that is gone already is skipped.\<close>

primrec delete_each :: "('p \<Rightarrow> ('s, go_error, unit) io) \<Rightarrow> ('p \<Rightarrow> string) \<Rightarrow> 'p list \<Rightarrow> ('s, go_error, unit) io" where
  "delete_each del what [] = ret ()"
| "delete_each del what (p # ps) =
     and_then (try_io (del p)) (\<lambda>r.
     case r of
       Inr _ \<Rightarrow> delete_each del what ps
     | Inl err \<Rightarrow>
         if errors_is err (NamespaceErr N_ErrNotFound) then delete_each del what ps
         else throw (Wrapf (what p) err))"

definition Namespace_Delete :: "'s smq_env \<Rightarrow> (string \<Rightarrow> string) \<Rightarrow> string \<Rightarrow> ('s, go_error, unit) io" where
  "Namespace_Delete env ulower name =
     (let rd = env_redis env in
      and_then (lift_sum (validate_namespace ulower name)) (\<lambda>validName.
      and_then (Namespace_Exists rd ulower validName) (\<lambda>found.
      if \<not> found then throw (NamespaceErr N_ErrNotFound)
      else
      and_then (map_err (Wrapf ''get namespace queues'') (QueueLookup_ByNamespace rd validName)) (\<lambda>queues.
      and_then (delete_each (Queue_Delete env) (\<lambda>q. ''delete queue '' @ qp_name q) queues) (\<lambda>_.
      and_then (map_err (Wrapf ''get namespace exchanges'') (ExchangeLookup_ByNamespace rd validName)) (\<lambda>exchanges.
      and_then (delete_each (Exchange_Delete rd) (\<lambda>x. ''delete exchange '' @ xp_name x) exchanges) (\<lambda>_.
      and_then (map_err (\<lambda>e. Wrapf ''remove namespace'' (RedisErr e)) (exec rd (SREM System_AllNamespaces [validName]))) (\<lambda>_.
      ret ()))))))))"

definition Namespace_ListQueues :: "'s redis_server \<Rightarrow> (string \<Rightarrow> string) \<Rightarrow> string \<Rightarrow> ('s, go_error, queue_params list) io" where
  "Namespace_ListQueues rd ulower name = and_then (lift_sum (validate_namespace ulower name)) (QueueLookup_ByNamespace rd)"

definition Namespace_ListExchanges :: "'s redis_server \<Rightarrow> (string \<Rightarrow> string) \<Rightarrow> string \<Rightarrow> ('s, go_error, exchange_params list) io" where
  "Namespace_ListExchanges rd ulower name = and_then (lift_sum (validate_namespace ulower name)) (ExchangeLookup_ByNamespace rd)"

subsection \<open>Pages\<close>

text \<open>The ids of a category in the order in which Redis keeps them, and the key that a browse looks at.\<close>

definition listing :: "db \<Rightarrow> string \<Rightarrow> string list" where
  "listing d k = (case d k of Some (RList xs) \<Rightarrow> xs | Some (RZSet z) \<Rightarrow> map snd (zset_list z) | _ \<Rightarrow> [])"

definition browse_key :: "queue_params \<Rightarrow> queue_type \<Rightarrow> browse_filter \<Rightarrow> string" where
  "browse_key p qt flt =
     (if flt = BrowsePending \<and> qt = TypePriority then Queue_Priority (qkey p)
      else if flt = BrowsePublished then Queue_Published (qkey p)
      else resolveCategoryKey flt (qkey p))"

definition page_of :: "string list \<Rightarrow> int \<Rightarrow> int \<Rightarrow> browse_result \<Rightarrow> bool" where
  "page_of xs off n r \<longleftrightarrow> br_IDs r = take (nat n) (drop (nat off) xs) \<and> br_Total r = int (length xs) \<and> br_Offset r = off \<and>
     br_Count r = int (length (br_IDs r)) \<and> (br_HasMore r \<longleftrightarrow> take (nat off) xs @ br_IDs r \<noteq> xs)"

lemma page_more:
  assumes "0 \<le> off" "0 < n"
  shows "off + int (length (take (nat n) (drop (nat off) xs))) < int (length xs) \<longleftrightarrow> take (nat off) xs @ take (nat n) (drop (nat off) xs) \<noteq> xs"
proof -
  have eq: "take (nat off) xs @ take (nat n) (drop (nat off) xs) = take (nat off + nat n) xs" by (simp add: take_add)
  have "take k xs = xs \<longleftrightarrow> length xs \<le> k" for k by (metis length_take min.absorb_iff2 nat_le_linear take_all_iff)
  then show ?thesis unfolding eq using assms by auto
qed

lemma list_range_page: "0 \<le> off \<Longrightarrow> 0 < n \<Longrightarrow> list_range off (off + n - 1) xs = take (nat n) (drop (nat off) xs)"
  by (simp add: list_range_def)

lemma length_zset_list: "length (zset_list z) = fcard (fmdom z)"
proof -
  have "inj_on (\<lambda>m. (the (fmlookup z m), m)) (fset (fmdom z))" by (auto simp: inj_on_def)
  then show ?thesis by (simp add: zset_list_def sorted_list_of_fset.rep_eq fcard.rep_eq card_image)
qed

lemma get_listing:
  "get_list d k = Inr xs \<Longrightarrow> listing d k = xs" "get_zset d k = Inr z \<Longrightarrow> listing d k = map snd (zset_list z)"
  by (auto simp: get_list_def get_zset_def listing_def zset_list_def sorted_list_of_fset.rep_eq split: option.splits rval.splits)

context redis
begin

lemma browse_page_ok:
  assumes run: "browse_page what cnt rng ps s = (Inr r, s')"
    and cnt: "\<And>s m s1. cnt s = (Inr m, s1) \<Longrightarrow> db s1 = db s \<and> m = int (length (view (db s)))"
    and rng: "\<And>s a b ids s1. rng a b s = (Inr ids, s1) \<Longrightarrow> db s1 = db s \<and> ids = list_range a b (view (db s))"
    and ps: "0 \<le> bp_Offset ps" "0 < bp_Count ps" "bp_Offset ps + bp_Count ps \<le> int64_max"
  shows "db s' = db s \<and> page_of (view (db s)) (bp_Offset ps) (bp_Count ps) r"
proof -
  let ?xs = "view (db s)" and ?off = "bp_Offset ps" and ?n = "bp_Count ps"
  have stop: "wrap64 (?off + ?n - 1) = ?off + ?n - 1" using ps by (intro wrap64_id) (simp add: in_int64_def)
  obtain total ids s1 where c: "cnt s = (Inr total, s1)" and r: "rng ?off (?off + ?n - 1) s1 = (Inr ids, s')"
    and r': "r = \<lparr>br_IDs = ids, br_Total = total, br_Offset = ?off, br_Count = int (length ids), br_HasMore = wrap64 (?off + int (length ids)) < total\<rparr>"
    using run by (auto simp: browse_page_def Let_def io_ok stop)
  have ids: "ids = take (nat ?n) (drop (nat ?off) ?xs)" and eq: "db s' = db s" "total = int (length ?xs)"
    using cnt [OF c] rng [OF r] list_range_page [OF ps(1,2)] by simp_all
  have "int (length ids) \<le> ?n" using ps(2) by (simp add: ids)
  then have "wrap64 (?off + int (length ids)) = ?off + int (length ids)" using ps by (intro wrap64_id) (simp add: in_int64_def)
  then show ?thesis using eq ids page_more [OF ps(1,2)] by (simp add: r' page_of_def)
qed

lemma browse_calls:
  "and_then (exec rd (LLEN k)) (expect_reply int_of) s = (Inr m, s') \<Longrightarrow> db s' = db s \<and> m = int (length (listing (db s) k))"
  "lrange rd k a b s = (Inr ids, s') \<Longrightarrow> db s' = db s \<and> ids = list_range a b (listing (db s) k)"
  "and_then (exec rd (ZCARD k)) (expect_reply int_of) s = (Inr m, s') \<Longrightarrow> db s' = db s \<and> m = int (length (listing (db s) k))"
  "zrange rd k a b s = (Inr ids, s') \<Longrightarrow> db s' = db s \<and> ids = list_range a b (listing (db s) k)"
  unfolding lrange_def zrange_def
  by (auto dest!: exec_ok simp: and_then_ok redis_apply.simps look_Inr expect_reply_ok length_zset_list get_listing)

lemma browse_lists_ok:
  assumes "0 \<le> bp_Offset ps" "0 < bp_Count ps" "bp_Offset ps + bp_Count ps \<le> int64_max"
  shows "browseList rd k ps s = (Inr r, s') \<Longrightarrow> db s' = db s \<and> page_of (listing (db s) k) (bp_Offset ps) (bp_Count ps) r"
    "browseSortedSet rd k ps s = (Inr r, s') \<Longrightarrow> db s' = db s \<and> page_of (listing (db s) k) (bp_Offset ps) (bp_Count ps) r"
proof -
  show "browseList rd k ps s = (Inr r, s') \<Longrightarrow> db s' = db s \<and> page_of (listing (db s) k) (bp_Offset ps) (bp_Count ps) r"
    unfolding browseList_def by (erule browse_page_ok) (use browse_calls assms in blast)+
  show "browseSortedSet rd k ps s = (Inr r, s') \<Longrightarrow> db s' = db s \<and> page_of (listing (db s) k) (bp_Offset ps) (bp_Count ps) r"
    unfolding browseSortedSet_def by (erule browse_page_ok) (use browse_calls assms in blast)+
qed

end

text \<open>C39: A browse that succeeds returns the page of the category that its offset and count name, in the order in
  which Redis keeps the ids, with the right total, and changes nothing. It announces more pages exactly
  as long as what precedes the page and the page itself are not all ids: a client that follows the
  pages until the last one has seen every id once.\<close>

theorem browse_outcome:
  assumes "redis rd db lua" "BrowseMessages rd cfg p (Some ps) s = (Inr r, s')"
    "0 \<le> bp_Offset ps" "n = (if bp_Count ps \<le> 0 then 100 else bp_Count ps)" "bp_Offset ps + n \<le> int64_max"
  shows "db s' = db s \<and> (\<exists>h props. get_hash (db s) (Queue_Properties (qkey p)) = Inr h \<and> DecodeProps h = Inr props \<and>
    page_of (listing (db s) (browse_key p (q_Type props) (bp_Filter ps))) (bp_Offset ps) n r)"
proof -
  let ?ps = "if bp_Count ps \<le> 0 then ps\<lparr>bp_Count := 100\<rparr> else ps"
  have ps: "0 \<le> bp_Offset ?ps" "0 < bp_Count ?ps" "bp_Offset ?ps + bp_Count ?ps \<le> int64_max" "bp_Count ?ps = n"
    "bp_Offset ?ps = bp_Offset ps" "bp_Filter ?ps = bp_Filter ps"
    using assms(3-5) by auto
  obtain props s1 where ld: "Queue_Load rd p s = (Inr props, s1)"
    and br: "browseList rd (browse_key p (q_Type props) (bp_Filter ps)) ?ps s1 = (Inr r, s') \<or>
      browseSortedSet rd (browse_key p (q_Type props) (bp_Filter ps)) ?ps s1 = (Inr r, s')"
    using assms(2) by (auto simp: BrowseMessages_def Let_def io_ok browse_key_def resolveCategoryKey_def enum_defs split: if_splits)
  show ?thesis
    using redis.Queue_Load_hash [OF assms(1) ld] br redis.browse_lists_ok [OF assms(1) ps(1-3), of _ s1 r s'] ps(4,5) by metis
qed

definition browse_sample :: db where
  "browse_sample = put_list (Queue_Published (qkey sample_queue)) [''m1'', ''m2'', ''m3''] created_sample"

theorem browse_outcome_witness:
  "\<exists>r. BrowseMessages (mem_redis no_scripts) sample_audit sample_queue (Some \<lparr>bp_Filter = BrowsePublished, bp_Offset = 1, bp_Count = 1\<rparr>)
       browse_sample = (Inr r, browse_sample) \<and> br_IDs r = [''m2''] \<and> br_Total r = 3 \<and> br_HasMore r"
proof -
  let ?ps = "\<lparr>bp_Filter = BrowsePublished, bp_Offset = 1, bp_Count = 1\<rparr>" and ?k = "Queue_Published (qkey sample_queue)"
  let ?rd = "mem_redis no_scripts"
  have hash: "get_hash browse_sample (Queue_Properties (qkey sample_queue)) = Inr (created_hash 7 TypeFIFO DeliveryPointToPoint None fmempty)"
  proof -
    have "Queue_Properties (qkey sample_queue) \<noteq> ?k" by (simp add: key_defs Key_eq_iff qkey_def)
    then show ?thesis by (simp add: browse_sample_def created_sample_def created_db_views(3) queue_hash_def empty_db_def)
  qed
  have "Queue_Load ?rd sample_queue browse_sample = (Inr (created_props 7 TypeFIFO DeliveryPointToPoint None), browse_sample)"
    using mem_reads(4) [OF hash] DecodeProps_created [of TypeFIFO DeliveryPointToPoint 7 None fmempty]
    by (simp add: Queue_Load_def and_then_def map_err_def created_hash_def hset_all_def enum_defs in_int64_def)
  moreover have xs: "get_list browse_sample ?k = Inr [''m1'', ''m2'', ''m3'']" by (simp add: browse_sample_def)
  have "browseList ?rd ?k ?ps browse_sample =
      (Inr \<lparr>br_IDs = [''m2''], br_Total = 3, br_Offset = 1, br_Count = 1, br_HasMore = True\<rparr>, browse_sample)"
    using mem_reads(1) [OF xs] xs by (simp add: browseList_def browse_page_def Let_def and_then_def map_err_def mem_redis_def
        redis_apply.simps list_range_def wrap64_def)
  ultimately obtain r where run: "BrowseMessages ?rd sample_audit sample_queue (Some ?ps) browse_sample = (Inr r, browse_sample)"
    by (simp add: BrowseMessages_def Let_def and_then_def map_err_def enum_defs)
  have "listing browse_sample ?k = [''m1'', ''m2'', ''m3'']" by (simp add: browse_sample_def listing_def)
  with browse_outcome [OF mem.redis_axioms run] run show ?thesis
    by (auto simp: browse_key_def enum_defs page_of_def)
qed

subsection \<open>The rate limit of \<open>CanEnqueue\<close>\<close>

text \<open>\<open>CanEnqueue\<close> compares the limit, a number of messages per interval, with the number of all stored
  messages: a queue that holds as many messages refuses more of them, however slowly they come.\<close>

lemma can_enqueue_counts_stored:
  assumes "Validator_Exists rd p s = (Inr (), s1)" "Queue_Load rd p s1 = (Inr props, s2)"
    "State_IsOperational (q_OperationalState props)" "q_RateLimit props = Some rl" "rl_limit rl \<le> q_MessagesCount props"
  shows "CanEnqueue rd p s = (Inl (QueueErr Q_ErrRateLimitExceeded), s2)"
  using assms by (simp add: CanEnqueue_def with_props_def and_then_def map_err_def)

subsection \<open>Deleting a namespace\<close>

text \<open>The loops mean to skip what is gone already, but compare with the error of the namespace package, which the
  stores of queues and exchanges never return.\<close>

lemma vanished_item_aborts:
  assumes "del p s = (Inl (QueueErr Q_ErrNotFound), s') \<or> del p s = (Inl (ExchangeErr X_ErrNotFound), s')"
  shows "\<exists>e. delete_each del what (p # ps) s = (Inl (Wrapf (what p) e), s')"
  using assms by (auto simp: try_then)

end
