(* ===== verification/Background_Tasks.thy ===== *)
theory Background_Tasks
  imports Consumer_Groups
begin

text \<open>
  The sweeps that a consumer repeats in the background: \<open>ImmediateRequeuer.requeue\<close>,
  \<open>DelayedRequeuer.requeueDue\<close> and \<open>ScheduledPublisher.publishDue\<close> of \<open>internal/consumer\<close>. Each reads ids,
  loads the messages it can decode, and runs one script. The arguments of the scripts are built in
  \<open>Requeuing\<close> and \<open>Scheduling\<close>. The lemmas say what a sweep leaves behind whatever Redis answers.
\<close>

definition zrangebyscore :: "'s redis_server \<Rightarrow> string \<Rightarrow> int \<Rightarrow> int \<Rightarrow> nat \<Rightarrow> nat \<Rightarrow> ('s, redis_error, string list) io" where
  "zrangebyscore rd k lo hi off n = and_then (exec rd (ZRANGEBYSCORE k lo hi off n)) (expect_reply strings_of)"

text \<open>The loop that loads messages; one that cannot be read or decoded is left out.\<close>

primrec load_each :: "'s redis_server \<Rightarrow> string \<Rightarrow> decode_ctx \<Rightarrow> string list \<Rightarrow> ('s, go_error, envelope list) io" where
  "load_each rd entity dc [] = ret []"
| "load_each rd entity dc (i # ids) =
     and_then (try_io (LoadHash rd (System_Message i) entity)) (\<lambda>r.
     case r of
       Inl (err :: go_error) \<Rightarrow> load_each rd entity dc ids
     | Inr hash \<Rightarrow>
         (case decode_at dc i hash of
            Inl err \<Rightarrow> load_each rd entity dc ids
          | Inr env \<Rightarrow> and_then (load_each rd entity dc ids) (\<lambda>envs. ret (env # envs))))"

subsection \<open>Immediate requeuer\<close>

text \<open>The reply of the script is only logged.\<close>

definition requeueMessages :: "'s redis_server \<Rightarrow> int \<Rightarrow> queue_params \<Rightarrow> envelope list \<Rightarrow> ('s, go_error, unit) io" where
  "requeueMessages rd timestamp q messages =
     (let us = map (requeue_entry_args timestamp) messages in
      and_then (try_io (Eval rd RequeueImmediate (requeue_immediate_keys (qkey q) us) (requeue_immediate_args timestamp us)))
        (\<lambda>(_ :: go_error + reply). ret ()))"

definition requeue :: "'s redis_server \<Rightarrow> decode_ctx \<Rightarrow> int \<Rightarrow> queue_params \<Rightarrow> ('s, go_error, unit) io" where
  "requeue rd dc timestamp q =
     and_then (try_io (lrange rd (Queue_Requeued (qkey q)) 0 99)) (\<lambda>r.
     case r of
       Inl (err :: redis_error) \<Rightarrow> ret ()
     | Inr ids \<Rightarrow>
         if ids = [] then ret ()
         else
         and_then (load_each rd ''requeued message'' dc ids) (\<lambda>messages.
         if messages = [] then ret () else requeueMessages rd timestamp q messages))"

subsection \<open>Delayed requeuer\<close>

definition enqueueDelayed :: "'s redis_server \<Rightarrow> int \<Rightarrow> queue_params \<Rightarrow> envelope list \<Rightarrow> ('s, go_error, unit) io" where
  "enqueueDelayed rd timestamp q messages =
     (let us = map (requeue_entry_args timestamp) messages in
      and_then (try_io (Eval rd RequeueDelayed (requeue_delayed_keys (qkey q) us) (requeue_delayed_args timestamp us)))
        (\<lambda>(_ :: go_error + reply). ret ()))"

definition requeueDue :: "'s redis_server \<Rightarrow> decode_ctx \<Rightarrow> int \<Rightarrow> int \<Rightarrow> queue_params \<Rightarrow> ('s, go_error, unit) io" where
  "requeueDue rd dc now timestamp q =
     and_then (try_io (zrangebyscore rd (Queue_Delayed (qkey q)) 0 now 0 99)) (\<lambda>r.
     case r of
       Inl (err :: redis_error) \<Rightarrow> ret ()
     | Inr ids \<Rightarrow>
         if ids = [] then ret ()
         else
         and_then (load_each rd ''delayed message'' dc ids) (\<lambda>messages.
         if messages = [] then ret () else enqueueDelayed rd timestamp q messages))"

subsection \<open>Scheduled publisher\<close>

text \<open>The clock readings and the id of a copy are given per message; \<open>order\<close> is the order in which Go walks
  over the map of groups.\<close>

definition enqueueScheduled :: "'s redis_server \<Rightarrow> cron_lib \<Rightarrow> consume_options \<Rightarrow> (envelope \<Rightarrow> tick) \<Rightarrow> queue_params
    \<Rightarrow> envelope list \<Rightarrow> string \<Rightarrow> ('s, go_error, unit) io" where
  "enqueueScheduled rd gx defaults ticks q messages consumerGroupID =
     (let us = map (\<lambda>msg. sched_entry_args gx defaults (msg, ticks msg)) messages in
      and_then (try_io (Eval rd PublishScheduled (publish_scheduled_keys (qkey q) consumerGroupID us)
        (publish_scheduled_args consumerGroupID us))) (\<lambda>(_ :: go_error + reply). ret ()))"

definition publishDue :: "'s redis_server \<Rightarrow> decode_ctx \<Rightarrow> cron_lib \<Rightarrow> (envelope \<Rightarrow> tick) \<Rightarrow> (string list \<Rightarrow> string list) \<Rightarrow> int
    \<Rightarrow> queue_params \<Rightarrow> ('s, go_error, unit) io" where
  "publishDue rd dc gx ticks order now q =
     and_then (try_io (zrangebyscore rd (Queue_Scheduled (qkey q)) 0 now 0 99)) (\<lambda>r.
     case r of
       Inl (err :: redis_error) \<Rightarrow> ret ()
     | Inr ids \<Rightarrow>
         if ids = [] then ret ()
         else
         and_then (load_each rd ''scheduled message'' dc ids) (\<lambda>messages.
         if messages = [] then ret ()
         else
         and_then (for_io (\<lambda>cgID. enqueueScheduled rd gx (dc_defaults dc) ticks q
             (filter (\<lambda>msg. e_consumerGroupID msg = cgID) messages) cgID)
           (order (remdups (map e_consumerGroupID messages)))) (\<lambda>_. ret ())))"

subsection \<open>Loading\<close>

context redis
begin

lemma zrangebyscore_keeps [keeps_intros]: "keeps db (zrangebyscore rd k lo hi off n)"
  unfolding zrangebyscore_def by (intro keeps_intros exec_reads) simp

lemma zrangebyscore_ok:
  "zrangebyscore rd k lo hi off n s = (Inr xs, s') \<Longrightarrow>
     \<exists>z. get_zset (db s) k = Inr z \<and> xs = take n (drop off (zset_between lo hi z))"
  unfolding zrangebyscore_def and_then_ok
  by (auto dest!: exec_ok simp: redis_apply.simps look_Inr expect_reply_ok)

end

lemma load_each_eq: "load_each rd entity dc ids = loadMessages rd dc ids"
proof (induction ids)
  case (Cons i ids)
  show ?case
  proof (rule ext)
    fix s
    obtain r1 s1 where "hgetall rd (System_Message i) s = (r1, s1)" by fastforce
    then show "load_each rd entity dc (i # ids) s = loadMessages rd dc (i # ids) s"
      unfolding load_each.simps loadMessages.simps Cons.IH
      by (cases r1) (simp_all add: and_then_def try_io_def LoadHash_def map_err_def)
  qed
qed simp

subsection \<open>What a sweep over delayed messages moves\<close>

lemma undelay_other:
  assumes "m \<noteq> ra_id u"
  shows "fmlookup (mq_dly (do_undelay now u A)) m = fmlookup (mq_dly A) m" "msg_status_of (do_undelay now u A) m = msg_status_of A m"
  using assms by (auto simp: do_undelay_def retry_move_def put_retry_def drop_dly_def msg_status_of_def)

lemma undelay_moved:
  assumes "ra_id u |\<in>| fmdom (mq_dly A)"
  shows "fmlookup (mq_dly (do_undelay now u A)) (ra_id u) = None"
    "msg_status_of (do_undelay now u A) (ra_id u) \<in> {Some (itoa StatusPending), Some (itoa StatusDeadLettered)}"
  using assms by (auto simp: do_undelay_def retry_move_def put_retry_def drop_dly_def msg_status_of_def hset_all_def schema_defs)

lemma fold_undelay_other:
  "m \<notin> ra_id ` set us \<Longrightarrow> fmlookup (mq_dly (fold (do_undelay now) us A)) m = fmlookup (mq_dly A) m"
  "m \<notin> ra_id ` set us \<Longrightarrow> msg_status_of (fold (do_undelay now) us A) m = msg_status_of A m"
  by (induction us arbitrary: A) (simp_all add: undelay_other)

lemma fold_undelay_moved:
  assumes "m \<in> ra_id ` set us" "m |\<in>| fmdom (mq_dly A)" "distinct (map ra_id us)"
  shows "fmlookup (mq_dly (fold (do_undelay now) us A)) m = None \<and>
    msg_status_of (fold (do_undelay now) us A) m \<in> {Some (itoa StatusPending), Some (itoa StatusDeadLettered)}"
  using assms
proof (induction us arbitrary: A)
  case (Cons u us)
  show ?case
  proof (cases "m = ra_id u")
    case True
    then have "m \<notin> ra_id ` set us" using Cons.prems(3) by auto
    with undelay_moved [of u A now] True Cons.prems(2) fold_undelay_other [of m us now "do_undelay now u A"] show ?thesis by simp
  next
    case False
    have "m |\<in>| fmdom (mq_dly (do_undelay now u A))"
      using Cons.prems(2) undelay_other(1) [OF False] by (simp add: fmlookup_dom_iff)
    with Cons.IH [of "do_undelay now u A"] Cons.prems False show ?thesis by auto
  qed
qed simp

lemma zset_between_due: "m \<in> set (zset_between lo hi z) \<Longrightarrow> \<exists>due. fmlookup z m = Some due \<and> due \<le> hi"
  by (auto simp: zset_between_def zset_list_def fmlookup_dom_iff)

lemma zset_between_distinct: "distinct (zset_between lo hi z)"
proof -
  have "inj_on snd (set (zset_list z))" by (auto simp: zset_list_def inj_on_def)
  moreover have "distinct (zset_list z)" by (simp add: zset_list_def sorted_list_of_fset.rep_eq)
  ultimately show ?thesis unfolding zset_between_def by (auto simp: distinct_map intro: inj_on_subset)
qed

context smq_queues
begin

lemma requeueDue_run:
  assumes run: "requeueDue (env_redis env) dc now ts p s = (r, s')" and reach: "reach (qkey p) (db s) A"
    and room: "int (length (mq_pub A)) + 1 < 2 ^ 63"
    and ready: "\<forall>m. m |\<in>| fmdom (mq_dly A) \<longrightarrow> plain_id m \<and> fmlookup (mq_msg A m) MF_ID = Some m \<and>
      (\<forall>e. decode_at dc m (mq_msg A m) = Inr e \<longrightarrow> priority_ok A (e_producibleMessage e))"
  shows "reach (qkey p) (db s') A \<or>
    (\<exists>msgs. (\<forall>e \<in> set msgs. \<exists>due. fmlookup (mq_dly A) (Envelope_ID e) = Some due \<and> due \<le> now) \<and>
      distinct (map Envelope_ID msgs) \<and> reach (qkey p) (db s') (run_op (RequeueDue ts msgs) A))"
proof -
  let ?rd = "env_redis env"
  have view: "queue_view (qkey p) (db s) A" using reach_view [OF reach] by simp
  obtain r1 s1 where zr: "zrangebyscore ?rd (Queue_Delayed (qkey p)) 0 now 0 99 s = (r1, s1)" by fastforce
  have s1: "db s1 = db s" using keepsD [OF zrangebyscore_keeps zr] .
  show ?thesis
  proof (cases "\<exists>ids. r1 = Inr ids \<and> ids \<noteq> []")
    case False
    then have "s' = s1" using run zr by (cases r1) (auto simp: requeueDue_def and_then_def try_io_def)
    with s1 reach show ?thesis by simp
  next
    case True
    then obtain ids where ids: "r1 = Inr ids" "ids \<noteq> []" by blast
    then have eq: "ids = take 99 (zset_between 0 now (mq_dly A))"
      using zrangebyscore_ok [OF zr [unfolded ids(1)]] queue_view_gets(5) [OF view] by auto
    then have due: "\<exists>due. fmlookup (mq_dly A) m = Some due \<and> due \<le> now" if "m \<in> set ids" for m
      using that in_set_takeD zset_between_due by metis
    obtain r2 s2 where ld: "loadMessages ?rd dc ids s1 = (r2, s2)" by fastforce
    have "\<forall>m \<in> set ids. plain_id m \<and> fmlookup (mq_msg A m) MF_ID = Some m" "distinct ids"
      using due ready zset_between_distinct eq by (fastforce simp: fmlookup_dom_iff, simp)
    from loaded_messages [OF ld view [folded s1] this] obtain envs where envs: "db s2 = db s" "r2 = Inr envs"
      "set (map Envelope_ID envs) \<subseteq> set ids" "distinct (map Envelope_ID envs)"
      "\<forall>e \<in> set envs. decode_at dc (Envelope_ID e) (mq_msg A (Envelope_ID e)) = Inr e" using s1 by auto
    show ?thesis
    proof (cases "envs = []")
      case True
      with run zr ids ld envs have "s' = s2" by (simp add: requeueDue_def load_each_eq and_then_def try_io_def)
      with envs(1) reach show ?thesis by simp
    next
      case False
      let ?us = "map (requeue_entry_args ts) envs"
      obtain r3 s3 where ev: "Eval ?rd RequeueDelayed (requeue_delayed_keys (qkey p) ?us) (requeue_delayed_args ts ?us) s2 = (r3, s3)"
        by fastforce
      have "s' = s3" using run zr ids ld envs(2) False ev
        by (simp add: requeueDue_def enqueueDelayed_def Let_def load_each_eq and_then_def try_io_def)
      have dues: "\<forall>e \<in> set envs. \<exists>due. fmlookup (mq_dly A) (Envelope_ID e) = Some due \<and> due \<le> now"
        using envs(3) due by auto
      then have ok: "allowed A (RequeueDue ts envs)"
        using room ready envs(5) unfolding allowed_def by (fastforce simp: op_size_def fmlookup_dom_iff)
      have op: "invoke (qkey p) en (RequeueDue ts envs) = smq_scripts other RequeueDelayed (redis_apply en)
          (requeue_delayed_keys (qkey p) ?us) (requeue_delayed_args ts ?us)" for en
        by (simp add: invoke_def smq_scripts_def Let_def)
      from Eval_operate [OF reach [folded envs(1)] ok op ev] \<open>s' = s3\<close> reach envs(1) dues envs(4) show ?thesis by auto
    qed
  qed
qed

end

text \<open>C35: A failed message never comes back before its retry delay is over. A sweep of the delayed requeuer at
  the time \<open>now\<close> moves only messages whose time has come, and those become pending or, when their
  consumer group is gone, dead-lettered; every other delayed message keeps its time and its
  status. This holds whatever the calls to Redis report and whichever messages can be decoded, and
  the queue stays in a state that the operations can reach.\<close>

theorem delayed_not_early:
  assumes env: "smq_queues env db other"
    and run: "requeueDue (env_redis env) dc now ts p s = (r, s')" and reach: "reach (qkey p) (db s) A"
    and room: "int (length (mq_pub A)) + 1 < 2 ^ 63"
    and ready: "\<forall>m. m |\<in>| fmdom (mq_dly A) \<longrightarrow> plain_id m \<and> fmlookup (mq_msg A m) MF_ID = Some m \<and>
      (\<forall>e. decode_at dc m (mq_msg A m) = Inr e \<longrightarrow> priority_ok A (e_producibleMessage e))"
  shows "\<exists>B. reach (qkey p) (db s') B \<and> (\<forall>m due. fmlookup (mq_dly A) m = Some due \<longrightarrow>
    (fmlookup (mq_dly B) m = Some due \<and> msg_status_of B m = msg_status_of A m) \<or>
    (due \<le> now \<and> fmlookup (mq_dly B) m = None \<and>
       msg_status_of B m \<in> {Some (itoa StatusPending), Some (itoa StatusDeadLettered)}))"
  using smq_queues.requeueDue_run [OF env run reach room ready]
proof (elim disjE exE conjE)
  assume "reach (qkey p) (db s') A"
  then show ?thesis by blast
next
  fix msgs
  assume dues: "\<forall>e \<in> set msgs. \<exists>due. fmlookup (mq_dly A) (Envelope_ID e) = Some due \<and> due \<le> now"
    and dist: "distinct (map Envelope_ID msgs)" and reach': "reach (qkey p) (db s') (run_op (RequeueDue ts msgs) A)"
  let ?us = "map (requeue_entry_args ts) msgs" and ?B = "run_op (RequeueDue ts msgs) A"
  have id: "ra_id (requeue_entry_args ts e) = Envelope_ID e" for e by (simp add: requeue_entry_args_def Let_def)
  then have ids: "ra_id ` set ?us = Envelope_ID ` set msgs" "map ra_id ?us = map Envelope_ID msgs" by (simp_all add: image_image)
  show ?thesis
  proof (cases "state_verdict A")
    case None
    then have B: "?B = fold (do_undelay ts) ?us A" by (simp add: run_op_def)
    have "(fmlookup (mq_dly ?B) m = Some due \<and> msg_status_of ?B m = msg_status_of A m) \<or>
        (due \<le> now \<and> fmlookup (mq_dly ?B) m = None \<and>
         msg_status_of ?B m \<in> {Some (itoa StatusPending), Some (itoa StatusDeadLettered)})"
      if m: "fmlookup (mq_dly A) m = Some due" for m due
    proof (cases "m \<in> ra_id ` set ?us")
      case True
      moreover have "due \<le> now" using True dues m unfolding ids by auto
      ultimately show ?thesis
        using fold_undelay_moved [of m ?us A ts] m dist unfolding B ids by (auto simp: fmlookup_dom_iff)
    next
      case False
      then show ?thesis using fold_undelay_other [of m ?us ts A] m unfolding B by simp
    qed
    with reach' show ?thesis by blast
  next
    case (Some err)
    with reach' show ?thesis by (intro exI [of _ A]) (simp add: run_op_def)
  qed
qed

text \<open>A message that failed at time \<open>9\<close> and whose retry delay of a minute runs since time \<open>10\<close>.\<close>

definition sample_failure :: operation where
  "sample_failure = Unacknowledge sample_audit 9 ''c1'' [(\<lparr>ue_Message = pending_sample, ue_Cause = CauseUnacknowledged\<rparr>, 9, 9)]"

definition delayed_view :: mq where
  "delayed_view = run_op (RequeueNow 10 [pending_sample]) (run_op sample_failure third_view)"

lemma sample_failure_args:
  "ua_id (unack_entry_args sample_audit 9 (\<lparr>ue_Message = pending_sample, ue_Cause = CauseUnacknowledged\<rparr>, 9, 9)) = ''m1''"
  "ua_history (unack_entry_args sample_audit 9 (\<lparr>ue_Message = pending_sample, ue_Cause = CauseUnacknowledged\<rparr>, 9, 9)) = []"
  "requeues (unack_entry_args sample_audit 9 (\<lparr>ue_Message = pending_sample, ue_Cause = CauseUnacknowledged\<rparr>, 9, 9))"
proof -
  have "fst (resolveUnackAction 9 pending_sample CauseUnacknowledged) = ActionDelay"
    by (simp add: resolveUnackAction_def Envelope_IsExpired_def IsPeriodic_def HasRetryThresholdExceeded_def pending_sample_def SetStatus_def
        sample_envelope_defs enum_defs Let_def)
  then show "requeues (unack_entry_args sample_audit 9 (\<lparr>ue_Message = pending_sample, ue_Cause = CauseUnacknowledged\<rparr>, 9, 9))"
    by (simp add: requeues_def unack_entry_args_def Let_def enum_defs)
  show "ua_id (unack_entry_args sample_audit 9 (\<lparr>ue_Message = pending_sample, ue_Cause = CauseUnacknowledged\<rparr>, 9, 9)) = ''m1''"
    "ua_history (unack_entry_args sample_audit 9 (\<lparr>ue_Message = pending_sample, ue_Cause = CauseUnacknowledged\<rparr>, 9, 9)) = []"
    by (simp_all add: unack_entry_args_def Let_def pending_sample_fields sample_audit_def)
qed

lemma run_failure:
  "run_op sample_failure third_view = do_unack sample_audit ''c1''
     (unack_entry_args sample_audit 9 (\<lparr>ue_Message = pending_sample, ue_Cause = CauseUnacknowledged\<rparr>, 9, 9)) third_view"
  by (simp add: sample_failure_def run_op_def reach_third)

lemma allowed_failure: "allowed third_view sample_failure"
  using third_ready reach_third(2-4) sample_audit_ok sample_failure_args
  by (auto simp: sample_failure_def allowed_def op_size_def unack_ready_def pending_sample_fields plain_id_def)

lemma third_lists: "mq_req third_view = []" "mq_dly third_view = fmempty"
proof -
  have "mq_req second_view = []" "mq_dly second_view = fmempty"
    by (simp_all add: second_view_def run_first do_publish_def Let_def put_pending_def) (simp_all add: first_view_def new_queue_def)
  then show "mq_req third_view = []" "mq_dly third_view = fmempty"
    by (simp_all add: third_view_def run_op_def do_checkout_def pop_pending_def split: list.splits)
qed

lemma failed_view:
  "mq_req (run_op sample_failure third_view) = [''m1'']" "mq_dly (run_op sample_failure third_view) = fmempty"
  "mq_pub (run_op sample_failure third_view) = [''m1'']" "mq_conf (run_op sample_failure third_view) = mq_conf third_view"
  using reach_third third_lists sample_failure_args
  by (simp_all add: run_failure do_unack_def) (simp_all add: unack_move_def Let_def)

lemma failed_field:
  "f \<notin> {MF_Status, MF_UnacknowledgedAt, MF_LastUnacknowledgedAt, MF_DeadLetteredAt, MF_Expired} \<Longrightarrow>
     fmlookup (mq_msg (run_op sample_failure third_view) ''m1'') f = fmlookup (mq_msg third_view ''m1'') f"
  using reach_third sample_failure_args
  by (simp add: run_failure do_unack_def) (simp add: unack_move_def Let_def field_hset_all)

lemma sample_retry:
  "ra_id (requeue_entry_args 10 pending_sample) = ''m1''" "ra_delay (requeue_entry_args 10 pending_sample) = itoa 60000"
  "ra_due (requeue_entry_args 10 pending_sample) = itoa 60010"
  by (simp_all add: requeue_entry_args_def Let_def pending_sample_fields)
    (simp_all add: pending_sample_def SetStatus_def sample_envelope_defs Milliseconds_def)

lemma delayed_sample:
  "mq_dly delayed_view = fmupd ''m1'' 60010 fmempty" "mq_pub delayed_view = [''m1'']" "mq_conf delayed_view = mq_conf third_view"
  "f \<notin> {MF_Status, MF_UnacknowledgedAt, MF_LastUnacknowledgedAt, MF_DeadLetteredAt, MF_Expired} \<Longrightarrow>
     fmlookup (mq_msg delayed_view ''m1'') f = fmlookup (mq_msg third_view ''m1'') f"
proof -
  let ?F = "run_op sample_failure third_view"
  have "state_verdict ?F = None" using reach_third by (simp add: run_verdict)
  then have D: "delayed_view = count F_RequeuedMessagesCount (-1)
      (count F_DelayedMessagesCount 1 (delay_move (requeue_entry_args 10 pending_sample) (drop_req ''m1'' ?F)))"
    by (simp add: delayed_view_def run_op_def [of "RequeueNow _ _"] do_requeue_def failed_view sample_retry)
  show "mq_dly delayed_view = fmupd ''m1'' 60010 fmempty" "mq_pub delayed_view = [''m1'']" "mq_conf delayed_view = mq_conf third_view"
    "f \<notin> {MF_Status, MF_UnacknowledgedAt, MF_LastUnacknowledgedAt, MF_DeadLetteredAt, MF_Expired} \<Longrightarrow>
     fmlookup (mq_msg delayed_view ''m1'') f = fmlookup (mq_msg third_view ''m1'') f"
    by (simp_all add: D delay_move_def drop_req_def failed_view sample_retry Let_def failed_field field_hset_all in_int64_def)
qed

lemma sample_priority_ok: "priority_ok third_view (e_producibleMessage pending_sample)"
proof -
  have "mq_conf third_view F_Type = Some (itoa TypeFIFO)"
    by (simp add: third_view_def run_conf second_conf first_view_conf)
  then show ?thesis by (simp add: priority_ok_def pending_sample_fields enum_defs)
qed

lemma priority_ok_cong: "mq_conf B = mq_conf A \<Longrightarrow> pm_priority m' = pm_priority m \<Longrightarrow> priority_ok B m' = priority_ok A m"
  by (simp add: priority_ok_def)

lemma reach_delayed: "\<exists>d. reach (qkey sample_queue) d delayed_view"
proof -
  obtain d where d: "reach (qkey sample_queue) d third_view" using reach_third(1) ..
  have "allowed (run_op sample_failure third_view) (RequeueNow 10 [pending_sample])"
    using sample_priority_ok priority_ok_cong [OF failed_view(4) refl]
    by (simp add: allowed_def op_size_def failed_view pending_sample_fields plain_id_def)
  then show ?thesis using invoke_total [OF d allowed_failure] invoke_total unfolding delayed_view_def by blast
qed

lemma decoded_priority:
  assumes "decode_at dc m h = Inr e" and "Codec_DecodeParams (hash_get h MF_Message) = Inr (Envelope_ToParams e0)" and "msg_ok (e_producibleMessage e0)"
  shows "pm_priority (e_producibleMessage e) = pm_priority (e_producibleMessage e0)"
  using assms rebuild_reread [OF assms(3)]
  by (auto simp: decode_at_def DecodeEnvelope_def Let_def Envelope_ToParams_def reread_message_def NewEnvelope_def SetDestinationQueue_def
      SetStatus_def SetMessageState_def SetConsumerGroupID_def split: if_splits sum.splits option.splits)

theorem delayed_not_early_witness:
  "\<exists>d r d' B. reach (qkey sample_queue) d delayed_view \<and> fmlookup (mq_dly delayed_view) ''m1'' = Some 60010 \<and>
     requeueDue (mem_redis (smq_scripts no_scripts)) (cc_decode sample_ctx) 100 100 sample_queue d = (r, d') \<and>
     reach (qkey sample_queue) d' B \<and> fmlookup (mq_dly B) ''m1'' = Some 60010"
proof -
  obtain d where d: "reach (qkey sample_queue) d delayed_view" using reach_delayed ..
  obtain r d' where run: "requeueDue (env_redis (mem_env (smq_scripts no_scripts))) (cc_decode sample_ctx) 100 100 sample_queue d = (r, d')"
    by fastforce
  have "fmlookup (mq_msg delayed_view ''m1'') MF_ID = Some ''m1''"
    "Codec_DecodeParams (hash_get (mq_msg delayed_view ''m1'') MF_Message) = Inr (Envelope_ToParams pending_sample)"
    using third_message by (simp_all add: delayed_sample schema_defs hash_get_def)
  moreover have "msg_ok (e_producibleMessage pending_sample)"
    using sample_envelope_ok by (simp add: envelope_ok_def pending_sample_def SetStatus_def)
  ultimately have "\<forall>m. m |\<in>| fmdom (mq_dly delayed_view) \<longrightarrow> plain_id m \<and> fmlookup (mq_msg delayed_view m) MF_ID = Some m \<and>
      (\<forall>e. decode_at (cc_decode sample_ctx) m (mq_msg delayed_view m) = Inr e \<longrightarrow> priority_ok delayed_view (e_producibleMessage e))"
    using sample_priority_ok priority_ok_cong [OF delayed_sample(3)] decoded_priority
    by (auto simp: delayed_sample(1) plain_id_def)
  from delayed_not_early [OF mem_smq_queues run, OF d _ this] obtain B where B: "reach (qkey sample_queue) d' B"
    "\<forall>m due. fmlookup (mq_dly delayed_view) m = Some due \<longrightarrow> fmlookup (mq_dly B) m = Some due \<or> due \<le> 100"
    by (auto simp: delayed_sample(2))
  from B(2) [rule_format, of "''m1''" 60010] have "fmlookup (mq_dly B) ''m1'' = Some 60010" by (simp add: delayed_sample(1))
  with B(1) d run show ?thesis by (auto simp: delayed_sample(1))
qed

end
