(* ===== verification/Go_Regexp.thy ===== *)
theory Go_Regexp
  imports Smq_Prelude
begin

text \<open>
  What the code uses of Go's \<open>regexp\<close> package: patterns anchored at both ends, built from
  character classes, concatenation and repetition. \<open>rx_match\<close> decides \<open>MatchString\<close> by
  derivatives; \<open>rx_match_lang\<close> shows that it accepts exactly the language of the expression.
\<close>

datatype rx = RxNone | RxEmpty | RxChar "char \<Rightarrow> bool" | RxAlt rx rx | RxSeq rx rx | RxStar rx

primrec rx_nullable :: "rx \<Rightarrow> bool" where
  "rx_nullable RxNone = False"
| "rx_nullable RxEmpty = True"
| "rx_nullable (RxChar P) = False"
| "rx_nullable (RxAlt a b) = (rx_nullable a \<or> rx_nullable b)"
| "rx_nullable (RxSeq a b) = (rx_nullable a \<and> rx_nullable b)"
| "rx_nullable (RxStar a) = True"

primrec rx_deriv :: "char \<Rightarrow> rx \<Rightarrow> rx" where
  "rx_deriv c RxNone = RxNone"
| "rx_deriv c RxEmpty = RxNone"
| "rx_deriv c (RxChar P) = (if P c then RxEmpty else RxNone)"
| "rx_deriv c (RxAlt a b) = RxAlt (rx_deriv c a) (rx_deriv c b)"
| "rx_deriv c (RxSeq a b) =
     (if rx_nullable a then RxAlt (RxSeq (rx_deriv c a) b) (rx_deriv c b)
      else RxSeq (rx_deriv c a) b)"
| "rx_deriv c (RxStar a) = RxSeq (rx_deriv c a) (RxStar a)"

primrec rx_match :: "rx \<Rightarrow> string \<Rightarrow> bool" where
  "rx_match r [] = rx_nullable r"
| "rx_match r (c # cs) = rx_match (rx_deriv c r) cs"

abbreviation RxPlus :: "rx \<Rightarrow> rx" where
  "RxPlus a \<equiv> RxSeq a (RxStar a)"

subsection \<open>Languages\<close>

inductive_set star :: "string set \<Rightarrow> string set" for A :: "string set" where
  star_Nil: "[] \<in> star A"
| star_step: "u \<in> A \<Longrightarrow> v \<in> star A \<Longrightarrow> u @ v \<in> star A"

primrec lang :: "rx \<Rightarrow> string set" where
  "lang RxNone = {}"
| "lang RxEmpty = {[]}"
| "lang (RxChar P) = {[c] | c. P c}"
| "lang (RxAlt a b) = lang a \<union> lang b"
| "lang (RxSeq a b) = {u @ v | u v. u \<in> lang a \<and> v \<in> lang b}"
| "lang (RxStar a) = star (lang a)"

lemma star_Cons: "c # s \<in> star A \<longleftrightarrow> (\<exists>u v. c # u \<in> A \<and> v \<in> star A \<and> s = u @ v)"
proof
  assume "c # s \<in> star A"
  then show "\<exists>u v. c # u \<in> A \<and> v \<in> star A \<and> s = u @ v"
  proof (induction "c # s" arbitrary: c s rule: star.induct)
    case (star_step u v)
    show ?case
    proof (cases u)
      case Nil
      with star_step show ?thesis by simp
    next
      case (Cons d u')
      with star_step show ?thesis by auto
    qed
  qed
next
  assume "\<exists>u v. c # u \<in> A \<and> v \<in> star A \<and> s = u @ v"
  then obtain u v where "c # u \<in> A" "v \<in> star A" "s = u @ v" by blast
  then show "c # s \<in> star A" using star.star_step [of "c # u" A v] by simp
qed

lemma rx_nullable_lang: "rx_nullable r \<longleftrightarrow> [] \<in> lang r"
  by (induction r) (auto simp: star_Nil)

lemma lang_seq_Cons: "c # s \<in> lang (RxSeq a b) \<longleftrightarrow>
    (\<exists>u v. c # u \<in> lang a \<and> v \<in> lang b \<and> s = u @ v) \<or> [] \<in> lang a \<and> c # s \<in> lang b"
  by (auto simp: Cons_eq_append_conv)

lemma rx_deriv_lang: "s \<in> lang (rx_deriv c r) \<longleftrightarrow> c # s \<in> lang r"
proof (induction r arbitrary: s)
  case (RxSeq a b)
  show ?case unfolding lang_seq_Cons using RxSeq by (auto simp: rx_nullable_lang)
next
  case (RxStar a)
  then show ?case by (auto simp: star_Cons)
qed auto

lemma rx_match_lang: "rx_match r s \<longleftrightarrow> s \<in> lang r"
  by (induction s arbitrary: r) (simp_all add: rx_nullable_lang rx_deriv_lang)

end
