(* ===== verification/Topic_Match.thy ===== *)
theory Topic_Match
  imports Go_Strings Go_Regexp
begin

text \<open>
  Topic routing, \<open>internal/exchange/topic.go\<close>: the check of a binding pattern
  (\<open>validateTopicPattern\<close>) and the backtracking matcher (\<open>matchTopicPattern\<close>,
  \<open>matchTopicTokens\<close>), as pure functions. The properties compare the matcher with the AMQP rule,
  stated without recursion: the routing key can be cut into one segment per pattern token, where
  \<open>*\<close> takes a segment of one word, \<open>#\<close> takes any segment, and a word takes itself.
\<close>

subsection \<open>Patterns\<close>

definition isAlpha :: "char \<Rightarrow> bool" where
  "isAlpha c \<longleftrightarrow> (65 \<le> (of_char c :: nat) \<and> (of_char c :: nat) \<le> 90) \<or>
     (97 \<le> (of_char c :: nat) \<and> (of_char c :: nat) \<le> 122)"

definition isAlnum :: "char \<Rightarrow> bool" where
  "isAlnum c \<longleftrightarrow> isAlpha c \<or> is_digit c"

definition literalTokenRE :: rx where
  "literalTokenRE =
     RxSeq (RxChar isAlpha)
       (RxSeq (RxStar (RxChar isAlnum))
         (RxStar (RxSeq (RxChar (\<lambda>c. c = CHR ''-'' \<or> c = CHR ''_'')) (RxPlus (RxChar isAlnum)))))"

definition validateTopicPattern :: "string \<Rightarrow> bool" where
  "validateTopicPattern pattern =
     (if length pattern = 0 then False
      else list_all (\<lambda>token.
             if length token = 0 then False
             else if token = ''*'' \<or> token = ''#'' then True
             else rx_match literalTokenRE token)
           (split_on (CHR ''.'') pattern))"

subsection \<open>Matching\<close>

fun matchTopicTokens :: "string list \<Rightarrow> string list \<Rightarrow> bool" where
  "matchTopicTokens r [] = (length r = 0)"
| "matchTopicTokens [] (p # ps) = list_all (\<lambda>token. token = ''#'') (p # ps)"
| "matchTopicTokens (r # rs) (p # ps) =
     (if p = ''#'' then list_ex (\<lambda>i. matchTopicTokens (drop i (r # rs)) ps) [0..<length (r # rs) + 1]
      else if p = ''*'' then matchTopicTokens rs ps
      else if r \<noteq> p then False
      else matchTopicTokens rs ps)"

definition matchTopicPattern :: "string \<Rightarrow> string \<Rightarrow> bool" where
  "matchTopicPattern routingKey pattern =
     (let rTokens = split_on (CHR ''.'') routingKey;
          pTokens = split_on (CHR ''.'') pattern
      in matchTopicTokens rTokens pTokens)"

subsection \<open>The AMQP rule\<close>

definition token_takes :: "string \<Rightarrow> string list \<Rightarrow> bool" where
  "token_takes p seg = (if p = ''#'' then True else if p = ''*'' then length seg = 1 else seg = [p])"

definition topic_rule :: "string list \<Rightarrow> string list \<Rightarrow> bool" where
  "topic_rule ps r \<longleftrightarrow> (\<exists>segs. concat segs = r \<and> list_all2 token_takes ps segs)"

lemma topic_rule_Nil [simp]: "topic_rule [] r \<longleftrightarrow> r = []"
  by (auto simp: topic_rule_def)

lemma topic_rule_Cons:
  "topic_rule (p # ps) r \<longleftrightarrow> (\<exists>seg rest. r = seg @ rest \<and> token_takes p seg \<and> topic_rule ps rest)"
proof
  assume "topic_rule (p # ps) r"
  then obtain segs where "concat segs = r" "list_all2 token_takes (p # ps) segs"
    by (auto simp: topic_rule_def)
  then show "\<exists>seg rest. r = seg @ rest \<and> token_takes p seg \<and> topic_rule ps rest"
    by (cases segs) (auto simp: topic_rule_def)
next
  assume "\<exists>seg rest. r = seg @ rest \<and> token_takes p seg \<and> topic_rule ps rest"
  then obtain seg segs where "r = concat (seg # segs)" "list_all2 token_takes (p # ps) (seg # segs)"
    by (auto simp: topic_rule_def)
  then show "topic_rule (p # ps) r" unfolding topic_rule_def by blast
qed

lemma topic_rule_hash:
  "topic_rule (''#'' # ps) r \<longleftrightarrow> (\<exists>i \<le> length r. topic_rule ps (drop i r))"
proof
  assume "topic_rule (''#'' # ps) r"
  then obtain seg rest where "r = seg @ rest" "topic_rule ps rest" by (auto simp: topic_rule_Cons)
  then have "length seg \<le> length r \<and> topic_rule ps (drop (length seg) r)" by simp
  then show "\<exists>i \<le> length r. topic_rule ps (drop i r)" by blast
next
  assume "\<exists>i \<le> length r. topic_rule ps (drop i r)"
  then obtain i where "topic_rule ps (drop i r)" by blast
  moreover have "r = take i r @ drop i r" by simp
  ultimately show "topic_rule (''#'' # ps) r"
    by (subst topic_rule_Cons) (metis token_takes_def)
qed

lemma topic_rule_empty: "topic_rule ps [] \<longleftrightarrow> list_all (\<lambda>t. t = ''#'') ps"
  by (induction ps) (auto simp: topic_rule_Cons token_takes_def split: if_splits)

lemma topic_rule_word:
  assumes "p \<noteq> ''#''"
  shows "topic_rule (p # ps) (r # rs) \<longleftrightarrow> (p = ''*'' \<or> r = p) \<and> topic_rule ps rs"
proof -
  have takes: "token_takes p seg \<longleftrightarrow> (\<exists>w. seg = [w] \<and> (p = ''*'' \<or> w = p))" for seg
    using assms by (auto simp: token_takes_def length_Suc_conv)
  have "topic_rule (p # ps) (r # rs) \<longleftrightarrow>
      (\<exists>w rest. r # rs = [w] @ rest \<and> (p = ''*'' \<or> w = p) \<and> topic_rule ps rest)"
    unfolding topic_rule_Cons takes by blast
  then show ?thesis by simp
qed

lemma matchTopicTokens_rule: "matchTopicTokens r p \<longleftrightarrow> topic_rule p r"
proof (induction r p rule: matchTopicTokens.induct)
  case (3 r rs p ps)
  show ?case
  proof (cases "p = ''#''")
    case True
    have set: "i \<in> set [0..<length (r # rs) + 1] \<longleftrightarrow> i \<le> length (r # rs)" for i by auto
    have "matchTopicTokens (r # rs) (p # ps) \<longleftrightarrow>
        (\<exists>i \<in> set [0..<length (r # rs) + 1]. matchTopicTokens (drop i (r # rs)) ps)"
      using True by (simp only: matchTopicTokens.simps refl if_True list_ex_iff)
    also have "\<dots> \<longleftrightarrow> (\<exists>i \<le> length (r # rs). topic_rule ps (drop i (r # rs)))"
      using "3.IH"(1) [OF True] set by blast
    finally show ?thesis using True by (simp only: topic_rule_hash)
  next
    case False
    then show ?thesis using 3 by (auto simp: topic_rule_word)
  qed
qed (simp_all add: topic_rule_empty)

subsection \<open>Literal tokens\<close>

text \<open>A literal: a letter, then letters and digits in which single separators may stand between
  two of them.\<close>

fun literal_tail :: "string \<Rightarrow> bool" where
  "literal_tail [] = True"
| "literal_tail [c] = isAlnum c"
| "literal_tail (c # d # cs) =
     (if isAlnum c then literal_tail (d # cs)
      else (c = CHR ''-'' \<or> c = CHR ''_'') \<and> isAlnum d \<and> literal_tail cs)"

fun literal_token :: "string \<Rightarrow> bool" where
  "literal_token [] = False"
| "literal_token (c # cs) = (isAlpha c \<and> literal_tail cs)"

definition rx_groups :: rx where
  "rx_groups = RxStar (RxSeq (RxChar (\<lambda>c. c = CHR ''-'' \<or> c = CHR ''_'')) (RxPlus (RxChar isAlnum)))"

lemma lang_char_seq: "lang (RxSeq (RxChar P) r) = {c # s | c s. P c \<and> s \<in> lang r}"
proof -
  have "lang (RxSeq (RxChar P) r) = {[c] @ s | c s. P c \<and> s \<in> lang r}"
    unfolding lang.simps by blast
  then show ?thesis by simp
qed

lemma lang_alnums_groups_Cons:
  "c # s \<in> lang (RxSeq (RxStar (RxChar isAlnum)) rx_groups) \<longleftrightarrow>
     isAlnum c \<and> s \<in> lang (RxSeq (RxStar (RxChar isAlnum)) rx_groups) \<or> c # s \<in> lang rx_groups"
  unfolding lang_seq_Cons [of c s "RxStar (RxChar isAlnum)"] by (auto simp: star_Cons star_Nil)

lemma lang_group_Cons:
  "c # u \<in> lang (RxSeq (RxChar P) (RxPlus (RxChar Q))) \<longleftrightarrow>
     P c \<and> (\<exists>d w. u = d # w \<and> Q d \<and> w \<in> lang (RxStar (RxChar Q)))"
  by (simp only: lang_char_seq) simp

lemma lang_groups_Cons:
  "c # s \<in> lang rx_groups \<longleftrightarrow> (c = CHR ''-'' \<or> c = CHR ''_'') \<and>
     (\<exists>d t. s = d # t \<and> isAlnum d \<and> t \<in> lang (RxSeq (RxStar (RxChar isAlnum)) rx_groups))"
    (is "?l \<longleftrightarrow> ?sep \<and> ?r")
proof -
  let ?A = "lang (RxStar (RxChar isAlnum))"
  have seq: "lang (RxSeq (RxStar (RxChar isAlnum)) rx_groups) = {w @ v | w v. w \<in> ?A \<and> v \<in> lang rx_groups}"
    by simp
  have "?l \<longleftrightarrow> (\<exists>u v. (?sep \<and> (\<exists>d w. u = d # w \<and> isAlnum d \<and> w \<in> ?A)) \<and> v \<in> lang rx_groups \<and> s = u @ v)"
    by (simp only: rx_groups_def lang.simps(6) star_Cons lang_group_Cons)
  also have "\<dots> \<longleftrightarrow> ?sep \<and> (\<exists>d w v. isAlnum d \<and> w \<in> ?A \<and> v \<in> lang rx_groups \<and> s = d # w @ v)"
    by fastforce
  also have "\<dots> \<longleftrightarrow> ?sep \<and> ?r"
    unfolding seq by blast
  finally show ?thesis .
qed

lemma literal_tail_lang: "s \<in> lang (RxSeq (RxStar (RxChar isAlnum)) rx_groups) \<longleftrightarrow> literal_tail s"
proof (induction s rule: literal_tail.induct)
  case 1
  then show ?case by (auto simp: rx_groups_def star_Nil)
next
  case (2 c)
  have "[] \<in> lang (RxSeq (RxStar (RxChar isAlnum)) rx_groups)" by (auto simp: rx_groups_def star_Nil)
  then show ?case by (simp only: lang_alnums_groups_Cons lang_groups_Cons) simp
next
  case (3 c d cs)
  have sep: "isAlnum c \<Longrightarrow> \<not> (c = CHR ''-'' \<or> c = CHR ''_'')"
    by (auto simp: isAlnum_def isAlpha_def is_digit_def)
  show ?case
    using 3 sep by (simp only: lang_alnums_groups_Cons [of c] lang_groups_Cons) auto
qed

lemma literalTokenRE_token: "rx_match literalTokenRE t \<longleftrightarrow> literal_token t"
proof (cases t)
  case (Cons c cs)
  have eq: "literalTokenRE = RxSeq (RxChar isAlpha) (RxSeq (RxStar (RxChar isAlnum)) rx_groups)"
    by (simp add: literalTokenRE_def rx_groups_def)
  have "rx_match literalTokenRE (c # cs) \<longleftrightarrow> isAlpha c \<and> cs \<in> lang (RxSeq (RxStar (RxChar isAlnum)) rx_groups)"
    unfolding rx_match_lang eq lang_char_seq by simp
  with Cons show ?thesis by (simp only: literal_tail_lang) simp
qed (simp add: literalTokenRE_def)

subsection \<open>Properties\<close>

lemma validateTopicPattern_tokens:
  "validateTopicPattern pattern \<longleftrightarrow>
     (\<forall>t \<in> set (split_on (CHR ''.'') pattern). t = ''*'' \<or> t = ''#'' \<or> literal_token t)"
proof -
  have tok: "(if length t = 0 then False else if t = ''*'' \<or> t = ''#'' then True else rx_match literalTokenRE t)
      \<longleftrightarrow> t = ''*'' \<or> t = ''#'' \<or> literal_token t" for t
    unfolding literalTokenRE_token by (cases "t = []") auto
  show ?thesis
  proof (cases "pattern = []")
    case False
    then show ?thesis unfolding validateTopicPattern_def tok by (simp add: list_all_iff)
  qed (simp add: validateTopicPattern_def)
qed

lemma topic_rule_literal:
  "\<forall>t \<in> set ps. t \<noteq> ''*'' \<and> t \<noteq> ''#'' \<Longrightarrow> topic_rule ps r \<longleftrightarrow> r = ps"
  by (induction ps arbitrary: r) (auto simp: topic_rule_Cons token_takes_def)

text \<open>C20: \<open>matchTopicPattern\<close> implements the AMQP topic rule: a routing key matches a pattern exactly when
  its dot-separated words can be cut into consecutive segments, one per pattern token, such that a
  \<open>*\<close> token gets exactly one word, a \<open>#\<close> token gets any number of words (also none), and every
  other token gets the one word equal to it. The backtracking search neither misses a cut nor
  accepts without one, for every routing key and pattern, validated or not.\<close>

theorem matchTopicPattern_amqp:
  "matchTopicPattern routingKey pattern \<longleftrightarrow>
     (\<exists>segs. concat segs = split_on (CHR ''.'') routingKey \<and>
        list_all2 (\<lambda>p seg. if p = ''#'' then True else if p = ''*'' then length seg = 1 else seg = [p])
          (split_on (CHR ''.'') pattern) segs)"
proof -
  have "token_takes = (\<lambda>p seg. if p = ''#'' then True else if p = ''*'' then length seg = 1 else seg = [p])"
    by (simp add: fun_eq_iff token_takes_def)
  then show ?thesis
    by (simp add: matchTopicPattern_def matchTopicTokens_rule topic_rule_def)
qed

end
