(* ===== verification/Exchange_Bindings.thy ===== *)
theory Exchange_Bindings
  imports Exchange_Store Topic_Match
begin

text \<open>
  \<open>internal/exchange/direct.go\<close>, \<open>topic.go\<close> and \<open>fanout.go\<close>: which queues are bound to an
  exchange. A direct exchange keeps the set of its routing keys and, for each of them, the set of
  bound queues; a topic exchange does the same with patterns; a fanout exchange keeps one set of
  queues. Every queue keeps the set of exchanges it is bound to. All changes are transactions.
  The closures \<open>txf\<close> of the direct and the topic store are the same code over different keys:
  \<open>bind_txf\<close>, \<open>unbind_txf\<close> and \<open>delete_txf\<close> take the keys as arguments (\<open>index\<close>, the key of the set of
  routing keys or patterns; \<open>queues\<close>, the key of the set of queues of one of them).
\<close>

subsection \<open>The transactions\<close>

definition bind_txf :: "'s redis_server \<Rightarrow> string \<Rightarrow> (string \<Rightarrow> string) \<Rightarrow> queue_params \<Rightarrow> exchange_params \<Rightarrow> string
    \<Rightarrow> ('s, go_error, unit) io" where
  "bind_txf rd index queues queueParams exchangeParams k =
     (let exKey = xkey exchangeParams; queueStr = EncodeParams queueParams;
          exchangeStr = Exchange_EncodeParams exchangeParams in
      and_then (ValidateQueueBinding rd exchangeParams queueParams) (\<lambda>_.
      and_then (map_err RedisErr (sismember rd (queues k) queueStr)) (\<lambda>isMember.
      if isMember then throw (ExchangeErr X_ErrQueueAlreadyBound)
      else and_then (map_err RedisErr (tx_exec rd
        [HSET (Exchange_Properties exKey) [(X_Type, itoa (xp_typ exchangeParams))],
         SADD System_AllExchanges [exchangeStr],
         SADD (Namespace_Exchanges (xp_ns exchangeParams)) [exchangeStr],
         SADD index [k],
         SADD (queues k) [queueStr],
         SADD (Queue_ExchangeBindings (qkey queueParams)) [exchangeStr]])) (\<lambda>_. ret ()))))"

text \<open>The loop that looks for another key under which the queue is bound.\<close>

fun still_bound :: "'s redis_server \<Rightarrow> (string \<Rightarrow> string) \<Rightarrow> string \<Rightarrow> string \<Rightarrow> string list \<Rightarrow> ('s, go_error, bool) io" where
  "still_bound rd queues queueStr k [] = ret False"
| "still_bound rd queues queueStr k (rk # allKeys) =
     (if rk = k then still_bound rd queues queueStr k allKeys
      else and_then (map_err RedisErr (sismember rd (queues rk) queueStr)) (\<lambda>member.
        if member then ret True else still_bound rd queues queueStr k allKeys))"

definition unbind_txf :: "'s redis_server \<Rightarrow> string \<Rightarrow> (string \<Rightarrow> string) \<Rightarrow> queue_params \<Rightarrow> exchange_params \<Rightarrow> string
    \<Rightarrow> ('s, go_error, unit) io" where
  "unbind_txf rd index queues queueParams exchangeParams k =
     (let queueStr = EncodeParams queueParams; exchangeStr = Exchange_EncodeParams exchangeParams in
      and_then (ValidateType rd exchangeParams True) (\<lambda>_.
      and_then (map_err RedisErr (sismember rd (queues k) queueStr)) (\<lambda>isMember.
      if \<not> isMember then throw (ExchangeErr X_ErrQueueNotBound)
      else
      and_then (map_err RedisErr (smembers rd index)) (\<lambda>allKeys.
      and_then (still_bound rd queues queueStr k allKeys) (\<lambda>stillBound.
      and_then (map_err RedisErr (scard rd (queues k))) (\<lambda>count.
      and_then (map_err RedisErr (tx_exec rd
        ([SREM (queues k) [queueStr]] @
         (if count = 1 then [SREM index [k]] else []) @
         (if \<not> stillBound then [SREM (Queue_ExchangeBindings (qkey queueParams)) [exchangeStr]] else [])))) (\<lambda>_. ret ())))))))"

definition delete_txf :: "'s redis_server \<Rightarrow> string \<Rightarrow> (string \<Rightarrow> string) \<Rightarrow> exchange_params \<Rightarrow> string list
    \<Rightarrow> ('s, go_error, unit) io" where
  "delete_txf rd index queues exchangeParams allKeys =
     (let exKey = xkey exchangeParams; exchangeStr = Exchange_EncodeParams exchangeParams in
      and_then (ValidateType rd exchangeParams True) (\<lambda>_.
      and_then (check_unbound rd queues allKeys) (\<lambda>_.
      and_then (map_err RedisErr (tx_exec rd
        ([DEL [Exchange_Exchange exKey], DEL [Exchange_Properties exKey], DEL [index],
          SREM System_AllExchanges [exchangeStr], SREM (Namespace_Exchanges (xp_ns exchangeParams)) [exchangeStr]] @
         map (\<lambda>k. DEL [queues k]) allKeys))) (\<lambda>_. ret ()))))"

subsection \<open>Direct exchanges\<close>

definition Direct_Create :: "'s redis_server \<Rightarrow> exchange_params \<Rightarrow> Policy \<Rightarrow> ('s, go_error, unit) io" where
  "Direct_Create rd params policy =
     (if xp_typ params \<noteq> TypeDirect then throw (ExchangeErr X_ErrTypeMismatch) else Exchange_Save rd params policy)"

definition Direct_BindQueue :: "'s redis_server \<Rightarrow> queue_params \<Rightarrow> exchange_params \<Rightarrow> string \<Rightarrow> ('s, go_error, unit) io" where
  "Direct_BindQueue rd queueParams exchangeParams routingKey =
     (if qp_ns queueParams \<noteq> xp_ns exchangeParams then throw (ExchangeErr X_ErrNamespaceMismatch)
      else
        let exKey = xkey exchangeParams; qKey = qkey queueParams;
            watchKeys = [Exchange_Exchange exKey, Exchange_Properties exKey, Exchange_RoutingKeys exKey,
              Exchange_RoutingKeyQueues exKey routingKey, Queue_ExchangeBindings qKey, System_AllExchanges,
              Namespace_Exchanges (xp_ns exchangeParams)]
        in WithTransaction rd watchKeys 5
             (bind_txf rd (Exchange_RoutingKeys exKey) (Exchange_RoutingKeyQueues exKey) queueParams exchangeParams routingKey))"

definition Direct_UnbindQueue :: "'s redis_server \<Rightarrow> queue_params \<Rightarrow> exchange_params \<Rightarrow> string \<Rightarrow> ('s, go_error, unit) io" where
  "Direct_UnbindQueue rd queueParams exchangeParams routingKey =
     (if qp_ns queueParams \<noteq> xp_ns exchangeParams then throw (ExchangeErr X_ErrNamespaceMismatch)
      else
        let exKey = xkey exchangeParams; qKey = qkey queueParams;
            watchKeys = [Exchange_Exchange exKey, Exchange_RoutingKeys exKey,
              Exchange_RoutingKeyQueues exKey routingKey, Queue_ExchangeBindings qKey]
        in WithTransaction rd watchKeys 5
             (unbind_txf rd (Exchange_RoutingKeys exKey) (Exchange_RoutingKeyQueues exKey) queueParams exchangeParams routingKey))"

definition Direct_RoutingKeys :: "'s redis_server \<Rightarrow> exchange_params \<Rightarrow> ('s, go_error, string list) io" where
  "Direct_RoutingKeys rd exchangeParams =
     and_then (ValidateType rd exchangeParams True) (\<lambda>_.
     LoadSetMembers rd (Exchange_RoutingKeys (xkey exchangeParams)) ''routing keys'')"

definition Direct_BoundQueues :: "'s redis_server \<Rightarrow> exchange_params \<Rightarrow> string \<Rightarrow> ('s, go_error, queue_params list) io" where
  "Direct_BoundQueues rd exchangeParams routingKey =
     and_then (ValidateType rd exchangeParams True) (\<lambda>_.
     and_then (LoadSetMembers rd (Exchange_RoutingKeyQueues (xkey exchangeParams) routingKey)
       (''queues for routing key '' @ routingKey)) (\<lambda>members.
     ret (DecodeParamsSlice members)))"

definition Direct_MatchQueues :: "'s redis_server \<Rightarrow> exchange_params \<Rightarrow> string \<Rightarrow> ('s, go_error, queue_params list) io" where
  "Direct_MatchQueues rd exchangeParams routingKey =
     and_then (ValidateType rd exchangeParams True) (\<lambda>_. Direct_BoundQueues rd exchangeParams routingKey)"

text \<open>A Go map that is filled in a loop: later entries replace earlier ones.\<close>

fun fill_map :: "(string \<Rightarrow> ('s, go_error, queue_params list) io) \<Rightarrow> string list \<Rightarrow> (string, queue_params list) fmap
    \<Rightarrow> ('s, go_error, (string, queue_params list) fmap) io" where
  "fill_map bound [] bindings = ret bindings"
| "fill_map bound (k # ks) bindings =
     and_then (bound k) (\<lambda>queues. fill_map bound ks (fmupd k queues bindings))"

definition Direct_Bindings :: "'s redis_server \<Rightarrow> exchange_params \<Rightarrow> ('s, go_error, (string, queue_params list) fmap) io" where
  "Direct_Bindings rd exchangeParams =
     and_then (Direct_RoutingKeys rd exchangeParams) (\<lambda>routingKeys.
     fill_map (Direct_BoundQueues rd exchangeParams) routingKeys fmempty)"

definition Direct_Delete :: "'s redis_server \<Rightarrow> exchange_params \<Rightarrow> ('s, go_error, unit) io" where
  "Direct_Delete rd exchangeParams =
     (let exKey = xkey exchangeParams in
      and_then (Direct_RoutingKeys rd exchangeParams) (\<lambda>allKeys.
      let watchKeys = [Exchange_Exchange exKey, Exchange_RoutingKeys exKey, System_AllExchanges,
            Namespace_Exchanges (xp_ns exchangeParams)] @ map (Exchange_RoutingKeyQueues exKey) allKeys
      in WithTransaction rd watchKeys 5
           (delete_txf rd (Exchange_RoutingKeys exKey) (Exchange_RoutingKeyQueues exKey) exchangeParams allKeys)))"

subsection \<open>Topic exchanges\<close>

definition Topic_Create :: "'s redis_server \<Rightarrow> exchange_params \<Rightarrow> Policy \<Rightarrow> ('s, go_error, unit) io" where
  "Topic_Create rd params policy =
     (if xp_typ params \<noteq> TypeTopic then throw (ExchangeErr X_ErrTypeMismatch) else Exchange_Save rd params policy)"

definition Topic_BindQueue :: "'s redis_server \<Rightarrow> queue_params \<Rightarrow> exchange_params \<Rightarrow> string \<Rightarrow> ('s, go_error, unit) io" where
  "Topic_BindQueue rd queueParams exchangeParams pattern =
     (if qp_ns queueParams \<noteq> xp_ns exchangeParams then throw (ExchangeErr X_ErrNamespaceMismatch)
      else if \<not> validateTopicPattern pattern then throw (ExchangeErr X_ErrInvalidPattern)
      else
        let exKey = xkey exchangeParams; qKey = qkey queueParams;
            watchKeys = [Exchange_Exchange exKey, Exchange_Properties exKey, Exchange_BindingPatterns exKey,
              Exchange_PatternQueues exKey pattern, Queue_ExchangeBindings qKey, System_AllExchanges,
              Namespace_Exchanges (xp_ns exchangeParams)]
        in WithTransaction rd watchKeys 5
             (bind_txf rd (Exchange_BindingPatterns exKey) (Exchange_PatternQueues exKey) queueParams exchangeParams pattern))"

definition Topic_UnbindQueue :: "'s redis_server \<Rightarrow> queue_params \<Rightarrow> exchange_params \<Rightarrow> string \<Rightarrow> ('s, go_error, unit) io" where
  "Topic_UnbindQueue rd queueParams exchangeParams pattern =
     (if qp_ns queueParams \<noteq> xp_ns exchangeParams then throw (ExchangeErr X_ErrNamespaceMismatch)
      else if \<not> validateTopicPattern pattern then throw (ExchangeErr X_ErrInvalidPattern)
      else
        let exKey = xkey exchangeParams; qKey = qkey queueParams;
            watchKeys = [Exchange_Exchange exKey, Exchange_BindingPatterns exKey,
              Exchange_PatternQueues exKey pattern, Queue_ExchangeBindings qKey]
        in WithTransaction rd watchKeys 5
             (unbind_txf rd (Exchange_BindingPatterns exKey) (Exchange_PatternQueues exKey) queueParams exchangeParams pattern))"

definition topic_patterns :: "'s redis_server \<Rightarrow> exchange_params \<Rightarrow> ('s, go_error, string list) io" where
  "topic_patterns rd exchangeParams =
     LoadSetMembers rd (Exchange_BindingPatterns (xkey exchangeParams)) ''binding patterns''"

definition topic_boundQueues :: "'s redis_server \<Rightarrow> exchange_params \<Rightarrow> string \<Rightarrow> ('s, go_error, queue_params list) io" where
  "topic_boundQueues rd exchangeParams pattern =
     and_then (LoadSetMembers rd (Exchange_PatternQueues (xkey exchangeParams) pattern) (''queues for pattern '' @ pattern))
       (\<lambda>members. ret (DecodeParamsSlice members))"

text \<open>The inner loop of \<open>MatchQueues\<close>, and the loop over the matching patterns.\<close>

fun add_unseen :: "queue_params list \<Rightarrow> string list \<Rightarrow> queue_params list \<Rightarrow> string list \<times> queue_params list" where
  "add_unseen [] seen queues = (seen, queues)"
| "add_unseen (q # bound) seen queues =
     (let key = qp_ns q @ '':'' @ qp_name q in
      if key \<in> set seen then add_unseen bound seen queues else add_unseen bound (key # seen) (queues @ [q]))"

fun collect_queues :: "(string \<Rightarrow> ('s, go_error, queue_params list) io) \<Rightarrow> string list \<Rightarrow> string list \<Rightarrow> queue_params list
    \<Rightarrow> ('s, go_error, queue_params list) io" where
  "collect_queues bound [] seen queues = ret queues"
| "collect_queues bound (p # ps) seen queues =
     and_then (bound p) (\<lambda>qs. case add_unseen qs seen queues of (seen', queues') \<Rightarrow> collect_queues bound ps seen' queues')"

definition Topic_MatchQueues :: "'s redis_server \<Rightarrow> exchange_params \<Rightarrow> string \<Rightarrow> ('s, go_error, queue_params list) io" where
  "Topic_MatchQueues rd exchangeParams routingKey =
     and_then (ValidateType rd exchangeParams True) (\<lambda>_.
     and_then (topic_patterns rd exchangeParams) (\<lambda>patterns.
     let matchedPatterns = filter (matchTopicPattern routingKey) patterns in
     if matchedPatterns = [] then ret []
     else collect_queues (topic_boundQueues rd exchangeParams) matchedPatterns [] []))"

definition Topic_Patterns :: "'s redis_server \<Rightarrow> exchange_params \<Rightarrow> ('s, go_error, string list) io" where
  "Topic_Patterns rd exchangeParams =
     and_then (ValidateType rd exchangeParams True) (\<lambda>_. topic_patterns rd exchangeParams)"

definition Topic_BoundQueues :: "'s redis_server \<Rightarrow> exchange_params \<Rightarrow> string \<Rightarrow> ('s, go_error, queue_params list) io" where
  "Topic_BoundQueues rd exchangeParams pattern =
     and_then (ValidateType rd exchangeParams True) (\<lambda>_. topic_boundQueues rd exchangeParams pattern)"

definition Topic_Bindings :: "'s redis_server \<Rightarrow> exchange_params \<Rightarrow> ('s, go_error, (string, queue_params list) fmap) io" where
  "Topic_Bindings rd exchangeParams =
     and_then (ValidateType rd exchangeParams True) (\<lambda>_.
     and_then (topic_patterns rd exchangeParams) (\<lambda>patterns.
     fill_map (topic_boundQueues rd exchangeParams) patterns fmempty))"

definition Topic_Delete :: "'s redis_server \<Rightarrow> exchange_params \<Rightarrow> ('s, go_error, unit) io" where
  "Topic_Delete rd exchangeParams =
     (let exKey = xkey exchangeParams in
      and_then (topic_patterns rd exchangeParams) (\<lambda>allPatterns.
      let watchKeys = [Exchange_Exchange exKey, Exchange_BindingPatterns exKey, System_AllExchanges,
            Namespace_Exchanges (xp_ns exchangeParams)] @ map (Exchange_PatternQueues exKey) allPatterns
      in WithTransaction rd watchKeys 5
           (delete_txf rd (Exchange_BindingPatterns exKey) (Exchange_PatternQueues exKey) exchangeParams allPatterns)))"

subsection \<open>Fanout exchanges\<close>

definition Fanout_Create :: "'s redis_server \<Rightarrow> exchange_params \<Rightarrow> Policy \<Rightarrow> ('s, go_error, unit) io" where
  "Fanout_Create rd params policy =
     (if xp_typ params \<noteq> TypeFanout then throw (ExchangeErr X_ErrTypeMismatch) else Exchange_Save rd params policy)"

definition Fanout_BindQueue :: "'s redis_server \<Rightarrow> queue_params \<Rightarrow> exchange_params \<Rightarrow> ('s, go_error, unit) io" where
  "Fanout_BindQueue rd queueParams exchangeParams =
     (if qp_ns queueParams \<noteq> xp_ns exchangeParams then throw (ExchangeErr X_ErrNamespaceMismatch)
      else
        let exKey = xkey exchangeParams; qKey = qkey queueParams;
            queueStr = EncodeParams queueParams; exchangeStr = Exchange_EncodeParams exchangeParams;
            watchKeys = [Exchange_Exchange exKey, Exchange_Properties exKey, Exchange_FanoutQueues exKey,
              Queue_ExchangeBindings qKey, System_AllExchanges, Namespace_Exchanges (xp_ns exchangeParams)];
            txf =
              and_then (ValidateQueueBinding rd exchangeParams queueParams) (\<lambda>_.
              and_then (map_err RedisErr (sismember rd (Exchange_FanoutQueues exKey) queueStr)) (\<lambda>isMember.
              if isMember then throw (ExchangeErr X_ErrQueueAlreadyBound)
              else and_then (map_err RedisErr (tx_exec rd
                [HSET (Exchange_Properties exKey) [(X_Type, itoa (xp_typ exchangeParams))],
                 SADD System_AllExchanges [exchangeStr],
                 SADD (Namespace_Exchanges (xp_ns exchangeParams)) [exchangeStr],
                 SADD (Exchange_FanoutQueues exKey) [queueStr],
                 SADD (Queue_ExchangeBindings qKey) [exchangeStr]])) (\<lambda>_. ret ())))
        in WithTransaction rd watchKeys 5 txf)"

definition Fanout_UnbindQueue :: "'s redis_server \<Rightarrow> queue_params \<Rightarrow> exchange_params \<Rightarrow> ('s, go_error, unit) io" where
  "Fanout_UnbindQueue rd queueParams exchangeParams =
     (if qp_ns queueParams \<noteq> xp_ns exchangeParams then throw (ExchangeErr X_ErrNamespaceMismatch)
      else
        let exKey = xkey exchangeParams; qKey = qkey queueParams;
            queueStr = EncodeParams queueParams; exchangeStr = Exchange_EncodeParams exchangeParams;
            watchKeys = [Exchange_Exchange exKey, Exchange_FanoutQueues exKey, Queue_ExchangeBindings qKey];
            txf =
              and_then (ValidateType rd exchangeParams True) (\<lambda>_.
              and_then (map_err RedisErr (sismember rd (Exchange_FanoutQueues exKey) queueStr)) (\<lambda>isMember.
              if \<not> isMember then throw (ExchangeErr X_ErrQueueNotBound)
              else and_then (map_err RedisErr (tx_exec rd
                [SREM (Exchange_FanoutQueues exKey) [queueStr],
                 SREM (Queue_ExchangeBindings qKey) [exchangeStr]])) (\<lambda>_. ret ())))
        in WithTransaction rd watchKeys 5 txf)"

definition Fanout_BoundQueues :: "'s redis_server \<Rightarrow> exchange_params \<Rightarrow> ('s, go_error, queue_params list) io" where
  "Fanout_BoundQueues rd exchangeParams =
     and_then (ValidateType rd exchangeParams True) (\<lambda>_.
     and_then (LoadSetMembers rd (Exchange_FanoutQueues (xkey exchangeParams))
       (''queues for fanout exchange '' @ xp_ns exchangeParams @ ''/'' @ xp_name exchangeParams)) (\<lambda>members.
     ret (DecodeParamsSlice members)))"

definition Fanout_MatchQueues :: "'s redis_server \<Rightarrow> exchange_params \<Rightarrow> ('s, go_error, queue_params list) io" where
  "Fanout_MatchQueues rd exchangeParams = Fanout_BoundQueues rd exchangeParams"

definition Fanout_Delete :: "'s redis_server \<Rightarrow> exchange_params \<Rightarrow> ('s, go_error, unit) io" where
  "Fanout_Delete rd exchangeParams =
     (let exKey = xkey exchangeParams; exchangeStr = Exchange_EncodeParams exchangeParams;
          watchKeys = [Exchange_Exchange exKey, Exchange_FanoutQueues exKey, System_AllExchanges,
            Namespace_Exchanges (xp_ns exchangeParams)];
          txf =
            and_then (ValidateType rd exchangeParams True) (\<lambda>_.
            and_then (check_unbound rd (\<lambda>_. Exchange_FanoutQueues exKey) [[]]) (\<lambda>_.
            and_then (map_err RedisErr (tx_exec rd
              [DEL [Exchange_Exchange exKey], DEL [Exchange_Properties exKey], DEL [Exchange_FanoutQueues exKey],
               SREM System_AllExchanges [exchangeStr],
               SREM (Namespace_Exchanges (xp_ns exchangeParams)) [exchangeStr]])) (\<lambda>_. ret ())))
      in WithTransaction rd watchKeys 5 txf)"

end
