(* ===== verification/Binding_Index.thy ===== *)
theory Binding_Index
  imports Exchange_Bindings
begin

text \<open>
  What the transactions of the direct and the topic store do to the three levels of the binding
  data (the index of keys, the queues of each key, the exchanges of each queue), proved once in the
  locale \<open>binding_index\<close> over the key functions and interpreted on the keys of both stores.
  \<open>index_inv\<close> is the agreement of the three levels that binding and unbinding preserve.
\<close>

locale binding_index =
  fixes index :: "exchange_params \<Rightarrow> string" and queues :: "exchange_params \<Rightarrow> string \<Rightarrow> string"
  assumes queues_inj: "queues x k = queues x k' \<longleftrightarrow> k = k'"
    and index_apart: "index x \<noteq> queues x k" "index x \<noteq> Exchange_Properties (xkey x)"
      "index x \<noteq> System_AllExchanges" "valid_exchange x \<Longrightarrow> index x \<noteq> Namespace_Exchanges (xp_ns x)"
      "index x \<noteq> Exchange_Exchange (xkey x)"
    and queues_apart: "queues x k \<noteq> Exchange_Properties (xkey x)" "queues x k \<noteq> System_AllExchanges"
      "valid_exchange x \<Longrightarrow> queues x k \<noteq> Namespace_Exchanges (xp_ns x)" "queues x k \<noteq> Exchange_Exchange (xkey x)"
    and bindings_apart: "valid_params q \<Longrightarrow> valid_exchange x \<Longrightarrow> Queue_ExchangeBindings (qkey q) \<noteq> index x"
      "valid_params q \<Longrightarrow> valid_exchange x \<Longrightarrow> Queue_ExchangeBindings (qkey q) \<noteq> queues x k"

text \<open>The keys of the model.\<close>

lemma seg_neq:
  assumes "CHR '':'' \<notin> set a" and "CHR '':'' \<notin> set b" and "s \<noteq> t" and "CHR '':'' \<notin> set s" and "CHR '':'' \<notin> set t"
  shows "Key ([''ns'', a, s] @ xs) \<noteq> Key ([''ns'', b, t] @ ys)"
proof
  assume "Key ([''ns'', a, s] @ xs) = Key ([''ns'', b, t] @ ys)"
  then have "a @ key_parts (s # xs) = b @ key_parts (t # ys)" by (simp add: Key_eq_iff)
  then have "s @ key_parts xs = t @ key_parts ys"
    using colon_split [OF assms(1,2), of "s # xs" "t # ys"] by simp
  then have "s = t" using colon_split [OF assms(4,5), of xs ys] by simp
  with assms(3) show False by simp
qed

lemma bindings_key_neq:
  assumes "valid_params q" and "valid_exchange x"
  shows "Queue_ExchangeBindings (qkey q) \<noteq> Exchange_sub (xkey x) ys"
    and "Queue_ExchangeBindings (qkey q) \<noteq> Namespace_Exchanges (xp_ns x)"
proof -
  have c: "CHR '':'' \<notin> set (qp_ns q)" "CHR '':'' \<notin> set (xp_ns x)"
    using assms valid_key_no_colon by (auto simp: valid_params_def valid_exchange_def)
  show "Queue_ExchangeBindings (qkey q) \<noteq> Exchange_sub (xkey x) ys"
    using seg_neq [OF c, of "''q''" "''exs''" "[qp_name q, ''bind'']" "xp_name x # ys"]
    by (simp add: Queue_ExchangeBindings_def Queue_sub_def Exchange_sub_def qkey_def xkey_def)
  show "Queue_ExchangeBindings (qkey q) \<noteq> Namespace_Exchanges (xp_ns x)"
    using seg_neq [OF c, of "''q''" "''exs''" "[qp_name q, ''bind'']" "[]"]
    by (simp add: Queue_ExchangeBindings_def Queue_sub_def Namespace_Exchanges_def qkey_def)
qed

lemma bindings_key_system: "Queue_ExchangeBindings k \<noteq> System_AllExchanges"
  by (simp add: key_defs Key_eq_iff)

lemma bindings_key_inject:
  assumes "valid_params p" and "valid_params q" and "Queue_ExchangeBindings (qkey p) = Queue_ExchangeBindings (qkey q)"
  shows "p = q"
proof -
  have c: "\<forall>s \<in> set [''ns'', qp_ns p, ''q'', qp_name p, ''bind'']. CHR '':'' \<notin> set s"
      "\<forall>s \<in> set [''ns'', qp_ns q, ''q'', qp_name q, ''bind'']. CHR '':'' \<notin> set s"
    using assms valid_key_no_colon by (auto simp: valid_params_def)
  have "key_parts [''ns'', qp_ns p, ''q'', qp_name p, ''bind''] = key_parts [''ns'', qp_ns q, ''q'', qp_name q, ''bind'']"
    using assms(3) by (simp add: Queue_ExchangeBindings_def Queue_sub_def qkey_def Key_eq_iff)
  from key_parts_inject [OF c this] show ?thesis by (simp add: queue_params.equality)
qed

lemmas exchange_key_simps = key_defs Key_eq_iff xkey_def

interpretation direct: binding_index "\<lambda>x. Exchange_RoutingKeys (xkey x)" "\<lambda>x. Exchange_RoutingKeyQueues (xkey x)"
proof
  fix x k q assume "valid_params q" "valid_exchange x"
  from bindings_key_neq(1) [OF this]
  show "Queue_ExchangeBindings (qkey q) \<noteq> Exchange_RoutingKeys (xkey x)"
    "Queue_ExchangeBindings (qkey q) \<noteq> Exchange_RoutingKeyQueues (xkey x) k"
    by (simp_all add: Exchange_RoutingKeys_def Exchange_RoutingKeyQueues_def)
qed (simp_all add: exchange_key_simps)

interpretation topic: binding_index "\<lambda>x. Exchange_BindingPatterns (xkey x)" "\<lambda>x. Exchange_PatternQueues (xkey x)"
proof
  fix x k q assume "valid_params q" "valid_exchange x"
  from bindings_key_neq(1) [OF this]
  show "Queue_ExchangeBindings (qkey q) \<noteq> Exchange_BindingPatterns (xkey x)"
    "Queue_ExchangeBindings (qkey q) \<noteq> Exchange_PatternQueues (xkey x) k"
    by (simp_all add: Exchange_BindingPatterns_def Exchange_PatternQueues_def)
qed (simp_all add: exchange_key_simps)

subsection \<open>Typed databases, the invariant, the effects\<close>

text \<open>Queues that may be bound to an exchange: well-formed and in its namespace.\<close>

definition bindable :: "exchange_params \<Rightarrow> queue_params \<Rightarrow> bool" where
  "bindable x q \<longleftrightarrow> valid_params q \<and> qp_ns q = xp_ns x"

definition index_typed :: "string \<Rightarrow> (string \<Rightarrow> string) \<Rightarrow> db \<Rightarrow> exchange_params \<Rightarrow> bool" where
  "index_typed index queues d x \<longleftrightarrow>
     \<not> isl (get_hash d (Exchange_Properties (xkey x))) \<and> \<not> isl (get_set d System_AllExchanges) \<and>
     \<not> isl (get_set d (Namespace_Exchanges (xp_ns x))) \<and> \<not> isl (get_set d index) \<and>
     (\<forall>k. \<not> isl (get_set d (queues k))) \<and>
     (\<forall>q. bindable x q \<longrightarrow> \<not> isl (get_set d (Queue_ExchangeBindings (qkey q))))"

definition exchange_hash :: "db \<Rightarrow> exchange_params \<Rightarrow> (string, string) fmap" where
  "exchange_hash d x = projr (get_hash d (Exchange_Properties (xkey x)))"

lemma index_typedD:
  assumes "index_typed index queues d x"
  shows "get_hash d (Exchange_Properties (xkey x)) = Inr (exchange_hash d x)"
    and "get_set d System_AllExchanges = Inr (set_at d System_AllExchanges)"
    and "get_set d (Namespace_Exchanges (xp_ns x)) = Inr (set_at d (Namespace_Exchanges (xp_ns x)))"
    and "get_set d index = Inr (set_at d index)"
    and "get_set d (queues k) = Inr (set_at d (queues k))"
    and "bindable x q \<Longrightarrow> get_set d (Queue_ExchangeBindings (qkey q)) = Inr (set_at d (Queue_ExchangeBindings (qkey q)))"
  using assms by (auto simp: index_typed_def exchange_hash_def set_at_def isl_def)

text \<open>A key is in the index exactly while some queue is bound under it; an exchange is among those
  of a queue exactly while the queue is bound under some key; only bindable queues are bound.\<close>

definition index_inv :: "string \<Rightarrow> (string \<Rightarrow> string) \<Rightarrow> db \<Rightarrow> exchange_params \<Rightarrow> bool" where
  "index_inv index queues d x \<longleftrightarrow>
     (\<forall>k. k |\<in>| set_at d index \<longleftrightarrow> set_at d (queues k) \<noteq> {||}) \<and>
     (\<forall>q. bindable x q \<longrightarrow>
        (Exchange_EncodeParams x |\<in>| set_at d (Queue_ExchangeBindings (qkey q)) \<longleftrightarrow>
         (\<exists>k. EncodeParams q |\<in>| set_at d (queues k)))) \<and>
     (\<forall>k m. m |\<in>| set_at d (queues k) \<longrightarrow> (\<exists>q. bindable x q \<and> m = EncodeParams q))"

definition bound_db :: "string \<Rightarrow> (string \<Rightarrow> string) \<Rightarrow> queue_params \<Rightarrow> exchange_params \<Rightarrow> string \<Rightarrow> db \<Rightarrow> db" where
  "bound_db index queues q x k d =
     (let X = Exchange_EncodeParams x in
      put_set (Queue_ExchangeBindings (qkey q)) (finsert X (set_at d (Queue_ExchangeBindings (qkey q))))
     (put_set (queues k) (finsert (EncodeParams q) (set_at d (queues k)))
     (put_set index (finsert k (set_at d index))
     (put_set (Namespace_Exchanges (xp_ns x)) (finsert X (set_at d (Namespace_Exchanges (xp_ns x))))
     (put_set System_AllExchanges (finsert X (set_at d System_AllExchanges))
     (put_hash (Exchange_Properties (xkey x)) (fmupd X_Type (itoa (xp_typ x)) (exchange_hash d x)) d))))))"

definition elsewhere :: "string \<Rightarrow> (string \<Rightarrow> string) \<Rightarrow> queue_params \<Rightarrow> string \<Rightarrow> db \<Rightarrow> bool" where
  "elsewhere index queues q k d \<longleftrightarrow> (\<exists>k' \<in> fset (set_at d index). k' \<noteq> k \<and> EncodeParams q |\<in>| set_at d (queues k'))"

definition unbound_db :: "string \<Rightarrow> (string \<Rightarrow> string) \<Rightarrow> queue_params \<Rightarrow> exchange_params \<Rightarrow> string \<Rightarrow> db \<Rightarrow> db" where
  "unbound_db index queues q x k d =
     (let d1 = put_set (queues k) (set_at d (queues k) |-| {|EncodeParams q|}) d;
          d2 = (if fcard (set_at d (queues k)) = 1 then put_set index (set_at d index |-| {|k|}) d1 else d1)
      in if elsewhere index queues q k d then d2
         else put_set (Queue_ExchangeBindings (qkey q))
                (set_at d (Queue_ExchangeBindings (qkey q)) |-| {|Exchange_EncodeParams x|}) d2)"

context binding_index
begin

lemma bound_views:
  assumes "valid_exchange x" and "bindable x q"
  shows "set_at (bound_db (index x) (queues x) q x k d) (index x) = finsert k (set_at d (index x))"
    and "set_at (bound_db (index x) (queues x) q x k d) (queues x k') =
      (if k' = k then finsert (EncodeParams q) (set_at d (queues x k)) else set_at d (queues x k'))"
    and "bindable x p \<Longrightarrow> set_at (bound_db (index x) (queues x) q x k d) (Queue_ExchangeBindings (qkey p)) =
      (if p = q then finsert (Exchange_EncodeParams x) (set_at d (Queue_ExchangeBindings (qkey q)))
       else set_at d (Queue_ExchangeBindings (qkey p)))"
proof -
  have q: "valid_params q" using assms(2) by (simp add: bindable_def)
  show "set_at (bound_db (index x) (queues x) q x k d) (index x) = finsert k (set_at d (index x))"
    using assms(1) index_apart bindings_apart [OF q assms(1), symmetric] by (simp add: bound_db_def Let_def)
  show "set_at (bound_db (index x) (queues x) q x k d) (queues x k') =
      (if k' = k then finsert (EncodeParams q) (set_at d (queues x k)) else set_at d (queues x k'))"
    using assms(1) queues_apart index_apart(1) [symmetric] queues_inj bindings_apart [OF q assms(1), symmetric]
    by (simp add: bound_db_def Let_def)
  assume "bindable x p"
  then have p: "valid_params p" by (simp add: bindable_def)
  note neq' = bindings_apart [OF p assms(1)] bindings_key_neq [OF p assms(1)] bindings_key_system
    bindings_key_neq(1) [OF p assms(1), of "[''prop'']", folded Exchange_Properties_def]
  have "p \<noteq> q \<Longrightarrow> Queue_ExchangeBindings (qkey p) \<noteq> Queue_ExchangeBindings (qkey q)"
    using bindings_key_inject [OF p q] by blast
  then show "set_at (bound_db (index x) (queues x) q x k d) (Queue_ExchangeBindings (qkey p)) =
      (if p = q then finsert (Exchange_EncodeParams x) (set_at d (Queue_ExchangeBindings (qkey q)))
       else set_at d (Queue_ExchangeBindings (qkey p)))"
    using neq' by (simp add: bound_db_def Let_def)
qed

lemma bound_inv:
  assumes "valid_exchange x" and "bindable x q" and inv: "index_inv (index x) (queues x) d x"
  shows "index_inv (index x) (queues x) (bound_db (index x) (queues x) q x k d) x"
proof -
  have enc: "EncodeParams p = EncodeParams q \<longleftrightarrow> p = q" if "bindable x p" for p
    using that assms(2) EncodeParams_inject by (simp add: bindable_def)
  let ?d = "bound_db (index x) (queues x) q x k d"
  have 2: "Exchange_EncodeParams x |\<in>| set_at ?d (Queue_ExchangeBindings (qkey p)) \<longleftrightarrow>
      (\<exists>k'. EncodeParams p |\<in>| set_at ?d (queues x k'))" if p: "bindable x p" for p
  proof (cases "p = q")
    case True
    then show ?thesis
      unfolding bound_views(2) [OF assms(1,2)] bound_views(3) [OF assms(1,2) p] by auto
  next
    case False
    with enc [OF p] have "EncodeParams p |\<in>| set_at ?d (queues x k') \<longleftrightarrow> EncodeParams p |\<in>| set_at d (queues x k')" for k'
      unfolding bound_views(2) [OF assms(1,2)] by simp
    with False inv p show ?thesis
      unfolding bound_views(3) [OF assms(1,2) p] by (simp add: index_inv_def)
  qed
  show ?thesis
    unfolding index_inv_def
  proof (intro conjI allI impI)
    show "k' |\<in>| set_at ?d (index x) \<longleftrightarrow> set_at ?d (queues x k') \<noteq> {||}" for k'
      unfolding bound_views(1,2) [OF assms(1,2)] using inv by (simp add: index_inv_def)
    show "\<exists>q'. bindable x q' \<and> m = EncodeParams q'" if "m |\<in>| set_at ?d (queues x k')" for k' m
      using that inv assms(2) unfolding bound_views(2) [OF assms(1,2)] by (auto simp: index_inv_def split: if_splits)
  qed (rule 2)
qed

lemma unbound_views:
  assumes "valid_exchange x" and "bindable x q"
  shows "set_at (unbound_db (index x) (queues x) q x k d) (index x) =
      (if fcard (set_at d (queues x k)) = 1 then set_at d (index x) |-| {|k|} else set_at d (index x))"
    and "set_at (unbound_db (index x) (queues x) q x k d) (queues x k') =
      (if k' = k then set_at d (queues x k) |-| {|EncodeParams q|} else set_at d (queues x k'))"
    and "bindable x p \<Longrightarrow> set_at (unbound_db (index x) (queues x) q x k d) (Queue_ExchangeBindings (qkey p)) =
      (if p = q \<and> \<not> elsewhere (index x) (queues x) q k d
       then set_at d (Queue_ExchangeBindings (qkey q)) |-| {|Exchange_EncodeParams x|}
       else set_at d (Queue_ExchangeBindings (qkey p)))"
proof -
  have q: "valid_params q" using assms(2) by (simp add: bindable_def)
  show "set_at (unbound_db (index x) (queues x) q x k d) (index x) =
      (if fcard (set_at d (queues x k)) = 1 then set_at d (index x) |-| {|k|} else set_at d (index x))"
    using assms(1) index_apart bindings_apart [OF q assms(1), symmetric]
    by (simp add: unbound_db_def Let_def)
  show "set_at (unbound_db (index x) (queues x) q x k d) (queues x k') =
      (if k' = k then set_at d (queues x k) |-| {|EncodeParams q|} else set_at d (queues x k'))"
    using assms(1) queues_apart index_apart(1) [symmetric] queues_inj bindings_apart [OF q assms(1), symmetric]
    by (simp add: unbound_db_def Let_def)
  assume "bindable x p"
  then have p: "valid_params p" by (simp add: bindable_def)
  have "p \<noteq> q \<Longrightarrow> Queue_ExchangeBindings (qkey p) \<noteq> Queue_ExchangeBindings (qkey q)"
    using bindings_key_inject [OF p q] by blast
  then show "set_at (unbound_db (index x) (queues x) q x k d) (Queue_ExchangeBindings (qkey p)) =
      (if p = q \<and> \<not> elsewhere (index x) (queues x) q k d
       then set_at d (Queue_ExchangeBindings (qkey q)) |-| {|Exchange_EncodeParams x|}
       else set_at d (Queue_ExchangeBindings (qkey p)))"
    using bindings_apart [OF p assms(1)] by (simp add: unbound_db_def Let_def)
qed

lemma unbound_inv:
  assumes "valid_exchange x" and "bindable x q" and inv: "index_inv (index x) (queues x) d x"
    and bound: "EncodeParams q |\<in>| set_at d (queues x k)"
  shows "index_inv (index x) (queues x) (unbound_db (index x) (queues x) q x k d) x"
proof -
  let ?B = "\<lambda>k. set_at d (queues x k)" and ?d = "unbound_db (index x) (queues x) q x k d"
  have enc: "EncodeParams p = EncodeParams q \<longleftrightarrow> p = q" if "bindable x p" for p
    using that assms(2) EncodeParams_inject by (simp add: bindable_def)
  have idx: "k' |\<in>| set_at d (index x) \<longleftrightarrow> ?B k' \<noteq> {||}" for k' using inv by (simp add: index_inv_def)
  have last: "fcard (?B k) = 1 \<longleftrightarrow> ?B k |-| {|EncodeParams q|} = {||}"
  proof -
    have "fcard (?B k) = Suc (fcard (?B k |-| {|EncodeParams q|}))"
      by (rule fcard_Suc_fminus1 [OF bound, symmetric])
    then have "fcard (?B k) = 1 \<longleftrightarrow> fcard (?B k |-| {|EncodeParams q|}) = 0" by linarith
    then show ?thesis by (simp only: fcard_0_eq)
  qed
  have 1: "k' |\<in>| set_at ?d (index x) \<longleftrightarrow> set_at ?d (queues x k') \<noteq> {||}" for k'
    unfolding unbound_views(1,2) [OF assms(1,2)] using idx last bound by auto
  have 2: "Exchange_EncodeParams x |\<in>| set_at ?d (Queue_ExchangeBindings (qkey p)) \<longleftrightarrow>
      (\<exists>k'. EncodeParams p |\<in>| set_at ?d (queues x k'))" if p: "bindable x p" for p
  proof (cases "p = q")
    case True
    have "elsewhere (index x) (queues x) q k d \<longleftrightarrow> (\<exists>k'. k' \<noteq> k \<and> EncodeParams q |\<in>| ?B k')"
      using idx by (auto simp: elsewhere_def)
    moreover have "Exchange_EncodeParams x |\<in>| set_at d (Queue_ExchangeBindings (qkey q))"
      using inv assms(2) bound by (auto simp: index_inv_def)
    ultimately show ?thesis
      unfolding unbound_views(2) [OF assms(1,2)] unbound_views(3) [OF assms(1,2) p] using True by auto
  next
    case False
    with enc [OF p] have "EncodeParams p \<noteq> EncodeParams q" by simp
    with False inv p show ?thesis
      unfolding unbound_views(2) [OF assms(1,2)] unbound_views(3) [OF assms(1,2) p]
      by (auto simp: index_inv_def)
  qed
  have 3: "\<exists>q'. bindable x q' \<and> m = EncodeParams q'" if "m |\<in>| set_at ?d (queues x k')" for k' m
    using that inv unfolding unbound_views(2) [OF assms(1,2)] by (auto simp: index_inv_def split: if_splits)
  from 1 2 3 show ?thesis by (auto simp: index_inv_def)
qed

end

subsection \<open>The transactions on Redis\<close>

text \<open>How a transaction refuses: with the error of the closure, or after too many aborted attempts.\<close>

definition tx_refused :: "(go_error \<Rightarrow> bool) \<Rightarrow> go_error \<Rightarrow> bool" where
  "tx_refused R e \<longleftrightarrow>
     (\<exists>n. e = Errorf (''transaction failed after '' @ itoa n @ '' attempts'')) \<or>
     (\<exists>e'. e = Wrapf ''transaction failed'' e' \<and> R e')"

definition bind_refused :: "(string \<Rightarrow> string) \<Rightarrow> db \<Rightarrow> exchange_params \<Rightarrow> queue_params \<Rightarrow> string \<Rightarrow> go_error \<Rightarrow> bool" where
  "bind_refused queues d x q k e \<longleftrightarrow>
     binding_refused d x q e \<or> e = ExchangeErr X_ErrQueueAlreadyBound \<and> EncodeParams q |\<in>| set_at d (queues k)"

definition delete_refused :: "(string \<Rightarrow> string) \<Rightarrow> db \<Rightarrow> exchange_params \<Rightarrow> go_error \<Rightarrow> bool" where
  "delete_refused queues d x e \<longleftrightarrow>
     type_refused d x e \<or> e = ExchangeErr X_ErrHasBoundQueues \<and> (\<exists>k. set_at d (queues k) \<noteq> {||})"

definition exchange_deleted_db :: "string \<Rightarrow> (string \<Rightarrow> string) \<Rightarrow> exchange_params \<Rightarrow> string list \<Rightarrow> db \<Rightarrow> db" where
  "exchange_deleted_db index queues x ks d =
     del_keys (map queues ks)
     (put_set (Namespace_Exchanges (xp_ns x)) (set_at d (Namespace_Exchanges (xp_ns x)) |-| {|Exchange_EncodeParams x|})
     (put_set System_AllExchanges (set_at d System_AllExchanges |-| {|Exchange_EncodeParams x|})
     (del_keys [index] (del_keys [Exchange_Properties (xkey x)] (del_keys [Exchange_Exchange (xkey x)] d)))))"

definition unbind_refused :: "(string \<Rightarrow> string) \<Rightarrow> db \<Rightarrow> exchange_params \<Rightarrow> queue_params \<Rightarrow> string \<Rightarrow> go_error \<Rightarrow> bool" where
  "unbind_refused queues d x q k e \<longleftrightarrow>
     type_refused d x e \<or> e = ExchangeErr X_ErrQueueNotBound \<and> EncodeParams q |\<notin>| set_at d (queues k)"

locale redis_bindings = redis rd db lua + binding_index index queues
  for rd :: "'s redis_server" and db :: "'s \<Rightarrow> db" and lua :: "ID \<Rightarrow> script"
    and index :: "exchange_params \<Rightarrow> string" and queues :: "exchange_params \<Rightarrow> string \<Rightarrow> string"
begin

lemma tx_effect:
  assumes "effect db d d' ok (\<lambda>e. e = RedisErr TxFailedErr \<or> R e) fn"
  shows "effect db d d' ok (tx_refused R) (WithTransaction rd ks n fn)"
  by (rule effect_WithTransaction [OF assms]) (auto simp: tx_refused_def)

lemma bind_run:
  assumes "valid_exchange x" and "bindable x q" and typed: "index_typed (index x) (queues x) d x"
  shows "multi_ok en
    [HSET (Exchange_Properties (xkey x)) [(X_Type, itoa (xp_typ x))],
     SADD System_AllExchanges [Exchange_EncodeParams x],
     SADD (Namespace_Exchanges (xp_ns x)) [Exchange_EncodeParams x],
     SADD (index x) [k],
     SADD (queues x k) [EncodeParams q],
     SADD (Queue_ExchangeBindings (qkey q)) [Exchange_EncodeParams x]] d (bound_db (index x) (queues x) q x k d)"
proof -
  have q: "valid_params q" using assms(2) by (simp add: bindable_def)
  note t = index_typedD(1-5) [OF typed] index_typedD(6) [OF typed assms(2)]
  have ns: "Namespace_Exchanges (xp_ns x) \<noteq> System_AllExchanges"
      "Namespace_Exchanges (xp_ns x) \<noteq> Exchange_Properties (xkey x)"
      "System_AllExchanges \<noteq> Exchange_Properties (xkey x)"
    by (simp_all add: exchange_key_simps)
  note neq = ns index_apart(2,3) index_apart(4) [OF assms(1)] queues_apart(1,2) queues_apart(3) [OF assms(1)]
    index_apart(1) [symmetric] bindings_apart [OF q assms(1)] bindings_key_neq(2) [OF q assms(1)] bindings_key_system
    bindings_key_neq(1) [OF q assms(1), of "[''prop'']", folded Exchange_Properties_def]
  show ?thesis
    unfolding bound_db_def Let_def
    by (rule multi_ok_steps, simp add: t neq)+ (simp add: t neq multi_ok_Nil hset_all_def)
qed

lemma is_bound:
  assumes "index_typed (index x) (queues x) d x" and "db s = d"
    and "map_err RedisErr (sismember rd (queues x k) (EncodeParams q)) s = (Inr b, s1)"
  shows "b \<longleftrightarrow> EncodeParams q |\<in>| set_at d (queues x k)"
  using assms(2,3) index_typedD(5) [OF assms(1), of k] sismember_ok [of "queues x k" "EncodeParams q" s b s1]
  by (auto simp: map_err_ok)

lemma index_members:
  assumes "index_typed (index x) (queues x) d x" and "db s = d"
    and "map_err RedisErr (smembers rd (index x)) s = (Inr ks, s1)"
  shows "set ks = fset (set_at d (index x))"
proof -
  have "smembers rd (index x) s = (Inr ks, s1)" using assms(3) by (simp add: map_err_ok)
  from smembers_ok [OF this] assms(2) obtain S where "get_set d (index x) = Inr S" "set ks = fset S" by blast
  with index_typedD(4) [OF assms(1)] show ?thesis by simp
qed

lemma bind_effect:
  assumes "valid_exchange x" and "bindable x q" and typed: "index_typed (index x) (queues x) d x"
  shows "effect db d (bound_db (index x) (queues x) q x k d)
    (\<lambda>_. EncodeParams q |\<notin>| set_at d (queues x k) \<and>
       (\<exists>qh qp. get_hash d (Queue_Properties (qkey q)) = Inr qh \<and> DecodeProps qh = Inr qp))
    (tx_refused (bind_refused (queues x) d x q k))
    (WithTransaction rd ks n (bind_txf rd (index x) (queues x) q x k))"
  unfolding bind_txf_def Let_def
proof (intro tx_effect effect_after [OF ValidateQueueBinding_keeps] effect_fetch [OF fetches_calls(1)]
    effect_if effect_throw effect_tx bind_run [OF assms], goal_cases)
  case (1 s e s1)
  with ValidateQueueBinding_outcome [OF 1(2)] show ?case by (auto simp: bind_refused_def)
next
  case (2 s y s1 s' b s1')
  with is_bound [OF typed, of s' k q b s1'] show ?case by (simp add: bind_refused_def)
next
  case (4 s y s1 s' b s1')
  with is_bound [OF typed, of s' k q b s1'] ValidateQueueBinding_outcome [OF 4(2)] show ?case by simp
qed simp

lemma still_bound_fetches: "fetches db (still_bound rd (queues x) qs k ks)"
proof (induction ks)
  case Nil
  then show ?case by (simp only: still_bound.simps fetches_ret)
next
  case (Cons k' ks)
  then show ?case unfolding still_bound.simps
    by (intro fetches_if fetches_and_then fetches_calls fetches_ret)
qed

lemma still_bound_value:
  assumes typed: "index_typed (index x) (queues x) d x"
  shows "db s = d \<Longrightarrow> still_bound rd (queues x) (EncodeParams q) k ks s = (Inr b, s1) \<Longrightarrow>
    b \<longleftrightarrow> (\<exists>k' \<in> set ks. k' \<noteq> k \<and> EncodeParams q |\<in>| set_at d (queues x k'))"
proof (induction ks arbitrary: s)
  case Nil
  then show ?case by (simp add: ret_def)
next
  case (Cons k' ks)
  show ?case
  proof (cases "k' = k")
    case True
    with Cons show ?thesis by simp
  next
    case False
    with Cons.prems obtain m s2 where m: "map_err RedisErr (sismember rd (queues x k') (EncodeParams q)) s = (Inr m, s2)"
      and rest: "(if m then ret True else still_bound rd (queues x) (EncodeParams q) k ks) s2 = (Inr b, s1)"
      by (auto simp: and_then_ok)
    have s2: "db s2 = d" using fetches_calls(1) m Cons.prems(1) by (auto simp: fetches_def dest: keepsD)
    from is_bound [OF typed Cons.prems(1) m] False rest Cons.IH [OF s2] show ?thesis
      by (cases m) (auto simp: ret_def)
  qed
qed

lemma unbind_run:
  assumes "valid_exchange x" and "bindable x q" and typed: "index_typed (index x) (queues x) d x"
    and "count = int (fcard (set_at d (queues x k)))" and "still \<longleftrightarrow> elsewhere (index x) (queues x) q k d"
  shows "multi_ok en
    ([SREM (queues x k) [EncodeParams q]] @ (if count = 1 then [SREM (index x) [k]] else []) @
     (if \<not> still then [SREM (Queue_ExchangeBindings (qkey q)) [Exchange_EncodeParams x]] else []))
    d (unbound_db (index x) (queues x) q x k d)"
proof -
  have q: "valid_params q" using assms(2) by (simp add: bindable_def)
  note t = index_typedD(4,5) [OF typed] index_typedD(6) [OF typed assms(2)]
  note neq = index_apart(1) bindings_apart [OF q assms(1)]
  show ?thesis
    using assms(4,5)
    by (cases "count = 1"; cases still)
      (simp_all add: unbound_db_def Let_def t neq multi_ok_Nil multi_ok_steps(2))
qed

lemma unbind_effect:
  assumes "valid_exchange x" and "bindable x q" and typed: "index_typed (index x) (queues x) d x"
  shows "effect db d (unbound_db (index x) (queues x) q x k d)
    (\<lambda>_. EncodeParams q |\<in>| set_at d (queues x k))
    (tx_refused (unbind_refused (queues x) d x q k))
    (WithTransaction rd ks n (unbind_txf rd (index x) (queues x) q x k))"
  unfolding unbind_txf_def Let_def
proof (intro tx_effect effect_after [OF ValidateType_keeps] effect_fetch [OF fetches_calls(1)]
    effect_fetch [OF fetches_calls(2)] effect_fetch [OF fetches_calls(3)] effect_fetch [OF still_bound_fetches]
    effect_if effect_throw effect_tx unbind_run [OF assms], goal_cases)
  case (1 s e s1)
  with ValidateType_outcome [OF 1(2)] show ?case by (auto simp: unbind_refused_def)
next
  case (2 s y s1 s' b s1')
  with is_bound [OF typed, of s' k q b s1'] show ?case by (simp add: unbind_refused_def)
next
  case (3 _ _ _ _ b _ _ ks _ _ st _ s count s1)
  then show ?case
    using index_typedD(5) [OF typed, of k] scard_ok [of "queues x k" s count s1] by (auto simp: map_err_ok)
next
  case (4 _ _ _ _ b _ s2 ks _ s3 st s4 s count s1)
  have "set ks = fset (set_at d (index x))" by (rule index_members [OF typed 4(6,7)])
  with still_bound_value [OF typed 4(8,9)] show ?case by (auto simp: elsewhere_def)
next
  case (6 _ _ _ s' b s1')
  with is_bound [OF typed, of s' k q b s1'] show ?case by simp
qed simp

lemma check_unbound_keeps: "keeps db (check_unbound rd (queues x) ks)"
proof (induction ks)
  case (Cons k ks)
  then show ?case unfolding check_unbound.simps by (intro keeps_intros)
qed (simp add: keeps_def ret_def)

lemma check_unbound_outcome:
  assumes typed: "index_typed (index x) (queues x) d x"
  shows "db s = d \<Longrightarrow> check_unbound rd (queues x) ks s = (r, s') \<Longrightarrow> (case r of
      Inr _ \<Rightarrow> \<forall>k \<in> set ks. set_at d (queues x k) = {||}
    | Inl e \<Rightarrow> redis_fault e \<or> e = ExchangeErr X_ErrHasBoundQueues \<and> (\<exists>k. set_at d (queues x k) \<noteq> {||}))"
proof (induction ks arbitrary: s)
  case Nil
  then show ?case by (auto simp: ret_def)
next
  case (Cons k ks)
  obtain r1 s1 where c: "map_err RedisErr (scard rd (queues x k)) s = (r1, s1)" by fastforce
  show ?case
  proof (cases r1)
    case (Inl e)
    with fetchesD [OF fetches_calls(3)] c Cons.prems show ?thesis by (auto simp: and_then_Inl)
  next
    case (Inr n)
    with c Cons.prems(1) have n: "n = int (fcard (set_at d (queues x k)))"
      using index_typedD(5) [OF typed, of k] scard_ok [of "queues x k" s n s1] by (auto simp: map_err_ok)
    have s1: "db s1 = d" using fetches_calls(3) c Cons.prems(1) by (auto simp: fetches_def dest: keepsD)
    have rest: "(if 0 < n then throw (ExchangeErr X_ErrHasBoundQueues) else check_unbound rd (queues x) ks) s1 = (r, s')"
      using Cons.prems(2) c Inr by (simp add: and_then_Inr)
    show ?thesis
    proof (cases "set_at d (queues x k) = {||}")
      case True
      with n rest have "check_unbound rd (queues x) ks s1 = (r, s')" by (simp add: fcard_pos)
      from Cons.IH [OF s1 this] True show ?thesis by (auto split: sum.splits)
    next
      case False
      with n have "0 < n" by (simp add: fcard_pos)
      with rest False show ?thesis by (auto simp: throw_def)
    qed
  qed
qed

lemma delete_effect:
  assumes "valid_exchange x" and typed: "index_typed (index x) (queues x) d x"
  shows "effect db d (exchange_deleted_db (index x) (queues x) x ks d)
    (\<lambda>_. \<forall>k \<in> set ks. set_at d (queues x k) = {||})
    (tx_refused (delete_refused (queues x) d x))
    (WithTransaction rd ws n (delete_txf rd (index x) (queues x) x ks))"
  unfolding delete_txf_def Let_def
proof (intro tx_effect effect_after [OF ValidateType_keeps] effect_after [OF check_unbound_keeps] effect_tx, goal_cases)
  case (1 s e s1)
  with ValidateType_outcome [OF 1(2)] show ?case by (auto simp: delete_refused_def)
next
  case (2 _ _ _ s e s1)
  with check_unbound_outcome [OF typed 2(3,4)] show ?case by (auto simp: delete_refused_def)
next
  case (3 _ _ _ _ _ _ en)
  have ns: "Namespace_Exchanges (xp_ns x) \<noteq> System_AllExchanges"
      "Namespace_Exchanges (xp_ns x) \<noteq> Exchange_Properties (xkey x)"
      "Namespace_Exchanges (xp_ns x) \<noteq> Exchange_Exchange (xkey x)"
      "System_AllExchanges \<noteq> Exchange_Properties (xkey x)" "System_AllExchanges \<noteq> Exchange_Exchange (xkey x)"
    by (simp_all add: exchange_key_simps)
  note neq = ns index_apart(3) [symmetric] index_apart(4) [OF assms(1), symmetric]
  show ?case
    unfolding exchange_deleted_db_def append_Cons append_Nil
    by (rule multi_ok_steps(4))+ (rule multi_ok_steps(2), simp add: index_typedD [OF typed] neq,
      rule multi_ok_steps(2), simp add: index_typedD [OF typed] neq, simp add: multi_ok_dels)
next
  case (5 _ _ _ s y s1)
  with check_unbound_outcome [OF typed 5(3,4)] show ?case by simp
qed simp

end

end
