(* ===== verification/Exchange_Routing.thy ===== *)
theory Exchange_Routing
  imports Binding_Index
begin

text \<open>
  The contracts of the direct, topic and fanout stores. The abstract state of an exchange is the set
  of pairs of a routing key (or pattern) and a queue that are bound; binding, unbinding and deleting
  refine insertion, removal and emptiness of that set, and \<open>MatchQueues\<close> is the image of the bound
  pairs whose key matches the routing key of the message.
\<close>

subsection \<open>The abstract state\<close>

definition bindings_of :: "(string \<Rightarrow> string) \<Rightarrow> db \<Rightarrow> exchange_params \<Rightarrow> (string \<times> queue_params) set" where
  "bindings_of queues d x = {(k, q). bindable x q \<and> EncodeParams q |\<in>| set_at d (queues k)}"

context redis_bindings
begin

lemma bindings_bound:
  assumes "valid_exchange x" and "bindable x q"
  shows "bindings_of (queues x) (bound_db (index x) (queues x) q x k d) x = insert (k, q) (bindings_of (queues x) d x)"
proof -
  have "EncodeParams p = EncodeParams q \<longleftrightarrow> p = q" if "bindable x p" for p
    using that assms(2) EncodeParams_inject by (simp add: bindable_def)
  then show ?thesis
    unfolding bindings_of_def bound_views(2) [OF assms] using assms(2) by (auto split: if_splits)
qed

lemma bindings_unbound:
  assumes "valid_exchange x" and "bindable x q"
  shows "bindings_of (queues x) (unbound_db (index x) (queues x) q x k d) x = bindings_of (queues x) d x - {(k, q)}"
proof -
  have "EncodeParams p = EncodeParams q \<longleftrightarrow> p = q" if "bindable x p" for p
    using that assms(2) EncodeParams_inject by (simp add: bindable_def)
  then show ?thesis
    unfolding bindings_of_def unbound_views(2) [OF assms] using assms(2) by (auto split: if_splits)
qed

lemma bind_outcome:
  assumes "valid_exchange x" and "bindable x q" and typed: "index_typed (index x) (queues x) (db s) x"
    and inv: "index_inv (index x) (queues x) (db s) x"
    and run: "WithTransaction rd ws n (bind_txf rd (index x) (queues x) q x k) s = (r, s')"
  defines "B \<equiv> bindings_of (queues x) (db s) x"
  shows "index_inv (index x) (queues x) (db s') x \<and> (case r of
      Inr _ \<Rightarrow> (k, q) \<notin> B \<and> bindings_of (queues x) (db s') x = insert (k, q) B
    | Inl e \<Rightarrow> redis_fault e \<and> bindings_of (queues x) (db s') x \<in> {B, insert (k, q) B} \<or>
        tx_refused (bind_refused (queues x) (db s) x q k) e \<and> db s' = db s)"
proof
  note eff = bind_effect [OF assms(1-3), where ks = ws and n = n and k = k]
  let ?d = "bound_db (index x) (queues x) q x k (db s)"
  show "index_inv (index x) (queues x) (db s') x"
    using effect_final [OF eff refl run] inv bound_inv [OF assms(1,2) inv] by auto
  show "case r of
      Inr _ \<Rightarrow> (k, q) \<notin> B \<and> bindings_of (queues x) (db s') x = insert (k, q) B
    | Inl e \<Rightarrow> redis_fault e \<and> bindings_of (queues x) (db s') x \<in> {B, insert (k, q) B} \<or>
        tx_refused (bind_refused (queues x) (db s) x q k) e \<and> db s' = db s"
  proof (cases r)
    case (Inr u)
    with effectD_ok [OF eff refl] run have "db s' = ?d" "EncodeParams q |\<notin>| set_at (db s) (queues x k)" by auto
    with Inr bindings_bound [OF assms(1,2)] show ?thesis by (simp add: B_def bindings_of_def)
  next
    case (Inl e)
    with effectD_err [OF eff refl] run
    consider "db s' = db s" "tx_refused (bind_refused (queues x) (db s) x q k) e"
      | "redis_fault e" "db s' = db s" | "redis_fault e" "db s' = ?d" by blast
    then show ?thesis using Inl bindings_bound [OF assms(1,2), of k "db s"] by cases (simp_all add: B_def)
  qed
qed

lemma unbind_outcome:
  assumes "valid_exchange x" and "bindable x q" and typed: "index_typed (index x) (queues x) (db s) x"
    and inv: "index_inv (index x) (queues x) (db s) x"
    and run: "WithTransaction rd ws n (unbind_txf rd (index x) (queues x) q x k) s = (r, s')"
  defines "B \<equiv> bindings_of (queues x) (db s) x"
  shows "index_inv (index x) (queues x) (db s') x \<and> (case r of
      Inr _ \<Rightarrow> (k, q) \<in> B \<and> bindings_of (queues x) (db s') x = B - {(k, q)}
    | Inl e \<Rightarrow> redis_fault e \<and> bindings_of (queues x) (db s') x \<in> {B, B - {(k, q)}} \<or>
        tx_refused (unbind_refused (queues x) (db s) x q k) e \<and> db s' = db s)"
proof
  note eff = unbind_effect [OF assms(1-3), where ks = ws and n = n and k = k]
  let ?d = "unbound_db (index x) (queues x) q x k (db s)"
  show "index_inv (index x) (queues x) (db s') x"
    using effect_final [OF eff refl run] inv unbound_inv [OF assms(1,2) inv, of k] by auto
  show "case r of
      Inr _ \<Rightarrow> (k, q) \<in> B \<and> bindings_of (queues x) (db s') x = B - {(k, q)}
    | Inl e \<Rightarrow> redis_fault e \<and> bindings_of (queues x) (db s') x \<in> {B, B - {(k, q)}} \<or>
        tx_refused (unbind_refused (queues x) (db s) x q k) e \<and> db s' = db s"
  proof (cases r)
    case (Inr u)
    with effectD_ok [OF eff refl] run have "db s' = ?d" "EncodeParams q |\<in>| set_at (db s) (queues x k)" by auto
    with Inr bindings_unbound [OF assms(1,2)] assms(2) show ?thesis by (simp add: B_def bindings_of_def)
  next
    case (Inl e)
    with effectD_err [OF eff refl] run
    consider "db s' = db s" "tx_refused (unbind_refused (queues x) (db s) x q k) e"
      | "redis_fault e" "db s' = db s" | "redis_fault e" "db s' = ?d" by blast
    then show ?thesis using Inl bindings_unbound [OF assms(1,2), of k "db s"] by cases (simp_all add: B_def)
  qed
qed

lemma del_keys_at: "del_keys ks d k = (if k \<in> set ks then None else d k)"
  by (simp add: del_keys_def)

lemma delete_outcome:
  assumes "valid_exchange x" and typed: "index_typed (index x) (queues x) (db s) x"
    and inv: "index_inv (index x) (queues x) (db s) x"
    and ks: "set ks = fset (set_at (db s) (index x))"
    and run: "WithTransaction rd ws n (delete_txf rd (index x) (queues x) x ks) s = (r, s')"
  shows "case r of
      Inr _ \<Rightarrow> bindings_of (queues x) (db s) x = {} \<and> bindings_of (queues x) (db s') x = {} \<and>
        db s' (Exchange_Properties (xkey x)) = None \<and> db s' (index x) = None \<and>
        Exchange_EncodeParams x |\<notin>| set_at (db s') System_AllExchanges \<and>
        Exchange_EncodeParams x |\<notin>| set_at (db s') (Namespace_Exchanges (xp_ns x)) \<and>
        (\<forall>q. bindable x q \<longrightarrow> Exchange_EncodeParams x |\<notin>| set_at (db s') (Queue_ExchangeBindings (qkey q)))
    | Inl e \<Rightarrow> redis_fault e \<or> tx_refused (delete_refused (queues x) (db s) x) e \<and> db s' = db s"
proof (cases r)
  case (Inl e)
  with effectD_err [OF delete_effect [OF assms(1,2)] refl run [unfolded Inl]] show ?thesis by auto
next
  case (Inr u)
  with effectD_ok [OF delete_effect [OF assms(1,2)] refl run [unfolded Inr]]
  have s': "db s' = exchange_deleted_db (index x) (queues x) x ks (db s)"
    and "\<forall>k \<in> set ks. set_at (db s) (queues x k) = {||}" by auto
  with inv ks have "set_at (db s) (queues x k) = {||}" for k by (auto simp: index_inv_def)
  with inv have empty: "set_at (db s) (queues x k) = {||}"
      "bindable x q \<Longrightarrow> Exchange_EncodeParams x |\<notin>| set_at (db s) (Queue_ExchangeBindings (qkey q))" for k q
    by (auto simp: index_inv_def)
  have ns: "Namespace_Exchanges (xp_ns x) \<noteq> System_AllExchanges" "System_AllExchanges \<noteq> Namespace_Exchanges (xp_ns x)"
      "Exchange_Properties (xkey x) \<noteq> System_AllExchanges" "Exchange_Properties (xkey x) \<noteq> Namespace_Exchanges (xp_ns x)"
    by (simp_all add: exchange_key_simps)
  note neq = ns index_apart(3) index_apart(4) [OF assms(1)] queues_apart(2) queues_apart(3) [OF assms(1)]
  have 1: "set_at (db s') (queues x k) = {||}" for k
    unfolding s' exchange_deleted_db_def by (simp add: neq empty)
  have 2: "Exchange_EncodeParams x |\<notin>| set_at (db s') (Queue_ExchangeBindings (qkey q))" if q: "bindable x q" for q
  proof -
    have v: "valid_params q" using q by (simp add: bindable_def)
    show ?thesis
      unfolding s' exchange_deleted_db_def using empty(2) [OF q]
      by (simp add: bindings_key_neq(2) [OF v assms(1)] bindings_key_system)
  qed
  have 3: "db s' (Exchange_Properties (xkey x)) = None" "db s' (index x) = None"
      "Exchange_EncodeParams x |\<notin>| set_at (db s') System_AllExchanges"
      "Exchange_EncodeParams x |\<notin>| set_at (db s') (Namespace_Exchanges (xp_ns x))"
    unfolding s' exchange_deleted_db_def by (simp_all add: neq del_keys_at)
  show ?thesis using Inr 1 2 3 empty(1) by (simp add: bindings_of_def)
qed

end

interpretation mem_direct: redis_bindings "mem_redis lua" "\<lambda>d. d" lua
  "\<lambda>x. Exchange_RoutingKeys (xkey x)" "\<lambda>x. Exchange_RoutingKeyQueues (xkey x)" for lua
  by unfold_locales

interpretation mem_topic: redis_bindings "mem_redis lua" "\<lambda>d. d" lua
  "\<lambda>x. Exchange_BindingPatterns (xkey x)" "\<lambda>x. Exchange_PatternQueues (xkey x)" for lua
  by unfold_locales

lemma direct_on:
  "redis rd db lua \<Longrightarrow> redis_bindings rd db lua (\<lambda>x. Exchange_RoutingKeys (xkey x)) (\<lambda>x. Exchange_RoutingKeyQueues (xkey x))"
  by (rule redis_bindings.intro [OF _ direct.binding_index_axioms])

lemma topic_on:
  "redis rd db lua \<Longrightarrow> redis_bindings rd db lua (\<lambda>x. Exchange_BindingPatterns (xkey x)) (\<lambda>x. Exchange_PatternQueues (xkey x))"
  by (rule redis_bindings.intro [OF _ topic.binding_index_axioms])

text \<open>The abstract states, typing and invariants of both kinds of exchange.\<close>

definition direct_bindings :: "db \<Rightarrow> exchange_params \<Rightarrow> (string \<times> queue_params) set" where
  "direct_bindings d x = bindings_of (Exchange_RoutingKeyQueues (xkey x)) d x"

definition topic_bindings :: "db \<Rightarrow> exchange_params \<Rightarrow> (string \<times> queue_params) set" where
  "topic_bindings d x = bindings_of (Exchange_PatternQueues (xkey x)) d x"

definition direct_typed :: "db \<Rightarrow> exchange_params \<Rightarrow> bool" where
  "direct_typed d x = index_typed (Exchange_RoutingKeys (xkey x)) (Exchange_RoutingKeyQueues (xkey x)) d x"

definition topic_typed :: "db \<Rightarrow> exchange_params \<Rightarrow> bool" where
  "topic_typed d x = index_typed (Exchange_BindingPatterns (xkey x)) (Exchange_PatternQueues (xkey x)) d x"

definition direct_inv :: "db \<Rightarrow> exchange_params \<Rightarrow> bool" where
  "direct_inv d x = index_inv (Exchange_RoutingKeys (xkey x)) (Exchange_RoutingKeyQueues (xkey x)) d x"

definition topic_inv :: "db \<Rightarrow> exchange_params \<Rightarrow> bool" where
  "topic_inv d x = index_inv (Exchange_BindingPatterns (xkey x)) (Exchange_PatternQueues (xkey x)) d x"

lemmas direct_defs = direct_bindings_def direct_typed_def direct_inv_def
lemmas topic_defs = topic_bindings_def topic_typed_def topic_inv_def

subsection \<open>A sample\<close>

definition sample_direct :: exchange_params where
  "sample_direct = \<lparr>xp_name = ''events'', xp_ns = ''shop'', xp_typ = TypeDirect\<rparr>"

definition sample_topic :: exchange_params where
  "sample_topic = \<lparr>xp_name = ''events'', xp_ns = ''shop'', xp_typ = TypeTopic\<rparr>"

lemma sample_keys: "valid_key ''orders''" "valid_key ''shop''" "valid_key ''events''"
  by code_simp+

lemma sample_valid [simp]: "valid_params sample_queue" "valid_exchange sample_direct" "valid_exchange sample_topic"
    "bindable sample_direct sample_queue" "bindable sample_topic sample_queue"
  using sample_keys
  by (simp_all add: valid_params_def valid_exchange_def bindable_def sample_queue_def sample_direct_def sample_topic_def enum_defs)

lemma queue_sub_apart:
  assumes "valid_params p" and "valid_params q" and "Queue_sub (qkey p) [a] = Queue_sub (qkey q) [b]"
    and "CHR '':'' \<notin> set a" and "CHR '':'' \<notin> set b"
  shows "a = b"
proof -
  have c: "\<forall>s \<in> set [''ns'', qp_ns p, ''q'', qp_name p, a]. CHR '':'' \<notin> set s"
      "\<forall>s \<in> set [''ns'', qp_ns q, ''q'', qp_name q, b]. CHR '':'' \<notin> set s"
    using assms valid_key_no_colon by (auto simp: valid_params_def)
  have "key_parts [''ns'', qp_ns p, ''q'', qp_name p, a] = key_parts [''ns'', qp_ns q, ''q'', qp_name q, b]"
    using assms(3) by (simp add: Queue_sub_def qkey_def Key_eq_iff)
  from key_parts_inject [OF c this] show ?thesis by simp
qed

lemma created_sample_other: "k \<notin> set (create_queue_keys sample_queue) \<Longrightarrow> created_sample k = None"
  by (simp add: created_sample_def created_db_views(4) empty_db_def)

lemma created_sample_sets:
  "created_sample (Exchange_sub (xkey x) ks) = None" if "xp_ns x = ''shop''"
  by (rule created_sample_other) (use that in \<open>simp add: create_queue_keys_def exchange_key_simps qkey_def sample_queue_def\<close>)

lemma created_sample_bindings:
  assumes "valid_params q"
  shows "created_sample (Queue_ExchangeBindings (qkey q)) = None"
proof (rule created_sample_other)
  have "Queue_ExchangeBindings (qkey q) \<noteq> Queue_Properties (qkey sample_queue)"
      "Queue_ExchangeBindings (qkey q) \<noteq> Queue_StateHistory (qkey sample_queue)"
    using queue_sub_apart [OF assms sample_valid(1), of "''bind''" "''prop''"]
      queue_sub_apart [OF assms sample_valid(1), of "''bind''" "''sh''"]
    by (auto simp: Queue_ExchangeBindings_def Queue_Properties_def Queue_StateHistory_def)
  moreover have "Queue_ExchangeBindings (qkey q) \<noteq> Namespace_Queues (qp_ns sample_queue)"
  proof -
    have c: "\<forall>s \<in> set [''ns'', qp_ns q, ''q'', qp_name q, ''bind'']. CHR '':'' \<notin> set s"
        "\<forall>s \<in> set [''ns'', ''shop'', ''q'']. CHR '':'' \<notin> set s"
      using assms valid_key_no_colon by (auto simp: valid_params_def)
    from key_parts_inject [OF c] show ?thesis
      by (auto simp: Queue_ExchangeBindings_def Queue_sub_def Namespace_Queues_def qkey_def sample_queue_def Key_eq_iff)
  qed
  ultimately show "Queue_ExchangeBindings (qkey q) \<notin> set (create_queue_keys sample_queue)"
    by (simp add: create_queue_keys_def) (simp add: key_defs Key_eq_iff)
qed

lemma created_sample_empty:
  assumes "xp_ns x = ''shop''"
  shows "created_sample System_AllExchanges = None" "created_sample (Namespace_Exchanges (xp_ns x)) = None"
  by (rule created_sample_other; use assms in \<open>simp add: create_queue_keys_def key_defs Key_eq_iff qkey_def sample_queue_def\<close>)+

lemma created_sample_index:
  assumes "xp_ns x = ''shop''"
  shows "direct_typed created_sample x" "direct_inv created_sample x" "topic_typed created_sample x" "topic_inv created_sample x"
proof -
  have none: "created_sample (Exchange_Properties (xkey x)) = None" "created_sample (Exchange_RoutingKeys (xkey x)) = None"
      "created_sample (Exchange_RoutingKeyQueues (xkey x) k) = None" "created_sample (Exchange_BindingPatterns (xkey x)) = None"
      "created_sample (Exchange_PatternQueues (xkey x) k) = None" for k
    using created_sample_sets [OF assms]
    by (simp_all add: Exchange_Properties_def Exchange_RoutingKeys_def Exchange_RoutingKeyQueues_def
        Exchange_BindingPatterns_def Exchange_PatternQueues_def)
  note views = none created_sample_empty [OF assms] created_sample_bindings
  show "direct_typed created_sample x" "direct_inv created_sample x" "topic_typed created_sample x" "topic_inv created_sample x"
    by (auto simp: direct_defs topic_defs index_typed_def index_inv_def views bindable_def set_at_def)
qed

subsection \<open>Direct exchanges\<close>

text \<open>C16: binding a queue to a direct exchange. A successful \<open>BindQueue\<close> adds exactly one pair of routing
  key and queue to the bindings of the exchange, one that was not there; the queue is in the
  namespace of the exchange. A refusal (other namespace, unknown queue, exchange of another type or
  policy, already bound, too many aborted attempts) changes nothing, and after a fault of Redis the
  pair has been added or not. In every case the index of routing keys, the bound queues and the
  exchanges recorded with each queue still agree.\<close>

theorem direct_bind_outcome:
  assumes "redis rd db lua" and "valid_exchange x" and "valid_params q" and "direct_typed (db s) x"
    and "direct_inv (db s) x" and run: "Direct_BindQueue rd q x rk s = (r, s')"
  shows "direct_inv (db s') x \<and> (case r of
      Inr _ \<Rightarrow> qp_ns q = xp_ns x \<and> (rk, q) \<notin> direct_bindings (db s) x \<and>
        direct_bindings (db s') x = insert (rk, q) (direct_bindings (db s) x)
    | Inl e \<Rightarrow> redis_fault e \<and>
          direct_bindings (db s') x \<in> {direct_bindings (db s) x, insert (rk, q) (direct_bindings (db s) x)} \<or>
        db s' = db s \<and>
          (e = ExchangeErr X_ErrNamespaceMismatch \<and> qp_ns q \<noteq> xp_ns x \<or>
           tx_refused (bind_refused (Exchange_RoutingKeyQueues (xkey x)) (db s) x q rk) e))"
proof (cases "qp_ns q = xp_ns x")
  case True
  with assms(3) have q: "bindable x q" by (simp add: bindable_def)
  from run True obtain ws where tx: "WithTransaction rd ws 5
      (bind_txf rd (Exchange_RoutingKeys (xkey x)) (Exchange_RoutingKeyQueues (xkey x)) q x rk) s = (r, s')"
    by (auto simp: Direct_BindQueue_def Let_def)
  from redis_bindings.bind_outcome [OF direct_on [OF assms(1)] assms(2) q assms(4,5) [unfolded direct_defs] tx] True
  show ?thesis unfolding direct_defs by (cases r) auto
next
  case False
  with run assms(5) show ?thesis by (auto simp: Direct_BindQueue_def throw_def)
qed

theorem direct_bind_outcome_witness:
  "\<exists>r d. Direct_BindQueue (mem_redis (smq_scripts no_scripts)) sample_queue sample_direct ''paid'' created_sample = (r, d) \<and>
     direct_inv d sample_direct \<and>
     (case r of Inr _ \<Rightarrow> direct_bindings d sample_direct = insert (''paid'', sample_queue) (direct_bindings created_sample sample_direct)
      | Inl e \<Rightarrow> redis_fault e \<or> d = created_sample)"
proof -
  obtain r d where run: "Direct_BindQueue (mem_redis (smq_scripts no_scripts)) sample_queue sample_direct ''paid'' created_sample = (r, d)"
    by fastforce
  have ns: "xp_ns sample_direct = ''shop''" by (simp add: sample_direct_def)
  from direct_bind_outcome [OF mem.redis_axioms, OF sample_valid(2,1), OF created_sample_index(1,2) [OF ns], OF run] run
  show ?thesis by (cases r) auto
qed

text \<open>C15: unbinding a queue from a direct exchange. A successful \<open>UnbindQueue\<close> removes exactly the pair
  it names, which was bound, and leaves every other binding of the exchange; a refusal changes
  nothing. In every case, also after a fault of Redis, the routing keys of the exchange are those
  that still have a queue, and a queue records the exchange exactly while some routing key is left
  that binds it: the last unbinding of a queue removes the record, an earlier one does not.\<close>

theorem direct_unbind_outcome:
  assumes "redis rd db lua" and "valid_exchange x" and "valid_params q" and "direct_typed (db s) x"
    and "direct_inv (db s) x" and run: "Direct_UnbindQueue rd q x rk s = (r, s')"
  shows "direct_inv (db s') x \<and> (case r of
      Inr _ \<Rightarrow> (rk, q) \<in> direct_bindings (db s) x \<and>
        direct_bindings (db s') x = direct_bindings (db s) x - {(rk, q)}
    | Inl e \<Rightarrow> redis_fault e \<and>
          direct_bindings (db s') x \<in> {direct_bindings (db s) x, direct_bindings (db s) x - {(rk, q)}} \<or>
        db s' = db s \<and>
          (e = ExchangeErr X_ErrNamespaceMismatch \<and> qp_ns q \<noteq> xp_ns x \<or>
           tx_refused (unbind_refused (Exchange_RoutingKeyQueues (xkey x)) (db s) x q rk) e))"
proof (cases "qp_ns q = xp_ns x")
  case True
  with assms(3) have q: "bindable x q" by (simp add: bindable_def)
  from run True obtain ws where tx: "WithTransaction rd ws 5
      (unbind_txf rd (Exchange_RoutingKeys (xkey x)) (Exchange_RoutingKeyQueues (xkey x)) q x rk) s = (r, s')"
    by (auto simp: Direct_UnbindQueue_def Let_def)
  from redis_bindings.unbind_outcome [OF direct_on [OF assms(1)] assms(2) q assms(4,5) [unfolded direct_defs] tx] True
  show ?thesis unfolding direct_defs by (cases r) auto
next
  case False
  with run assms(5) show ?thesis by (auto simp: Direct_UnbindQueue_def throw_def)
qed

theorem direct_unbind_outcome_witness:
  "\<exists>r d. Direct_UnbindQueue (mem_redis (smq_scripts no_scripts)) sample_queue sample_direct ''paid'' created_sample = (r, d) \<and>
     direct_inv d sample_direct \<and>
     (case r of Inr _ \<Rightarrow> direct_bindings d sample_direct = direct_bindings created_sample sample_direct - {(''paid'', sample_queue)}
      | Inl e \<Rightarrow> redis_fault e \<or> d = created_sample)"
proof -
  obtain r d where run: "Direct_UnbindQueue (mem_redis (smq_scripts no_scripts)) sample_queue sample_direct ''paid'' created_sample = (r, d)"
    by fastforce
  have ns: "xp_ns sample_direct = ''shop''" by (simp add: sample_direct_def)
  from direct_unbind_outcome [OF mem.redis_axioms, OF sample_valid(2,1), OF created_sample_index(1,2) [OF ns], OF run] run
  show ?thesis by (cases r) auto
qed

text \<open>deleting a direct exchange. If \<open>Delete\<close> succeeds, no queue was bound, and afterwards the exchange
  has no properties, no routing keys and no bindings, is listed neither globally nor in its
  namespace, and no queue of the namespace records it. A refusal (unknown exchange, other type,
  queues still bound) changes nothing.\<close>

theorem direct_delete_outcome:
  assumes "redis rd db lua" and "valid_exchange x" and "direct_typed (db s) x" and "direct_inv (db s) x"
    and run: "Direct_Delete rd x s = (r, s')"
  shows "case r of
      Inr _ \<Rightarrow> direct_bindings (db s) x = {} \<and> direct_bindings (db s') x = {} \<and>
        db s' (Exchange_Properties (xkey x)) = None \<and> db s' (Exchange_RoutingKeys (xkey x)) = None \<and>
        Exchange_EncodeParams x |\<notin>| set_at (db s') System_AllExchanges \<and>
        Exchange_EncodeParams x |\<notin>| set_at (db s') (Namespace_Exchanges (xp_ns x)) \<and>
        (\<forall>q. bindable x q \<longrightarrow> Exchange_EncodeParams x |\<notin>| set_at (db s') (Queue_ExchangeBindings (qkey q)))
    | Inl e \<Rightarrow> redis_fault e \<or>
        db s' = db s \<and> (type_refused (db s) x e \<or>
          tx_refused (delete_refused (Exchange_RoutingKeyQueues (xkey x)) (db s) x) e)"
proof -
  obtain r1 s1 where v: "ValidateType rd x True s = (r1, s1)" by fastforce
  have s1: "db s1 = db s" using keepsD [OF redis.ValidateType_keeps [OF assms(1)] v] .
  obtain r2 s2 where l: "LoadSetMembers rd (Exchange_RoutingKeys (xkey x)) ''routing keys'' s1 = (r2, s2)" by fastforce
  have s2: "db s2 = db s" using keepsD [OF redis.Load_keeps(3) [OF assms(1)] l] s1 by simp
  note ops = Direct_Delete_def Direct_RoutingKeys_def Let_def
  consider e where "r1 = Inl e" | e u where "r1 = Inr u" "r2 = Inl e" | u ks where "r1 = Inr u" "r2 = Inr ks"
    by (cases r1; cases r2) auto
  then show ?thesis
  proof cases
    case 1
    with redis.ValidateType_outcome [OF assms(1) v] run v s1 show ?thesis
      by (auto simp: ops and_then_def)
  next
    case 2
    with redis.fetches_calls(5) [OF assms(1)] l have "redis_fault e" by (auto dest: fetchesD)
    with 2 run v l show ?thesis by (auto simp: ops and_then_def)
  next
    case 3
    then obtain ws where tx: "WithTransaction rd ws 5
        (delete_txf rd (Exchange_RoutingKeys (xkey x)) (Exchange_RoutingKeyQueues (xkey x)) x ks) s2 = (r, s')"
      using run v l by (auto simp: ops and_then_def)
    have ks: "set ks = fset (set_at (db s2) (Exchange_RoutingKeys (xkey x)))"
      using redis.LoadSetMembers_ok [OF assms(1) l [unfolded 3(2)]] s1 s2
        index_typedD(4) [OF assms(3) [unfolded direct_typed_def]] by auto
    from redis_bindings.delete_outcome [OF direct_on [OF assms(1)] assms(2) _ _ ks tx] assms(3,4) s2
    show ?thesis unfolding direct_defs by (cases r) auto
  qed
qed

theorem direct_delete_outcome_witness:
  "\<exists>r d. Direct_Delete (mem_redis (smq_scripts no_scripts)) sample_direct created_sample = (r, d) \<and>
     (case r of Inr _ \<Rightarrow> direct_bindings d sample_direct = {} | Inl e \<Rightarrow> redis_fault e \<or> d = created_sample)"
proof -
  obtain r d where run: "Direct_Delete (mem_redis (smq_scripts no_scripts)) sample_direct created_sample = (r, d)"
    by fastforce
  have ns: "xp_ns sample_direct = ''shop''" by (simp add: sample_direct_def)
  from direct_delete_outcome [OF mem.redis_axioms, OF sample_valid(2), OF created_sample_index(1,2) [OF ns], OF run] run
  show ?thesis by (cases r) auto
qed

subsection \<open>Topic exchanges\<close>

text \<open>The keys of the \<open>seen\<close> map of \<open>MatchQueues\<close> tell well-formed queues apart.\<close>

definition seen_key :: "queue_params \<Rightarrow> string" where
  "seen_key q = qp_ns q @ '':'' @ qp_name q"

lemma seen_key_inject:
  assumes "valid_params p" and "valid_params q"
  shows "seen_key p = seen_key q \<longleftrightarrow> p = q"
proof
  assume "seen_key p = seen_key q"
  then have "qp_ns p @ key_parts [qp_name p] = qp_ns q @ key_parts [qp_name q]" by (simp add: seen_key_def)
  moreover have "CHR '':'' \<notin> set (qp_ns p)" "CHR '':'' \<notin> set (qp_ns q)"
    using assms valid_key_no_colon by (auto simp: valid_params_def)
  ultimately have "qp_ns p = qp_ns q" "qp_name p = qp_name q"
    using colon_split [of "qp_ns p" "qp_ns q" "[qp_name p]" "[qp_name q]"] by auto
  then show "p = q" by simp
qed simp

lemma add_unseen_spec:
  assumes "\<forall>q \<in> set bound \<union> set queues. valid_params q" and "set seen = seen_key ` set queues" and "distinct queues"
    and "add_unseen bound seen queues = (seen', queues')"
  shows "set queues' = set queues \<union> set bound \<and> distinct queues' \<and> set seen' = seen_key ` set queues'"
  using assms
proof (induction bound seen queues rule: add_unseen.induct)
  case (2 q bound seen queues)
  have iff: "seen_key q \<in> set seen \<longleftrightarrow> q \<in> set queues"
    using 2(3,4) by (auto simp: seen_key_inject)
  show ?case
  proof (cases "q \<in> set queues")
    case True
    with 2(6) iff have "add_unseen bound seen queues = (seen', queues')"
      by (simp add: Let_def seen_key_def)
    with 2 True iff show ?thesis by (auto simp: seen_key_def)
  next
    case False
    with 2(6) iff have "add_unseen bound (seen_key q # seen) (queues @ [q]) = (seen', queues')"
      by (simp add: Let_def seen_key_def)
    with 2(2) [OF refl] 2(3-5) False iff show ?thesis by (auto simp: seen_key_def)
  qed
qed simp

lemma collect_queues_spec:
  assumes bound: "\<And>p s qs s1. obs s = d \<Longrightarrow> bound p s = (Inr qs, s1) \<Longrightarrow> obs s1 = d \<and> set qs = Q p"
    and valid: "\<And>p. \<forall>q \<in> Q p. valid_params q"
  shows "obs s = d \<Longrightarrow> \<forall>q \<in> set queues. valid_params q \<Longrightarrow> set seen = seen_key ` set queues \<Longrightarrow> distinct queues \<Longrightarrow>
    collect_queues bound ps seen queues s = (Inr res, s') \<Longrightarrow> set res = set queues \<union> \<Union> (Q ` set ps) \<and> distinct res"
proof (induction ps arbitrary: s seen queues)
  case Nil
  then show ?case by (auto simp: ret_def)
next
  case (Cons p ps)
  obtain qs s1 where b: "bound p s = (Inr qs, s1)"
    and r: "(case add_unseen qs seen queues of (seen', queues') \<Rightarrow> collect_queues bound ps seen' queues') s1 = (Inr res, s')"
    using Cons.prems(5) unfolding collect_queues.simps and_then_ok by blast
  obtain seen' queues' where add: "add_unseen qs seen queues = (seen', queues')" by fastforce
  with r have rest: "collect_queues bound ps seen' queues' s1 = (Inr res, s')" by simp
  have qs: "obs s1 = d" "set qs = Q p" using bound [OF Cons.prems(1) b] by simp_all
  have v: "\<forall>q \<in> set qs \<union> set queues. valid_params q" using valid [of p] qs(2) Cons.prems(2) by blast
  note spec = add_unseen_spec [OF v Cons.prems(3,4) add]
  have "\<forall>q \<in> set queues'. valid_params q" using spec v by blast
  from Cons.IH [OF qs(1) this _ _ rest] spec qs(2) show ?case by auto
qed

lemma collect_queues_err:
  assumes "\<And>p. fetches obs (bound p)"
  shows "fetches obs (collect_queues bound ps seen queues)"
proof (induction ps arbitrary: seen queues)
  case Nil
  then show ?case by (simp only: collect_queues.simps fetches_ret)
next
  case (Cons p ps)
  then show ?case
    unfolding collect_queues.simps by (auto intro!: fetches_and_then assms split: prod.splits)
qed

context redis
begin

lemma topic_boundQueues_fetches: "fetches db (topic_boundQueues rd x p)"
  unfolding topic_boundQueues_def by (intro fetches_intros)

lemma topic_boundQueues_ok:
  assumes "topic_typed d x" and "topic_inv d x" and "db s = d" and run: "topic_boundQueues rd x p s = (Inr qs, s1)"
  shows "db s1 = d \<and> set qs = {q. (p, q) \<in> topic_bindings d x}"
proof -
  have "db s1 = d"
    using topic_boundQueues_fetches run assms(3) unfolding fetches_def by (blast dest: keepsD)
  moreover from run obtain ms where ms: "LoadSetMembers rd (Exchange_PatternQueues (xkey x) p) (''queues for pattern '' @ p) s = (Inr ms, s1)"
    and qs: "qs = DecodeParamsSlice ms" by (auto simp: topic_boundQueues_def and_then_ok)
  have m: "set ms = fset (set_at d (Exchange_PatternQueues (xkey x) p))"
    using LoadSetMembers_ok [OF ms] index_typedD(5) [OF assms(1) [unfolded topic_typed_def], of p] assms(3) by auto
  have enc: "\<exists>q. bindable x q \<and> m = EncodeParams q" if "m \<in> set ms" for m
    using assms(2) that unfolding m topic_inv_def index_inv_def by blast
  have "set qs = {q. bindable x q \<and> EncodeParams q \<in> set ms}"
  proof (intro set_eqI iffI)
    fix q assume "q \<in> set qs"
    then obtain m where m': "m \<in> set ms" "DecodeParams m = Inr q" by (auto simp: qs DecodeParamsSlice_set)
    with enc [of m] obtain q' where "bindable x q'" "m = EncodeParams q'" by blast
    with m' show "q \<in> {q. bindable x q \<and> EncodeParams q \<in> set ms}" by (auto simp: bindable_def)
  next
    fix q assume q: "q \<in> {q. bindable x q \<and> EncodeParams q \<in> set ms}"
    then have "DecodeParams (EncodeParams q) = Inr q" by (auto simp: bindable_def)
    with q show "q \<in> set qs" by (auto simp: qs DecodeParamsSlice_set)
  qed
  ultimately show ?thesis by (simp add: topic_bindings_def bindings_of_def m)
qed

lemma topic_patterns_ok:
  assumes "topic_typed d x" and "db s = d" and "topic_patterns rd x s = (Inr ps, s1)"
  shows "set ps = fset (set_at d (Exchange_BindingPatterns (xkey x)))"
  using assms(2,3) LoadSetMembers_ok [of "Exchange_BindingPatterns (xkey x)" "''binding patterns''" s ps s1]
    index_typedD(4) [OF assms(1) [unfolded topic_typed_def]]
  by (auto simp: topic_patterns_def)

lemma topic_patterns_fetches: "fetches db (topic_patterns rd x)"
  unfolding topic_patterns_def by (intro fetches_calls)

end

text \<open>C14: routing through a topic exchange, end to end. \<open>MatchQueues\<close> returns, each once, exactly the queues
  that are bound under some pattern that matches the routing key by the AMQP rule (\<open>*\<close> one word,
  \<open>#\<close> any number of words), and it changes nothing. It fails only when the exchange is unknown or
  of another type, or when Redis fails.\<close>

theorem topic_match_outcome:
  assumes "redis rd db lua" and "topic_typed (db s) x" and "topic_inv (db s) x"
    and run: "Topic_MatchQueues rd x rk s = (r, s')"
  shows "case r of
      Inr qs \<Rightarrow> distinct qs \<and> set qs = {q. \<exists>p. (p, q) \<in> topic_bindings (db s) x \<and>
        topic_rule (split_on (CHR ''.'') p) (split_on (CHR ''.'') rk)}
    | Inl e \<Rightarrow> redis_fault e \<or> type_refused (db s) x e"
proof -
  obtain r1 s1 r2 s2 where v: "ValidateType rd x True s = (r1, s1)" and l: "topic_patterns rd x s1 = (r2, s2)"
    by fastforce
  have s1: "db s1 = db s" using keepsD [OF redis.ValidateType_keeps [OF assms(1)] v] .
  have s2: "db s2 = db s" using redis.topic_patterns_fetches [OF assms(1)] l s1 unfolding fetches_def by (metis keepsD)
  let ?bound = "topic_boundQueues rd x" and ?ps = "\<lambda>ps. filter (matchTopicPattern rk) ps"
  consider e where "r1 = Inl e" | e u where "r1 = Inr u" "r2 = Inl e" | u ps where "r1 = Inr u" "r2 = Inr ps"
    by (cases r1; cases r2) auto
  then show ?thesis
  proof cases
    case 1
    with redis.ValidateType_outcome [OF assms(1) v] run v show ?thesis by (auto simp: Topic_MatchQueues_def and_then_def)
  next
    case 2
    then have "redis_fault e" using redis.topic_patterns_fetches [OF assms(1)] l by (auto dest: fetchesD)
    with 2 run v l show ?thesis by (auto simp: Topic_MatchQueues_def and_then_def)
  next
    case 3
    then have tail: "collect_queues ?bound (?ps ps) [] [] s2 = (r, s')"
      using run v l by (auto simp: Topic_MatchQueues_def and_then_def Let_def split: if_splits)
    have ps: "set ps = fset (set_at (db s) (Exchange_BindingPatterns (xkey x)))"
      by (rule redis.topic_patterns_ok [OF assms(1,2) s1 l [unfolded 3(2)]])
    have idx: "p \<in> set ps" if "(p, q) \<in> topic_bindings (db s) x" for p q
      using assms(3) that ps by (auto simp: topic_inv_def index_inv_def topic_bindings_def bindings_of_def)
    show ?thesis
    proof (cases r)
      case (Inl e)
      with fetchesD [OF collect_queues_err [OF redis.topic_boundQueues_fetches [OF assms(1)]]] tail show ?thesis by auto
    next
      case (Inr qs)
      have "set qs = set [] \<union> \<Union> ((\<lambda>p. {q. (p, q) \<in> topic_bindings (db s) x}) ` set (?ps ps)) \<and> distinct qs"
      proof (rule collect_queues_spec [where obs = db and d = "db s" and bound = ?bound, OF _ _ s2 _ _ _ tail [unfolded Inr]])
        show "db s1 = db s \<and> set qs = {q. (p, q) \<in> topic_bindings (db s) x}"
          if "db s' = db s" "topic_boundQueues rd x p s' = (Inr qs, s1)" for p s' qs s1
          by (rule redis.topic_boundQueues_ok [OF assms(1-3) that])
      qed (simp_all add: topic_bindings_def bindings_of_def bindable_def)
      then have d: "distinct qs" and qs: "set qs = {q. \<exists>p. (p, q) \<in> topic_bindings (db s) x \<and> matchTopicPattern rk p}"
        using idx by auto
      have "matchTopicPattern rk p \<longleftrightarrow> topic_rule (split_on (CHR ''.'') p) (split_on (CHR ''.'') rk)" for p
        by (simp add: matchTopicPattern_def matchTopicTokens_rule)
      with Inr d qs show ?thesis by simp
    qed
  qed
qed

theorem topic_match_outcome_witness:
  "\<exists>r d. Topic_MatchQueues (mem_redis (smq_scripts no_scripts)) sample_topic ''order.paid'' created_sample = (r, d) \<and>
     (case r of Inr qs \<Rightarrow> distinct qs | Inl e \<Rightarrow> redis_fault e \<or> type_refused created_sample sample_topic e)"
proof -
  obtain r d where run: "Topic_MatchQueues (mem_redis (smq_scripts no_scripts)) sample_topic ''order.paid'' created_sample = (r, d)"
    by fastforce
  have ns: "xp_ns sample_topic = ''shop''" by (simp add: sample_topic_def)
  from topic_match_outcome [OF mem.redis_axioms, OF created_sample_index(3,4) [OF ns], OF run] run
  show ?thesis by (cases r) auto
qed

text \<open>binding a queue to a topic exchange. As for direct exchanges, with patterns for routing keys, and in
  addition a pattern is bound only when every one of its dot-separated tokens is \<open>*\<close>, \<open>#\<close> or a
  literal word; another pattern is refused before anything is read or written.\<close>

theorem topic_bind_outcome:
  assumes "redis rd db lua" and "valid_exchange x" and "valid_params q" and "topic_typed (db s) x"
    and "topic_inv (db s) x" and run: "Topic_BindQueue rd q x p s = (r, s')"
  shows "topic_inv (db s') x \<and> (case r of
      Inr _ \<Rightarrow> qp_ns q = xp_ns x \<and> (p, q) \<notin> topic_bindings (db s) x \<and>
        topic_bindings (db s') x = insert (p, q) (topic_bindings (db s) x) \<and>
        (\<forall>t \<in> set (split_on (CHR ''.'') p). t = ''*'' \<or> t = ''#'' \<or> literal_token t)
    | Inl e \<Rightarrow> redis_fault e \<and>
          topic_bindings (db s') x \<in> {topic_bindings (db s) x, insert (p, q) (topic_bindings (db s) x)} \<or>
        db s' = db s \<and>
          (e = ExchangeErr X_ErrNamespaceMismatch \<and> qp_ns q \<noteq> xp_ns x \<or>
           e = ExchangeErr X_ErrInvalidPattern \<and> \<not> validateTopicPattern p \<or>
           tx_refused (bind_refused (Exchange_PatternQueues (xkey x)) (db s) x q p) e))"
proof (cases "qp_ns q = xp_ns x \<and> validateTopicPattern p")
  case True
  with assms(3) have q: "bindable x q" by (simp add: bindable_def)
  from run True obtain ws where tx: "WithTransaction rd ws 5
      (bind_txf rd (Exchange_BindingPatterns (xkey x)) (Exchange_PatternQueues (xkey x)) q x p) s = (r, s')"
    by (auto simp: Topic_BindQueue_def Let_def)
  from redis_bindings.bind_outcome [OF topic_on [OF assms(1)] assms(2) q assms(4,5) [unfolded topic_defs] tx] True
  show ?thesis unfolding topic_defs validateTopicPattern_tokens by (cases r) auto
next
  case False
  then have "r = Inl (if qp_ns q \<noteq> xp_ns x then ExchangeErr X_ErrNamespaceMismatch else ExchangeErr X_ErrInvalidPattern)" "s' = s"
    using run by (auto simp: Topic_BindQueue_def throw_def split: if_splits)
  with False assms(5) show ?thesis by auto
qed

theorem topic_bind_outcome_witness:
  "\<exists>r d. Topic_BindQueue (mem_redis (smq_scripts no_scripts)) sample_queue sample_topic ''order.*'' created_sample = (r, d) \<and>
     topic_inv d sample_topic \<and>
     (case r of Inr _ \<Rightarrow> topic_bindings d sample_topic = insert (''order.*'', sample_queue) (topic_bindings created_sample sample_topic)
      | Inl e \<Rightarrow> redis_fault e \<or> d = created_sample)"
proof -
  obtain r d where run: "Topic_BindQueue (mem_redis (smq_scripts no_scripts)) sample_queue sample_topic ''order.*'' created_sample = (r, d)"
    by fastforce
  have ns: "xp_ns sample_topic = ''shop''" by (simp add: sample_topic_def)
  from topic_bind_outcome [OF mem.redis_axioms, OF sample_valid(3,1), OF created_sample_index(3,4) [OF ns], OF run] run
  show ?thesis by (cases r) auto
qed

subsection \<open>The policy check under failures\<close>

text \<open>A server that cannot be reached for certain commands and otherwise works; this is within the
  contract of \<open>redis\<close>.\<close>

definition flaky_redis :: "(cmd \<Rightarrow> bool) \<Rightarrow> (ID \<Rightarrow> script) \<Rightarrow> db redis_server" where
  "flaky_redis bad lua = (mem_redis lua)\<lparr>exec := \<lambda>c d. if bad c then (Inl (ConnError ''timeout''), d) else redis_apply mem_enum c d\<rparr>"

lemma flaky_simps [simp]:
  "tx_exec (flaky_redis bad lua) = tx_exec (mem_redis lua)" "pipe_exec (flaky_redis bad lua) = pipe_exec (mem_redis lua)"
  "watch (flaky_redis bad lua) = watch (mem_redis lua)" "unwatch (flaky_redis bad lua) = unwatch (mem_redis lua)"
  "evalsha (flaky_redis bad lua) = evalsha (mem_redis lua)" "eval_text (flaky_redis bad lua) = eval_text (mem_redis lua)"
  "publish (flaky_redis bad lua) = publish (mem_redis lua)"
  by (simp_all add: flaky_redis_def)

interpretation flaky: redis "flaky_redis bad lua" "\<lambda>d. d" lua for bad lua
proof
  fix c s r s' assume "exec (flaky_redis bad lua) c s = (r, s')"
  then show "served (\<lambda>d. d) (\<lambda>en. redis_apply en c) s r s'"
    by (auto simp: flaky_redis_def served_def is_conn_error_def intro: exI [of _ mem_enum] split: if_splits)
qed (use mem.tx_served mem.pipe_served mem.watch_keeps mem.unwatch_keeps mem.evalsha_served mem.eval_served mem.publish_keeps
  in \<open>simp_all\<close>)

lemma flaky_hgetall:
  "hgetall (flaky_redis bad lua) k d =
     (if bad (HGETALL k) then (Inl (ConnError ''timeout''), d)
      else case get_hash d k of Inl e \<Rightarrow> (Inl e, d) | Inr h \<Rightarrow> (Inr h, d))"
  by (simp add: hgetall_def flaky_redis_def and_then_def redis_apply.simps expect_reply_def fmap_of_enum_fmap
      split: sum.splits)

text \<open>the type and policy checks of a binding are skipped when the exchange cannot be read. \<open>Store.Load\<close>
  reports every failure as \<open>ErrNotFound\<close>, and \<open>ValidateQueueBinding\<close> takes \<open>ErrNotFound\<close> for an exchange
  that does not exist yet. So if the connection fails for exactly that one read, a queue whose type
  the stored policy of the exchange forbids passes the validation, without an error.\<close>

theorem binding_check_skipped:
  assumes "valid_params q" and "valid_exchange x"
    and "get_hash d (Queue_Properties (qkey q)) = Inr qh" and "qh \<noteq> fmempty" and "DecodeProps qh = Inr qp"
    and "get_hash d (Exchange_Properties (xkey x)) = Inr xh" and "Exchange_DecodeProps xh = Inr xp"
    and "checkPolicy xp (q_Type qp) = Some (ExchangeErr X_ErrPolicyViolation)"
  shows "\<exists>rd. redis rd (\<lambda>d. d) lua \<and> ValidateQueueBinding rd x q d = (Inr None, d)"
proof -
  let ?rd = "flaky_redis (\<lambda>c. c = HGETALL (Exchange_Properties (xkey x))) lua"
  have "CHR '':'' \<notin> set (qp_ns q)" "CHR '':'' \<notin> set (xp_ns x)"
    using assms(1,2) valid_key_no_colon by (auto simp: valid_params_def valid_exchange_def)
  from seg_neq [OF this, of "''q''" "''exs''" "[qp_name q, ''prop'']" "[xp_name x, ''prop'']"]
  have "Queue_Properties (qkey q) \<noteq> Exchange_Properties (xkey x)"
    by (simp add: Queue_Properties_def Queue_sub_def Exchange_Properties_def Exchange_sub_def qkey_def xkey_def)
  then have "Queue_Load ?rd q d = (Inr qp, d)"
    using assms(3-5) by (simp add: Queue_Load_def LoadHash_def flaky_hgetall and_then_def map_err_def ret_def lift_sum_def)
  moreover have "Exchange_Load ?rd x d = (Inl (ExchangeErr X_ErrNotFound), d)"
    by (simp add: Exchange_Load_def LoadHash_def flaky_hgetall and_then_def map_err_def)
  ultimately have "ValidateQueueBinding ?rd x q d = (Inr None, d)"
    by (simp add: ValidateQueueBinding_def and_then_def map_err_def try_io_def ret_def)
  with flaky.redis_axioms show ?thesis by blast
qed

definition priority_sample :: db where
  "priority_sample = put_hash (Exchange_Properties (xkey sample_direct))
       (fmap_of_list [(X_Type, itoa TypeDirect), (X_Policy, itoa PolicyStandard)])
     (created_db 7 sample_queue TypePriority DeliveryPointToPoint None empty_db)"

theorem binding_check_skipped_witness:
  "\<exists>rd. redis rd (\<lambda>d. d) no_scripts \<and> ValidateQueueBinding rd sample_direct sample_queue priority_sample = (Inr None, priority_sample)"
proof -
  let ?h = "created_hash 7 TypePriority DeliveryPointToPoint None fmempty"
  let ?xh = "fmap_of_list [(X_Type, itoa TypeDirect), (X_Policy, itoa PolicyStandard)]"
  have neq: "Queue_Properties (qkey sample_queue) \<noteq> Exchange_Properties (xkey sample_direct)"
    by (simp add: exchange_key_simps qkey_def sample_queue_def sample_direct_def)
  have q: "get_hash priority_sample (Queue_Properties (qkey sample_queue)) = Inr ?h"
    using neq by (simp add: priority_sample_def created_db_views(3)) (simp add: queue_hash_def empty_db_def)
  have ne: "?h \<noteq> fmempty" by (simp add: created_hash_def hset_all_def)
  have dec: "DecodeProps ?h = Inr (created_props 7 TypePriority DeliveryPointToPoint None)"
    by (rule DecodeProps_created) (simp_all add: enum_defs)
  have x: "get_hash priority_sample (Exchange_Properties (xkey sample_direct)) = Inr ?xh"
    by (simp add: priority_sample_def)
  have xdec: "Exchange_DecodeProps ?xh = Inr \<lparr>x_Type = TypeDirect, x_Policy = PolicyStandard\<rparr>"
    by (simp add: Exchange_DecodeProps_def decode_int_field_def schema_defs enum_defs)
  have pol: "checkPolicy \<lparr>x_Type = TypeDirect, x_Policy = PolicyStandard\<rparr>
      (q_Type (created_props 7 TypePriority DeliveryPointToPoint None)) = Some (ExchangeErr X_ErrPolicyViolation)"
    by (simp add: checkPolicy_def created_props_def enum_defs)
  show ?thesis by (rule binding_check_skipped [OF sample_valid(1,2) q ne dec x xdec pol])
qed

end
