(* ===== verification/Producer.thy ===== *)
theory Producer
  imports Background_Tasks Exchange_Routing
begin

text \<open>
  Producers: \<open>internal/producer/producer.go\<close>, \<open>pubsub_resolver.go\<close> and \<open>publish.go\<close>. A producer sends a message
  to the queue it names, or to the queues its exchange matches, and for a queue with consumer
  groups once per group; the groups are those of a table that follows the events of the queues. New
  ids and clock readings are arguments, one \<open>publish_tick\<close> for each copy. The subscriptions that
  feed the table are a parameter of \<open>Resolver_Load\<close>; what they deliver are the handlers below.
\<close>

subsection \<open>Events\<close>

definition PublishUp :: "'s smq_env \<Rightarrow> string \<Rightarrow> ('s, go_error, unit) io" where
  "PublishUp env producerID = publish_event env ''producer.up'' [JStr producerID]"

definition PublishDown :: "'s smq_env \<Rightarrow> string \<Rightarrow> ('s, go_error, unit) io" where
  "PublishDown env producerID = publish_event env ''producer.down'' [JStr producerID]"

definition PublishGoingUp :: "'s smq_env \<Rightarrow> string \<Rightarrow> ('s, go_error, unit) io" where
  "PublishGoingUp env producerID = publish_event env ''producer.goingUp'' [JStr producerID]"

definition PublishGoingDown :: "'s smq_env \<Rightarrow> string \<Rightarrow> ('s, go_error, unit) io" where
  "PublishGoingDown env producerID = publish_event env ''producer.goingDown'' [JStr producerID]"

definition PublishMessagePublished :: "'s smq_env \<Rightarrow> string \<Rightarrow> queue_params \<Rightarrow> string \<Rightarrow> ('s, go_error, unit) io" where
  "PublishMessagePublished env messageID q producerID =
     publish_event env ''producer.messagePublished'' [JStr messageID, Params_MarshalJSON q, JStr producerID]"

subsection \<open>The groups of pub/sub queues\<close>

text \<open>The table \<open>targets\<close>, by the text of the queue's parameters; a key that is absent reads as no group.\<close>

type_synonym resolver = "(string, string list) fmap"

definition Resolve :: "resolver \<Rightarrow> queue_params \<Rightarrow> string list" where
  "Resolve r queueParams = (case fmlookup r (Params_String queueParams) of None \<Rightarrow> [] | Some groups \<Rightarrow> groups)"

definition Resolver_Add :: "queue_params \<Rightarrow> string \<Rightarrow> resolver \<Rightarrow> resolver" where
  "Resolver_Add queueParams groupID r =
     (if groupID \<in> set (Resolve r queueParams) then r
      else fmupd (Params_String queueParams) (Resolve r queueParams @ [groupID]) r)"

definition Resolver_Remove :: "queue_params \<Rightarrow> string \<Rightarrow> resolver \<Rightarrow> resolver" where
  "Resolver_Remove queueParams groupID r =
     (if groupID \<in> set (Resolve r queueParams)
      then fmupd (Params_String queueParams) (remove1 groupID (Resolve r queueParams)) r else r)"

definition onQueueCreated :: "queue_params \<Rightarrow> DeliveryModel \<Rightarrow> resolver \<Rightarrow> resolver" where
  "onQueueCreated queueParams deliveryModel r =
     (if deliveryModel = DeliveryPubSub \<and> fmlookup r (Params_String queueParams) = None
      then fmupd (Params_String queueParams) [] r else r)"

definition onQueueDeleted :: "queue_params \<Rightarrow> resolver \<Rightarrow> resolver" where
  "onQueueDeleted queueParams r = fmdrop (Params_String queueParams) r"

text \<open>The loop of \<open>Load\<close>: what cannot be read is skipped.\<close>

primrec load_targets :: "'s redis_server \<Rightarrow> string list \<Rightarrow> resolver \<Rightarrow> ('s, go_error, resolver) io" where
  "load_targets rd [] targets = ret targets"
| "load_targets rd (member # queues) targets =
     (case DecodeParams member of
        Inl err \<Rightarrow> load_targets rd queues targets
      | Inr qp \<Rightarrow>
          if qp_name qp = [] \<or> qp_ns qp = [] then load_targets rd queues targets
          else
          and_then (try_io (LoadHash rd (Queue_Properties (qkey qp)) ''queue properties'')) (\<lambda>r.
          case r of
            Inl (err :: go_error) \<Rightarrow> load_targets rd queues targets
          | Inr hash \<Rightarrow>
              (case fmlookup hash ''3'' of
                 None \<Rightarrow> load_targets rd queues targets
               | Some deliveryModelStr \<Rightarrow>
                   if atoi_value deliveryModelStr \<noteq> DeliveryPubSub then load_targets rd queues targets
                   else
                   and_then (try_io (LoadSetMembers rd (Queue_ConsumerGroups (qkey qp)) ''consumer groups'')) (\<lambda>r.
                   case r of
                     Inl (err :: go_error) \<Rightarrow> load_targets rd queues targets
                   | Inr groups \<Rightarrow> load_targets rd queues (fmupd (Params_String qp) groups targets)))))"

definition Resolver_Load :: "'s redis_server \<Rightarrow> ('s, go_error, unit) io \<Rightarrow> ('s, go_error, resolver) io" where
  "Resolver_Load rd subscribe =
     and_then (LoadSetMembers rd System_AllQueues ''all queues'') (\<lambda>queues.
     and_then (load_targets rd queues fmempty) (\<lambda>targets.
     and_then subscribe (\<lambda>_. ret targets)))"

subsection \<open>Publishing\<close>

record publish_tick =
  pt_uuid :: string
  pt_next :: "int \<times> int"
  pt_now :: int

text \<open>The envelope that \<open>dispatch\<close> sends, and whether it is scheduled.\<close>

definition dispatch_envelope :: "cron_lib \<Rightarrow> publish_tick \<Rightarrow> queue_params \<Rightarrow> envelope \<Rightarrow> bool \<times> envelope" where
  "dispatch_envelope gx tk queueParams envelope0 =
     (case NextScheduledTimestamp gx (fst (pt_next tk)) (snd (pt_next tk)) (SetDestinationQueue (Some queueParams) envelope0) of
        (nextScheduledTimestamp, envelope) \<Rightarrow>
          let isScheduled = 0 < nextScheduledTimestamp; state = e_messageState envelope in
          if isScheduled
          then (True, SetMessageState (IncrScheduledTimes (SetLastScheduledAt (pt_now tk) (SetScheduledAt nextScheduledTimestamp state)))
                 (SetStatus StatusScheduled envelope))
          else (False, SetMessageState (SetPublishedAt (pt_now tk) state) (SetStatus StatusPending envelope)))"

definition publish_reply :: "string \<Rightarrow> go_error" where
  "publish_reply replyStr =
     (if replyStr = ''QUEUE_NOT_FOUND'' then QueueErr Q_ErrNotFound
      else if replyStr = ''CONSUMER_GROUP_NOT_FOUND'' then ProducerErr P_ErrConsumerGroupNotFound
      else if replyStr = ''MESSAGE_PRIORITY_REQUIRED'' then ProducerErr P_ErrPriorityRequired
      else if replyStr = ''MESSAGE_ALREADY_EXISTS'' then ProducerErr P_ErrMessageAlreadyExists
      else if replyStr = ''PRIORITY_QUEUING_NOT_ENABLED'' then ProducerErr P_ErrPriorityNotEnabled
      else if replyStr = ''UNKNOWN_QUEUE_TYPE'' then ProducerErr P_ErrUnknownQueueType
      else if replyStr = ''QUEUE_STOPPED'' then QueueErr Q_ErrNotOperational
      else if replyStr = ''QUEUE_LOCKED'' then QueueErr Q_ErrLocked
      else if replyStr = ''QUEUE_INVALID_STATE'' then ProducerErr P_ErrInvalidQueueState
      else Errorf (''unexpected script reply: '' @ replyStr))"

definition dispatch :: "'s smq_env \<Rightarrow> cron_lib \<Rightarrow> string \<Rightarrow> publish_tick \<Rightarrow> queue_params \<Rightarrow> envelope \<Rightarrow> ('s, go_error, string) io" where
  "dispatch env gx producerID tk queueParams envelope0 =
     (case dispatch_envelope gx tk queueParams envelope0 of (isScheduled, envelope) \<Rightarrow>
      let messageID = Envelope_ID envelope in
      and_then (map_err (Wrapf (''publish message '' @ messageID))
        (Eval (env_redis env) PublishMessage (publish_keys (qkey queueParams) (e_consumerGroupID envelope) messageID)
          (BuildPublishArgs envelope))) (\<lambda>reply.
      and_then (map_err (Wrapf (''publish message '' @ messageID)) (lift_sum (String_of reply))) (\<lambda>replyStr.
      if replyStr = ''OK''
      then and_then (if \<not> isScheduled then PublishMessagePublished env messageID queueParams producerID else ret ()) (\<lambda>_.
           ret messageID)
      else throw (publish_reply replyStr))))"

text \<open>The copy for one group; the last argument gives the tick for a queue and a group.\<close>

definition group_envelope :: "publish_tick \<Rightarrow> producible \<Rightarrow> string \<Rightarrow> envelope" where
  "group_envelope tk m groupID = SetConsumerGroupID groupID (NewEnvelope (pt_uuid tk) m)"

primrec produce_groups :: "(string \<Rightarrow> ('s, go_error, string) io) \<Rightarrow> string list \<Rightarrow> ('s, go_error, string list) io" where
  "produce_groups send [] = ret []"
| "produce_groups send (groupID # targets) =
     and_then (map_err (Wrapf (''produce to consumer group '' @ groupID)) (send groupID)) (\<lambda>i.
     and_then (produce_groups send targets) (\<lambda>ids. ret (i # ids)))"

definition produceToQueue :: "'s smq_env \<Rightarrow> cron_lib \<Rightarrow> string \<Rightarrow> (queue_params \<Rightarrow> string \<Rightarrow> publish_tick) \<Rightarrow> producible \<Rightarrow> queue_params
    \<Rightarrow> resolver option \<Rightarrow> ('s, go_error, string list) io" where
  "produceToQueue env gx producerID ticks m queueParams resolver =
     (let targets = (case resolver of None \<Rightarrow> [] | Some r \<Rightarrow> Resolve r queueParams) in
      if targets \<noteq> [] then
        produce_groups (\<lambda>groupID. let tk = ticks queueParams groupID in
          dispatch env gx producerID tk queueParams (group_envelope tk m groupID)) targets
      else
        (let tk = ticks queueParams [] in
         and_then (dispatch env gx producerID tk queueParams (NewEnvelope (pt_uuid tk) m)) (\<lambda>i. ret [i])))"

definition matchExchangeQueues :: "'s redis_server \<Rightarrow> exchange_params \<Rightarrow> string \<Rightarrow> ('s, go_error, queue_params list) io" where
  "matchExchangeQueues rd exchangeParams routingKey =
     (if xp_typ exchangeParams = TypeDirect then
        (if routingKey = [] then throw (ProducerErr P_ErrRoutingKeyRequired) else Direct_MatchQueues rd exchangeParams routingKey)
      else if xp_typ exchangeParams = TypeTopic then
        (if routingKey = [] then throw (ProducerErr P_ErrRoutingKeyRequired) else Topic_MatchQueues rd exchangeParams routingKey)
      else if xp_typ exchangeParams = TypeFanout then Fanout_MatchQueues rd exchangeParams
      else throw (Errorf (''unsupported exchange type: '' @ ExchangeType_String (xp_typ exchangeParams))))"

primrec produce_queues :: "(queue_params \<Rightarrow> ('s, go_error, string list) io) \<Rightarrow> queue_params list \<Rightarrow> ('s, go_error, string list) io" where
  "produce_queues send [] = ret []"
| "produce_queues send (qp # queues) =
     and_then (map_err (Wrapf (''produce to queue '' @ qp_name qp)) (send qp)) (\<lambda>queueIDs.
     and_then (produce_queues send queues) (\<lambda>ids. ret (queueIDs @ ids)))"

definition produceToExchange :: "'s smq_env \<Rightarrow> cron_lib \<Rightarrow> string \<Rightarrow> (queue_params \<Rightarrow> string \<Rightarrow> publish_tick) \<Rightarrow> producible \<Rightarrow> exchange_params
    \<Rightarrow> resolver option \<Rightarrow> ('s, go_error, string list) io" where
  "produceToExchange env gx producerID ticks m exchangeParams resolver =
     and_then (matchExchangeQueues (env_redis env) exchangeParams (pm_exchangeRoutingKey m)) (\<lambda>queues.
     if queues = [] then throw (ProducerErr P_ErrNoMatchingQueues)
     else produce_queues (\<lambda>qp. produceToQueue env gx producerID ticks m qp resolver) queues)"

subsection \<open>The producer\<close>

record producer =
  prod_running :: bool
  prod_id :: string
  prod_pubSubResolver :: "resolver option"

definition New_Producer :: "string \<Rightarrow> producer" where
  "New_Producer uuid = \<lparr>prod_running = False, prod_id = uuid, prod_pubSubResolver = None\<rparr>"

definition Producer_Run :: "'s smq_env \<Rightarrow> ('s, go_error, unit) io \<Rightarrow> producer \<Rightarrow> ('s, go_error, producer) io" where
  "Producer_Run env subscribe pr =
     (if prod_running pr then ret pr
      else
      and_then (PublishGoingUp env (prod_id pr)) (\<lambda>_.
      and_then (map_err (Wrapf ''producer: load pub/sub targets'') (Resolver_Load (env_redis env) subscribe)) (\<lambda>targets.
      and_then (PublishUp env (prod_id pr)) (\<lambda>_.
      ret (pr\<lparr>prod_pubSubResolver := Some targets, prod_running := True\<rparr>)))))"

definition Producer_Shutdown :: "'s smq_env \<Rightarrow> producer \<Rightarrow> ('s, go_error, producer) io" where
  "Producer_Shutdown env pr =
     (if \<not> prod_running pr then ret pr
      else
      and_then (PublishGoingDown env (prod_id pr)) (\<lambda>_.
      and_then (PublishDown env (prod_id pr)) (\<lambda>_.
      ret (pr\<lparr>prod_running := False, prod_pubSubResolver := None\<rparr>))))"

definition Produce :: "'s smq_env \<Rightarrow> cron_lib \<Rightarrow> (queue_params \<Rightarrow> string \<Rightarrow> publish_tick) \<Rightarrow> producer \<Rightarrow> producible
    \<Rightarrow> ('s, go_error, string list) io" where
  "Produce env gx ticks pr m =
     (if \<not> prod_running pr then throw (ProducerErr P_ErrNotRunning)
      else case pm_queue m of
        Some queueParams \<Rightarrow> produceToQueue env gx (prod_id pr) ticks m queueParams (prod_pubSubResolver pr)
      | None \<Rightarrow>
          (case pm_exchange m of
             None \<Rightarrow> throw (ProducerErr P_ErrExchangeRequired)
           | Some exchangeParams \<Rightarrow>
               produceToExchange env gx (prod_id pr) ticks m exchangeParams (prod_pubSubResolver pr)))"

subsection \<open>What a producer publishes\<close>

text \<open>The envelopes of one call, and whether the queue accepts them one after the other.\<close>

definition produce_envelopes :: "cron_lib \<Rightarrow> (queue_params \<Rightarrow> string \<Rightarrow> publish_tick) \<Rightarrow> producible \<Rightarrow> queue_params \<Rightarrow> string list \<Rightarrow> envelope list" where
  "produce_envelopes gx ticks m p targets =
     (if targets = [] then [snd (dispatch_envelope gx (ticks p []) p (NewEnvelope (pt_uuid (ticks p [])) m))]
      else map (\<lambda>g. snd (dispatch_envelope gx (ticks p g) p (group_envelope (ticks p g) m g))) targets)"

definition accepts :: "mq \<Rightarrow> envelope \<Rightarrow> bool" where
  "accepts A e \<longleftrightarrow> publish_verdict A (e_consumerGroupID e) (priority_text (e_producibleMessage e)) (e_status e = StatusPending) [] = ''OK''"

primrec accepted_all :: "mq \<Rightarrow> envelope list \<Rightarrow> bool" where
  "accepted_all A [] = True"
| "accepted_all A (e # es) = (accepts A e \<and> accepted_all (run_op (Publish e) A) es)"

context smq_queues
begin

lemma dispatch_run:
  assumes run: "dispatch env gx pid tk p e0 s = (r, s')" and reach: "reach (qkey p) (db s) A"
  defines "e \<equiv> snd (dispatch_envelope gx tk p e0)"
  assumes ok: "allowed A (Publish e)"
  shows "(r = Inr (Envelope_ID e) \<and> accepts A e \<and> reach (qkey p) (db s') (run_op (Publish e) A)) \<or>
    (\<exists>err. r = Inl err \<and> (reach (qkey p) (db s') A \<or> reach (qkey p) (db s') (run_op (Publish e) A)))"
proof -
  obtain sch where de: "dispatch_envelope gx tk p e0 = (sch, e)" by (metis e_def prod.collapse)
  obtain r1 s1 where ev: "Eval (env_redis env) PublishMessage (publish_keys (qkey p) (e_consumerGroupID e) (Envelope_ID e)) (BuildPublishArgs e) s = (r1, s1)"
    by fastforce
  have op: "invoke (qkey p) en (Publish e) = smq_scripts other PublishMessage (redis_apply en)
      (publish_keys (qkey p) (e_consumerGroupID e) (Envelope_ID e)) (BuildPublishArgs e)" for en
    by (simp add: invoke_def smq_scripts_def)
  show ?thesis using Eval_operate [OF reach ok op ev]
  proof (elim disjE exE conjE)
    fix en x assume *: "enum_ok en" "r1 = Inr x" "invoke (qkey p) en (Publish e) (db s) = (Inr x, db s1)"
      "reach (qkey p) (db s1) (run_op (Publish e) A)"
    obtain v where v: "x = RBulk v" "accepts A e \<longleftrightarrow> v = ''OK''"
      using play_step [OF reach ok, of en] *(3) unfolding accepts_def by (metis Inr_inject prod.inject)
    show ?thesis
    proof (cases "v = ''OK''")
      case True
      have rest: "and_then (if \<not> sch then PublishMessagePublished env (Envelope_ID e) p pid else ret ()) (\<lambda>_. ret (Envelope_ID e)) s1 = (r, s')"
        using run ev *(2) v True de by (simp add: dispatch_def Let_def and_then_map_err and_then_Inr String_of_def)
      have "r = Inr (Envelope_ID e) \<and> db s' = db s1"
      proof (cases sch)
        case False
        from after_event [of _ _ "ret (Envelope_ID e)"] rest False show ?thesis by (fastforce simp: PublishMessagePublished_def)
      qed (use rest in simp)
      with *(4) v True show ?thesis by auto
    next
      case False
      then have "r = Inl (publish_reply v)" "s' = s1"
        using run ev *(2) v de False by (simp_all add: dispatch_def Let_def and_then_def map_err_def String_of_def)
      with *(4) show ?thesis by simp
    qed
  next
    fix err assume "r1 = Inl err" "db s1 = db s"
    then show ?thesis using run ev de reach by (auto simp: dispatch_def Let_def and_then_def map_err_def)
  next
    fix err assume "r1 = Inl err" "reach (qkey p) (db s1) (run_op (Publish e) A)"
    then show ?thesis using run ev de by (auto simp: dispatch_def Let_def and_then_def map_err_def)
  qed
qed

lemma produce_groups_run:
  assumes run: "produce_groups (\<lambda>g. dispatch env gx pid (tk g) p (e0 g)) targets s = (r, s')" and "reach (qkey p) (db s) A"
    and e: "\<And>g. snd (dispatch_envelope gx (tk g) p (e0 g)) = e g"
    and "allowed_seq A (map Publish (map e targets))"
  shows "(r = Inr (map Envelope_ID (map e targets)) \<and> accepted_all A (map e targets) \<and>
      reach (qkey p) (db s') (fold run_op (map Publish (map e targets)) A)) \<or>
    (\<exists>err k. r = Inl err \<and> k \<le> length targets \<and> reach (qkey p) (db s') (fold run_op (map Publish (take k (map e targets))) A))"
  using assms(1,2,4)
proof (induction targets arbitrary: s A r)
  case (Cons g targets)
  obtain r1 s1 where d: "dispatch env gx pid (tk g) p (e0 g) s = (r1, s1)" by fastforce
  have ok: "allowed A (Publish (e g))" "allowed_seq (run_op (Publish (e g)) A) (map Publish (map e targets))" using Cons.prems(3) by simp_all
  from dispatch_run [OF d Cons.prems(2), unfolded e, OF ok(1)] show ?case
  proof (elim disjE exE conjE)
    assume *: "r1 = Inr (Envelope_ID (e g))" "accepts A (e g)" "reach (qkey p) (db s1) (run_op (Publish (e g)) A)"
    obtain r2 where rest: "produce_groups (\<lambda>g. dispatch env gx pid (tk g) p (e0 g)) targets s1 = (r2, s')"
      and r: "r = (case r2 of Inl err \<Rightarrow> Inl err | Inr ids \<Rightarrow> Inr (Envelope_ID (e g) # ids))"
      using Cons.prems(1) d *(1) by (auto simp: and_then_def map_err_def split: prod.splits sum.splits)
    from Cons.IH [OF rest *(3) ok(2)] show ?thesis
    proof (elim disjE exE conjE)
      fix err k assume "r2 = Inl err" "k \<le> length targets"
        "reach (qkey p) (db s') (fold run_op (map Publish (take k (map e targets))) (run_op (Publish (e g)) A))"
      then show ?thesis using r by (intro disjI2 exI [of _ err] exI [of _ "Suc k"]) simp
    qed (use r *(2) in simp)
  next
    fix err assume *: "r1 = Inl err" "reach (qkey p) (db s1) A"
    then have "r = Inl (Wrapf (''produce to consumer group '' @ g) err)" "s' = s1"
      using Cons.prems(1) d by (auto simp: and_then_def map_err_def)
    with * show ?thesis by (intro disjI2 exI [of _ "Wrapf (''produce to consumer group '' @ g) err"] exI [of _ 0]) simp
  next
    fix err assume *: "r1 = Inl err" "reach (qkey p) (db s1) (run_op (Publish (e g)) A)"
    then have "r = Inl (Wrapf (''produce to consumer group '' @ g) err)" "s' = s1"
      using Cons.prems(1) d by (auto simp: and_then_def map_err_def)
    with * show ?thesis by (intro disjI2 exI [of _ "Wrapf (''produce to consumer group '' @ g) err"] exI [of _ 1]) simp
  qed
qed simp

end

context smq_queues
begin

lemma Produce_run:
  assumes run: "Produce env gx ticks pr m s = (r, s')" and up: "prod_running pr"
    and q: "pm_queue m = Some p" and rs: "prod_pubSubResolver pr = Some rs" and reach: "reach (qkey p) (db s) A"
    and ok: "allowed_seq A (map Publish (produce_envelopes gx ticks m p (Resolve rs p)))"
  shows "(r = Inr (map Envelope_ID (produce_envelopes gx ticks m p (Resolve rs p))) \<and>
      accepted_all A (produce_envelopes gx ticks m p (Resolve rs p)) \<and>
      reach (qkey p) (db s') (fold run_op (map Publish (produce_envelopes gx ticks m p (Resolve rs p))) A)) \<or>
    (\<exists>err k. r = Inl err \<and> reach (qkey p) (db s') (fold run_op (map Publish (take k (produce_envelopes gx ticks m p (Resolve rs p)))) A))"
proof (cases "Resolve rs p = []")
  case True
  let ?tk = "ticks p []"
  let ?e = "snd (dispatch_envelope gx ?tk p (NewEnvelope (pt_uuid ?tk) m))"
  have es: "produce_envelopes gx ticks m p (Resolve rs p) = [?e]" using True by (simp add: produce_envelopes_def)
  obtain r1 s1 where d: "dispatch env gx (prod_id pr) ?tk p (NewEnvelope (pt_uuid ?tk) m) s = (r1, s1)" by fastforce
  have out: "r = (case r1 of Inl err \<Rightarrow> Inl err | Inr i \<Rightarrow> Inr [i])" "s' = s1"
    using run up q rs True d by (auto simp: Produce_def produceToQueue_def Let_def and_then_def split: sum.splits)
  have "allowed A (Publish ?e)" using ok es by simp
  from dispatch_run [OF d reach this] show ?thesis
  proof (elim disjE exE conjE)
    fix err assume "r1 = Inl err" "reach (qkey p) (db s1) A"
    then show ?thesis using out es by (intro disjI2 exI [of _ err] exI [of _ 0]) simp
  next
    fix err assume "r1 = Inl err" "reach (qkey p) (db s1) (run_op (Publish ?e) A)"
    then show ?thesis using out es by (intro disjI2 exI [of _ err] exI [of _ 1]) simp
  qed (use out es in simp)
next
  case False
  let ?tk = "\<lambda>g. ticks p g" and ?e0 = "\<lambda>g. group_envelope (ticks p g) m g"
  have es: "produce_envelopes gx ticks m p (Resolve rs p) = map (\<lambda>g. snd (dispatch_envelope gx (?tk g) p (?e0 g))) (Resolve rs p)"
    using False by (simp add: produce_envelopes_def)
  have "produce_groups (\<lambda>g. dispatch env gx (prod_id pr) (?tk g) p (?e0 g)) (Resolve rs p) s = (r, s')"
    using run up q rs False by (simp add: Produce_def produceToQueue_def Let_def)
  from produce_groups_run [OF this reach refl ok [unfolded es]] show ?thesis unfolding es by blast
qed

end

text \<open>C34: What \<open>Produce\<close> does with a message for a queue. On success every consumer group the producer knows of the queue
  has got its own accepted copy, in the order of the groups, and the ids of the copies are returned; a queue
  without groups has got one copy. On failure some of the copies, from the first group on, have
  been published. In both cases the queue is in a state that its operations can reach.\<close>

theorem produce_outcome:
  assumes env: "smq_queues env db other" and run: "Produce env gx ticks pr m s = (r, s')" and up: "prod_running pr"
    and q: "pm_queue m = Some p" and rs: "prod_pubSubResolver pr = Some rs" and reach: "reach (qkey p) (db s) A"
    and ok: "allowed_seq A (map Publish (produce_envelopes gx ticks m p (Resolve rs p)))"
  shows "(r = Inr (map Envelope_ID (produce_envelopes gx ticks m p (Resolve rs p))) \<and>
      accepted_all A (produce_envelopes gx ticks m p (Resolve rs p)) \<and>
      reach (qkey p) (db s') (fold run_op (map Publish (produce_envelopes gx ticks m p (Resolve rs p))) A)) \<or>
    (\<exists>err k. r = Inl err \<and> reach (qkey p) (db s') (fold run_op (map Publish (take k (produce_envelopes gx ticks m p (Resolve rs p)))) A))"
  by (rule smq_queues.Produce_run [OF env run up q rs reach ok])

definition sample_producer :: producer where
  "sample_producer = \<lparr>prod_running = True, prod_id = ''p1'', prod_pubSubResolver = Some fmempty\<rparr>"

definition sample_ticks :: "queue_params \<Rightarrow> string \<Rightarrow> publish_tick" where
  "sample_ticks p g = \<lparr>pt_uuid = ''m1'', pt_next = (5, 5), pt_now = 5\<rparr>"

lemma sample_produced:
  defines "e \<equiv> snd (dispatch_envelope no_cron (sample_ticks sample_queue []) sample_queue (NewEnvelope ''m1'' sample_message))"
  shows "Envelope_ID e = ''m1''" "e_status e = StatusPending" "e_producibleMessage e = sample_message" "e_consumerGroupID e = []"
    "pm_priority sample_message = None"
  by (simp_all add: e_def dispatch_envelope_def NextScheduledTimestamp_def IsSchedulable_def HasNextDelay_def IsPeriodic_def HasDelay_def
      sample_ticks_def sample_envelope_defs SetStatus_def SetMessageState_def SetPublishedAt_def Envelope_ID_def)

theorem produce_outcome_witness:
  "\<exists>r d. Produce (mem_env (smq_scripts no_scripts)) no_cron sample_ticks sample_producer sample_message created_sample = (r, d) \<and>
     (r = Inr [''m1''] \<or> (\<exists>err. r = Inl err)) \<and> (\<exists>B. reach (qkey sample_queue) d B)"
proof -
  obtain r d where run: "Produce (mem_env (smq_scripts no_scripts)) no_cron sample_ticks sample_producer sample_message created_sample = (r, d)"
    by fastforce
  let ?e = "snd (dispatch_envelope no_cron (sample_ticks sample_queue []) sample_queue (NewEnvelope ''m1'' sample_message))"
  have es: "produce_envelopes no_cron sample_ticks sample_message sample_queue (Resolve fmempty sample_queue) = [?e]"
    by (simp add: produce_envelopes_def Resolve_def sample_ticks_def)
  have ok: "allowed_seq first_view (map Publish [?e])"
    using new_queue_unused [of 7 TypeFIFO DeliveryPointToPoint None empty_db] sample_produced
    by (auto simp: allowed_def op_size_def plain_id_def fresh_def unused_def first_view_def new_queue_def)
  have "prod_running sample_producer" "pm_queue sample_message = Some sample_queue" "prod_pubSubResolver sample_producer = Some fmempty"
    by (simp_all add: sample_producer_def sample_envelope_defs sample_queue_def)
  from produce_outcome [OF mem_smq_queues run this, OF reach_first, unfolded es, OF ok] run sample_produced(1) show ?thesis by auto
qed

subsection \<open>A pub/sub queue without groups\<close>

lemma dispatch_group: "e_consumerGroupID (snd (dispatch_envelope gx tk p e)) = e_consumerGroupID e"
  by (simp add: dispatch_envelope_def NextScheduledTimestamp_def Let_def SetDestinationQueue_def SetStatus_def SetMessageState_def
      split: prod.split)

context smq_queues
begin

lemma PrepareConsumerGroup_group:
  assumes view: "queue_view (qkey p) (db s) A" and dm: "mq_conf A F_DeliveryModel = Some (itoa DeliveryPubSub)"
    and run: "PrepareConsumerGroup env c p g s = (Inr g', s')"
  shows "g' \<noteq> []"
proof -
  obtain r1 s1 where ld: "Queue_Load (env_redis env) p s = (r1, s1)" by fastforce
  then obtain props where props: "r1 = Inr props" using run by (cases r1) (auto simp: PrepareConsumerGroup_def and_then_def map_err_def)
  from Queue_Load_ok [OF ld [unfolded props]] obtain h where h: "get_hash (db s) (Queue_Properties (qkey p)) = Inr h" "DecodeProps h = Inr props"
    by blast
  have "fmlookup h F_DeliveryModel = Some (itoa DeliveryPubSub)"
    using queue_view_props [OF view] h(1) props_view_lookup(2) group_conf_fields dm by (metis Inr_inject insertCI)
  then have "q_DeliveryModel props = DeliveryPubSub"
    using h(2) by (auto simp: DecodeProps_def parseInt64Field_def hash_get_def enum_defs in_int64_def split: if_splits)
  then show ?thesis
    using run ld props
    by (auto simp: PrepareConsumerGroup_def Let_def and_then_def map_err_def ephemeralGroupID_def split: if_splits prod.splits sum.splits)
qed

end


definition pubsub_view :: mq where
  "pubsub_view = new_queue 7 TypeFIFO DeliveryPubSub None empty_db"

lemma pubsub_conf:
  "mq_conf pubsub_view F_Type = Some (itoa TypeFIFO)" "mq_conf pubsub_view F_DeliveryModel = Some (itoa DeliveryPubSub)"
  "mq_conf pubsub_view F_OperationalState = Some (itoa StateActive)"
  unfolding pubsub_view_def new_queue_def created_hash_def by (simp_all, (rule hset_all_in; auto simp: schema_defs)+)

lemma reach_pubsub: "reach (qkey sample_queue) (created_db 7 sample_queue TypeFIFO DeliveryPubSub None empty_db) pubsub_view"
proof (rule reach.start)
  show "queue_view (qkey sample_queue) (created_db 7 sample_queue TypeFIFO DeliveryPubSub None empty_db) pubsub_view"
    unfolding pubsub_view_def by (rule created_view [OF empty_db_typed empty_vacant])
  show "known_type pubsub_view" by (simp add: known_type_def pubsub_conf)
  show "unused pubsub_view" by (simp add: pubsub_view_def new_queue_unused)
qed


subsection \<open>The table follows the events\<close>

datatype queue_event =
    QueueCreated queue_params DeliveryModel
  | QueueDeleted queue_params
  | GroupCreated queue_params string
  | GroupDeleted queue_params string

fun on_event :: "queue_event \<Rightarrow> resolver \<Rightarrow> resolver" where
  "on_event (QueueCreated p dm) r = onQueueCreated p dm r"
| "on_event (QueueDeleted p) r = onQueueDeleted p r"
| "on_event (GroupCreated p g) r = Resolver_Add p g r"
| "on_event (GroupDeleted p g) r = Resolver_Remove p g r"

text \<open>What the events say about the groups of the queues, by the texts of their parameters.\<close>

fun event_groups :: "queue_event \<Rightarrow> (string \<Rightarrow> string set) \<Rightarrow> string \<Rightarrow> string set" where
  "event_groups (QueueCreated p dm) G = G"
| "event_groups (QueueDeleted p) G = G(Params_String p := {})"
| "event_groups (GroupCreated p g) G = G(Params_String p := insert g (G (Params_String p)))"
| "event_groups (GroupDeleted p g) G = G(Params_String p := G (Params_String p) - {g})"

definition targets_of :: "resolver \<Rightarrow> string \<Rightarrow> string set" where
  "targets_of r k = (case fmlookup r k of None \<Rightarrow> {} | Some groups \<Rightarrow> set groups)"

definition targets_ok :: "resolver \<Rightarrow> bool" where
  "targets_ok r \<longleftrightarrow> (\<forall>k groups. fmlookup r k = Some groups \<longrightarrow> distinct groups)"

lemma on_event_simulates:
  assumes "targets_ok r"
  shows "targets_ok (on_event ev r) \<and> targets_of (on_event ev r) = event_groups ev (targets_of r)"
  using assms
  by (cases ev) (auto simp: targets_ok_def targets_of_def fun_eq_iff onQueueCreated_def onQueueDeleted_def Resolver_Add_def
      Resolver_Remove_def Resolve_def split: option.splits if_splits)

text \<open>C36: The table of consumer groups that a producer keeps refines the sets of groups that the events describe:
  after any sequence of queue and group events, starting from a table without duplicates such as the
  one that was loaded, the targets of a queue are exactly its groups, each of them once. A message is
  therefore sent to every group once.\<close>

theorem resolver_refines:
  assumes "targets_ok r"
  shows "distinct (Resolve (fold on_event evs r) p) \<and>
    set (Resolve (fold on_event evs r) p) = fold event_groups evs (targets_of r) (Params_String p)"
proof -
  have "targets_ok (fold on_event evs r) \<and> targets_of (fold on_event evs r) = fold event_groups evs (targets_of r)"
    using assms on_event_simulates by (induction evs arbitrary: r) auto
  moreover have "set (Resolve (fold on_event evs r) p) = targets_of (fold on_event evs r) (Params_String p)"
    by (simp add: Resolve_def targets_of_def split: option.split)
  ultimately show ?thesis
    by (auto simp: Resolve_def targets_ok_def split: option.split)
qed

theorem resolver_refines_witness:
  "targets_ok fmempty \<and> set (Resolve (fold on_event
       [QueueCreated sample_queue DeliveryPubSub, GroupCreated sample_queue ''g1'', GroupCreated sample_queue ''g2'',
        GroupCreated sample_queue ''g1'', GroupDeleted sample_queue ''g2''] fmempty) sample_queue) = {''g1''}"
proof -
  have "targets_ok fmempty" by (simp add: targets_ok_def)
  from resolver_refines [OF this, of "[QueueCreated sample_queue DeliveryPubSub, GroupCreated sample_queue ''g1'',
        GroupCreated sample_queue ''g2'', GroupCreated sample_queue ''g1'', GroupDeleted sample_queue ''g2'']" sample_queue] this
  show ?thesis by (auto simp: targets_of_def)
qed

end
