(* ===== verification/Configuration.thy ===== *)
theory Configuration
  imports Consuming Queue_Store
begin

text \<open>
  The configuration that all clients of a Redis server share: \<open>pkg/config\<close>, \<open>internal/config/codec.go\<close>,
  \<open>internal/config/manager.go\<close> and \<open>save-config.lua\<close>. A manager keeps a copy of the configuration with the
  version it was read or saved at, saves on condition that the version has not moved on, and takes
  over newer configurations that other managers announce.

  The second half runs any number of managers against each other and keeps the list of all accepted
  configurations: \<open>config_history\<close> states that every copy in memory is an entry of that list, the
  stored one its last entry, and that only a manager that has the last entry can add another.

  A configuration is passed by value. In Go, \<open>Get\<close> hands out the manager's own copy, so that a caller
  who changes it and then fails to save has changed the manager's copy too; that aliasing is not
  modelled, and neither is a Redis server that loses its data.
\<close>

subsection \<open>Data\<close>

record config =
  cf_Version :: int
  cf_Namespace :: string
  cf_LoggerEnabled :: bool
  cf_IncludeTimestamp :: bool
  cf_Colorize :: bool
  cf_LogLevel :: int
  cf_MessageAudit :: message_audit

definition DefaultConfig :: config where
  "DefaultConfig =
     \<lparr>cf_Version = 0, cf_Namespace = ''default'', cf_LoggerEnabled = False, cf_IncludeTimestamp = True, cf_Colorize = True,
      cf_LogLevel = 1, cf_MessageAudit =
        \<lparr>ma_AcknowledgedMessages = \<lparr>am_Enabled = False, am_QueueSize = 0, am_Expire = 0\<rparr>,
         ma_DeadLetteredMessages = \<lparr>am_Enabled = False, am_QueueSize = 0, am_Expire = 0\<rparr>,
         ma_UnacknowledgementHistory = \<lparr>ah_Enabled = False, ah_MaxSize = 100\<rparr>\<rparr>\<rparr>"

definition audit_messages_json :: "audit_messages \<Rightarrow> json" where
  "audit_messages_json a = JObj
     [(''enabled'', JBool (am_Enabled a)), (''queueSize'', JNum (am_QueueSize a)), (''expire'', JNum (am_Expire a))]"

definition audit_history_json :: "audit_history \<Rightarrow> json" where
  "audit_history_json a = JObj [(''enabled'', JBool (ah_Enabled a)), (''maxSize'', JNum (ah_MaxSize a))]"

text \<open>The version is not part of the JSON.\<close>

definition config_json :: "config \<Rightarrow> json" where
  "config_json c = JObj
     [(''namespace'', JStr (cf_Namespace c)),
      (''logger'', JObj [(''enabled'', JBool (cf_LoggerEnabled c)),
         (''options'', JObj [(''includeTimestamp'', JBool (cf_IncludeTimestamp c)), (''colorize'', JBool (cf_Colorize c)),
           (''logLevel'', JNum (cf_LogLevel c))])]),
      (''messageAudit'', JObj
         [(''acknowledgedMessages'', audit_messages_json (ma_AcknowledgedMessages (cf_MessageAudit c))),
          (''deadLetteredMessages'', audit_messages_json (ma_DeadLetteredMessages (cf_MessageAudit c))),
          (''unacknowledgementHistory'', audit_history_json (ma_UnacknowledgementHistory (cf_MessageAudit c)))])]"

definition un_audit_messages :: "json option \<Rightarrow> audit_messages option" where
  "un_audit_messages v =
     (case un_map v of None \<Rightarrow> None | Some kvs \<Rightarrow>
      (case (un_bool False (obj_field kvs ''enabled''), un_int 0 (obj_field kvs ''queueSize''), un_int 0 (obj_field kvs ''expire'')) of
         (Some e, Some n, Some t) \<Rightarrow> Some \<lparr>am_Enabled = e, am_QueueSize = n, am_Expire = t\<rparr>
       | _ \<Rightarrow> None))"

definition un_audit_history :: "json option \<Rightarrow> audit_history option" where
  "un_audit_history v =
     (case un_map v of None \<Rightarrow> None | Some kvs \<Rightarrow>
      (case (un_bool False (obj_field kvs ''enabled''), un_int 0 (obj_field kvs ''maxSize'')) of
         (Some e, Some n) \<Rightarrow> Some \<lparr>ah_Enabled = e, ah_MaxSize = n\<rparr>
       | _ \<Rightarrow> None))"

definition un_audit :: "json option \<Rightarrow> message_audit option" where
  "un_audit v =
     (case un_map v of None \<Rightarrow> None | Some kvs \<Rightarrow>
      (case (un_audit_messages (obj_field kvs ''acknowledgedMessages''), un_audit_messages (obj_field kvs ''deadLetteredMessages''),
             un_audit_history (obj_field kvs ''unacknowledgementHistory'')) of
         (Some a, Some d, Some h) \<Rightarrow>
           Some \<lparr>ma_AcknowledgedMessages = a, ma_DeadLetteredMessages = d, ma_UnacknowledgementHistory = h\<rparr>
       | _ \<Rightarrow> None))"

definition config_of_json :: "json \<Rightarrow> config option" where
  "config_of_json v =
     (case un_struct v of None \<Rightarrow> None | Some kvs \<Rightarrow>
      (case un_map (obj_field kvs ''logger'') of None \<Rightarrow> None | Some lg \<Rightarrow>
      (case un_map (obj_field lg ''options'') of None \<Rightarrow> None | Some op \<Rightarrow>
      (case (un_str [] (obj_field kvs ''namespace''), un_bool False (obj_field lg ''enabled''),
             un_bool False (obj_field op ''includeTimestamp''), un_bool False (obj_field op ''colorize''),
             un_int 0 (obj_field op ''logLevel''), un_audit (obj_field kvs ''messageAudit'')) of
         (Some n, Some e, Some t, Some c, Some l, Some a) \<Rightarrow>
           Some \<lparr>cf_Version = 0, cf_Namespace = n, cf_LoggerEnabled = e, cf_IncludeTimestamp = t, cf_Colorize = c,
             cf_LogLevel = l, cf_MessageAudit = a\<rparr>
       | _ \<Rightarrow> None))))"

subsection \<open>The codec\<close>

abbreviation FieldVersion :: string where "FieldVersion \<equiv> ''version''"
abbreviation FieldData :: string where "FieldData \<equiv> ''data''"

definition Config_Encode :: "config option \<Rightarrow> go_error + (string \<times> string) list" where
  "Config_Encode cfg =
     (case cfg of
        None \<Rightarrow> Inl (Errorf ''encode config: nil'')
      | Some c \<Rightarrow> Inr [(FieldVersion, itoa (cf_Version c)), (FieldData, json_text (config_json c))])"

definition Config_Decode :: "(string, string) fmap \<Rightarrow> go_error + config" where
  "Config_Decode hash =
     (if hash = fmempty then Inl (Errorf ''decode config: empty hash'')
      else
      case fmlookup hash FieldData of
        None \<Rightarrow> Inl (Errorf ''decode config: missing data field'')
      | Some data \<Rightarrow>
          if data = [] then Inl (Errorf ''decode config: missing data field'')
          else
          case Option.bind (parse_json data) config_of_json of
            None \<Rightarrow> Inl (Wrapf ''decode config'' JsonErr)
          | Some cfg \<Rightarrow>
              (case fmlookup hash FieldVersion of
                 None \<Rightarrow> Inr cfg
               | Some v \<Rightarrow>
                   (case parse_int v of
                      (_, Some err) \<Rightarrow> Inl (Wrapf ''decode config version'' (NumErr err))
                    | (version, None) \<Rightarrow> Inr (cfg\<lparr>cf_Version := version\<rparr>))))"

subsection \<open>save-config.lua\<close>

text \<open>\<open>tonumber\<close>, on the integers that the program stores and passes.\<close>

definition tonumber :: "string \<Rightarrow> int option" where
  "tonumber s = (case parse_int s of (n, None) \<Rightarrow> Some n | (_, Some _) \<Rightarrow> None)"

definition lua_save_config :: script where
  "lua_save_config call KEYS ARGV =
     (let keyConfiguration = nth1 KEYS 1; versionField = nth1 ARGV 1; dataField = nth1 ARGV 2;
          expectedVersion = tonumber (nth1 ARGV 3); data = nth1 ARGV 4 in
      and_then (lua_hget call keyConfiguration versionField) (\<lambda>currentVersion.
      case currentVersion of
        None \<Rightarrow>
          and_then (lua_do call [HSET keyConfiguration [(versionField, ''1'')], HSET keyConfiguration [(dataField, data)]]) (\<lambda>_.
          ret (RInt 1))
      | Some v \<Rightarrow>
          if tonumber v \<noteq> expectedVersion then lua_return ''VERSION_MISMATCH''
          else
          and_then (lua_do call [HSET keyConfiguration [(dataField, data)]]) (\<lambda>_.
          call (HINCRBY keyConfiguration versionField 1))))"

definition config_scripts :: "(ID \<Rightarrow> script) \<Rightarrow> ID \<Rightarrow> script" where
  "config_scripts other i = (case i of SaveConfig \<Rightarrow> lua_save_config | _ \<Rightarrow> other i)"

subsection \<open>The manager\<close>

text \<open>\<open>cm_public\<close> is the snapshot of \<open>pkg/config\<close>.\<close>

record config_manager =
  cm_instance :: "config option"
  cm_epoch :: string
  cm_subscribed :: bool
  cm_public :: config

definition NewConfigManager :: config_manager where
  "NewConfigManager = \<lparr>cm_instance = None, cm_epoch = [], cm_subscribed = False, cm_public = DefaultConfig\<rparr>"

definition setCurrentConfigLocked :: "config \<Rightarrow> int \<Rightarrow> config_manager \<Rightarrow> config_manager" where
  "setCurrentConfigLocked c version m =
     (let c' = c\<lparr>cf_Version := version\<rparr> in m\<lparr>cm_instance := Some c', cm_public := c'\<rparr>)"

definition saveLocked :: "'s redis_server \<Rightarrow> config \<Rightarrow> int \<Rightarrow> ('s, go_error, int) io" where
  "saveLocked rd c currentVersion =
     and_then (map_err (Wrapf ''save config'') (Eval rd SaveConfig [System_Config]
       [FieldVersion, FieldData, itoa currentVersion, json_text (config_json c)])) (\<lambda>reply.
     case reply of
       RBulk replyStr \<Rightarrow>
         if replyStr = ''VERSION_MISMATCH'' then throw (ConfigErr Cfg_ErrVersionMismatch)
         else throw (Wrapf replyStr (ConfigErr Cfg_ErrUnexpectedScriptReply))
     | _ \<Rightarrow> lift_sum (Int64_of reply))"

text \<open>The operations of a manager return what Go returns together with the manager, which a failure may
  have changed too. A new epoch is a \<open>uuid\<close>, given as an argument.\<close>

definition persistLocked :: "'s redis_server \<Rightarrow> string \<Rightarrow> config \<Rightarrow> int \<Rightarrow> config_manager
    \<Rightarrow> ('s, go_error, (go_error + int) \<times> config_manager) io" where
  "persistLocked rd uuid c expectedVersion m =
     (let m1 = (if cm_epoch m = [] then m\<lparr>cm_epoch := uuid\<rparr> else m) in
      and_then (try_io (saveLocked rd c expectedVersion)) (\<lambda>r.
      case r of
        Inl err \<Rightarrow> ret (Inl err, m1)
      | Inr version \<Rightarrow>
          and_then (try_io (exec rd (HSET System_Config [(''epoch'', cm_epoch m1)]))) (\<lambda>r.
          case r of
            Inl err \<Rightarrow> ret (Inl (Wrapf ''persist config epoch'' (RedisErr err)), m1)
          | Inr _ \<Rightarrow> ret (Inr version, m1))))"

definition PublishUpdated :: "'s smq_env \<Rightarrow> config \<Rightarrow> int \<Rightarrow> string \<Rightarrow> ('s, go_error, unit) io" where
  "PublishUpdated env cfg version epoch = publish_event env ''configuration.updated'' [config_json cfg, JNum version, JStr epoch]"

definition persistAndPublishLocked :: "'s smq_env \<Rightarrow> string \<Rightarrow> config \<Rightarrow> int \<Rightarrow> config_manager
    \<Rightarrow> ('s, go_error, (go_error + int) \<times> config_manager) io" where
  "persistAndPublishLocked env uuid c currentVersion m =
     and_then (persistLocked (env_redis env) uuid c currentVersion m) (\<lambda>(r, m1).
     case r of
       Inl err \<Rightarrow> ret (Inl err, m1)
     | Inr version \<Rightarrow> and_then (PublishUpdated env c version (cm_epoch m1)) (\<lambda>_. ret (Inr version, setCurrentConfigLocked c version m1)))"

definition createDefaultsLocked :: "'s redis_server \<Rightarrow> string \<Rightarrow> config_manager \<Rightarrow> ('s, go_error, (go_error + unit) \<times> config_manager) io" where
  "createDefaultsLocked rd uuid m =
     and_then (persistLocked rd uuid DefaultConfig 0 (m\<lparr>cm_epoch := uuid\<rparr>)) (\<lambda>(r, m1).
     case r of
       Inl err \<Rightarrow> ret (Inl (Wrapf ''create defaults'' err), m1)
     | Inr version \<Rightarrow> ret (Inr (), setCurrentConfigLocked DefaultConfig version m1))"

definition loadOrCreateLocked :: "'s redis_server \<Rightarrow> string \<Rightarrow> config_manager \<Rightarrow> ('s, go_error, (go_error + unit) \<times> config_manager) io" where
  "loadOrCreateLocked rd uuid m =
     and_then (try_io (LoadHash rd System_Config ''config'')) (\<lambda>r.
     case r of
       Inl err \<Rightarrow> createDefaultsLocked rd uuid m
     | Inr hash \<Rightarrow>
         (case Config_Decode hash of
            Inl err \<Rightarrow> createDefaultsLocked rd uuid m
          | Inr c \<Rightarrow>
              (case fmlookup hash ''epoch'' of
                 Some (e # es) \<Rightarrow> ret (Inr (), setCurrentConfigLocked c (cf_Version c) (m\<lparr>cm_epoch := e # es\<rparr>))
               | _ \<Rightarrow>
                   (let m1 = m\<lparr>cm_epoch := uuid\<rparr> in
                    and_then (try_io (exec rd (HSET System_Config [(''epoch'', uuid)]))) (\<lambda>r.
                    case r of
                      Inl err \<Rightarrow> ret (Inl (Wrapf ''set epoch'' (RedisErr err)), m1)
                    | Inr _ \<Rightarrow> ret (Inr (), setCurrentConfigLocked c (cf_Version c) m1))))))"

text \<open>A subscription that fails is only reported on the console.\<close>

definition Config_Init :: "'s redis_server \<Rightarrow> string \<Rightarrow> bool \<Rightarrow> config_manager \<Rightarrow> ('s, go_error, (go_error + unit) \<times> config_manager) io" where
  "Config_Init rd uuid subscribes m =
     (if cm_instance m \<noteq> None then ret (Inr (), m)
      else
      and_then (loadOrCreateLocked rd uuid m) (\<lambda>(r, m1).
      case r of
        Inl err \<Rightarrow> ret (Inl err, m1)
      | Inr _ \<Rightarrow> ret (Inr (), if subscribes then m1\<lparr>cm_subscribed := True\<rparr> else m1)))"

definition Config_Save :: "'s smq_env \<Rightarrow> string \<Rightarrow> config \<Rightarrow> config_manager \<Rightarrow> ('s, go_error, (go_error + int) \<times> config_manager) io" where
  "Config_Save env uuid c m =
     (case cm_instance m of
        None \<Rightarrow> ret (Inl (ConfigErr Cfg_ErrNotInitialized), m)
      | Some i \<Rightarrow> persistAndPublishLocked env uuid c (cf_Version i) m)"

definition Config_Reset :: "'s smq_env \<Rightarrow> string \<Rightarrow> config_manager \<Rightarrow> ('s, go_error, (go_error + unit) \<times> config_manager) io" where
  "Config_Reset env uuid m =
     (case cm_instance m of
        None \<Rightarrow> ret (Inl (ConfigErr Cfg_ErrNotInitialized), m)
      | Some i \<Rightarrow> and_then (persistAndPublishLocked env uuid DefaultConfig (cf_Version i) m) (\<lambda>(r, m1).
          ret (map_sum id (\<lambda>_. ()) r, m1)))"

definition Config_Reload :: "'s redis_server \<Rightarrow> string \<Rightarrow> config_manager \<Rightarrow> ('s, go_error, (go_error + unit) \<times> config_manager) io" where
  "Config_Reload rd uuid m =
     (if cm_instance m = None then ret (Inl (ConfigErr Cfg_ErrNotInitialized), m) else loadOrCreateLocked rd uuid m)"

definition Config_Close :: "config_manager \<Rightarrow> config_manager" where
  "Config_Close m = m\<lparr>cm_subscribed := False, cm_instance := None\<rparr>"

text \<open>The handler of the events of other managers; the flag says that a reload follows.\<close>

definition onConfigUpdated :: "config \<Rightarrow> int \<Rightarrow> string \<Rightarrow> config_manager \<Rightarrow> bool \<times> config_manager" where
  "onConfigUpdated c version epoch m =
     (case cm_instance m of
        None \<Rightarrow> (False, m)
      | Some i \<Rightarrow>
          if epoch \<noteq> cm_epoch m then (True, m)
          else if cf_Version i < version then (False, setCurrentConfigLocked c version m)
          else (False, m))"

subsection \<open>Round trip\<close>

definition config_fits :: "config \<Rightarrow> bool" where
  "config_fits c \<longleftrightarrow> is_ascii (cf_Namespace c) \<and> in_int64 (cf_LogLevel c) \<and>
     in_int64 (am_QueueSize (ma_AcknowledgedMessages (cf_MessageAudit c))) \<and> in_int64 (am_Expire (ma_AcknowledgedMessages (cf_MessageAudit c))) \<and>
     in_int64 (am_QueueSize (ma_DeadLetteredMessages (cf_MessageAudit c))) \<and> in_int64 (am_Expire (ma_DeadLetteredMessages (cf_MessageAudit c))) \<and>
     in_int64 (ah_MaxSize (ma_UnacknowledgementHistory (cf_MessageAudit c)))"

abbreviation config_body :: "config \<Rightarrow> config" where
  "config_body c \<equiv> c\<lparr>cf_Version := 0\<rparr>"

lemma audit_roundtrip:
  "in_int64 (am_QueueSize a) \<Longrightarrow> in_int64 (am_Expire a) \<Longrightarrow> un_audit_messages (Some (audit_messages_json a)) = Some a"
  "in_int64 (ah_MaxSize h) \<Longrightarrow> un_audit_history (Some (audit_history_json h)) = Some h"
  by (simp_all add: un_audit_messages_def audit_messages_json_def un_audit_history_def audit_history_json_def un_map_def
      obj_field_simps un_bool_def un_int_def)

lemma config_roundtrip: "config_fits c \<Longrightarrow> config_of_json (config_json c) = Some (config_body c)"
  by (simp add: config_of_json_def config_json_def config_fits_def un_struct_def un_map_def obj_field_simps un_bool_def un_int_def
      un_str_def un_audit_def audit_roundtrip)

lemma config_parse:
  assumes "config_fits c"
  shows "Option.bind (parse_json (json_text (config_json c))) config_of_json = Some (config_body c)"
proof -
  have "json_ascii (config_json c)"
    using assms by (simp add: config_json_def audit_messages_json_def audit_history_json_def config_fits_def is_ascii_def)
  then show ?thesis using config_roundtrip [OF assms] by (simp add: parse_json_text)
qed

lemma config_text_nonempty: "json_text (config_json c) \<noteq> []"
  by (simp add: config_json_def)

lemma DefaultConfig_fits [simp]: "config_fits DefaultConfig"
  by (simp add: config_fits_def DefaultConfig_def in_int64_def is_ascii_def)

text \<open>What is stored after the configurations of \<open>log\<close> have been accepted one after the other.\<close>

definition stored :: "config list \<Rightarrow> db \<Rightarrow> bool" where
  "stored log d \<longleftrightarrow> (\<exists>h. get_hash d System_Config = Inr h \<and>
     (if log = [] then h = fmempty
      else fmlookup h FieldVersion = Some (itoa (int (length log))) \<and> fmlookup h FieldData = Some (json_text (config_json (last log)))))"

lemma stored_decodes:
  assumes "stored log d" "log \<noteq> []" "get_hash d System_Config = Inr h" "config_fits (last log)" "in_int64 (int (length log))"
  shows "Config_Decode h = Inr ((last log)\<lparr>cf_Version := int (length log)\<rparr>)"
proof -
  have h: "fmlookup h FieldVersion = Some (itoa (int (length log)))" "fmlookup h FieldData = Some (json_text (config_json (last log)))"
    using assms(1-3) by (auto simp: stored_def)
  then have "h \<noteq> fmempty" by auto
  then show ?thesis using h assms(4,5) by (simp add: Config_Decode_def config_parse config_text_nonempty)
qed

lemma itoa_1: "itoa 1 = ''1''"
  by code_simp

text \<open>Saving on top of \<open>n\<close>: the first configuration is accepted whatever \<open>n\<close> is.\<close>

lemma save_config_run:
  assumes "stored log d" "in_int64 n" "in_int64 (int (length log) + 1)"
  shows "\<exists>d'. lua_save_config (redis_apply en) [System_Config] [FieldVersion, FieldData, itoa n, json_text (config_json c)] d =
      (if log = [] \<or> n = int (length log) then (Inr (RInt (int (length log) + 1)), d') else (Inr (RBulk ''VERSION_MISMATCH''), d)) \<and>
    stored (log @ [c]) d'"
proof -
  let ?data = "json_text (config_json c)" and ?n = "int (length log)"
  obtain h where h: "get_hash d System_Config = Inr h" using assms(1) by (auto simp: stored_def)
  have hset: "redis_apply en (HSET System_Config [(f, v)]) e = (Inr (RInt (int (fcard ({|f|} |-| fmdom g)))), put_hash System_Config (fmupd f v g) e)"
    if "get_hash e System_Config = Inr g" for e g f v
    using that by (simp add: redis_apply.simps modify_def hset_all_def)
  show ?thesis
  proof (cases "log = []")
    case True
    then have [simp]: "h = fmempty" using assms(1) h by (simp add: stored_def)
    let ?d1 = "put_hash System_Config (fmupd FieldVersion ''1'' fmempty) d"
    let ?d' = "put_hash System_Config (fmupd FieldData ?data (fmupd FieldVersion ''1'' fmempty)) ?d1"
    have "lua_save_config (redis_apply en) [System_Config] [FieldVersion, FieldData, itoa n, ?data] d = (Inr (RInt 1), ?d')"
      using h by (simp add: lua_save_config_def Let_def nth1_def lua_hget_def lua_do.simps redis_apply.simps(6) and_then_def opt_reply_def
          hset [of d fmempty] hset [of ?d1 "fmupd FieldVersion ''1'' fmempty"])
    moreover have "stored [c] ?d'" by (simp add: stored_def itoa_1)
    ultimately show ?thesis using True by auto
  next
    case False
    then have v: "fmlookup h FieldVersion = Some (itoa ?n)" using assms(1) h by (simp add: stored_def)
    let ?d1 = "put_hash System_Config (fmupd FieldData ?data h) d"
    let ?d' = "put_hash System_Config (fmupd FieldVersion (itoa (?n + 1)) (fmupd FieldData ?data h)) ?d1"
    have num: "tonumber (itoa n) = Some n" "tonumber (itoa ?n) = Some ?n"
      using assms(2,3) by (simp_all add: tonumber_def in_int64_def)
    have inc: "redis_apply en (HINCRBY System_Config FieldVersion 1) ?d1 = (Inr (RInt (?n + 1)), ?d')"
      using v assms(3) by (simp add: redis_apply.simps modify_def hincrby_def in_int64_def)
    have "lua_save_config (redis_apply en) [System_Config] [FieldVersion, FieldData, itoa n, ?data] d =
        (if n = ?n then (Inr (RInt (?n + 1)), ?d') else (Inr (RBulk ''VERSION_MISMATCH''), d))"
      using h v num inc by (simp add: lua_save_config_def Let_def nth1_def lua_hget_def lua_do.simps redis_apply.simps(6) and_then_def
          opt_reply_def hset [of d h] lua_return_def)
    moreover have "stored (log @ [c]) ?d'" by (simp add: stored_def add.commute)
    ultimately show ?thesis using False by auto
  qed
qed

subsection \<open>Managers that share a configuration\<close>

definition accepts :: "config list \<Rightarrow> int \<Rightarrow> config \<Rightarrow> config list \<Rightarrow> bool" where
  "accepts log n c log' \<longleftrightarrow> log' = log \<or> log' = log @ [c] \<and> (log = [] \<or> n = int (length log))"

text \<open>The copy that a manager keeps is the entry of the history that its version names.\<close>

definition of_history :: "config list \<Rightarrow> config_manager \<Rightarrow> bool" where
  "of_history log m \<longleftrightarrow> (\<forall>i. cm_instance m = Some i \<longrightarrow>
     1 \<le> cf_Version i \<and> cf_Version i \<le> int (length log) \<and> config_body i = config_body (log ! nat (cf_Version i - 1)))"

lemma of_history_append: "of_history log m \<Longrightarrow> of_history (log @ [c]) m"
  by (auto simp: of_history_def nth_append nat_less_iff)

lemma of_history_accepts: "accepts log n c log' \<Longrightarrow> of_history log m \<Longrightarrow> of_history log' m"
  using of_history_append [of log m c] by (auto simp: accepts_def)

lemma of_history_set:
  assumes "1 \<le> v" "v \<le> int (length log)" "config_body c = config_body (log ! nat (v - 1))"
  shows "of_history log (setCurrentConfigLocked c v m)"
  using assms by (simp add: of_history_def setCurrentConfigLocked_def Let_def)

lemma of_history_none: "cm_instance m = None \<Longrightarrow> of_history log m"
  by (simp add: of_history_def)

lemma of_history_same: "of_history log m \<Longrightarrow> cm_instance m' = cm_instance m \<Longrightarrow> of_history log m'"
  by (simp add: of_history_def)

text \<open>The state of the world, the managers, and the configurations accepted so far. Every operation of a manager
  may add one configuration. An event carries a configuration that was accepted, and may come late,
  twice or never; other clients do not touch the key.\<close>

definition stored_version :: "db \<Rightarrow> int" where
  "stored_version d = (case get_hash d System_Config of Inl _ \<Rightarrow> 0 | Inr h \<Rightarrow>
     (case fmlookup h FieldVersion of None \<Rightarrow> 0 | Some v \<Rightarrow> atoi_value v))"

definition extended :: "db \<Rightarrow> db \<Rightarrow> config \<Rightarrow> config list \<Rightarrow> config list" where
  "extended d d' c log = (if stored_version d' = stored_version d then log else log @ [c])"

inductive config_step :: "'s smq_env \<Rightarrow> ('s \<Rightarrow> db) \<Rightarrow> 's \<times> ('x \<Rightarrow> config_manager) \<times> config list
    \<Rightarrow> 's \<times> ('x \<Rightarrow> config_manager) \<times> config list \<Rightarrow> bool"
  for env :: "'s smq_env" and db :: "'s \<Rightarrow> db" where
  saves: "config_fits c \<Longrightarrow> Config_Save env u c (ms x) s = (Inr (r, m'), s') \<Longrightarrow>
    config_step env db (s, ms, log) (s', ms(x := m'), extended (db s) (db s') c log)"
| resets: "Config_Reset env u (ms x) s = (Inr (r, m'), s') \<Longrightarrow>
    config_step env db (s, ms, log) (s', ms(x := m'), extended (db s) (db s') DefaultConfig log)"
| inits: "Config_Init (env_redis env) u b (ms x) s = (Inr (r, m'), s') \<Longrightarrow>
    config_step env db (s, ms, log) (s', ms(x := m'), extended (db s) (db s') DefaultConfig log)"
| reloads: "Config_Reload (env_redis env) u (ms x) s = (Inr (r, m'), s') \<Longrightarrow>
    config_step env db (s, ms, log) (s', ms(x := m'), extended (db s) (db s') DefaultConfig log)"
| closes: "config_step env db (s, ms, log) (s, ms(x := Config_Close (ms x)), log)"
| hears: "n < length log \<Longrightarrow>
    config_step env db (s, ms, log) (s, ms(x := snd (onConfigUpdated (log ! n) (int n + 1) e (ms x))), log)"
| elsewhere: "db s' System_Config = db s System_Config \<Longrightarrow> config_step env db (s, ms, log) (s', ms, log)"

definition consistent :: "('s \<Rightarrow> db) \<Rightarrow> 's \<times> ('x \<Rightarrow> config_manager) \<times> config list \<Rightarrow> bool" where
  "consistent db st = (case st of (s, ms, log) \<Rightarrow>
     stored log (db s) \<and> (\<forall>x. of_history log (ms x)) \<and> (\<forall>c \<in> set log. config_fits c))"

lemma stored_version_eq: "stored log d \<Longrightarrow> in_int64 (int (length log)) \<Longrightarrow> stored_version d = int (length log)"
  by (auto simp: stored_def stored_version_def split: if_splits)

lemma extended_eq:
  assumes "stored log d" "accepts log n c log'" "stored log' d'" "in_int64 (int (length log) + 1)"
  shows "extended d d' c log = log'"
proof -
  have "in_int64 (int (length log))" using assms(4) by (simp add: in_int64_def)
  then have "stored_version d = int (length log)" "stored_version d' = int (length log')"
    using assms by (auto simp: accepts_def add.commute intro: stored_version_eq)
  then show ?thesis using assms(2) by (auto simp: extended_def accepts_def)
qed

lemma consistent_upd:
  assumes "consistent db (s, ms, log)" "accepts log n c log'" "stored log' (db s')" "of_history log' m'" "config_fits c"
    "in_int64 (int (length log) + 1)"
  shows "consistent db (s', ms(x := m'), extended (db s) (db s') c log)"
proof -
  have log': "extended (db s) (db s') c log = log'"
    using extended_eq [OF _ assms(2,3,6)] assms(1) by (simp add: consistent_def)
  have "of_history log' (ms y)" for y using of_history_accepts [OF assms(2)] assms(1) by (simp add: consistent_def)
  then show ?thesis using assms unfolding log' by (auto simp: consistent_def accepts_def)
qed

lemma hears_of_history:
  assumes "n < length log" "of_history log m"
  shows "of_history log (snd (onConfigUpdated (log ! n) (int n + 1) e m))"
  using assms by (auto simp: onConfigUpdated_def split: option.splits intro!: of_history_set)

locale config_server = smq +
  assumes save_script: "lua SaveConfig = lua_save_config"
begin

lemma save_outcome:
  assumes run: "saveLocked (env_redis env) c n s = (r, s')"
    and st: "stored log (db s)" and n: "in_int64 n" "in_int64 (int (length log) + 1)"
  shows "\<exists>log'. accepts log n c log' \<and> stored log' (db s') \<and> (\<forall>v. r = Inr v \<longrightarrow> log' = log @ [c] \<and> v = int (length log) + 1)"
proof -
  let ?args = "[FieldVersion, FieldData, itoa n, json_text (config_json c)]"
  obtain r1 where ev: "Eval (env_redis env) SaveConfig [System_Config] ?args s = (r1, s')"
    and r: "\<And>v. r = Inr v \<Longrightarrow> r1 = Inr (RInt v)"
    using run by (auto simp: saveLocked_def and_then_def map_err_def Int64_of_def split: prod.splits sum.splits reply.splits if_splits)
  have script: "\<exists>d'. lua SaveConfig (redis_apply en) [System_Config] ?args (db s) =
      (if log = [] \<or> n = int (length log) then (Inr (RInt (int (length log) + 1)), d') else (Inr (RBulk ''VERSION_MISMATCH''), db s)) \<and>
      stored (log @ [c]) d'" for en
    unfolding save_script by (rule save_config_run [OF st n])
  show ?thesis
  proof (cases r1)
    case (Inl e)
    from Eval_db [OF ev] consider "db s' = db s" | en where "db s' = snd (lua SaveConfig (redis_apply en) [System_Config] ?args (db s))"
      by blast
    then show ?thesis
    proof cases
      case 1
      then show ?thesis using st r Inl by (intro exI [of _ log]) (auto simp: accepts_def)
    next
      case 2
      then show ?thesis using script [of en] st r Inl by (auto simp: accepts_def split: if_splits)
    qed
  next
    case (Inr x)
    with ev Eval_ok obtain en where "lua SaveConfig (redis_apply en) [System_Config] ?args (db s) = (Inr x, db s')" by blast
    then show ?thesis using script [of en] st r Inr by (fastforce simp: accepts_def split: if_splits)
  qed
qed

lemma epoch_stored:
  assumes "exec (env_redis env) (HSET System_Config [(''epoch'', e)]) s = (r, s')" "stored log (db s)" "log \<noteq> []"
  shows "stored log (db s')"
proof -
  obtain h where h: "get_hash (db s) System_Config = Inr h" using assms(2) by (auto simp: stored_def)
  have "db s' = db s \<or> db s' = put_hash System_Config (fmupd ''epoch'' e h) (db s)"
    using exec_served [OF assms(1)] h by (auto simp: served_def redis_apply.simps modify_def hset_all_def)
  then show ?thesis using assms(2,3) h by (auto simp: stored_def)
qed

lemma persist_outcome:
  assumes run: "persistLocked (env_redis env) u c n m s = (Inr (r, m1), s')"
    and st: "stored log (db s)" and n: "in_int64 n" "in_int64 (int (length log) + 1)"
  shows "cm_instance m1 = cm_instance m \<and>
    (\<exists>log'. accepts log n c log' \<and> stored log' (db s') \<and> (\<forall>v. r = Inr v \<longrightarrow> log' = log @ [c] \<and> v = int (length log) + 1))"
proof -
  obtain r1 s1 where sv: "saveLocked (env_redis env) c n s = (r1, s1)" by fastforce
  obtain log' where log': "accepts log n c log'" "stored log' (db s1)" "\<And>v. r1 = Inr v \<Longrightarrow> log' = log @ [c] \<and> v = int (length log) + 1"
    using save_outcome [OF sv st n] by blast
  show ?thesis
  proof (cases r1)
    case (Inl e)
    then show ?thesis using run sv log' by (auto simp: persistLocked_def try_then Let_def)
  next
    case (Inr v)
    obtain r2 where ex: "exec (env_redis env) (HSET System_Config [(''epoch'', if cm_epoch m = [] then u else cm_epoch m)]) s1 = (r2, s')"
      and r: "r = (case r2 of Inl err \<Rightarrow> Inl (Wrapf ''persist config epoch'' (RedisErr err)) | Inr _ \<Rightarrow> Inr v)"
      and m1: "cm_instance m1 = cm_instance m"
      using run sv Inr by (auto simp: persistLocked_def try_then Let_def split: prod.splits sum.splits if_splits)
    have "stored log' (db s')" by (rule epoch_stored [OF ex log'(2)]) (use log'(3) [OF Inr] in simp)
    then show ?thesis using log' m1 r Inr by (auto split: sum.splits)
  qed
qed

lemma publish_outcome:
  assumes run: "persistAndPublishLocked env u c n m s = (Inr (r, m'), s')"
    and st: "stored log (db s)" "of_history log m" and n: "in_int64 n" "in_int64 (int (length log) + 1)"
  shows "\<exists>log'. accepts log n c log' \<and> stored log' (db s') \<and> of_history log' m' \<and>
    (\<forall>v. r = Inr v \<longrightarrow> log' = log @ [c] \<and> v = int (length log) + 1)"
proof -
  obtain r1 m1 s1 where p: "persistLocked (env_redis env) u c n m s = (Inr (r1, m1), s1)"
    using run by (auto simp: persistAndPublishLocked_def and_then_def split: prod.splits sum.splits)
  obtain log' where log': "accepts log n c log'" "stored log' (db s1)" "\<And>v. r1 = Inr v \<Longrightarrow> log' = log @ [c] \<and> v = int (length log) + 1"
    and m1: "cm_instance m1 = cm_instance m"
    using persist_outcome [OF p st(1) n] by blast
  have keep: "of_history log' m1" using of_history_same [OF of_history_accepts [OF log'(1) st(2)] m1] .
  show ?thesis
  proof (cases r1)
    case (Inl e)
    then show ?thesis using run p log' keep by (auto simp: persistAndPublishLocked_def and_then_def)
  next
    case (Inr v)
    obtain s2 where "PublishUpdated env c v (cm_epoch m1) s1 = (Inr (), s2)" "db s2 = db s1"
      using publish_event_run unfolding PublishUpdated_def by metis
    then have "r = Inr v" "m' = setCurrentConfigLocked c v m1" "db s' = db s1"
      using run p Inr by (auto simp: persistAndPublishLocked_def and_then_def)
    moreover have "of_history log' (setCurrentConfigLocked c v m1)"
      using log'(3) [OF Inr] by (intro of_history_set) (auto simp: nth_append)
    ultimately show ?thesis using log' Inr by auto
  qed
qed

lemma create_outcome:
  assumes run: "createDefaultsLocked (env_redis env) u m s = (Inr (r, m'), s')"
    and st: "stored log (db s)" "of_history log m" and n: "in_int64 (int (length log) + 1)"
  shows "\<exists>log'. accepts log 0 DefaultConfig log' \<and> stored log' (db s') \<and> of_history log' m'"
proof -
  obtain r1 m1 where p: "persistLocked (env_redis env) u DefaultConfig 0 (m\<lparr>cm_epoch := u\<rparr>) s = (Inr (r1, m1), s')"
    and m': "m' = (case r1 of Inl _ \<Rightarrow> m1 | Inr v \<Rightarrow> setCurrentConfigLocked DefaultConfig v m1)"
    using run by (auto simp: createDefaultsLocked_def and_then_def split: prod.splits sum.splits)
  have "in_int64 0" by (simp add: in_int64_def)
  from persist_outcome [OF p st(1) this n] obtain log' where log': "accepts log 0 DefaultConfig log'" "stored log' (db s')"
      "\<And>v. r1 = Inr v \<Longrightarrow> log' = log @ [DefaultConfig] \<and> v = int (length log) + 1"
    and m1: "cm_instance m1 = cm_instance m"
    by auto
  have "of_history log' m1" using of_history_same [OF of_history_accepts [OF log'(1) st(2)] m1] .
  moreover have "of_history log' (setCurrentConfigLocked DefaultConfig v m1)" if "r1 = Inr v" for v
    using log'(3) [OF that] by (intro of_history_set) (auto simp: nth_append)
  ultimately have "of_history log' m'" using m' by (auto split: sum.splits)
  then show ?thesis using log' by blast
qed

lemma load_outcome:
  assumes run: "loadOrCreateLocked (env_redis env) u m s = (Inr (r, m'), s')"
    and st: "stored log (db s)" "of_history log m" and n: "in_int64 (int (length log) + 1)" and fits: "\<forall>c \<in> set log. config_fits c"
  shows "\<exists>log'. accepts log 0 DefaultConfig log' \<and> stored log' (db s') \<and> of_history log' m'"
proof -
  obtain r1 s1 where ld: "LoadHash (env_redis env) System_Config ''config'' s = (r1, s1)" by fastforce
  have s1: "db s1 = db s" by (rule keepsD [OF Load_keeps(1) ld])
  show ?thesis
  proof (cases r1)
    case (Inl e)
    with run ld have "createDefaultsLocked (env_redis env) u m s1 = (Inr (r, m'), s')" by (simp add: loadOrCreateLocked_def try_then)
    then show ?thesis using create_outcome [of u m s1 r m' s' log] st n s1 by simp
  next
    case (Inr h)
    from LoadHash_ok [OF ld [unfolded Inr]] have h: "get_hash (db s) System_Config = Inr h" "h \<noteq> fmempty" by simp_all
    then have ne: "log \<noteq> []" using st(1) by (auto simp: stored_def)
    let ?c = "(last log)\<lparr>cf_Version := int (length log)\<rparr>"
    have dec: "Config_Decode h = Inr ?c"
      using stored_decodes [OF st(1) ne h(1)] fits ne n by (simp add: in_int64_def)
    have cur: "of_history log (setCurrentConfigLocked ?c (int (length log)) m2)" for m2
      by (intro of_history_set) (use ne in \<open>auto simp: last_conv_nth nat_diff_distrib Suc_le_eq\<close>)
    have acc: "accepts log 0 DefaultConfig log" by (simp add: accepts_def)
    show ?thesis
    proof (cases "\<exists>e es. fmlookup h ''epoch'' = Some (e # es)")
      case True
      then have "m' = setCurrentConfigLocked ?c (int (length log)) (m\<lparr>cm_epoch := the (fmlookup h ''epoch'')\<rparr>)" "s' = s1"
        using run ld Inr dec by (auto simp: loadOrCreateLocked_def try_then)
      then show ?thesis using acc st(1) s1 cur by auto
    next
      case False
      obtain r2 s2 where ex: "exec (env_redis env) (HSET System_Config [(''epoch'', u)]) s1 = (r2, s2)" by fastforce
      have "s' = s2 \<and> m' = (case r2 of Inl _ \<Rightarrow> m\<lparr>cm_epoch := u\<rparr> | Inr _ \<Rightarrow> setCurrentConfigLocked ?c (int (length log)) (m\<lparr>cm_epoch := u\<rparr>))"
        using run ld Inr dec ex False
        by (auto simp: loadOrCreateLocked_def try_then Let_def split: option.splits list.splits sum.splits prod.splits)
      moreover have "stored log (db s2)" by (rule epoch_stored [OF ex _ ne]) (use st(1) s1 in simp)
      moreover have "of_history log (m\<lparr>cm_epoch := u\<rparr>)" using st(2) by (rule of_history_same) simp
      ultimately show ?thesis using acc cur by (auto split: sum.splits)
    qed
  qed
qed

lemma config_step_consistent:
  assumes "config_step env db (s, ms, log) (s', ms', log')" "consistent db (s, ms, log)" "in_int64 (int (length log) + 1)"
  shows "consistent db (s', ms', log')"
proof -
  have st: "stored log (db s)" "\<And>x. of_history log (ms x)" and fits: "\<forall>c \<in> set log. config_fits c"
    using assms(2) by (simp_all add: consistent_def)
  have vers: "in_int64 (cf_Version i)" if "cm_instance (ms x) = Some i" for x i
    using st(2) [of x] that assms(3) by (auto simp: of_history_def in_int64_def)
  note upd = consistent_upd [OF assms(2) _ _ _ _ assms(3)]
  show ?thesis
    using assms(1)
  proof (cases rule: config_step.cases)
    case (saves c u x r m')
    show ?thesis
    proof (cases "cm_instance (ms x)")
      case None
      then show ?thesis using saves assms(2) by (auto simp: Config_Save_def extended_def)
    next
      case (Some i)
      then show ?thesis
        using publish_outcome [of u c "cf_Version i" "ms x" s r m' s' log] saves st vers [OF Some] assms(3)
        by (auto simp: Config_Save_def intro: upd)
    qed
  next
    case (resets u x r m')
    show ?thesis
    proof (cases "cm_instance (ms x)")
      case None
      then show ?thesis using resets assms(2) by (auto simp: Config_Reset_def extended_def)
    next
      case (Some i)
      with resets obtain r1 where "persistAndPublishLocked env u DefaultConfig (cf_Version i) (ms x) s = (Inr (r1, m'), s')"
        by (auto simp: Config_Reset_def and_then_ok)
      then show ?thesis
        using publish_outcome [of u DefaultConfig "cf_Version i" "ms x" s r1 m' s' log] resets st vers [OF Some] assms(3)
        by (auto intro: upd)
    qed
  next
    case (inits u b x r m')
    show ?thesis
    proof (cases "cm_instance (ms x)")
      case None
      with inits obtain r1 m1 where "loadOrCreateLocked (env_redis env) u (ms x) s = (Inr (r1, m1), s')" "cm_instance m' = cm_instance m1"
        by (auto simp: Config_Init_def and_then_def split: prod.splits sum.splits if_splits)
      then show ?thesis
        using load_outcome [of u "ms x" s r1 m1 s' log] inits st assms(3) fits by (auto intro: upd of_history_same)
    next
      case (Some i)
      then show ?thesis using inits assms(2) by (auto simp: Config_Init_def extended_def)
    qed
  next
    case (reloads u x r m')
    show ?thesis
    proof (cases "cm_instance (ms x)")
      case None
      then show ?thesis using reloads assms(2) by (auto simp: Config_Reload_def extended_def)
    next
      case (Some i)
      then show ?thesis
        using load_outcome [of u "ms x" s r m' s' log] reloads st assms(3) fits by (auto simp: Config_Reload_def intro: upd)
    qed
  next
    case (closes x)
    then show ?thesis using st fits by (auto simp: consistent_def Config_Close_def intro: of_history_none)
  next
    case (hears n x e)
    then show ?thesis using st fits hears_of_history by (auto simp: consistent_def)
  next
    case elsewhere
    then have "get_hash (db s') System_Config = get_hash (db s) System_Config" by (simp add: get_hash_def)
    then show ?thesis using elsewhere st fits by (auto simp: consistent_def stored_def)
  qed
qed

lemma config_reach_consistent:
  assumes "(config_step env db)\<^sup>*\<^sup>* (s0, ms0, []) (s, ms, log)" "stored [] (db s0)" "\<And>x. cm_instance (ms0 x) = None"
    "in_int64 (int (length log) + 1)"
  shows "consistent db (s, ms, log)"
proof -
  have "in_int64 (int (length (snd (snd st))) + 1) \<longrightarrow> consistent db st" if "(config_step env db)\<^sup>*\<^sup>* (s0, ms0, []) st" for st
    using that
  proof (induction rule: rtranclp_induct)
    case base
    then show ?case using assms(2,3) by (simp add: consistent_def of_history_none)
  next
    case (step y z)
    obtain s1 ms1 log1 s2 ms2 log2 where yz: "y = (s1, ms1, log1)" "z = (s2, ms2, log2)" by (metis prod_cases3)
    have "length log1 \<le> length log2" using step(2) unfolding yz by (cases rule: config_step.cases) (auto simp: extended_def)
    then have "in_int64 (int (length log2) + 1) \<Longrightarrow> in_int64 (int (length log1) + 1)" by (simp add: in_int64_def)
    then show ?case using step config_step_consistent yz by auto
  qed
  from this [OF assms(1)] show ?thesis using assms(4) by simp
qed

lemma save_needs_latest:
  assumes "consistent db (s, ms, log)" "Config_Save env u c (ms x) s = (Inr (Inr v, m'), s')" "in_int64 (int (length log) + 1)"
  shows "map_option cf_Version (cm_instance (ms x)) = Some (int (length log)) \<and> v = int (length log) + 1 \<and> stored (log @ [c]) (db s')"
proof -
  obtain i where i: "cm_instance (ms x) = Some i" "persistAndPublishLocked env u c (cf_Version i) (ms x) s = (Inr (Inr v, m'), s')"
    using assms(2) by (auto simp: Config_Save_def split: option.splits)
  have h: "stored log (db s)" "of_history log (ms x)" using assms(1) by (simp_all add: consistent_def)
  then have "1 \<le> cf_Version i" "cf_Version i \<le> int (length log)" using i(1) by (auto simp: of_history_def)
  moreover from this have "in_int64 (cf_Version i)" using assms(3) by (simp add: in_int64_def)
  ultimately show ?thesis using publish_outcome [OF i(2) h _ assms(3)] i(1) by (auto simp: accepts_def)
qed

end

interpretation mem_config: config_server "mem_env (smq_scripts (config_scripts other))" "\<lambda>d. d" "smq_scripts (config_scripts other)" for other
  by unfold_locales (simp_all add: smq_scripts_def config_scripts_def fun_eq_iff)


text \<open>A manager on an empty server creates the default configuration.\<close>

lemma mem_Init:
  "\<exists>m' d'. Config_Init (mem_redis (smq_scripts (config_scripts other))) u b NewConfigManager Map.empty = (Inr (Inr (), m'), d') \<and>
     cm_instance m' = Some (DefaultConfig\<lparr>cf_Version := 1\<rparr>) \<and> stored [DefaultConfig] d'"
proof -
  let ?lua = "smq_scripts (config_scripts other)" and ?args = "[FieldVersion, FieldData, itoa 0, json_text (config_json DefaultConfig)]"
  have st: "stored [] Map.empty" by (simp add: stored_def)
  then obtain d1 where d1: "lua_save_config (redis_apply mem_enum) [System_Config] ?args Map.empty = (Inr (RInt 1), d1)" "stored [DefaultConfig] d1"
    using save_config_run [OF st, of 0 mem_enum DefaultConfig] by (auto simp: in_int64_def)
  have "Eval (mem_redis ?lua) SaveConfig [System_Config] ?args Map.empty = (Inr (RInt 1), d1)"
    by (rule mem_Eval_reply) (use d1(1) in \<open>simp_all add: smq_scripts_def config_scripts_def\<close>)
  then have save: "saveLocked (mem_redis ?lua) DefaultConfig 0 Map.empty = (Inr 1, d1)"
    by (simp add: saveLocked_def and_then_def map_err_def Int64_of_def)
  obtain h where h: "get_hash d1 System_Config = Inr h" using d1(2) by (auto simp: stored_def)
  let ?d2 = "put_hash System_Config (fmupd ''epoch'' u h) d1"
  obtain x where ep: "exec (mem_redis ?lua) (HSET System_Config [(''epoch'', u)]) d1 = (Inr x, ?d2)"
    using h by (auto simp: mem_redis_def redis_apply.simps modify_def hset_all_def)
  have st2: "stored [DefaultConfig] ?d2" using d1(2) h by (simp add: stored_def)
  have load: "LoadHash (mem_redis ?lua) System_Config ''config'' Map.empty = (Inl (Errorf ''config not found''), Map.empty)"
    by (simp add: LoadHash_def hgetall_def mem_redis_def redis_apply.simps and_then_def map_err_def fmap_of_enum_fmap)
  let ?m = "NewConfigManager\<lparr>cm_epoch := u\<rparr>"
  have "persistLocked (mem_redis ?lua) u DefaultConfig 0 ?m Map.empty = (Inr (Inr 1, ?m), ?d2)"
    using save ep by (cases "u = []") (simp_all add: persistLocked_def try_then Let_def)
  then have "createDefaultsLocked (mem_redis ?lua) u NewConfigManager Map.empty = (Inr (Inr (), setCurrentConfigLocked DefaultConfig 1 ?m), ?d2)"
    by (simp add: createDefaultsLocked_def and_then_Inr)
  then have "loadOrCreateLocked (mem_redis ?lua) u NewConfigManager Map.empty = (Inr (Inr (), setCurrentConfigLocked DefaultConfig 1 ?m), ?d2)"
    using load by (simp add: loadOrCreateLocked_def try_then)
  then show ?thesis
    using st2 by (simp add: Config_Init_def and_then_Inr setCurrentConfigLocked_def Let_def) (simp add: NewConfigManager_def)
qed


text \<open>A stored configuration that cannot be decoded is not replaced by the default one, as the comment of
  \<open>loadOrCreateLocked\<close> promises: the script refuses the save, because the expected version is zero.\<close>

lemma corrupt_config_refused:
  assumes h: "get_hash d System_Config = Inr h" "fmlookup h FieldVersion = Some v" "tonumber v \<noteq> Some 0" and dec: "Config_Decode h = Inl e"
  shows "\<exists>m'. Config_Init (mem_redis (smq_scripts (config_scripts other))) u b NewConfigManager d =
    (Inr (Inl (Wrapf ''create defaults'' (ConfigErr Cfg_ErrVersionMismatch)), m'), d)"
proof -
  let ?lua = "smq_scripts (config_scripts other)" and ?args = "[FieldVersion, FieldData, itoa 0, json_text (config_json DefaultConfig)]"
  let ?m = "NewConfigManager\<lparr>cm_epoch := u\<rparr>"
  have "h \<noteq> fmempty" using h(2) by auto
  then have load: "LoadHash (mem_redis ?lua) System_Config ''config'' d = (Inr h, d)"
    using h(1) by (simp add: LoadHash_def hgetall_def mem_redis_def redis_apply.simps and_then_def map_err_def fmap_of_enum_fmap)
  have "tonumber (itoa 0) = Some 0" by (simp add: tonumber_def in_int64_def)
  then have "lua_save_config (redis_apply mem_enum) [System_Config] ?args d = (Inr (RBulk ''VERSION_MISMATCH''), d)"
    using h by (simp add: lua_save_config_def Let_def nth1_def lua_hget_def redis_apply.simps and_then_def opt_reply_def lua_return_def)
  then have "Eval (mem_redis ?lua) SaveConfig [System_Config] ?args d = (Inr (RBulk ''VERSION_MISMATCH''), d)"
    by (intro mem_Eval) (simp add: smq_scripts_def config_scripts_def)
  then have "saveLocked (mem_redis ?lua) DefaultConfig 0 d = (Inl (ConfigErr Cfg_ErrVersionMismatch), d)"
    by (simp add: saveLocked_def and_then_def map_err_def)
  then have "persistLocked (mem_redis ?lua) u DefaultConfig 0 ?m d = (Inr (Inl (ConfigErr Cfg_ErrVersionMismatch), ?m), d)"
    by (cases "u = []") (simp_all add: persistLocked_def try_then Let_def)
  then have "loadOrCreateLocked (mem_redis ?lua) u NewConfigManager d =
      (Inr (Inl (Wrapf ''create defaults'' (ConfigErr Cfg_ErrVersionMismatch)), ?m), d)"
    using load dec by (simp add: loadOrCreateLocked_def createDefaultsLocked_def try_then and_then_Inr)
  then show ?thesis by (simp add: Config_Init_def and_then_Inr) (simp add: NewConfigManager_def)
qed

end
