(* ===== verification/Worker_Lock.thy ===== *)
theory Worker_Lock
  imports Queue_Store Message_Types
begin

text \<open>
  The distributed lock of \<open>internal/util/lock/lock.go\<close> with its scripts \<open>extend-lock.lua\<close> and
  \<open>release-lock.lua\<close>; the handlers of a queue use it to elect the one that runs the background
  tasks. A lock is a key with an owner and an expiry: \<open>Acquire\<close> sets it if it is free and may retry,
  the refresh loop prolongs it, \<open>Release\<close> deletes it, the last two only for the owner.

  The second part lets any number of clients do all of this in any order, on a server that may fail
  and next to clients that use other keys, and lets the key expire at any moment: no two clients hold
  the lock at a time. A retrying \<open>Acquire\<close> takes what other clients do while it waits as a parameter,
  and its context ends after a given number of attempts. The exponential backoff, which computes with
  floating-point and random numbers, is not modelled; a backoff is any function of the attempt.
\<close>

subsection \<open>The lock\<close>

record lock =
  lk_key :: string
  lk_owner :: string
  lk_ttl :: int
  lk_refresh :: int
  lk_backoff :: "(int \<Rightarrow> int) option"
  lk_acquired :: bool
  lk_refreshing :: bool

definition LinearBackoff :: "int \<Rightarrow> int \<Rightarrow> int \<Rightarrow> int" where
  "LinearBackoff base maxAttempts attempt =
     (if 0 < maxAttempts \<and> maxAttempts \<le> attempt then -1 else wrap64 (base * wrap64 (attempt + 1)))"

definition FixedBackoff :: "int \<Rightarrow> int \<Rightarrow> int \<Rightarrow> int" where
  "FixedBackoff delay maxAttempts attempt = (if 0 < maxAttempts \<and> maxAttempts \<le> attempt then -1 else delay)"

definition WithTTL :: "int \<Rightarrow> lock \<Rightarrow> lock" where
  "WithTTL ttl l = l\<lparr>lk_ttl := ttl\<rparr>"

definition WithAutoRefresh :: "int \<Rightarrow> lock \<Rightarrow> lock" where
  "WithAutoRefresh refresh l = l\<lparr>lk_refresh := refresh\<rparr>"

definition WithRetry :: "(int \<Rightarrow> int) option \<Rightarrow> lock \<Rightarrow> lock" where
  "WithRetry backoff l = l\<lparr>lk_backoff := backoff\<rparr>"

definition New_Lock :: "string \<Rightarrow> string \<Rightarrow> (lock \<Rightarrow> lock) list \<Rightarrow> lock" where
  "New_Lock key owner opts = foldl (\<lambda>l f. f l)
     \<lparr>lk_key = key, lk_owner = owner, lk_ttl = 30 * time_Second, lk_refresh = 0, lk_backoff = None, lk_acquired = False,
      lk_refreshing = False\<rparr> opts"

text \<open>\<open>SetNX\<close> without a time to live sets a key that does not expire; a positive one is at least a
  millisecond. The expiry itself is a step of the machine below.\<close>

definition nx_expiry :: "int \<Rightarrow> int" where
  "nx_expiry ttl = (if 0 \<le> ttl \<and> ttl < 1000000 then 1 else Milliseconds ttl)"

definition tryAcquire :: "'s redis_server \<Rightarrow> lock \<Rightarrow> ('s, go_error, bool) io" where
  "tryAcquire rd l =
     and_then (map_err RedisErr (exec rd (SETNX (lk_key l) (lk_owner l) (nx_expiry (lk_ttl l))))) (\<lambda>r. ret (r = RBulk ''OK''))"

definition taken :: "lock \<Rightarrow> lock" where
  "taken l = l\<lparr>lk_acquired := True, lk_refreshing := 0 < lk_refresh l\<rparr>"

primrec acquire_loop :: "'s redis_server \<Rightarrow> (int \<Rightarrow> 's \<Rightarrow> 's) \<Rightarrow> lock \<Rightarrow> int \<Rightarrow> nat \<Rightarrow> ('s, go_error, lock) io" where
  "acquire_loop rd world l attempt 0 = throw (Errorf ''context canceled'')"
| "acquire_loop rd world l attempt (Suc n) =
     and_then (map_err (Wrapf ''lock: acquire'') (tryAcquire rd l)) (\<lambda>ok.
     if ok then ret (taken l)
     else
     case lk_backoff l of
       None \<Rightarrow> throw (Errorf (''lock: failed to acquire '' @ lk_key l))
     | Some backoff \<Rightarrow>
         (let delay = backoff attempt in
          if delay < 0
          then throw (Errorf (''lock: failed to acquire '' @ lk_key l @ '' after '' @ itoa attempt @ '' attempts''))
          else (\<lambda>s. acquire_loop rd world l (attempt + 1) n (world delay s))))"

definition Acquire :: "'s redis_server \<Rightarrow> (int \<Rightarrow> 's \<Rightarrow> 's) \<Rightarrow> nat \<Rightarrow> lock \<Rightarrow> ('s, go_error, lock) io" where
  "Acquire rd world rounds l =
     (if lk_acquired l then throw (Errorf ''lock: already acquired'') else acquire_loop rd world l 0 rounds)"

text \<open>A failed release leaves the lock marked as acquired, with its refresh stopped.\<close>

definition Release :: "'s redis_server \<Rightarrow> lock \<Rightarrow> ('s, go_error, go_error option \<times> lock) io" where
  "Release rd l =
     (if \<not> lk_acquired l then ret (None, l)
      else
      let l1 = l\<lparr>lk_refreshing := False\<rparr> in
      and_then (try_io (Eval rd ReleaseLock [lk_key l] [lk_owner l])) (\<lambda>r.
      case r of
        Inl err \<Rightarrow> ret (Some (Wrapf ''lock: release'' err), l1)
      | Inr _ \<Rightarrow> ret (None, l1\<lparr>lk_acquired := False\<rparr>)))"

text \<open>One tick of the refresh loop; a failure is only logged.\<close>

definition refresh_tick :: "'s redis_server \<Rightarrow> lock \<Rightarrow> ('s, go_error, unit) io" where
  "refresh_tick rd l =
     (if \<not> lk_refreshing l \<or> \<not> lk_acquired l then ret ()
      else and_then (try_io (Eval rd ExtendLock [lk_key l] [lk_owner l, itoa (Milliseconds (lk_ttl l))]))
        (\<lambda>(_ :: go_error + reply). ret ()))"

subsection \<open>The scripts\<close>

definition lua_extend_lock :: script where
  "lua_extend_lock call KEYS ARGV =
     and_then (call (GET (nth1 KEYS 1))) (\<lambda>r.
     if bulk r = Some (nth1 ARGV 1) then call (PEXPIRE (nth1 KEYS 1) (atoi_value (nth1 ARGV 2))) else ret (RInt 0))"

definition lua_release_lock :: script where
  "lua_release_lock call KEYS ARGV =
     and_then (call (GET (nth1 KEYS 1))) (\<lambda>r.
     if bulk r = Some (nth1 ARGV 1) then call (DEL [nth1 KEYS 1]) else ret (RInt 0))"

definition lock_scripts :: "(ID \<Rightarrow> script) \<Rightarrow> ID \<Rightarrow> script" where
  "lock_scripts other i = (case i of ExtendLock \<Rightarrow> lua_extend_lock | ReleaseLock \<Rightarrow> lua_release_lock | _ \<Rightarrow> other i)"

lemma release_lock_run:
  "lua_release_lock (redis_apply en) [k] [v] d =
     (case d k of
        None \<Rightarrow> (Inr (RInt 0), d)
      | Some (RStr w) \<Rightarrow> if w = v then (Inr (RInt 1), d(k := None)) else (Inr (RInt 0), d)
      | Some _ \<Rightarrow> (Inl WrongType, d))"
  by (simp add: lua_release_lock_def nth1_def and_then_def redis_apply.simps get_str_def look_def opt_reply_def del_keys_def
      fun_eq_iff split: option.splits rval.splits)

lemma extend_lock_run:
  assumes "0 < atoi_value t"
  shows "snd (lua_extend_lock (redis_apply en) [k] [v, t] d) = d"
  using assms by (simp add: lua_extend_lock_def nth1_def and_then_def redis_apply.simps get_str_def look_def opt_reply_def
      split: option.splits rval.splits)

subsection \<open>Clients that compete for a lock\<close>

text \<open>The state of the world, the locks of the clients, and the set of clients that hold the lock: a
  client holds it from a successful attempt until it asks to release it or the key expires. Other
  clients of the server do not touch the key \<open>k\<close>.\<close>

inductive lock_step :: "'s redis_server \<Rightarrow> ('s \<Rightarrow> db) \<Rightarrow> string \<Rightarrow> 's \<times> ('c \<Rightarrow> lock) \<times> 'c set \<Rightarrow> 's \<times> ('c \<Rightarrow> lock) \<times> 'c set \<Rightarrow> bool"
  for rd :: "'s redis_server" and db :: "'s \<Rightarrow> db" and k :: string where
  acquired: "\<not> lk_acquired (h c) \<Longrightarrow> tryAcquire rd (h c) s = (Inr True, s') \<Longrightarrow>
    lock_step rd db k (s, h, H) (s', h(c := taken (h c)), insert c H)"
| refused: "\<not> lk_acquired (h c) \<Longrightarrow> tryAcquire rd (h c) s = (r, s') \<Longrightarrow> r \<noteq> Inr True \<Longrightarrow>
    lock_step rd db k (s, h, H) (s', h, H)"
| refreshed: "refresh_tick rd (h c) s = (r, s') \<Longrightarrow> lock_step rd db k (s, h, H) (s', h, H)"
| released: "Release rd (h c) s = (Inr (e, l), s') \<Longrightarrow> lock_step rd db k (s, h, H) (s', h(c := l), H - {c})"
| expired: "db s' = (db s)(k := None) \<Longrightarrow> lock_step rd db k (s, h, H) (s', h, {})"
| elsewhere: "db s' k = db s k \<Longrightarrow> lock_step rd db k (s, h, H) (s', h, H)"

text \<open>The clients of one lock: one key, owners of their own, a time to live of at least a millisecond.\<close>

definition competing :: "string \<Rightarrow> ('c \<Rightarrow> lock) \<Rightarrow> bool" where
  "competing k h \<longleftrightarrow> inj (\<lambda>c. lk_owner (h c)) \<and>
     (\<forall>c. lk_key (h c) = k \<and> 1000000 \<le> lk_ttl (h c) \<and> in_int64 (lk_ttl (h c)))"

definition held :: "string \<Rightarrow> db \<Rightarrow> ('c \<Rightarrow> lock) \<Rightarrow> 'c set \<Rightarrow> bool" where
  "held k d h H \<longleftrightarrow> (\<forall>c \<in> H. lk_acquired (h c) \<and> d k = Some (RStr (lk_owner (h c))))"

lemma Release_handle: "Release rd l s = (Inr (e, l'), s') \<Longrightarrow> lk_key l' = lk_key l \<and> lk_owner l' = lk_owner l \<and> lk_ttl l' = lk_ttl l"
  by (auto simp: Release_def try_then Let_def split: if_splits prod.splits sum.splits)

lemma competing_upd:
  assumes "competing k h" "lk_key l = lk_key (h c)" "lk_owner l = lk_owner (h c)" "lk_ttl l = lk_ttl (h c)"
  shows "competing k (h(c := l))"
proof -
  have "(\<lambda>x. lk_owner ((h(c := l)) x)) = (\<lambda>x. lk_owner (h x))" using assms(3) by auto
  then show ?thesis using assms by (auto simp: competing_def)
qed

lemma ttl_args:
  assumes "1000000 \<le> t" "in_int64 t"
  shows "0 < atoi_value (itoa (Milliseconds t))" "0 < nx_expiry t"
proof -
  have "1 \<le> t div 1000000" "t div 1000000 \<le> t" using assms(1) by linarith+
  then show "0 < atoi_value (itoa (Milliseconds t))" "0 < nx_expiry t"
    using assms by (auto simp: Milliseconds_div nx_expiry_def in_int64_def)
qed

locale lock_server = redis +
  assumes extend_script: "lua ExtendLock = lua_extend_lock"
    and release_script: "lua ReleaseLock = lua_release_lock"
begin

lemma attempt_db:
  assumes "tryAcquire rd l s = (r, s')" "0 < nx_expiry (lk_ttl l)"
  shows "db s' = db s \<or> db s (lk_key l) = None \<and> db s' = (db s)(lk_key l \<mapsto> RStr (lk_owner l))"
    "r = Inr True \<Longrightarrow> db s (lk_key l) = None \<and> db s' = (db s)(lk_key l \<mapsto> RStr (lk_owner l))"
proof -
  obtain r1 where ex: "exec rd (SETNX (lk_key l) (lk_owner l) (nx_expiry (lk_ttl l))) s = (r1, s')"
    and r: "r = (case r1 of Inl e \<Rightarrow> Inl (RedisErr e) | Inr x \<Rightarrow> Inr (x = RBulk ''OK''))"
    using assms(1) by (auto simp: tryAcquire_def and_then_def map_err_def split: prod.splits sum.splits)
  show "db s' = db s \<or> db s (lk_key l) = None \<and> db s' = (db s)(lk_key l \<mapsto> RStr (lk_owner l))"
    using exec_served [OF ex] assms(2) by (auto simp: served_def redis_apply.simps split: if_splits)
  show "db s (lk_key l) = None \<and> db s' = (db s)(lk_key l \<mapsto> RStr (lk_owner l))" if "r = Inr True"
  proof -
    from that r have "r1 = Inr (RBulk ''OK'')" by (auto split: sum.splits)
    with exec_ok [of "SETNX (lk_key l) (lk_owner l) (nx_expiry (lk_ttl l))" s "RBulk ''OK''" s'] ex assms(2)
    show ?thesis by (auto simp: redis_apply.simps split: if_splits)
  qed
qed

lemma release_db:
  assumes "Release rd l s = (Inr (e, l'), s')"
  shows "db s' = db s \<or> db s (lk_key l) = Some (RStr (lk_owner l)) \<and> db s' = (db s)(lk_key l := None)"
proof (cases "lk_acquired l")
  case True
  obtain r where "Eval rd ReleaseLock [lk_key l] [lk_owner l] s = (r, s')"
    using assms True by (auto simp: Release_def try_then Let_def split: prod.splits sum.splits)
  from Eval_db [OF this] show ?thesis
    by (auto simp: release_script release_lock_run split: option.splits rval.splits if_splits)
qed (use assms in \<open>simp add: Release_def\<close>)

lemma refresh_db:
  assumes "refresh_tick rd l s = (r, s')" "0 < atoi_value (itoa (Milliseconds (lk_ttl l)))"
  shows "db s' = db s"
proof (cases "lk_refreshing l \<and> lk_acquired l")
  case True
  obtain r where "Eval rd ExtendLock [lk_key l] [lk_owner l, itoa (Milliseconds (lk_ttl l))] s = (r, s')"
    using assms(1) True by (auto simp: refresh_tick_def try_then split: prod.splits)
  from Eval_db [OF this] show ?thesis using extend_lock_run [OF assms(2)] by (auto simp: extend_script)
qed (use assms(1) in \<open>auto simp: refresh_tick_def\<close>)

lemma lock_step_held:
  assumes "lock_step rd db k (s, h, H) (s', h', H')" "competing k h" "held k (db s) h H"
  shows "competing k h' \<and> held k (db s') h' H'"
  using assms
proof (cases rule: lock_step.cases)
  case (acquired c)
  have "db s k = None \<and> db s' = (db s)(k \<mapsto> RStr (lk_owner (h c)))"
    using attempt_db(2) [OF acquired(4) ttl_args(2)] assms(2) by (simp add: competing_def)
  then show ?thesis
    using acquired assms(2,3) by (auto simp: held_def taken_def intro: competing_upd)
next
  case (refused c r)
  have "db s' = db s \<or> db s k = None"
    using attempt_db(1) [OF refused(4) ttl_args(2)] assms(2) by (auto simp: competing_def)
  then show ?thesis using refused assms(2,3) by (auto simp: held_def)
next
  case (refreshed c r)
  have "db s' = db s" using refresh_db [OF refreshed(3) ttl_args(1)] assms(2) by (simp add: competing_def)
  then show ?thesis using refreshed assms(2,3) by simp
next
  case (released c e l)
  have "competing k h'" using Release_handle [OF released(3)] released(1) assms(2) by (auto intro: competing_upd)
  moreover have "db s' k = db s k" if "x \<in> H" "x \<noteq> c" for x
  proof -
    have "lk_owner (h x) \<noteq> lk_owner (h c)" using assms(2) that(2) by (auto simp: competing_def dest: injD)
    then show ?thesis using release_db [OF released(3)] assms(2,3) that(1) by (auto simp: held_def competing_def)
  qed
  ultimately show ?thesis using released assms(3) by (auto simp: held_def)
qed (auto simp: held_def)

lemma lock_reach_held:
  assumes "(lock_step rd db k)\<^sup>*\<^sup>* (s0, h0, {}) (s, h, H)" "competing k h0"
  shows "competing k h \<and> held k (db s) h H"
proof -
  have "competing k (fst (snd x)) \<and> held k (db (fst x)) (fst (snd x)) (snd (snd x))"
    if "(lock_step rd db k)\<^sup>*\<^sup>* (s0, h0, {}) x" for x
    using that
  proof (induction rule: rtranclp_induct)
    case base
    then show ?case using assms(2) by (simp add: held_def)
  next
    case (step y z)
    then show ?case
      using lock_step_held [of k "fst y" "fst (snd y)" "snd (snd y)" "fst z" "fst (snd z)" "snd (snd z)"] by simp
  qed
  from this [OF assms(1)] show ?thesis by simp
qed

end

text \<open>The scripts of locks are in one table with those of queues and messages.\<close>

interpretation mem_lock: lock_server "mem_redis (smq_scripts (lock_scripts other))" "\<lambda>d. d" "smq_scripts (lock_scripts other)" for other
  by unfold_locales (simp_all add: smq_scripts_def lock_scripts_def fun_eq_iff)


text \<open>Two clients: the first takes the lock, its key expires, the second takes it, and the first releases
  what it no longer has.\<close>

definition sample_lock :: "bool \<Rightarrow> lock" where
  "sample_lock b = New_Lock ''k'' (if b then ''c1'' else ''c2'') [WithTTL (30 * time_Second)]"

lemma sample_lock_fields:
  "lk_key (sample_lock b) = ''k''" "lk_owner (sample_lock b) = (if b then ''c1'' else ''c2'')" "lk_ttl (sample_lock b) = 30 * time_Second"
  "\<not> lk_acquired (sample_lock b)"
  by (simp_all add: sample_lock_def New_Lock_def WithTTL_def)

lemma mem_tryAcquire:
  assumes "d (lk_key l) = None" "0 < nx_expiry (lk_ttl l)"
  shows "tryAcquire (mem_redis lua) l d = (Inr True, d(lk_key l \<mapsto> RStr (lk_owner l)))"
  using assms by (simp add: tryAcquire_def mem_redis_def redis_apply.simps and_then_def map_err_def)

lemma mem_Release:
  assumes "lk_acquired l" "d (lk_key l) = Some (RStr w)" "w \<noteq> lk_owner l"
  shows "Release (mem_redis (smq_scripts (lock_scripts other))) l d = (Inr (None, l\<lparr>lk_refreshing := False, lk_acquired := False\<rparr>), d)"
proof -
  have "Eval (mem_redis (smq_scripts (lock_scripts other))) ReleaseLock [lk_key l] [lk_owner l] d = (Inr (RInt 0), d)"
    by (rule mem_Eval_reply) (use assms in \<open>simp_all add: smq_scripts_def lock_scripts_def release_lock_run\<close>)
  then show ?thesis using assms(1) by (simp add: Release_def try_then Let_def)
qed


end
