(* ===== verification/Message_Handler.thy ===== *)
theory Message_Handler
  imports Consumer_Groups Worker_Lock
begin

text \<open>
  The handler of one queue for one consumer: \<open>internal/consumer/message_handler.go\<close> and
  \<open>pkg/consumer/consumer_options.go\<close>. A handler prepares its consumer group, subscribes, and then takes
  messages and hands them to the user's function; what the function decides goes to the two batchers, and a
  full batch to the scripts. It competes for the lock of the background tasks of the queue. The
  goroutines are the functions below: one attempt after the other for the lock, one round of the
  dequeue loop after the other.
\<close>

record consumer_options =
  co_HeartbeatTTL :: int
  co_BatchAcks :: batch_config
  co_BatchUnacks :: batch_config

definition DefaultOptions :: consumer_options where
  "DefaultOptions = \<lparr>co_HeartbeatTTL = 60 * time_Second, co_BatchAcks = DefaultBatchConfig, co_BatchUnacks = DefaultBatchConfig\<rparr>"

definition WithHeartbeatTTL :: "int \<Rightarrow> consumer_options \<Rightarrow> consumer_options" where
  "WithHeartbeatTTL ttl opts = opts\<lparr>co_HeartbeatTTL := ttl\<rparr>"

definition WithBatchAcks :: "batch_config \<Rightarrow> consumer_options \<Rightarrow> consumer_options" where
  "WithBatchAcks cfg opts = opts\<lparr>co_BatchAcks := cfg\<rparr>"

definition WithBatchUnacks :: "batch_config \<Rightarrow> consumer_options \<Rightarrow> consumer_options" where
  "WithBatchUnacks cfg opts = opts\<lparr>co_BatchUnacks := cfg\<rparr>"

text \<open>What a handler reads from its surroundings: the host, the clock, the settings of the settling scripts,
  and the backoff of the lock.\<close>

record handler_ctx =
  hx_hostname :: string
  hx_pid :: int
  hx_now :: int
  hx_settle :: settle_ctx
  hx_clock :: "envelope \<Rightarrow> int"
  hx_consumer :: consumer_ctx
  hx_backoff :: "int \<Rightarrow> int"

type_synonym user_handler = "transferable \<Rightarrow> handling"

record message_handler =
  mh_consumerID :: string
  mh_queue :: queue_params
  mh_groupID :: string
  mh_handler :: user_handler
  mh_options :: consumer_options
  mh_running :: bool
  mh_ephemeralGroup :: bool
  mh_batchAcker :: batch_acker
  mh_batchUnacker :: batch_unacker
  mh_dequeuer :: "dequeuer option"
  mh_workerLock :: "lock option"
  mh_workers :: bool

definition NewMessageHandler :: "string \<Rightarrow> queue_params \<Rightarrow> string \<Rightarrow> user_handler \<Rightarrow> consumer_options \<Rightarrow> message_handler" where
  "NewMessageHandler consumerID queue groupID handler options =
     \<lparr>mh_consumerID = consumerID, mh_queue = queue, mh_groupID = groupID, mh_handler = handler, mh_options = options,
      mh_running = False, mh_ephemeralGroup = False, mh_batchAcker = new_batcher (co_BatchAcks options),
      mh_batchUnacker = new_batcher (co_BatchUnacks options), mh_dequeuer = None, mh_workerLock = None, mh_workers = False\<rparr>"

subsection \<open>Start\<close>

definition MessageHandler_Run :: "'s smq_env \<Rightarrow> handler_ctx \<Rightarrow> message_handler \<Rightarrow> ('s, go_error, message_handler) io" where
  "MessageHandler_Run env hx mh =
     (if mh_running mh then ret mh
      else
      let rd = env_redis env; q = mh_queue mh; cid = mh_consumerID mh in
      and_then (map_err (Wrapf ''prepare consumer group'') (PrepareConsumerGroup env cid q (mh_groupID mh))) (\<lambda>effectiveGroupID.
      let mh1 = (if effectiveGroupID \<noteq> [] \<and> effectiveGroupID \<noteq> mh_groupID mh
                 then mh\<lparr>mh_groupID := effectiveGroupID, mh_ephemeralGroup := True\<rparr> else mh) in
      and_then (map_err (Wrapf ''subscribe'') (Subscribe_Consumer rd (hx_hostname hx) (hx_pid hx) (hx_now hx) cid q (mh_groupID mh1))) (\<lambda>_.
      and_then (map_err (Wrapf ''dequeue init'') (Dequeue_Init rd (NewDequeueMessage q (mh_groupID mh1) cid []))) (\<lambda>dequeuer.
      ret (mh1\<lparr>mh_batchAcker := new_batcher (co_BatchAcks (mh_options mh)), mh_batchUnacker := new_batcher (co_BatchUnacks (mh_options mh)),
        mh_dequeuer := Some dequeuer,
        mh_workerLock := Some (New_Lock (Queue_WorkersLock (qkey q)) cid
          [WithTTL (30 * time_Second), WithAutoRefresh (10 * time_Second), WithRetry (Some (hx_backoff hx))]),
        mh_running := True\<rparr>)))))"

text \<open>The goroutine that waits for the lock, started by \<open>Run\<close>; it may find that the handler was shut down
  meanwhile. The flag \<open>mh_workers\<close> stands for the five background tasks, whose sweeps are modelled in
  \<open>Background_Tasks\<close>, \<open>Consumer_Groups\<close> and \<open>Purging\<close>.\<close>

definition acquireWorkerLock :: "'s redis_server \<Rightarrow> (int \<Rightarrow> 's \<Rightarrow> 's) \<Rightarrow> nat \<Rightarrow> bool \<Rightarrow> message_handler \<Rightarrow> ('s, go_error, message_handler) io" where
  "acquireWorkerLock rd world rounds stopped mh =
     (case mh_workerLock mh of
        None \<Rightarrow> ret mh
      | Some l \<Rightarrow>
          and_then (try_io (Acquire rd world rounds l)) (\<lambda>r.
          case r of
            Inl err \<Rightarrow> ret mh
          | Inr l1 \<Rightarrow>
              if stopped \<or> \<not> mh_running mh then
                and_then (Release rd l1) (\<lambda>(_, l2). ret (mh\<lparr>mh_workerLock := Some l2\<rparr>))
              else ret (mh\<lparr>mh_workerLock := Some l1, mh_workers := True\<rparr>)))"

subsection \<open>Shutdown\<close>

definition settle_acks :: "'s redis_server \<Rightarrow> handler_ctx \<Rightarrow> message_handler \<Rightarrow> string list list \<Rightarrow> ('s, go_error, unit) io" where
  "settle_acks rd hx mh batches =
     and_then (for_io (acknowledge rd (hx_settle hx) (mh_queue mh) (mh_consumerID mh)) batches) (\<lambda>_. ret ())"

definition settle_unacks :: "'s smq_env \<Rightarrow> handler_ctx \<Rightarrow> message_handler \<Rightarrow> unack_entry list list \<Rightarrow> ('s, go_error, unit) io" where
  "settle_unacks env hx mh batches =
     and_then (for_io (unacknowledge env (hx_settle hx) (hx_clock hx) (mh_queue mh) (mh_consumerID mh)) batches) (\<lambda>_. ret ())"

definition MessageHandler_Shutdown :: "'s smq_env \<Rightarrow> handler_ctx \<Rightarrow> message_handler \<Rightarrow> ('s, go_error, message_handler) io" where
  "MessageHandler_Shutdown env hx mh =
     (if \<not> mh_running mh then ret mh
      else
      let rd = env_redis env; (acker, acks) = batch_shutdown (mh_batchAcker mh); (unacker, unacks) = batch_shutdown (mh_batchUnacker mh) in
      and_then (settle_acks rd hx mh acks) (\<lambda>_.
      and_then (settle_unacks env hx mh unacks) (\<lambda>_.
      and_then (case mh_workerLock mh of
          None \<Rightarrow> ret None
        | Some l \<Rightarrow> and_then (Release rd l) (\<lambda>(_, l'). ret (Some l'))) (\<lambda>workerLock.
      and_then (try_io (Unsubscribe_Consumer rd (mh_consumerID mh) (mh_queue mh) (mh_groupID mh))) (\<lambda>(_ :: go_error + unit).
      and_then (if mh_ephemeralGroup mh
          then and_then (try_io (DeleteEphemeralConsumerGroup rd (mh_consumerID mh) (mh_queue mh) (mh_groupID mh)))
            (\<lambda>(_ :: go_error + unit). ret ())
          else ret ()) (\<lambda>_.
      ret (mh\<lparr>mh_running := False, mh_batchAcker := acker, mh_batchUnacker := unacker, mh_workerLock := workerLock, mh_workers := False\<rparr>)))))))"

subsection \<open>The dequeue loop\<close>

text \<open>Handing a decision to the batchers, and what they flush to the scripts.\<close>

definition settle_decision :: "'s smq_env \<Rightarrow> handler_ctx \<Rightarrow> message_handler \<Rightarrow> settlement \<Rightarrow> ('s, go_error, message_handler) io" where
  "settle_decision env hx mh decision =
     (case decision of
        AckMessage messageID \<Rightarrow>
          (case BatchAcker_Ack (mh_batchAcker mh) messageID of (acker, batches) \<Rightarrow>
             and_then (settle_acks (env_redis env) hx mh batches) (\<lambda>_. ret (mh\<lparr>mh_batchAcker := acker\<rparr>)))
      | UnackMessage envelope cause \<Rightarrow>
          (case BatchUnacker_Unack (mh_batchUnacker mh) envelope cause of (unacker, batches) \<Rightarrow>
             and_then (settle_unacks env hx mh batches) (\<lambda>_. ret (mh\<lparr>mh_batchUnacker := unacker\<rparr>))))"

primrec settle_decisions :: "'s smq_env \<Rightarrow> handler_ctx \<Rightarrow> message_handler \<Rightarrow> settlement list \<Rightarrow> ('s, go_error, message_handler) io" where
  "settle_decisions env hx mh [] = ret mh"
| "settle_decisions env hx mh (d # ds) = and_then (settle_decision env hx mh d) (\<lambda>mh1. settle_decisions env hx mh1 ds)"

definition stops_handler :: "go_error \<Rightarrow> bool" where
  "stops_handler err \<longleftrightarrow> errors_is err (ConsumerErr C_ErrQueueStopped) \<or> errors_is err (ConsumerErr C_ErrQueueLocked) \<or>
     errors_is err (ConsumerErr C_ErrQueueInvalidState)"

text \<open>One round; a handler that has stopped itself is no longer running. Errors and empty queues are waited out.\<close>

definition handler_round :: "'s smq_env \<Rightarrow> handler_ctx \<Rightarrow> timing \<Rightarrow> message_handler \<Rightarrow> ('s, go_error, message_handler) io" where
  "handler_round env hx timing mh =
     (case mh_dequeuer mh of
        None \<Rightarrow> ret mh
      | Some dq \<Rightarrow>
          and_then (try_io (Dequeue (env_redis env) (hx_consumer hx) dq)) (\<lambda>r.
          case r of
            Inl err \<Rightarrow> if stops_handler err then MessageHandler_Shutdown env hx mh else ret mh
          | Inr None \<Rightarrow> ret mh
          | Inr (Some envelope) \<Rightarrow>
              and_then (Consume env (mh_queue mh) (mh_consumerID mh) (hx_now hx) (mh_handler mh) timing envelope) (\<lambda>decisions.
              settle_decisions env hx mh decisions)))"

text \<open>The loop: one round for every entry, until the handler has stopped.\<close>

primrec handler_loop :: "'s smq_env \<Rightarrow> message_handler \<Rightarrow> (handler_ctx \<times> timing) list \<Rightarrow> ('s, go_error, message_handler) io" where
  "handler_loop env mh [] = ret mh"
| "handler_loop env mh (x # xs) =
     (if \<not> mh_running mh then ret mh
      else and_then (handler_round env (fst x) (snd x) mh) (\<lambda>mh1. handler_loop env mh1 xs))"

subsection \<open>From the pop to the settlement\<close>

text \<open>A message that a consumer has checked out, and what may become of it in one settlement.\<close>

definition in_hands :: "mq \<Rightarrow> string \<Rightarrow> string \<Rightarrow> bool" where
  "in_hands A c m \<longleftrightarrow> m \<in> set (mq_proc A c) \<and> plain_id m \<and> msg_status_of A m = Some (itoa StatusProcessing) \<and>
     fmlookup (mq_msg A m) MF_ID = Some m \<and> can_incr (mq_msg A m) ''unacknowledgedCount'' \<and> int (length (mq_pub A)) + 1 < 2 ^ 63"

definition audits_ok :: "message_audit \<Rightarrow> bool" where
  "audits_ok cfg \<longleftrightarrow> audit_ok (ma_AcknowledgedMessages cfg) \<and> audit_ok (ma_DeadLetteredMessages cfg) \<and>
     in_int64 (ah_MaxSize (ma_UnacknowledgementHistory cfg))"

definition returned :: "settle_ctx \<Rightarrow> string \<Rightarrow> string \<Rightarrow> mq \<Rightarrow> mq set" where
  "returned sx c m A = {A} \<union>
     {run_op (Unacknowledge (sx_audit sx) (sx_unack_now sx) c [(en, cl)]) A | en cl. Envelope_ID (ue_Message en) = m}"

lemma returnedI:
  "A \<in> returned sx c m A"
  "Envelope_ID (ue_Message en) = m \<Longrightarrow> run_op (Unacknowledge (sx_audit sx) (sx_unack_now sx) c [(en, cl)]) A \<in> returned sx c m A"
  unfolding returned_def by blast+

definition acked :: "settle_ctx \<Rightarrow> string \<Rightarrow> string \<Rightarrow> mq \<Rightarrow> mq" where
  "acked sx c m A = run_op (Acknowledge (sx_audit sx) (sx_now sx) c [m]) A"

lemma in_hands_allowed:
  assumes "in_hands A c m" "audits_ok (sx_audit sx)"
  shows "allowed A (Acknowledge (sx_audit sx) (sx_now sx) c [m])"
    "Envelope_ID (ue_Message en) = m \<Longrightarrow> allowed A (Unacknowledge (sx_audit sx) (sx_unack_now sx) c [(en, cl)])"
  using assms by (auto simp: in_hands_def audits_ok_def allowed_def op_size_def unack_ready_def entry_ids)

lemma acked_id: "in_hands A c m \<Longrightarrow> fmlookup (mq_msg (acked sx c m A) m) MF_ID = Some m"
  by (auto simp: acked_def run_op_def do_ack_batch_def do_ack_def Let_def in_hands_def set_fields_def hset_all_def schema_defs)

lemma acked_cases:
  assumes "in_hands A c m" "audits_ok (sx_audit sx)" "lively A" "Envelope_ID (ue_Message en) = m"
  shows "allowed (acked sx c m A) (Unacknowledge (sx_audit sx) (sx_unack_now sx) c [(en, cl)])"
    "run_op (Unacknowledge (sx_audit sx) (sx_unack_now sx) c [(en, cl)]) (acked sx c m A) \<in> insert (acked sx c m A) (returned sx c m A)"
proof -
  note ok = in_hands_allowed [OF assms(1,2)]
  show "allowed (acked sx c m A) (Unacknowledge (sx_audit sx) (sx_unack_now sx) c [(en, cl)])"
    using settled_allowed(1) [OF assms(3) ok(1) ok(2) [OF assms(4)] assms(4)] ok(2) [OF assms(4)]
    by (cases "state_verdict A") (auto simp: acked_def run_op_def)
  show "run_op (Unacknowledge (sx_audit sx) (sx_unack_now sx) c [(en, cl)]) (acked sx c m A) \<in> insert (acked sx c m A) (returned sx c m A)"
  proof (cases "state_verdict A")
    case None
    then have "m \<notin> set (mq_proc (acked sx c m A) c)" using ack_gone [OF assms(3)] by (simp add: acked_def run_op_def)
    from settle_no_op(2) [OF this assms(4)] show ?thesis by simp
  next
    case (Some v)
    then show ?thesis by (simp add: acked_def run_op_def returned_def)
  qed
qed

context smq_queues
begin

lemma unacknowledgeFailed_reach:
  assumes run: "unacknowledgeFailed (env_redis env) sx p c [m] cause s = (r, s')" and reach: "reach (qkey p) (db s) A"
    and m: "plain_id m" "fmlookup (mq_msg A m) MF_ID = Some m"
    and ok: "\<And>en cl. Envelope_ID (ue_Message en) = m \<Longrightarrow> allowed A (Unacknowledge (sx_audit sx) (sx_unack_now sx) c [(en, cl)])"
  shows "\<exists>C \<in> returned sx c m A. reach (qkey p) (db s') C"
proof -
  obtain r1 s1 where ld: "loadMessages (env_redis env) (sx_decode sx) [m] s = (r1, s1)" by fastforce
  have view: "queue_view (qkey p) (db s) A" using reach_view [OF reach] by simp
  from loaded_messages [OF ld view] m obtain envs where envs: "db s1 = db s" "r1 = Inr envs"
    "set (map Envelope_ID envs) \<subseteq> {m}" "distinct (map Envelope_ID envs)" by auto
  have "envs = [] \<or> (\<exists>e. envs = [e] \<and> Envelope_ID e = m)"
    using envs(3,4) by (cases envs; cases "tl envs") auto
  then show ?thesis
  proof (elim disjE exE conjE)
    assume "envs = []"
    with run ld envs(1,2) reach show ?thesis by (auto simp: unacknowledgeFailed_def and_then_def returned_def)
  next
    fix e assume e: "envs = [e]" "Envelope_ID e = m"
    let ?en = "\<lparr>ue_Message = e, ue_Cause = cause\<rparr>"
    obtain r2 s2 where ub: "UnacknowledgeBatch (env_redis env) (sx_audit sx) (sx_unack_now sx) p c [(?en, sx_clock sx e)] s1 = (r2, s2)"
      by fastforce
    have "s' = s2" using run ld envs(2) e(1) ub by (simp add: unacknowledgeFailed_def and_then_def try_io_def unack_all_def)
    moreover have "reach (qkey p) (db s1) A" using reach envs(1) by simp
    from UnacknowledgeBatch_reach [OF ub this ok]
    have "reach (qkey p) (db s2) A \<or> reach (qkey p) (db s2) (run_op (Unacknowledge (sx_audit sx) (sx_unack_now sx) c [(?en, sx_clock sx e)]) A)"
      using e(2) by simp
    ultimately show ?thesis using e(2) returnedI(1) returnedI(2) [of ?en m sx c "sx_clock sx e" A] by auto
  qed
qed

lemma acknowledge_reach:
  assumes run: "acknowledge (env_redis env) sx p c [m] s = (r, s')" and reach: "reach (qkey p) (db s) A"
    and m: "in_hands A c m" "audits_ok (sx_audit sx)"
  shows "\<exists>C \<in> insert (acked sx c m A) (returned sx c m A). reach (qkey p) (db s') C"
proof -
  let ?op = "Acknowledge (sx_audit sx) (sx_now sx) c [m]" and ?q = "qkey p"
  have A: "lively A" using reach_view [OF reach] by simp
  obtain r1 s1 where ev: "Eval (env_redis env) AcknowledgeMessage (acknowledge_keys ?q c [m]) (acknowledge_args (sx_audit sx) (sx_now sx) [m]) s = (r1, s1)"
    by fastforce
  have op: "invoke ?q en ?op = smq_scripts other AcknowledgeMessage (redis_apply en) (acknowledge_keys ?q c [m])
      (acknowledge_args (sx_audit sx) (sx_now sx) [m])" for en by (simp add: invoke_def smq_scripts_def)
  from Eval_operate [OF reach in_hands_allowed(1) [OF m] op ev] reach
  have "reach ?q (db s1) A \<or> reach ?q (db s1) (acked sx c m A)" unfolding acked_def by auto
  then obtain X where X: "X \<in> {A, acked sx c m A}" "reach ?q (db s1) X" by blast
  consider "s' = s1" | cause where "unacknowledgeFailed (env_redis env) sx p c [m] cause s1 = (r, s')"
    using run ev by (auto simp: acknowledge_def and_then_def try_io_def split: sum.splits reply.splits)
  then show ?thesis
  proof cases
    case 1
    then show ?thesis using X by (auto simp: returned_def)
  next
    case 2
    have "plain_id m" "fmlookup (mq_msg X m) MF_ID = Some m" using X(1) acked_id [OF m(1)] m(1) by (auto simp: in_hands_def)
    moreover have "allowed X (Unacknowledge (sx_audit sx) (sx_unack_now sx) c [(en, cl)])" if "Envelope_ID (ue_Message en) = m" for en cl
      using X(1) acked_cases(1) [OF m A that, of cl] in_hands_allowed(2) [OF m that, of cl] by blast
    ultimately obtain C where "C \<in> returned sx c m X" "reach ?q (db s') C"
      using unacknowledgeFailed_reach [OF 2 X(2)] by blast
    moreover have "returned sx c m (acked sx c m A) \<subseteq> insert (acked sx c m A) (returned sx c m A)"
      unfolding returned_def [of _ _ _ "acked sx c m A"] using acked_cases(2) [OF m A] by blast
    ultimately show ?thesis using X(1) by blast
  qed
qed

lemma unacknowledge_reach:
  assumes run: "unacknowledge env sx clock p c [\<lparr>ue_Message = e, ue_Cause = cause\<rparr>] s = (r, s')" and reach: "reach (qkey p) (db s) A"
    and m: "in_hands A c (Envelope_ID e)" "audits_ok (sx_audit sx)"
  shows "\<exists>C \<in> returned sx c (Envelope_ID e) A. reach (qkey p) (db s') C"
proof -
  let ?en = "\<lparr>ue_Message = e, ue_Cause = cause\<rparr>"
  obtain r1 s1 where ub: "UnacknowledgeBatch (env_redis env) (sx_audit sx) (sx_unack_now sx) p c [(?en, sx_clock sx e)] s = (r1, s1)"
    by fastforce
  have "keeps db (unack_events env p c clock ?en)"
    unfolding unack_events_def Let_def PublishMessageUnacknowledged_def PublishMessageDeadLettered_def PublishMessageDelayed_def
      PublishMessageRequeued_def split_beta by (intro keeps_intros publish_event_keeps)
  then have "db s' = db s1"
    using run ub by (auto simp: unacknowledge_def and_then_def try_io_def split: sum.splits prod.splits dest!: keepsD)
  with UnacknowledgeBatch_reach [OF ub reach in_hands_allowed(2) [OF m]] show ?thesis
    using returnedI(1) returnedI(2) [of ?en "Envelope_ID e" sx c "sx_clock sx e" A] by auto
qed

lemma round_decision:
  assumes "mh_dequeuer mh = Some dq" "Dequeue (env_redis env) (hx_consumer hx) dq s = (Inr (Some e), s1)"
    "handler_round env hx timing mh s = (Inr mh', s')" "Consume_decides (hx_now hx) (mh_handler mh) timing e = [d]"
  shows "\<exists>s2. db s2 = db s1 \<and> settle_decision env hx mh d s2 = (Inr mh', s')"
proof -
  obtain r s2 where c: "Consume env (mh_queue mh) (mh_consumerID mh) (hx_now hx) (mh_handler mh) timing e s1 = (r, s2)" by fastforce
  have "keeps db (Consume env (mh_queue mh) (mh_consumerID mh) (hx_now hx) (mh_handler mh) timing e)"
    unfolding Consume_def Let_def PublishMessageReceived_def PublishMessageAcknowledged_def by (intro keeps_intros publish_event_keeps)
  then have "db s2 = db s1" using c by (rule keepsD)
  have "and_then (Consume env (mh_queue mh) (mh_consumerID mh) (hx_now hx) (mh_handler mh) timing e) (settle_decisions env hx mh) s1 = (Inr mh', s')"
    using assms(1-3) by (simp add: handler_round_def try_then)
  then obtain ds where "r = Inr ds" "settle_decisions env hx mh ds s2 = (Inr mh', s')" using c by (cases r) (auto simp: and_then_def)
  moreover have "ds = [d]" using c \<open>r = Inr ds\<close> assms(4) by (auto simp: Consume_def Let_def io_ok)
  ultimately have "settle_decisions env hx mh [d] s2 = (Inr mh', s')" by simp
  then have "settle_decision env hx mh d s2 = (Inr mh', s')" by (auto simp: and_then_def split: prod.splits sum.splits)
  with \<open>db s2 = db s1\<close> show ?thesis by blast
qed

lemma settle_decision_reach:
  assumes run: "settle_decision env hx mh decision s = (Inr mh', s')"
    and off: "\<not> bc_Enabled (bt_cfg (mh_batchAcker mh))" "\<not> bc_Enabled (bt_cfg (mh_batchUnacker mh))"
    and reach: "reach (qkey (mh_queue mh)) (db s) A" and m: "in_hands A (mh_consumerID mh) m" "audits_ok (sx_audit (hx_settle hx))"
    and d: "decision = AckMessage m \<or> (\<exists>e cause. decision = UnackMessage e cause \<and> Envelope_ID e = m)"
  shows "\<exists>C \<in> returned (hx_settle hx) (mh_consumerID mh) m A \<union>
      (if decision = AckMessage m then {acked (hx_settle hx) (mh_consumerID mh) m A} else {}). reach (qkey (mh_queue mh)) (db s') C"
  using d
proof (elim disjE exE conjE)
  assume ack: "decision = AckMessage m"
  then obtain r where "acknowledge (env_redis env) (hx_settle hx) (mh_queue mh) (mh_consumerID mh) [m] s = (r, s')"
    using run off(1)
    by (auto simp: settle_decision_def BatchAcker_Ack_def batch_add_def settle_acks_def and_then_def split: sum.splits prod.splits)
  from acknowledge_reach [OF this reach m] ack show ?thesis by auto
next
  fix e cause assume un: "decision = UnackMessage e cause" "Envelope_ID e = m"
  then obtain r where u: "unacknowledge env (hx_settle hx) (hx_clock hx) (mh_queue mh) (mh_consumerID mh) [\<lparr>ue_Message = e, ue_Cause = cause\<rparr>] s = (r, s')"
    using run off(2)
    by (auto simp: settle_decision_def BatchUnacker_Unack_def batch_add_def settle_unacks_def and_then_def split: sum.splits prod.splits)
  from unacknowledge_reach [OF u reach] m un show ?thesis by auto
qed

end

text \<open>What the outcomes mean for the messages of the queue.\<close>

lemma returned_effect:
  assumes "in_hands A c m" "lively A" "C \<in> returned sx c m A"
  shows "C = A \<or> m \<notin> set (mq_proc C c) \<and> msg_status_of C m \<in> {Some (itoa StatusUnackRequeuing), Some (itoa StatusDeadLettered)}"
    "m' \<noteq> m \<Longrightarrow> msg_status_of C m' = msg_status_of A m'"
proof -
  consider "C = A" | en cl where "C = do_unack (sx_audit sx) c (unack_entry_args (sx_audit sx) (sx_unack_now sx) (en, cl)) A"
      "Envelope_ID (ue_Message en) = m"
    using assms(3) unfolding returned_def run_op_def by (cases "state_verdict A") auto
  then have "(C = A \<or> m \<notin> set (mq_proc C c) \<and> msg_status_of C m \<in> {Some (itoa StatusUnackRequeuing), Some (itoa StatusDeadLettered)}) \<and>
      (m' \<noteq> m \<longrightarrow> msg_status_of C m' = msg_status_of A m')"
  proof cases
    case 2
    let ?u = "unack_entry_args (sx_audit sx) (sx_unack_now sx) (en, cl)"
    have "ua_id ?u = m" using 2(2) entry_ids by metis
    then show ?thesis using unack_gone [OF assms(2), of ?u] assms(1) unfolding 2(1) in_hands_def by (auto simp: do_unack_status)
  qed simp
  then show "C = A \<or> m \<notin> set (mq_proc C c) \<and> msg_status_of C m \<in> {Some (itoa StatusUnackRequeuing), Some (itoa StatusDeadLettered)}"
    "m' \<noteq> m \<Longrightarrow> msg_status_of C m' = msg_status_of A m'" by blast+
qed

lemma acked_effect:
  assumes "in_hands A c m" "lively A"
  shows "acked sx c m A = A \<or> m \<notin> set (mq_proc (acked sx c m A) c) \<and> msg_status_of (acked sx c m A) m = Some (itoa StatusAcknowledged)"
    "m' \<noteq> m \<Longrightarrow> msg_status_of (acked sx c m A) m' = msg_status_of A m'"
proof -
  have "msg_status_of (do_ack (sx_audit sx) (sx_now sx) c m A) m = Some (itoa StatusAcknowledged)"
    using assms(1) by (simp add: do_ack_def in_hands_def msg_status_of_def set_fields_def hset_all_def schema_defs)
  then show "acked sx c m A = A \<or> m \<notin> set (mq_proc (acked sx c m A) c) \<and> msg_status_of (acked sx c m A) m = Some (itoa StatusAcknowledged)"
    using ack_gone [OF assms(2)] by (auto simp: acked_def run_op_def ack_batch_sel)
  show "m' \<noteq> m \<Longrightarrow> msg_status_of (acked sx c m A) m' = msg_status_of A m'"
    by (auto simp: acked_def run_op_def ack_batch_sel do_ack_status)
qed

lemma taken_in_hands:
  assumes A: "lively A" and m: "next_id A t g = Some m" "plain_id m" "fmlookup (mq_msg A m) MF_ID = Some m"
      "can_incr (mq_msg A m) ''unacknowledgedCount''" and room: "int (length (mq_pub A)) + 1 < 2 ^ 63"
    and B_def: "B = do_checkout now m (run_op (pop_op t g c) A)"
  shows "in_hands B c m" "m' \<noteq> m \<Longrightarrow> msg_status_of B m' = msg_status_of A m'"
proof -
  note pop = pop_taken(1) [OF A m(1), of c] pop_msg [of t g c A]
  have h: "mq_msg B m = hset_all (checkout_fields now (mq_msg A m)) (mq_msg A m)"
    by (simp add: B_def do_checkout_def set_fields_def pop)
  have "fmlookup (mq_msg B m) ''unacknowledgedCount'' = fmlookup (mq_msg A m) ''unacknowledgedCount''"
    unfolding h by (simp add: checkout_fields_def Let_def hset_all_def schema_defs field_key_text)
  then have "can_incr (mq_msg B m) ''unacknowledgedCount''" using m(4) by (simp add: can_incr_def field_number_def num_field_def)
  moreover have "fmlookup (mq_msg B m) MF_ID = Some m" "msg_status_of B m = Some (itoa StatusProcessing)"
    using m(3) unfolding msg_status_of_def h by (simp_all add: checkout_fields_def Let_def hset_all_def schema_defs)
  moreover have "mq_pub B = mq_pub A" "mq_proc B = mq_proc (run_op (pop_op t g c) A)"
    by (simp_all add: B_def do_checkout_def pop)
  ultimately show "in_hands B c m" using pop m(2) room by (simp add: in_hands_def)
  show "m' \<noteq> m \<Longrightarrow> msg_status_of B m' = msg_status_of A m'"
    by (simp add: B_def do_checkout_def msg_status_of_def set_fields_def pop)
qed

lemma single_decision:
  assumes "timing \<noteq> TimerAfter"
  shows "\<exists>d. Consume_decides now handler timing e = [d] \<and>
    (d = AckMessage (Envelope_ID e) \<and> handler (Envelope_ToTransferable e) = Returns None \<and> \<not> isExpired now (Envelope_ToTransferable e) \<or>
     (\<exists>cause. d = UnackMessage e cause))"
proof -
  have "tr_ID (Envelope_ToTransferable e) = Envelope_ID e"
    by (simp add: Envelope_ToTransferable_def Let_def Envelope_ID_def)
  then show ?thesis
    using assms by (auto simp: Consume_decides_def Let_def split: timing.splits handling.splits option.splits)
qed


text \<open>On the server in memory the calls that settle a message always come back.\<close>

lemma mem_acknowledge: "\<exists>d'. acknowledge (mem_redis lua) sx p c ids d = (Inr (), d')"
proof -
  have un: "\<exists>d'. unacknowledgeFailed (mem_redis lua) sx p c ids cause d = (Inr (), d')" for cause d
  proof -
    obtain r d1 where ld: "loadMessages (mem_redis lua) (sx_decode sx) ids d = (r, d1)" by fastforce
    with mem.loadMessages_run [OF this] obtain envs where "r = Inr envs" by blast
    with ld show ?thesis by (auto simp: unacknowledgeFailed_def and_then_def try_io_def split: prod.split)
  qed
  obtain r d1 where "Eval (mem_redis lua) AcknowledgeMessage (acknowledge_keys (qkey p) c ids) (acknowledge_args (sx_audit sx) (sx_now sx) ids) d = (r, d1)"
    by fastforce
  then show ?thesis using un by (simp add: acknowledge_def try_then split: sum.split reply.split)
qed

lemma mem_unacknowledge: "\<exists>d'. unacknowledge (mem_env lua) sx clock p c [en] d = (Inr (), d')"
proof -
  obtain r d1 where ub: "UnacknowledgeBatch (env_redis (mem_env lua)) (sx_audit sx) (sx_unack_now sx) p c [(en, sx_clock sx (ue_Message en))] d = (r, d1)"
    by fastforce
  have "unack_events (mem_env lua) p c clock en d1 = (Inr (), d1)"
    by (simp add: unack_events_def Let_def PublishMessageUnacknowledged_def PublishMessageDeadLettered_def PublishMessageDelayed_def
        PublishMessageRequeued_def and_then_def split: prod.split)
  with ub show ?thesis by (cases r) (simp_all add: unacknowledge_def try_then and_then_Inr)
qed

definition sample_hx :: handler_ctx where
  "sample_hx = \<lparr>hx_hostname = ''h'', hx_pid = 1, hx_now = 8000000000,
     hx_settle = \<lparr>sx_audit = sample_audit, sx_now = 9, sx_decode = cc_decode sample_ctx, sx_unack_now = 9, sx_clock = (\<lambda>_. (9, 9))\<rparr>,
     hx_clock = (\<lambda>_. 9), hx_consumer = sample_ctx, hx_backoff = (\<lambda>_. -1)\<rparr>"

definition sample_handler :: message_handler where
  "sample_handler = (NewMessageHandler ''c1'' sample_queue [] (\<lambda>_. Returns None) DefaultOptions)
     \<lparr>mh_dequeuer := Some sample_dequeuer, mh_running := True\<rparr>"

lemma sample_take:
  assumes d: "reach (qkey sample_queue) d second_view"
  shows "\<exists>e d'. Dequeue (mem_redis (smq_scripts no_scripts)) sample_ctx sample_dequeuer d = (Inr (Some e), d') \<and> Envelope_ID e = ''m1''"
proof -
  let ?q = "qkey sample_queue" and ?rd = "mem_redis (smq_scripts no_scripts)" and ?B = "run_op (Pop [] ''c1'') second_view"
  have A: "lively second_view" using reach_view [OF d] by simp
  have op: "pop_op TypeFIFO [] ''c1'' = Pop [] ''c1''" by (simp add: pop_op_def enum_defs)
  note pop = pop_taken(1) [OF A second_next, of "''c1''", unfolded op] pop_msg [of TypeFIFO "[]" "''c1''" second_view, unfolded op]
  have ok: "allowed second_view (Pop [] ''c1'')" "allowed ?B (Checkout 8 ''m1'')"
    using pop second_attempts by (auto simp: allowed_def op_size_def plain_id_def second_view_pub)
  obtain x d1 where 1: "invoke ?q mem_enum (Pop [] ''c1'') d = (Inr x, d1)" "reach ?q d1 ?B" using invoke_total [OF d ok(1)] by blast
  have x: "x = RBulk ''m1''" using pop_reply [OF d, of mem_enum TypeFIFO "[]" "''c1''"] 1(1) by (simp add: op second_next)
  have "exec ?rd (RPOPLPUSH (Queue_Pending ?q) (Queue_ConsumerProcessing ?q ''c1'')) d = (Inr (RBulk ''m1''), d1)"
    using 1(1) x by (simp add: mem_redis_def invoke_def pending_key_def)
  then have popped: "pop ?rd sample_dequeuer TypeFIFO d = (Inr ''m1'', d1)"
    by (simp add: RPopLPush_def and_then_Inr pop_def Let_def sample_dequeuer_fields enum_defs popFIFO_def BRPopLPush_def try_then)
  have ver: "checkout_verdict ?B ''m1'' = None" using pop_verdict [OF A second_next, of "''c1''", unfolded op] by (simp add: sample_verdict)
  obtain y d2 where 2: "invoke ?q mem_enum (Checkout 8 ''m1'') d1 = (Inr y, d2)" using invoke_total [OF 1(2) ok(2)] by blast
  have third: "third_view = do_checkout 8 ''m1'' ?B" unfolding third_view_def using ver by (simp add: run_op_def [of "Checkout _ _"])
  obtain rs where y: "y = RArr rs" "fmap_of_list (rev (pair_up (map fmt_v rs))) = mq_msg third_view ''m1''"
    using checkout_run [OF 1(2) ok(2) mem_enum_ok 2] ver by (auto simp: third)
  obtain e where e: "decode_at (cc_decode sample_ctx) ''m1'' (mq_msg third_view ''m1'') = Inr e" "Envelope_ID e = ''m1''"
    using decode_total [OF third_message(2,1)] by blast
  have "Eval ?rd CheckoutMessage (checkout_keys ?q ''m1'') (checkout_args 8) d1 = (Inr (RArr rs), d2)"
    by (rule mem_Eval_reply) (use 2 y in \<open>simp_all add: invoke_def smq_scripts_def\<close>)
  then have "checkout ?rd sample_ctx sample_dequeuer ''m1'' d1 = (Inr (Some e), d2)"
    using y(2) e(1) by (simp add: checkout_def sample_dequeuer_fields sample_ctx_def and_then_def map_err_def)
  then have "Dequeue ?rd sample_ctx sample_dequeuer d = (Inr (Some e), d2)"
    by (simp add: Dequeue_def sample_dequeuer_fields checkRateLimit_def and_then_map_err(1) [where m = "pop _ _ _"] popped try_then)
  with e(2) show ?thesis by blast
qed


end
