(* ===== verification/Consumer_Runner.thy ===== *)
theory Consumer_Runner
  imports Message_Handler
begin

text \<open>
  A consumer: \<open>queue_state_tracker.go\<close>, \<open>message_handler_runner.go\<close> and \<open>consumer.go\<close> of \<open>internal/consumer\<close>.
  The runner keeps the handlers that the user registered and the instances that run, starts and stops
  instances when a queue changes its state, and looks after instances that have stopped themselves.

  The second part lets all operations of a runner follow each other in any order, with any outcome of the
  calls to Redis, and with handlers that stop at any time. Every operation runs as a whole; in Go,
  \<open>Run\<close> and \<open>reconcile\<close> start instances without holding the mutex, so that two of them may start the same handler at once.
\<close>

subsection \<open>The states of the queues\<close>

text \<open>The keys of the three maps of the tracker.\<close>

record queue_tracker =
  qt_paused :: "string set"
  qt_stopped :: "string set"
  qt_locked :: "string set"

definition NewQueueStateTracker :: queue_tracker where
  "NewQueueStateTracker = \<lparr>qt_paused = {}, qt_stopped = {}, qt_locked = {}\<rparr>"

definition track :: "queue_params \<Rightarrow> State \<Rightarrow> queue_tracker \<Rightarrow> queue_tracker" where
  "track q to t =
     (let key = Params_String q;
          t0 = \<lparr>qt_paused = qt_paused t - {key}, qt_stopped = qt_stopped t - {key}, qt_locked = qt_locked t - {key}\<rparr> in
      if to = StateStopped then t0\<lparr>qt_stopped := insert key (qt_stopped t0)\<rparr>
      else if to = StatePaused then t0\<lparr>qt_paused := insert key (qt_paused t0)\<rparr>
      else if to = StateLocked then t0\<lparr>qt_locked := insert key (qt_locked t0)\<rparr>
      else t0)"

definition IsStopped :: "queue_tracker \<Rightarrow> queue_params \<Rightarrow> bool" where
  "IsStopped t q \<longleftrightarrow> Params_String q \<in> qt_stopped t"

definition IsPaused :: "queue_tracker \<Rightarrow> queue_params \<Rightarrow> bool" where
  "IsPaused t q \<longleftrightarrow> Params_String q \<in> qt_paused t"

definition IsLocked :: "queue_tracker \<Rightarrow> queue_params \<Rightarrow> bool" where
  "IsLocked t q \<longleftrightarrow> Params_String q \<in> qt_locked t"

definition IsActive :: "queue_tracker \<Rightarrow> queue_params \<Rightarrow> bool" where
  "IsActive t q \<longleftrightarrow> \<not> IsStopped t q \<and> \<not> IsPaused t q \<and> \<not> IsLocked t q"

text \<open>The maps are nil after \<open>Shutdown\<close>, which reads like empty maps.\<close>

definition Tracker_Shutdown :: "queue_tracker \<Rightarrow> queue_tracker" where
  "Tracker_Shutdown t = NewQueueStateTracker"

subsection \<open>The runner\<close>

record handler_config =
  hc_queue :: queue_params
  hc_groupID :: string
  hc_handler :: user_handler

record runner =
  rn_consumerID :: string
  rn_options :: consumer_options
  rn_handlers :: "handler_config list"
  rn_instances :: "message_handler list"
  rn_tracker :: queue_tracker

definition NewMessageHandlerRunner :: "string \<Rightarrow> consumer_options \<Rightarrow> runner" where
  "NewMessageHandlerRunner consumerID options =
     \<lparr>rn_consumerID = consumerID, rn_options = options, rn_handlers = [], rn_instances = [], rn_tracker = NewQueueStateTracker\<rparr>"

definition config_key :: "handler_config \<Rightarrow> string \<times> string" where
  "config_key h = (Params_String (hc_queue h), hc_groupID h)"

definition instance_key :: "message_handler \<Rightarrow> string \<times> string" where
  "instance_key i = (Params_String (mh_queue i), mh_groupID i)"

text \<open>Shuts the first instance for the queue and the group down and takes it from the list.\<close>

primrec stop_first :: "'s smq_env \<Rightarrow> handler_ctx \<Rightarrow> string \<times> string \<Rightarrow> message_handler list \<Rightarrow> ('s, go_error, message_handler list \<times> bool) io" where
  "stop_first env hx k [] = ret ([], False)"
| "stop_first env hx k (i # is) =
     (if instance_key i = k then and_then (MessageHandler_Shutdown env hx i) (\<lambda>_. ret (is, True))
      else and_then (stop_first env hx k is) (\<lambda>(is', found). ret (i # is', found)))"

primrec replace_first :: "string \<times> string \<Rightarrow> handler_config \<Rightarrow> handler_config list \<Rightarrow> handler_config list option" where
  "replace_first k h [] = None"
| "replace_first k h (x # xs) = (if config_key x = k then Some (h # xs) else map_option ((#) x) (replace_first k h xs))"

primrec remove_config :: "string \<times> string \<Rightarrow> handler_config list \<Rightarrow> handler_config list" where
  "remove_config k [] = []"
| "remove_config k (x # xs) = (if config_key x = k then xs else x # remove_config k xs)"

definition AddHandler :: "'s smq_env \<Rightarrow> handler_ctx \<Rightarrow> queue_params \<Rightarrow> string \<Rightarrow> user_handler \<Rightarrow> runner \<Rightarrow> ('s, go_error, runner) io" where
  "AddHandler env hx queue groupID handler r =
     (let h = \<lparr>hc_queue = queue, hc_groupID = groupID, hc_handler = handler\<rparr> in
      case replace_first (config_key h) h (rn_handlers r) of
        Some hs \<Rightarrow>
          and_then (stop_first env hx (config_key h) (rn_instances r)) (\<lambda>(is, _).
          ret (r\<lparr>rn_handlers := hs, rn_instances := is\<rparr>))
      | None \<Rightarrow> ret (r\<lparr>rn_handlers := rn_handlers r @ [h]\<rparr>))"

definition RemoveHandler :: "'s smq_env \<Rightarrow> handler_ctx \<Rightarrow> queue_params \<Rightarrow> string \<Rightarrow> runner \<Rightarrow> ('s, go_error, runner) io" where
  "RemoveHandler env hx queue groupID r =
     and_then (stop_first env hx (Params_String queue, groupID) (rn_instances r)) (\<lambda>(is, _).
     ret (r\<lparr>rn_handlers := remove_config (Params_String queue, groupID) (rn_handlers r), rn_instances := is\<rparr>))"

definition HasHandlers :: "runner \<Rightarrow> bool" where
  "HasHandlers r \<longleftrightarrow> rn_handlers r \<noteq> []"

definition Runner_Queues :: "runner \<Rightarrow> queue_params list" where
  "Runner_Queues r = map hc_queue (rn_handlers r)"

definition HandlerCount :: "runner \<Rightarrow> nat \<times> nat \<times> nat \<times> nat \<times> nat" where
  "HandlerCount r =
     (let t = rn_tracker r; hs = rn_handlers r;
          active = filter (\<lambda>h. IsActive t (hc_queue h)) hs; rest1 = filter (\<lambda>h. \<not> IsActive t (hc_queue h)) hs;
          stopped = filter (\<lambda>h. IsStopped t (hc_queue h)) rest1; rest2 = filter (\<lambda>h. \<not> IsStopped t (hc_queue h)) rest1;
          paused = filter (\<lambda>h. IsPaused t (hc_queue h)) rest2; rest3 = filter (\<lambda>h. \<not> IsPaused t (hc_queue h)) rest2;
          locked = filter (\<lambda>h. IsLocked t (hc_queue h)) rest3 in
      (length hs, length active, length stopped, length paused, length locked))"

text \<open>A queue that cannot be read counts as inactive.\<close>

definition isQueueActive :: "'s redis_server \<Rightarrow> queue_params \<Rightarrow> ('s, go_error, bool) io" where
  "isQueueActive rd queue =
     and_then (try_io (Queue_Load rd queue)) (\<lambda>r.
     ret (case r of Inl (err :: go_error) \<Rightarrow> False | Inr props \<Rightarrow> q_OperationalState props = StateActive))"

definition start_config :: "'s smq_env \<Rightarrow> handler_ctx \<Rightarrow> runner \<Rightarrow> handler_config \<Rightarrow> ('s, go_error, message_handler) io" where
  "start_config env hx r cfg =
     MessageHandler_Run env hx (NewMessageHandler (rn_consumerID r) (hc_queue cfg) (hc_groupID cfg) (hc_handler cfg) (rn_options r))"

primrec shutdown_all :: "'s smq_env \<Rightarrow> handler_ctx \<Rightarrow> message_handler list \<Rightarrow> ('s, go_error, unit) io" where
  "shutdown_all env hx [] = ret ()"
| "shutdown_all env hx (i # is) = and_then (MessageHandler_Shutdown env hx i) (\<lambda>_. shutdown_all env hx is)"

definition Runner_Shutdown :: "'s smq_env \<Rightarrow> handler_ctx \<Rightarrow> runner \<Rightarrow> ('s, go_error, runner) io" where
  "Runner_Shutdown env hx r =
     and_then (shutdown_all env hx (rn_instances r)) (\<lambda>_.
     ret (r\<lparr>rn_instances := [], rn_tracker := Tracker_Shutdown (rn_tracker r)\<rparr>))"

text \<open>The loop of \<open>Run\<close>: what it has started when it ends, or when a start fails, with the error.\<close>

primrec start_all :: "'s smq_env \<Rightarrow> handler_ctx \<Rightarrow> runner \<Rightarrow> handler_config list \<Rightarrow> message_handler list
    \<Rightarrow> ('s, go_error, message_handler list \<times> go_error option) io" where
  "start_all env hx r [] is = ret (is, None)"
| "start_all env hx r (cfg # cfgs) is =
     and_then (isQueueActive (env_redis env) (hc_queue cfg)) (\<lambda>active.
     if \<not> active then start_all env hx r cfgs is
     else
     and_then (try_io (start_config env hx r cfg)) (\<lambda>res.
     case res of
       Inl err \<Rightarrow> ret (is, Some err)
     | Inr mh \<Rightarrow> start_all env hx r cfgs (is @ [mh])))"

definition Runner_Run :: "'s smq_env \<Rightarrow> handler_ctx \<Rightarrow> runner \<Rightarrow> ('s, go_error, go_error option \<times> runner) io" where
  "Runner_Run env hx r =
     (let r0 = r\<lparr>rn_tracker := NewQueueStateTracker\<rparr> in
      and_then (start_all env hx r0 (rn_handlers r0) (rn_instances r0)) (\<lambda>(is, e).
      let r1 = r0\<lparr>rn_instances := is\<rparr> in
      case e of
        Some err \<Rightarrow> and_then (Runner_Shutdown env hx r1) (\<lambda>r2. ret (Some err, r2))
      | None \<Rightarrow>
          if length is = length (rn_instances r0) \<and> rn_handlers r0 \<noteq> []
          then and_then (Runner_Shutdown env hx r1) (\<lambda>r2. ret (Some (Errorf ''consumer: all queues are non-operational''), r2))
          else ret (None, r1)))"

definition StopHandler :: "'s smq_env \<Rightarrow> handler_ctx \<Rightarrow> queue_params \<Rightarrow> string \<Rightarrow> runner \<Rightarrow> ('s, go_error, bool \<times> runner) io" where
  "StopHandler env hx queue groupID r =
     and_then (stop_first env hx (Params_String queue, groupID) (rn_instances r)) (\<lambda>(is, found).
     ret (found, r\<lparr>rn_instances := is\<rparr>))"

definition StartHandler :: "'s smq_env \<Rightarrow> handler_ctx \<Rightarrow> queue_params \<Rightarrow> string \<Rightarrow> runner \<Rightarrow> ('s, go_error, bool \<times> runner) io" where
  "StartHandler env hx queue groupID r =
     (case find (\<lambda>h. config_key h = (Params_String queue, groupID)) (rn_handlers r) of
        None \<Rightarrow> ret (False, r)
      | Some cfg \<Rightarrow>
          if \<exists>i \<in> set (rn_instances r). instance_key i = (Params_String queue, groupID) then ret (False, r)
          else
          and_then (try_io (start_config env hx r cfg)) (\<lambda>res.
          case res of
            Inl err \<Rightarrow> ret (False, r)
          | Inr mh \<Rightarrow> ret (True, r\<lparr>rn_instances := rn_instances r @ [mh]\<rparr>)))"

subsection \<open>Reacting to the states of queues\<close>

primrec stop_configs :: "'s smq_env \<Rightarrow> handler_ctx \<Rightarrow> handler_config list \<Rightarrow> runner \<Rightarrow> ('s, go_error, runner) io" where
  "stop_configs env hx [] r = ret r"
| "stop_configs env hx (c # cs) r =
     and_then (StopHandler env hx (hc_queue c) (hc_groupID c) r) (\<lambda>(_, r1). stop_configs env hx cs r1)"

primrec start_configs :: "'s smq_env \<Rightarrow> handler_ctx \<Rightarrow> handler_config list \<Rightarrow> runner \<Rightarrow> ('s, go_error, runner) io" where
  "start_configs env hx [] r = ret r"
| "start_configs env hx (c # cs) r =
     and_then (StartHandler env hx (hc_queue c) (hc_groupID c) r) (\<lambda>(_, r1). start_configs env hx cs r1)"

definition configs_of :: "queue_params \<Rightarrow> runner \<Rightarrow> handler_config list" where
  "configs_of queue r = filter (\<lambda>c. Params_String (hc_queue c) = Params_String queue) (rn_handlers r)"

text \<open>The callbacks for a stopped, a paused and a locked queue are the same.\<close>

definition onQueueStopped :: "'s smq_env \<Rightarrow> handler_ctx \<Rightarrow> queue_params \<Rightarrow> runner \<Rightarrow> ('s, go_error, runner) io" where
  "onQueueStopped env hx queue r = stop_configs env hx (configs_of queue r) r"

definition onQueueActive :: "'s smq_env \<Rightarrow> handler_ctx \<Rightarrow> queue_params \<Rightarrow> runner \<Rightarrow> ('s, go_error, runner) io" where
  "onQueueActive env hx queue r = start_configs env hx (configs_of queue r) r"

definition handleStateChange :: "'s smq_env \<Rightarrow> handler_ctx \<Rightarrow> queue_params \<Rightarrow> State \<Rightarrow> runner \<Rightarrow> ('s, go_error, runner) io" where
  "handleStateChange env hx q to r =
     (let r1 = r\<lparr>rn_tracker := track q to (rn_tracker r)\<rparr> in
      if to = StateStopped \<or> to = StatePaused \<or> to = StateLocked then onQueueStopped env hx q r1
      else if to = StateActive then onQueueActive env hx q r1
      else ret r1)"

subsection \<open>Reconciliation\<close>

definition to_restart :: "runner \<Rightarrow> handler_config list" where
  "to_restart r = filter (\<lambda>c. IsActive (rn_tracker r) (hc_queue c) \<and>
     \<not> (\<exists>i \<in> set (rn_instances r). instance_key i = config_key c \<and> mh_running i)) (rn_handlers r)"

primrec restart :: "'s smq_env \<Rightarrow> handler_ctx \<Rightarrow> handler_config list \<Rightarrow> runner \<Rightarrow> ('s, go_error, runner) io" where
  "restart env hx [] r = ret r"
| "restart env hx (c # cs) r =
     and_then (try_io (start_config env hx r c)) (\<lambda>res.
     case res of
       Inl err \<Rightarrow> restart env hx cs r
     | Inr mh \<Rightarrow> restart env hx cs (r\<lparr>rn_instances := rn_instances r @ [mh]\<rparr>))"

definition reconcile :: "'s smq_env \<Rightarrow> handler_ctx \<Rightarrow> runner \<Rightarrow> ('s, go_error, runner) io" where
  "reconcile env hx r = restart env hx (to_restart r) r"

text \<open>The ticker of \<open>reconcileLoop\<close>: one reconciliation for every tick.\<close>

primrec reconcileLoop :: "'s smq_env \<Rightarrow> handler_ctx \<Rightarrow> nat \<Rightarrow> runner \<Rightarrow> ('s, go_error, runner) io" where
  "reconcileLoop env hx 0 r = ret r"
| "reconcileLoop env hx (Suc n) r = and_then (reconcile env hx r) (reconcileLoop env hx n)"

subsection \<open>The consumer\<close>

record consumer =
  cn_id :: string
  cn_running :: bool
  cn_runner :: runner
  cn_options :: consumer_options
  cn_hb :: "heartbeat option"

definition New_Consumer :: "string \<Rightarrow> (consumer_options \<Rightarrow> consumer_options) list \<Rightarrow> consumer" where
  "New_Consumer uuid opts =
     (let options = foldl (\<lambda>c f. f c) DefaultOptions opts in
      \<lparr>cn_id = uuid, cn_running = False, cn_runner = NewMessageHandlerRunner uuid options, cn_options = options, cn_hb = None\<rparr>)"

definition Consumer_Consume :: "'s smq_env \<Rightarrow> handler_ctx \<Rightarrow> queue_params \<Rightarrow> string \<Rightarrow> user_handler \<Rightarrow> consumer \<Rightarrow> ('s, go_error, consumer) io" where
  "Consumer_Consume env hx queue groupID handler cons =
     and_then (AddHandler env hx queue groupID handler (cn_runner cons)) (\<lambda>r.
     if cn_running cons
     then and_then (StartHandler env hx queue groupID r) (\<lambda>(_, r1). ret (cons\<lparr>cn_runner := r1\<rparr>))
     else ret (cons\<lparr>cn_runner := r\<rparr>))"

definition Consumer_Cancel :: "'s smq_env \<Rightarrow> handler_ctx \<Rightarrow> queue_params \<Rightarrow> string \<Rightarrow> consumer \<Rightarrow> ('s, go_error, consumer) io" where
  "Consumer_Cancel env hx queue groupID cons =
     and_then (RemoveHandler env hx queue groupID (cn_runner cons)) (\<lambda>r. ret (cons\<lparr>cn_runner := r\<rparr>))"

definition register_consumer :: "'s redis_server \<Rightarrow> consumer \<Rightarrow> ('s, go_error, unit) io" where
  "register_consumer rd cons =
     and_then (try_io (exec rd (SETPX (System_ConsumerHeartbeat (cn_id cons)) ''{}'' (Milliseconds (co_HeartbeatTTL (cn_options cons))))))
       (\<lambda>(_ :: redis_error + reply). ret ())"

definition unregister_consumer :: "'s redis_server \<Rightarrow> consumer \<Rightarrow> ('s, go_error, unit) io" where
  "unregister_consumer rd cons =
     and_then (try_io (exec rd (DEL [System_ConsumerHeartbeat (cn_id cons), System_ConsumerQueues (cn_id cons)])))
       (\<lambda>(_ :: redis_error + reply). ret ())"

definition Consumer_Run :: "'s smq_env \<Rightarrow> handler_ctx \<Rightarrow> consumer \<Rightarrow> ('s, go_error, go_error option \<times> consumer) io" where
  "Consumer_Run env hx cons =
     (let event = (\<lambda>name. publish_event env name [JStr (cn_id cons)]) in
      if cn_running cons then ret (None, cons)
      else if \<not> HasHandlers (cn_runner cons) then ret (Some (ConsumerErr C_ErrNoQueues), cons)
      else
      and_then (event ''consumer.goingUp'') (\<lambda>_.
      and_then (Runner_Run env hx (cn_runner cons)) (\<lambda>(e, r).
      case e of
        Some err \<Rightarrow>
          and_then (event ''consumer.down'') (\<lambda>_. ret (Some (Wrapf ''consumer: run handlers'' err), cons\<lparr>cn_runner := r\<rparr>))
      | None \<Rightarrow>
          and_then (register_consumer (env_redis env) cons) (\<lambda>_.
          and_then (event ''consumer.up'') (\<lambda>_.
          ret (None, cons\<lparr>cn_runner := r, cn_hb := Some (NewHeartbeat (cn_id cons) (co_HeartbeatTTL (cn_options cons))), cn_running := True\<rparr>))))))"

definition stop_heartbeat :: "'s redis_server \<Rightarrow> consumer \<Rightarrow> ('s, go_error, unit) io" where
  "stop_heartbeat rd cons = (case cn_hb cons of None \<Rightarrow> ret () | Some hb \<Rightarrow> Heartbeat_Stop rd hb)"

definition Consumer_Shutdown :: "'s smq_env \<Rightarrow> handler_ctx \<Rightarrow> consumer \<Rightarrow> ('s, go_error, consumer) io" where
  "Consumer_Shutdown env hx cons =
     (let event = (\<lambda>name. publish_event env name [JStr (cn_id cons)]); rd = env_redis env in
      if \<not> cn_running cons then
        and_then (stop_heartbeat rd cons) (\<lambda>_.
        and_then (unregister_consumer rd cons) (\<lambda>_.
        and_then (Runner_Shutdown env hx (cn_runner cons)) (\<lambda>r. ret (cons\<lparr>cn_runner := r, cn_hb := None\<rparr>))))
      else
        and_then (event ''consumer.goingDown'') (\<lambda>_.
        and_then (stop_heartbeat rd cons) (\<lambda>_.
        and_then (Runner_Shutdown env hx (cn_runner cons)) (\<lambda>r.
        and_then (unregister_consumer rd cons) (\<lambda>_.
        and_then (event ''consumer.down'') (\<lambda>_.
        ret (cons\<lparr>cn_runner := r, cn_hb := None, cn_running := False\<rparr>)))))))"

subsection \<open>What a start and a stop do to the list of instances\<close>

lemma Run_result:
  assumes "MessageHandler_Run env hx mh s = (Inr mh', s')" "\<not> mh_running mh" "\<not> mh_ephemeralGroup mh"
  shows "mh_running mh' \<and> mh_queue mh' = mh_queue mh \<and> (mh_ephemeralGroup mh' \<or> mh_groupID mh' = mh_groupID mh)"
  using assms by (auto simp: MessageHandler_Run_def Let_def io_ok split: if_splits)

lemma start_result:
  assumes "start_config env hx r cfg s = (Inr mh, s')"
  shows "mh_running mh \<and> (mh_ephemeralGroup mh \<or> instance_key mh = config_key cfg)"
  using Run_result [OF assms [unfolded start_config_def]] by (auto simp: NewMessageHandler_def instance_key_def config_key_def)

lemma stop_first_result:
  assumes "stop_first env hx k is s = (Inr (is', found), s')"
  shows "is' = is \<or> (\<exists>xs i ys. is = xs @ i # ys \<and> is' = xs @ ys)"
  using assms
proof (induction "is" arbitrary: is' s)
  case (Cons i "is")
  show ?case
  proof (cases "instance_key i = k")
    case True
    then show ?thesis using Cons.prems by (auto simp: io_ok intro: exI [of _ "[]"])
  next
    case False
    with Cons.prems obtain is1 where is1: "stop_first env hx k is s = (Inr (is1, found), s')" "is' = i # is1"
      by (auto simp: io_ok)
    from Cons.IH [OF is1(1)] show ?thesis using is1(2) by (metis append_Cons)
  qed
qed simp

text \<open>The keys of the instances that run under the group of their configuration.\<close>

definition plain_keys :: "message_handler list \<Rightarrow> (string \<times> string) list" where
  "plain_keys is = map instance_key (filter (\<lambda>i. mh_running i \<and> \<not> mh_ephemeralGroup i) is)"

lemma plain_keys_simps [simp]:
  "plain_keys [] = []" "plain_keys (xs @ ys) = plain_keys xs @ plain_keys ys"
  "plain_keys (i # is) = (if mh_running i \<and> \<not> mh_ephemeralGroup i then instance_key i # plain_keys is else plain_keys is)"
  by (simp_all add: plain_keys_def)

lemma stop_first_plain:
  assumes "stop_first env hx k is s = (Inr (is', found), s')" "distinct (plain_keys is)"
  shows "distinct (plain_keys is')" "set (plain_keys is') \<subseteq> set (plain_keys is)"
  using stop_first_result [OF assms(1)] assms(2) by (auto split: if_splits)

lemma start_plain:
  assumes "start_config env hx r cfg s = (Inr mh, s')" "distinct (plain_keys is)" "config_key cfg \<notin> set (plain_keys is)"
  shows "distinct (plain_keys (is @ [mh]))" "set (plain_keys (is @ [mh])) \<subseteq> insert (config_key cfg) (set (plain_keys is))"
  using start_result [OF assms(1)] assms(2,3) by auto

lemma no_instance_plain: "\<not> (\<exists>i \<in> set is. instance_key i = k \<and> mh_running i) \<Longrightarrow> k \<notin> set (plain_keys is)"
  by (auto simp: plain_keys_def)

lemma start_all_plain:
  assumes "start_all env hx r cfgs is s = (Inr (is', e), s')" "distinct (plain_keys is)" "distinct (map config_key cfgs)"
    "\<forall>c \<in> set cfgs. config_key c \<notin> set (plain_keys is)"
  shows "distinct (plain_keys is')"
  using assms
proof (induction cfgs arbitrary: "is" s)
  case (Cons c cfgs)
  show ?case
  proof (cases "\<exists>s1. start_all env hx r cfgs is s1 = (Inr (is', e), s')")
    case True
    then show ?thesis using Cons by auto
  next
    case False
    with Cons.prems(1) obtain s1 res s2 where st: "start_config env hx r c s1 = (res, s2)"
      and rest: "case res of Inl err \<Rightarrow> is' = is | Inr mh \<Rightarrow> start_all env hx r cfgs (is @ [mh]) s2 = (Inr (is', e), s')"
      by (fastforce simp: and_then_def try_io_def split: prod.splits sum.splits if_splits)
    show ?thesis
    proof (cases res)
      case (Inr mh)
      have c: "config_key c \<notin> set (plain_keys is)" using Cons.prems(4) by simp
      note new = start_plain [OF st [unfolded Inr] Cons.prems(2) c]
      have "config_key d \<notin> set (plain_keys (is @ [mh]))" if "d \<in> set cfgs" for d
      proof -
        have "config_key d \<noteq> config_key c" using Cons.prems(3) that by (auto simp: image_iff)
        then show ?thesis using new(2) Cons.prems(4) that by (metis insert_iff list.set_intros(2) subsetD)
      qed
      then show ?thesis using Cons.IH [of "is @ [mh]" s2] rest Inr Cons.prems(3) new(1) by simp
    qed (use rest Cons.prems(2) in auto)
  qed
qed (auto simp: io_ok)

text \<open>The invariant of a runner.\<close>

definition one_each :: "runner \<Rightarrow> bool" where
  "one_each r \<longleftrightarrow> distinct (map config_key (rn_handlers r)) \<and> distinct (plain_keys (rn_instances r))"

lemma replace_first_keys:
  "replace_first (config_key h) h hs = Some hs' \<Longrightarrow> map config_key hs' = map config_key hs"
  "replace_first (config_key h) h hs = None \<Longrightarrow> config_key h \<notin> config_key ` set hs"
  by (induction hs arbitrary: hs') (auto split: if_splits)

lemma remove_config_keys:
  "set (map config_key (remove_config k hs)) \<subseteq> set (map config_key hs)"
  "distinct (map config_key hs) \<Longrightarrow> distinct (map config_key (remove_config k hs))"
  by (induction hs) auto

lemma AddHandler_one_each: "AddHandler env hx q g h r s = (Inr r', s') \<Longrightarrow> one_each r \<Longrightarrow> one_each r'"
  by (auto simp: AddHandler_def Let_def io_ok one_each_def split: option.splits
      dest: replace_first_keys stop_first_plain)

lemma RemoveHandler_one_each: "RemoveHandler env hx q g r s = (Inr r', s') \<Longrightarrow> one_each r \<Longrightarrow> one_each r'"
  using remove_config_keys(2) by (auto simp: RemoveHandler_def io_ok one_each_def dest: stop_first_plain)

lemma StopHandler_one_each: "StopHandler env hx q g r s = (Inr (b, r'), s') \<Longrightarrow> one_each r \<Longrightarrow> one_each r'"
  by (auto simp: StopHandler_def io_ok one_each_def dest: stop_first_plain)

lemma StartHandler_one_each:
  assumes "StartHandler env hx q g r s = (Inr (b, r'), s')" "one_each r"
  shows "one_each r'"
proof (cases "r' = r")
  case False
  then obtain cfg mh where cfg: "find (\<lambda>h. config_key h = (Params_String q, g)) (rn_handlers r) = Some cfg"
    and free: "\<not> (\<exists>i \<in> set (rn_instances r). instance_key i = (Params_String q, g))"
    and st: "start_config env hx r cfg s = (Inr mh, s')" and r': "r' = r\<lparr>rn_instances := rn_instances r @ [mh]\<rparr>"
    using assms(1) by (auto simp: StartHandler_def and_then_def try_io_def split: option.splits prod.splits sum.splits if_splits)
  have "config_key cfg = (Params_String q, g)" using cfg by (auto simp: find_Some_iff)
  then have "config_key cfg \<notin> set (plain_keys (rn_instances r))" using free by (intro no_instance_plain) auto
  then show ?thesis using start_plain(1) [OF st] assms(2) r' by (simp add: one_each_def del: plain_keys_simps)
qed (use assms(2) in simp)

lemma configs_one_each:
  "stop_configs env hx cs r s = (Inr r', s') \<Longrightarrow> one_each r \<Longrightarrow> one_each r'"
  "start_configs env hx cs r s = (Inr r', s') \<Longrightarrow> one_each r \<Longrightarrow> one_each r'"
  by (induction cs arbitrary: r s) (auto simp: io_ok dest: StopHandler_one_each StartHandler_one_each)

lemma handleStateChange_one_each: "handleStateChange env hx q to r s = (Inr r', s') \<Longrightarrow> one_each r \<Longrightarrow> one_each r'"
  by (auto simp: handleStateChange_def onQueueStopped_def onQueueActive_def Let_def one_each_def [of "rn_tracker_update _ _"]
      split: if_splits dest!: configs_one_each) (simp_all add: one_each_def)

lemma restart_one_each:
  assumes "restart env hx cs r s = (Inr r', s')" "one_each r" "distinct (map config_key cs)"
    "\<forall>c \<in> set cs. config_key c \<notin> set (plain_keys (rn_instances r))"
  shows "one_each r'"
  using assms
proof (induction cs arbitrary: r s)
  case (Cons c cs)
  obtain res s1 where st: "start_config env hx r c s = (res, s1)" by fastforce
  show ?case
  proof (cases res)
    case (Inl e)
    then show ?thesis using Cons st by (auto simp: try_then)
  next
    case (Inr mh)
    let ?r = "r\<lparr>rn_instances := rn_instances r @ [mh]\<rparr>"
    have run: "restart env hx cs ?r s1 = (Inr r', s')" using Cons.prems(1) st Inr by (simp add: try_then)
    have c: "config_key c \<notin> set (plain_keys (rn_instances r))" "distinct (plain_keys (rn_instances r))"
      using Cons.prems(2,4) by (simp_all add: one_each_def)
    note new = start_plain [OF st [unfolded Inr] c(2,1)]
    have "config_key d \<notin> set (plain_keys (rn_instances r @ [mh]))" if "d \<in> set cs" for d
    proof -
      have "config_key d \<noteq> config_key c" using Cons.prems(3) that by (auto simp: image_iff)
      then show ?thesis using new(2) Cons.prems(4) that by (metis insert_iff list.set_intros(2) subsetD)
    qed
    moreover have "one_each ?r" using new(1) Cons.prems(2) by (simp add: one_each_def del: plain_keys_simps)
    ultimately show ?thesis using Cons.IH [OF run] Cons.prems(3) by (simp del: plain_keys_simps)
  qed
qed simp

lemma reconcile_one_each:
  assumes "reconcile env hx r s = (Inr r', s')" "one_each r"
  shows "one_each r'"
proof (rule restart_one_each [OF assms(1) [unfolded reconcile_def] assms(2)])
  show "distinct (map config_key (to_restart r))"
    using assms(2) by (auto simp: to_restart_def one_each_def distinct_map intro: inj_on_subset)
  show "\<forall>c \<in> set (to_restart r). config_key c \<notin> set (plain_keys (rn_instances r))"
    by (auto simp: to_restart_def intro!: no_instance_plain)
qed

lemma Runner_Shutdown_one_each: "Runner_Shutdown env hx r s = (Inr r', s') \<Longrightarrow> one_each r \<Longrightarrow> one_each r'"
  by (auto simp: Runner_Shutdown_def io_ok one_each_def)

lemma Runner_Run_one_each:
  assumes "Runner_Run env hx r s = (Inr (e, r'), s')" "one_each r" "rn_instances r = []"
  shows "one_each r'"
proof -
  obtain "is" e1 s1 where st: "start_all env hx (r\<lparr>rn_tracker := NewQueueStateTracker\<rparr>) (rn_handlers r) [] s = (Inr (is, e1), s1)"
    and r': "r' = r\<lparr>rn_tracker := NewQueueStateTracker, rn_instances := is\<rparr> \<or>
      (\<exists>s1. Runner_Shutdown env hx (r\<lparr>rn_tracker := NewQueueStateTracker, rn_instances := is\<rparr>) s1 = (Inr r', s'))"
    using assms(1,3) by (fastforce simp: Runner_Run_def Let_def and_then_def split: prod.splits sum.splits option.splits if_splits)
  have "distinct (plain_keys is)" by (rule start_all_plain [OF st]) (use assms(2) in \<open>simp_all add: one_each_def\<close>)
  then have "one_each (r\<lparr>rn_tracker := NewQueueStateTracker, rn_instances := is\<rparr>)" using assms(2) by (simp add: one_each_def)
  then show ?thesis using r' by (auto dest: Runner_Shutdown_one_each)
qed

text \<open>What an instance does by itself leaves its identity alone; at most it stops.\<close>

definition same_instance :: "message_handler \<Rightarrow> message_handler \<Rightarrow> bool" where
  "same_instance mh mh' \<longleftrightarrow> instance_key mh' = instance_key mh \<and> mh_ephemeralGroup mh' = mh_ephemeralGroup mh \<and>
     (mh_running mh' \<longrightarrow> mh_running mh)"

lemma same_instance_trans: "same_instance a b \<Longrightarrow> same_instance b c \<Longrightarrow> same_instance a c"
  by (auto simp: same_instance_def)

lemma Shutdown_same:
  assumes "MessageHandler_Shutdown env hx mh s = (Inr mh', s')"
  shows "same_instance mh mh'" "\<not> mh_running mh'"
  using assms by (auto simp: MessageHandler_Shutdown_def Let_def io_ok same_instance_def instance_key_def
      split: if_splits prod.splits)

lemma settle_decision_same: "settle_decision env hx mh d s = (Inr mh', s') \<Longrightarrow> same_instance mh mh'"
  by (auto simp: settle_decision_def io_ok same_instance_def instance_key_def split: settlement.splits prod.splits)

lemma settle_decisions_same: "settle_decisions env hx mh ds s = (Inr mh', s') \<Longrightarrow> same_instance mh mh'"
proof (induction ds arbitrary: mh s)
  case Nil
  then show ?case by (simp add: same_instance_def)
next
  case (Cons d ds)
  from Cons.prems obtain mh1 s1 where "settle_decision env hx mh d s = (Inr mh1, s1)" "settle_decisions env hx mh1 ds s1 = (Inr mh', s')"
    by (auto simp: io_ok)
  then show ?case using Cons.IH settle_decision_same same_instance_trans by metis
qed

lemma handler_round_same:
  assumes "handler_round env hx t mh s = (Inr mh', s')"
  shows "same_instance mh mh'"
proof -
  have "mh' = mh \<or> (\<exists>s1. MessageHandler_Shutdown env hx mh s1 = (Inr mh', s')) \<or>
      (\<exists>ds s1. settle_decisions env hx mh ds s1 = (Inr mh', s'))"
    using assms by (fastforce simp: handler_round_def and_then_def try_io_def split: option.splits prod.splits sum.splits if_splits)
  moreover have "same_instance mh mh" by (simp add: same_instance_def)
  ultimately show ?thesis using Shutdown_same(1) settle_decisions_same by metis
qed

lemma acquireWorkerLock_same: "acquireWorkerLock rd w n b mh s = (Inr mh', s') \<Longrightarrow> same_instance mh mh'"
  by (auto simp: acquireWorkerLock_def and_then_def try_io_def same_instance_def instance_key_def
      split: option.splits prod.splits sum.splits if_splits)

lemma plain_keys_update:
  assumes "same_instance (is ! n) mh'" "n < length is" "distinct (plain_keys is)"
  shows "distinct (plain_keys (is[n := mh']))"
proof -
  define xs where "xs = take n is"
  define ys where "ys = drop (Suc n) is"
  have eq: "xs @ is ! n # ys = is" unfolding xs_def ys_def using assms(2) by (rule id_take_nth_drop [symmetric])
  have "distinct (plain_keys (xs @ is ! n # ys))" unfolding eq by (rule assms(3))
  moreover have "is[n := mh'] = xs @ mh' # ys" unfolding xs_def ys_def using assms(2) by (rule upd_conv_take_nth_drop)
  ultimately show ?thesis using assms(1) by (auto simp: same_instance_def split: if_splits)
qed

subsection \<open>All operations in any order\<close>

inductive runner_step :: "'s smq_env \<Rightarrow> 's \<times> runner \<Rightarrow> 's \<times> runner \<Rightarrow> bool" for env :: "'s smq_env" where
  adds: "AddHandler env hx q g h r s = (Inr r', s') \<Longrightarrow> runner_step env (s, r) (s', r')"
| removes: "RemoveHandler env hx q g r s = (Inr r', s') \<Longrightarrow> runner_step env (s, r) (s', r')"
| runs: "rn_instances r = [] \<Longrightarrow> Runner_Run env hx r s = (Inr (e, r'), s') \<Longrightarrow> runner_step env (s, r) (s', r')"
| starts: "StartHandler env hx q g r s = (Inr (b, r'), s') \<Longrightarrow> runner_step env (s, r) (s', r')"
| stops: "StopHandler env hx q g r s = (Inr (b, r'), s') \<Longrightarrow> runner_step env (s, r) (s', r')"
| hears: "handleStateChange env hx q to r s = (Inr r', s') \<Longrightarrow> runner_step env (s, r) (s', r')"
| reconciles: "reconcile env hx r s = (Inr r', s') \<Longrightarrow> runner_step env (s, r) (s', r')"
| shuts_down: "Runner_Shutdown env hx r s = (Inr r', s') \<Longrightarrow> runner_step env (s, r) (s', r')"
| works: "n < length (rn_instances r) \<Longrightarrow> handler_round env hx t (rn_instances r ! n) s = (Inr mh', s') \<Longrightarrow>
    runner_step env (s, r) (s', r\<lparr>rn_instances := (rn_instances r)[n := mh']\<rparr>)"
| locks: "n < length (rn_instances r) \<Longrightarrow> acquireWorkerLock (env_redis env) w k b (rn_instances r ! n) s = (Inr mh', s') \<Longrightarrow>
    runner_step env (s, r) (s', r\<lparr>rn_instances := (rn_instances r)[n := mh']\<rparr>)"
| others: "runner_step env (s, r) (s', r)"

lemma runner_step_one_each:
  assumes "runner_step env (s, r) (s', r')" "one_each r"
  shows "one_each r'"
  using assms(1)
proof (cases rule: runner_step.cases)
  case (works n hx t mh')
  then show ?thesis using plain_keys_update [OF handler_round_same [OF works(3)]] assms(2) by (simp add: one_each_def)
next
  case (locks n w k b mh')
  then show ?thesis using plain_keys_update [OF acquireWorkerLock_same [OF locks(3)]] assms(2) by (simp add: one_each_def)
qed (use assms(2) in \<open>auto dest: AddHandler_one_each RemoveHandler_one_each Runner_Run_one_each StartHandler_one_each
  StopHandler_one_each handleStateChange_one_each reconcile_one_each Runner_Shutdown_one_each\<close>)

lemma runner_reach_one_each:
  assumes "(runner_step env)\<^sup>*\<^sup>* (s0, r0) (s, r)" "one_each r0"
  shows "one_each r"
proof -
  have "one_each (snd x)" if "(runner_step env)\<^sup>*\<^sup>* (s0, r0) x" for x
    using that by (induction rule: rtranclp_induct) (use assms(2) runner_step_one_each in \<open>auto simp: prod_eq_iff\<close>)
  from this [OF assms(1)] show ?thesis by simp
qed


subsection \<open>Ephemeral groups\<close>

text \<open>A consumer that is registered at an active pub/sub queue with the group \<open>g\<close>.\<close>

definition joined :: "string \<Rightarrow> string \<Rightarrow> queue_params \<Rightarrow> db \<Rightarrow> bool" where
  "joined cid g p d \<longleftrightarrow> (\<exists>h props S c. get_hash d (Queue_Properties (qkey p)) = Inr h \<and> DecodeProps h = Inr props \<and>
     q_DeliveryModel props = DeliveryPubSub \<and> fmlookup h F_OperationalState = Some (itoa StateActive) \<and>
     get_set d (Queue_ConsumerGroups (qkey p)) = Inr S \<and> g |\<in>| S \<and>
     get_hash d (Queue_Consumers (qkey p)) = Inr c \<and> fmlookup c cid \<noteq> None)"

lemma sadd_member:
  assumes "get_set d k = Inr S" "m |\<in>| S"
  shows "sadd (mem_redis lua) k [m] d = (Inr 0, d)"
proof -
  have "d k = Some (RSet S)" using assms by (auto simp: get_set_def split: option.splits rval.splits)
  moreover have "S |\<union>| {|m|} = S" "{|m|} |-| S = {||}" using assms(2) by auto
  ultimately show ?thesis
    using assms by (auto simp: sadd_def mem_redis_def and_then_def redis_apply.simps modify_def put_set_def fun_upd_idem)
qed

lemma operational_state_field: "F_OperationalState = ''11''"
proof -
  have "char_of (49 :: nat) = CHR ''1''" by code_simp
  then show ?thesis by (simp add: schema_defs Field_Key_def itoa_def nat_digits.simps digit_char_def)
qed

lemma subscribe_again:
  assumes "get_hash d (Queue_Properties (qkey p)) = Inr h" "fmlookup h F_OperationalState = Some (itoa StateActive)"
    "get_hash d (Queue_Consumers (qkey p)) = Inr c" "fmlookup c cid \<noteq> None"
  shows "Subscribe_Consumer (mem_redis (smq_scripts other)) host pid now cid p g d = (Inr (), d)"
proof -
  have "d (Queue_Properties (qkey p)) \<noteq> None" using assms(1,2) by (auto simp: get_hash_def split: option.splits)
  then have "lua_subscribe_consumer (redis_apply mem_enum) (subscribe_keys cid p g)
      [cid, info, pj, ''11'', itoa StateActive] d = (Inr (RBulk ''OK''), d)" for info pj
    using assms by (auto simp: lua_subscribe_consumer_def subscribe_keys_def nth1_def lua_int_def lua_hget_def lua_return_def and_then_def
        redis_apply.simps look_def state_or_def operational_state_field Let_def opt_reply_def)
  then show ?thesis
    by (simp add: Subscribe_Consumer_def Let_def and_then_def map_err_def mem_Eval smq_scripts_def String_of_def)
qed

lemma joined_start:
  assumes "joined (rn_consumerID r) g p d" "hc_queue cfg = p"
    "g = (if hc_groupID cfg = [] then ephemeralGroupID (rn_consumerID r) else hc_groupID cfg)"
  shows "\<exists>mh. start_config (mem_env (smq_scripts other)) hx r cfg d = (Inr mh, d) \<and> mh_running mh \<and>
    instance_key mh = (Params_String p, g) \<and> mh_ephemeralGroup mh = (hc_groupID cfg = [])"
proof -
  from assms(1) obtain h props S c where st: "get_hash d (Queue_Properties (qkey p)) = Inr h" "DecodeProps h = Inr props"
    "q_DeliveryModel props = DeliveryPubSub" "fmlookup h F_OperationalState = Some (itoa StateActive)"
    "get_set d (Queue_ConsumerGroups (qkey p)) = Inr S" "g |\<in>| S"
    "get_hash d (Queue_Consumers (qkey p)) = Inr c" "fmlookup c (rn_consumerID r) \<noteq> None" by (auto simp: joined_def)
  have "h \<noteq> fmempty" using st(4) by auto
  then have load: "Queue_Load (mem_redis (smq_scripts other)) p d = (Inr props, d)"
    using mem_reads(4) [OF st(1)] st(2) by (simp add: Queue_Load_def and_then_def map_err_def)
  have "PrepareConsumerGroup (mem_env (smq_scripts other)) (rn_consumerID r) p (hc_groupID cfg) d = (Inr g, d)"
    using load st(3) sadd_member [OF st(5,6)] assms(3)
    by (simp add: PrepareConsumerGroup_def createConsumerGroup_def Let_def and_then_def map_err_def)
  moreover have "g \<noteq> []" "g \<noteq> hc_groupID cfg \<longleftrightarrow> hc_groupID cfg = []" using assms(3) by (auto simp: ephemeralGroupID_def)
  ultimately show ?thesis
    using load subscribe_again [OF st(1,4,7,8)] assms(2)
    by (auto simp: start_config_def MessageHandler_Run_def NewMessageHandler_def Dequeue_Init_def NewDequeueMessage_def Let_def
        and_then_def map_err_def instance_key_def)
qed

text \<open>C40: A handler without a group on a pub/sub queue is started again at every tick of the reconciliation, although it
  runs: its instance goes by the ephemeral group, the configuration by the empty one. After \<open>n\<close> ticks, five
  seconds apart, \<open>n\<close> more instances run, all for the same consumer and the same group.\<close>

theorem reconcile_multiplies:
  assumes "joined (rn_consumerID r) (ephemeralGroupID (rn_consumerID r)) p d" "rn_handlers r = [cfg]" "hc_queue cfg = p" "hc_groupID cfg = []" "IsActive (rn_tracker r) p"
    "\<forall>i \<in> set (rn_instances r). mh_groupID i \<noteq> []"
  shows "\<exists>is. reconcileLoop (mem_env (smq_scripts other)) hx n r d = (Inr (r\<lparr>rn_instances := rn_instances r @ is\<rparr>), d) \<and> length is = n \<and>
    (\<forall>i \<in> set is. mh_running i \<and> instance_key i = (Params_String p, ephemeralGroupID (rn_consumerID r)))"
  using assms
proof (induction n arbitrary: r)
  case 0
  then show ?case by simp
next
  case (Suc n)
  from joined_start [OF Suc.prems(1,3)] Suc.prems(4) obtain mh where st: "start_config (mem_env (smq_scripts other)) hx r cfg d = (Inr mh, d)"
    and mh: "mh_running mh" "instance_key mh = (Params_String p, ephemeralGroupID (rn_consumerID r))" by auto
  let ?r = "r\<lparr>rn_instances := rn_instances r @ [mh]\<rparr>"
  have "to_restart r = [cfg]" using Suc.prems by (auto simp: to_restart_def instance_key_def config_key_def)
  then have tick: "reconcile (mem_env (smq_scripts other)) hx r d = (Inr ?r, d)" using st by (simp add: reconcile_def try_then)
  have "mh_groupID mh \<noteq> []" using mh(2) by (simp add: instance_key_def ephemeralGroupID_def)
  then obtain "is" where "reconcileLoop (mem_env (smq_scripts other)) hx n ?r d = (Inr (?r\<lparr>rn_instances := rn_instances ?r @ is\<rparr>), d)" "length is = n"
    "\<forall>i \<in> set is. mh_running i \<and> instance_key i = (Params_String p, ephemeralGroupID (rn_consumerID r))"
    using Suc.IH [of ?r] Suc.prems by auto
  then show ?case using tick mh by (intro exI [of _ "mh # is"]) (simp add: and_then_def)
qed

definition joined_sample :: db where
  "joined_sample = put_hash (Queue_Consumers (qkey sample_queue)) (fmap_of_list [(''c1'', ''{}'')])
     (put_set (Queue_ConsumerGroups (qkey sample_queue)) {|ephemeralGroupID ''c1'', ''g1''|}
       (created_db 7 sample_queue TypeFIFO DeliveryPubSub None empty_db))"

definition sample_config :: "string \<Rightarrow> handler_config" where
  "sample_config g = \<lparr>hc_queue = sample_queue, hc_groupID = g, hc_handler = (\<lambda>_. Returns None)\<rparr>"

lemma joined_sample: "g \<in> {ephemeralGroupID ''c1'', ''g1''} \<Longrightarrow> joined ''c1'' g sample_queue joined_sample"
proof -
  assume g: "g \<in> {ephemeralGroupID ''c1'', ''g1''}"
  let ?h = "created_hash 7 TypeFIFO DeliveryPubSub None fmempty"
  have neq: "Queue_Properties (qkey sample_queue) \<noteq> Queue_Consumers (qkey sample_queue)"
    "Queue_Properties (qkey sample_queue) \<noteq> Queue_ConsumerGroups (qkey sample_queue)"
    "Queue_ConsumerGroups (qkey sample_queue) \<noteq> Queue_Consumers (qkey sample_queue)"
    by (simp_all add: key_defs Key_eq_iff qkey_def)
  have "get_hash joined_sample (Queue_Properties (qkey sample_queue)) = Inr ?h"
    using neq by (simp add: joined_sample_def created_db_views(3) queue_hash_def empty_db_def)
  moreover have "DecodeProps ?h = Inr (created_props 7 TypeFIFO DeliveryPubSub None)"
    by (rule DecodeProps_created) (simp_all add: enum_defs in_int64_def)
  moreover have "fmlookup ?h F_OperationalState = Some (itoa StateActive)"
    unfolding created_hash_def by (rule hset_all_in) (auto simp: schema_defs)
  ultimately show ?thesis
    using neq g by (auto simp: joined_def created_props_def joined_sample_def fmlookup_of_list)
qed

theorem reconcile_multiplies_witness:
  "\<forall>hx. \<exists>r. reconcileLoop (mem_env (smq_scripts no_scripts)) hx 3
       ((NewMessageHandlerRunner ''c1'' DefaultOptions)\<lparr>rn_handlers := [sample_config []]\<rparr>) joined_sample = (Inr r, joined_sample) \<and>
     length (filter mh_running (rn_instances r)) = 3"
proof
  fix hx
  let ?r = "(NewMessageHandlerRunner ''c1'' DefaultOptions)\<lparr>rn_handlers := [sample_config []]\<rparr>"
  have "joined (rn_consumerID ?r) (ephemeralGroupID (rn_consumerID ?r)) sample_queue joined_sample"
    by (simp add: NewMessageHandlerRunner_def joined_sample)
  from reconcile_multiplies [OF this, of "sample_config []" no_scripts hx 3]
  obtain "is" where "reconcileLoop (mem_env (smq_scripts no_scripts)) hx 3 ?r joined_sample =
      (Inr (?r\<lparr>rn_instances := rn_instances ?r @ is\<rparr>), joined_sample)" "length is = 3" "\<forall>i \<in> set is. mh_running i"
    by (auto simp: NewMessageHandlerRunner_def NewQueueStateTracker_def sample_config_def IsActive_def IsStopped_def IsPaused_def IsLocked_def)
  then show "\<exists>r. reconcileLoop (mem_env (smq_scripts no_scripts)) hx 3 ?r joined_sample = (Inr r, joined_sample) \<and>
      length (filter mh_running (rn_instances r)) = 3"
    by (auto simp: NewMessageHandlerRunner_def filter_id_conv)
qed


subsection \<open>Instances that have stopped\<close>

text \<open>An instance that has stopped itself stays in the list, and \<open>reconcile\<close> puts its successor behind it. \<open>StopHandler\<close>, which
  stops the first instance that fits, then reports success and leaves the running one alone.\<close>

lemma stop_meets_dead:
  assumes "rn_instances r = dead # live # is" "\<not> mh_running dead" "instance_key dead = (Params_String q, g)"
  shows "StopHandler env hx q g r s = (Inr (True, r\<lparr>rn_instances := live # is\<rparr>), s)"
  using assms by (simp add: StopHandler_def MessageHandler_Shutdown_def and_then_def)

end
