(* ===== verification/Runtime.thy ===== *)
theory Runtime
  imports Producer Configuration Consumer_Runner
begin

text \<open>
  The life of the library in a process: \<open>redissmq.go\<close>, with the references that \<open>internal/redis/client.go\<close> and the two
  buses of \<open>internal/eventbus\<close> keep for the process. Checking the connection and loading the scripts, which are
  calls of the Redis client, are the argument \<open>connect\<close>. A Go context is a number; a goroutine that waits for the end
  of a context is an entry of \<open>rt_watched\<close>. \<open>None\<close> stands for a panic, which Go raises when a reference is missing.
  The purge worker is a flag; its work is in \<open>Purging\<close>.
\<close>

subsection \<open>The process\<close>

record 's runtime =
  rt_client :: "'s redis_server option"
  rt_system :: "event_bus option"
  rt_user :: "event_bus option"
  rt_config :: config_manager
  rt_initialized :: bool
  rt_purgeWorker :: bool
  rt_watched :: "nat list"
  rt_consumers :: "consumer list"
  rt_producers :: "producer list"

definition fresh_runtime :: "'s runtime" where
  "fresh_runtime = \<lparr>rt_client = None, rt_system = None, rt_user = None, rt_config = NewConfigManager, rt_initialized = False,
     rt_purgeWorker = False, rt_watched = [], rt_consumers = [], rt_producers = []\<rparr>"

text \<open>What the operations of the library find: \<open>Client()\<close> and \<open>System()\<close> panic without their references.\<close>

definition runtime_env :: "'s runtime \<Rightarrow> 's smq_env option" where
  "runtime_env rt =
     (case rt_client rt of
        None \<Rightarrow> None
      | Some rd \<Rightarrow> map_option (\<lambda>bus. \<lparr>env_redis = rd, env_system = bus, env_user = rt_user rt\<rparr>) (rt_system rt))"

definition registerProducer :: "producer \<Rightarrow> 's runtime \<Rightarrow> 's runtime" where
  "registerProducer p rt = rt\<lparr>rt_producers := rt_producers rt @ [p]\<rparr>"

definition registerConsumer :: "consumer \<Rightarrow> 's runtime \<Rightarrow> 's runtime" where
  "registerConsumer c rt = rt\<lparr>rt_consumers := rt_consumers rt @ [c]\<rparr>"

definition NewProducer :: "string \<Rightarrow> 's runtime \<Rightarrow> producer \<times> 's runtime" where
  "NewProducer uuid rt = (let p = New_Producer uuid in (p, registerProducer p rt))"

definition NewConsumer :: "string \<Rightarrow> (consumer_options \<Rightarrow> consumer_options) list \<Rightarrow> 's runtime \<Rightarrow> consumer \<times> 's runtime" where
  "NewConsumer uuid opts rt = (let c = New_Consumer uuid opts in (c, registerConsumer c rt))"

subsection \<open>Start\<close>

definition Redis_Init :: "('s redis_server \<Rightarrow> ('s, go_error, unit) io) \<Rightarrow> 's redis_server \<Rightarrow> 's runtime
    \<Rightarrow> ('s, go_error, (go_error + 's redis_server) \<times> 's runtime) io" where
  "Redis_Init connect c rt =
     (case rt_client rt of
        Some rd \<Rightarrow> ret (Inr rd, rt)
      | None \<Rightarrow>
          and_then (try_io (connect c)) (\<lambda>r.
          case r of
            Inl err \<Rightarrow> ret (Inl err, rt)
          | Inr _ \<Rightarrow> ret (Inr c, rt\<lparr>rt_client := Some c\<rparr>)))"

definition InitSystem :: "'s runtime \<Rightarrow> 's runtime" where
  "InitSystem rt = (if rt_system rt = None then rt\<lparr>rt_system := Some (EventBus_Start (NewEventBus ''system''))\<rparr> else rt)"

definition Runtime_Init :: "('s redis_server \<Rightarrow> ('s, go_error, unit) io) \<Rightarrow> string \<Rightarrow> bool \<Rightarrow> nat \<Rightarrow> bool \<Rightarrow> 's redis_server \<Rightarrow> 's runtime
    \<Rightarrow> ('s, go_error, go_error option \<times> 's runtime) io" where
  "Runtime_Init connect uuid subscribes ctx single client rt =
     (if \<not> single then
        ret (Some (Errorf ''redissmq: only *redis.Client is supported; cluster and ring clients are not allowed''), rt)
      else if rt_initialized rt then ret (None, rt)
      else
      and_then (Redis_Init connect client rt) (\<lambda>(r, rt1).
      case r of
        Inl err \<Rightarrow> ret (Some (Wrapf ''redissmq: redis init failed'' err), rt1)
      | Inr rd \<Rightarrow>
          (let rt2 = InitSystem rt1 in
           and_then (Config_Init rd uuid subscribes (rt_config rt2)) (\<lambda>(r, m).
           let rt3 = rt2\<lparr>rt_config := m\<rparr> in
           case r of
             Inl err \<Rightarrow> ret (Some (Wrapf ''redissmq: config init failed'' err), rt3)
           | Inr _ \<Rightarrow> ret (None, rt3\<lparr>rt_purgeWorker := True, rt_watched := rt_watched rt3 @ [ctx], rt_initialized := True\<rparr>)))))"

definition InitUserEventBus :: "'s runtime \<Rightarrow> 's runtime" where
  "InitUserEventBus rt = (if rt_user rt = None then rt\<lparr>rt_user := Some (EventBus_Start (NewEventBus ''user''))\<rparr> else rt)"

subsection \<open>Shutdown\<close>

definition ShutdownUserEventBus :: "'s runtime \<Rightarrow> 's runtime" where
  "ShutdownUserEventBus rt = rt\<lparr>rt_user := None\<rparr>"

definition Runtime_Shutdown :: "handler_ctx \<Rightarrow> 's runtime \<Rightarrow> ('s, go_error, ('s runtime \<times> consumer list \<times> producer list) option) io" where
  "Runtime_Shutdown hx rt =
     (if \<not> rt_initialized rt then ret (Some (rt, [], []))
      else
      let rt1 = rt\<lparr>rt_purgeWorker := False, rt_consumers := [], rt_producers := []\<rparr> in
      case runtime_env rt1 of
        None \<Rightarrow> ret None
      | Some env \<Rightarrow>
          and_then (for_io (Consumer_Shutdown env hx) (rt_consumers rt)) (\<lambda>consumers.
          and_then (for_io (Producer_Shutdown env) (rt_producers rt)) (\<lambda>producers.
          let rt2 = (ShutdownUserEventBus rt1)\<lparr>rt_system := None\<rparr> in
          ret (Some (rt2\<lparr>rt_config := Config_Close (rt_config rt2), rt_client := None, rt_initialized := False\<rparr>, consumers, producers)))))"

text \<open>The goroutine of \<open>Init\<close>, when its context ends.\<close>

definition context_done :: "handler_ctx \<Rightarrow> nat \<Rightarrow> 's runtime \<Rightarrow> ('s, go_error, ('s runtime \<times> consumer list \<times> producer list) option) io" where
  "context_done hx ctx rt =
     (if ctx \<in> set (rt_watched rt) then Runtime_Shutdown hx (rt\<lparr>rt_watched := remove1 ctx (rt_watched rt)\<rparr>)
      else ret (Some (rt, [], [])))"

text \<open>A consumer that its user shuts down.\<close>

definition user_shutdown :: "handler_ctx \<Rightarrow> consumer \<Rightarrow> 's runtime \<Rightarrow> ('s, go_error, consumer option) io" where
  "user_shutdown hx cons rt =
     (case runtime_env rt of
        None \<Rightarrow> ret None
      | Some env \<Rightarrow> and_then (Consumer_Shutdown env hx cons) (\<lambda>c. ret (Some c)))"

subsection \<open>All histories of a process\<close>

text \<open>The users of the library change its consumers and producers, and the database changes at any time.\<close>

inductive runtime_step :: "'s \<times> 's runtime \<Rightarrow> 's \<times> 's runtime \<Rightarrow> bool" where
  inits: "Runtime_Init connect uuid subscribes ctx single client rt s = (Inr (e, rt'), s') \<Longrightarrow> runtime_step (s, rt) (s', rt')"
| shuts_down: "Runtime_Shutdown hx rt s = (Inr (Some (rt', cs, ps)), s') \<Longrightarrow> runtime_step (s, rt) (s', rt')"
| cancelled: "context_done hx ctx rt s = (Inr (Some (rt', cs, ps)), s') \<Longrightarrow> runtime_step (s, rt) (s', rt')"
| user_bus: "rt' = InitUserEventBus rt \<or> rt' = ShutdownUserEventBus rt \<Longrightarrow> runtime_step (s, rt) (s, rt')"
| creates: "rt' = snd (NewProducer uuid rt) \<or> rt' = snd (NewConsumer uuid opts rt) \<Longrightarrow> runtime_step (s, rt) (s, rt')"
| configures: "runtime_env rt = Some env \<Longrightarrow> Config_Save env uuid c (rt_config rt) s = (Inr (r, m), s') \<Longrightarrow>
    runtime_step (s, rt) (s', rt\<lparr>rt_config := m\<rparr>)"
| reloads: "rt_client rt = Some rd \<Longrightarrow> Config_Reload rd uuid (rt_config rt) s = (Inr (r, m), s') \<Longrightarrow>
    runtime_step (s, rt) (s', rt\<lparr>rt_config := m\<rparr>)"
| works: "runtime_step (s, rt) (s', rt\<lparr>rt_consumers := cs, rt_producers := ps\<rparr>)"

definition ready :: "'s runtime \<Rightarrow> bool" where
  "ready rt \<longleftrightarrow> (if rt_initialized rt then runtime_env rt \<noteq> None \<and> cm_instance (rt_config rt) \<noteq> None \<and> rt_purgeWorker rt
     else \<not> rt_purgeWorker rt)"

lemma runtime_env_iff: "runtime_env rt \<noteq> None \<longleftrightarrow> rt_client rt \<noteq> None \<and> rt_system rt \<noteq> None"
  by (auto simp: runtime_env_def split: option.splits)

lemma ready_iff: "ready rt \<longleftrightarrow> (if rt_initialized rt then rt_client rt \<noteq> None \<and> rt_system rt \<noteq> None \<and> cm_instance (rt_config rt) \<noteq> None \<and> rt_purgeWorker rt
     else \<not> rt_purgeWorker rt)"
  unfolding ready_def runtime_env_iff by simp

lemma Consumer_Shutdown_stops: "Consumer_Shutdown env hx c s = (Inr c', s') \<Longrightarrow> \<not> cn_running c'"
  by (auto simp: Consumer_Shutdown_def Let_def io_ok split: if_splits)

lemma Producer_Shutdown_stops: "Producer_Shutdown env p s = (Inr p', s') \<Longrightarrow> \<not> prod_running p'"
  by (auto simp: Producer_Shutdown_def io_ok split: if_splits)

lemma for_io_results:
  assumes "for_io f xs s = (Inr ys, s')" "\<And>x s y s'. f x s = (Inr y, s') \<Longrightarrow> P y"
  shows "\<forall>y \<in> set ys. P y"
  using assms(1) by (induction xs arbitrary: s ys) (auto simp: io_ok dest: assms(2))

lemma persist_instance: "persistLocked rd uuid c v m s = (Inr (r, m'), s') \<Longrightarrow> cm_instance m' = cm_instance m"
  by (auto simp: persistLocked_def Let_def and_then_def try_io_def split: prod.splits sum.splits if_splits)

lemma create_instance: "createDefaultsLocked rd uuid m s = (Inr (r, m'), s') \<Longrightarrow>
    (case r of Inr _ \<Rightarrow> cm_instance m' \<noteq> None | Inl _ \<Rightarrow> cm_instance m' = cm_instance m)"
  by (auto simp: createDefaultsLocked_def and_then_def setCurrentConfigLocked_def Let_def dest!: persist_instance split: prod.splits sum.splits)

lemma load_instance: "loadOrCreateLocked rd uuid m s = (Inr (r, m'), s') \<Longrightarrow>
    (case r of Inr _ \<Rightarrow> cm_instance m' \<noteq> None | Inl _ \<Rightarrow> cm_instance m' = cm_instance m)"
  by (auto simp: loadOrCreateLocked_def Let_def and_then_def try_io_def setCurrentConfigLocked_def
      dest!: create_instance split: prod.splits sum.splits option.splits list.splits)

lemma config_instance:
  "Config_Init rd uuid b m s = (Inr (Inr u, m'), s') \<Longrightarrow> cm_instance m' \<noteq> None"
  "Config_Save env uuid c m s = (Inr (r, m'), s') \<Longrightarrow> cm_instance m \<noteq> None \<Longrightarrow> cm_instance m' \<noteq> None"
  "Config_Reload rd uuid m s = (Inr (r2, m'), s') \<Longrightarrow> cm_instance m \<noteq> None \<Longrightarrow> cm_instance m' \<noteq> None"
proof -
  show "Config_Init rd uuid b m s = (Inr (Inr u, m'), s') \<Longrightarrow> cm_instance m' \<noteq> None"
    by (auto simp: Config_Init_def and_then_def dest!: load_instance split: if_splits prod.splits sum.splits)
  show "Config_Save env uuid c m s = (Inr (r, m'), s') \<Longrightarrow> cm_instance m \<noteq> None \<Longrightarrow> cm_instance m' \<noteq> None"
    by (auto simp: Config_Save_def persistAndPublishLocked_def and_then_def setCurrentConfigLocked_def Let_def
        dest!: persist_instance split: option.splits prod.splits sum.splits)
  show "Config_Reload rd uuid m s = (Inr (r2, m'), s') \<Longrightarrow> cm_instance m \<noteq> None \<Longrightarrow> cm_instance m' \<noteq> None"
    by (auto simp: Config_Reload_def dest!: load_instance split: sum.splits)
qed

lemma Init_cases:
  assumes "Runtime_Init connect uuid subscribes ctx single client rt s = (Inr (e, rt'), s')"
  shows "rt_initialized rt \<and> rt' = rt \<or>
    \<not> rt_initialized rt \<and> \<not> rt_initialized rt' \<and> rt_purgeWorker rt' = rt_purgeWorker rt \<and> e \<noteq> None \<or>
    \<not> rt_initialized rt \<and> rt_initialized rt' \<and> rt_purgeWorker rt' \<and> rt_client rt' \<noteq> None \<and> rt_system rt' \<noteq> None \<and>
      cm_instance (rt_config rt') \<noteq> None \<and> rt_watched rt' = rt_watched rt @ [ctx] \<and> e = None"
proof (cases "single \<and> \<not> rt_initialized rt")
  case False
  then show ?thesis using assms by (auto simp: Runtime_Init_def split: if_splits)
next
  case True
  obtain r rt1 s1 where ri: "Redis_Init connect client rt s = (Inr (r, rt1), s1)"
    and rest: "(case r of Inl err \<Rightarrow> e \<noteq> None \<and> rt' = rt1
      | Inr rd \<Rightarrow> \<exists>r m. Config_Init rd uuid subscribes (rt_config (InitSystem rt1)) s1 = (Inr (r, m), s') \<and>
          (case r of Inl err \<Rightarrow> e \<noteq> None \<and> rt' = (InitSystem rt1)\<lparr>rt_config := m\<rparr>
           | Inr _ \<Rightarrow> e = None \<and> rt' = (InitSystem rt1)\<lparr>rt_config := m, rt_purgeWorker := True,
               rt_watched := rt_watched (InitSystem rt1) @ [ctx], rt_initialized := True\<rparr>))"
    using assms True by (auto simp: Runtime_Init_def Let_def and_then_def split: prod.splits sum.splits)
  have rt1: "rt_initialized rt1 = rt_initialized rt" "rt_purgeWorker rt1 = rt_purgeWorker rt" "rt_watched rt1 = rt_watched rt"
    "\<And>rd. r = Inr rd \<Longrightarrow> rt_client rt1 \<noteq> None"
    using ri by (auto simp: Redis_Init_def and_then_def try_io_def split: option.splits prod.splits sum.splits)
  have sys: "rt_initialized (InitSystem rt1) = rt_initialized rt1" "rt_purgeWorker (InitSystem rt1) = rt_purgeWorker rt1"
    "rt_watched (InitSystem rt1) = rt_watched rt1" "rt_client (InitSystem rt1) = rt_client rt1" "rt_system (InitSystem rt1) \<noteq> None"
    by (simp_all add: InitSystem_def)
  show ?thesis
  proof (cases r)
    case (Inl err)
    then show ?thesis using rest True rt1 by simp
  next
    case (Inr rd)
    with rest obtain r2 m where cfg: "Config_Init rd uuid subscribes (rt_config (InitSystem rt1)) s1 = (Inr (r2, m), s')"
      and r2: "case r2 of Inl err \<Rightarrow> e \<noteq> None \<and> rt' = (InitSystem rt1)\<lparr>rt_config := m\<rparr>
           | Inr _ \<Rightarrow> e = None \<and> rt' = (InitSystem rt1)\<lparr>rt_config := m, rt_purgeWorker := True,
               rt_watched := rt_watched (InitSystem rt1) @ [ctx], rt_initialized := True\<rparr>" by auto
    show ?thesis using r2 True rt1 sys Inr config_instance(1) [of rd uuid subscribes _ s1 _ m s'] cfg by (cases r2) auto
  qed
qed

lemma Shutdown_cases:
  assumes "Runtime_Shutdown hx rt s = (Inr x, s')" "ready rt"
  shows "\<not> rt_initialized rt \<and> x = Some (rt, [], []) \<or>
    rt_initialized rt \<and> (\<exists>cs ps. x = Some (rt\<lparr>rt_client := None, rt_system := None, rt_user := None, rt_config := Config_Close (rt_config rt),
        rt_initialized := False, rt_purgeWorker := False, rt_consumers := [], rt_producers := []\<rparr>, cs, ps) \<and>
      length cs = length (rt_consumers rt) \<and> length ps = length (rt_producers rt) \<and>
      (\<forall>c \<in> set cs. \<not> cn_running c) \<and> (\<forall>p \<in> set ps. \<not> prod_running p))"
proof (cases "rt_initialized rt")
  case True
  let ?rt1 = "rt\<lparr>rt_purgeWorker := False, rt_consumers := [], rt_producers := []\<rparr>"
  obtain env where env: "runtime_env ?rt1 = Some env"
    using assms(2) True runtime_env_iff [of rt] runtime_env_iff [of ?rt1] by (auto simp: ready_def)
  obtain cs s1 ps where cs: "for_io (Consumer_Shutdown env hx) (rt_consumers rt) s = (Inr cs, s1)"
    and ps: "for_io (Producer_Shutdown env) (rt_producers rt) s1 = (Inr ps, s')"
    and x: "x = Some (rt\<lparr>rt_client := None, rt_system := None, rt_user := None, rt_config := Config_Close (rt_config rt),
        rt_initialized := False, rt_purgeWorker := False, rt_consumers := [], rt_producers := []\<rparr>, cs, ps)"
    using assms(1) True env by (auto simp: Runtime_Shutdown_def Let_def io_ok ShutdownUserEventBus_def)
  have "\<forall>c \<in> set cs. \<not> cn_running c" by (rule for_io_results [OF cs]) (rule Consumer_Shutdown_stops)
  moreover have "\<forall>p \<in> set ps. \<not> prod_running p" by (rule for_io_results [OF ps]) (rule Producer_Shutdown_stops)
  ultimately show ?thesis using True x for_io_length [OF cs] for_io_length [OF ps] by blast
qed (use assms in \<open>simp add: Runtime_Shutdown_def\<close>)

lemma ready_simps [simp]:
  "ready (rt\<lparr>rt_watched := w\<rparr>) = ready rt" "ready (rt\<lparr>rt_consumers := cs, rt_producers := ps\<rparr>) = ready rt"
  "ready (registerProducer p rt) = ready rt" "ready (registerConsumer c rt) = ready rt"
  "ready (InitUserEventBus rt) = ready rt" "ready (ShutdownUserEventBus rt) = ready rt"
  by (simp_all add: ready_iff registerProducer_def registerConsumer_def InitUserEventBus_def ShutdownUserEventBus_def)

lemma Shutdown_ready: "Runtime_Shutdown hx rt s = (Inr (Some (rt', cs, ps)), s') \<Longrightarrow> ready rt \<Longrightarrow> ready rt' \<and> \<not> rt_initialized rt'"
proof -
  assume run: "Runtime_Shutdown hx rt s = (Inr (Some (rt', cs, ps)), s')" and "ready rt"
  from Shutdown_cases [OF this] this(2) show ?thesis by (elim disjE) (auto simp: ready_iff)
qed

lemma runtime_step_ready:
  assumes "runtime_step (s, rt) (s', rt')" "ready rt"
  shows "ready rt'"
  using assms(1)
proof (cases rule: runtime_step.cases)
  case inits
  then show ?thesis using Init_cases [OF inits] assms(2) by (auto simp: ready_iff)
next
  case shuts_down
  then show ?thesis using Shutdown_ready [OF shuts_down assms(2)] by simp
next
  case (cancelled hx ctx cs ps)
  show ?thesis
  proof (cases "ctx \<in> set (rt_watched rt)")
    case True
    with cancelled have "Runtime_Shutdown hx (rt\<lparr>rt_watched := remove1 ctx (rt_watched rt)\<rparr>) s = (Inr (Some (rt', cs, ps)), s')"
      by (simp add: context_done_def)
    then show ?thesis using Shutdown_ready assms(2) by fastforce
  next
    case False
    with cancelled assms(2) show ?thesis by (simp add: context_done_def)
  qed
next
  case configures
  then show ?thesis using config_instance(2) [OF configures(3)] assms(2) by (auto simp: ready_iff split: if_splits)
next
  case reloads
  then show ?thesis using config_instance(3) [OF reloads(3)] assms(2) by (auto simp: ready_iff split: if_splits)
qed (use assms(2) in \<open>auto simp: NewProducer_def NewConsumer_def Let_def\<close>)

lemma runtime_reach_ready:
  assumes "runtime_step\<^sup>*\<^sup>* (s0, rt0) (s, rt)" "ready rt0"
  shows "ready rt"
proof -
  have "ready (snd x)" if "runtime_step\<^sup>*\<^sup>* (s0, rt0) x" for x
    using that by (induction rule: rtranclp_induct) (use assms(2) runtime_step_ready in \<open>auto simp: prod_eq_iff\<close>)
  from this [OF assms(1)] show ?thesis by simp
qed



subsection \<open>Restarts\<close>

text \<open>The goroutine of \<open>Init\<close> outlives a shutdown. When the library is started again with another context, the end of the first context
  shuts the second runtime down.\<close>

lemma stale_context_stops_runtime:
  assumes "Runtime_Init k1 u1 b1 ctx1 True c1 rt0 s0 = (Inr (None, rt1), s1)" "\<not> rt_initialized rt0" "ready rt0"
    "Runtime_Shutdown hx rt1 s1 = (Inr (Some (rt2, cs, ps)), s2)"
    "Runtime_Init k2 u2 b2 ctx2 True c2 rt2 s2 = (Inr (None, rt3), s3)"
    "context_done hx ctx1 rt3 s3 = (Inr x, s4)"
  shows "rt_initialized rt3 \<and> (\<exists>rt4 cs ps. x = Some (rt4, cs, ps) \<and> \<not> rt_initialized rt4 \<and> runtime_env rt4 = None)"
proof -
  have 1: "rt_initialized rt1" "ctx1 \<in> set (rt_watched rt1)" "ready rt1"
    using Init_cases [OF assms(1)] assms(2) by (auto simp: ready_iff)
  have 2: "\<not> rt_initialized rt2" "ctx1 \<in> set (rt_watched rt2)" "ready rt2"
    using Shutdown_cases [OF assms(4) 1(3)] 1 by (auto simp: ready_iff)
  have 3: "rt_initialized rt3" "ctx1 \<in> set (rt_watched rt3)" "ready rt3"
    using Init_cases [OF assms(5)] 2 by (auto simp: ready_iff)
  let ?rt = "rt3\<lparr>rt_watched := remove1 ctx1 (rt_watched rt3)\<rparr>"
  have "Runtime_Shutdown hx ?rt s3 = (Inr x, s4)" "ready ?rt" using assms(6) 3 by (simp_all add: context_done_def)
  from Shutdown_cases [OF this] 3(1) show ?thesis by (auto simp: runtime_env_def)
qed

text \<open>A consumer may not be shut down after the library: also a consumer that has stopped asks for the client to remove its keys.\<close>

lemma late_shutdown_panics:
  assumes "Runtime_Shutdown hx rt s = (Inr (Some (rt', cs, ps)), s')" "ready rt" "rt_initialized rt" "c \<in> set cs"
  shows "\<not> cn_running c \<and> user_shutdown hx' c rt' s1 = (Inr None, s1)"
  using Shutdown_cases [OF assms(1,2)] assms(3,4) by (auto simp: user_shutdown_def runtime_env_def)

text \<open>A start that fails after the connection was made keeps the client, and the next start with another client uses the first one.\<close>

lemma failed_init_keeps_client:
  assumes "rt_client rt = Some c1"
  shows "Redis_Init connect c2 rt s = (Inr (Inr c1, rt), s)"
  using assms by (simp add: Redis_Init_def)

end
