(* ===== verification/Spec2Isabelle.thy ===== *)
theory Spec2Isabelle
  imports Queue_Manager Runtime
begin

text \<open>
  A verification library for go-redis-smq, a message queue on Redis.

  \<^bold>\<open>The program.\<close> Producers publish messages to queues or to exchanges, consumers check them out,
  acknowledge or return them. All shared state is in Redis; a client is stateless apart from caches
  and event handlers. Each operation is Go code that reads from Redis, decides, and then changes
  Redis by one Lua script or by one transaction (WATCH, MULTI, EXEC) that is retried when a watched
  key has changed. The handlers of a consumer compete for a lock; the one that holds it runs the
  background tasks of the queue: requeuing, publishing what is scheduled, recovering what dead
  consumers and dead purge workers have left.

  \<^bold>\<open>How it is modelled.\<close> Operations are functions in a state and error monad
  (\<open>Smq_Prelude\<close>). The Redis server is a parameter, a record of its operations (\<open>Redis_Server\<close>); what
  the program relies on is the locale \<open>redis\<close>: a request either has the documented effect on the
  database (\<open>Redis_Data\<close>), or it fails on the way, in which case the effect has happened or not; a
  transaction is all or nothing; reads and publications change nothing. The order in which sets and
  hashes are enumerated is left open. The locale is interpreted on an in-memory server. Lua scripts
  are programs over the same commands (\<open>Lua_Queue\<close>, \<open>Lua_Message\<close>, and those of jobs, locks and the
  configuration in their theories); \<open>smq_scripts\<close> is the table of scripts. Time, random ids and the
  name of the host are arguments. Goroutines are sequences of steps: a tick of a loop is one call.
  Commands of other clients are not interleaved with those of one operation, except at the level of
  whole scripts and of whole operations, where step relations cover all interleavings
  (\<open>Queue_State\<close>, \<open>Queue_Runs\<close>, \<open>Purge_Jobs\<close>, \<open>Worker_Lock\<close>, \<open>Configuration\<close>, \<open>Consumer_Runner\<close>,
  \<open>Runtime\<close>).

  \<^bold>\<open>Theories.\<close>
  \<^item> \<open>Smq_Prelude\<close>, \<open>Go_Strings\<close>, \<open>Go_Json\<close>, \<open>Go_Regexp\<close>, \<open>Smq_Errors\<close>: the monad, strings and
    integers of Go, JSON text with printer and parser, regular expressions by derivatives, errors.
  \<^item> \<open>Redis_Keys\<close>, \<open>Redis_Data\<close>, \<open>Redis_Server\<close>, \<open>Redis_Client\<close>, \<open>Redis_Effects\<close>:
    \<open>internal/redis\<close> with its keys, and the rules for operations that read, decide and write once.
  \<^item> \<open>Event_Bus\<close>: \<open>internal/eventbus\<close>, \<open>internal/eventmultiplexer\<close>, the events of queues.
  \<^item> \<open>Queue_Types\<close>, \<open>Queue_Codec\<close>, \<open>Lua_Queue\<close>, \<open>Queue_Scripts\<close>, \<open>Queue_Store\<close>, \<open>Queue_State\<close>:
    \<open>pkg/queue\<close>, \<open>internal/queue\<close>, \<open>internal/ratelimit\<close>: data, codecs, creation and deletion, states
    and locks. \<open>Queue_Manager\<close>: the validator, the listings, browsing, and \<open>internal/namespace\<close>.
  \<^item> \<open>Exchange_Types\<close>, \<open>Exchange_Store\<close>, \<open>Exchange_Bindings\<close>, \<open>Binding_Index\<close>,
    \<open>Exchange_Routing\<close>, \<open>Topic_Match\<close>: \<open>pkg/exchange\<close>, \<open>internal/exchange\<close>: exchanges, bindings,
    routing.
  \<^item> \<open>Message_Types\<close>, \<open>Message_Envelope\<close>, \<open>Message_Codec\<close>, \<open>Message_Store\<close>: \<open>pkg/message\<close>,
    \<open>internal/message\<close>: the builder of messages, schedules, the stored form, reading and deleting.
  \<^item> \<open>Lua_Message\<close>, \<open>Publishing\<close>, \<open>Consuming\<close>, \<open>Requeuing\<close>, \<open>Scheduling\<close>: the scripts that move
    messages, and the Go functions that build their keys and arguments.
  \<^item> \<open>Message_Queue\<close>, \<open>Message_Lifecycle\<close>, \<open>Queue_Runs\<close>, \<open>Queue_Delivery\<close>: an abstract queue (record
    \<open>mq\<close>), a weakest-precondition calculus for scripts, the refinement of the abstract operations
    by the scripts, and the properties of all runs.
  \<^item> \<open>Queue_Client\<close>, \<open>Dequeue\<close>, \<open>Batching\<close>, \<open>Consumer_Groups\<close>, \<open>Background_Tasks\<close>, \<open>Producer\<close>: the Go
    code of \<open>internal/producer\<close> and \<open>internal/consumer\<close> that calls the scripts: taking, settling in
    batches, groups, heartbeats, recovery, the sweeps of the background tasks, production.
  \<^item> \<open>Purge_Jobs\<close>, \<open>Purging\<close>: the jobs that empty a queue, their scripts, manager and worker, and the
    recovery of locks that dead jobs have left.
  \<^item> \<open>Worker_Lock\<close>: \<open>internal/util/lock\<close>. \<open>Configuration\<close>: \<open>pkg/config\<close>, \<open>internal/config\<close>.
  \<^item> \<open>Message_Handler\<close>, \<open>Consumer_Runner\<close>: the handler of one queue, the runner that starts and stops
    handlers, the tracker of queue states, and the consumer itself.
  \<^item> \<open>Runtime\<close>: \<open>redissmq.go\<close>, the start and the shutdown of the library in a process.

  \<^bold>\<open>What is shown.\<close> Every property about an operation says what the operation can come to: what
  holds and has changed on success, that refusals change nothing and which condition each of them
  reports, and what is left after a failure of the connection.
  \<^item> Queues (\<open>Queue_State\<close>, \<open>Queue_Store\<close>): the script of states refines an abstract machine, and the
    invariant of states, locks and histories holds under all interleavings of scripts.
  \<^item> Messages (\<open>Queue_Delivery\<close>): under all interleavings no message is lost or in two places, the
    counters are exact, a FIFO queue keeps the order, and what waits is handed out.
  \<^item> Bindings (\<open>Exchange_Routing\<close>): the three levels of binding data always agree, binding and
    unbinding are insertion and removal of one pair, routing through a topic exchange is the AMQP
    rule.
  \<^item> Clients (\<open>Dequeue\<close>, \<open>Batching\<close>, \<open>Consumer_Groups\<close>, \<open>Background_Tasks\<close>, \<open>Producer\<close>): outcomes of
    taking, settling, recovering and producing as runs of the abstract queue. \<open>Message_Handler\<close> composes them: what
    becomes of a message from the pop to its settlement.
  \<^item> Life cycles: a purge job is in the one list that its status names; a lock has one owner and a
    lost lock is not touched; saved configurations form one history that all managers follow; a
    runner has at most one running instance for a queue and a group; an initialised library has all that
    its operations ask for.
  \<^item> Data: round trips of messages and properties, well-formedness of whatever the setters build,
    schedules that end.
  \<^item> Faults of the code are theorems as well: what goes wrong is proved of the model on the inputs
    that show it, and the text before the theorem says so.

  \<^bold>\<open>Fuel and bounds.\<close> The JSON parser recurses on fuel equal to the length of the text, which
  the round-trip theorem shows to be enough for every printed text. Loops that end only with their
  context (the attempts of \<open>Acquire\<close>, the rounds of a purge, of its worker, of the dequeue loop and of
  the reconciliation) take the number of rounds, or a list with one entry for each round, as an argument; their
  properties hold for every number. Integers are unbounded with the range of Go's \<open>int64\<close> checked where the
  code parses or stores them, and with wrap-around where sums may leave it.

  \<^bold>\<open>Not modelled.\<close> The check of the connection and the loading of scripts, which are calls of a
  third-party client (an argument of \<open>Runtime_Init\<close>); the logger; the typed wrappers of event subscriptions, which decode by reflection and
  call a function of the user; the managers of queues and exchanges whose methods
  are single calls of modelled operations; random and floating-point backoffs, which are an
  argument. CRON expressions are parsed by a third-party package, a parameter. Within one Go
  operation, races of goroutines on the memory of a process are outside the model, as each operation
  runs as a whole.
\<close>

end
